(* ===== verification/Prelude.thy ===== *)
theory Prelude
  imports
    Main
    "HOL-Library.State_Monad"
    "HOL-Library.Monad_Syntax"
    "HOL-Library.Char_ord"
    "HOL-Library.List_Lexorder"
begin

text \<open>
  The shared vocabulary of the development: Go errors as values, a weakest-precondition
  calculus for programs in the state monad (\<open>wp\<close>, with its rule collection \<open>wp_simps\<close>),
  and generic lemmas on lists that several components use.
\<close>

section \<open>Rule collections\<close>

named_theorems wp_simps "equations that push a postcondition through a program"

section \<open>Go errors\<close>

text \<open>
  A Go \<^verbatim>\<open>error\<close> is nil or a value. Sentinels are compared by identity
  (\<^verbatim>\<open>errors.Is\<close>), \<open>Wrap\<close> is \<^verbatim>\<open>fmt.Errorf("msg: %w", err)\<close>,
  \<open>Noted\<close> is \<^verbatim>\<open>fmt.Errorf("%w msg", err)\<close> and \<open>Join\<close> is a
  non-empty \<^verbatim>\<open>errors.Join\<close>. Nil is \<open>None\<close> of \<open>gerror option\<close>.
\<close>

datatype gerror =
    Sentinel string
  | Err string
  | Wrap string gerror
  | Noted gerror string
  | Join "gerror list"

type_synonym 'a fallible = "gerror + 'a"

fun error_is :: "gerror \<Rightarrow> gerror \<Rightarrow> bool" where
  "error_is (Wrap m e) t \<longleftrightarrow> Wrap m e = t \<or> error_is e t"
| "error_is (Noted e m) t \<longleftrightarrow> Noted e m = t \<or> error_is e t"
| "error_is (Join es) t \<longleftrightarrow> Join es = t \<or> (\<exists>e \<in> set es. error_is e t)"
| "error_is e t \<longleftrightarrow> e = t"

definition errors_join :: "gerror option list \<Rightarrow> gerror option" where
  "errors_join es =
     (let live = List.map_filter id es in if live = [] then None else Some (Join live))"

definition deadline_exceeded :: gerror where
  "deadline_exceeded = Sentinel ''context deadline exceeded''"

text \<open>\<^verbatim>\<open>err.Error()\<close>: the text an error prints.\<close>

fun err_text :: "gerror \<Rightarrow> string" where
  "err_text (Sentinel s) = s"
| "err_text (Err s) = s"
| "err_text (Wrap m e) = m @ '': '' @ err_text e"
| "err_text (Noted e m) = err_text e @ m"
| "err_text (Join es) = concat (case map err_text es of [] \<Rightarrow> [] | t # ts \<Rightarrow>
      t # map (\<lambda>u. CHR 0x0A # u) ts)"

lemma errors_join_None [simp]: "errors_join es = None \<longleftrightarrow> (\<forall>e \<in> set es. e = None)"
  by (induction es) (auto simp: errors_join_def Let_def List.map_filter_def)

lemma errors_join_ex: "(\<exists>e. errors_join es = Some e) \<longleftrightarrow> (\<exists>e \<in> set es. e \<noteq> None)"
  using errors_join_None [of es] by (cases "errors_join es") auto

section \<open>Programs in the state monad and their weakest preconditions\<close>

definition wp :: "('s, 'a) state \<Rightarrow> ('a \<Rightarrow> 's \<Rightarrow> bool) \<Rightarrow> 's \<Rightarrow> bool" where
  "wp m Q s \<longleftrightarrow> (case run_state m s of (a, t) \<Rightarrow> Q a t)"

lemma wp_return [wp_simps]: "wp (State_Monad.return x) Q = Q x"
  by (simp add: wp_def State_Monad.return_def fun_eq_iff)

lemma wp_bind [wp_simps]: "wp (State_Monad.bind m f) Q s = wp m (\<lambda>a. wp (f a) Q) s"
  by (simp add: wp_def State_Monad.bind_def split: prod.split)

lemma wp_get [wp_simps]: "wp State_Monad.get Q s = Q s s"
  by (simp add: wp_def State_Monad.get_def)

lemma wp_set [wp_simps]: "wp (State_Monad.set t) Q s = Q () t"
  by (simp add: wp_def State_Monad.set_def)

lemma wp_update [wp_simps]: "wp (State_Monad.update f) Q s = Q () (f s)"
  by (simp add: wp_def State_Monad.update_def State_Monad.bind_def State_Monad.get_def
      State_Monad.set_def)

lemma wp_State [wp_simps]: "wp (State f) Q s = (case f s of (a, t) \<Rightarrow> Q a t)"
  by (simp add: wp_def)

lemma wp_if [wp_simps]:
  "wp (if b then m else n) Q s = (if b then wp m Q s else wp n Q s)"
  by simp

lemma wp_case_option [wp_simps]:
  "wp (case x of None \<Rightarrow> m | Some y \<Rightarrow> f y) Q s =
     (case x of None \<Rightarrow> wp m Q s | Some y \<Rightarrow> wp (f y) Q s)"
  by (cases x) auto

lemma wp_case_sum [wp_simps]:
  "wp (case x of Inl a \<Rightarrow> f a | Inr b \<Rightarrow> g b) Q s =
     (case x of Inl a \<Rightarrow> wp (f a) Q s | Inr b \<Rightarrow> wp (g b) Q s)"
  by (cases x) auto

lemma wp_case_prod [wp_simps]:
  "wp (case x of (a, b) \<Rightarrow> f a b) Q s = (case x of (a, b) \<Rightarrow> wp (f a b) Q s)"
  by (cases x) auto

lemma wp_mono: "wp m Q s \<Longrightarrow> (\<And>a t. Q a t \<Longrightarrow> R a t) \<Longrightarrow> wp m R s"
  by (auto simp: wp_def)

lemma wp_conj: "wp m Q s \<Longrightarrow> wp m R s \<Longrightarrow> wp m (\<lambda>a t. Q a t \<and> R a t) s"
  by (auto simp: wp_def)

lemma wp_run: "wp m Q s \<Longrightarrow> run_state m s = (a, t) \<Longrightarrow> Q a t"
  by (simp add: wp_def)

lemma wpI: "(\<And>a t. run_state m s = (a, t) \<Longrightarrow> Q a t) \<Longrightarrow> wp m Q s"
  by (auto simp: wp_def)

section \<open>Programs that may fail\<close>

text \<open>
  \<^verbatim>\<open>if err != nil { return err }\<close> after a call that returns a value and an error, and after a call
  that returns an error only.
\<close>

definition attempt ::
  "('s, 'a fallible) state \<Rightarrow> ('a \<Rightarrow> ('s, 'b fallible) state) \<Rightarrow> ('s, 'b fallible) state" where
  "attempt m k = do {
     answer \<leftarrow> m;
     case answer of Inl e \<Rightarrow> State_Monad.return (Inl e) | Inr a \<Rightarrow> k a }"

definition check ::
  "('s, gerror option) state \<Rightarrow> ('s, gerror option) state \<Rightarrow> ('s, gerror option) state" where
  "check m k = do {
     failed \<leftarrow> m;
     case failed of Some e \<Rightarrow> State_Monad.return (Some e) | None \<Rightarrow> k }"

definition wrapped :: "string \<Rightarrow> ('s, gerror option) state \<Rightarrow> ('s, gerror option) state" where
  "wrapped msg m = do { failed \<leftarrow> m; State_Monad.return (map_option (Wrap msg) failed) }"

lemma wp_attempt [wp_simps]: "wp (attempt m k) Q s =
    wp m (\<lambda>answer t. case answer of Inl e \<Rightarrow> Q (Inl e) t | Inr a \<Rightarrow> wp (k a) Q t) s"
  by (simp add: attempt_def wp_def State_Monad.return_def State_Monad.bind_def
      split: prod.split sum.split)

lemma wp_check [wp_simps]: "wp (check m k) Q s =
    wp m (\<lambda>failed t. case failed of Some e \<Rightarrow> Q (Some e) t | None \<Rightarrow> wp k Q t) s"
  by (simp add: check_def wp_def State_Monad.return_def State_Monad.bind_def
      split: prod.split option.split)

lemma wp_wrapped [wp_simps]:
  "wp (wrapped msg m) Q s = wp m (\<lambda>failed t. Q (map_option (Wrap msg) failed) t) s"
  by (simp add: wrapped_def wp_def State_Monad.return_def State_Monad.bind_def split: prod.split)

section \<open>Programs within a relation\<close>

text \<open>Every run relates the first world to the last.\<close>

definition world_within :: "('w \<Rightarrow> 'w \<Rightarrow> bool) \<Rightarrow> ('w, 'a) state \<Rightarrow> bool" where
  "world_within R m \<longleftrightarrow> (\<forall>w. wp m (\<lambda>_ w'. R w w') w)"

end
