(* ===== verification/Netip.thy ===== *)
theory Netip
  imports Prelude "HOL-Library.Word"
begin

text \<open>
  The part of Go's \<^verbatim>\<open>net/netip\<close> the program relies on: addresses, prefixes, masking.
  An address is the zero value, an IPv4 address or an IPv6 address with its zone; a prefix is
  an address with its length, \<open>None\<close> for the invalid prefix.
\<close>

datatype addr = Addr_zero | Addr4 "32 word" | Addr6 "128 word" string

datatype netip_prefix = Prefix (prefix_addr: addr) (prefix_bits: "nat option")

fun addr_is4 :: "addr \<Rightarrow> bool" where
  "addr_is4 (Addr4 _) = True"
| "addr_is4 _ = False"

fun addr_bit_len :: "addr \<Rightarrow> nat" where
  "addr_bit_len Addr_zero = 0"
| "addr_bit_len (Addr4 _) = 32"
| "addr_bit_len (Addr6 _ _) = 128"

definition prefix_is_valid :: "netip_prefix \<Rightarrow> bool" where
  "prefix_is_valid p \<longleftrightarrow> prefix_bits p \<noteq> None"

text \<open>\<^verbatim>\<open>PrefixFrom\<close> drops the zone and is invalid when the length does not fit.\<close>

fun addr_without_zone :: "addr \<Rightarrow> addr" where
  "addr_without_zone (Addr6 w _) = Addr6 w []"
| "addr_without_zone a = a"

definition prefix_from :: "addr \<Rightarrow> int \<Rightarrow> netip_prefix" where
  "prefix_from a b =
     Prefix (addr_without_zone a)
       (if a \<noteq> Addr_zero \<and> 0 \<le> b \<and> b \<le> int (addr_bit_len a) then Some (nat b) else None)"

text \<open>The network address: all bits after the first \<open>n\<close> are zero.\<close>

definition mask_word :: "nat \<Rightarrow> 'a::len word \<Rightarrow> 'a word" where
  "mask_word n w = push_bit (LENGTH('a) - n) (drop_bit (LENGTH('a) - n) w)"

fun addr_masked :: "nat \<Rightarrow> addr \<Rightarrow> addr" where
  "addr_masked n (Addr4 w) = Addr4 (mask_word n w)"
| "addr_masked n (Addr6 w z) = Addr6 (mask_word n w) []"
| "addr_masked n Addr_zero = Addr_zero"

text \<open>\<^verbatim>\<open>Masked\<close> yields the zero prefix for an invalid one.\<close>

fun prefix_masked :: "netip_prefix \<Rightarrow> netip_prefix" where
  "prefix_masked (Prefix a (Some n)) = Prefix (addr_masked n a) (Some n)"
| "prefix_masked (Prefix a None) = Prefix Addr_zero None"

lemma mask_word_idem [simp]: "mask_word n (mask_word n w) = mask_word n w"
  by (rule bit_word_eqI) (auto simp: mask_word_def bit_push_bit_iff bit_drop_bit_eq)

lemma addr_masked_idem [simp]: "addr_masked n (addr_masked n a) = addr_masked n a"
  by (cases a) auto

lemma prefix_masked_idem [simp]: "prefix_masked (prefix_masked p) = prefix_masked p"
  by (cases p rule: prefix_masked.cases) auto

lemma prefix_masked_valid [simp]: "prefix_is_valid (prefix_masked p) = prefix_is_valid p"
  by (cases p rule: prefix_masked.cases) (auto simp: prefix_is_valid_def)

lemma addr_is4_masked [simp]: "addr_is4 (addr_masked n a) = addr_is4 a"
  by (cases a) auto

end
