(* ===== verification/Engine_Types.thy ===== *)
theory Engine_Types
  imports Prelude Netip
begin

text \<open>
  The engine-neutral contracts of \<^verbatim>\<open>internal/engine/types.go\<close>: capture plans and their
  validation, capabilities, prepared cores, health, and the launch-argument rewrite of
  \<^verbatim>\<open>runtime_clone.go\<close>.
\<close>

section \<open>Capabilities\<close>

record capabilities =
  HotReload :: bool
  Proxies :: bool
  Groups :: bool
  Selection :: bool
  Delay :: bool
  ProxyProviders :: bool
  RuleProviders :: bool
  Rules :: bool
  Connections :: bool
  CloseConnection :: bool
  CloseAllConnections :: bool
  RoutingMode :: bool
  TrafficStream :: bool
  RuleMutation :: bool
  ProcessLogs :: bool

definition no_capabilities :: capabilities where
  "no_capabilities = \<lparr>HotReload = False, Proxies = False, Groups = False, Selection = False,
     Delay = False, ProxyProviders = False, RuleProviders = False, Rules = False,
     Connections = False, CloseConnection = False, CloseAllConnections = False,
     RoutingMode = False, TrafficStream = False, RuleMutation = False, ProcessLogs = False\<rparr>"

text \<open>A capability is a string in the source; any unknown name is unsupported.\<close>

definition supports :: "capabilities \<Rightarrow> string \<Rightarrow> bool" where
  "supports c capability =
     (if capability = ''hot-reload'' then HotReload c
      else if capability = ''proxies'' then Proxies c
      else if capability = ''groups'' then Groups c
      else if capability = ''selection'' then Selection c
      else if capability = ''delay'' then Delay c
      else if capability = ''proxy-providers'' then ProxyProviders c
      else if capability = ''rule-providers'' then RuleProviders c
      else if capability = ''rules'' then Rules c
      else if capability = ''connections'' then Connections c
      else if capability = ''close-connection'' then CloseConnection c
      else if capability = ''close-all-connections'' then CloseAllConnections c
      else if capability = ''routing-mode'' then RoutingMode c
      else if capability = ''traffic-stream'' then TrafficStream c
      else if capability = ''rule-mutation'' then RuleMutation c
      else if capability = ''process-logs'' then ProcessLogs c
      else False)"

section \<open>Capture plans\<close>

text \<open>Methods and modes are strings in the source, so unknown values are representable.\<close>

record protocol_capture =
  Method :: string
  Port :: "16 word"

record dns_endpoint =
  Enabled :: bool
  Host :: string
  DNSPort :: "16 word"

record destination_capture =
  DestMode :: string
  CIDRs :: "netip_prefix list"

record capture_plan =
  TCP :: protocol_capture
  UDP :: protocol_capture
  DNS :: dns_endpoint
  TUNDevice :: string
  TUNStack :: string
  TUNAddresses :: "netip_prefix list"
  TUNMTU :: "32 word"
  LoopMark :: "32 word"
  FakeIPRanges :: "netip_prefix list"
  Destinations :: destination_capture
  EndpointBypassCIDRs :: "netip_prefix list"
  PlanCapabilities :: capabilities

definition CaptureNone :: string where "CaptureNone = ''none''"
definition CaptureTPROXY :: string where "CaptureTPROXY = ''tproxy''"
definition CaptureRedirect :: string where "CaptureRedirect = ''redirect''"
definition CaptureTUN :: string where "CaptureTUN = ''tun''"
definition DestinationCaptureAll :: string where "DestinationCaptureAll = []"
definition DestinationCaptureAllowlist :: string where
  "DestinationCaptureAllowlist = ''allowlist''"

lemmas capture_consts [simp] = CaptureNone_def CaptureTPROXY_def CaptureRedirect_def
  CaptureTUN_def DestinationCaptureAll_def DestinationCaptureAllowlist_def

definition validate_protocol_capture :: "string \<Rightarrow> protocol_capture \<Rightarrow> gerror option" where
  "validate_protocol_capture protocol c =
     (if Method c = CaptureNone \<or> Method c = CaptureTUN then
        if Port c \<noteq> 0 then Some (Err (protocol @ '' none/tun capture must not specify a port''))
        else None
      else if Method c = CaptureTPROXY \<or> Method c = CaptureRedirect then
        if Port c = 0 then Some (Err (protocol @ '' tproxy/redirect capture requires a port''))
        else None
      else Some (Err (protocol @ '' capture method is unknown'')))"

definition validate_destinations :: "destination_capture \<Rightarrow> gerror option" where
  "validate_destinations d =
     (if DestMode d = DestinationCaptureAll then
        if length (CIDRs d) \<noteq> 0
        then Some (Err ''all-destination capture must not specify CIDRs'') else None
      else if DestMode d = DestinationCaptureAllowlist then
        if length (CIDRs d) = 0
        then Some (Err ''destination allowlist capture requires at least one CIDR'')
        else if \<exists>p \<in> set (CIDRs d). \<not> prefix_is_valid p
        then Some (Err ''destination allowlist contains an invalid CIDR'') else None
      else Some (Err ''destination capture mode is unknown''))"

definition capture_plan_validate :: "capture_plan \<Rightarrow> gerror option" where
  "capture_plan_validate p =
     (case validate_protocol_capture ''TCP'' (TCP p) of Some e \<Rightarrow> Some e | None \<Rightarrow>
      case validate_protocol_capture ''UDP'' (UDP p) of Some e \<Rightarrow> Some e | None \<Rightarrow>
      if (Method (TCP p) = CaptureTUN \<or> Method (UDP p) = CaptureTUN) \<and> TUNDevice p = []
      then Some (Err ''TUN capture requires a device'')
      else if \<exists>a \<in> set (TUNAddresses p). \<not> prefix_is_valid a
      then Some (Err ''capture plan contains an invalid TUN address'')
      else if Enabled (DNS p) \<and> DNSPort (DNS p) = 0
      then Some (Err ''enabled DNS endpoint requires a port'')
      else if \<not> Enabled (DNS p) \<and> (Host (DNS p) \<noteq> [] \<or> DNSPort (DNS p) \<noteq> 0)
      then Some (Err ''disabled DNS endpoint must be empty'')
      else if \<exists>a \<in> set (FakeIPRanges p). \<not> prefix_is_valid a
      then Some (Err ''capture plan contains an invalid fake-IP range'')
      else if \<exists>a \<in> set (EndpointBypassCIDRs p). \<not> prefix_is_valid a \<or> \<not> addr_is4 (prefix_addr a)
      then Some (Err ''capture plan contains an invalid IPv4 endpoint bypass'')
      else validate_destinations (Destinations p))"

section \<open>Prepared cores and health\<close>

record controller_endpoint =
  Listen :: string
  BaseURL :: string
  Secret :: string

record prepared_core =
  Engine :: string
  BinaryPath :: string
  SourceConfigPath :: string
  SourceRevision :: string
  RuntimeConfigPath :: string
  HomeDir :: string
  Args :: "string list"
  Env :: "string list"
  Capture :: capture_plan
  Controller :: controller_endpoint
  CoreCapabilities :: capabilities
  runtimeConfigRoot :: string
  runtimeConfigOwnedPath :: string

record health_status =
  Running :: bool
  ControllerReady :: bool
  DNSReady :: bool
  PID :: int
  Version :: string
  HealthStartedAt :: int
  CheckedAt :: int
  LastExitError :: string

text \<open>The zero values a Go struct literal leaves.\<close>

definition zero_protocol :: protocol_capture where
  "zero_protocol = \<lparr>Method = [], Port = 0\<rparr>"

definition zero_capture :: capture_plan where
  "zero_capture = \<lparr>TCP = zero_protocol, UDP = zero_protocol,
     DNS = \<lparr>Enabled = False, Host = [], DNSPort = 0\<rparr>, TUNDevice = [], TUNStack = [],
     TUNAddresses = [], TUNMTU = 0, LoopMark = 0, FakeIPRanges = [],
     Destinations = \<lparr>DestMode = [], CIDRs = []\<rparr>, EndpointBypassCIDRs = [],
     PlanCapabilities = no_capabilities\<rparr>"

definition zero_core :: prepared_core where
  "zero_core = \<lparr>Engine = [], BinaryPath = [], SourceConfigPath = [], SourceRevision = [],
     RuntimeConfigPath = [], HomeDir = [], Args = [], Env = [], Capture = zero_capture,
     Controller = \<lparr>Listen = [], BaseURL = [], Secret = []\<rparr>, CoreCapabilities = no_capabilities,
     runtimeConfigRoot = [], runtimeConfigOwnedPath = []\<rparr>"

definition zero_health :: health_status where
  "zero_health = \<lparr>Running = False, ControllerReady = False, DNSReady = False, PID = 0,
     Version = [], HealthStartedAt = 0, CheckedAt = 0, LastExitError = []\<rparr>"

abbreviation dns_enabled :: "prepared_core \<Rightarrow> bool" where
  "dns_enabled p \<equiv> Enabled (DNS (Capture p))"

section \<open>What a validated plan looks like\<close>

text \<open>
  The condition the gateway planner relies on, said field by field: a port accompanies exactly
  the methods that redirect to one, a TUN method has its device, the DNS endpoint is absent or
  complete, and the destination list exists exactly in allowlist mode.
\<close>

definition redirecting :: "protocol_capture \<Rightarrow> bool" where
  "redirecting c \<longleftrightarrow> Method c \<in> {CaptureTPROXY, CaptureRedirect}"

definition sound_capture :: "protocol_capture \<Rightarrow> bool" where
  "sound_capture c \<longleftrightarrow>
     Method c \<in> {CaptureNone, CaptureTUN, CaptureTPROXY, CaptureRedirect} \<and>
     (redirecting c \<longleftrightarrow> Port c \<noteq> 0)"

definition sound_destinations :: "destination_capture \<Rightarrow> bool" where
  "sound_destinations d \<longleftrightarrow>
     DestMode d \<in> {DestinationCaptureAll, DestinationCaptureAllowlist} \<and>
     (DestMode d = DestinationCaptureAllowlist \<longleftrightarrow> CIDRs d \<noteq> []) \<and>
     (\<forall>p \<in> set (CIDRs d). prefix_is_valid p)"

definition well_formed_plan :: "capture_plan \<Rightarrow> bool" where
  "well_formed_plan p \<longleftrightarrow>
     (\<forall>c \<in> {TCP p, UDP p}. sound_capture c \<and> (Method c = CaptureTUN \<longrightarrow> TUNDevice p \<noteq> [])) \<and>
     (if Enabled (DNS p) then DNSPort (DNS p) \<noteq> 0
      else DNS p = \<lparr>Enabled = False, Host = [], DNSPort = 0\<rparr>) \<and>
     (\<forall>a \<in> set (TUNAddresses p) \<union> set (FakeIPRanges p) \<union> set (EndpointBypassCIDRs p).
        prefix_is_valid a) \<and>
     (\<forall>a \<in> set (EndpointBypassCIDRs p). addr_is4 (prefix_addr a)) \<and>
     sound_destinations (Destinations p)"

lemma protocol_capture_valid: "validate_protocol_capture name c = None \<longleftrightarrow> sound_capture c"
  by (auto simp: validate_protocol_capture_def redirecting_def sound_capture_def)

lemma destinations_valid: "validate_destinations d = None \<longleftrightarrow> sound_destinations d"
  by (auto simp: validate_destinations_def sound_destinations_def)

lemma dns_absent: "DNS p = \<lparr>Enabled = False, Host = [], DNSPort = 0\<rparr> \<longleftrightarrow>
    \<not> Enabled (DNS p) \<and> Host (DNS p) = [] \<and> DNSPort (DNS p) = 0"
  by (cases "DNS p") auto

text \<open>
  C10. \<open>CapturePlan.Validate\<close> accepts exactly the well-formed plans.
\<close>

theorem capture_plan_validation: "capture_plan_validate p = None \<longleftrightarrow> well_formed_plan p"
proof -
  have "capture_plan_validate p = None \<longleftrightarrow>
      validate_protocol_capture ''TCP'' (TCP p) = None \<and>
      validate_protocol_capture ''UDP'' (UDP p) = None \<and>
      ((Method (TCP p) = CaptureTUN \<or> Method (UDP p) = CaptureTUN) \<longrightarrow> TUNDevice p \<noteq> []) \<and>
      (\<forall>a \<in> set (TUNAddresses p). prefix_is_valid a) \<and>
      (Enabled (DNS p) \<longrightarrow> DNSPort (DNS p) \<noteq> 0) \<and>
      (\<not> Enabled (DNS p) \<longrightarrow> Host (DNS p) = [] \<and> DNSPort (DNS p) = 0) \<and>
      (\<forall>a \<in> set (FakeIPRanges p). prefix_is_valid a) \<and>
      (\<forall>a \<in> set (EndpointBypassCIDRs p). prefix_is_valid a \<and> addr_is4 (prefix_addr a)) \<and>
      validate_destinations (Destinations p) = None"
    unfolding capture_plan_validate_def by (auto simp del: capture_consts split: option.split)
  then show ?thesis
    unfolding well_formed_plan_def protocol_capture_valid destinations_valid dns_absent
    by (auto simp del: capture_consts)
qed

end
