(* ===== verification/Lifecycle.thy ===== *)
theory Lifecycle
  imports Engine_Types
begin

text \<open>
  The core lifecycle of \<^verbatim>\<open>internal/app/lifecycle.go\<close> with the restart guard of
  \<^verbatim>\<open>restart_guard.go\<close>. The Go interfaces a \<^verbatim>\<open>Lifecycle\<close> holds are a record of programs
  over an arbitrary world type \<^typ>\<open>'w\<close>; every operation below runs with the operation lock
  held, so it is one atomic program over the snapshot, the guard flag and the world.
\<close>

section \<open>States, snapshots and dependencies\<close>

datatype lifecycle_state =
    LUnknown | LStopped | LStarting | LRunning | LStopping | LCleanupFailed | LFailed

record lifecycle_snapshot =
  SnapState :: lifecycle_state
  Prepared :: prepared_core
  Health :: health_status
  StartedAt :: int
  LastError :: string
  LastChecked :: int

definition zero_snapshot :: lifecycle_snapshot where
  "zero_snapshot = \<lparr>SnapState = LUnknown, Prepared = zero_core, Health = zero_health,
     StartedAt = 0, LastError = [], LastChecked = 0\<rparr>"

record guard_status =
  GuardActive :: bool
  GuardLastError :: string

record 'w restart_guard =
  rg_enabled :: "('w, bool \<times> gerror option) state"
  rg_begin :: "prepared_core \<Rightarrow> string \<Rightarrow> ('w, bool \<times> gerror option) state"
  rg_verify :: "prepared_core \<Rightarrow> ('w, gerror option) state"
  rg_remove :: "('w, gerror option) state"
  rg_status :: "('w, guard_status) state"

text \<open>
  \<open>ld_wired\<close> says that the three mandatory interfaces are non-nil. The last four fields are
  the Go runtime: \<^verbatim>\<open>ctx.Err()\<close>, \<^verbatim>\<open>time.Now()\<close>, the select between \<^verbatim>\<open>ctx.Done()\<close> and a
  ticker, and taking the operation lock under a context (an error when the context ends
  while waiting) or with \<^verbatim>\<open>TryLock\<close>.
\<close>

record 'w lifecycle_deps =
  ld_wired :: bool
  ld_prepare_active :: "('w, prepared_core fallible) state"
  ld_core_start :: "prepared_core \<Rightarrow> ('w, gerror option) state"
  ld_core_stop :: "('w, gerror option) state"
  ld_core_health :: "('w, health_status \<times> gerror option) state"
  ld_activate :: "prepared_core \<Rightarrow> ('w, gerror option) state"
  ld_deactivate :: "prepared_core \<Rightarrow> ('w, gerror option) state"
  ld_clone_runtime :: "prepared_core \<Rightarrow> ('w, prepared_core fallible) state"
  ld_cleanup_runtime :: "prepared_core \<Rightarrow> ('w, unit) state"
  ld_on_started :: "(prepared_core \<Rightarrow> ('w, gerror option) state) option"
  ld_guard :: "'w restart_guard option"
  ld_ctx_err :: "('w, gerror option) state"
  ld_now :: "('w, int) state"
  ld_select :: "('w, gerror option) state"
  ld_lock :: "('w, gerror option) state"
  ld_try_lock :: "('w, bool) state"

record lifecycle_config =
  PrepareTimeout :: int
  StartTimeout :: int
  ReadyTimeout :: int
  ReadyPollInterval :: int
  MonitorInterval :: int
  ControllerFailures :: int
  CleanupTimeout :: int

record 'w lifecycle =
  lc_config :: lifecycle_config
  lc_snap :: lifecycle_snapshot
  lc_guard_in_progress :: bool
  lc_world :: 'w

text \<open>The value a context carries under \<^verbatim>\<open>panelRestartKey\<close>, if any.\<close>

type_synonym op_ctx = "string option"

type_synonym ('w, 'a) lc = "('w lifecycle, 'a) state"

definition in_world :: "('w, 'a) state \<Rightarrow> ('w, 'a) lc" where
  "in_world m = State (\<lambda>l. case run_state m (lc_world l) of (a, w) \<Rightarrow> (a, l\<lparr>lc_world := w\<rparr>))"

definition snapshot :: "('w, lifecycle_snapshot) lc" where
  "snapshot = do { l \<leftarrow> State_Monad.get; State_Monad.return (lc_snap l) }"

definition update_snap :: "(lifecycle_snapshot \<Rightarrow> lifecycle_snapshot) \<Rightarrow> ('w, unit) lc" where
  "update_snap f = State_Monad.update (\<lambda>l. l\<lparr>lc_snap := f (lc_snap l)\<rparr>)"

section \<open>Configuration defaults\<close>

text \<open>Durations are nanoseconds; a non-positive value selects the default.\<close>

definition seconds :: "int \<Rightarrow> int" where "seconds n = n * 1000000000"
definition milliseconds :: "int \<Rightarrow> int" where "milliseconds n = n * 1000000"

definition config_defaults :: "lifecycle_config \<Rightarrow> lifecycle_config" where
  "config_defaults c = \<lparr>
     PrepareTimeout = (if PrepareTimeout c \<le> 0 then seconds 30 else PrepareTimeout c),
     StartTimeout = (if StartTimeout c \<le> 0 then seconds 30 else StartTimeout c),
     ReadyTimeout = (if ReadyTimeout c \<le> 0 then seconds 20 else ReadyTimeout c),
     ReadyPollInterval =
       (if ReadyPollInterval c \<le> 0 then milliseconds 250 else ReadyPollInterval c),
     MonitorInterval = (if MonitorInterval c \<le> 0 then seconds 2 else MonitorInterval c),
     ControllerFailures = (if ControllerFailures c \<le> 0 then 3 else ControllerFailures c),
     CleanupTimeout = (if CleanupTimeout c \<le> 0 then seconds 10 else CleanupTimeout c)\<rparr>"

definition defaults :: "('w, unit) lc" where
  "defaults = State_Monad.update (\<lambda>l. l\<lparr>lc_config := config_defaults (lc_config l)\<rparr>)"

definition validate :: "'w lifecycle_deps \<Rightarrow> gerror option" where
  "validate d =
     (if ld_wired d then None else Some (Err ''lifecycle dependencies are incomplete''))"

section \<open>Snapshot updates\<close>

definition set_state :: "'w lifecycle_deps \<Rightarrow> lifecycle_state \<Rightarrow> string \<Rightarrow> ('w, unit) lc" where
  "set_state d st msg = do {
     now \<leftarrow> in_world (ld_now d);
     update_snap (\<lambda>s. s\<lparr>SnapState := st, LastError := msg, LastChecked := now\<rparr>) }"

definition mark_cleanup_failed ::
  "'w lifecycle_deps \<Rightarrow> prepared_core \<Rightarrow> gerror \<Rightarrow> ('w, unit) lc" where
  "mark_cleanup_failed d p e = do {
     now \<leftarrow> in_world (ld_now d);
     update_snap (\<lambda>s. s\<lparr>SnapState := LCleanupFailed, Prepared := p, LastError := err_text e,
       LastChecked := now\<rparr>) }"

definition record_health ::
  "'w lifecycle_deps \<Rightarrow> health_status \<Rightarrow> gerror option \<Rightarrow> ('w, unit) lc" where
  "record_health d h err = do {
     now \<leftarrow> in_world (ld_now d);
     update_snap (\<lambda>s.
       let s' = s\<lparr>Health := h, LastChecked := now\<rparr> in
       case err of
         Some e \<Rightarrow> s'\<lparr>LastError := err_text e\<rparr>
       | None \<Rightarrow>
           if SnapState s = LRunning \<and> Running h \<and> ControllerReady h \<and>
              (\<not> dns_enabled (Prepared s) \<or> DNSReady h)
           then s'\<lparr>LastError := []\<rparr> else s') }"

definition fail :: "'w lifecycle_deps \<Rightarrow> gerror \<Rightarrow> ('w, gerror option) lc" where
  "fail d e = do { set_state d LFailed (err_text e); State_Monad.return (Some e) }"

definition fail_after_rollback :: "'w lifecycle_deps \<Rightarrow> gerror \<Rightarrow> ('w, gerror option) lc" where
  "fail_after_rollback d e = do {
     s \<leftarrow> snapshot;
     if SnapState s \<noteq> LCleanupFailed then fail d e
     else do {
       now \<leftarrow> in_world (ld_now d);
       update_snap (\<lambda>s. s\<lparr>LastError := err_text e, LastChecked := now\<rparr>);
       State_Monad.return (Some e) } }"

text \<open>\<open>errors.Join(fmt.Errorf(msg, err), rollbackErr)\<close> before \<open>failAfterRollback\<close>.\<close>

definition fail_joined ::
  "'w lifecycle_deps \<Rightarrow> gerror \<Rightarrow> gerror option \<Rightarrow> ('w, gerror option) lc" where
  "fail_joined d e r = (case errors_join [Some e, r] of
       None \<Rightarrow> State_Monad.return None
     | Some j \<Rightarrow> fail_after_rollback d j)"

definition rollback :: "'w lifecycle_deps \<Rightarrow> prepared_core \<Rightarrow> ('w, gerror option) lc" where
  "rollback d p = do {
     deactivated \<leftarrow> in_world (ld_deactivate d p);
     case deactivated of
       Some e \<Rightarrow> do { mark_cleanup_failed d p e; State_Monad.return (Some e) }
     | None \<Rightarrow> do {
         stopped \<leftarrow> in_world (ld_core_stop d);
         case stopped of
           Some e \<Rightarrow> State_Monad.return (Some e)
         | None \<Rightarrow> do {
             update_snap (\<lambda>s. s\<lparr>Prepared := zero_core, Health := zero_health\<rparr>);
             State_Monad.return None } } }"

definition record_successful_start :: "'w lifecycle_deps \<Rightarrow> prepared_core \<Rightarrow> ('w, unit) lc" where
  "record_successful_start d p = (case ld_on_started d of
       None \<Rightarrow> State_Monad.return ()
     | Some f \<Rightarrow> do { _ \<leftarrow> in_world (f p); State_Monad.return () })"

section \<open>Waiting for readiness\<close>

text \<open>
  One iteration per ticker event. \<open>n\<close> is the number of ticks before the deadline of the
  ready context; when it is used up the context is done, so the recursion is the loop and its
  bound is the deadline of the source, not an artificial fuel.
\<close>

definition core_ready :: "prepared_core \<Rightarrow> health_status \<Rightarrow> bool" where
  "core_ready p h \<longleftrightarrow> Running h \<and> ControllerReady h \<and> (\<not> dns_enabled p \<or> DNSReady h)"

definition wait_error :: "gerror \<Rightarrow> gerror option \<Rightarrow> gerror" where
  "wait_error ctx_err last_err =
     (case last_err of None \<Rightarrow> ctx_err | Some e \<Rightarrow> Join [ctx_err, e])"

fun wait_ready ::
  "'w lifecycle_deps \<Rightarrow> prepared_core \<Rightarrow> nat \<Rightarrow> gerror option \<Rightarrow>
   ('w, health_status \<times> gerror option) lc" where
  "wait_ready d p n last_err = do {
     (h, err) \<leftarrow> in_world (ld_core_health d);
     if core_ready p h \<and> err = None then State_Monad.return (h, None)
     else if \<not> Running h \<and> LastExitError h \<noteq> [] then
       State_Monad.return (h, Some (Err (LastExitError h)))
     else do {
       let last_err' = (case err of None \<Rightarrow> last_err | Some e \<Rightarrow> Some e);
       done \<leftarrow> (case n of 0 \<Rightarrow> State_Monad.return (Some deadline_exceeded)
                       | Suc _ \<Rightarrow> in_world (ld_select d));
       (case done of
         Some e \<Rightarrow> State_Monad.return (h, Some (wait_error e last_err'))
       | None \<Rightarrow> (case n of 0 \<Rightarrow> State_Monad.return (h, Some deadline_exceeded)
                         | Suc m \<Rightarrow> wait_ready d p m last_err')) } }"

declare wait_ready.simps [simp del]

definition ready_polls :: "lifecycle_config \<Rightarrow> nat" where
  "ready_polls c = nat (ReadyTimeout c div ReadyPollInterval c)"

definition wait_ready_timed ::
  "'w lifecycle_deps \<Rightarrow> prepared_core \<Rightarrow> ('w, health_status \<times> gerror option) lc" where
  "wait_ready_timed d p = do {
     l \<leftarrow> State_Monad.get;
     wait_ready d p (ready_polls (lc_config l)) None }"

section \<open>Starting a prepared generation\<close>

text \<open>
  \<open>startPreparedLockedWithAcceptance\<close> in three phases. \<open>commit_activated\<close> is its last one: the
  second readiness probe after the gateway is active, the guard verification and the commit of
  the snapshot.
\<close>

definition verify_guarded :: "'w lifecycle_deps \<Rightarrow> prepared_core \<Rightarrow> ('w, gerror option) lc" where
  "verify_guarded d p = do {
     l \<leftarrow> State_Monad.get;
     if lc_guard_in_progress l then
       (case ld_guard d of None \<Rightarrow> State_Monad.return None
        | Some g \<Rightarrow> in_world (rg_verify g p))
     else State_Monad.return None }"

definition commit_activated :: "'w lifecycle_deps \<Rightarrow> prepared_core \<Rightarrow> ('w, gerror option) lc" where
  "commit_activated d p = do {
     (h, post_err) \<leftarrow> wait_ready_timed d p;
     record_health d h post_err;
     case post_err of
       Some e \<Rightarrow> do {
         r \<leftarrow> rollback d p;
         fail_joined d (Wrap ''core readiness failed after gateway activation'' e) r }
     | None \<Rightarrow> do {
         verified \<leftarrow> verify_guarded d p;
         case verified of
           Some e \<Rightarrow> do {
             r \<leftarrow> rollback d p;
             fail_joined d (Wrap ''verify guarded gateway'' e) r }
         | None \<Rightarrow> do {
             now \<leftarrow> in_world (ld_now d);
             update_snap (\<lambda>_. \<lparr>SnapState = LRunning, Prepared = p, Health = h,
               StartedAt = now, LastError = [], LastChecked = CheckedAt h\<rparr>);
             State_Monad.return None } } }"

definition activate_started :: "'w lifecycle_deps \<Rightarrow> prepared_core \<Rightarrow> ('w, gerror option) lc" where
  "activate_started d p = do {
     (h, ready_err) \<leftarrow> wait_ready_timed d p;
     record_health d h ready_err;
     case ready_err of
       Some e \<Rightarrow> do {
         r \<leftarrow> rollback d p;
         fail_joined d (Wrap ''wait for core readiness'' e) r }
     | None \<Rightarrow> do {
         activated \<leftarrow> in_world (ld_activate d p);
         case activated of
           Some e \<Rightarrow> do {
             r \<leftarrow> rollback d p;
             fail_joined d (Wrap ''activate gateway'' e) r }
         | None \<Rightarrow> commit_activated d p } }"

text \<open>
  The boolean result is the acceptance the callback reports, true from the moment
  \<^verbatim>\<open>Core.Start\<close> has returned nil.
\<close>

definition start_prepared_with_acceptance ::
  "'w lifecycle_deps \<Rightarrow> prepared_core \<Rightarrow> ('w, bool \<times> gerror option) lc" where
  "start_prepared_with_acceptance d p = do {
     set_state d LStarting [];
     update_snap (\<lambda>s. s\<lparr>Prepared := p\<rparr>);
     started \<leftarrow> in_world (ld_core_start d p);
     case started of
       Some e \<Rightarrow> do {
         r \<leftarrow> rollback d p;
         s \<leftarrow> snapshot;
         (if SnapState s \<noteq> LCleanupFailed then in_world (ld_cleanup_runtime d p)
          else State_Monad.return ());
         f \<leftarrow> fail_joined d (Wrap ''start core'' e) r;
         State_Monad.return (False, f) }
     | None \<Rightarrow> do {
         e \<leftarrow> activate_started d p;
         State_Monad.return (True, e) } }"

definition start_prepared_locked ::
  "'w lifecycle_deps \<Rightarrow> prepared_core \<Rightarrow> ('w, gerror option) lc" where
  "start_prepared_locked d p = do {
     (_, e) \<leftarrow> start_prepared_with_acceptance d p;
     State_Monad.return e }"

text \<open>\<open>startLocked\<close> after its guards and the recovery of a stale activation.\<close>

definition prepare_and_start :: "'w lifecycle_deps \<Rightarrow> ('w, gerror option) lc" where
  "prepare_and_start d = do {
     set_state d LStarting [];
     prepared \<leftarrow> in_world (ld_prepare_active d);
     case prepared of
       Inl e \<Rightarrow> fail d (Wrap ''prepare active core'' e)
     | Inr p \<Rightarrow> do {
         e \<leftarrow> start_prepared_locked d p;
         case e of
           Some err \<Rightarrow> State_Monad.return (Some err)
         | None \<Rightarrow> do {
             record_successful_start d p;
             State_Monad.return None } } }"

definition start_locked :: "'w lifecycle_deps \<Rightarrow> ('w, gerror option) lc" where
  "start_locked d = do {
     defaults;
     case validate d of Some e \<Rightarrow> State_Monad.return (Some e) | None \<Rightarrow> do {
       cancelled \<leftarrow> in_world (ld_ctx_err d);
       case cancelled of Some e \<Rightarrow> State_Monad.return (Some e) | None \<Rightarrow> do {
         current \<leftarrow> snapshot;
         if SnapState current = LRunning then State_Monad.return None
         else if SnapState current = LCleanupFailed then
           State_Monad.return
             (Some (Err ''cannot start while owned activation cleanup is unresolved''))
         else do {
           recovered \<leftarrow> (if SnapState current = LUnknown \<or> SnapState current = LFailed
             then rollback d (Prepared current) else State_Monad.return None);
           case recovered of
             Some e \<Rightarrow> fail_after_rollback d (Wrap ''recover stale owned activation'' e)
           | None \<Rightarrow> prepare_and_start d } } } }"

text \<open>Every entry point takes the operation lock first and returns its error.\<close>

definition with_lock :: "'w lifecycle_deps \<Rightarrow> (gerror \<Rightarrow> ('w, 'a) lc) \<Rightarrow> ('w, 'a) lc \<Rightarrow> ('w, 'a) lc"
where
  "with_lock d on_err m = do {
     locked \<leftarrow> in_world (ld_lock d);
     case locked of Some e \<Rightarrow> on_err e | None \<Rightarrow> m }"

definition start :: "'w lifecycle_deps \<Rightarrow> ('w, gerror option) lc" where
  "start d = with_lock d (\<lambda>e. State_Monad.return (Some e)) (start_locked d)"

section \<open>Stopping\<close>

text \<open>The ordered part of a stop: the core is stopped only after the activation is gone.\<close>

definition tear_down :: "'w lifecycle_deps \<Rightarrow> prepared_core \<Rightarrow> ('w, gerror option) lc" where
  "tear_down d p = do {
     deactivated \<leftarrow> in_world (ld_deactivate d p);
     case deactivated of
       Some e \<Rightarrow> do {
         mark_cleanup_failed d p e;
         State_Monad.return (Some e) }
     | None \<Rightarrow> do {
         stopped \<leftarrow> in_world (ld_core_stop d);
         now \<leftarrow> in_world (ld_now d);
         update_snap (\<lambda>s. case stopped of
             Some e \<Rightarrow> s\<lparr>LastChecked := now, SnapState := LFailed, LastError := err_text e\<rparr>
           | None \<Rightarrow> s\<lparr>LastChecked := now, SnapState := LStopped, Health := zero_health,
               LastError := [], Prepared := zero_core\<rparr>);
         State_Monad.return stopped } }"

definition stop_with_cleanup_locked ::
  "'w lifecycle_deps \<Rightarrow> bool \<Rightarrow> ('w, gerror option) lc" where
  "stop_with_cleanup_locked d force_cleanup = do {
     defaults;
     case validate d of Some e \<Rightarrow> State_Monad.return (Some e) | None \<Rightarrow> do {
       current \<leftarrow> snapshot;
       if \<not> force_cleanup \<and> SnapState current = LStopped \<and> BinaryPath (Prepared current) = []
       then State_Monad.return None
       else do {
         set_state d LStopping [];
         tear_down d (Prepared current) } } }"

definition stop_locked :: "'w lifecycle_deps \<Rightarrow> ('w, gerror option) lc" where
  "stop_locked d = stop_with_cleanup_locked d False"

definition stop :: "'w lifecycle_deps \<Rightarrow> ('w, gerror option) lc" where
  "stop d = with_lock d (\<lambda>e. State_Monad.return (Some e)) (do {
     err \<leftarrow> stop_locked d;
     case ld_guard d of
       None \<Rightarrow> State_Monad.return err
     | Some g \<Rightarrow> do {
         status \<leftarrow> in_world (rg_status g);
         if GuardActive status \<or> GuardLastError status \<noteq> [] then do {
           removed \<leftarrow> in_world (rg_remove g);
           State_Monad.return (errors_join [err, removed]) }
         else State_Monad.return err } })"

section \<open>The restart guard of a panel restart\<close>

text \<open>
  \<open>beginRestartGuard\<close>: a non-empty panel reason and a configured guard are required. The
  boolean result says that a guard was installed, that is, that the finish function is not the
  no-op; the finish function is \<open>finish_restart_guard\<close>.
\<close>

definition begin_restart_guard ::
  "'w lifecycle_deps \<Rightarrow> op_ctx \<Rightarrow> prepared_core \<Rightarrow> ('w, bool \<times> gerror option) lc" where
  "begin_restart_guard d ctx current =
     (case (ctx, ld_guard d) of
        (Some (c # cs), Some g) \<Rightarrow> do {
          (active, err) \<leftarrow> in_world (rg_begin g current (c # cs));
          if err \<noteq> None \<or> \<not> active then State_Monad.return (False, err)
          else do {
            State_Monad.update (\<lambda>l. l\<lparr>lc_guard_in_progress := True\<rparr>);
            State_Monad.return (True, None) } }
      | _ \<Rightarrow> State_Monad.return (False, None))"

definition finish_restart_guard :: "'w lifecycle_deps \<Rightarrow> bool \<Rightarrow> ('w, gerror option) lc" where
  "finish_restart_guard d active =
     (case (active, ld_guard d) of
        (True, Some g) \<Rightarrow> do {
          removed \<leftarrow> in_world (rg_remove g);
          State_Monad.update (\<lambda>l. l\<lparr>lc_guard_in_progress := False\<rparr>);
          State_Monad.return (map_option (Wrap ''remove restart guard'') removed) }
      | _ \<Rightarrow> State_Monad.return None)"

definition retry_restart_guard_cleanup :: "'w lifecycle_deps \<Rightarrow> ('w, unit) lc" where
  "retry_restart_guard_cleanup d = (case ld_guard d of
       None \<Rightarrow> State_Monad.return ()
     | Some g \<Rightarrow> do {
         locked \<leftarrow> in_world (ld_try_lock d);
         if \<not> locked then State_Monad.return ()
         else do {
           status \<leftarrow> in_world (rg_status g);
           if GuardLastError status = [] then State_Monad.return ()
           else do { _ \<leftarrow> in_world (rg_remove g); State_Monad.return () } } })"

section \<open>Replacing the live generation\<close>

definition restore_prepared_after_failure ::
  "'w lifecycle_deps \<Rightarrow> prepared_core \<Rightarrow> ('w, bool \<times> gerror option) lc" where
  "restore_prepared_after_failure d p = do {
     failed \<leftarrow> snapshot;
     if SnapState failed = LCleanupFailed \<or> Running (Health failed) then
       State_Monad.return (False, Some (Err
         ''rollback start skipped because the failed target generation may still own the core or dataplane''))
     else start_prepared_with_acceptance d p }"

definition wrap_rollback_error :: "gerror option \<Rightarrow> gerror option" where
  "wrap_rollback_error = map_option (Wrap ''restore previous generation'')"

text \<open>
  The deferred part of \<open>SwitchPrepared\<close> and \<open>reconfigurePreparedLocked\<close>: the guard is
  removed first, then an unconsumed rollback clone is deleted.
\<close>

definition finish_replacement ::
  "'w lifecycle_deps \<Rightarrow> bool \<Rightarrow> bool \<Rightarrow> prepared_core \<Rightarrow> gerror option \<Rightarrow>
   ('w, bool \<times> gerror option) lc" where
  "finish_replacement d active consumed rollback_core err = do {
     g \<leftarrow> finish_restart_guard d active;
     (if consumed then State_Monad.return ()
      else in_world (ld_cleanup_runtime d rollback_core));
     State_Monad.return (True, errors_join [err, g]) }"

text \<open>What follows the commit: on an error the target is stopped and the clone restored.\<close>

definition finish_committed ::
  "'w lifecycle_deps \<Rightarrow> bool \<Rightarrow> string \<Rightarrow> prepared_core \<Rightarrow> prepared_core \<Rightarrow> gerror option \<Rightarrow>
   ('w, bool \<times> gerror option) lc" where
  "finish_committed d active commit_msg target rollback_core committed = (case committed of
       None \<Rightarrow> do {
         record_successful_start d target;
         finish_replacement d active False rollback_core None }
     | Some e \<Rightarrow> do {
         stop_err \<leftarrow> stop_locked d;
         (consumed, restore_err) \<leftarrow> (case stop_err of
             None \<Rightarrow> restore_prepared_after_failure d rollback_core
           | Some _ \<Rightarrow> State_Monad.return (False, None));
         finish_replacement d active consumed rollback_core
           (errors_join [Some (Wrap commit_msg e), stop_err,
              wrap_rollback_error restore_err]) })"

text \<open>
  The common body: the two Go functions differ in the texts of two errors and in whether the
  commit may be absent, so both are instances of \<open>replace_running\<close>. Its part under the guard
  is \<open>replace_guarded\<close>.
\<close>

definition replace_guarded ::
  "'w lifecycle_deps \<Rightarrow> bool \<Rightarrow> string \<Rightarrow> string \<Rightarrow> prepared_core \<Rightarrow> prepared_core \<Rightarrow>
   ('w, gerror option) state option \<Rightarrow> ('w, bool \<times> gerror option) lc" where
  "replace_guarded d active start_msg commit_msg rollback_core target commit = do {
     stopped \<leftarrow> stop_locked d;
     case stopped of
       Some e \<Rightarrow> do {
         in_world (ld_cleanup_runtime d target);
         finish_replacement d active False rollback_core
           (Some (Wrap ''stop previous generation'' e)) }
     | None \<Rightarrow> do {
         started \<leftarrow> start_prepared_locked d target;
         case started of
           Some e \<Rightarrow> do {
             (transferred, restore_err) \<leftarrow> restore_prepared_after_failure d rollback_core;
             finish_replacement d active transferred rollback_core
               (errors_join [Some (Wrap start_msg e), wrap_rollback_error restore_err]) }
         | None \<Rightarrow> do {
             committed \<leftarrow> (case commit of None \<Rightarrow> State_Monad.return None
                           | Some c \<Rightarrow> in_world c);
             finish_committed d active commit_msg target rollback_core committed } } }"

definition replace_cloned ::
  "'w lifecycle_deps \<Rightarrow> op_ctx \<Rightarrow> string \<Rightarrow> string \<Rightarrow> prepared_core \<Rightarrow> prepared_core \<Rightarrow> prepared_core \<Rightarrow>
   ('w, gerror option) state option \<Rightarrow> ('w, bool \<times> gerror option) lc" where
  "replace_cloned d ctx start_msg commit_msg live rollback_core target commit = do {
     (active, guard_err) \<leftarrow> begin_restart_guard d ctx live;
     case guard_err of
       Some e \<Rightarrow> do {
         in_world (ld_cleanup_runtime d target);
         in_world (ld_cleanup_runtime d rollback_core);
         State_Monad.return (True, Some (Wrap ''install restart guard'' e)) }
     | None \<Rightarrow>
         replace_guarded d active start_msg commit_msg rollback_core target commit }"

definition replace_running ::
  "'w lifecycle_deps \<Rightarrow> op_ctx \<Rightarrow> string \<Rightarrow> string \<Rightarrow> prepared_core \<Rightarrow> prepared_core \<Rightarrow>
   ('w, gerror option) state option \<Rightarrow> ('w, bool \<times> gerror option) lc" where
  "replace_running d ctx start_msg commit_msg live target commit = do {
     cloned \<leftarrow> in_world (ld_clone_runtime d live);
     case cloned of
       Inl e \<Rightarrow> do {
         in_world (ld_cleanup_runtime d target);
         State_Monad.return (True, Some (Wrap ''clone live rollback generation'' e)) }
     | Inr rollback_core \<Rightarrow>
         replace_cloned d ctx start_msg commit_msg live rollback_core target commit }"

text \<open>
  Neither function waits in a state other than running: an incomplete operation is an error,
  and otherwise only the commit runs. The target runtime is deleted afterwards (a deferred
  call).
\<close>

definition replace_idle ::
  "'w lifecycle_deps \<Rightarrow> string \<Rightarrow> lifecycle_state \<Rightarrow> prepared_core \<Rightarrow>
   ('w, gerror option) state option \<Rightarrow> ('w, bool \<times> gerror option) lc" where
  "replace_idle d msg st target commit = do {
     result \<leftarrow>
       (if st = LCleanupFailed \<or> st = LStarting \<or> st = LStopping
        then State_Monad.return (Some (Err msg))
        else case commit of None \<Rightarrow> State_Monad.return None | Some c \<Rightarrow> in_world c);
     in_world (ld_cleanup_runtime d target);
     State_Monad.return (False, result) }"

definition switch_prepared ::
  "'w lifecycle_deps \<Rightarrow> op_ctx \<Rightarrow> prepared_core \<Rightarrow> ('w, gerror option) state option \<Rightarrow>
   ('w, bool \<times> gerror option) lc" where
  "switch_prepared d ctx target commit =
     (if Option.is_none commit then do {
        in_world (ld_cleanup_runtime d target);
        State_Monad.return (False, Some (Err ''profile switch commit is required'')) }
      else with_lock d
        (\<lambda>e. do { in_world (ld_cleanup_runtime d target); State_Monad.return (False, Some e) })
        (do {
           defaults;
           case validate d of
             Some e \<Rightarrow> do {
               in_world (ld_cleanup_runtime d target); State_Monad.return (False, Some e) }
           | None \<Rightarrow> do {
               current \<leftarrow> snapshot;
               if SnapState current \<noteq> LRunning then replace_idle d
                 ''cannot change the selected profile during an incomplete lifecycle operation''
                 (SnapState current) target commit
               else replace_running d ctx ''start target generation'' ''commit active profile''
                 (Prepared current) target commit } }))"

definition reconfigure_prepared_locked ::
  "'w lifecycle_deps \<Rightarrow> op_ctx \<Rightarrow> prepared_core \<Rightarrow> ('w, gerror option) state option \<Rightarrow>
   ('w, bool \<times> gerror option) lc" where
  "reconfigure_prepared_locked d ctx target commit = do {
     defaults;
     case validate d of
       Some e \<Rightarrow> do {
         in_world (ld_cleanup_runtime d target); State_Monad.return (False, Some e) }
     | None \<Rightarrow> do {
         current \<leftarrow> snapshot;
         if SnapState current \<noteq> LRunning then replace_idle d
           ''cannot reconfigure during an incomplete lifecycle operation''
           (SnapState current) target commit
         else replace_running d ctx ''start replacement generation''
           ''commit replacement generation'' (Prepared current) target commit } }"

definition reconfigure_prepared ::
  "'w lifecycle_deps \<Rightarrow> op_ctx \<Rightarrow> prepared_core \<Rightarrow> ('w, gerror option) state option \<Rightarrow>
   ('w, bool \<times> gerror option) lc" where
  "reconfigure_prepared d ctx target commit = with_lock d
     (\<lambda>e. do { in_world (ld_cleanup_runtime d target); State_Monad.return (False, Some e) })
     (reconfigure_prepared_locked d ctx target commit)"

definition restart_prepared_locked ::
  "'w lifecycle_deps \<Rightarrow> op_ctx \<Rightarrow> ('w, gerror option) lc" where
  "restart_prepared_locked d ctx = do {
     defaults;
     case validate d of Some e \<Rightarrow> State_Monad.return (Some e) | None \<Rightarrow> do {
       prepared \<leftarrow> in_world (ld_prepare_active d);
       case prepared of
         Inl e \<Rightarrow> State_Monad.return (Some (Wrap ''prepare restart target'' e))
       | Inr target \<Rightarrow> do {
           (_, e) \<leftarrow> reconfigure_prepared_locked d ctx target None;
           State_Monad.return e } } }"

definition stop_then_start :: "'w lifecycle_deps \<Rightarrow> ('w, gerror option) lc" where
  "stop_then_start d = do {
     e \<leftarrow> stop_locked d;
     case e of Some err \<Rightarrow> State_Monad.return (Some err) | None \<Rightarrow> start_locked d }"

definition restart :: "'w lifecycle_deps \<Rightarrow> op_ctx \<Rightarrow> ('w, gerror option) lc" where
  "restart d ctx = with_lock d (\<lambda>e. State_Monad.return (Some e)) (do {
     current \<leftarrow> snapshot;
     case (if ctx \<noteq> None \<and> SnapState current = LRunning then ld_guard d else None) of
       None \<Rightarrow> stop_then_start d
     | Some g \<Rightarrow> do {
         (enabled, err) \<leftarrow> in_world (rg_enabled g);
         case err of
           Some e \<Rightarrow> State_Monad.return (Some e)
         | None \<Rightarrow> if enabled then restart_prepared_locked d ctx else stop_then_start d } })"

definition restart_if_running ::
  "'w lifecycle_deps \<Rightarrow> op_ctx \<Rightarrow> ('w, bool \<times> gerror option) lc" where
  "restart_if_running d ctx = with_lock d (\<lambda>e. State_Monad.return (False, Some e)) (do {
     current \<leftarrow> snapshot;
     if SnapState current \<noteq> LRunning then State_Monad.return (False, None)
     else case (if ctx \<noteq> None then ld_guard d else None) of
       None \<Rightarrow> do { e \<leftarrow> stop_then_start d; State_Monad.return (True, e) }
     | Some g \<Rightarrow> do {
         (enabled, err) \<leftarrow> in_world (rg_enabled g);
         case err of
           Some e \<Rightarrow> State_Monad.return (False, Some e)
         | None \<Rightarrow> if enabled
             then do { e \<leftarrow> restart_prepared_locked d ctx; State_Monad.return (True, e) }
             else do { e \<leftarrow> stop_then_start d; State_Monad.return (True, e) } } })"

section \<open>Adopting a process that survived the manager\<close>

definition adopted_snapshot ::
  "lifecycle_state \<Rightarrow> prepared_core \<Rightarrow> health_status \<Rightarrow> lifecycle_snapshot" where
  "adopted_snapshot st p h = \<lparr>SnapState = st, Prepared = p, Health = h,
     StartedAt = HealthStartedAt h, LastError = [], LastChecked = CheckedAt h\<rparr>"

definition adopt ::
  "'w lifecycle_deps \<Rightarrow> prepared_core \<Rightarrow> health_status \<Rightarrow> ('w, gerror option) lc" where
  "adopt d p h = do {
     defaults;
     case validate d of Some e \<Rightarrow> State_Monad.return (Some e) | None \<Rightarrow>
       if \<not> Running h \<or> PID h \<le> 1
       then State_Monad.return (Some (Err ''cannot adopt a core that is not running''))
       else do {
         update_snap (\<lambda>_. adopted_snapshot LRunning p h);
         State_Monad.return None } }"

text \<open>The readiness, activation and commit of a live adopted process.\<close>

definition rebuild_adopted ::
  "'w lifecycle_deps \<Rightarrow> prepared_core \<Rightarrow> health_status \<Rightarrow> ('w, gerror option) lc" where
  "rebuild_adopted d p h = do {
     (h1, ready_err) \<leftarrow> wait_ready_timed d p;
     record_health d h1 ready_err;
     case ready_err of
       Some e \<Rightarrow> do {
         r \<leftarrow> rollback d p;
         fail_joined d (Wrap ''wait for adopted core readiness'' e) r }
     | None \<Rightarrow> do {
         activated \<leftarrow> in_world (ld_activate d p);
         case activated of
           Some e \<Rightarrow> do {
             r \<leftarrow> rollback d p;
             fail_joined d (Wrap ''activate adopted gateway'' e) r }
         | None \<Rightarrow> do {
             (h2, post_err) \<leftarrow> wait_ready_timed d p;
             record_health d h2 post_err;
             case post_err of
               Some e \<Rightarrow> do {
                 r \<leftarrow> rollback d p;
                 fail_joined d
                   (Wrap ''adopted core readiness failed after gateway activation'' e) r }
             | None \<Rightarrow> do {
                 update_snap (\<lambda>_. \<lparr>SnapState = LRunning, Prepared = p, Health = h2,
                   StartedAt = HealthStartedAt h, LastError = [], LastChecked = CheckedAt h2\<rparr>);
                 record_successful_start d p;
                 State_Monad.return None } } } }"

definition recover_adopted_locked ::
  "'w lifecycle_deps \<Rightarrow> prepared_core \<Rightarrow> health_status \<Rightarrow> ('w, gerror option) lc" where
  "recover_adopted_locked d p h = do {
     defaults;
     case validate d of Some e \<Rightarrow> State_Monad.return (Some e) | None \<Rightarrow> do {
       cancelled \<leftarrow> in_world (ld_ctx_err d);
       case cancelled of Some e \<Rightarrow> State_Monad.return (Some e) | None \<Rightarrow> do {
         update_snap (\<lambda>_. adopted_snapshot LStarting p h);
         if \<not> Running h \<or> PID h \<le> 1 then do {
           r \<leftarrow> rollback d p;
           fail_joined d (Err ''cannot recover a core that is not running'') r }
         else rebuild_adopted d p h } } }"

definition recover_adopted ::
  "'w lifecycle_deps \<Rightarrow> prepared_core \<Rightarrow> health_status \<Rightarrow> ('w, gerror option) lc" where
  "recover_adopted d p h =
     with_lock d (\<lambda>e. State_Monad.return (Some e)) (recover_adopted_locked d p h)"

definition discard_adopted ::
  "'w lifecycle_deps \<Rightarrow> prepared_core \<Rightarrow> health_status \<Rightarrow> ('w, gerror option) lc" where
  "discard_adopted d p h = with_lock d (\<lambda>e. State_Monad.return (Some e)) (do {
     defaults;
     case validate d of Some e \<Rightarrow> State_Monad.return (Some e) | None \<Rightarrow> do {
       update_snap (\<lambda>_. adopted_snapshot LRunning p h);
       stop_locked d } })"

section \<open>The crash monitor\<close>

text \<open>
  One tick of \<open>Monitor\<close>: the argument and the result are the local counter
  \<^verbatim>\<open>controllerFailures\<close>.
\<close>

definition monitor_running :: "'w lifecycle_deps \<Rightarrow> int \<Rightarrow> ('w, int) lc" where
  "monitor_running d failures = do {
     (h, err) \<leftarrow> in_world (ld_core_health d);
     record_health d h err;
     if \<not> Running h then do { _ \<leftarrow> stop_locked d; State_Monad.return 0 }
     else do {
       s \<leftarrow> snapshot;
       if err \<noteq> None \<or> \<not> ControllerReady h \<or> (dns_enabled (Prepared s) \<and> \<not> DNSReady h)
       then do {
         l \<leftarrow> State_Monad.get;
         if failures + 1 \<ge> ControllerFailures (lc_config l)
         then do { _ \<leftarrow> stop_locked d; State_Monad.return 0 }
         else State_Monad.return (failures + 1) }
       else State_Monad.return 0 } }"

definition monitor_tick :: "'w lifecycle_deps \<Rightarrow> int \<Rightarrow> ('w, int) lc" where
  "monitor_tick d failures = do {
     retry_restart_guard_cleanup d;
     current \<leftarrow> snapshot;
     if SnapState current = LCleanupFailed then do { _ \<leftarrow> stop d; State_Monad.return 0 }
     else if SnapState current \<noteq> LRunning then State_Monad.return 0
     else with_lock d (\<lambda>_. State_Monad.return failures) (do {
       current \<leftarrow> snapshot;
       if SnapState current \<noteq> LRunning then State_Monad.return 0
       else monitor_running d failures }) }"

text \<open>\<open>Monitor\<close> runs until its context ends; \<open>n\<close> is the number of ticks it sees.\<close>

fun monitor_ticks :: "'w lifecycle_deps \<Rightarrow> nat \<Rightarrow> int \<Rightarrow> ('w, int) lc" where
  "monitor_ticks d 0 failures = State_Monad.return failures"
| "monitor_ticks d (Suc n) failures = do {
     f \<leftarrow> monitor_tick d failures;
     monitor_ticks d n f }"

definition monitor :: "'w lifecycle_deps \<Rightarrow> nat \<Rightarrow> ('w, unit) lc" where
  "monitor d n = do { defaults; _ \<leftarrow> monitor_ticks d n 0; State_Monad.return () }"

end
