(* ===== verification/Lifecycle_Safety.thy ===== *)
theory Lifecycle_Safety
  imports Lifecycle
begin

text \<open>
  What the lifecycle owes the platform, as a contract. \<open>captured\<close> says that owned capture or DNS
  redirection may be installed, \<open>ready_for\<close> that the core has just answered ready for a given
  generation, and \<open>sound\<close> is the platform's own invariant. The laws are the preconditions the
  platform places on its caller: the core may only be stopped when nothing is captured, and
  the gateway may only be activated for a generation that is ready. The lemmas show that every
  lifecycle operation respects them.
\<close>

section \<open>Programs that keep the platform's state\<close>

definition keeps :: "('w \<Rightarrow> bool) \<Rightarrow> ('w \<Rightarrow> bool) \<Rightarrow> ('w, 'a) state \<Rightarrow> bool" where
  "keeps sound captured m \<longleftrightarrow>
     (\<forall>w. sound w \<longrightarrow> wp m (\<lambda>_ w'. sound w' \<and> (captured w' \<longrightarrow> captured w)) w)"

lemma keeps_wp:
  assumes "keeps sound captured m" and "sound w"
    and "\<And>a w'. sound w' \<Longrightarrow> (captured w' \<longrightarrow> captured w) \<Longrightarrow> Q a w'"
  shows "wp m Q w"
  using assms unfolding keeps_def by (blast intro: wp_mono)

lemma wp_in_world [wp_simps]:
  "wp (in_world m) Q l = wp m (\<lambda>a w. Q a (l\<lparr>lc_world := w\<rparr>)) (lc_world l)"
  by (simp add: in_world_def wp_def split: prod.split)

lemma wp_snapshot [wp_simps]: "wp snapshot Q l = Q (lc_snap l) l"
  by (simp add: snapshot_def wp_simps)

lemma wp_update_snap [wp_simps]:
  "wp (update_snap f) Q l = Q () (l\<lparr>lc_snap := f (lc_snap l)\<rparr>)"
  by (simp add: update_snap_def wp_simps)

lemma wp_defaults [wp_simps]:
  "wp defaults Q l = Q () (l\<lparr>lc_config := config_defaults (lc_config l)\<rparr>)"
  by (simp add: defaults_def wp_simps)

section \<open>The contract\<close>

locale fail_open_platform =
  fixes d :: "'w lifecycle_deps"
    and sound :: "'w \<Rightarrow> bool"
    and captured :: "'w \<Rightarrow> bool"
    and ready_for :: "'w \<Rightarrow> prepared_core \<Rightarrow> bool"
  assumes deactivate_law: "sound w \<Longrightarrow>
        wp (ld_deactivate d p) (\<lambda>r w'. sound w' \<and> (captured w' \<longrightarrow> captured w) \<and>
          (r = None \<longrightarrow> \<not> captured w')) w"
    and core_stop_law: "sound w \<Longrightarrow> \<not> captured w \<Longrightarrow>
        wp (ld_core_stop d) (\<lambda>_ w'. sound w' \<and> \<not> captured w') w"
    and health_law: "sound w \<Longrightarrow>
        wp (ld_core_health d) (\<lambda>r w'. sound w' \<and> (captured w' \<longrightarrow> captured w) \<and>
          (\<forall>p. snd r = None \<and> core_ready p (fst r) \<longrightarrow> ready_for w' p)) w"
    and activate_law: "sound w \<Longrightarrow> ready_for w p \<Longrightarrow> wp (ld_activate d p) (\<lambda>_. sound) w"
    and now_law: "sound w \<Longrightarrow> wp (ld_now d) (\<lambda>_ w'. sound w' \<and> (captured w' \<longrightarrow> captured w) \<and>
          (\<forall>p. ready_for w p \<longrightarrow> ready_for w' p)) w"
    and keeps_start: "keeps sound captured (ld_core_start d p)"
    and keeps_prepare: "keeps sound captured (ld_prepare_active d)"
    and keeps_clone: "keeps sound captured (ld_clone_runtime d p)"
    and keeps_cleanup: "keeps sound captured (ld_cleanup_runtime d p)"
    and keeps_ctx_err: "keeps sound captured (ld_ctx_err d)"
    and keeps_select: "keeps sound captured (ld_select d)"
    and keeps_lock: "keeps sound captured (ld_lock d)"
    and keeps_try_lock: "keeps sound captured (ld_try_lock d)"
    and keeps_on_started: "ld_on_started d = Some f \<Longrightarrow> keeps sound captured (f p)"
    and keeps_guard_enabled: "ld_guard d = Some g \<Longrightarrow> keeps sound captured (rg_enabled g)"
    and keeps_guard_begin: "ld_guard d = Some g \<Longrightarrow> keeps sound captured (rg_begin g p reason)"
    and keeps_guard_verify: "ld_guard d = Some g \<Longrightarrow> keeps sound captured (rg_verify g p)"
    and keeps_guard_remove: "ld_guard d = Some g \<Longrightarrow> keeps sound captured (rg_remove g)"
    and keeps_guard_status: "ld_guard d = Some g \<Longrightarrow> keeps sound captured (rg_status g)"
begin

lemma deactivate_wp:
  assumes "sound w"
    and "\<And>r w'. sound w' \<Longrightarrow> (captured w' \<longrightarrow> captured w) \<Longrightarrow> (r = None \<Longrightarrow> \<not> captured w') \<Longrightarrow> Q r w'"
  shows "wp (ld_deactivate d p) Q w"
  by (rule wp_mono [OF deactivate_law [OF assms(1)]]) (auto intro!: assms(2))

lemma core_stop_wp:
  assumes "sound w" and "\<not> captured w" and "\<And>r w'. sound w' \<Longrightarrow> \<not> captured w' \<Longrightarrow> Q r w'"
  shows "wp (ld_core_stop d) Q w"
  by (rule wp_mono [OF core_stop_law [OF assms(1,2)]]) (auto intro!: assms(3))

lemma health_wp:
  assumes "sound w"
    and "\<And>h e w'. sound w' \<Longrightarrow> (captured w' \<longrightarrow> captured w) \<Longrightarrow>
      (\<And>p. e = None \<Longrightarrow> core_ready p h \<Longrightarrow> ready_for w' p) \<Longrightarrow> Q (h, e) w'"
  shows "wp (ld_core_health d) Q w"
  by (rule wp_mono [OF health_law [OF assms(1)]]) (auto intro!: assms(2))

lemma activate_wp:
  assumes "sound w" and "ready_for w p" and "\<And>r w'. sound w' \<Longrightarrow> Q r w'"
  shows "wp (ld_activate d p) Q w"
  by (rule wp_mono [OF activate_law [OF assms(1,2)]]) (auto intro!: assms(3))

lemma now_wp:
  assumes "sound w"
    and "\<And>r w'. sound w' \<Longrightarrow> (captured w' \<longrightarrow> captured w) \<Longrightarrow>
      (\<And>p. ready_for w p \<Longrightarrow> ready_for w' p) \<Longrightarrow> Q r w'"
  shows "wp (ld_now d) Q w"
  by (rule wp_mono [OF now_law [OF assms(1)]]) (auto intro!: assms(2))

lemmas call_wps = deactivate_wp core_stop_wp health_wp activate_wp now_wp
  keeps_wp [OF keeps_start] keeps_wp [OF keeps_prepare] keeps_wp [OF keeps_clone]
  keeps_wp [OF keeps_cleanup] keeps_wp [OF keeps_ctx_err] keeps_wp [OF keeps_select]
  keeps_wp [OF keeps_lock] keeps_wp [OF keeps_try_lock] keeps_wp [OF keeps_on_started]
  keeps_wp [OF keeps_guard_enabled] keeps_wp [OF keeps_guard_begin]
  keeps_wp [OF keeps_guard_verify] keeps_wp [OF keeps_guard_remove]
  keeps_wp [OF keeps_guard_status]

subsection \<open>The lifecycle invariant\<close>

text \<open>
  Between operations the snapshot is never in a transient state, and a stopped or failed
  snapshot means that nothing is captured.
\<close>

definition settled :: "'w lifecycle \<Rightarrow> bool" where
  "settled l \<longleftrightarrow> sound (lc_world l) \<and>
     SnapState (lc_snap l) \<notin> {LStarting, LStopping} \<and>
     (SnapState (lc_snap l) \<in> {LStopped, LFailed} \<longrightarrow> \<not> captured (lc_world l))"

lemma set_state_wp:
  assumes "sound (lc_world l)"
    and "\<And>w s. sound w \<Longrightarrow> (captured w \<longrightarrow> captured (lc_world l)) \<Longrightarrow> SnapState s = st \<Longrightarrow>
      Q () (l\<lparr>lc_world := w, lc_snap := s\<rparr>)"
  shows "wp (set_state d st m) Q l"
  unfolding set_state_def wp_simps by (rule now_wp) (auto intro!: assms)

lemma fail_wp:
  assumes "sound (lc_world l)" and "\<not> captured (lc_world l)"
    and "\<And>l'. settled l' \<Longrightarrow> SnapState (lc_snap l') = LFailed \<Longrightarrow> Q (Some e) l'"
  shows "wp (fail d e) Q l"
  unfolding fail_def wp_simps
  by (rule set_state_wp) (use assms in \<open>auto simp: settled_def\<close>)

lemma mark_cleanup_failed_wp:
  assumes "sound (lc_world l)"
    and "\<And>l'. settled l' \<Longrightarrow> SnapState (lc_snap l') = LCleanupFailed \<Longrightarrow> Q () l'"
  shows "wp (mark_cleanup_failed d p e) Q l"
  unfolding mark_cleanup_failed_def wp_simps
  by (rule now_wp) (use assms in \<open>auto simp: settled_def\<close>)

text \<open>After a rollback either nothing is captured or the failed cleanup is recorded.\<close>

definition rolled_back :: "'w lifecycle \<Rightarrow> bool" where
  "rolled_back l \<longleftrightarrow> sound (lc_world l) \<and>
     (SnapState (lc_snap l) = LCleanupFailed \<or> \<not> captured (lc_world l))"

lemma rollback_wp:
  assumes "sound (lc_world l)"
    and "\<And>r l'. rolled_back l' \<Longrightarrow> (r = None \<Longrightarrow> \<not> captured (lc_world l')) \<Longrightarrow> Q r l'"
  shows "wp (rollback d p) Q l"
  unfolding rollback_def wp_simps
  by (rule deactivate_wp [OF assms(1)])
    (auto simp: wp_simps rolled_back_def settled_def assms(1) split: option.split
        intro!: mark_cleanup_failed_wp core_stop_wp assms(2))

lemma fail_after_rollback_wp:
  assumes "rolled_back l"
    and "\<And>l'. settled l' \<Longrightarrow> SnapState (lc_snap l') \<in> {LFailed, LCleanupFailed} \<Longrightarrow> Q (Some e) l'"
  shows "wp (fail_after_rollback d e) Q l"
  unfolding fail_after_rollback_def wp_simps
  using assms by (auto simp: rolled_back_def settled_def intro!: fail_wp now_wp)

lemma fail_joined_wp:
  assumes "rolled_back l"
    and "\<And>e' l'. settled l' \<Longrightarrow> SnapState (lc_snap l') \<in> {LFailed, LCleanupFailed} \<Longrightarrow> Q (Some e') l'"
  shows "wp (fail_joined d e r) Q l"
  unfolding fail_joined_def wp_simps
  using assms by (auto split: option.split intro!: fail_after_rollback_wp)

subsection \<open>Readiness and activation\<close>

lemma wait_ready_wp:
  assumes "sound (lc_world l)"
    and "\<And>h e w. sound w \<Longrightarrow> (captured w \<longrightarrow> captured (lc_world l)) \<Longrightarrow>
      (e = None \<Longrightarrow> ready_for w p) \<Longrightarrow> Q (h, e) (l\<lparr>lc_world := w\<rparr>)"
  shows "wp (wait_ready d p n last_err) Q l"
  using assms
proof (induction n arbitrary: l last_err)
  case 0
  show ?case
    by (subst wait_ready.simps, simp only: wp_simps, rule health_wp [OF "0.prems"(1)])
      (auto simp: wp_simps Let_def intro!: "0.prems"(2))
next
  case (Suc n)
  have step: "wp (wait_ready d p n e) Q (l\<lparr>lc_world := w\<rparr>)"
    if "sound w" "captured w \<longrightarrow> captured (lc_world l)" for e w
    by (rule Suc.IH) (use that in \<open>auto intro!: Suc.prems(2)\<close>)
  show ?case
    by (subst wait_ready.simps, simp only: wp_simps, rule health_wp [OF Suc.prems(1)])
      (auto simp: wp_simps Let_def split: option.split
        intro!: Suc.prems(2) step keeps_wp [OF keeps_select])
qed

lemma wait_ready_timed_wp:
  assumes "sound (lc_world l)"
    and "\<And>h e w. sound w \<Longrightarrow> (captured w \<longrightarrow> captured (lc_world l)) \<Longrightarrow>
      (e = None \<Longrightarrow> ready_for w p) \<Longrightarrow> Q (h, e) (l\<lparr>lc_world := w\<rparr>)"
  shows "wp (wait_ready_timed d p) Q l"
  unfolding wait_ready_timed_def wp_simps by (rule wait_ready_wp) (auto intro!: assms)

lemma record_health_wp:
  assumes "sound (lc_world l)"
    and "\<And>w s. sound w \<Longrightarrow> (captured w \<longrightarrow> captured (lc_world l)) \<Longrightarrow>
      (\<And>p. ready_for (lc_world l) p \<Longrightarrow> ready_for w p) \<Longrightarrow>
      SnapState s = SnapState (lc_snap l) \<Longrightarrow> Q () (l\<lparr>lc_world := w, lc_snap := s\<rparr>)"
  shows "wp (record_health d h e) Q l"
  unfolding record_health_def wp_simps
  by (rule now_wp [OF assms(1)]) (auto intro!: assms(2) simp: Let_def split: option.split)

lemma call_on_started_wp:
  assumes "sound (lc_world l)"
    and "\<And>w. sound w \<Longrightarrow> (captured w \<longrightarrow> captured (lc_world l)) \<Longrightarrow> Q () (l\<lparr>lc_world := w\<rparr>)"
  shows "wp (record_successful_start d p) Q l"
  using assms unfolding record_successful_start_def
  by (auto simp: wp_simps split: option.split intro!: keeps_wp [OF keeps_on_started])
    (metis lifecycle.surjective lifecycle.update_convs(4))

text \<open>
  The outcome of a start: on success the generation runs, on failure the state is settled and
  names the failure.
\<close>

definition start_outcome :: "gerror option \<Rightarrow> 'w lifecycle \<Rightarrow> bool" where
  "start_outcome e l \<longleftrightarrow> settled l \<and>
     (case e of None \<Rightarrow> SnapState (lc_snap l) = LRunning
      | Some _ \<Rightarrow> SnapState (lc_snap l) \<in> {LFailed, LCleanupFailed})"

lemma rollback_then_fail_wp:
  assumes "sound (lc_world l)" and "\<And>e' l'. start_outcome (Some e') l' \<Longrightarrow> Q (Some e') l'"
  shows "wp (rollback d p) (\<lambda>r. wp (fail_joined d e r) Q) l"
  by (rule rollback_wp [OF assms(1)])
    (auto intro!: fail_joined_wp assms(2) simp: start_outcome_def)

lemma verify_guarded_wp:
  assumes "sound (lc_world l)"
    and "\<And>r w. sound w \<Longrightarrow> Q r (l\<lparr>lc_world := w\<rparr>)"
  shows "wp (verify_guarded d p) Q l"
proof -
  have same: "Q r l" for r
    using assms(2) [OF assms(1), of r] by simp
  show ?thesis
    using assms unfolding verify_guarded_def
    by (auto simp: wp_simps same split: option.split
        intro!: keeps_wp [OF keeps_guard_verify])
qed

lemma commit_activated_wp:
  assumes "sound (lc_world l)" and "\<And>e l'. start_outcome e l' \<Longrightarrow> Q e l'"
  shows "wp (commit_activated d p) Q l"
  unfolding commit_activated_def wp_simps
  by (rule wait_ready_timed_wp [OF assms(1)])
    (auto simp: wp_simps start_outcome_def settled_def split: option.split
      intro!: assms(2) record_health_wp rollback_then_fail_wp verify_guarded_wp now_wp)

lemma activate_started_wp:
  assumes "sound (lc_world l)" and "\<And>e l'. start_outcome e l' \<Longrightarrow> Q e l'"
  shows "wp (activate_started d p) Q l"
  unfolding activate_started_def wp_simps
  by (rule wait_ready_timed_wp [OF assms(1)])
    (auto simp: wp_simps split: option.split
      intro!: assms(2) record_health_wp rollback_then_fail_wp commit_activated_wp activate_wp)

lemma start_prepared_wp:
  assumes "sound (lc_world l)"
    and "\<And>a e l'. start_outcome e l' \<Longrightarrow> Q (a, e) l'"
  shows "wp (start_prepared_with_acceptance d p) Q l"
  unfolding start_prepared_with_acceptance_def wp_simps
  by (rule set_state_wp [OF assms(1)])
    (auto simp: wp_simps rolled_back_def start_outcome_def split: option.split
      intro!: assms(2) keeps_wp [OF keeps_start] keeps_wp [OF keeps_cleanup]
        activate_started_wp rollback_wp fail_joined_wp)

lemma start_prepared_locked_wp:
  assumes "sound (lc_world l)" and "\<And>e l'. start_outcome e l' \<Longrightarrow> Q e l'"
  shows "wp (start_prepared_locked d p) Q l"
  unfolding start_prepared_locked_def wp_simps
  by (rule start_prepared_wp [OF assms(1)]) (auto simp: wp_simps intro!: assms(2))

subsection \<open>Operations\<close>

lemma settled_sound: "settled l \<Longrightarrow> sound (lc_world l)"
  by (simp add: settled_def)

text \<open>A program that only touches the world and keeps it also keeps a settled lifecycle.\<close>

lemma settled_world:
  "settled l \<Longrightarrow> sound w \<Longrightarrow> (captured w \<longrightarrow> captured (lc_world l)) \<Longrightarrow> settled (l\<lparr>lc_world := w\<rparr>)"
  by (auto simp: settled_def)

lemma settled_keeps_wp:
  assumes "keeps sound captured m" and "settled l"
    and "\<And>a w. settled (l\<lparr>lc_world := w\<rparr>) \<Longrightarrow> Q a (l\<lparr>lc_world := w\<rparr>)"
  shows "wp (in_world m) Q l"
  unfolding wp_simps
  by (rule keeps_wp [OF assms(1)]) (use assms(2,3) in \<open>auto intro: settled_sound settled_world\<close>)

lemma settled_config [simp]: "settled (l\<lparr>lc_config := c\<rparr>) = settled l"
  by (simp add: settled_def)

lemma settled_guard_flag [simp]: "settled (l\<lparr>lc_guard_in_progress := b\<rparr>) = settled l"
  by (simp add: settled_def)

lemma started_wp:
  assumes "settled l" and "SnapState (lc_snap l) = LRunning"
    and "\<And>l'. settled l' \<Longrightarrow> SnapState (lc_snap l') = LRunning \<Longrightarrow> Q () l'"
  shows "wp (record_successful_start d p) Q l"
  by (rule call_on_started_wp [OF settled_sound [OF assms(1)]])
    (auto intro!: assms(3) settled_world [OF assms(1)] simp: assms(2))

lemma prepare_and_start_wp:
  assumes "sound (lc_world l)" and "\<not> captured (lc_world l)"
    and "\<And>e l'. start_outcome e l' \<Longrightarrow> Q e l'"
  shows "wp (prepare_and_start d) Q l"
  unfolding prepare_and_start_def wp_simps
  by (rule set_state_wp [OF assms(1)])
    (use assms(2) in \<open>auto simp: wp_simps start_outcome_def split: sum.split option.split
      intro!: assms(3) keeps_wp [OF keeps_prepare] fail_wp start_prepared_locked_wp started_wp\<close>)

lemma start_locked_wp:
  assumes "settled l"
    and "\<And>e l'. settled l' \<Longrightarrow> (e = None \<Longrightarrow> SnapState (lc_snap l') = LRunning) \<Longrightarrow> Q e l'"
  shows "wp (start_locked d) Q l"
proof -
  have outcome: "Q e l'" if "start_outcome e l'" for e l'
    using that by (auto simp: start_outcome_def split: option.splits intro!: assms(2))
  have settled_at: "settled (l\<lparr>lc_config := c, lc_world := w\<rparr>)"
    if "sound w" "captured w \<longrightarrow> captured (lc_world l)" for c w
    using settled_world [of "l\<lparr>lc_config := c\<rparr>" w] that assms(1) by simp
  note enter = prepare_and_start_wp [where Q = Q, OF _ _ outcome]
  show ?thesis
    unfolding start_locked_def wp_simps
    using assms(1)
    by (cases "SnapState (lc_snap l)")
      (auto simp: wp_simps settled_def rolled_back_def split: option.split
        intro!: assms(2) keeps_wp [OF keeps_ctx_err] rollback_wp
          fail_after_rollback_wp enter)
qed

text \<open>
  Stopping: a nil error means that nothing is captured and the snapshot is stopped.
\<close>

definition stop_outcome :: "gerror option \<Rightarrow> 'w lifecycle \<Rightarrow> bool" where
  "stop_outcome e l \<longleftrightarrow> settled l \<and> (e = None \<longrightarrow> SnapState (lc_snap l) = LStopped)"

lemma tear_down_wp:
  assumes "sound (lc_world l)" and "\<And>e l'. stop_outcome e l' \<Longrightarrow> Q e l'"
  shows "wp (tear_down d p) Q l"
  unfolding tear_down_def wp_simps
  by (rule deactivate_wp [OF assms(1)])
    (auto simp: wp_simps stop_outcome_def settled_def split: option.split
      intro!: assms(2) mark_cleanup_failed_wp core_stop_wp now_wp)

lemma stop_with_cleanup_wp:
  assumes "settled l" and "\<And>e l'. stop_outcome e l' \<Longrightarrow> Q e l'"
  shows "wp (stop_with_cleanup_locked d force) Q l"
  unfolding stop_with_cleanup_locked_def wp_simps
  using assms(1)
  by (auto split: option.split intro!: assms(2) set_state_wp tear_down_wp
      intro: settled_sound simp: stop_outcome_def)

lemma stop_locked_wp:
  assumes "settled l" and "\<And>e l'. stop_outcome e l' \<Longrightarrow> Q e l'"
  shows "wp (stop_locked d) Q l"
  unfolding stop_locked_def by (rule stop_with_cleanup_wp [OF assms])

lemma with_lock_wp:
  assumes "settled l"
    and "\<And>e l'. settled l' \<Longrightarrow> wp (on_err e) Q l'"
    and "\<And>l'. settled l' \<Longrightarrow> wp m Q l'"
  shows "wp (with_lock d on_err m) Q l"
  unfolding with_lock_def wp_bind
  by (rule settled_keeps_wp [OF keeps_lock assms(1)])
    (auto simp: wp_simps split: option.split intro!: assms(2,3))

lemma start_wp:
  assumes "settled l"
    and "\<And>e l'. settled l' \<Longrightarrow> (e = None \<Longrightarrow> SnapState (lc_snap l') = LRunning) \<Longrightarrow> Q e l'"
  shows "wp (start d) Q l"
  unfolding start_def
  by (rule with_lock_wp [OF assms(1)]) (auto simp: wp_simps intro!: assms(2) start_locked_wp)

text \<open>The error that a stop reports covers the teardown and a stale guard.\<close>

lemma stop_wp:
  assumes "settled l" and "\<And>e l'. stop_outcome e l' \<Longrightarrow> Q e l'"
  shows "wp (stop d) Q l"
  unfolding stop_def
    by (rule with_lock_wp [OF assms(1)])
      (auto simp: wp_simps simp del: wp_in_world
        simp: stop_outcome_def split: option.split intro!: stop_locked_wp assms(2)
        settled_keeps_wp [OF keeps_guard_status]
        settled_keeps_wp [OF keeps_guard_remove])

subsection \<open>The guard and the replacement of a generation\<close>

lemma begin_restart_guard_wp:
  assumes "settled l"
    and "\<And>a e l'. settled l' \<Longrightarrow> lc_snap l' = lc_snap l \<Longrightarrow> Q (a, e) l'"
  shows "wp (begin_restart_guard d ctx p) Q l"
  unfolding begin_restart_guard_def
  using assms(1)
  by (auto simp: wp_simps simp del: wp_in_world
        intro!: assms(2) settled_keeps_wp [OF keeps_guard_begin]
      split: option.split list.split)

lemma finish_replacement_wp:
  assumes "settled l" and "\<And>r l'. settled l' \<Longrightarrow> Q r l'"
  shows "wp (finish_replacement d active consumed p e) Q l"
  unfolding finish_replacement_def finish_restart_guard_def
  using assms(1)
  by (auto simp: wp_simps simp del: wp_in_world
        intro!: assms(2) settled_keeps_wp [OF keeps_guard_remove]
      settled_keeps_wp [OF keeps_cleanup] split: option.split bool.split)

lemma restore_wp:
  assumes "settled l" and "\<And>a e l'. settled l' \<Longrightarrow> Q (a, e) l'"
  shows "wp (restore_prepared_after_failure d p) Q l"
  unfolding restore_prepared_after_failure_def
  using assms(1)
  by (auto simp: wp_simps simp del: wp_in_world
        simp: start_outcome_def intro!: assms(2) start_prepared_wp intro: settled_sound)

text \<open>A commit is the caller's program; it must keep the platform's state like any other.\<close>

definition commit_keeps :: "('w, gerror option) state option \<Rightarrow> bool" where
  "commit_keeps commit \<longleftrightarrow> (\<forall>c. commit = Some c \<longrightarrow> keeps sound captured c)"

lemma commit_keepsD: "commit_keeps commit \<Longrightarrow> commit = Some c \<Longrightarrow> keeps sound captured c"
  by (simp add: commit_keeps_def)

lemma restored_wp:
  assumes "settled l" and "\<And>r l'. settled l' \<Longrightarrow> Q r l'"
  shows "wp (restore_prepared_after_failure d p)
    (\<lambda>x. wp (case x of (t, re) \<Rightarrow> finish_replacement d active t p (f re)) Q) l"
  by (rule restore_wp [OF assms(1)]) (auto intro!: finish_replacement_wp assms(2))

lemma replace_after_commit_wp:
  assumes "settled l" and "SnapState (lc_snap l) = LRunning \<or> e \<noteq> None"
    and "\<And>r l'. settled l' \<Longrightarrow> Q r l'"
  shows "wp (finish_committed d active commit_msg target rollback_core e) Q l"
  unfolding finish_committed_def
  using assms(1,2)
  by (auto simp: wp_simps stop_outcome_def split: option.split
      intro!: assms(3) started_wp finish_replacement_wp stop_locked_wp restore_wp)

lemma replace_guarded_wp:
  assumes "settled l" and "commit_keeps commit" and "\<And>r l'. settled l' \<Longrightarrow> Q r l'"
  shows "wp (replace_guarded d active sm cm rb target commit) Q l"
  unfolding replace_guarded_def wp_bind
  by (rule stop_locked_wp [OF assms(1)])
    (auto simp: wp_simps stop_outcome_def start_outcome_def simp del: wp_in_world
      split: option.split
      intro!: assms(3) settled_keeps_wp [OF keeps_cleanup] start_prepared_locked_wp
        finish_replacement_wp restored_wp replace_after_commit_wp
        settled_keeps_wp [OF commit_keepsD [OF assms(2)]] settled_sound)

lemma replace_running_wp:
  assumes "settled l" and "commit_keeps commit" and "\<And>r l'. settled l' \<Longrightarrow> Q r l'"
  shows "wp (replace_running d ctx sm cm live target commit) Q l"
  unfolding replace_running_def replace_cloned_def wp_bind
  by (rule settled_keeps_wp [OF keeps_clone assms(1)])
    (auto simp: wp_simps simp del: wp_in_world split: sum.split option.split
      intro!: assms(2,3) settled_keeps_wp [OF keeps_cleanup] begin_restart_guard_wp
        replace_guarded_wp)

lemma replace_idle_wp:
  assumes "settled l" and "commit_keeps commit" and "\<And>r l'. settled l' \<Longrightarrow> Q r l'"
  shows "wp (replace_idle d msg st target commit) Q l"
  unfolding replace_idle_def wp_bind
  using assms(1)
  by (auto simp: wp_simps simp del: wp_in_world split: option.split
      intro!: assms(3) settled_keeps_wp [OF keeps_cleanup]
        settled_keeps_wp [OF commit_keepsD [OF assms(2)]])

lemma reconfigure_locked_wp:
  assumes "settled l" and "commit_keeps commit" and "\<And>r l'. settled l' \<Longrightarrow> Q r l'"
  shows "wp (reconfigure_prepared_locked d ctx target commit) Q l"
  unfolding reconfigure_prepared_locked_def wp_bind wp_defaults
  using assms(1)
  by (auto simp: wp_simps simp del: wp_in_world split: option.split
      intro!: assms(2,3) settled_keeps_wp [OF keeps_cleanup] replace_idle_wp replace_running_wp)

lemma reconfigure_wp:
  assumes "settled l" and "commit_keeps commit" and "\<And>r l'. settled l' \<Longrightarrow> Q r l'"
  shows "wp (reconfigure_prepared d ctx target commit) Q l"
  unfolding reconfigure_prepared_def
  by (rule with_lock_wp [OF assms(1)])
    (auto simp: wp_simps simp del: wp_in_world
      intro!: assms(2,3) settled_keeps_wp [OF keeps_cleanup] reconfigure_locked_wp)

lemma switch_wp:
  assumes "settled l" and "commit_keeps commit" and "\<And>r l'. settled l' \<Longrightarrow> Q r l'"
  shows "wp (switch_prepared d ctx target commit) Q l"
  unfolding switch_prepared_def
  using assms(1)
  by (auto simp: wp_simps simp del: wp_in_world split: option.split
      intro!: assms(2,3) settled_keeps_wp [OF keeps_cleanup] with_lock_wp
        replace_idle_wp replace_running_wp)

lemma stop_then_start_wp:
  assumes "settled l" and "\<And>r l'. settled l' \<Longrightarrow> Q r l'"
  shows "wp (stop_then_start d) Q l"
  unfolding stop_then_start_def wp_bind
  by (rule stop_locked_wp [OF assms(1)])
    (auto simp: wp_simps stop_outcome_def split: option.split intro!: assms(2) start_locked_wp)

lemma commit_keeps_None [simp]: "commit_keeps None"
  by (simp add: commit_keeps_def)

lemma restart_prepared_locked_wp:
  assumes "settled l" and "\<And>r l'. settled l' \<Longrightarrow> Q r l'"
  shows "wp (restart_prepared_locked d ctx) Q l"
  unfolding restart_prepared_locked_def wp_bind wp_defaults
  using assms(1)
  by (auto simp: wp_simps simp del: wp_in_world split: option.split sum.split
      intro!: assms(2) settled_keeps_wp [OF keeps_prepare] reconfigure_locked_wp)

lemma restart_wp:
  assumes "settled l" and "\<And>r l'. settled l' \<Longrightarrow> Q r l'"
  shows "wp (restart d ctx) Q l"
  unfolding restart_def
  by (rule with_lock_wp [OF assms(1)])
    (auto simp: wp_simps simp del: wp_in_world split: option.split
      intro!: assms(2) settled_keeps_wp [OF keeps_guard_enabled] stop_then_start_wp
        restart_prepared_locked_wp)

lemma restart_if_running_wp:
  assumes "settled l" and "\<And>r l'. settled l' \<Longrightarrow> Q r l'"
  shows "wp (restart_if_running d ctx) Q l"
  unfolding restart_if_running_def
  by (rule with_lock_wp [OF assms(1)])
    (auto simp: wp_simps simp del: wp_in_world split: option.split
      intro!: assms(2) settled_keeps_wp [OF keeps_guard_enabled] stop_then_start_wp
        restart_prepared_locked_wp)

lemma adopt_wp:
  assumes "settled l" and "\<And>r l'. settled l' \<Longrightarrow> Q r l'"
  shows "wp (adopt d p h) Q l"
  unfolding adopt_def
  using assms(1)
  by (auto simp: wp_simps settled_def adopted_snapshot_def split: option.split intro!: assms(2))

lemma recover_adopted_wp:
  assumes "settled l" and "\<And>r l'. settled l' \<Longrightarrow> Q r l'"
  shows "wp (recover_adopted d p h) Q l"
proof -
  have fails: "wp (rollback d p) (\<lambda>r. wp (fail_joined d e r) Q) l'" if "sound (lc_world l')" for e l'
    by (rule rollback_then_fail_wp [OF that]) (auto simp: start_outcome_def intro!: assms(2))
  have rebuild: "wp (rebuild_adopted d p h) Q l'" if "sound (lc_world l')" for l'
    unfolding rebuild_adopted_def wp_bind
    by (rule wait_ready_timed_wp [OF that])
      (auto simp: wp_simps settled_def split: option.split
        intro!: fails assms(2) record_health_wp wait_ready_timed_wp activate_wp started_wp)
  have locked: "wp (recover_adopted_locked d p h) Q l'" if "settled l'" for l'
    unfolding recover_adopted_locked_def wp_bind wp_defaults
    using that settled_sound [OF that]
    by (auto simp: wp_simps split: option.split
        intro!: assms(2) settled_keeps_wp [OF keeps_ctx_err, unfolded wp_in_world]
          keeps_wp [OF keeps_ctx_err] fails rebuild settled_world)
  show ?thesis
    unfolding recover_adopted_def
    by (rule with_lock_wp [OF assms(1)]) (auto simp: wp_simps intro!: assms(2) locked)
qed

lemma discard_adopted_wp:
  assumes "settled l" and "\<And>r l'. settled l' \<Longrightarrow> Q r l'"
  shows "wp (discard_adopted d p h) Q l"
  unfolding discard_adopted_def
  by (rule with_lock_wp [OF assms(1)])
    (auto simp: wp_simps settled_def stop_outcome_def adopted_snapshot_def split: option.split
      intro!: assms(2) stop_locked_wp)

subsection \<open>The monitor\<close>

lemma retry_guard_wp:
  assumes "settled l" and "\<And>l'. settled l' \<Longrightarrow> lc_snap l' = lc_snap l \<Longrightarrow> Q () l'"
  shows "wp (retry_restart_guard_cleanup d) Q l"
  unfolding retry_restart_guard_cleanup_def
  using assms(1)
  by (auto simp: wp_simps simp del: wp_in_world split: option.split
      intro!: assms(2) settled_keeps_wp [OF keeps_try_lock]
        settled_keeps_wp [OF keeps_guard_status] settled_keeps_wp [OF keeps_guard_remove])

lemma monitor_running_wp:
  assumes "settled l" and "SnapState (lc_snap l) = LRunning" and "\<And>r l'. settled l' \<Longrightarrow> Q r l'"
  shows "wp (monitor_running d n) Q l"
  unfolding monitor_running_def wp_simps
  by (rule health_wp [OF settled_sound [OF assms(1)]])
    (use assms(1,2) in \<open>auto simp: wp_simps settled_def stop_outcome_def
      intro!: assms(3) record_health_wp stop_locked_wp\<close>)

lemma monitor_tick_wp:
  assumes "settled l" and "\<And>r l'. settled l' \<Longrightarrow> Q r l'"
  shows "wp (monitor_tick d n) Q l"
  unfolding monitor_tick_def wp_bind
  by (rule retry_guard_wp [OF assms(1)])
    (auto simp: wp_simps stop_outcome_def
      intro!: assms(2) stop_wp with_lock_wp monitor_running_wp)

lemma monitor_wp:
  assumes "settled l" and "\<And>r l'. settled l' \<Longrightarrow> Q r l'"
  shows "wp (monitor d n) Q l"
proof -
  have "wp (monitor_ticks d n f) (\<lambda>_. Q ()) l'" if "settled l'" for f l'
    using that
    by (induction n arbitrary: f l') (auto simp: wp_simps intro!: assms(2) monitor_tick_wp)
  then show ?thesis
    using assms(1) unfolding monitor_def by (simp add: wp_simps)
qed

end

end
