(* ===== verification/Lifecycle_Frame.thy ===== *)
theory Lifecycle_Frame
  imports Lifecycle_Safety
begin

text \<open>
  What the lifecycle does not do. \<open>within R m\<close> says that a program relates its first and last
  world by \<open>R\<close> and leaves the guard flag alone; the contract asks this of every dependency call
  but the installation of a restart guard, and the lemmas extend it to every operation that
  does not install one.
\<close>

definition within :: "('w \<Rightarrow> 'w \<Rightarrow> bool) \<Rightarrow> ('w, 'a) lc \<Rightarrow> bool" where
  "within R m \<longleftrightarrow> (\<forall>l. wp m (\<lambda>_ l'. R (lc_world l) (lc_world l') \<and>
     lc_guard_in_progress l' = lc_guard_in_progress l) l)"

named_theorems within_rules "syntax-directed rules for programs that stay within a relation"

locale call_relation =
  fixes d :: "'w lifecycle_deps" and R :: "'w \<Rightarrow> 'w \<Rightarrow> bool"
  assumes R_refl: "R w w"
    and R_trans: "R u v \<Longrightarrow> R v w \<Longrightarrow> R u w"
    and R_deactivate: "world_within R (ld_deactivate d p)"
    and R_core_stop: "world_within R (ld_core_stop d)"
    and R_health: "world_within R (ld_core_health d)"
    and R_activate: "world_within R (ld_activate d p)"
    and R_now: "world_within R (ld_now d)"
    and R_start: "world_within R (ld_core_start d p)"
    and R_prepare: "world_within R (ld_prepare_active d)"
    and R_clone: "world_within R (ld_clone_runtime d p)"
    and R_cleanup: "world_within R (ld_cleanup_runtime d p)"
    and R_ctx_err: "world_within R (ld_ctx_err d)"
    and R_select: "world_within R (ld_select d)"
    and R_lock: "world_within R (ld_lock d)"
    and R_try_lock: "world_within R (ld_try_lock d)"
    and R_on_started: "ld_on_started d = Some f \<Longrightarrow> world_within R (f p)"
    and R_guard_enabled: "ld_guard d = Some g \<Longrightarrow> world_within R (rg_enabled g)"
    and R_guard_verify: "ld_guard d = Some g \<Longrightarrow> world_within R (rg_verify g p)"
    and R_guard_remove: "ld_guard d = Some g \<Longrightarrow> world_within R (rg_remove g)"
    and R_guard_status: "ld_guard d = Some g \<Longrightarrow> world_within R (rg_status g)"
begin

lemma within_return [within_rules]: "within R (State_Monad.return x)"
  by (simp add: within_def wp_simps R_refl)

lemma within_bind [within_rules]:
  assumes "within R m" and "\<And>a. within R (f a)"
  shows "within R (m \<bind> f)"
  unfolding within_def
proof (intro allI)
  fix l
  show "wp (m \<bind> f) (\<lambda>_ l'. R (lc_world l) (lc_world l') \<and>
      lc_guard_in_progress l' = lc_guard_in_progress l) l"
    unfolding wp_bind
  proof (rule wp_mono [OF assms(1) [unfolded within_def, rule_format]])
    fix a and t :: "'w lifecycle"
    assume t: "R (lc_world l) (lc_world t) \<and> lc_guard_in_progress t = lc_guard_in_progress l"
    show "wp (f a) (\<lambda>_ l'. R (lc_world l) (lc_world l') \<and>
        lc_guard_in_progress l' = lc_guard_in_progress l) t"
      by (rule wp_mono [OF assms(2) [unfolded within_def, rule_format]])
        (use t in \<open>auto intro: R_trans\<close>)
  qed
qed

lemma within_in_world [within_rules]: "world_within R m \<Longrightarrow> within R (in_world m)"
  by (simp add: within_def world_within_def wp_simps)

lemma within_get [within_rules]: "within R State_Monad.get"
  by (simp add: within_def wp_simps R_refl)

lemma within_snapshot [within_rules]: "within R snapshot"
  by (simp add: within_def wp_simps R_refl)

lemma within_update_snap [within_rules]: "within R (update_snap f)"
  by (simp add: within_def wp_simps R_refl)

lemma within_defaults [within_rules]: "within R defaults"
  by (simp add: within_def wp_simps R_refl)

lemma within_if [within_rules]:
  "(b \<Longrightarrow> within R m) \<Longrightarrow> (\<not> b \<Longrightarrow> within R n) \<Longrightarrow> within R (if b then m else n)"
  by simp

lemma within_option [within_rules]:
  "(x = None \<Longrightarrow> within R m) \<Longrightarrow> (\<And>y. x = Some y \<Longrightarrow> within R (f y)) \<Longrightarrow>
   within R (case x of None \<Rightarrow> m | Some y \<Rightarrow> f y)"
  by (cases x) auto

lemma within_sum [within_rules]:
  "(\<And>a. x = Inl a \<Longrightarrow> within R (f a)) \<Longrightarrow> (\<And>b. x = Inr b \<Longrightarrow> within R (g b)) \<Longrightarrow>
   within R (case x of Inl a \<Rightarrow> f a | Inr b \<Rightarrow> g b)"
  by (cases x) auto

lemma within_prod [within_rules]:
  "(\<And>a b. x = (a, b) \<Longrightarrow> within R (f a b)) \<Longrightarrow> within R (case x of (a, b) \<Rightarrow> f a b)"
  by (cases x) auto

lemmas world_calls [within_rules] = R_deactivate R_core_stop R_health R_activate R_now R_start
  R_prepare R_clone R_cleanup R_ctx_err R_select R_lock R_try_lock
  R_guard_enabled R_guard_verify R_guard_remove R_guard_status

lemma within_set_state [within_rules]: "within R (set_state d st m)"
  unfolding set_state_def by (intro within_rules)

lemma within_mark [within_rules]: "within R (mark_cleanup_failed d p e)"
  unfolding mark_cleanup_failed_def by (intro within_rules)

lemma within_record_health [within_rules]: "within R (record_health d h e)"
  unfolding record_health_def by (intro within_rules)

lemma within_fail [within_rules]: "within R (fail d e)"
  unfolding fail_def by (intro within_rules)

lemma within_fail_after_rollback [within_rules]: "within R (fail_after_rollback d e)"
  unfolding fail_after_rollback_def by (intro within_rules)

lemma within_fail_joined [within_rules]: "within R (fail_joined d e r)"
  unfolding fail_joined_def by (intro within_rules)

lemma within_rollback [within_rules]: "within R (rollback d p)"
  unfolding rollback_def by (intro within_rules)

lemma within_started [within_rules]: "within R (record_successful_start d p)"
  unfolding record_successful_start_def by (intro within_rules R_on_started)

lemma within_wait_ready [within_rules]: "within R (wait_ready d p n e)"
proof (induction n arbitrary: e)
  case 0
  show ?case
    by (subst wait_ready.simps) (auto intro!: within_rules simp: Let_def)
next
  case (Suc n)
  show ?case
    by (subst wait_ready.simps) (auto intro!: within_rules Suc.IH simp: Let_def)
qed

lemma within_wait_ready_timed [within_rules]: "within R (wait_ready_timed d p)"
  unfolding wait_ready_timed_def by (intro within_rules)

lemma within_verify [within_rules]: "within R (verify_guarded d p)"
  unfolding verify_guarded_def by (intro within_rules)

lemma within_commit_activated [within_rules]: "within R (commit_activated d p)"
  unfolding commit_activated_def by (intro within_rules)

lemma within_activate_started [within_rules]: "within R (activate_started d p)"
  unfolding activate_started_def by (intro within_rules)

lemma within_start_prepared [within_rules]: "within R (start_prepared_with_acceptance d p)"
  unfolding start_prepared_with_acceptance_def by (intro within_rules)

lemma within_start_prepared_locked [within_rules]: "within R (start_prepared_locked d p)"
  unfolding start_prepared_locked_def by (intro within_rules)

lemma within_prepare_and_start [within_rules]: "within R (prepare_and_start d)"
  unfolding prepare_and_start_def by (intro within_rules)

lemma within_start_locked [within_rules]: "within R (start_locked d)"
  unfolding start_locked_def by (intro within_rules)

lemma within_with_lock [within_rules]:
  "(\<And>e. within R (f e)) \<Longrightarrow> within R m \<Longrightarrow> within R (with_lock d f m)"
  unfolding with_lock_def by (intro within_rules)

lemma within_start [within_rules]: "within R (start d)"
  unfolding start_def by (intro within_rules)

lemma within_tear_down [within_rules]: "within R (tear_down d p)"
  unfolding tear_down_def by (intro within_rules)

lemma within_stop_locked [within_rules]: "within R (stop_locked d)"
  unfolding stop_locked_def stop_with_cleanup_locked_def by (intro within_rules)

lemma within_stop [within_rules]: "within R (stop d)"
  unfolding stop_def by (intro within_rules)

lemma within_retry [within_rules]: "within R (retry_restart_guard_cleanup d)"
  unfolding retry_restart_guard_cleanup_def by (intro within_rules)

lemma within_restore [within_rules]: "within R (restore_prepared_after_failure d p)"
  unfolding restore_prepared_after_failure_def by (intro within_rules)

lemma within_stop_then_start [within_rules]: "within R (stop_then_start d)"
  unfolding stop_then_start_def by (intro within_rules)

lemma within_replace_idle [within_rules]:
  "(\<And>c. commit = Some c \<Longrightarrow> world_within R c) \<Longrightarrow> within R (replace_idle d msg st p commit)"
  unfolding replace_idle_def by (intro within_rules)

lemma within_adopt [within_rules]: "within R (adopt d p h)"
  unfolding adopt_def by (intro within_rules)

lemma within_recover [within_rules]: "within R (recover_adopted d p h)"
  unfolding recover_adopted_def recover_adopted_locked_def rebuild_adopted_def
  by (intro within_rules)

lemma within_discard [within_rules]: "within R (discard_adopted d p h)"
  unfolding discard_adopted_def by (intro within_rules)

lemma within_monitor_running [within_rules]: "within R (monitor_running d n)"
  unfolding monitor_running_def by (intro within_rules)

lemma within_monitor_tick [within_rules]: "within R (monitor_tick d n)"
  unfolding monitor_tick_def by (intro within_rules)

lemma within_monitor [within_rules]: "within R (monitor d n)"
proof -
  have "within R (monitor_ticks d n f)" for f
    by (induction n arbitrary: f) (auto intro!: within_rules)
  then show ?thesis
    unfolding monitor_def by (intro within_rules)
qed

text \<open>Without a panel reason no guard is begun, so the replacement stays within as well.\<close>

abbreviation no_panel :: "op_ctx \<Rightarrow> bool" where
  "no_panel ctx \<equiv> ctx = None \<or> ctx = Some []"

lemma begin_without_panel:
  "no_panel ctx \<Longrightarrow> begin_restart_guard d ctx p = State_Monad.return (False, None)"
  by (auto simp: begin_restart_guard_def)

lemma within_finish_unguarded: "within R (finish_replacement d False consumed p e)"
  unfolding finish_replacement_def finish_restart_guard_def
  by (auto intro!: within_rules)

lemma within_replace_unguarded:
  assumes "no_panel ctx" and "\<And>c. commit = Some c \<Longrightarrow> world_within R c"
  shows "within R (replace_running d ctx sm cm live target commit)"
  unfolding replace_running_def replace_cloned_def begin_without_panel [OF assms(1)] replace_guarded_def finish_committed_def
    State_Monad.bind_left_identity prod.case
  by (intro within_rules within_finish_unguarded assms(2))

lemma within_reconfigure_locked_unguarded:
  assumes "no_panel ctx" and "\<And>c. commit = Some c \<Longrightarrow> world_within R c"
  shows "within R (reconfigure_prepared_locked d ctx target commit)"
  unfolding reconfigure_prepared_locked_def
  by (intro within_rules within_replace_unguarded [OF assms(1)] assms(2))

lemma within_reconfigure_unguarded:
  assumes "no_panel ctx" and "\<And>c. commit = Some c \<Longrightarrow> world_within R c"
  shows "within R (reconfigure_prepared d ctx target commit)"
  unfolding reconfigure_prepared_def
  by (intro within_rules within_reconfigure_locked_unguarded [OF assms(1)] assms(2))

lemma within_switch_unguarded:
  assumes "no_panel ctx" and "\<And>c. commit = Some c \<Longrightarrow> world_within R c"
  shows "within R (switch_prepared d ctx target commit)"
  unfolding switch_prepared_def
  by (intro within_rules within_replace_unguarded [OF assms(1)] assms(2))

lemma within_restart_locked_unguarded:
  assumes "no_panel ctx"
  shows "within R (restart_prepared_locked d ctx)"
  unfolding restart_prepared_locked_def
  by (intro within_rules within_reconfigure_locked_unguarded [OF assms]) simp

lemma within_restart_unguarded:
  assumes "no_panel ctx"
  shows "within R (restart d ctx)"
  unfolding restart_def
  by (intro within_rules within_restart_locked_unguarded [OF assms])
    (auto intro!: R_guard_enabled split: if_splits)

lemma within_restart_if_running_unguarded:
  assumes "no_panel ctx"
  shows "within R (restart_if_running d ctx)"
  unfolding restart_if_running_def
  by (intro within_rules within_restart_locked_unguarded [OF assms])
    (auto intro!: R_guard_enabled split: if_splits)

end

end
