(* ===== verification/Lifecycle_Trace.thy ===== *)
theory Lifecycle_Trace
  imports Lifecycle_Safety Lifecycle_Frame
begin

text \<open>
  The lifecycle against every possible environment: an environment answers each call as a
  function of the history of calls, and the world is that history. The contract of
  \<open>Lifecycle_Safety\<close> holds of it with \<open>fail_open_trace\<close> as the platform's invariant, so every
  sequence of operations produces a history in which the core is stopped only while nothing is
  captured and the gateway is activated only for a core that has just answered ready.
\<close>

section \<open>Environments and histories\<close>

datatype lc_event =
    Ev_deactivate prepared_core "gerror option"
  | Ev_activate prepared_core "gerror option"
  | Ev_core_start prepared_core "gerror option"
  | Ev_core_stop "gerror option"
  | Ev_health health_status "gerror option"
  | Ev_prepare "prepared_core fallible"
  | Ev_clone prepared_core "prepared_core fallible"
  | Ev_cleanup prepared_core
  | Ev_started prepared_core
  | Ev_guard_begin prepared_core string bool
  | Ev_guard_verify prepared_core "gerror option"
  | Ev_guard_remove "gerror option"
  | Ev_commit "gerror option"

type_synonym history = "lc_event list"

record lc_env =
  env_deactivate :: "history \<Rightarrow> gerror option"
  env_activate :: "history \<Rightarrow> gerror option"
  env_core_start :: "history \<Rightarrow> gerror option"
  env_core_stop :: "history \<Rightarrow> gerror option"
  env_health :: "history \<Rightarrow> health_status \<times> gerror option"
  env_prepare :: "history \<Rightarrow> prepared_core fallible"
  env_clone :: "history \<Rightarrow> prepared_core fallible"
  env_guarded :: bool
  env_guard_enabled :: "history \<Rightarrow> bool \<times> gerror option"
  env_guard_begin :: "history \<Rightarrow> bool \<times> gerror option"
  env_guard_verify :: "history \<Rightarrow> gerror option"
  env_guard_remove :: "history \<Rightarrow> gerror option"
  env_guard_status :: "history \<Rightarrow> guard_status"
  env_started :: "history \<Rightarrow> gerror option"
  env_commit :: "history \<Rightarrow> gerror option"
  env_ctx_err :: "history \<Rightarrow> gerror option"
  env_now :: "history \<Rightarrow> int"
  env_select :: "history \<Rightarrow> gerror option"
  env_lock :: "history \<Rightarrow> gerror option"
  env_try_lock :: "history \<Rightarrow> bool"

definition call :: "(history \<Rightarrow> 'a) \<Rightarrow> ('a \<Rightarrow> lc_event) \<Rightarrow> (history, 'a) state" where
  "call answer ev = State (\<lambda>tr. (answer tr, tr @ [ev (answer tr)]))"

definition look :: "(history \<Rightarrow> 'a) \<Rightarrow> (history, 'a) state" where
  "look answer = State (\<lambda>tr. (answer tr, tr))"

definition traced_guard :: "lc_env \<Rightarrow> history restart_guard" where
  "traced_guard e = \<lparr>
     rg_enabled = look (env_guard_enabled e),
     rg_begin = (\<lambda>p reason. call (env_guard_begin e) 
       (\<lambda>r. Ev_guard_begin p reason (fst r \<and> snd r = None))),
     rg_verify = (\<lambda>p. call (env_guard_verify e) (Ev_guard_verify p)),
     rg_remove = call (env_guard_remove e) Ev_guard_remove,
     rg_status = look (env_guard_status e)\<rparr>"

definition traced_deps :: "lc_env \<Rightarrow> history lifecycle_deps" where
  "traced_deps e = \<lparr>
     ld_wired = True,
     ld_prepare_active = call (env_prepare e) Ev_prepare,
     ld_core_start = (\<lambda>p. call (env_core_start e) (Ev_core_start p)),
     ld_core_stop = call (env_core_stop e) Ev_core_stop,
     ld_core_health = call (env_health e) (\<lambda>r. Ev_health (fst r) (snd r)),
     ld_activate = (\<lambda>p. call (env_activate e) (Ev_activate p)),
     ld_deactivate = (\<lambda>p. call (env_deactivate e) (Ev_deactivate p)),
     ld_clone_runtime = (\<lambda>p. call (env_clone e) (Ev_clone p)),
     ld_cleanup_runtime = (\<lambda>p. call (\<lambda>_. ()) (\<lambda>_. Ev_cleanup p)),
     ld_on_started = Some (\<lambda>p. call (env_started e) (\<lambda>_. Ev_started p)),
     ld_guard = (if env_guarded e then Some (traced_guard e) else None),
     ld_ctx_err = look (env_ctx_err e),
     ld_now = look (env_now e),
     ld_select = look (env_select e),
     ld_lock = look (env_lock e),
     ld_try_lock = look (env_try_lock e)\<rparr>"

lemma wp_call [wp_simps]: "wp (call f ev) Q tr = Q (f tr) (tr @ [ev (f tr)])"
  by (simp add: call_def wp_simps)

lemma wp_look [wp_simps]: "wp (look f) Q tr = Q (f tr) tr"
  by (simp add: look_def wp_simps)

lemmas traced_simps = traced_deps_def traced_guard_def

section \<open>The fail-open discipline of a history\<close>

text \<open>
  Before any call the platform may still hold a capture of an earlier manager, so the empty
  history counts as captured; an activation, even a failed one, may leave a capture; only a
  successful deactivation removes it.
\<close>

fun capture_after :: "bool \<Rightarrow> lc_event \<Rightarrow> bool" where
  "capture_after b (Ev_activate p r) = True"
| "capture_after b (Ev_deactivate p None) = False"
| "capture_after b e = b"

definition may_be_captured :: "history \<Rightarrow> bool" where
  "may_be_captured tr = foldl capture_after True tr"

fun just_ready :: "history \<Rightarrow> prepared_core \<Rightarrow> bool" where
  "just_ready tr p = (tr \<noteq> [] \<and> (case last tr of Ev_health h None \<Rightarrow> core_ready p h | _ \<Rightarrow> False))"

fun allowed :: "history \<Rightarrow> lc_event \<Rightarrow> bool" where
  "allowed tr (Ev_core_stop r) = (\<not> may_be_captured tr)"
| "allowed tr (Ev_activate p r) = just_ready tr p"
| "allowed tr e = True"

definition fail_open_trace :: "history \<Rightarrow> bool" where
  "fail_open_trace tr \<longleftrightarrow> (\<forall>xs e ys. tr = xs @ e # ys \<longrightarrow> allowed xs e)"

lemma may_be_captured_snoc [simp]:
  "may_be_captured (tr @ [e]) = capture_after (may_be_captured tr) e"
  by (simp add: may_be_captured_def)

lemma fail_open_Nil [simp]: "fail_open_trace []"
  by (simp add: fail_open_trace_def)

lemma fail_open_snoc [simp]: "fail_open_trace (tr @ [e]) \<longleftrightarrow> fail_open_trace tr \<and> allowed tr e"
proof
  assume *: "fail_open_trace (tr @ [e])"
  have "allowed xs x" if "tr = xs @ x # ys" for xs x ys
    using * that unfolding fail_open_trace_def by (metis append.assoc append_Cons)
  moreover have "allowed tr e"
    using * unfolding fail_open_trace_def by (metis append.right_neutral)
  ultimately show "fail_open_trace tr \<and> allowed tr e"
    unfolding fail_open_trace_def by blast
next
  assume *: "fail_open_trace tr \<and> allowed tr e"
  show "fail_open_trace (tr @ [e])"
    unfolding fail_open_trace_def
  proof (intro allI impI)
    fix xs x ys
    assume "tr @ [e] = xs @ x # ys"
    then show "allowed xs x"
      using * unfolding fail_open_trace_def by (cases ys rule: rev_cases) auto
  qed
qed

lemma keeps_look [simp]: "keeps sound captured (look f)"
  by (simp add: keeps_def wp_simps)

interpretation traced: fail_open_platform "traced_deps e" fail_open_trace may_be_captured just_ready
  for e
  by unfold_locales
    (auto simp: traced_simps wp_simps keeps_def split: if_splits prod.split option.split
      elim: capture_after.elims)

section \<open>Runs\<close>

datatype lc_op =
    Op_start
  | Op_stop
  | Op_restart op_ctx
  | Op_restart_if_running op_ctx
  | Op_switch op_ctx prepared_core
  | Op_reconfigure op_ctx prepared_core bool
  | Op_adopt prepared_core health_status
  | Op_recover prepared_core health_status
  | Op_discard prepared_core health_status
  | Op_monitor nat

definition traced_commit :: "lc_env \<Rightarrow> (history, gerror option) state" where
  "traced_commit e = call (env_commit e) Ev_commit"

fun run_op :: "lc_env \<Rightarrow> lc_op \<Rightarrow> (history, gerror option) lc" where
  "run_op e Op_start = start (traced_deps e)"
| "run_op e Op_stop = stop (traced_deps e)"
| "run_op e (Op_restart ctx) = restart (traced_deps e) ctx"
| "run_op e (Op_restart_if_running ctx) = do {
     (_, r) \<leftarrow> restart_if_running (traced_deps e) ctx; State_Monad.return r }"
| "run_op e (Op_switch ctx p) = do {
     (_, r) \<leftarrow> switch_prepared (traced_deps e) ctx p (Some (traced_commit e));
     State_Monad.return r }"
| "run_op e (Op_reconfigure ctx p with_commit) = do {
     (_, r) \<leftarrow> reconfigure_prepared (traced_deps e) ctx p
       (if with_commit then Some (traced_commit e) else None);
     State_Monad.return r }"
| "run_op e (Op_adopt p h) = adopt (traced_deps e) p h"
| "run_op e (Op_recover p h) = recover_adopted (traced_deps e) p h"
| "run_op e (Op_discard p h) = discard_adopted (traced_deps e) p h"
| "run_op e (Op_monitor n) = do { monitor (traced_deps e) n; State_Monad.return None }"

fun run_ops :: "lc_env \<Rightarrow> lc_op list \<Rightarrow> history lifecycle \<Rightarrow> history lifecycle" where
  "run_ops e [] l = l"
| "run_ops e (x # xs) l = run_ops e xs (snd (run_state (run_op e x) l))"

definition initial :: "lifecycle_config \<Rightarrow> history lifecycle" where
  "initial cfg = \<lparr>lc_config = cfg, lc_snap = zero_snapshot, lc_guard_in_progress = False,
     lc_world = []\<rparr>"

abbreviation settled_run :: "history lifecycle \<Rightarrow> bool" where
  "settled_run \<equiv> fail_open_platform.settled fail_open_trace may_be_captured"

lemma traced_commit_keeps [simp]: "traced.commit_keeps (Some (traced_commit e))"
  by (auto simp: traced.commit_keeps_def traced_commit_def keeps_def wp_simps)

lemma run_op_settled: "settled_run l \<Longrightarrow> wp (run_op e x) (\<lambda>_. settled_run) l"
  by (cases x)
    (auto simp: wp_simps intro!: traced.start_wp traced.stop_wp traced.restart_wp
      traced.restart_if_running_wp traced.switch_wp traced.reconfigure_wp traced.adopt_wp
      traced.recover_adopted_wp traced.discard_adopted_wp traced.monitor_wp
      simp: traced.stop_outcome_def)

lemma run_ops_settled: "settled_run l \<Longrightarrow> settled_run (run_ops e xs l)"
proof (induction xs arbitrary: l)
  case (Cons x xs)
  have "settled_run (snd (run_state (run_op e x) l))"
    using run_op_settled [OF Cons.prems, of e x] by (simp add: wp_def split: prod.splits)
  then show ?case by (simp add: Cons.IH)
qed simp

lemma initial_settled: "settled_run (initial cfg)"
  by (simp add: traced.settled_def initial_def zero_snapshot_def)

text \<open>
  C1. Against every environment and for every sequence of lifecycle operations of a fresh
  manager, in any order and with any outcome of any call: the core is stopped only while no
  owned capture can be installed, and the gateway is activated only for a core that has just
  answered ready; between operations the state is never a transient one, and a stopped or
  failed state means that no capture is left.
\<close>

theorem lifecycle_fails_open:
  "let l = run_ops e ops (initial cfg) in
     fail_open_trace (lc_world l) \<and>
     SnapState (lc_snap l) \<notin> {LStarting, LStopping} \<and>
     \<not> (SnapState (lc_snap l) \<in> {LStopped, LFailed} \<and> may_be_captured (lc_world l))"
  using run_ops_settled [OF initial_settled, of e ops cfg]
  unfolding traced.settled_def Let_def by blast

section \<open>The discipline of the restart guard\<close>

fun is_guard_begin :: "lc_event \<Rightarrow> bool" where
  "is_guard_begin (Ev_guard_begin p r b) = True"
| "is_guard_begin ev = False"

definition same_begins :: "history \<Rightarrow> history \<Rightarrow> bool" where
  "same_begins tr tr' \<longleftrightarrow> filter is_guard_begin tr' = filter is_guard_begin tr"

text \<open>A guard is open from a successful installation to the next attempt to remove it.\<close>

fun guard_after :: "bool \<Rightarrow> lc_event \<Rightarrow> bool" where
  "guard_after b (Ev_guard_begin p r active) = (b \<or> active)"
| "guard_after b (Ev_guard_remove r) = False"
| "guard_after b e = b"

definition guard_open :: "history \<Rightarrow> bool" where
  "guard_open tr = foldl guard_after False tr"

definition guard_not_opened :: "history \<Rightarrow> history \<Rightarrow> bool" where
  "guard_not_opened tr tr' \<longleftrightarrow> (guard_open tr' \<longrightarrow> guard_open tr)"

lemma guard_open_append [simp]: "guard_open (tr @ es) = foldl guard_after (guard_open tr) es"
  by (simp add: guard_open_def)

lemma guard_open_Nil [simp]: "\<not> guard_open []"
  by (simp add: guard_open_def)

interpretation begins: call_relation "traced_deps e" same_begins for e
  by unfold_locales
    (auto simp: traced_simps wp_simps world_within_def same_begins_def split: if_splits)

interpretation closing: call_relation "traced_deps e" guard_not_opened for e
  by unfold_locales
    (auto simp: traced_simps wp_simps world_within_def guard_not_opened_def split: if_splits)

text \<open>Operations without a panel reason: a nil context value or an empty reason.\<close>

fun op_context :: "lc_op \<Rightarrow> op_ctx" where
  "op_context (Op_restart ctx) = ctx"
| "op_context (Op_restart_if_running ctx) = ctx"
| "op_context (Op_switch ctx p) = ctx"
| "op_context (Op_reconfigure ctx p b) = ctx"
| "op_context _ = None"

lemma commit_within [simp]:
  "world_within same_begins (traced_commit e)" "world_within guard_not_opened (traced_commit e)"
  by (auto simp: world_within_def traced_commit_def wp_simps same_begins_def guard_not_opened_def)

lemma unguarded_op_within:
  "op_context x = None \<or> op_context x = Some [] \<Longrightarrow> within same_begins (run_op e x)"
  by (cases x)
    (auto split: if_splits intro!: within_rules begins.within_restart_unguarded
      begins.within_restart_if_running_unguarded begins.within_switch_unguarded
      begins.within_reconfigure_unguarded)

text \<open>
  \<open>shut l\<close>: no guard is open and none is in progress. A replacement may open one, and every
  path out of it closes it again.
\<close>

definition shut :: "history lifecycle \<Rightarrow> bool" where
  "shut l \<longleftrightarrow> \<not> guard_open (lc_world l) \<and> \<not> lc_guard_in_progress l"

lemma shut_within_wp:
  assumes "within guard_not_opened m" and "active \<or> shut l"
    and "\<And>a l'. active \<or> shut l' \<Longrightarrow> Q a l'"
  shows "wp m Q l"
  by (rule wp_mono [OF assms(1) [unfolded within_def, rule_format]])
    (use assms(2) in \<open>auto intro!: assms(3) simp: shut_def guard_not_opened_def\<close>)

lemma begin_guard_shut_wp:
  assumes "shut l"
    and "\<And>active e l'. active \<or> shut l' \<Longrightarrow> (e \<noteq> None \<Longrightarrow> \<not> active) \<Longrightarrow>
      (active \<Longrightarrow> env_guarded env) \<Longrightarrow> Q (active, e) l'"
  shows "wp (begin_restart_guard (traced_deps env) ctx p) Q l"
  unfolding begin_restart_guard_def
  using assms(1)
  by (auto simp: traced_simps wp_simps shut_def split: option.split list.split prod.split
      intro!: assms(2))

lemma finish_shut_wp:
  assumes "active \<or> shut l" and "active \<Longrightarrow> env_guarded env" and "\<And>r l'. shut l' \<Longrightarrow> Q r l'"
  shows "wp (finish_replacement (traced_deps env) active consumed p e) Q l"
  unfolding finish_replacement_def finish_restart_guard_def
  using assms(1,2)
  by (cases active)
    (auto simp: traced_simps wp_simps shut_def intro!: assms(3) split: option.split)

lemma finish_committed_shut_wp:
  assumes "active \<or> shut l" and "active \<Longrightarrow> env_guarded env" and "\<And>r l'. shut l' \<Longrightarrow> Q r l'"
  shows "wp (finish_committed (traced_deps env) active cm target rb e) Q l"
proof (cases e)
  case None
  show ?thesis
    unfolding finish_committed_def None option.case wp_bind
    by (rule shut_within_wp [OF closing.within_started assms(1)])
      (intro finish_shut_wp assms(2,3))
next
  case (Some err)
  show ?thesis
    unfolding finish_committed_def Some option.case wp_bind
  proof (rule shut_within_wp [OF closing.within_stop_locked assms(1)])
    fix a l'
    assume *: "active \<or> shut l'"
    show "wp (case a of None \<Rightarrow> restore_prepared_after_failure (traced_deps env) rb
        | Some x \<Rightarrow> State_Monad.return (False, None))
       (\<lambda>aa. wp (case aa of (consumed, restore_err) \<Rightarrow>
          finish_replacement (traced_deps env) active consumed rb
            (errors_join [Some (Wrap cm err), a, wrap_rollback_error restore_err])) Q) l'"
      by (rule shut_within_wp [OF _ *])
        (auto intro!: within_rules finish_shut_wp assms(2,3) simp: wp_simps)
  qed
qed

lemma replace_guarded_shut_wp:
  assumes "active \<or> shut l" and "active \<Longrightarrow> env_guarded env" and "\<And>r l'. shut l' \<Longrightarrow> Q r l'"
    and "\<And>c. commit = Some c \<Longrightarrow> world_within guard_not_opened c"
  shows "wp (replace_guarded (traced_deps env) active sm cm rb target commit) Q l"
proof -
  let ?d = "traced_deps env"
  note stay = shut_within_wp [where active = active]
  have stop_fails: "wp (in_world (ld_cleanup_runtime ?d target))
      (\<lambda>_. wp (finish_replacement ?d active False rb e) Q) l'" if "active \<or> shut l'" for e l'
    by (rule stay [OF closing.within_in_world [OF closing.R_cleanup] that])
      (intro finish_shut_wp assms(2,3))
  have restored: "wp (restore_prepared_after_failure ?d rb) (\<lambda>x. wp (case x of (t, re) \<Rightarrow>
      finish_replacement ?d active t rb (f re)) Q) l'" if "active \<or> shut l'" for f l'
    by (rule stay [OF closing.within_restore that])
      (auto intro!: finish_shut_wp assms(2,3))
  have committed: "wp (case commit of None \<Rightarrow> State_Monad.return None | Some c \<Rightarrow> in_world c)
      (\<lambda>x. wp (finish_committed ?d active cm target rb x) Q) l'" if "active \<or> shut l'" for l'
  proof (rule stay [OF _ that])
    show "within guard_not_opened
        (case commit of None \<Rightarrow> State_Monad.return None | Some c \<Rightarrow> in_world c)"
      by (intro within_rules assms(4))
  qed (intro finish_committed_shut_wp assms(2,3))
  have started: "wp (start_prepared_locked ?d target) (\<lambda>x. wp (case x of
      Some e \<Rightarrow> do {
         (t, re) \<leftarrow> restore_prepared_after_failure ?d rb;
         finish_replacement ?d active t rb (errors_join [Some (Wrap sm e), wrap_rollback_error re]) }
    | None \<Rightarrow> do {
         c \<leftarrow> (case commit of None \<Rightarrow> State_Monad.return None | Some c \<Rightarrow> in_world c);
         finish_committed ?d active cm target rb c }) Q) l'" if "active \<or> shut l'" for l'
    by (rule stay [OF closing.within_start_prepared_locked that])
      (simp only: wp_bind restored committed split: option.split, simp)
  show ?thesis
    unfolding replace_guarded_def wp_bind
    by (rule stay [OF closing.within_stop_locked assms(1)])
      (simp only: wp_bind stop_fails started [unfolded wp_bind] split: option.split, simp)
qed

lemma cleanup_shut_wp:
  assumes "shut l" and "\<And>l'. shut l' \<Longrightarrow> Q () l'"
  shows "wp (in_world (ld_cleanup_runtime (traced_deps env) q)) Q l"
  by (rule shut_within_wp [where active = False, OF closing.within_in_world [OF closing.R_cleanup]])
    (simp_all add: assms)

lemma replace_cloned_shut_wp:
  assumes "shut l" and "\<And>r l'. shut l' \<Longrightarrow> Q r l'"
    and "\<And>c. commit = Some c \<Longrightarrow> world_within guard_not_opened c"
  shows "wp (replace_cloned (traced_deps env) ctx sm cm live rb target commit) Q l"
  unfolding replace_cloned_def wp_bind
  by (rule begin_guard_shut_wp [OF assms(1)])
    (auto simp: wp_bind wp_return split: option.split
      intro!: cleanup_shut_wp assms(2,3) replace_guarded_shut_wp)

lemma replace_shut_wp:
  assumes "shut l" and "\<And>r l'. shut l' \<Longrightarrow> Q r l'"
    and "\<And>c. commit = Some c \<Longrightarrow> world_within guard_not_opened c"
  shows "wp (replace_running (traced_deps env) ctx sm cm live target commit) Q l"
  unfolding replace_running_def wp_bind
  by (rule shut_within_wp [where active = False, OF closing.within_in_world [OF closing.R_clone]])
    (auto simp: wp_bind wp_return assms(1) split: sum.split
      intro!: cleanup_shut_wp assms(2,3) replace_cloned_shut_wp)

lemma locked_shut_wp:
  assumes "shut l" and "\<And>r l'. shut l' \<Longrightarrow> Q r l'"
    and "\<And>e. within guard_not_opened (f e)"
    and "\<And>l'. shut l' \<Longrightarrow> wp m Q l'"
  shows "wp (with_lock (traced_deps env) f m) Q l"
  unfolding with_lock_def wp_bind
  by (rule shut_within_wp [where active = False, OF closing.within_in_world [OF closing.R_lock]])
    (auto simp: assms(1) split: option.split
      intro!: assms(2,4) shut_within_wp [where active = False, OF assms(3)])

lemma idle_shut_wp:
  assumes "shut l" and "\<And>r l'. shut l' \<Longrightarrow> Q r l'" and "within guard_not_opened m"
  shows "wp m Q l"
  by (rule shut_within_wp [where active = False, OF assms(3)]) (auto simp: assms(1) intro!: assms(2))

lemma reconfigure_locked_shut_wp:
  assumes "shut l" and "\<And>r l'. shut l' \<Longrightarrow> Q r l'"
    and "\<And>c. commit = Some c \<Longrightarrow> world_within guard_not_opened c"
  shows "wp (reconfigure_prepared_locked (traced_deps env) ctx target commit) Q l"
  unfolding reconfigure_prepared_locked_def wp_bind wp_defaults
  using assms(1)
  by (auto simp: wp_bind wp_return wp_snapshot shut_def split: option.split
      intro!: assms(2,3) cleanup_shut_wp replace_shut_wp
        idle_shut_wp [OF _ _ closing.within_replace_idle])

lemma restart_locked_shut_wp:
  assumes "shut l" and "\<And>r l'. shut l' \<Longrightarrow> Q r l'"
  shows "wp (restart_prepared_locked (traced_deps env) ctx) Q l"
  unfolding restart_prepared_locked_def wp_bind wp_defaults
  using assms(1)
  by (auto simp: wp_bind wp_return shut_def split: option.split sum.split
      intro!: assms(2) reconfigure_locked_shut_wp
        idle_shut_wp [OF _ _ closing.within_in_world [OF closing.R_prepare]])

lemma guard_enabled_within:
  "(if b then ld_guard (traced_deps env) else None) = Some g \<Longrightarrow>
   within guard_not_opened (in_world (rg_enabled g))"
  by (auto intro!: closing.within_in_world closing.R_guard_enabled split: if_splits)

lemma restart_shut_wp:
  assumes "shut l" and "\<And>r l'. shut l' \<Longrightarrow> Q r l'"
  shows "wp (restart (traced_deps env) ctx) Q l"
  unfolding restart_def
  by (rule locked_shut_wp [OF assms(1)])
    (auto simp: wp_bind wp_return wp_snapshot wp_if split: option.split
      intro!: assms(2) closing.within_return restart_locked_shut_wp
        idle_shut_wp [OF _ _ guard_enabled_within] idle_shut_wp [OF _ _ closing.within_stop_then_start])

lemma restart_if_running_shut_wp:
  assumes "shut l" and "\<And>r l'. shut l' \<Longrightarrow> Q r l'"
  shows "wp (restart_if_running (traced_deps env) ctx) Q l"
  unfolding restart_if_running_def
  by (rule locked_shut_wp [OF assms(1)])
    (auto simp: wp_bind wp_return wp_snapshot wp_if split: option.split
      intro!: assms(2) closing.within_return restart_locked_shut_wp
        idle_shut_wp [OF _ _ guard_enabled_within] idle_shut_wp [OF _ _ closing.within_stop_then_start])

lemma reconfigure_shut_wp:
  assumes "shut l" and "\<And>r l'. shut l' \<Longrightarrow> Q r l'"
    and "\<And>c. commit = Some c \<Longrightarrow> world_within guard_not_opened c"
  shows "wp (reconfigure_prepared (traced_deps env) ctx target commit) Q l"
  unfolding reconfigure_prepared_def
  by (rule locked_shut_wp [OF assms(1)])
    (auto intro!: assms(2,3) closing.within_bind closing.within_return closing.within_in_world
      closing.R_cleanup reconfigure_locked_shut_wp)

lemma switch_shut_wp:
  assumes "shut l" and "\<And>r l'. shut l' \<Longrightarrow> Q r l'"
    and "\<And>c. commit = Some c \<Longrightarrow> world_within guard_not_opened c"
  shows "wp (switch_prepared (traced_deps env) ctx target commit) Q l"
proof (cases commit)
  case None
  then show ?thesis
    unfolding switch_prepared_def
    by (auto simp: wp_bind wp_return intro!: cleanup_shut_wp [OF assms(1)] assms(2))
next
  case (Some c)
  have unset: "Option.is_none commit = False"
    by (simp add: Some)
  show ?thesis
    unfolding switch_prepared_def unset if_False
    by (rule locked_shut_wp [OF assms(1)])
      (auto simp: wp_bind wp_return wp_defaults wp_snapshot shut_def split: option.split
        intro!: assms(2,3) closing.within_bind closing.within_return closing.within_in_world
          closing.R_cleanup cleanup_shut_wp replace_shut_wp
          idle_shut_wp [OF _ _ closing.within_replace_idle])
qed

lemma run_op_shut: "shut l \<Longrightarrow> wp (run_op e x) (\<lambda>_. shut) l"
  by (cases x)
    (auto simp: wp_bind wp_return split: prod.split
      intro!: restart_shut_wp restart_if_running_shut_wp switch_shut_wp reconfigure_shut_wp
        idle_shut_wp [OF _ _ closing.within_start] idle_shut_wp [OF _ _ closing.within_stop]
        idle_shut_wp [OF _ _ closing.within_adopt] idle_shut_wp [OF _ _ closing.within_recover]
        idle_shut_wp [OF _ _ closing.within_discard] idle_shut_wp [OF _ _ closing.within_monitor]
      split: if_splits)

lemma run_ops_shut: "shut l \<Longrightarrow> shut (run_ops e xs l)"
proof (induction xs arbitrary: l)
  case (Cons x xs)
  have "shut (snd (run_state (run_op e x) l))"
    using run_op_shut [OF Cons.prems, of e x] by (simp add: wp_def split: prod.splits)
  then show ?case by (simp add: Cons.IH)
qed simp

text \<open>
  C3. A restart guard never outlives the operation that installed it: whatever fails on the way,
  after every sequence of operations each successful installation of a guard has been followed by
  an attempt to remove it, and the manager does not believe a guarded restart to be in progress.
\<close>

theorem restart_guard_always_closed:
  "let l = run_ops e ops (initial cfg) in
     \<not> guard_open (lc_world l) \<and> \<not> lc_guard_in_progress l"
  using run_ops_shut [of "initial cfg" e ops] by (simp add: shut_def initial_def Let_def)

lemma run_op_no_panel:
  assumes "op_context x = None \<or> op_context x = Some []"
  shows "same_begins (lc_world l) (lc_world (snd (run_state (run_op e x) l)))"
  using unguarded_op_within [OF assms, of e, unfolded within_def, rule_format, of l]
  by (cases "run_state (run_op e x) l") (simp add: wp_def)

text \<open>
  A guard is installed only for a panel restart: as long as no operation carries a panel
  reason, no sequence of operations ever asks for a guard.
\<close>

theorem no_guard_without_panel_reason:
  assumes "\<forall>x \<in> set ops. op_context x = None \<or> op_context x = Some []"
  shows "filter is_guard_begin (lc_world (run_ops e ops (initial cfg))) = []"
proof -
  have "same_begins (lc_world l) (lc_world (run_ops e ops l))" for l
    using assms
  proof (induction ops arbitrary: l)
    case (Cons x xs)
    then show ?case
      using run_op_no_panel [of x l e] by (simp add: same_begins_def)
  qed (simp add: same_begins_def)
  from this [of "initial cfg"] show ?thesis
    by (simp add: same_begins_def initial_def)
qed

text \<open>An environment in which every call succeeds and a guard is configured.\<close>

definition healthy :: health_status where
  "healthy = zero_health\<lparr>Running := True, ControllerReady := True, DNSReady := True, PID := 42\<rparr>"

definition smooth_env :: lc_env where
  "smooth_env = \<lparr>
     env_deactivate = (\<lambda>_. None), env_activate = (\<lambda>_. None), env_core_start = (\<lambda>_. None),
     env_core_stop = (\<lambda>_. None), env_health = (\<lambda>_. (healthy, None)),
     env_prepare = (\<lambda>_. Inr zero_core), env_clone = (\<lambda>_. Inr zero_core), env_guarded = True,
     env_guard_enabled = (\<lambda>_. (True, None)), env_guard_begin = (\<lambda>_. (True, None)),
     env_guard_verify = (\<lambda>_. None), env_guard_remove = (\<lambda>_. None),
     env_guard_status = (\<lambda>_. \<lparr>GuardActive = False, GuardLastError = []\<rparr>),
     env_started = (\<lambda>_. None), env_commit = (\<lambda>_. None), env_ctx_err = (\<lambda>_. None),
     env_now = (\<lambda>_. 7), env_select = (\<lambda>_. None), env_lock = (\<lambda>_. None),
     env_try_lock = (\<lambda>_. True)\<rparr>"

definition zero_config :: lifecycle_config where
  "zero_config = \<lparr>PrepareTimeout = 0, StartTimeout = 0, ReadyTimeout = 0, ReadyPollInterval = 0,
     MonitorInterval = 0, ControllerFailures = 0, CleanupTimeout = 0\<rparr>"

lemma no_guard_without_panel_reason_witness:
  "filter is_guard_begin (lc_world (run_ops smooth_env
     [Op_start, Op_restart (Some []), Op_restart_if_running None, Op_monitor 3, Op_stop]
     (initial zero_config))) = []"
  by (rule no_guard_without_panel_reason) simp

text \<open>
  C8. What \<open>Stop\<close> and \<open>Start\<close> promise a caller of a manager in any reachable state: a nil error
  of \<open>Stop\<close> means that the state is stopped and that no capture is left; a nil error of
  \<open>Start\<close> means that the state is running; an error of either leaves a settled state.
\<close>

theorem nil_error_means_done:
  "let l = run_ops e ops (initial cfg);
       (stop_err, stopped) = run_state (run_op e Op_stop) l;
       (start_err, started) = run_state (run_op e Op_start) l in
     (stop_err = None \<longrightarrow> SnapState (lc_snap stopped) = LStopped \<and>
        \<not> may_be_captured (lc_world stopped)) \<and>
     (start_err = None \<longrightarrow> SnapState (lc_snap started) = LRunning) \<and>
     SnapState (lc_snap stopped) \<notin> {LStarting, LStopping} \<and>
     SnapState (lc_snap started) \<notin> {LStarting, LStopping}"
proof -
  let ?l = "run_ops e ops (initial cfg)"
  have l: "settled_run ?l"
    by (rule run_ops_settled [OF initial_settled])
  have "wp (stop (traced_deps e)) (\<lambda>r l'. traced.stop_outcome r l') ?l"
    by (rule traced.stop_wp [OF l])
  moreover have "wp (start (traced_deps e)) (\<lambda>r l'. settled_run l' \<and>
      (r = None \<longrightarrow> SnapState (lc_snap l') = LRunning)) ?l"
    by (rule traced.start_wp [OF l]) simp
  ultimately show ?thesis
    by (auto simp: wp_def Let_def traced.stop_outcome_def traced.settled_def split: prod.split)
qed

lemmas smooth_simps = traced_simps smooth_env_def initial_def zero_snapshot_def zero_core_def
  zero_capture_def zero_health_def healthy_def wp_simps

lemma smooth_stop_succeeds:
  "wp (stop (traced_deps smooth_env)) (\<lambda>r _. r = None) (initial zero_config)"
  by (simp add: stop_def with_lock_def stop_locked_def stop_with_cleanup_locked_def tear_down_def
      set_state_def validate_def smooth_simps)

lemma smooth_start_succeeds:
  "wp (start (traced_deps smooth_env)) (\<lambda>r _. r = None) (initial zero_config)"
  by (simp add: start_def with_lock_def start_locked_def rollback_def prepare_and_start_def
      start_prepared_locked_def start_prepared_with_acceptance_def activate_started_def
      commit_activated_def wait_ready_timed_def verify_guarded_def record_successful_start_def
      record_health_def core_ready_def wait_ready.simps set_state_def validate_def smooth_simps)

lemma nil_error_means_done_witness:
  "SnapState (lc_snap (snd (run_state (run_op smooth_env Op_stop) (initial zero_config)))) =
     LStopped \<and>
   SnapState (lc_snap (snd (run_state (run_op smooth_env Op_start) (initial zero_config)))) =
     LRunning"
  using nil_error_means_done [of smooth_env "[]" zero_config]
    smooth_stop_succeeds smooth_start_succeeds
  by (simp add: Let_def split_beta wp_def)

end
