(* ===== verification/Go_Strings.thy ===== *)
theory Go_Strings
  imports Prelude "HOL-Library.Sublist"
begin

text \<open>
  The string functions of Go's standard library that the source uses. A Go string is a byte
  sequence, here a \<^typ>\<open>string\<close> whose characters are its bytes.
\<close>

section \<open>White space\<close>

text \<open>The UTF-8 encodings of the characters \<^verbatim>\<open>unicode.IsSpace\<close> accepts.\<close>

definition bytes :: "nat list \<Rightarrow> string" where
  "bytes = map char_of"

definition space_runes :: "string list" where
  "space_runes = map bytes ([[0x20], [0x09], [0x0A], [0x0B], [0x0C], [0x0D],
     [0xC2, 0x85], [0xC2, 0xA0], [0xE1, 0x9A, 0x80], [0xE2, 0x80, 0xA8], [0xE2, 0x80, 0xA9],
     [0xE2, 0x80, 0xAF], [0xE2, 0x81, 0x9F], [0xE3, 0x80, 0x80]] @
     map (\<lambda>k. [0xE2, 0x80, 0x80 + k]) [0..<11])"

text \<open>Strip every leading occurrence of one of the (non-empty) strings of \<open>rs\<close>.\<close>

function strip_any :: "string list \<Rightarrow> string \<Rightarrow> string" where
  "strip_any rs s = (case find (\<lambda>r. r \<noteq> [] \<and> prefix r s) rs of
       None \<Rightarrow> s
     | Some r \<Rightarrow> strip_any rs (drop (length r) s))"
  by pat_completeness auto
termination
proof (relation "measure (\<lambda>(rs, s). length s)")
  fix rs :: "string list" and s r
  assume "find (\<lambda>r. r \<noteq> [] \<and> prefix r s) rs = Some r"
  then have "r \<noteq> []" "prefix r s"
    by (auto simp: find_Some_iff)
  then show "((rs, drop (length r) s), (rs, s)) \<in> measure (\<lambda>(rs, s). length s)"
    by (auto simp: prefix_def)
qed simp

declare strip_any.simps [simp del]

definition trim_space :: "string \<Rightarrow> string" where
  "trim_space s = rev (strip_any (map rev space_runes) (rev (strip_any space_runes s)))"

lemma strip_any_stops: "find (\<lambda>r. r \<noteq> [] \<and> prefix r (strip_any rs s)) rs = None"
proof (induction rs s rule: strip_any.induct)
  case (1 rs s)
  show ?case
  proof (cases "find (\<lambda>r. r \<noteq> [] \<and> prefix r s) rs")
    case None
    then show ?thesis by (subst strip_any.simps) simp
  next
    case (Some r)
    then show ?thesis using 1 by (subst strip_any.simps) simp
  qed
qed

lemma strip_any_suffix: "suffix (strip_any rs s) s"
proof (induction rs s rule: strip_any.induct)
  case (1 rs s)
  show ?case
    by (subst strip_any.simps)
      (auto split: option.split intro: 1 suffix_order.trans [OF _ suffix_drop])
qed

lemma strip_any_fixed: "find (\<lambda>r. r \<noteq> [] \<and> prefix r s) rs = None \<Longrightarrow> strip_any rs s = s"
  by (subst strip_any.simps) simp

lemma strip_any_Nil [simp]: "strip_any rs [] = []"
  using strip_any_suffix [of rs "[]"] by (simp add: suffix_def)

section \<open>Splitting and joining\<close>

text \<open>\<^verbatim>\<open>strings.Split\<close> at a one-byte separator: never empty.\<close>

fun split_on :: "char \<Rightarrow> string \<Rightarrow> string list" where
  "split_on c [] = [[]]"
| "split_on c (x # xs) =
     (if x = c then [] # split_on c xs
      else case split_on c xs of [] \<Rightarrow> [[x]] | p # ps \<Rightarrow> (x # p) # ps)"

fun join :: "string \<Rightarrow> string list \<Rightarrow> string" where
  "join sep [] = []"
| "join sep [x] = x"
| "join sep (x # y # ys) = x @ sep @ join sep (y # ys)"

lemma split_on_not_Nil [simp]: "split_on c s \<noteq> []"
  by (induction s) (auto split: list.split)

lemma join_split [simp]: "join [c] (split_on c s) = s"
proof (induction s)
  case (Cons x xs)
  then show ?case
    by (cases "split_on c xs"; cases "tl (split_on c xs)") auto
qed simp

lemma split_on_free: "p \<in> set (split_on c s) \<Longrightarrow> c \<notin> set p"
  by (induction s arbitrary: p) (fastforce split: if_splits list.splits)+

lemma split_on_id [simp]: "c \<notin> set s \<Longrightarrow> split_on c s = [s]"
  by (induction s) auto

lemma split_on_append: "c \<notin> set p \<Longrightarrow> split_on c (p @ c # s) = p # split_on c s"
  by (induction p) auto

lemma split_join:
  "ps \<noteq> [] \<Longrightarrow> (\<And>p. p \<in> set ps \<Longrightarrow> c \<notin> set p) \<Longrightarrow> split_on c (join [c] ps) = ps"
proof (induction ps)
  case (Cons p ps)
  then show ?case by (cases ps) (auto simp: split_on_append)
qed simp

text \<open>\<^verbatim>\<open>strings.Fields\<close>: the maximal runs outside white space; \<open>word\<close> is the run so far.\<close>

definition space_at :: "string \<Rightarrow> string option" where
  "space_at s = find (\<lambda>r. prefix r s) space_runes"

lemma space_runes_not_Nil: "[] \<notin> set space_runes"
  by (auto simp: space_runes_def bytes_def)

lemma space_at_length:
  assumes "space_at s = Some r"
  shows "0 < length r \<and> length r \<le> length s"
proof -
  from assms have "r \<in> set space_runes" "prefix r s"
    unfolding space_at_def by (metis find_Some_iff nth_mem)+
  moreover from this have "r \<noteq> []"
    using space_runes_not_Nil by metis
  ultimately show ?thesis
    by (simp add: prefix_length_le)
qed

function words_from :: "string \<Rightarrow> string \<Rightarrow> string list" where
  "words_from word s = (case s of
       [] \<Rightarrow> (if word = [] then [] else [word])
     | x # xs \<Rightarrow> (case space_at s of
           None \<Rightarrow> words_from (word @ [x]) xs
         | Some r \<Rightarrow> (if word = [] then [] else [word]) @ words_from [] (drop (length r) s)))"
  by pat_completeness auto
termination
  by (relation "measure (\<lambda>(w, s). length s)") (auto dest!: space_at_length)

declare words_from.simps [simp del]

definition space_words :: "string \<Rightarrow> string list" where
  "space_words s = words_from [] s"

lemma words_from_not_Nil: "[] \<notin> set (words_from w s)"
proof (induction w s rule: words_from.induct)
  case (1 word s)
  then show ?case
    by (subst words_from.simps) (auto split: list.split option.split)
qed

section \<open>Decimal numbers\<close>

fun dec :: "nat \<Rightarrow> string" where
  "dec n = (if n < 10 then [char_of (48 + n)] else dec (n div 10) @ [char_of (48 + n mod 10)])"

declare dec.simps [simp del]

definition is_digit :: "char \<Rightarrow> bool" where
  "is_digit c \<longleftrightarrow> 48 \<le> (of_char c :: nat) \<and> (of_char c :: nat) \<le> 57"

definition digit_value :: "char \<Rightarrow> nat" where
  "digit_value c = of_char c - 48"

definition undec :: "string \<Rightarrow> nat" where
  "undec s = foldl (\<lambda>n c. 10 * n + digit_value c) 0 s"

lemma digit_value_char [simp]: "d < (10::nat) \<Longrightarrow> digit_value (char_of (48 + d)) = d"
  by (simp add: digit_value_def)

lemma is_digit_char [simp]: "d < (10::nat) \<Longrightarrow> is_digit (char_of (48 + d))"
  by (simp add: is_digit_def)

lemma undec_dec [simp]: "undec (dec n) = n"
proof (induction n rule: dec.induct)
  case (1 n)
  show ?case
  proof (cases "n < 10")
    case True
    then show ?thesis by (subst dec.simps) (simp add: undec_def)
  next
    case False
    then have "undec (dec n) = 10 * undec (dec (n div 10)) + n mod 10"
      by (subst dec.simps) (simp add: undec_def)
    then show ?thesis using 1 [OF False] by simp
  qed
qed

lemma dec_not_Nil [simp]: "dec n \<noteq> []"
  by (subst dec.simps) simp

lemma dec_digits: "c \<in> set (dec n) \<Longrightarrow> is_digit c"
proof (induction n rule: dec.induct)
  case (1 n)
  then show ?case by (subst (asm) (2) dec.simps) (auto split: if_splits)
qed

lemma dec_inject [simp]: "dec m = dec n \<longleftrightarrow> m = n"
  by (metis undec_dec)

lemma dec_hd: "n > 0 \<Longrightarrow> hd (dec n) \<noteq> CHR ''0''"
proof (induction n rule: dec.induct)
  case (1 n)
  show ?case
  proof (cases "n < 10")
    case True
    have "char_of (48 + n) \<noteq> CHR ''0''"
    proof
      assume "char_of (48 + n) = CHR ''0''"
      then have "(of_char (char_of (48 + n)) :: nat) = of_char CHR ''0''"
        by (rule arg_cong)
      then show False using True "1.prems" by simp
    qed
    then show ?thesis using True by (subst dec.simps) simp
  next
    case False
    then show ?thesis using "1.IH" by (subst dec.simps) simp
  qed
qed

lemma dec_canonical: "length (dec n) > 1 \<Longrightarrow> hd (dec n) \<noteq> CHR ''0''"
  using dec_hd [of n] by (cases "n = 0") (simp_all add: dec.simps)

section \<open>Quoting and hexadecimal\<close>

text \<open>
  \<^verbatim>\<open>strconv.Quote\<close> and \<^verbatim>\<open>%q\<close>, exact on ASCII text. Bytes from 0x80 on stay as they are, which is
  what Go prints for printable characters; the program quotes other text only inside errors.
\<close>

definition hex_char :: "nat \<Rightarrow> char" where
  "hex_char n = (if n < 10 then char_of (48 + n) else char_of (87 + n))"

fun hex :: "nat \<Rightarrow> string" where
  "hex n = (if n < 16 then [hex_char n] else hex (n div 16) @ [hex_char (n mod 16)])"

declare hex.simps [simp del]

definition quote_char :: "char \<Rightarrow> string" where
  "quote_char c = (let n = of_char c :: nat; escaped = (\<lambda>x. [CHR 0x5C, x]) in
     if c = CHR 0x22 \<or> c = CHR 0x5C then escaped c
     else if n = 7 then escaped CHR ''a'' else if n = 8 then escaped CHR ''b''
     else if n = 9 then escaped CHR ''t'' else if n = 10 then escaped CHR ''n''
     else if n = 11 then escaped CHR ''v'' else if n = 12 then escaped CHR ''f''
     else if n = 13 then escaped CHR ''r''
     else if n < 32 \<or> n = 127 then CHR 0x5C # CHR ''x'' # [hex_char (n div 16), hex_char (n mod 16)]
     else [c])"

definition quote :: "string \<Rightarrow> string" where
  "quote s = CHR 0x22 # concat (map quote_char s) @ [CHR 0x22]"

text \<open>\<^verbatim>\<open>0x%08x\<close>.\<close>

definition hex8 :: "nat \<Rightarrow> string" where
  "hex8 n = ''0x'' @ (let h = hex n in replicate (8 - length h) CHR ''0'' @ h)"

text \<open>
  \<^verbatim>\<open>strings.ToLower\<close> as far as a later search for an ASCII phrase can tell: the two non-ASCII
  characters whose lower case is ASCII are mapped as well (U+212A and U+0130).
\<close>

fun lower_ascii :: "string \<Rightarrow> string" where
  "lower_ascii [] = []"
| "lower_ascii (a # b # c # s) =
     (if [a, b, c] = bytes [0xE2, 0x84, 0xAA] then CHR ''k'' # lower_ascii s
      else if [a, b] = bytes [0xC4, 0xB0] then CHR ''i'' # lower_ascii (c # s)
      else char_of (let n = of_char a :: nat in if 65 \<le> n \<and> n \<le> 90 then n + 32 else n)
        # lower_ascii (b # c # s))"
| "lower_ascii [a, b] =
     (if [a, b] = bytes [0xC4, 0xB0] then ''i''
      else map (\<lambda>x. char_of (let n = of_char x :: nat in if 65 \<le> n \<and> n \<le> 90 then n + 32 else n)) [a, b])"
| "lower_ascii [a] =
     [char_of (let n = of_char a :: nat in if 65 \<le> n \<and> n \<le> 90 then n + 32 else n)]"

definition contains :: "string \<Rightarrow> string \<Rightarrow> bool" where
  "contains s t = sublist t s"

lemma char_constant:
  "Char a b c d e f g h = char_of (n :: nat) \<longleftrightarrow> of_char (Char a b c d e f g h) = n mod 256"
  "char_of (n :: nat) = Char a b c d e f g h \<longleftrightarrow> n mod 256 = of_char (Char a b c d e f g h)"
  by (metis char_of_char char_of_mod_256 of_char_of)+

section \<open>Plain text\<close>

definition plain :: "char \<Rightarrow> bool" where
  "plain c \<longleftrightarrow> 33 \<le> (of_char c :: nat) \<and> (of_char c :: nat) < 128"

lemma plain_digit [simp]: "is_digit c \<Longrightarrow> plain c"
  by (simp add: plain_def is_digit_def)

lemma plain_dec [simp]: "list_all plain (dec n)"
  using dec_digits by (auto simp: list_all_iff)

lemma space_rune_ends:
  "r \<in> set space_runes \<Longrightarrow> r \<noteq> [] \<and> \<not> plain (hd r) \<and> \<not> plain (last r)"
  by (auto simp: space_runes_def bytes_def plain_def)

lemma space_at_plain [simp]: "plain c \<Longrightarrow> space_at (c # s) = None"
  using space_rune_ends by (fastforce simp: space_at_def find_None_iff prefix_Cons)

lemma strip_any_plain:
  assumes "\<forall>r \<in> set rs. r \<noteq> [] \<longrightarrow> \<not> plain (hd r)" and "s \<noteq> []" and "plain (hd s)"
  shows "strip_any rs s = s"
  by (rule strip_any_fixed) (use assms in \<open>cases s; fastforce simp: find_None_iff prefix_Cons\<close>)

lemma trim_plain:
  assumes "s \<noteq> []" and "plain (hd s)" and "plain (last s)"
  shows "trim_space s = s"
proof -
  have "strip_any space_runes s = s"
    by (rule strip_any_plain) (use assms space_rune_ends in auto)
  moreover have "strip_any (map rev space_runes) (rev s) = rev s"
    by (rule strip_any_plain) (use assms space_rune_ends in \<open>auto simp: hd_rev\<close>)
  ultimately show ?thesis
    by (simp add: trim_space_def)
qed

end
