(* ===== verification/Dns_Probe.thy ===== *)
theory Dns_Probe
  imports Go_Strings Engine_Types
begin

text \<open>
  The DNS readiness probe of \<^verbatim>\<open>internal/engine/dns_probe.go\<close>: the query it sends, the name
  decompression and the checks on a response, and the probe over a connection.
\<close>

unbundle bit_operations_syntax

type_synonym byte = "8 word"

definition byte_at :: "byte list \<Rightarrow> nat \<Rightarrow> nat" where
  "byte_at m i = unat (m ! i)"

text \<open>\<^verbatim>\<open>binary.BigEndian.Uint16\<close> of two bytes at an offset within the message.\<close>

definition uint16_at :: "byte list \<Rightarrow> nat \<Rightarrow> nat" where
  "uint16_at m i = 256 * byte_at m i + byte_at m (i + 1)"

definition put_uint16 :: "nat \<Rightarrow> byte list" where
  "put_uint16 n = [of_nat (n div 256), of_nat n]"

definition text_of :: "byte list \<Rightarrow> string" where
  "text_of = map (\<lambda>b. char_of (unat b))"

definition bytes_of :: "string \<Rightarrow> byte list" where
  "bytes_of = map (\<lambda>c. of_nat (of_char c))"

lemma fresh_pointer:
  "q < n \<Longrightarrow> q \<notin> S \<Longrightarrow> card ({..<n} - insert q S) < card ({..<n} - S :: nat set)"
  by (rule psubset_card_mono) auto

section \<open>Reading a possibly compressed name\<close>

definition pointer_at :: "byte list \<Rightarrow> nat \<Rightarrow> nat" where
  "pointer_at m p = (byte_at m p AND 0x3F) * 256 + byte_at m (p + 1)"

definition label_at :: "byte list \<Rightarrow> nat \<Rightarrow> string" where
  "label_at m p = text_of (take (byte_at m p) (drop (p + 1) m))"

text \<open>
  One iteration of the loop of \<open>readDNSName\<close>: \<open>next\<close> is \<^verbatim>\<open>-1\<close> as \<open>None\<close>, \<open>visited\<close> the
  pointers already followed. The loop ends because a pointer is followed at most once and a
  label moves the position forward; that is the measure of the termination proof.
\<close>

function read_name ::
  "byte list \<Rightarrow> nat list \<Rightarrow> nat \<Rightarrow> nat option \<Rightarrow> nat \<Rightarrow> string list \<Rightarrow> (string \<times> nat) fallible"
where
  "read_name m visited position next expanded labels =
     (if length m \<le> position then Inl (Err ''name is truncated'')
      else let len = byte_at m position in
      if len AND 0xC0 = 0xC0 then
        if length m \<le> position + 1 then Inl (Err ''compression pointer is truncated'')
        else let next' = (case next of None \<Rightarrow> Some (position + 2) | Some n \<Rightarrow> Some n);
                 pointer = pointer_at m position in
          if length m \<le> pointer then Inl (Err ''compression pointer is outside the message'')
          else if pointer \<in> set visited then Inl (Err ''compression pointer loop'')
          else read_name m (pointer # visited) pointer next' expanded labels
      else if len AND 0xC0 \<noteq> 0 then Inl (Err ''unsupported label type'')
      else let position' = position + 1 in
        if len = 0 then
          let end = (case next of None \<Rightarrow> position' | Some n \<Rightarrow> n) in
          Inr (if labels = [] then ''.'' else join ''.'' labels @ ''.'', end)
        else if len > 63 \<or> length m < position' + len then
          Inl (Err ''label is invalid or truncated'')
        else if expanded + len + 1 > 255 then Inl (Err ''expanded name exceeds 255 bytes'')
        else read_name m visited (position' + len) next (expanded + len + 1)
          (labels @ [label_at m position]))"
  by pat_completeness auto
termination
  by (relation "measures [\<lambda>(m, v, p, n, e, l). card ({..<length m} - set v),
      \<lambda>(m, v, p, n, e, l). length m - p]")
    (auto simp del: Diff_insert card_Diff_insert simp: not_le fresh_pointer)

declare read_name.simps [simp del]

definition read_dns_name :: "byte list \<Rightarrow> nat \<Rightarrow> (string \<times> nat) fallible" where
  "read_dns_name m offset =
     (if length m \<le> offset then Inl (Err ''name starts outside the message'')
      else read_name m [] offset None 1 [])"

section \<open>The query\<close>

text \<open>
  \<open>dnsProbeQuery\<close> after its two reads from the random source, which are its arguments: the two
  identifier bytes and the eight label bytes.
\<close>

definition hex_digit :: "nat \<Rightarrow> char" where
  "hex_digit n = ''0123456789abcdef'' ! n"

definition hex_encode :: "byte list \<Rightarrow> string" where
  "hex_encode bs = concat (map (\<lambda>b. [hex_digit (unat b div 16), hex_digit (unat b mod 16)]) bs)"

definition probe_label_length :: nat where
  "probe_label_length = 23"

definition probe_label :: "byte list \<Rightarrow> string" where
  "probe_label label_bytes = ''boxctl-'' @ hex_encode label_bytes"

definition dns_probe_query :: "byte list \<Rightarrow> byte list \<Rightarrow> byte list \<times> nat \<times> string" where
  "dns_probe_query id_bytes label_bytes =
     (let qid = uint16_at id_bytes 0;
          label = probe_label label_bytes;
          header = put_uint16 qid @ put_uint16 0x0100 @ put_uint16 1 @ replicate 6 0
      in (header @ [of_nat probe_label_length] @ bytes_of label @ [7] @ bytes_of ''invalid'' @
            [0, 0, 1, 0, 1],
          qid, label @ ''.invalid.''))"

section \<open>The checks on a response\<close>

text \<open>The resource records after the question, each skipped by its lengths.\<close>

fun skip_records :: "byte list \<Rightarrow> nat \<Rightarrow> nat \<Rightarrow> nat fallible" where
  "skip_records m offset 0 = Inr offset"
| "skip_records m offset (Suc n) =
     (case read_dns_name m offset of
        Inl e \<Rightarrow> Inl (Wrap ''parse resource record name'' e)
      | Inr (_, nxt) \<Rightarrow>
          if length m < nxt + 10 then Inl (Err ''resource record header is truncated'')
          else let offset' = nxt + 10 + uint16_at m (nxt + 8) in
            if length m < offset' then Inl (Err ''resource record data is truncated'')
            else skip_records m offset' n)"

text \<open>The question must be the one asked, in class IN and type A.\<close>

definition check_question :: "byte list \<Rightarrow> string \<Rightarrow> nat fallible" where
  "check_question m query_name =
     (case read_dns_name m 12 of
        Inl e \<Rightarrow> Inl (Wrap ''parse question name'' e)
      | Inr (name, offset) \<Rightarrow>
          if name \<noteq> query_name then Inl (Err ''response question name does not match'')
          else if length m < offset + 4 then Inl (Err ''question is truncated'')
          else if uint16_at m offset \<noteq> 1 \<or> uint16_at m (offset + 2) \<noteq> 1
          then Inl (Err ''response question type or class does not match'')
          else Inr (offset + 4))"

definition check_header :: "byte list \<Rightarrow> nat \<Rightarrow> gerror option" where
  "check_header m query_id =
     (if length m < 12 then Some (Err ''header is truncated'')
      else if uint16_at m 0 \<noteq> query_id then Some (Err ''transaction ID does not match'')
      else let flags = uint16_at m 2 in
        if flags AND 0x8000 = 0 then Some (Err ''message is not a response'')
        else if flags AND 0x7800 \<noteq> 0
        then Some (Err ''response opcode does not match the query'')
        else if flags AND 0x0200 \<noteq> 0 then Some (Err ''response is truncated'')
        else if flags AND 0x000F \<noteq> 0 \<and> flags AND 0x000F \<noteq> 3
        then Some (Err (''DNS server returned failure response code '' @ dec (flags AND 0x000F)))
        else if uint16_at m 4 \<noteq> 1
        then Some (Err ''response does not contain the matching question'')
        else None)"

definition validate_dns_response :: "byte list \<Rightarrow> nat \<Rightarrow> string \<Rightarrow> gerror option" where
  "validate_dns_response m query_id query_name =
     (case check_header m query_id of Some e \<Rightarrow> Some e | None \<Rightarrow>
      (case check_question m query_name of Inl e \<Rightarrow> Some e | Inr offset \<Rightarrow>
      (case skip_records m offset (uint16_at m 6 + uint16_at m 8 + uint16_at m 10) of
        Inl e \<Rightarrow> Some e
      | Inr end_offset \<Rightarrow>
          if end_offset \<noteq> length m then Some (Err ''response contains trailing data'')
          else None)))"

section \<open>The probe\<close>

text \<open>
  The random source and the UDP socket, over a world \<^typ>\<open>'w\<close>. A read delivers at most the 4096
  bytes of the receive buffer.
\<close>

record 'w probe_net =
  pn_random :: "nat \<Rightarrow> ('w, byte list fallible) state"
  pn_dial :: "string \<Rightarrow> ('w, gerror option) state"
  pn_set_deadline :: "('w, gerror option) state"
  pn_write :: "byte list \<Rightarrow> ('w, gerror option) state"
  pn_read :: "nat \<Rightarrow> ('w, byte list fallible) state"
  pn_close :: "('w, unit) state"

definition join_host_port :: "string \<Rightarrow> string \<Rightarrow> string" where
  "join_host_port host port =
     (if CHR '':'' \<in> set host \<or> CHR 0x25 \<in> set host
      then ''['' @ host @ '']:'' @ port else host @ '':'' @ port)"

definition probe_host :: "string \<Rightarrow> string" where
  "probe_host host =
     (let h = trim_space host in
      if h = [] \<or> h = ''0.0.0.0'' then ''127.0.0.1'' else if h = ''::'' then ''::1'' else h)"

definition random_query ::
  "'w probe_net \<Rightarrow> ('w, (byte list \<times> nat \<times> string) fallible) state" where
  "random_query net = do {
     ids \<leftarrow> pn_random net 2;
     case ids of
       Inl e \<Rightarrow> State_Monad.return (Inl (Wrap ''generate DNS probe ID'' e))
     | Inr id_bytes \<Rightarrow> do {
         labels \<leftarrow> pn_random net 8;
         case labels of
           Inl e \<Rightarrow> State_Monad.return (Inl (Wrap ''generate DNS probe name'' e))
         | Inr label_bytes \<Rightarrow>
             State_Monad.return (Inr (dns_probe_query id_bytes label_bytes)) } }"

definition exchange :: "'w probe_net \<Rightarrow> ('w, gerror option) state" where
  "exchange net = do {
     deadline \<leftarrow> pn_set_deadline net;
     case deadline of
       Some e \<Rightarrow> State_Monad.return (Some (Wrap ''set DNS probe deadline'' e))
     | None \<Rightarrow> do {
         made \<leftarrow> random_query net;
         case made of
           Inl e \<Rightarrow> State_Monad.return (Some e)
         | Inr (query, query_id, query_name) \<Rightarrow> do {
             sent \<leftarrow> pn_write net query;
             case sent of
               Some e \<Rightarrow> State_Monad.return (Some (Wrap ''send DNS probe'' e))
             | None \<Rightarrow> do {
                 received \<leftarrow> pn_read net 4096;
                 case received of
                   Inl e \<Rightarrow> State_Monad.return (Some (Wrap ''read DNS probe response'' e))
                 | Inr response \<Rightarrow> State_Monad.return
                     (map_option (Wrap ''invalid DNS probe response'')
                       (validate_dns_response response query_id query_name)) } } } }"

definition probe_dns :: "'w probe_net \<Rightarrow> dns_endpoint \<Rightarrow> int \<Rightarrow> ('w, gerror option) state" where
  "probe_dns net endpoint timeout =
     (if \<not> Enabled endpoint then State_Monad.return None
      else if DNSPort endpoint = 0
      then State_Monad.return (Some (Err ''DNS probe endpoint has no port''))
      else if timeout \<le> 0
      then State_Monad.return (Some (Err ''DNS probe timeout must be positive''))
      else do {
        let address = join_host_port (probe_host (Host endpoint)) (dec (unat (DNSPort endpoint)));
        dialled \<leftarrow> pn_dial net address;
        case dialled of
          Some e \<Rightarrow> State_Monad.return (Some (Wrap (''connect to '' @ address) e))
        | None \<Rightarrow> do {
            r \<leftarrow> exchange net;
            pn_close net;
            State_Monad.return r } })"

end
