(* ===== verification/Dns_Probe_Proofs.thy ===== *)
theory Dns_Probe_Proofs
  imports Dns_Probe
begin

text \<open>
  The DNS probe against the message format: a name is read exactly when the format's decoding
  relation yields it within 255 octets, an accepted response is exactly a well-formed answer to
  the query, and the answer a resolver gives to the probe's own query is accepted.
\<close>

section \<open>The decoding relation of compressed names\<close>

text \<open>
  \<open>decodes m p ls k\<close>: from position \<open>p\<close> the labels \<open>ls\<close> follow, in \<open>k\<close> labels and pointers. Nothing
  bounds the pointers but that the decoding ends.
\<close>

inductive decodes :: "byte list \<Rightarrow> nat \<Rightarrow> string list \<Rightarrow> nat \<Rightarrow> bool" for m :: "byte list" where
  root: "p < length m \<Longrightarrow> byte_at m p = 0 \<Longrightarrow> decodes m p [] 0"
| label: "p < length m \<Longrightarrow> byte_at m p \<noteq> 0 \<Longrightarrow> byte_at m p AND 0xC0 = 0 \<Longrightarrow> byte_at m p \<le> 63 \<Longrightarrow>
    p + 1 + byte_at m p \<le> length m \<Longrightarrow> decodes m (p + 1 + byte_at m p) ls k \<Longrightarrow>
    decodes m p (label_at m p # ls) (Suc k)"
| pointer: "p + 1 < length m \<Longrightarrow> byte_at m p AND 0xC0 = 0xC0 \<Longrightarrow> pointer_at m p < length m \<Longrightarrow>
    decodes m (pointer_at m p) ls k \<Longrightarrow> decodes m p ls (Suc k)"

inductive_cases decodesE: "decodes m p ls k"

definition dotted :: "string list \<Rightarrow> string" where
  "dotted ls = (if ls = [] then ''.'' else join ''.'' ls @ ''.'')"

definition wire_length :: "string list \<Rightarrow> nat" where
  "wire_length ls = sum_list (map (\<lambda>l. length l + 1) ls)"

lemma wire_length_simps [simp]:
  "wire_length [] = 0" "wire_length (l # ls) = length l + 1 + wire_length ls"
  by (simp_all add: wire_length_def)

lemma length_text_of [simp]: "length (text_of bs) = length bs"
  by (simp add: text_of_def)

lemma length_label_at: "p + 1 + byte_at m p \<le> length m \<Longrightarrow> length (label_at m p) = byte_at m p"
  by (simp add: label_at_def)

lemma decodes_deterministic:
  "decodes m p ls k \<Longrightarrow> decodes m p ls' k' \<Longrightarrow> ls = ls' \<and> k = k'"
proof (induction arbitrary: ls' k' rule: decodes.induct)
  case (root p)
  from root.prems show ?case by (cases rule: decodesE) (use root in auto)
next
  case (label p ls k)
  from label.prems show ?case by (cases rule: decodesE) (auto simp: label.hyps dest: label.IH [simplified])
next
  case (pointer p ls k)
  from pointer.prems show ?case by (cases rule: decodesE) (use pointer.hyps(2) in \<open>auto dest: pointer.IH\<close>)
qed

text \<open>The four ways an iteration can go on, as conditional equations.\<close>

lemma read_name_pointer:
  "p + 1 < length m \<Longrightarrow> byte_at m p AND 0xC0 = 0xC0 \<Longrightarrow> read_name m v p nx e ls =
     (if length m \<le> pointer_at m p then Inl (Err ''compression pointer is outside the message'')
      else if pointer_at m p \<in> set v then Inl (Err ''compression pointer loop'')
      else read_name m (pointer_at m p # v) (pointer_at m p)
        (Some (case nx of None \<Rightarrow> p + 2 | Some n \<Rightarrow> n)) e ls)"
  by (subst read_name.simps) (auto simp: Let_def split: option.split)

lemma read_name_root:
  "p < length m \<Longrightarrow> byte_at m p = 0 \<Longrightarrow>
   read_name m v p nx e ls = Inr (dotted ls, case nx of None \<Rightarrow> p + 1 | Some n \<Rightarrow> n)"
  by (subst read_name.simps) (simp add: dotted_def split: option.split)

lemma read_name_label:
  "p < length m \<Longrightarrow> byte_at m p AND 0xC0 = 0 \<Longrightarrow> byte_at m p \<noteq> 0 \<Longrightarrow> byte_at m p \<le> 63 \<Longrightarrow>
   p + 1 + byte_at m p \<le> length m \<Longrightarrow> read_name m v p nx e ls =
     (if e + byte_at m p + 1 > 255 then Inl (Err ''expanded name exceeds 255 bytes'')
      else read_name m v (p + 1 + byte_at m p) nx (e + byte_at m p + 1) (ls @ [label_at m p]))"
  by (subst read_name.simps) (auto simp: Let_def)

lemma read_name_Inr_cases:
  assumes "read_name m v p nx e ls = Inr r"
  obtains (root) "p < length m" "byte_at m p = 0"
  | (label) "p < length m" "byte_at m p AND 0xC0 = 0" "byte_at m p \<noteq> 0" "byte_at m p \<le> 63"
      "p + 1 + byte_at m p \<le> length m" "e + byte_at m p + 1 \<le> 255"
  | (pointer) "p + 1 < length m" "byte_at m p AND 0xC0 = 0xC0" "pointer_at m p < length m"
      "pointer_at m p \<notin> set v"
  using assms by (subst (asm) read_name.simps) (auto simp: Let_def not_le split: if_splits)

text \<open>Every name that is read is a decoding within the bound on its length.\<close>

lemma read_name_sound:
  assumes "read_name m v p nx e ls = Inr (name, fin)" and "e \<le> 255"
  shows "\<exists>ls' k. decodes m p ls' k \<and> name = dotted (ls @ ls') \<and> e + wire_length ls' \<le> 255"
  using assms
proof (induction m v p nx e ls rule: read_name.induct)
  case (1 m v p nx e ls)
  from "1.prems"(1) show ?case
  proof (cases rule: read_name_Inr_cases)
    case root
    then show ?thesis
      using "1.prems" by (auto simp: read_name_root intro!: exI [of _ "[]"] decodes.root)
  next
    case label
    then have "read_name m v (p + 1 + byte_at m p) nx (e + byte_at m p + 1)
        (ls @ [label_at m p]) = Inr (name, fin)"
      using "1.prems"(1) by (simp add: read_name_label)
    then obtain ls' k where "decodes m (p + 1 + byte_at m p) ls' k"
        "name = dotted ((ls @ [label_at m p]) @ ls')" "e + byte_at m p + 1 + wire_length ls' \<le> 255"
      using "1.IH"(2) label by fastforce
    then show ?thesis
      using label by (auto simp: length_label_at
          intro!: exI [of _ "label_at m p # ls'"] exI [of _ "Suc k"] decodes.label)
  next
    case pointer
    then have "read_name m (pointer_at m p # v) (pointer_at m p)
        (Some (case nx of None \<Rightarrow> p + 2 | Some n \<Rightarrow> n)) e ls = Inr (name, fin)"
      using "1.prems"(1) by (simp add: read_name_pointer)
    moreover have "(case nx of None \<Rightarrow> Some (p + 2) | Some n \<Rightarrow> Some n) =
        Some (case nx of None \<Rightarrow> p + 2 | Some n \<Rightarrow> n)"
      by (cases nx) auto
    ultimately show ?thesis
      using "1.IH"(1) pointer "1.prems"(2) decodes.pointer [of p m] by fastforce
  qed
qed

text \<open>
  Conversely the pointers already followed never hide a decoding: each of them is further from
  the end of the name than the current position, so it cannot be reached again.
\<close>

lemma read_name_complete:
  assumes "decodes m p ls' k" and "e + wire_length ls' \<le> 255"
    and "\<forall>q \<in> set v. \<exists>ls k'. decodes m q ls k' \<and> k \<le> k'"
  shows "\<exists>fin. read_name m v p nx e ls = Inr (dotted (ls @ ls'), fin)"
  using assms
proof (induction arbitrary: v nx e ls rule: decodes.induct)
  case (root p)
  then show ?case by (simp add: read_name_root)
next
  case (label p ls' k)
  have "\<exists>fin. read_name m v (p + 1 + byte_at m p) nx (e + byte_at m p + 1)
      (ls @ [label_at m p]) = Inr (dotted ((ls @ [label_at m p]) @ ls'), fin)"
    by (rule label.IH) (use label in \<open>force simp: length_label_at\<close>)+
  then show ?case
    using label by (simp add: read_name_label length_label_at)
next
  case (pointer p ls' k)
  have fresh: "pointer_at m p \<notin> set v"
  proof
    assume "pointer_at m p \<in> set v"
    then obtain l k' where "decodes m (pointer_at m p) l k'" "Suc k \<le> k'"
      using pointer.prems by blast
    then show False
      using decodes_deterministic [OF pointer.hyps(4)] by force
  qed
  have "\<exists>fin. read_name m (pointer_at m p # v) (pointer_at m p)
      (Some (case nx of None \<Rightarrow> p + 2 | Some n \<Rightarrow> n)) e ls = Inr (dotted (ls @ ls'), fin)"
    by (rule pointer.IH) (use pointer in \<open>auto, metis Suc_leD\<close>)
  then show ?case
    using pointer fresh by (simp add: read_name_pointer)
qed

lemma read_dns_name_iff:
  "(\<exists>fin. read_dns_name m p = Inr (name, fin)) \<longleftrightarrow>
     (\<exists>ls k. decodes m p ls k \<and> name = dotted ls \<and> wire_length ls \<le> 254)" (is "?L \<longleftrightarrow> ?R")
proof
  assume ?L
  then show ?R
    using read_name_sound [of m "[]" p None 1 "[]" name]
    by (fastforce simp: read_dns_name_def split: if_splits)
next
  assume ?R
  then obtain ls k where *: "decodes m p ls k" "name = dotted ls" "wire_length ls \<le> 254"
    by blast
  then have "p < length m"
    by (auto elim: decodesE)
  with * read_name_complete [OF *(1), of 1 "[]" None "[]"] show ?L
    by (simp add: read_dns_name_def)
qed

text \<open>The end of a name lies after its start and within the message.\<close>

lemma read_name_bounds:
  assumes "read_name m v p nx e ls = Inr (name, fin)"
    and "off < length m" and "nx = None \<Longrightarrow> off \<le> p"
    and "\<And>n. nx = Some n \<Longrightarrow> off < n \<and> n \<le> length m"
  shows "off < fin \<and> fin \<le> length m"
  using assms
proof (induction m v p nx e ls rule: read_name.induct)
  case (1 m v p nx e ls)
  from "1.prems"(1) show ?case
  proof (cases rule: read_name_Inr_cases)
    case root
    then show ?thesis using "1.prems" by (auto simp: read_name_root split: option.splits)
  next
    case label
    then show ?thesis
      using "1.IH"(2) "1.prems" by (fastforce simp: read_name_label)
  next
    case pointer
    moreover have "(case nx of None \<Rightarrow> Some (p + 2) | Some n \<Rightarrow> Some n) =
        Some (case nx of None \<Rightarrow> p + 2 | Some n \<Rightarrow> n)"
      by (cases nx) auto
    moreover have "off < (case nx of None \<Rightarrow> p + 2 | Some n \<Rightarrow> n)"
      "(case nx of None \<Rightarrow> p + 2 | Some n \<Rightarrow> n) \<le> length m"
      using "1.prems" pointer by (auto split: option.splits)
    ultimately show ?thesis
      using "1.IH"(1) "1.prems"(1,2) by (simp add: read_name_pointer)
  qed
qed

lemma read_dns_name_bounds:
  "read_dns_name m p = Inr (name, fin) \<Longrightarrow> p < fin \<and> fin \<le> length m"
  using read_name_bounds [of m "[]" p None 1 "[]" name fin p]
  by (auto simp: read_dns_name_def split: if_splits)

text \<open>
  C11. The name reader follows compression pointers exactly as the message format prescribes: it
  returns a name if and only if the format's decoding from that offset ends and the name fits
  in 255 octets; the loop guard rejects no legitimate name, and the position it returns lies
  after the start and within the message. (The reader itself is total: pointer loops end it.)
\<close>

theorem dns_name_decoding:
  "((\<exists>fin. read_dns_name m p = Inr (name, fin)) \<longleftrightarrow>
      (\<exists>ls k. decodes m p ls k \<and> name = dotted ls \<and> wire_length ls \<le> 254)) \<and>
   (\<forall>name fin. read_dns_name m p = Inr (name, fin) \<longrightarrow> p < fin \<and> fin \<le> length m)"
  using read_dns_name_iff read_dns_name_bounds by blast

lemma dns_name_decoding_witness:
  "let m = [1, 97, 0, 0xC0, 0] in read_dns_name m 3 = Inr (''a.'', 5) \<and> 3 < (5::nat) \<and> 5 \<le> length m"
proof -
  have "read_dns_name [1, 97, 0, 0xC0, 0] 3 = Inr (''a.'', 5)"
    by code_simp
  with dns_name_decoding [of "[1, 97, 0, 0xC0, 0]" 3 "''a.''"] show ?thesis
    by (simp add: Let_def)
qed

section \<open>Well-formed responses\<close>

inductive records_tile :: "byte list \<Rightarrow> nat \<Rightarrow> nat \<Rightarrow> bool" for m :: "byte list" where
  at_end: "records_tile m (length m) 0"
| one_record: "read_dns_name m offset = Inr (name, nxt) \<Longrightarrow> nxt + 10 \<le> length m \<Longrightarrow>
    records_tile m (nxt + 10 + uint16_at m (nxt + 8)) n \<Longrightarrow> records_tile m offset (Suc n)"

inductive_simps records_tile_0 [simp]: "records_tile m offset 0"
inductive_simps records_tile_Suc: "records_tile m offset (Suc n)"

lemma records_tile_within: "records_tile m offset n \<Longrightarrow> offset \<le> length m"
  by (induction rule: records_tile.induct) (auto dest: read_dns_name_bounds)

lemma skip_records_tile: "skip_records m offset n = Inr (length m) \<longleftrightarrow> records_tile m offset n"
proof (induction n arbitrary: offset)
  case (Suc n)
  show ?case
  proof (cases "read_dns_name m offset")
    case (Inl e)
    then show ?thesis by (simp add: records_tile_Suc)
  next
    case (Inr r)
    then show ?thesis
      by (cases r) (auto simp: records_tile_Suc Let_def Suc.IH not_less dest: records_tile_within)
  qed
qed auto

definition answers :: "byte list \<Rightarrow> nat \<Rightarrow> bool" where
  "answers m qid \<longleftrightarrow> 12 \<le> length m \<and> uint16_at m 0 = qid \<and>
     uint16_at m 2 AND 0x8000 \<noteq> 0 \<and> uint16_at m 2 AND 0x7800 = 0 \<and>
     uint16_at m 2 AND 0x0200 = 0 \<and> uint16_at m 2 AND 0x000F \<in> {0, 3} \<and> uint16_at m 4 = 1"

lemma check_header_answers: "check_header m qid = None \<longleftrightarrow> answers m qid"
  by (simp add: check_header_def answers_def Let_def)

lemma response_accepted_iff:
  "validate_dns_response m qid qname = None \<longleftrightarrow> answers m qid \<and>
     (\<exists>offset. read_dns_name m 12 = Inr (qname, offset) \<and> offset + 4 \<le> length m \<and>
        uint16_at m offset = 1 \<and> uint16_at m (offset + 2) = 1 \<and>
        records_tile m (offset + 4) (uint16_at m 6 + uint16_at m 8 + uint16_at m 10))"
proof -
  have question: "check_question m qname = Inr k \<longleftrightarrow>
      (\<exists>offset. k = offset + 4 \<and> read_dns_name m 12 = Inr (qname, offset) \<and>
        offset + 4 \<le> length m \<and> uint16_at m offset = 1 \<and> uint16_at m (offset + 2) = 1)" for k
    by (auto simp: check_question_def split: sum.split prod.split)
  have "validate_dns_response m qid qname = None \<longleftrightarrow> check_header m qid = None \<and>
      (\<exists>k. check_question m qname = Inr k \<and>
         skip_records m k (uint16_at m 6 + uint16_at m 8 + uint16_at m 10) = Inr (length m))"
    by (auto simp: validate_dns_response_def split: option.split sum.split)
  then show ?thesis
    by (auto simp: check_header_answers question skip_records_tile)
qed

text \<open>
  C14. A datagram passes as the answer to the probe exactly when it is a complete, untruncated
  response with the query's identifier, opcode and single question, the code NOERROR or
  NXDOMAIN, and its announced records end exactly where the datagram ends.
\<close>

theorem dns_response_accepted_iff:
  "validate_dns_response m qid qname = None \<longleftrightarrow> answers m qid \<and>
     (\<exists>offset. read_dns_name m 12 = Inr (qname, offset) \<and> offset + 4 \<le> length m \<and>
        uint16_at m offset = 1 \<and> uint16_at m (offset + 2) = 1 \<and>
        records_tile m (offset + 4) (uint16_at m 6 + uint16_at m 8 + uint16_at m 10))"
  by (rule response_accepted_iff)

section \<open>The probe's own query\<close>

definition encode_labels :: "string list \<Rightarrow> byte list" where
  "encode_labels ls = concat (map (\<lambda>l. of_nat (length l) # bytes_of l) ls) @ [0]"

lemma length_bytes_of [simp]: "length (bytes_of s) = length s"
  by (simp add: bytes_of_def)

lemma text_of_bytes_of [simp]: "text_of (bytes_of s) = s"
  by (induction s) (simp_all add: text_of_def bytes_of_def unat_of_nat take_bit_eq_mod)

lemma short_label_bits: "n < 64 \<Longrightarrow> n AND 0xC0 = (0::nat)"
proof -
  assume "n < 64"
  then have "n \<in> set [0..<64]" by simp
  moreover have "\<forall>k \<in> set [0..<64]. k AND 0xC0 = (0::nat)" by code_simp
  ultimately show ?thesis by blast
qed

lemma read_encoded:
  assumes "\<forall>l \<in> set ls. l \<noteq> [] \<and> length l \<le> 63" and "e + wire_length ls \<le> 255"
  shows "read_name (pre @ encode_labels ls @ post) v (length pre) None e acc =
    Inr (dotted (acc @ ls), length pre + length (encode_labels ls))"
  using assms
proof (induction ls arbitrary: pre e acc)
  case Nil
  then show ?case
    by (subst read_name_root) (simp_all add: encode_labels_def byte_at_def nth_append)
next
  case (Cons l ls)
  let ?rest = "encode_labels ls @ post" and ?head = "of_nat (length l) # bytes_of l"
  define m where "m = pre @ ?head @ ?rest"
  have whole: "pre @ encode_labels (l # ls) @ post = m" "m = (pre @ ?head) @ ?rest"
    by (simp_all add: encode_labels_def m_def)
  have len: "byte_at m (length pre) = length l"
    using Cons.prems by (simp add: m_def byte_at_def unat_of_nat)
  have lab: "label_at m (length pre) = l"
    by (simp add: label_at_def len) (simp add: m_def)
  have "read_name m v (length pre) None e acc =
      read_name m v (length (pre @ ?head)) None (e + length l + 1) (acc @ [l])"
    using Cons.prems
    by (subst read_name_label) (auto simp: len lab short_label_bits m_def [THEN arg_cong [of _ _ length]])
  also have "\<dots> = Inr (dotted ((acc @ [l]) @ ls), length (pre @ ?head) + length (encode_labels ls))"
    unfolding whole(2) by (rule Cons.IH) (use Cons.prems in auto)
  finally show ?case
    unfolding whole(1) by (simp add: encode_labels_def)
qed

lemma length_hex_encode [simp]: "length (hex_encode bs) = 2 * length bs"
  by (induction bs) (simp_all add: hex_encode_def)

lemma byte_small [simp]: "unat (b :: byte) < 256"
  using unsigned_less [of b] by simp

lemma length_put_uint16 [simp]: "length (put_uint16 n) = 2"
  by (simp add: put_uint16_def)

text \<open>The datagram a resolver answers with: the query with its flags replaced.\<close>

definition answer_with :: "nat \<Rightarrow> byte list \<Rightarrow> byte list" where
  "answer_with flags query = take 2 query @ put_uint16 flags @ drop 4 query"

lemma answer_shape:
  assumes "length lb = 8"
  shows "answer_with flags (fst (dns_probe_query ib lb)) =
    (put_uint16 (uint16_at ib 0) @ put_uint16 flags @ put_uint16 1 @ replicate 6 0) @
      encode_labels [probe_label lb, ''invalid''] @ [0, 1, 0, 1]"
  using assms
  by (simp add: answer_with_def dns_probe_query_def Let_def encode_labels_def probe_label_def
      probe_label_length_def put_uint16_def bytes_of_def)

text \<open>
  A resolver that works is seen to work: whatever the random bytes, echoing the probe's
  question with response flags and the code NOERROR or NXDOMAIN is an accepted answer.
\<close>

theorem dns_probe_answer_accepted:
  assumes "length label_bytes = 8" and "flags < 65536"
    and "flags AND 0x8000 \<noteq> 0" and "flags AND 0x7800 = 0" and "flags AND 0x0200 = 0"
    and "flags AND 0x000F = 0 \<or> flags AND 0x000F = 3"
  shows "let (query, query_id, query_name) = dns_probe_query id_bytes label_bytes
    in validate_dns_response (answer_with flags query) query_id query_name = None"
proof -
  obtain query qid qname where q: "dns_probe_query id_bytes label_bytes = (query, qid, qname)"
    by (cases "dns_probe_query id_bytes label_bytes")
  let ?labels = "[probe_label label_bytes, ''invalid'']"
  let ?head = "put_uint16 qid @ put_uint16 flags @ put_uint16 1 @ replicate 6 0"
  have names: "qid = uint16_at id_bytes 0" "qname = dotted ?labels"
    using q by (auto simp: dns_probe_query_def Let_def dotted_def)
  define m where "m = answer_with flags query"
  have m: "m = ?head @ encode_labels ?labels @ [0, 1, 0, 1]"
    using answer_shape [OF assms(1), of flags id_bytes] q by (simp add: m_def names)
  have label: "length (probe_label label_bytes) = 23"
    by (simp add: probe_label_def assms(1))
  then have end_of_name: "length ?head + length (encode_labels ?labels) = 45" "length m = 49"
    by (simp_all add: encode_labels_def m)
  have "read_name m [] (length ?head) None 1 [] =
      Inr (dotted ([] @ ?labels), length ?head + length (encode_labels ?labels))"
    unfolding m by (rule read_encoded) (use label in auto)
  then have name: "read_dns_name m 12 = Inr (qname, 45)"
    using end_of_name by (simp add: read_dns_name_def names)
  have tail: "uint16_at m 45 = 1" "uint16_at m 47 = 1"
    by (simp_all add: m uint16_at_def byte_at_def encode_labels_def nth_append label)
  have "qid < 65536"
    using byte_small [of "id_bytes ! 0"] byte_small [of "id_bytes ! 1"]
    by (simp add: names uint16_at_def byte_at_def del: byte_small)
  then have head: "uint16_at m 0 = qid" "uint16_at m 2 = flags" "uint16_at m 4 = 1"
    "uint16_at m 6 + uint16_at m 8 + uint16_at m 10 = 0"
    using assms(2) by (simp_all add: m uint16_at_def byte_at_def put_uint16_def unat_of_nat nth_append)
  have "validate_dns_response m qid qname = None"
    unfolding response_accepted_iff answers_def
    using end_of_name assms(3-6) by (simp add: name tail head)
  then show ?thesis
    by (simp add: q m_def)
qed

lemma dns_probe_answer_accepted_witness:
  "let (query, query_id, query_name) = dns_probe_query [0x12, 0x34] (replicate 8 0xAB)
    in validate_dns_response (answer_with 0x8183 query) query_id query_name = None"
  by (rule dns_probe_answer_accepted) simp_all

end
