(* ===== verification/Netip_Text.thy ===== *)
theory Netip_Text
  imports Netip Go_Strings
begin

text \<open>
  Reading and printing addresses and prefixes as \<^verbatim>\<open>net/netip\<close> does. The program never looks at
  the errors of these parsers, only at whether they fail.
\<close>

unbundle bit_operations_syntax

section \<open>Parsing\<close>

text \<open>A dotted quad: four fields of one to three digits, without leading zeros, at most 255.\<close>

definition parse_octet :: "string \<Rightarrow> nat option" where
  "parse_octet s =
     (if s \<noteq> [] \<and> list_all is_digit s \<and> (length s > 1 \<longrightarrow> hd s \<noteq> CHR ''0'') \<and> undec s \<le> 255
      then Some (undec s) else None)"

definition parse_ipv4 :: "string \<Rightarrow> (32 word) option" where
  "parse_ipv4 s = (case map parse_octet (split_on CHR ''.'' s) of
       [Some a, Some b, Some c, Some d] \<Rightarrow>
         Some (of_nat (((a * 256 + b) * 256 + c) * 256 + d))
     | _ \<Rightarrow> None)"

definition hex_value :: "char \<Rightarrow> nat option" where
  "hex_value c = (let n = of_char c :: nat in
     if 48 \<le> n \<and> n \<le> 57 then Some (n - 48)
     else if 97 \<le> n \<and> n \<le> 102 then Some (n - 87)
     else if 65 \<le> n \<and> n \<le> 70 then Some (n - 55) else None)"

definition is_hex :: "char \<Rightarrow> bool" where
  "is_hex c \<longleftrightarrow> hex_value c \<noteq> None"

definition unhex :: "string \<Rightarrow> nat" where
  "unhex s = foldl (\<lambda>n c. 16 * n + the (hex_value c)) 0 s"

lemma dropWhile_shorter:
  assumes "dropWhile P s = c # rest"
  shows "length rest < length s" "length (tl rest) < length s"
proof -
  have "length (dropWhile P s) \<le> length s"
    by (rule length_dropWhile_le)
  then show "length rest < length s" "length (tl rest) < length s"
    using assms by auto
qed

text \<open>
  The groups of an IPv6 address: the 16-bit groups read so far and the position of the
  ellipsis, if one was seen.
\<close>

function parse_groups ::
  "string \<Rightarrow> nat list \<Rightarrow> nat option \<Rightarrow> (nat list \<times> nat option) option" where
  "parse_groups s acc ell =
     (if length acc \<ge> 8 then None
      else let h = takeWhile is_hex s; rest = dropWhile is_hex s; acc' = acc @ [unhex h] in
        if h = [] \<or> length h > 4 then None
        else case rest of
          [] \<Rightarrow> Some (acc', ell)
        | c # rest' \<Rightarrow>
            if c = CHR ''.'' then
              if ell = None \<and> length acc \<noteq> 6 \<or> length acc > 6 then None
              else (case parse_ipv4 s of
                  None \<Rightarrow> None
                | Some w \<Rightarrow> Some (acc @ [unat w div 65536, unat w mod 65536], ell))
            else if c \<noteq> CHR '':'' \<or> rest' = [] then None
            else if hd rest' = CHR '':'' then
              if ell \<noteq> None then None
              else if tl rest' = [] then Some (acc', Some (length acc'))
              else parse_groups (tl rest') acc' (Some (length acc'))
            else parse_groups rest' acc' ell)"
  by pat_completeness auto

termination
  by (relation "measure (\<lambda>(s, a, e). length s)") (auto dest: dropWhile_shorter [OF sym])

declare parse_groups.simps [simp del]

definition expand_groups :: "nat list \<times> nat option \<Rightarrow> nat list option" where
  "expand_groups r = (case r of (gs, ell) \<Rightarrow>
     if length gs < 8
     then map_option (\<lambda>e. take e gs @ replicate (8 - length gs) 0 @ drop e gs) ell
     else if ell = None then Some gs else None)"

definition parse_ipv6 :: "string \<Rightarrow> addr option" where
  "parse_ipv6 s =
     (let body = takeWhile (\<lambda>c. c \<noteq> CHR 0x25) s; tail = dropWhile (\<lambda>c. c \<noteq> CHR 0x25) s;
          zone = tl tail in
      if tail \<noteq> [] \<and> zone = [] then None
      else let groups =
          (if prefix ''::'' body then
             if length body = 2 then Some (replicate 8 0)
             else Option.bind (parse_groups (drop 2 body) [] (Some 0)) expand_groups
           else Option.bind (parse_groups body [] None) expand_groups)
        in map_option (\<lambda>gs. Addr6 (of_nat (foldl (\<lambda>n g. 65536 * n + g) 0 gs)) zone) groups)"

text \<open>The first of \<^verbatim>\<open>'.'\<close>, \<^verbatim>\<open>':'\<close> and \<^verbatim>\<open>'%'\<close> decides the family.\<close>

definition parse_addr :: "string \<Rightarrow> addr option" where
  "parse_addr s = (case find (\<lambda>c. c \<in> {CHR ''.'', CHR '':'', CHR 0x25}) s of
       None \<Rightarrow> None
     | Some c \<Rightarrow>
         if c = CHR ''.'' then map_option Addr4 (parse_ipv4 s)
         else if c = CHR '':'' then parse_ipv6 s else None)"

text \<open>The text before the last slash and the text after it.\<close>

definition cut_last :: "char \<Rightarrow> string \<Rightarrow> (string \<times> string) option" where
  "cut_last c s = (if c \<notin> set s then None
     else let after = rev (takeWhile (\<lambda>x. x \<noteq> c) (rev s))
       in Some (take (length s - length after - 1) s, after))"

fun has_zone :: "addr \<Rightarrow> bool" where
  "has_zone (Addr6 _ z) = (z \<noteq> [])"
| "has_zone _ = False"

definition parse_prefix :: "string \<Rightarrow> netip_prefix option" where
  "parse_prefix s = (case cut_last CHR ''/'' s of
       None \<Rightarrow> None
     | Some (ip_text, bits) \<Rightarrow> (case parse_addr ip_text of
           None \<Rightarrow> None
         | Some ip \<Rightarrow>
             if has_zone ip then None
             else if bits = [] \<or> \<not> list_all is_digit bits then None
             else if length bits > 1 \<and> hd bits = CHR ''0'' then None
             else if undec bits > addr_bit_len ip then None
             else Some (prefix_from ip (int (undec bits)))))"

section \<open>Printing\<close>

definition octets :: "32 word \<Rightarrow> nat list" where
  "octets w = (let n = unat w in
     [n div 256 div 256 div 256, n div 256 div 256 mod 256, n div 256 mod 256, n mod 256])"

definition ipv4_string :: "32 word \<Rightarrow> string" where
  "ipv4_string w = join ''.'' (map dec (octets w))"

definition groups_of :: "128 word \<Rightarrow> nat list" where
  "groups_of w = map (\<lambda>i. unat w div 2 ^ (112 - 16 * i) mod 65536) [0..<8]"

definition zero_run :: "nat list \<Rightarrow> nat \<Rightarrow> nat" where
  "zero_run gs i = length (takeWhile (\<lambda>g. g = 0) (drop i gs))"

text \<open>The first of the longest runs of at least two zero groups: its start and length.\<close>

definition longest_zero_run :: "nat list \<Rightarrow> nat \<times> nat" where
  "longest_zero_run gs = foldl (\<lambda>(st, len) i.
     if zero_run gs i \<ge> 2 \<and> zero_run gs i > len then (i, zero_run gs i) else (st, len))
     (0, 0) [0..<8]"

definition ipv6_string :: "128 word \<Rightarrow> string" where
  "ipv6_string w = (let gs = groups_of w; (st, len) = longest_zero_run gs in
     if unat w div 2 ^ 32 = 0xFFFF then ''::ffff:'' @ ipv4_string (ucast w)
     else if len = 0 then join '':'' (map hex gs)
     else join '':'' (map hex (take st gs)) @ ''::'' @ join '':'' (map hex (drop (st + len) gs)))"

fun addr_string :: "addr \<Rightarrow> string" where
  "addr_string Addr_zero = ''invalid IP''"
| "addr_string (Addr4 w) = ipv4_string w"
| "addr_string (Addr6 w z) = ipv6_string w @ (if z = [] then [] else CHR 0x25 # z)"

fun prefix_string :: "netip_prefix \<Rightarrow> string" where
  "prefix_string (Prefix a (Some n)) = addr_string a @ ''/'' @ dec n"
| "prefix_string (Prefix a None) = ''invalid Prefix''"

section \<open>An IPv4 prefix survives printing and reading\<close>

lemma octets_less: "n \<in> set (octets w) \<Longrightarrow> n < 256"
  using unsigned_less [of w, where ?'a = nat] by (auto simp: octets_def Let_def)

lemma octets_value:
  assumes "octets w = [a, b, c, d]"
  shows "of_nat (((a * 256 + b) * 256 + c) * 256 + d) = w"
proof -
  have "a = unat w div 256 div 256 div 256" "b = unat w div 256 div 256 mod 256"
    "c = unat w div 256 mod 256" "d = unat w mod 256"
    using assms by (simp_all add: octets_def Let_def)
  then have "((a * 256 + b) * 256 + c) * 256 + d = unat w"
    by (simp only: div_mult_mod_eq)
  then show ?thesis by simp
qed

lemma parse_octet_dec [simp]: "n < 256 \<Longrightarrow> parse_octet (dec n) = Some n"
  using dec_canonical [of n] by (auto simp: parse_octet_def list_all_iff dest: dec_digits)

lemma dec_no_dot [simp]: "\<not> is_digit c \<Longrightarrow> c \<notin> set (dec n)"
  using dec_digits by blast

lemma parse_ipv4_string [simp]: "parse_ipv4 (ipv4_string w) = Some w"
proof -
  obtain a b c d where o: "octets w = [a, b, c, d]"
    by (simp add: octets_def Let_def)
  then have "split_on CHR ''.'' (ipv4_string w) = [dec a, dec b, dec c, dec d]"
    unfolding ipv4_string_def by (subst split_join) (auto simp: is_digit_def)
  moreover have "a < 256" "b < 256" "c < 256" "d < 256"
    using octets_less [of _ w] o by auto
  ultimately show ?thesis
    using octets_value [OF o] by (simp add: parse_ipv4_def)
qed

definition family_mark :: "char \<Rightarrow> bool" where
  "family_mark c \<longleftrightarrow> c \<in> {CHR ''.'', CHR '':'', CHR 0x25}"

lemma family_of_quad: "find family_mark (ipv4_string w @ t) = Some CHR ''.''"
proof -
  obtain a b c d where o: "octets w = [a, b, c, d]"
    by (simp add: octets_def Let_def)
  have digit: "\<not> family_mark x" if "is_digit x" for x
    using that by (auto simp: family_mark_def is_digit_def)
  have skip: "find family_mark (xs @ CHR ''.'' # ys) = Some CHR ''.''"
    if "\<forall>x \<in> set xs. is_digit x" for xs ys
    using that by (induction xs) (auto simp: digit family_mark_def [of "CHR ''.''"])
  show ?thesis
    by (simp add: ipv4_string_def o skip dec_digits)
qed

lemma parse_addr_family: "parse_addr s = (case find family_mark s of
       None \<Rightarrow> None
     | Some c \<Rightarrow>
         if c = CHR ''.'' then map_option Addr4 (parse_ipv4 s)
         else if c = CHR '':'' then parse_ipv6 s else None)"
  by (simp add: parse_addr_def family_mark_def [abs_def])

lemma parse_addr_ipv4 [simp]: "parse_addr (ipv4_string w) = Some (Addr4 w)"
  using family_of_quad [of w "[]"] by (simp add: parse_addr_family)

lemma set_join: "c \<in> set (join sep ps) \<Longrightarrow> c \<in> set sep \<or> (\<exists>p \<in> set ps. c \<in> set p)"
  by (induction sep ps rule: join.induct) auto

lemma parse_ipv4_text:
  assumes "parse_ipv4 s = Some w" and "c \<in> set s"
  shows "is_digit c \<or> c = CHR ''.''"
proof -
  have "\<exists>n. parse_octet q = Some n" if "q \<in> set (split_on CHR ''.'' s)" for q
    using assms(1) that by (auto simp: parse_ipv4_def split: list.splits option.splits)
  moreover have "is_digit x" if "parse_octet q = Some n" "x \<in> set q" for q n x
    using that by (auto simp: parse_octet_def list_all_iff split: if_splits)
  moreover have "c \<in> set ''.'' \<or> (\<exists>q \<in> set (split_on CHR ''.'' s). c \<in> set q)"
    using set_join [of c "''.''" "split_on CHR ''.'' s"] assms(2) by simp
  ultimately show ?thesis by auto
qed

lemma parse_addr_not_prefix [simp]: "parse_addr (ipv4_string w @ CHR ''/'' # t) = None"
  using parse_ipv4_text [of "ipv4_string w @ CHR ''/'' # t" _ "CHR ''/''"]
  by (cases "parse_ipv4 (ipv4_string w @ CHR ''/'' # t)")
    (auto simp: parse_addr_family family_of_quad is_digit_def)

lemma cut_last_append [simp]:
  assumes "c \<notin> set b"
  shows "cut_last c (a @ c # b) = Some (a, b)"
proof -
  have "takeWhile (\<lambda>x. x \<noteq> c) (rev b @ c # rev a) = rev b"
    using assms by (subst takeWhile_append2) auto
  then show ?thesis
    by (simp add: cut_last_def)
qed

lemma parse_prefix_string [simp]:
  "n \<le> 32 \<Longrightarrow> parse_prefix (prefix_string (Prefix (Addr4 w) (Some n))) = Some (Prefix (Addr4 w) (Some n))"
  using dec_canonical [of n]
  by (auto simp: parse_prefix_def prefix_from_def list_all_iff is_digit_def [of "CHR ''/''"]
      dest: dec_digits)

end
