(* ===== verification/Gateway_Plan.thy ===== *)
theory Gateway_Plan
  imports Netip_Text
begin

text \<open>
  The gateway plan of \<^verbatim>\<open>internal/platform/openwrt/gateway.go\<close>: its defaults, normalization and
  validation. The two bypass port lists are the only fields in which a nil slice (\<open>None\<close>) and an
  empty one differ.
\<close>

section \<open>Plans and defaults\<close>

record gateway_plan =
  Mode :: string
  DNSMode :: string
  Table :: string
  Owner :: string
  TProxyPort :: "16 word"
  RedirectPort :: "16 word"
  PlanDNSPort :: "16 word"
  RouterDNSPort :: "16 word"
  TProxyMark :: "32 word"
  TUNMark :: "32 word"
  PlanLoopMark :: "32 word"
  TProxyTable :: int
  TUNTable :: int
  TProxyPriority :: int
  TUNPriority :: int
  PlanTUNDevice :: string
  CaptureCIDRs :: "string list"
  CaptureCIDRsConfigured :: bool
  BypassCIDRs :: "string list"
  BypassCIDRsConfigured :: bool
  SourceBypassCIDRs :: "string list"
  ProxyServerCIDRs :: "string list"
  IncludeInterfaces :: "string list"
  ExcludeInterfaces :: "string list"
  BypassUIDs :: "32 word list"
  BypassTCPPorts :: "16 word list option"
  BypassUDPPorts :: "16 word list option"
  ProxyOnlyTCPPorts :: "16 word list"
  ProxyOnlyUDPPorts :: "16 word list"
  InterceptOutput :: bool
  RejectQUIC :: bool
  BlockDoT :: bool

definition default_reserved_cidrs :: "string list" where
  "default_reserved_cidrs = [''0.0.0.0/8'', ''10.0.0.0/8'', ''100.64.0.0/10'', ''127.0.0.0/8'',
     ''169.254.0.0/16'', ''172.16.0.0/12'', ''192.0.0.0/24'', ''192.0.2.0/24'', ''192.88.99.0/24'',
     ''192.168.0.0/16'', ''198.51.100.0/24'', ''203.0.113.0/24'', ''224.0.0.0/4'', ''240.0.0.0/4'',
     ''255.255.255.255/32'']"

definition default_ports :: "16 word list" where
  "default_ports = [7890, 7891, 7892, 7893, 7894]"

definition default_gateway_plan :: "string \<Rightarrow> gateway_plan" where
  "default_gateway_plan mode = \<lparr>
     Mode = mode, DNSMode = ''disabled'', Table = ''clash'', Owner = ''boxctl/v1'',
     TProxyPort = 7894, RedirectPort = 7893, PlanDNSPort = 7874, RouterDNSPort = 53,
     TProxyMark = 1, TUNMark = 3, PlanLoopMark = 2, TProxyTable = 100, TUNTable = 101,
     TProxyPriority = 1000, TUNPriority = 1001, PlanTUNDevice = ''clash-tun'',
     CaptureCIDRs = [], CaptureCIDRsConfigured = False,
     BypassCIDRs = default_reserved_cidrs, BypassCIDRsConfigured = False,
     SourceBypassCIDRs = [], ProxyServerCIDRs = [], IncludeInterfaces = [],
     ExcludeInterfaces = [], BypassUIDs = [], BypassTCPPorts = Some default_ports,
     BypassUDPPorts = Some default_ports, ProxyOnlyTCPPorts = [], ProxyOnlyUDPPorts = [],
     InterceptOutput = False, RejectQUIC = False, BlockDoT = False\<rparr>"

definition uses_tproxy_tcp :: "string \<Rightarrow> bool" where
  "uses_tproxy_tcp mode \<longleftrightarrow> mode = ''tproxy'' \<or> mode = ''mixed''"
definition uses_tproxy_udp :: "string \<Rightarrow> bool" where
  "uses_tproxy_udp mode \<longleftrightarrow> mode = ''tproxy'' \<or> mode = ''hybrid''"
definition uses_redirect_tcp :: "string \<Rightarrow> bool" where
  "uses_redirect_tcp mode \<longleftrightarrow> mode = ''hybrid'' \<or> mode = ''mixed2''"
definition uses_tun_tcp :: "string \<Rightarrow> bool" where
  "uses_tun_tcp mode \<longleftrightarrow> mode = ''tun''"
definition uses_tun_udp :: "string \<Rightarrow> bool" where
  "uses_tun_udp mode \<longleftrightarrow> mode = ''tun'' \<or> mode = ''mixed'' \<or> mode = ''mixed2''"
definition uses_tun :: "string \<Rightarrow> bool" where
  "uses_tun mode \<longleftrightarrow> uses_tun_tcp mode \<or> uses_tun_udp mode"

section \<open>Normalization\<close>

definition parse_ipv4_cidr :: "string \<Rightarrow> netip_prefix fallible" where
  "parse_ipv4_cidr value =
     (case parse_addr value of
        Some a \<Rightarrow> if \<not> addr_is4 a then Inl (Err (''not IPv4: '' @ quote value))
          else Inr (prefix_from a 32)
      | None \<Rightarrow> (case parse_prefix value of
          Some p \<Rightarrow> if addr_is4 (prefix_addr p) then Inr (prefix_masked p)
            else Inl (Err (''invalid IPv4 CIDR '' @ quote value))
        | None \<Rightarrow> Inl (Err (''invalid IPv4 CIDR '' @ quote value))))"

text \<open>\<^verbatim>\<open>slices.Sort\<close> followed by \<^verbatim>\<open>slices.Compact\<close>.\<close>

definition sort_compact :: "'a::linorder list \<Rightarrow> 'a list" where
  "sort_compact xs = remdups_adj (sort xs)"

definition normalize_cidrs :: "string list \<Rightarrow> string list" where
  "normalize_cidrs values = sort_compact (map (\<lambda>v. case parse_ipv4_cidr v of
       Inl _ \<Rightarrow> v
     | Inr p \<Rightarrow> prefix_string p) values)"

text \<open>Copying an empty slice by appending to nil gives nil.\<close>

definition normalize_port_slice :: "16 word list option \<Rightarrow> 16 word list option" where
  "normalize_port_slice ports = (case ports of
       None \<Rightarrow> None
     | Some ps \<Rightarrow> if ps = [] then None else Some (sort_compact ps))"

definition or_default :: "'a::zero \<Rightarrow> 'a \<Rightarrow> 'a" where
  "or_default x d = (if x = 0 then d else x)"

definition or_default_text :: "string \<Rightarrow> string \<Rightarrow> string" where
  "or_default_text x d = (if x = [] then d else x)"

text \<open>The first half of \<open>normalizedPlan\<close>: omitted fields receive their defaults.\<close>

definition fill_defaults :: "gateway_plan \<Rightarrow> gateway_plan" where
  "fill_defaults p = (let d = default_gateway_plan (Mode p) in p\<lparr>
     DNSMode := or_default_text (DNSMode p) (DNSMode d),
     Table := or_default_text (Table p) (Table d),
     Owner := or_default_text (Owner p) (Owner d),
     TProxyPort := or_default (TProxyPort p) (TProxyPort d),
     RedirectPort := or_default (RedirectPort p) (RedirectPort d),
     PlanDNSPort := or_default (PlanDNSPort p) (PlanDNSPort d),
     RouterDNSPort := or_default (RouterDNSPort p) (RouterDNSPort d),
     TProxyMark := or_default (TProxyMark p) (TProxyMark d),
     TUNMark := or_default (TUNMark p) (TUNMark d),
     PlanLoopMark := or_default (PlanLoopMark p) (PlanLoopMark d),
     TProxyTable := or_default (TProxyTable p) (TProxyTable d),
     TUNTable := or_default (TUNTable p) (TUNTable d),
     TProxyPriority := or_default (TProxyPriority p) (TProxyPriority d),
     TUNPriority := or_default (TUNPriority p) (TUNPriority d),
     PlanTUNDevice := or_default_text (PlanTUNDevice p) (PlanTUNDevice d),
     BypassCIDRs := (if BypassCIDRsConfigured p then BypassCIDRs p else BypassCIDRs d),
     BypassCIDRsConfigured := True,
     BypassTCPPorts := (if BypassTCPPorts p = None then BypassTCPPorts d else BypassTCPPorts p),
     BypassUDPPorts := (if BypassUDPPorts p = None then BypassUDPPorts d else BypassUDPPorts p)\<rparr>)"

text \<open>The second half: the lists become canonical.\<close>

definition canonical_lists :: "gateway_plan \<Rightarrow> gateway_plan" where
  "canonical_lists p = p\<lparr>
     CaptureCIDRs := normalize_cidrs (CaptureCIDRs p),
     CaptureCIDRsConfigured := CaptureCIDRsConfigured p \<or> normalize_cidrs (CaptureCIDRs p) \<noteq> [],
     BypassCIDRs := normalize_cidrs (BypassCIDRs p),
     SourceBypassCIDRs := normalize_cidrs (SourceBypassCIDRs p),
     ProxyServerCIDRs := normalize_cidrs (ProxyServerCIDRs p),
     IncludeInterfaces := sort_compact (IncludeInterfaces p),
     ExcludeInterfaces := sort_compact (ExcludeInterfaces p),
     BypassUIDs := sort_compact (BypassUIDs p),
     BypassTCPPorts := normalize_port_slice (BypassTCPPorts p),
     BypassUDPPorts := normalize_port_slice (BypassUDPPorts p),
     ProxyOnlyTCPPorts := sort_compact (ProxyOnlyTCPPorts p),
     ProxyOnlyUDPPorts := sort_compact (ProxyOnlyUDPPorts p)\<rparr>"

definition normalized_plan :: "gateway_plan \<Rightarrow> gateway_plan" where
  "normalized_plan p = canonical_lists (fill_defaults p)"

section \<open>Validation\<close>

definition is_alnum :: "char \<Rightarrow> bool" where
  "is_alnum c = (let n = of_char c :: nat in
     48 \<le> n \<and> n \<le> 57 \<or> 65 \<le> n \<and> n \<le> 90 \<or> 97 \<le> n \<and> n \<le> 122)"

text \<open>\<^verbatim>\<open>^[A-Za-z_][A-Za-z0-9_]{0,31}$\<close>, \<^verbatim>\<open>^[A-Za-z0-9_.:@-]{1,15}$\<close>, \<^verbatim>\<open>^[A-Za-z0-9_.:/-]{1,64}$\<close>.\<close>

definition nft_identifier :: "string \<Rightarrow> bool" where
  "nft_identifier s \<longleftrightarrow> s \<noteq> [] \<and> length s \<le> 32 \<and> \<not> is_digit (hd s) \<and>
     list_all (\<lambda>c. is_alnum c \<or> c = CHR ''_'') s"

definition interface_name :: "string \<Rightarrow> bool" where
  "interface_name s \<longleftrightarrow> s \<noteq> [] \<and> length s \<le> 15 \<and>
     list_all (\<lambda>c. is_alnum c \<or> c \<in> set ''_.:@-'') s"

definition owner_name :: "string \<Rightarrow> bool" where
  "owner_name s \<longleftrightarrow> s \<noteq> [] \<and> length s \<le> 64 \<and>
     list_all (\<lambda>c. is_alnum c \<or> c \<in> set ''_.:/-'') s"

text \<open>The first failing check of a list, in order.\<close>

fun first_error :: "('a \<Rightarrow> gerror option) \<Rightarrow> 'a list \<Rightarrow> gerror option" where
  "first_error f [] = None"
| "first_error f (x # xs) = (case f x of Some e \<Rightarrow> Some e | None \<Rightarrow> first_error f xs)"

lemma first_error_None: "first_error f xs = None \<longleftrightarrow> (\<forall>x \<in> set xs. f x = None)"
  by (induction xs) (auto split: option.split)

definition cidr_error :: "string \<Rightarrow> gerror option" where
  "cidr_error v = (case parse_ipv4_cidr v of Inl e \<Rightarrow> Some e | Inr _ \<Rightarrow> None)"

definition check :: "bool \<Rightarrow> string \<Rightarrow> gerror option" where
  "check bad msg = (if bad then Some (Err (''openwrt: '' @ msg)) else None)"

definition ports_of :: "16 word list option \<Rightarrow> 16 word list" where
  "ports_of ports = (case ports of None \<Rightarrow> [] | Some ps \<Rightarrow> ps)"

text \<open>The checks of \<open>Validate\<close> on a normalized plan, in the order of the source.\<close>

definition plan_checks :: "gateway_plan \<Rightarrow> gerror option list" where
  "plan_checks p = [
     check (Mode p \<notin> {''tproxy'', ''hybrid'', ''tun'', ''mixed'', ''mixed2''})
       (''unsupported gateway mode '' @ quote (Mode p)),
     check (DNSMode p \<notin> {''disabled'', ''upstream'', ''redirect''})
       (''unsupported DNS mode '' @ quote (DNSMode p)),
     check (BlockDoT p \<and> DNSMode p = ''disabled'')
       ''DoT blocking requires DNS upstream or redirect'',
     check (\<not> nft_identifier (Table p)) (''unsafe nft table name '' @ quote (Table p)),
     check (\<not> owner_name (Owner p)) (''unsafe owner name '' @ quote (Owner p)),
     check (\<not> interface_name (PlanTUNDevice p))
       (''invalid TUN device '' @ quote (PlanTUNDevice p)),
     first_error (\<lambda>v. check (\<not> interface_name v) (''invalid interface name '' @ quote v))
       (IncludeInterfaces p @ ExcludeInterfaces p),
     first_error (\<lambda>v. check (v \<in> set (ExcludeInterfaces p))
         (''interface '' @ quote v @ '' is both included and excluded''))
       (IncludeInterfaces p),
     first_error cidr_error
       (CaptureCIDRs p @ BypassCIDRs p @ SourceBypassCIDRs p @ ProxyServerCIDRs p),
     check (CaptureCIDRsConfigured p \<and> CaptureCIDRs p = [])
       ''configured capture allowlist must not be empty'',
     check (TProxyMark p = TUNMark p) ''TPROXY and TUN marks must differ'',
     check (PlanLoopMark p = TProxyMark p \<or> PlanLoopMark p = TUNMark p)
       ''loop mark must differ from capture marks'',
     check (0 \<in> set (ports_of (BypassTCPPorts p) @ ports_of (BypassUDPPorts p) @
         ProxyOnlyTCPPorts p @ ProxyOnlyUDPPorts p))
       ''port lists must not contain zero'',
     check (TProxyTable p = TUNTable p \<or> TProxyPriority p = TUNPriority p)
       ''policy tables and priorities must be distinct'',
     check (TProxyTable p < 1 \<or> TUNTable p < 1 \<or> TProxyPriority p < 1 \<or> TUNPriority p < 1)
       ''invalid policy routing identifiers'']"

definition gateway_validate :: "gateway_plan \<Rightarrow> gerror option" where
  "gateway_validate p = first_error id (plan_checks (normalized_plan p))"

end
