(* ===== verification/Gateway_Plan_Proofs.thy ===== *)
theory Gateway_Plan_Proofs
  imports Gateway_Plan
begin

text \<open>
  Gateway plans: normalization is idempotent except on the explicit empty bypass port lists,
  which a second normalization turns back into the defaults, and a validated plan carries only
  text that is safe to place into a ruleset.
\<close>

section \<open>Normalization\<close>

lemma sorted_compact: "sorted (sort_compact xs)"
  by (simp add: sort_compact_def sorted_remdups_adj)

lemma set_sort_compact [simp]: "set (sort_compact xs) = set xs"
  by (simp add: sort_compact_def)

lemma remdups_adj_idem: "remdups_adj (remdups_adj xs) = remdups_adj xs"
  by (simp add: distinct_adj_altdef [symmetric])

lemma sort_compact_idem [simp]: "sort_compact (sort_compact xs) = sort_compact xs"
  using sorted_compact [of xs]
  by (simp add: sort_compact_def sorted_sort_id remdups_adj_idem)

lemma sort_compact_Nil [simp]: "sort_compact xs = [] \<longleftrightarrow> xs = []"
  by (metis set_empty set_sort_compact)

text \<open>The canonical text of an IPv4 CIDR.\<close>

definition canonical_cidr :: "string \<Rightarrow> bool" where
  "canonical_cidr v \<longleftrightarrow> (\<exists>w n. n \<le> 32 \<and> v = prefix_string (Prefix (Addr4 (mask_word n w)) (Some n)))"

lemma mask_word_full [simp]: "mask_word 32 (w :: 32 word) = w"
  by (simp add: mask_word_def)

lemma parse_prefix_valid:
  "parse_prefix s = Some p \<Longrightarrow> \<exists>n. prefix_bits p = Some n \<and> n \<le> addr_bit_len (prefix_addr p)"
proof -
  have bits: "addr_bit_len (addr_without_zone a) = addr_bit_len a" for a
    by (cases a) auto
  have nonzero: "parse_addr t = Some a \<Longrightarrow> a \<noteq> Addr_zero" for t a
    by (auto simp: parse_addr_def parse_ipv6_def Let_def split: option.splits if_splits)
  assume "parse_prefix s = Some p"
  then show ?thesis
    using nonzero
    by (auto simp: parse_prefix_def prefix_from_def bits split: option.splits if_splits)
qed

lemma parse_ipv4_cidr_shape:
  assumes "parse_ipv4_cidr v = Inr p"
  shows "\<exists>w n. n \<le> 32 \<and> p = Prefix (Addr4 (mask_word n w)) (Some n)"
proof (cases "parse_addr v")
  case (Some a)
  then obtain w where "a = Addr4 w" "p = prefix_from a 32"
    using assms by (cases a) (auto simp: parse_ipv4_cidr_def split: if_splits)
  then show ?thesis
    by (intro exI [of _ w] exI [of _ 32]) (simp add: prefix_from_def)
next
  case None
  then obtain q where q: "parse_prefix v = Some q" "addr_is4 (prefix_addr q)" "p = prefix_masked q"
    using assms by (auto simp: parse_ipv4_cidr_def split: option.splits if_splits)
  then obtain n where "prefix_bits q = Some n" "n \<le> addr_bit_len (prefix_addr q)"
    using parse_prefix_valid by blast
  with q show ?thesis
    by (cases q; cases "prefix_addr q") auto
qed

lemma parse_canonical_cidr [simp]:
  "n \<le> 32 \<Longrightarrow> parse_ipv4_cidr (prefix_string (Prefix (Addr4 (mask_word n w)) (Some n))) =
     Inr (Prefix (Addr4 (mask_word n w)) (Some n))"
  using parse_prefix_string [of n "mask_word n w"]
  by (simp add: parse_ipv4_cidr_def del: parse_prefix_string)

lemma parse_cidr_text [simp]:
  "n \<le> 32 \<Longrightarrow> parse_ipv4_cidr (ipv4_string w @ CHR ''/'' # dec n) =
     Inr (Prefix (Addr4 (mask_word n w)) (Some n))"
  using parse_prefix_string [of n w]
  by (simp add: parse_ipv4_cidr_def del: parse_prefix_string)

definition cidr_text :: "string \<Rightarrow> string" where
  "cidr_text v = (case parse_ipv4_cidr v of Inl _ \<Rightarrow> v | Inr p \<Rightarrow> prefix_string p)"

lemma cidr_text_idem [simp]: "cidr_text (cidr_text v) = cidr_text v"
proof (cases "parse_ipv4_cidr v")
  case (Inr p)
  then obtain w n where "n \<le> 32" "p = Prefix (Addr4 (mask_word n w)) (Some n)"
    using parse_ipv4_cidr_shape by blast
  with Inr show ?thesis by (simp add: cidr_text_def del: prefix_string.simps)
qed (simp add: cidr_text_def)

lemma normalize_cidrs_text: "normalize_cidrs vs = sort_compact (map cidr_text vs)"
  by (simp add: normalize_cidrs_def cidr_text_def [abs_def])

lemma normalize_cidrs_idem [simp]: "normalize_cidrs (normalize_cidrs vs) = normalize_cidrs vs"
proof -
  have "map cidr_text (sort_compact (map cidr_text vs)) = sort_compact (map cidr_text vs)"
    by (rule map_idI) auto
  then show ?thesis by (simp add: normalize_cidrs_text)
qed

lemma normalize_ports_idem [simp]: "normalize_port_slice (normalize_port_slice ps) = normalize_port_slice ps"
  by (simp add: normalize_port_slice_def split: option.split)

lemma or_default_idem [simp]: "or_default (or_default x d) d = or_default x d"
  by (simp add: or_default_def)

lemma or_default_text_idem [simp]: "or_default_text (or_default_text x d) d = or_default_text x d"
  by (simp add: or_default_text_def)

lemma normalize_port_slice_None [simp]:
  "normalize_port_slice ps = None \<longleftrightarrow> ps = None \<or> ps = Some []"
  by (auto simp: normalize_port_slice_def split: option.split)

text \<open>
  Normalizing a plan twice is the same as normalizing it once, provided that no bypass port
  list is explicitly empty. \<open>Apply\<close> and \<open>Check\<close> normalize a plan before they call \<open>Validate\<close> and
  \<open>Render\<close>, which normalize it again, so the digest they compare depends on this.
\<close>

theorem normalized_plan_idempotent:
  assumes "BypassTCPPorts p \<noteq> Some []" and "BypassUDPPorts p \<noteq> Some []"
  shows "normalized_plan (normalized_plan p) = normalized_plan p"
proof -
  have lists: "canonical_lists (canonical_lists q) = canonical_lists q" for q
    by (rule gateway_plan.equality) (simp_all add: canonical_lists_def)
  have filled: "fill_defaults (normalized_plan p) = normalized_plan p"
    by (rule gateway_plan.equality)
      (simp_all add: normalized_plan_def canonical_lists_def fill_defaults_def Let_def
        default_gateway_plan_def default_ports_def assms, auto)
  then show ?thesis
    by (simp add: normalized_plan_def lists)
qed

lemma normalized_plan_idempotent_witness:
  "normalized_plan (normalized_plan (default_gateway_plan ''mixed'')) =
     normalized_plan (default_gateway_plan ''mixed'')"
  by (rule normalized_plan_idempotent) (simp_all add: default_gateway_plan_def default_ports_def)

lemma normalized_ports [simp]:
  "BypassTCPPorts (normalized_plan p) = normalize_port_slice
     (if BypassTCPPorts p = None then Some default_ports else BypassTCPPorts p)"
  "BypassUDPPorts (normalized_plan p) = normalize_port_slice
     (if BypassUDPPorts p = None then Some default_ports else BypassUDPPorts p)"
  by (simp_all add: normalized_plan_def canonical_lists_def fill_defaults_def Let_def
      default_gateway_plan_def)

text \<open>
  An explicit empty bypass port list does not survive: one normalization honours it, the
  second one restores the default ports, so a plan with no bypassed ports is rendered by
  \<open>Apply\<close> with the default ones.
\<close>

theorem explicit_empty_ports_are_lost:
  assumes "BypassTCPPorts p = Some []"
  shows "ports_of (BypassTCPPorts (normalized_plan p)) = [] \<and>
    ports_of (BypassTCPPorts (normalized_plan (normalized_plan p))) = default_ports"
proof -
  have "sort_compact default_ports = default_ports"
    by (simp add: default_ports_def sort_compact_def)
  then show ?thesis
    using assms by (auto simp: normalize_port_slice_def ports_of_def default_ports_def)
qed

definition no_bypass_plan :: gateway_plan where
  "no_bypass_plan = (default_gateway_plan ''tproxy'')\<lparr>BypassTCPPorts := Some []\<rparr>"

lemma explicit_empty_ports_are_lost_witness:
  "ports_of (BypassTCPPorts (normalized_plan no_bypass_plan)) = [] \<and>
   ports_of (BypassTCPPorts (normalized_plan (normalized_plan no_bypass_plan))) = default_ports"
  using explicit_empty_ports_are_lost [of no_bypass_plan] by (simp add: no_bypass_plan_def)

section \<open>Validated plans\<close>

lemma check_None [simp]: "check b msg = None \<longleftrightarrow> \<not> b"
  by (simp add: check_def)

definition safe_char :: "char \<Rightarrow> bool" where
  "safe_char c \<longleftrightarrow> is_alnum c \<or> c \<in> set ''_.:/@-''"

definition safe_text :: "string \<Rightarrow> bool" where
  "safe_text s \<longleftrightarrow> s \<noteq> [] \<and> list_all safe_char s"

lemma safe_names:
  "nft_identifier s \<Longrightarrow> safe_text s" "interface_name s \<Longrightarrow> safe_text s" "owner_name s \<Longrightarrow> safe_text s"
  by (auto simp: nft_identifier_def interface_name_def owner_name_def safe_text_def safe_char_def
      list_all_iff)

lemma safe_cidr:
  assumes "canonical_cidr v"
  shows "safe_text v"
proof -
  have digit: "safe_char c" if "c \<in> set (dec k)" for c k
    using dec_digits [OF that] by (auto simp: safe_char_def is_alnum_def is_digit_def Let_def)
  obtain w n where v: "v = ipv4_string w @ ''/'' @ dec n"
    using assms by (auto simp: canonical_cidr_def)
  obtain a b c d where o: "octets w = [a, b, c, d]"
    by (simp add: octets_def Let_def)
  show ?thesis
    by (auto simp: v ipv4_string_def o safe_text_def list_all_iff safe_char_def [of "CHR ''.''"]
        safe_char_def [of "CHR ''/''"] intro: digit)
qed

lemma normalized_cidr:
  assumes "v \<in> set (normalize_cidrs vs)" and "cidr_error v = None"
  shows "canonical_cidr v"
proof -
  have "v = cidr_text v"
    using assms(1) by (auto simp: normalize_cidrs_text)
  then show ?thesis
    using assms(2) parse_ipv4_cidr_shape [of v]
    by (fastforce simp: cidr_error_def cidr_text_def canonical_cidr_def split: sum.splits)
qed

definition plan_cidrs :: "gateway_plan \<Rightarrow> string list" where
  "plan_cidrs p = CaptureCIDRs p @ BypassCIDRs p @ SourceBypassCIDRs p @ ProxyServerCIDRs p"

definition plan_names :: "gateway_plan \<Rightarrow> string list" where
  "plan_names p = [Table p, Owner p, PlanTUNDevice p] @ IncludeInterfaces p @ ExcludeInterfaces p"

lemma normalized_cidrs:
  "v \<in> set (plan_cidrs (normalized_plan p)) \<Longrightarrow> \<exists>vs. v \<in> set (normalize_cidrs vs)"
  by (auto simp: plan_cidrs_def normalized_plan_def canonical_lists_def)

text \<open>
  C18. What \<open>Validate\<close> guarantees to the renderer and to policy routing: every name and address
  a plan places into a ruleset is non-empty and made of letters, digits and the characters
  \<^verbatim>\<open>_ . : / @ -\<close> only, every address is a canonical masked IPv4 CIDR, and the three marks, the two
  tables and the two priorities are pairwise different, the identifiers positive.
\<close>

theorem validated_plan_is_safe:
  assumes "gateway_validate p = None" and "q = normalized_plan p"
  shows "(\<forall>s \<in> set (plan_names q) \<union> set (plan_cidrs q). safe_text s) \<and>
    (\<forall>v \<in> set (plan_cidrs q). canonical_cidr v) \<and>
    distinct [TProxyMark q, TUNMark q, PlanLoopMark q] \<and>
    TProxyTable q \<noteq> TUNTable q \<and> TProxyPriority q \<noteq> TUNPriority q \<and>
    1 \<le> TProxyTable q \<and> 1 \<le> TUNTable q \<and> 1 \<le> TProxyPriority q \<and> 1 \<le> TUNPriority q"
proof -
  have ok: "\<forall>c \<in> set (plan_checks q). c = None"
    using assms by (simp add: gateway_validate_def first_error_None)
  then have names: "nft_identifier (Table q)" "owner_name (Owner q)"
      "interface_name (PlanTUNDevice q)"
      "\<forall>v \<in> set (IncludeInterfaces q) \<union> set (ExcludeInterfaces q). interface_name v"
    and cidrs: "\<forall>v \<in> set (plan_cidrs q). cidr_error v = None"
    by (auto simp: plan_checks_def first_error_None plan_cidrs_def)
  have canonical: "\<forall>v \<in> set (plan_cidrs q). canonical_cidr v"
    using cidrs normalized_cidr normalized_cidrs [of _ p] assms(2) by blast
  moreover have "\<forall>s \<in> set (plan_names q) \<union> set (plan_cidrs q). safe_text s"
    using names canonical by (auto simp: plan_names_def intro: safe_names safe_cidr)
  moreover have "distinct [TProxyMark q, TUNMark q, PlanLoopMark q]"
    "TProxyTable q \<noteq> TUNTable q \<and> TProxyPriority q \<noteq> TUNPriority q"
    "1 \<le> TProxyTable q \<and> 1 \<le> TUNTable q \<and> 1 \<le> TProxyPriority q \<and> 1 \<le> TUNPriority q"
    using ok by (auto simp: plan_checks_def)
  ultimately show ?thesis by blast
qed

definition fake_ip_plan :: gateway_plan where
  "fake_ip_plan = (default_gateway_plan ''mixed'')\<lparr>CaptureCIDRs := [''198.18.0.0/15''],
     BypassCIDRsConfigured := True, BypassCIDRs := [], BypassTCPPorts := Some [22],
     BypassUDPPorts := Some [53], ExcludeInterfaces := [''eth1'']\<rparr>"

lemma fake_ip_range:
  "parse_ipv4_cidr ''198.18.0.0/15'' = Inr (Prefix (Addr4 0xC6120000) (Some 15))"
  by (simp add: parse_ipv4_cidr_def parse_addr_def parse_prefix_def cut_last_def parse_ipv4_def
      parse_octet_def undec_def digit_value_def is_digit_def prefix_from_def mask_word_def)

lemmas plan_eval = gateway_validate_def plan_checks_def fake_ip_plan_def normalized_plan_def
  fill_defaults_def canonical_lists_def Let_def default_gateway_plan_def or_default_def
  or_default_text_def normalize_port_slice_def sort_compact_def normalize_cidrs_def ports_of_def
  nft_identifier_def interface_name_def owner_name_def is_alnum_def is_digit_def fake_ip_range
  cidr_error_def check_def

lemma fake_ip_plan_validates: "gateway_validate fake_ip_plan = None"
  by (simp add: plan_eval)

lemma validated_plan_is_safe_witness:
  "gateway_validate fake_ip_plan = None \<and>
   list_all canonical_cidr (plan_cidrs (normalized_plan fake_ip_plan))"
  using fake_ip_plan_validates validated_plan_is_safe [OF fake_ip_plan_validates refl]
  by (simp add: list_all_iff)

end
