(* ===== verification/Policy_Routes.thy ===== *)
theory Policy_Routes
  imports Gateway_Plan
begin

text \<open>
  The policy routing of \<^verbatim>\<open>internal/platform/openwrt/policy.go\<close> and the command runner of
  \<^verbatim>\<open>runner.go\<close>: what the listings of the ip tool are read as, which rules and routes count as
  owned, and the programs that reconcile, remove and check them. The runner is a program over
  an arbitrary world.
\<close>

section \<open>Commands\<close>

record command =
  CmdName :: string
  CmdArgs :: "string list"
  CmdStdin :: string

record cmd_result =
  Stdout :: string
  Stderr :: string
  ExitCode :: int

type_synonym 'w runner = "command \<Rightarrow> ('w, cmd_result fallible) state"

definition ip_command :: "string list \<Rightarrow> command" where
  "ip_command args = \<lparr>CmdName = ''ip'', CmdArgs = args, CmdStdin = []\<rparr>"

definition int_text :: "int \<Rightarrow> string" where
  "int_text i = (if i < 0 then CHR ''-'' # dec (nat (- i)) else dec (nat i))"

definition exit_error :: "command \<Rightarrow> cmd_result \<Rightarrow> gerror option" where
  "exit_error c r = (if ExitCode r = 0 then None
     else Some (Err (''openwrt: '' @ CmdName c @ '' exited with '' @ int_text (ExitCode r) @ '': '' @
       trim_space (Stderr r))))"

definition run_ok :: "'w runner \<Rightarrow> command \<Rightarrow> ('w, cmd_result fallible) state" where
  "run_ok run c = do {
     answer \<leftarrow> run c;
     State_Monad.return (case answer of
         Inl e \<Rightarrow> Inl e
       | Inr r \<Rightarrow> (case exit_error c r of Some e \<Rightarrow> Inl e | None \<Rightarrow> Inr r)) }"

definition run_unit :: "'w runner \<Rightarrow> command \<Rightarrow> ('w, gerror option) state" where
  "run_unit run c = do {
     answer \<leftarrow> run_ok run c;
     State_Monad.return (case answer of Inl e \<Rightarrow> Some e | Inr _ \<Rightarrow> None) }"

section \<open>Numbers\<close>

text \<open>
  \<^verbatim>\<open>strconv.Atoi\<close> of a digit string at the 64-bit width of int: out of range it is an error and
  the value is the largest int.
\<close>

definition max_int :: int where "max_int = 2 ^ 63 - 1"

definition atoi :: "string \<Rightarrow> int \<times> bool" where
  "atoi s = (if int (undec s) > max_int then (max_int, False) else (int (undec s), True))"

definition digits_value :: "nat \<Rightarrow> string \<Rightarrow> nat option" where
  "digits_value b s =
     (if list_all (\<lambda>c. case hex_value c of None \<Rightarrow> False | Some v \<Rightarrow> v < b) s
      then Some (foldl (\<lambda>n c. b * n + the (hex_value c)) 0 s) else None)"

text \<open>
  \<^verbatim>\<open>strconv.ParseUint(s, 0, 32)\<close> of a text without underscores, which the mark pattern excludes:
  the prefix selects the base.
\<close>

definition parse_uint32 :: "string \<Rightarrow> nat option" where
  "parse_uint32 s =
     (let value =
        (if s = [] then None
         else if hd s \<noteq> CHR ''0'' then
           (if list_all is_digit s then Some (undec s) else None)
         else if length s \<ge> 3 \<and> s ! 1 \<in> set ''bB'' then digits_value 2 (drop 2 s)
         else if length s \<ge> 3 \<and> s ! 1 \<in> set ''oO'' then digits_value 8 (drop 2 s)
         else if length s \<ge> 3 \<and> s ! 1 \<in> set ''xX'' then digits_value 16 (drop 2 s)
         else digits_value 8 (tl s))
      in case value of None \<Rightarrow> None | Some n \<Rightarrow> if n < 2 ^ 32 then Some n else None)"

section \<open>The patterns\<close>

text \<open>
  The five regular expressions. In each of them a repetition is followed by something outside its
  class, so the longest run is the only one that can match; \<open>search\<close> finds the leftmost match of
  a body that starts at the beginning of the line or after a white space.
\<close>

definition re_space :: "char \<Rightarrow> bool" where
  "re_space c \<longleftrightarrow> (of_char c :: nat) \<in> {9, 10, 12, 13, 32}"

definition at_boundary :: "string \<Rightarrow> bool" where
  "at_boundary s \<longleftrightarrow> s = [] \<or> re_space (hd s)"

fun search_later :: "(string \<Rightarrow> 'a option) \<Rightarrow> string \<Rightarrow> 'a option" where
  "search_later body [] = None"
| "search_later body (c # s) =
     (if re_space c then
        (case body s of Some r \<Rightarrow> Some r | None \<Rightarrow> search_later body s)
      else search_later body s)"

definition search :: "(string \<Rightarrow> 'a option) \<Rightarrow> string \<Rightarrow> 'a option" where
  "search body s = (case body s of Some r \<Rightarrow> Some r | None \<Rightarrow> search_later body s)"

text \<open>A keyword and at least one white space; the result is the text after them.\<close>

definition after_keyword :: "string \<Rightarrow> string \<Rightarrow> string option" where
  "after_keyword k s =
     (if prefix k s \<and> drop (length k) s \<noteq> [] \<and> re_space (hd (drop (length k) s))
      then Some (dropWhile re_space (drop (length k) s)) else None)"

fun after_any :: "string list \<Rightarrow> string \<Rightarrow> string option" where
  "after_any [] s = None"
| "after_any (k # ks) s = (case after_keyword k s of Some r \<Rightarrow> Some r | None \<Rightarrow> after_any ks s)"

definition leading_number :: "string \<Rightarrow> string option" where
  "leading_number s = (let d = takeWhile is_digit s in
     if d \<noteq> [] \<and> at_boundary (dropWhile is_digit s) then Some d else None)"

definition number_after :: "string list \<Rightarrow> string \<Rightarrow> string option" where
  "number_after keys s = Option.bind (after_any keys s) leading_number"

definition policy_protocol :: nat where
  "policy_protocol = 196"

definition rule_priority :: "string \<Rightarrow> string option" where
  "rule_priority s = (let d = takeWhile is_digit s; rest = dropWhile is_digit s in
     if d \<noteq> [] \<and> rest \<noteq> [] \<and> hd rest = CHR '':'' \<and> at_boundary (tl rest) then Some d else None)"

definition rule_table :: "string \<Rightarrow> string option" where
  "rule_table = search (number_after [''lookup'', ''table''])"

definition route_table :: "string \<Rightarrow> string option" where
  "route_table = search (number_after [''table''])"

definition has_protocol :: "string \<Rightarrow> bool" where
  "has_protocol line \<longleftrightarrow> search (\<lambda>s. case number_after [''proto'', ''protocol''] s of
       Some d \<Rightarrow> if d = dec policy_protocol then Some () else None
     | None \<Rightarrow> None) line \<noteq> None"

text \<open>The mark and its optional mask with the slash.\<close>

definition mark_body :: "string \<Rightarrow> (string \<times> string) option" where
  "mark_body s = (case after_keyword ''fwmark'' s of
       None \<Rightarrow> None
     | Some v \<Rightarrow>
         let h = takeWhile is_hex (drop 2 v); hex_mark = prefix ''0x'' v \<and> h \<noteq> [];
             m = (if hex_mark then ''0x'' @ h else takeWhile is_digit v);
             rest = drop (length m) v;
             k = (if rest \<noteq> [] \<and> hd rest = CHR ''/''
                  then takeWhile (\<lambda>c. is_hex c \<or> c = CHR ''x'') (tl rest) else []);
             rest' = (if k = [] then rest else drop (length k + 1) rest)
         in if m \<noteq> [] \<and> at_boundary rest' then Some (m, if k = [] then [] else CHR ''/'' # k)
            else None)"

definition rule_mark :: "string \<Rightarrow> (string \<times> string) option" where
  "rule_mark = search mark_body"

section \<open>Observed rules and routes\<close>

record policy_route =
  RouteMark :: "32 word"
  RouteTable :: int
  RoutePriority :: int
  Route :: "string list"
  Desired :: bool

definition no_route :: policy_route where
  "no_route = \<lparr>RouteMark = 0, RouteTable = 0, RoutePriority = 0, Route = [], Desired = False\<rparr>"

record observed_rule =
  RulePriority :: int
  RuleMark :: "32 word"
  MarkSpec :: string
  RuleTable :: int
  Owned :: bool
  Exact :: bool

record table_state =
  OwnedCount :: nat
  ExactCount :: nat
  Foreign :: bool
  UnknownProtocol :: bool

definition no_state :: table_state where
  "no_state = \<lparr>OwnedCount = 0, ExactCount = 0, Foreign = False, UnknownProtocol = False\<rparr>"

type_synonym table_states = "int \<rightharpoonup> table_state"

definition state_of :: "table_states \<Rightarrow> int \<Rightarrow> table_state" where
  "state_of ts t = (case ts t of None \<Rightarrow> no_state | Some s \<Rightarrow> s)"

definition policy_routes :: "gateway_plan \<Rightarrow> policy_route list" where
  "policy_routes p =
     [\<lparr>RouteMark = TProxyMark p, RouteTable = TProxyTable p, RoutePriority = TProxyPriority p,
       Route = [''local'', ''default'', ''dev'', ''lo''],
       Desired = uses_tproxy_tcp (Mode p) \<or> uses_tproxy_udp (Mode p)\<rparr>,
      \<lparr>RouteMark = TUNMark p, RouteTable = TUNTable p, RoutePriority = TUNPriority p,
       Route = [''default'', ''dev'', PlanTUNDevice p],
       Desired = uses_tun (Mode p)\<rparr>]"

definition mark_mask_is_exact :: "string \<Rightarrow> bool" where
  "mark_mask_is_exact msk \<longleftrightarrow> msk = [] \<or> parse_uint32 (tl msk) = Some (2 ^ 32 - 1)"

text \<open>The key and value pairs after the priority; \<open>seen\<close> is the set of keys met so far.\<close>

fun shape_pairs :: "string list \<Rightarrow> string list \<Rightarrow> string list option" where
  "shape_pairs seen [] = Some seen"
| "shape_pairs seen [k] = None"
| "shape_pairs seen (k # v # rest) =
     (if k \<in> set seen then None
      else if (if k = ''from'' then v = ''all''
          else if k = ''fwmark'' then True
          else if k = ''lookup'' \<or> k = ''table''
            then ''lookup'' \<notin> set seen \<and> ''table'' \<notin> set seen
          else if k = ''proto'' \<or> k = ''protocol''
            then ''proto'' \<notin> set seen \<and> ''protocol'' \<notin> set seen \<and> v = dec policy_protocol
          else False)
      then shape_pairs (k # seen) rest else None)"

definition shape_is_exact :: "string \<Rightarrow> bool" where
  "shape_is_exact line = (case space_words (trim_space line) of
       [] \<Rightarrow> False
     | f # rest \<Rightarrow> suffix '':'' f \<and> (case shape_pairs [] rest of
           None \<Rightarrow> False
         | Some seen \<Rightarrow> ''from'' \<in> set seen \<and> ''fwmark'' \<in> set seen \<and>
             (''lookup'' \<in> set seen \<or> ''table'' \<in> set seen) \<and>
             (''proto'' \<in> set seen \<or> ''protocol'' \<in> set seen)))"

definition parse_policy_rule :: "string \<Rightarrow> observed_rule option" where
  "parse_policy_rule line = (case rule_priority (trim_space line) of
       None \<Rightarrow> None
     | Some digits \<Rightarrow>
         if \<not> snd (atoi digits) then None
         else
           let rule = \<lparr>RulePriority = fst (atoi digits), RuleMark = 0, MarkSpec = [],
                 RuleTable = (case rule_table line of None \<Rightarrow> 0 | Some t \<Rightarrow> fst (atoi t)),
                 Owned = has_protocol line, Exact = False\<rparr>
           in Some (case rule_mark line of
                None \<Rightarrow> rule
              | Some (m, msk) \<Rightarrow> (case parse_uint32 m of
                    None \<Rightarrow> rule
                  | Some n \<Rightarrow> rule\<lparr>RuleMark := of_nat n, MarkSpec := m @ msk,
                      Exact := mark_mask_is_exact msk \<and> shape_is_exact line\<rparr>)))"

definition rule_matches_route :: "observed_rule \<Rightarrow> policy_route \<Rightarrow> bool" where
  "rule_matches_route r p \<longleftrightarrow> Owned r \<and> Exact r \<and> RulePriority r = RoutePriority p \<and>
     RuleMark r = RouteMark p \<and> RuleTable r = RouteTable p"

definition managed_rule :: "observed_rule \<Rightarrow> policy_route list \<Rightarrow> bool" where
  "managed_rule r routes \<longleftrightarrow> (\<exists>p \<in> set routes. rule_matches_route r p)"

text \<open>The attributes after the wanted tokens; the flag says that the protocol was seen.\<close>

fun route_attributes :: "bool \<Rightarrow> string list \<Rightarrow> bool" where
  "route_attributes owned [] = owned"
| "route_attributes owned (k # rest) =
     (if k = ''linkdown'' then route_attributes owned rest
      else case rest of
        [] \<Rightarrow> False
      | v # rest' \<Rightarrow>
          if k = ''scope'' then
            v \<in> {''host'', ''254'', ''link'', ''253''} \<and> route_attributes owned rest'
          else if k = ''proto'' then v = dec policy_protocol \<and> route_attributes True rest'
          else False)"

definition is_managed_route_line :: "string \<Rightarrow> string list \<Rightarrow> bool" where
  "is_managed_route_line line wanted =
     (wanted \<noteq> [] \<and>
      (let fs = space_words line;
           fs = (if fs \<noteq> [] \<and> hd fs = ''1'' \<and> hd wanted \<noteq> ''local'' then tl fs else fs)
       in length fs \<ge> length wanted \<and>
          (\<forall>i \<in> set [0..<length wanted]. fs ! i = wanted ! i \<or>
             i = 0 \<and> wanted ! i = ''local'' \<and> fs ! i = ''2'') \<and>
          route_attributes False (drop (length wanted) fs)))"

text \<open>The lines of a listing that are not blank.\<close>

definition listing_lines :: "string \<Rightarrow> string list" where
  "listing_lines out = filter (\<lambda>l. trim_space l \<noteq> []) (split_on (CHR 0x0A) out)"

definition count_route :: "string list \<Rightarrow> table_state \<Rightarrow> string \<Rightarrow> table_state" where
  "count_route wanted s line =
     (if \<not> has_protocol line then s\<lparr>Foreign := True\<rparr>
      else if is_managed_route_line line wanted
      then s\<lparr>OwnedCount := OwnedCount s + 1, ExactCount := ExactCount s + 1\<rparr>
      else s\<lparr>OwnedCount := OwnedCount s + 1, Foreign := True, UnknownProtocol := True\<rparr>)"

definition table_state_of :: "string list \<Rightarrow> string \<Rightarrow> table_state" where
  "table_state_of wanted out = foldl (count_route wanted) no_state (listing_lines out)"

definition rules_of :: "string \<Rightarrow> observed_rule list" where
  "rules_of out = List.map_filter parse_policy_rule (listing_lines out)"

definition is_missing_table :: "cmd_result \<Rightarrow> bool" where
  "is_missing_table r \<longleftrightarrow> ExitCode r \<noteq> 0 \<and>
     (let message = lower_ascii (Stderr r @ CHR 0x0A # Stdout r) in
      contains message ''fib table does not exist'' \<or>
      contains message ''routing table does not exist'')"

text \<open>Each table of an owned route at most once, ascending; no table named means main.\<close>

definition owned_tables_of :: "policy_route list \<Rightarrow> string \<Rightarrow> int list" where
  "owned_tables_of routes out = sort (remdups (filter
     (\<lambda>t. t > 0 \<and> (\<exists>p \<in> set routes. RouteTable p = t))
     (map (\<lambda>line. case route_table line of None \<Rightarrow> 254 | Some d \<Rightarrow> fst (atoi d))
        (filter has_protocol (listing_lines out)))))"

section \<open>Commands of the ip tool\<close>

definition show_rules_command :: command where
  "show_rules_command = ip_command [''-N'', ''-4'', ''rule'', ''show'']"

definition show_table_command :: "int \<Rightarrow> command" where
  "show_table_command t = ip_command [''-N'', ''-4'', ''route'', ''show'', ''table'', int_text t]"

definition show_owned_command :: command where
  "show_owned_command = ip_command
     [''-N'', ''-4'', ''route'', ''show'', ''table'', ''all'', ''proto'', dec policy_protocol]"

definition add_rule_command :: "policy_route \<Rightarrow> command" where
  "add_rule_command p = ip_command [''-4'', ''rule'', ''add'', ''pref'', int_text (RoutePriority p),
     ''protocol'', dec policy_protocol, ''fwmark'', ''0x'' @ hex (unat (RouteMark p)),
     ''lookup'', int_text (RouteTable p)]"

definition delete_rule_command :: "observed_rule \<Rightarrow> command" where
  "delete_rule_command r = ip_command ([''-4'', ''rule'', ''del'', ''pref'',
       int_text (RulePriority r), ''protocol'', dec policy_protocol] @
     (if MarkSpec r \<noteq> [] then [''fwmark'', MarkSpec r] else []) @
     (if RuleTable r > 0 then [''lookup'', int_text (RuleTable r)] else []))"

definition add_route_command :: "policy_route \<Rightarrow> command" where
  "add_route_command p = ip_command ([''-4'', ''route'', ''add''] @ Route p @
     [''table'', int_text (RouteTable p), ''proto'', dec policy_protocol])"

definition flush_command :: "int \<Rightarrow> command" where
  "flush_command t = ip_command [''-4'', ''route'', ''flush'', ''table'', int_text t,
     ''proto'', dec policy_protocol]"

section \<open>Inspection\<close>

definition inspect_rules :: "'w runner \<Rightarrow> ('w, observed_rule list fallible) state" where
  "inspect_rules run = do {
     answer \<leftarrow> run_ok run show_rules_command;
     State_Monad.return (map_sum id (rules_of \<circ> Stdout) answer) }"

definition inspect_table :: "'w runner \<Rightarrow> policy_route \<Rightarrow> ('w, table_state fallible) state" where
  "inspect_table run p = do {
     answer \<leftarrow> run (show_table_command (RouteTable p));
     State_Monad.return (case answer of
         Inl e \<Rightarrow> Inl e
       | Inr r \<Rightarrow>
           if ExitCode r \<noteq> 0 then
             if is_missing_table r then Inr no_state
             else Inl (Err (''openwrt: inspect route table '' @ int_text (RouteTable p) @ '': '' @
               trim_space (Stderr r)))
           else Inr (table_state_of (Route p) (Stdout r))) }"

definition inspect_owned_tables ::
  "'w runner \<Rightarrow> policy_route list \<Rightarrow> ('w, int list fallible) state" where
  "inspect_owned_tables run routes = do {
     answer \<leftarrow> run_ok run show_owned_command;
     State_Monad.return (map_sum id (owned_tables_of routes \<circ> Stdout) answer) }"

text \<open>The loop over the routes that stops at the first error.\<close>

fun inspect_tables ::
  "'w runner \<Rightarrow> policy_route list \<Rightarrow> table_states \<Rightarrow> ('w, table_states fallible) state" where
  "inspect_tables run [] ts = State_Monad.return (Inr ts)"
| "inspect_tables run (p # ps) ts = do {
     answer \<leftarrow> inspect_table run p;
     case answer of
       Inl e \<Rightarrow> State_Monad.return (Inl e)
     | Inr s \<Rightarrow> inspect_tables run ps (ts(RouteTable p \<mapsto> s)) }"

section \<open>Ownership\<close>

definition rule_matches_mark :: "observed_rule \<Rightarrow> 32 word \<Rightarrow> bool" where
  "rule_matches_mark r mark =
     (if MarkSpec r = [] then False
      else let tail = dropWhile (\<lambda>c. c \<noteq> CHR ''/'') (MarkSpec r) in
        case (if tail = [] then Some (2 ^ 32 - 1) else parse_uint32 (tl tail)) of
          None \<Rightarrow> False
        | Some m \<Rightarrow> unat mark AND m = unat (RuleMark r) AND m)"

definition foreign_rule_error ::
  "policy_route list \<Rightarrow> policy_route \<Rightarrow> observed_rule \<Rightarrow> gerror option" where
  "foreign_rule_error routes p r =
     (if managed_rule r routes then None
      else if RulePriority r < RoutePriority p \<and> rule_matches_mark r (RouteMark p)
      then Some (Err (''openwrt: refusing foreign rule at priority '' @ int_text (RulePriority r) @
        '' overlapping managed mark 0x'' @ hex (unat (RouteMark p))))
      else if RulePriority r = RoutePriority p
      then Some (Err (''openwrt: refusing foreign rule at reserved priority '' @
        int_text (RoutePriority p)))
      else if RuleTable r = RouteTable p
      then Some (Err (''openwrt: refusing foreign rule using reserved policy table '' @
        int_text (RouteTable p)))
      else None)"

definition preflight ::
  "observed_rule list \<Rightarrow> policy_route list \<Rightarrow> table_states \<Rightarrow> gerror option" where
  "preflight rules routes ts = first_error (\<lambda>p.
     if \<not> Desired p then None
     else if Foreign (state_of ts (RouteTable p))
     then Some (Err (''openwrt: refusing foreign route in reserved policy table '' @
       int_text (RouteTable p)))
     else first_error (foreign_rule_error routes p) rules) routes"

definition group_owned_rules ::
  "observed_rule list \<Rightarrow> policy_route list \<Rightarrow> observed_rule list list" where
  "group_owned_rules rules routes =
     (let owned = filter (\<lambda>r. managed_rule r routes) rules in
      map (\<lambda>q. filter (\<lambda>r. RulePriority r = q) owned) (sort (remdups (map RulePriority owned))))"

definition healthy_table :: "table_state \<Rightarrow> bool" where
  "healthy_table s \<longleftrightarrow> ExactCount s = 1 \<and> OwnedCount s = 1"

definition keep_group ::
  "policy_route list \<Rightarrow> table_states \<Rightarrow> observed_rule list \<Rightarrow> bool" where
  "keep_group routes ts g =
     (case find (\<lambda>p. Desired p \<and> RoutePriority p = RulePriority (hd g)) routes of
        None \<Rightarrow> False
      | Some p \<Rightarrow> healthy_table (state_of ts (RouteTable p)) \<and> length g = 1 \<and>
          rule_matches_route (hd g) p)"

section \<open>Reconciliation\<close>

text \<open>A loop that stops at the first error, and one that goes on and joins the errors.\<close>

fun each_until :: "('a \<Rightarrow> ('w, gerror option) state) \<Rightarrow> 'a list \<Rightarrow> ('w, gerror option) state" where
  "each_until f [] = State_Monad.return None"
| "each_until f (x # xs) = do {
     e \<leftarrow> f x;
     case e of Some err \<Rightarrow> State_Monad.return (Some err) | None \<Rightarrow> each_until f xs }"

fun each_joined ::
  "('a \<Rightarrow> ('w, gerror option) state) \<Rightarrow> 'a list \<Rightarrow> gerror option \<Rightarrow> ('w, gerror option) state" where
  "each_joined f [] acc = State_Monad.return acc"
| "each_joined f (x # xs) acc = do {
     e \<leftarrow> f x;
     each_joined f xs (if e = None then acc else errors_join [acc, e]) }"

definition flush_table :: "'w runner \<Rightarrow> int \<Rightarrow> ('w, gerror option) state" where
  "flush_table run t = do {
     answer \<leftarrow> run (flush_command t);
     State_Monad.return (case answer of
         Inl e \<Rightarrow> Some e
       | Inr r \<Rightarrow> if ExitCode r = 0 \<or> is_missing_table r then None
           else Some (Err (''openwrt: flush owned routes from table '' @ int_text t @ '': '' @
             trim_space (Stderr r)))) }"

definition install_route ::
  "'w runner \<Rightarrow> table_states \<Rightarrow> policy_route \<Rightarrow> ('w, gerror option) state" where
  "install_route run ts p =
     (let s = state_of ts (RouteTable p) in
      if \<not> Desired p \<or> healthy_table s then State_Monad.return None
      else do {
        flushed \<leftarrow> (if OwnedCount s > 0 then flush_table run (RouteTable p)
          else State_Monad.return None);
        case flushed of
          Some e \<Rightarrow> State_Monad.return (Some e)
        | None \<Rightarrow> run_unit run (add_route_command p) })"

definition flush_orphan ::
  "'w runner \<Rightarrow> policy_route list \<Rightarrow> table_states \<Rightarrow> int \<Rightarrow> ('w, gerror option) state" where
  "flush_orphan run routes ts t =
     (if (\<exists>p \<in> set routes. Desired p \<and> RouteTable p = t) \<or> UnknownProtocol (state_of ts t)
      then State_Monad.return None else flush_table run t)"

definition install_rule ::
  "'w runner \<Rightarrow> int list \<Rightarrow> policy_route \<Rightarrow> ('w, gerror option) state" where
  "install_rule run retained p =
     (if \<not> Desired p \<or> RoutePriority p \<in> set retained then State_Monad.return None
      else run_unit run (add_rule_command p))"

text \<open>The commands that change something, in their order, once the preflight has passed.\<close>

definition apply_policy ::
  "'w runner \<Rightarrow> policy_route list \<Rightarrow> observed_rule list \<Rightarrow> table_states \<Rightarrow> int list \<Rightarrow>
   ('w, gerror option) state" where
  "apply_policy run routes rules ts orphans =
     (let groups = group_owned_rules rules routes;
          retained = map (\<lambda>g. RulePriority (hd g)) (filter (keep_group routes ts) groups);
          stale = concat (filter (\<lambda>g. \<not> keep_group routes ts g) groups) in
      do {
        deleted \<leftarrow> each_joined (\<lambda>r. run_unit run (delete_rule_command r)) stale None;
        case deleted of Some e \<Rightarrow> State_Monad.return (Some e) | None \<Rightarrow> do {
          routed \<leftarrow> each_until (install_route run ts) routes;
          case routed of Some e \<Rightarrow> State_Monad.return (Some e) | None \<Rightarrow> do {
            flushed \<leftarrow> each_until (flush_orphan run routes ts) orphans;
            case flushed of Some e \<Rightarrow> State_Monad.return (Some e) | None \<Rightarrow>
              each_until (install_rule run retained) routes } } })"

definition reconcile_policy_routes ::
  "'w runner \<Rightarrow> gateway_plan \<Rightarrow> ('w, gerror option) state" where
  "reconcile_policy_routes run plan = do {
     listed \<leftarrow> inspect_rules run;
     case listed of Inl e \<Rightarrow> State_Monad.return (Some e) | Inr rules \<Rightarrow> do {
       let routes = policy_routes plan;
       inspected \<leftarrow> inspect_tables run routes Map.empty;
       (case inspected of Inl e \<Rightarrow> State_Monad.return (Some e) | Inr ts \<Rightarrow> do {
         owned \<leftarrow> inspect_owned_tables run routes;
         case owned of Inl e \<Rightarrow> State_Monad.return (Some e) | Inr orphans \<Rightarrow>
           (case preflight rules routes ts of
              Some e \<Rightarrow> State_Monad.return (Some e)
            | None \<Rightarrow> apply_policy run routes rules ts orphans) }) } }"

section \<open>Cleanup and check\<close>

text \<open>The cleanup inspects every table it can and joins the errors of the others.\<close>

fun inspect_all_tables ::
  "'w runner \<Rightarrow> policy_route list \<Rightarrow> table_states \<Rightarrow> gerror option \<Rightarrow>
   ('w, table_states \<times> gerror option) state" where
  "inspect_all_tables run [] ts errs = State_Monad.return (ts, errs)"
| "inspect_all_tables run (p # ps) ts errs = do {
     answer \<leftarrow> inspect_table run p;
     case answer of
       Inl e \<Rightarrow> inspect_all_tables run ps ts (errors_join [errs, Some e])
     | Inr s \<Rightarrow> inspect_all_tables run ps (ts(RouteTable p \<mapsto> s)) errs }"

definition cleanup_table ::
  "'w runner \<Rightarrow> table_states \<Rightarrow> policy_route \<Rightarrow> ('w, gerror option) state" where
  "cleanup_table run ts p = (case ts (RouteTable p) of
       None \<Rightarrow> State_Monad.return None
     | Some s \<Rightarrow>
         if OwnedCount s = 0 then State_Monad.return None
         else if UnknownProtocol s then State_Monad.return
           (Some (Err (''openwrt: refusing unknown protocol '' @ dec policy_protocol @
             '' route in policy table '' @ int_text (RouteTable p))))
         else flush_table run (RouteTable p))"

definition cleanup_policy_routes ::
  "'w runner \<Rightarrow> gateway_plan \<Rightarrow> ('w, gerror option) state" where
  "cleanup_policy_routes run plan = do {
     listed \<leftarrow> inspect_rules run;
     let routes = policy_routes plan;
     let rules_err = (case listed of Inl e \<Rightarrow> Some e | Inr _ \<Rightarrow> None);
     let rules = (case listed of Inl _ \<Rightarrow> [] | Inr rs \<Rightarrow> rs);
     (ts, table_errs) \<leftarrow> inspect_all_tables run routes Map.empty None;
     joined \<leftarrow> each_joined (\<lambda>r. run_unit run (delete_rule_command r))
       (filter (\<lambda>r. managed_rule r routes) rules) (errors_join [rules_err, table_errs]);
     each_joined (cleanup_table run ts) routes joined }"

definition policy_matches ::
  "observed_rule list \<Rightarrow> policy_route list \<Rightarrow> table_states \<Rightarrow> int list \<Rightarrow> bool" where
  "policy_matches rules routes ts owned_tables \<longleftrightarrow>
     preflight rules routes ts = None \<and>
     (\<forall>p \<in> set (filter Desired routes). healthy_table (state_of ts (RouteTable p)) \<and>
        length (filter (\<lambda>r. Owned r \<and> rule_matches_route r p) rules) = 1) \<and>
     length (filter (\<lambda>r. managed_rule r routes) rules) = length (filter Desired routes) \<and>
     (\<forall>t \<in> set owned_tables. \<exists>p \<in> set routes. Desired p \<and> RouteTable p = t)"

definition check_policy_routes ::
  "'w runner \<Rightarrow> gateway_plan \<Rightarrow> ('w, bool fallible) state" where
  "check_policy_routes run plan = do {
     listed \<leftarrow> inspect_rules run;
     case listed of Inl e \<Rightarrow> State_Monad.return (Inl e) | Inr rules \<Rightarrow> do {
       let routes = policy_routes plan;
       inspected \<leftarrow> inspect_tables run (filter Desired routes) Map.empty;
       (case inspected of Inl e \<Rightarrow> State_Monad.return (Inl e) | Inr ts \<Rightarrow> do {
         owned \<leftarrow> inspect_owned_tables run routes;
         State_Monad.return (map_sum id (policy_matches rules routes ts) owned) }) } }"

end
