(* ===== verification/Transcript.thy ===== *)
theory Transcript
  imports Prelude
begin

text \<open>
  Programs over an unknown environment: the environment answers requests, a transcript holds what
  was asked and answered, and a transcript is disciplined when every request is allowed by what
  came before it. The locale \<open>recorder\<close> is the contract of an environment that remembers its
  requests; under it a program is shown disciplined request by request.
\<close>

section \<open>Disciplined transcripts\<close>

type_synonym ('c, 'r) exchanges = "('c \<times> 'r) list"

definition disciplined :: "(('c, 'r) exchanges \<Rightarrow> 'c \<Rightarrow> bool) \<Rightarrow> ('c, 'r) exchanges \<Rightarrow> bool" where
  "disciplined P tr \<longleftrightarrow> (\<forall>xs c r ys. tr = xs @ (c, r) # ys \<longrightarrow> P xs c)"

lemma disciplined_Nil [simp]: "disciplined P []"
  by (simp add: disciplined_def)

lemma disciplined_snoc [simp]:
  "disciplined P (tr @ [(c, r)]) \<longleftrightarrow> disciplined P tr \<and> P tr c"
proof
  assume *: "disciplined P (tr @ [(c, r)])"
  have "P xs d" if "tr = xs @ (d, s) # ys" for xs d s ys
    using * that unfolding disciplined_def by (metis append.assoc append_Cons)
  moreover have "P tr c"
    using * unfolding disciplined_def by blast
  ultimately show "disciplined P tr \<and> P tr c"
    unfolding disciplined_def by blast
next
  assume *: "disciplined P tr \<and> P tr c"
  show "disciplined P (tr @ [(c, r)])"
    unfolding disciplined_def
  proof (intro allI impI)
    fix xs d s ys
    assume "tr @ [(c, r)] = xs @ (d, s) # ys"
    then show "P xs d"
      using * unfolding disciplined_def by (cases ys rule: rev_cases) auto
  qed
qed

section \<open>Environments that remember\<close>

locale recorder =
  fixes run :: "'c \<Rightarrow> ('w, 'r) state" and asked :: "'w \<Rightarrow> ('c, 'r) exchanges"
  assumes run_law: "wp (run c) (\<lambda>r w'. asked w' = asked w @ [(c, r)]) w"
begin

text \<open>\<open>since start w\<close> is what the runner was asked after \<open>start\<close>.\<close>

definition since :: "'w \<Rightarrow> 'w \<Rightarrow> ('c, 'r) exchanges" where
  "since start w = drop (length (asked start)) (asked w)"

definition told :: "(('c, 'r) exchanges \<Rightarrow> 'c \<Rightarrow> bool) \<Rightarrow> 'w \<Rightarrow> 'w \<Rightarrow> bool" where
  "told P start w \<longleftrightarrow> asked w = asked start @ since start w \<and> disciplined P (since start w)"

lemma since_start [simp]: "since w w = []"
  by (simp add: since_def)

lemma told_start [simp]: "told P w w"
  by (simp add: told_def)

lemma run_wp:
  assumes "told P w0 w" and "P (since w0 w) c"
    and "\<And>r w'. told P w0 w' \<Longrightarrow> since w0 w' = since w0 w @ [(c, r)] \<Longrightarrow> Q r w'"
  shows "wp (run c) Q w"
proof (rule wp_mono [OF run_law])
  fix r w'
  assume *: "asked w' = asked w @ [(c, r)]"
  have whole: "asked w = asked w0 @ since w0 w"
    using assms(1) by (simp add: told_def)
  moreover from this have "length (asked w0) \<le> length (asked w)"
    by (metis length_append le_add1)
  ultimately have "since w0 w' = since w0 w @ [(c, r)]"
    using * by (simp add: since_def)
  then show "Q r w'"
    using * whole assms(1,2) by (intro assms(3)) (simp_all add: told_def)
qed

text \<open>The program has made exactly the exchanges \<open>h\<close>, all of them allowed.\<close>

definition reached :: "(('c, 'r) exchanges \<Rightarrow> 'c \<Rightarrow> bool) \<Rightarrow> 'w \<Rightarrow> ('c, 'r) exchanges \<Rightarrow> 'w \<Rightarrow> bool" where
  "reached P start h w \<longleftrightarrow> told P start w \<and> since start w = h"

lemma reached_start: "reached P w [] w"
  by (simp add: reached_def)

lemma reached_wp:
  assumes "reached P w0 h w" and "P h c"
    and "\<And>r w'. reached P w0 (h @ [(c, r)]) w' \<Longrightarrow> Q r w'"
  shows "wp (run c) Q w"
  by (rule run_wp [of P w0]) (use assms in \<open>auto simp: reached_def\<close>)

end

text \<open>An arbitrary environment, which answers from everything it was asked before.\<close>

definition traced :: "(('c, 'r) exchanges \<Rightarrow> 'c \<Rightarrow> 'r) \<Rightarrow> 'c \<Rightarrow> (('c, 'r) exchanges, 'r) state" where
  "traced env c = State (\<lambda>tr. (env tr c, tr @ [(c, env tr c)]))"

interpretation traced: recorder "traced env" "\<lambda>tr. tr" for env
  by unfold_locales (simp add: traced_def wp_def)

end
