(* ===== verification/Policy_Safety.thy ===== *)
theory Policy_Safety
  imports Policy_Routes Transcript
begin

text \<open>
  Ownership in policy routing. A runner answers every command once and remembers what it was
  asked; under this contract the commands of a reconciliation or a cleanup are shown to follow
  from what the same run has observed: nothing foreign is deleted or flushed, nothing is changed
  while something foreign occupies a reserved place, and a rule is added only when its table is
  known to hold its route.
\<close>

type_synonym transcript = "(command, cmd_result fallible) exchanges"

section \<open>What a transcript shows\<close>

definition listed_rules :: "transcript \<Rightarrow> observed_rule list \<Rightarrow> bool" where
  "listed_rules tr rules \<longleftrightarrow> (\<exists>r. (show_rules_command, Inr r) \<in> set tr \<and> ExitCode r = 0 \<and>
     rules = rules_of (Stdout r))"

definition table_answer :: "string list \<Rightarrow> cmd_result \<Rightarrow> table_state option" where
  "table_answer wanted r =
     (if ExitCode r = 0 then Some (table_state_of wanted (Stdout r))
      else if is_missing_table r then Some no_state else None)"

definition table_shown :: "policy_route list \<Rightarrow> transcript \<Rightarrow> int \<Rightarrow> table_state \<Rightarrow> bool" where
  "table_shown routes tr t s \<longleftrightarrow>
     (\<exists>p \<in> set routes. RouteTable p = t \<and>
       (\<exists>r. (show_table_command t, Inr r) \<in> set tr \<and> table_answer (Route p) r = Some s))"

lemma table_shownI:
  "p \<in> set routes \<Longrightarrow> (show_table_command (RouteTable p), Inr r) \<in> set tr \<Longrightarrow>
   table_answer (Route p) r = Some s \<Longrightarrow> table_shown routes tr (RouteTable p) s"
  by (auto simp: table_shown_def)

text \<open>Nothing foreign occupies a reserved place, as far as the transcript shows.\<close>

definition unoccupied :: "policy_route list \<Rightarrow> transcript \<Rightarrow> bool" where
  "unoccupied routes tr \<longleftrightarrow> (\<exists>rules ts. listed_rules tr rules \<and>
     (\<forall>p \<in> set routes. table_shown routes tr (RouteTable p) (state_of ts (RouteTable p))) \<and>
     preflight rules routes ts = None)"

definition route_ready :: "policy_route list \<Rightarrow> transcript \<Rightarrow> policy_route \<Rightarrow> bool" where
  "route_ready routes tr p \<longleftrightarrow>
     (\<exists>s. table_shown routes tr (RouteTable p) s \<and> healthy_table s) \<or>
     (\<exists>r. (add_route_command p, Inr r) \<in> set tr \<and> ExitCode r = 0)"

definition rule_ready :: "policy_route list \<Rightarrow> transcript \<Rightarrow> policy_route \<Rightarrow> bool" where
  "rule_ready routes tr p \<longleftrightarrow>
     (\<exists>rules. listed_rules tr rules \<and>
       (\<exists>r \<in> set rules. managed_rule r routes \<and> RulePriority r = RoutePriority p)) \<or>
     (\<exists>r. (add_rule_command p, Inr r) \<in> set tr \<and> ExitCode r = 0)"

definition installed :: "policy_route list \<Rightarrow> transcript \<Rightarrow> bool" where
  "installed routes tr \<longleftrightarrow>
     (\<forall>p \<in> set routes. Desired p \<longrightarrow> route_ready routes tr p \<and> rule_ready routes tr p)"

definition is_query :: "policy_route list \<Rightarrow> command \<Rightarrow> bool" where
  "is_query routes c \<longleftrightarrow> c = show_rules_command \<or> c = show_owned_command \<or>
     (\<exists>p \<in> set routes. c = show_table_command (RouteTable p))"

definition owned_deletion :: "policy_route list \<Rightarrow> transcript \<Rightarrow> command \<Rightarrow> bool" where
  "owned_deletion routes tr c \<longleftrightarrow> (\<exists>rules. listed_rules tr rules \<and>
     (\<exists>r \<in> set rules. managed_rule r routes \<and> c = delete_rule_command r))"

definition owned_flush :: "policy_route list \<Rightarrow> transcript \<Rightarrow> command \<Rightarrow> bool" where
  "owned_flush routes tr c \<longleftrightarrow> (\<exists>t s. table_shown routes tr t s \<and> \<not> UnknownProtocol s \<and>
     c = flush_command t)"

definition reconcile_may :: "policy_route list \<Rightarrow> transcript \<Rightarrow> command \<Rightarrow> bool" where
  "reconcile_may routes tr c \<longleftrightarrow> is_query routes c \<or> unoccupied routes tr \<and>
     (owned_deletion routes tr c \<or> owned_flush routes tr c \<or>
      (\<exists>p \<in> set routes. Desired p \<and>
         (c = add_route_command p \<or> c = add_rule_command p \<and> route_ready routes tr p)))"

definition cleanup_may :: "policy_route list \<Rightarrow> transcript \<Rightarrow> command \<Rightarrow> bool" where
  "cleanup_may routes tr c \<longleftrightarrow>
     is_query routes c \<or> owned_deletion routes tr c \<or> owned_flush routes tr c"

text \<open>What was shown stays shown.\<close>

lemma shown_mono:
  assumes "set tr \<subseteq> set tr'"
  shows "listed_rules tr rules \<Longrightarrow> listed_rules tr' rules"
    and "table_shown routes tr t s \<Longrightarrow> table_shown routes tr' t s"
    and "unoccupied routes tr \<Longrightarrow> unoccupied routes tr'"
    and "route_ready routes tr p \<Longrightarrow> route_ready routes tr' p"
    and "rule_ready routes tr p \<Longrightarrow> rule_ready routes tr' p"
proof -
  show L: "listed_rules tr rules \<Longrightarrow> listed_rules tr' rules" for rules
    using assms by (auto simp: listed_rules_def)
  show T: "table_shown routes tr t s \<Longrightarrow> table_shown routes tr' t s" for t s
    using assms unfolding table_shown_def by blast
  show "unoccupied routes tr \<Longrightarrow> unoccupied routes tr'"
    unfolding unoccupied_def using L T by meson
  show "route_ready routes tr p \<Longrightarrow> route_ready routes tr' p"
    unfolding route_ready_def using T assms by blast
  show "rule_ready routes tr p \<Longrightarrow> rule_ready routes tr' p"
    unfolding rule_ready_def using L assms by blast
qed

text \<open>A table with a route of the protocol in another shape counts as foreign.\<close>

lemma unknown_is_foreign:
  assumes "table_shown routes tr t s" and "UnknownProtocol s"
  shows "Foreign s"
proof -
  have step: "(UnknownProtocol a \<longrightarrow> Foreign a) \<longrightarrow>
      UnknownProtocol (foldl (count_route wanted) a ls) \<longrightarrow>
      Foreign (foldl (count_route wanted) a ls)" for wanted a ls
  proof (induction ls arbitrary: a)
    case (Cons l ls)
    have "(UnknownProtocol a \<longrightarrow> Foreign a) \<longrightarrow>
        UnknownProtocol (count_route wanted a l) \<longrightarrow> Foreign (count_route wanted a l)"
      by (simp add: count_route_def)
    then show ?case
      using Cons.IH [of "count_route wanted a l"] by simp
  qed simp
  show ?thesis
    using assms step [of no_state] by (auto simp: table_shown_def table_answer_def
        table_state_of_def no_state_def split: if_splits)
qed

lemma preflight_clear:
  "preflight rules routes ts = None \<Longrightarrow> p \<in> set routes \<Longrightarrow> Desired p \<Longrightarrow>
   \<not> Foreign (state_of ts (RouteTable p))"
  by (auto simp: preflight_def first_error_None split: if_splits)

lemma stale_rules_managed:
  "r \<in> set (concat (filter P (group_owned_rules rules routes))) \<Longrightarrow>
   r \<in> set rules \<and> managed_rule r routes"
  by (auto simp: group_owned_rules_def Let_def)

lemma kept_group_managed:
  assumes "q \<in> set (map (\<lambda>g. RulePriority (hd g))
    (filter (keep_group routes ts) (group_owned_rules rules routes)))"
  shows "\<exists>r \<in> set rules. managed_rule r routes \<and> RulePriority r = q"
proof -
  obtain g where g: "g \<in> set (group_owned_rules rules routes)" "keep_group routes ts g"
      "q = RulePriority (hd g)"
    using assms by auto
  then have "length g = 1"
    by (auto simp: keep_group_def split: option.splits)
  then have "hd g \<in> set g"
    by (cases g) auto
  moreover have "set g \<subseteq> set rules" "\<forall>r \<in> set g. managed_rule r routes"
    using g(1) by (auto simp: group_owned_rules_def Let_def)
  ultimately show ?thesis
    using g(3) by blast
qed

section \<open>The runner contract\<close>

locale command_runner =
  recorder run asked for run :: "'w runner" and asked :: "'w \<Rightarrow> transcript"
begin

lemma run_ok_wp:
  assumes "told P w0 w" and "P (since w0 w) c"
    and "\<And>r w'. told P w0 w' \<Longrightarrow> since w0 w' = since w0 w @ [(c, Inr r)] \<Longrightarrow>
      ExitCode r = 0 \<Longrightarrow> Q (Inr r) w'"
    and "\<And>e a w'. told P w0 w' \<Longrightarrow> since w0 w' = since w0 w @ [(c, a)] \<Longrightarrow> Q (Inl e) w'"
  shows "wp (run_ok run c) Q w"
  unfolding run_ok_def wp_bind
  by (rule run_wp [OF assms(1,2)])
    (auto simp: wp_return exit_error_def split: sum.split option.split intro: assms(3,4))

lemma run_unit_wp:
  assumes "told P w0 w" and "P (since w0 w) c"
    and "\<And>e a w'. told P w0 w' \<Longrightarrow> since w0 w' = since w0 w @ [(c, a)] \<Longrightarrow>
      (e = None \<Longrightarrow> \<exists>r. a = Inr r \<and> ExitCode r = 0) \<Longrightarrow> Q e w'"
  shows "wp (run_unit run c) Q w"
  unfolding run_unit_def wp_bind
  by (rule run_ok_wp [OF assms(1,2)]) (auto simp: wp_return intro: assms(3))

lemma each_until_wp:
  assumes "\<And>x w. x \<in> set xs \<Longrightarrow> J w \<Longrightarrow> wp (f x) (\<lambda>e w'. J w' \<and> (e = None \<longrightarrow> K x w') \<and>
      (\<forall>y. K y w \<longrightarrow> K y w')) w"
    and "J w" and "\<And>e w'. J w' \<Longrightarrow> (e = None \<Longrightarrow> \<forall>x \<in> set xs. K x w') \<Longrightarrow>
      (\<And>y. K y w \<Longrightarrow> K y w') \<Longrightarrow> Q e w'"
  shows "wp (each_until f xs) Q w"
  using assms
proof (induction xs arbitrary: w)
  case Nil
  then show ?case by (simp add: wp_return)
next
  case (Cons x xs)
  show ?case
    unfolding each_until.simps wp_bind
  proof (rule wp_mono [OF Cons.prems(1) [of x w]])
    fix e :: "gerror option" and w1
    assume *: "J w1 \<and> (e = None \<longrightarrow> K x w1) \<and> (\<forall>y. K y w \<longrightarrow> K y w1)"
    show "wp (case e of None \<Rightarrow> each_until f xs | Some err \<Rightarrow> State_Monad.return (Some err)) Q w1"
    proof (cases e)
      case None
      show ?thesis
        unfolding None option.case
        by (rule Cons.IH) (use * None Cons.prems in \<open>auto intro: Cons.prems(3)\<close>)
    next
      case (Some err)
      then show ?thesis using * by (auto simp: wp_return intro: Cons.prems(3))
    qed
  qed (use Cons.prems in auto)
qed

lemma each_until_inv_wp:
  assumes "\<And>x w. x \<in> set xs \<Longrightarrow> J w \<Longrightarrow> wp (f x) (\<lambda>_. J) w"
    and "J w" and "\<And>e w'. J w' \<Longrightarrow> Q e w'"
  shows "wp (each_until f xs) Q w"
proof (rule each_until_wp [where J = J and K = "\<lambda>_ _. True"])
  show "wp (f x) (\<lambda>e w'. J w' \<and> (e = None \<longrightarrow> True) \<and> (\<forall>y. True \<longrightarrow> True)) w'"
    if "x \<in> set xs" "J w'" for x w'
    using assms(1) [OF that] by simp
qed (use assms in auto)

lemma each_joined_wp:
  assumes "\<And>x w. x \<in> set xs \<Longrightarrow> J w \<Longrightarrow> wp (f x) (\<lambda>_. J) w"
    and "J w" and "\<And>e w'. J w' \<Longrightarrow> Q e w'"
  shows "wp (each_joined f xs acc) Q w"
  using assms
proof (induction xs arbitrary: w acc)
  case (Cons x xs)
  show ?case
    unfolding each_joined.simps wp_bind
    by (rule wp_mono [OF Cons.prems(1) [of x w]]) (use Cons in auto)
qed (simp add: wp_return)

subsection \<open>Inspection\<close>

text \<open>A program that only asks queries: what was shown stays shown.\<close>

lemma inspect_rules_wp:
  assumes "told P w0 w" and "\<And>tr c. is_query routes c \<Longrightarrow> P tr c"
    and "\<And>ans w'. told P w0 w' \<Longrightarrow> set (since w0 w) \<subseteq> set (since w0 w') \<Longrightarrow>
      (\<And>rules. ans = Inr rules \<Longrightarrow> listed_rules (since w0 w') rules) \<Longrightarrow> Q ans w'"
  shows "wp (inspect_rules run) Q w"
  unfolding inspect_rules_def wp_bind
  by (rule run_ok_wp [OF assms(1)])
    (auto simp: wp_return listed_rules_def intro!: assms(2,3) simp: is_query_def)

lemma inspect_owned_wp:
  assumes "told P w0 w" and "\<And>tr c. is_query routes c \<Longrightarrow> P tr c"
    and "\<And>ans w'. told P w0 w' \<Longrightarrow> set (since w0 w) \<subseteq> set (since w0 w') \<Longrightarrow>
      (\<And>ts. ans = Inr ts \<Longrightarrow> \<forall>t \<in> set ts. \<exists>p \<in> set routes. RouteTable p = t) \<Longrightarrow> Q ans w'"
  shows "wp (inspect_owned_tables run routes) Q w"
  unfolding inspect_owned_tables_def wp_bind
  by (rule run_ok_wp [OF assms(1)])
    (auto simp: wp_return owned_tables_of_def intro!: assms(2,3) simp: is_query_def)

lemma inspect_table_wp:
  assumes "told P w0 w" and "\<And>tr c. is_query routes c \<Longrightarrow> P tr c" and "p \<in> set routes"
    and "\<And>ans w'. told P w0 w' \<Longrightarrow> set (since w0 w) \<subseteq> set (since w0 w') \<Longrightarrow>
      (\<And>s. ans = Inr s \<Longrightarrow> table_shown routes (since w0 w') (RouteTable p) s) \<Longrightarrow> Q ans w'"
  shows "wp (inspect_table run p) Q w"
  unfolding inspect_table_def wp_bind
proof (rule run_wp [OF assms(1)])
  show "P (since w0 w) (show_table_command (RouteTable p))"
    by (rule assms(2)) (use assms(3) in \<open>auto simp: is_query_def\<close>)
  fix r w'
  assume "told P w0 w'" "since w0 w' = since w0 w @ [(show_table_command (RouteTable p), r)]"
  then show "wp (State_Monad.return (case r of
         Inl e \<Rightarrow> Inl e
       | Inr r \<Rightarrow>
           if ExitCode r \<noteq> 0 then
             if is_missing_table r then Inr no_state
             else Inl (Err (''openwrt: inspect route table '' @ int_text (RouteTable p) @ '': '' @
               trim_space (Stderr r)))
           else Inr (table_state_of (Route p) (Stdout r)))) Q w'"
    using assms(3)
    by (auto simp: wp_return table_answer_def split: sum.split
        intro!: assms(4) table_shownI [of p routes])
qed

definition tables_known :: "policy_route list \<Rightarrow> transcript \<Rightarrow> table_states \<Rightarrow> bool" where
  "tables_known routes tr ts \<longleftrightarrow> (\<forall>t s. ts t = Some s \<longrightarrow> table_shown routes tr t s)"

lemma tables_known_mono:
  "tables_known routes tr ts \<Longrightarrow> set tr \<subseteq> set tr' \<Longrightarrow> tables_known routes tr' ts"
  unfolding tables_known_def using shown_mono(2) by blast

lemma inspect_tables_wp:
  assumes "told P w0 w" and "\<And>tr c. is_query routes c \<Longrightarrow> P tr c" and "set ps \<subseteq> set routes"
    and "tables_known routes (since w0 w) ts"
    and "\<And>ans w'. told P w0 w' \<Longrightarrow> set (since w0 w) \<subseteq> set (since w0 w') \<Longrightarrow>
      (\<And>ts'. ans = Inr ts' \<Longrightarrow> tables_known routes (since w0 w') ts' \<and>
         dom ts \<union> RouteTable ` set ps \<subseteq> dom ts') \<Longrightarrow> Q ans w'"
  shows "wp (inspect_tables run ps ts) Q w"
  using assms
proof (induction ps arbitrary: ts w)
  case Nil
  have "Q (Inr ts) w"
    by (rule Nil.prems(5)) (use Nil.prems in auto)
  then show ?case by (simp add: wp_return)
next
  case (Cons p ps)
  have next_step: "wp (inspect_tables run ps (ts(RouteTable p \<mapsto> s))) Q w1"
    if "told P w0 w1" "set (since w0 w) \<subseteq> set (since w0 w1)"
      "table_shown routes (since w0 w1) (RouteTable p) s" for s w1
  proof (rule Cons.IH [OF that(1) Cons.prems(2)])
    show "set ps \<subseteq> set routes"
      using Cons.prems(3) by simp
    show "tables_known routes (since w0 w1) (ts(RouteTable p \<mapsto> s))"
      using tables_known_mono [OF Cons.prems(4) that(2)] that(3) by (simp add: tables_known_def)
    fix ans :: "table_states fallible" and w'
    assume told: "told P w0 w'" and more: "set (since w0 w1) \<subseteq> set (since w0 w')"
      and known: "\<And>ts'. ans = Inr ts' \<Longrightarrow> tables_known routes (since w0 w') ts' \<and>
        dom (ts(RouteTable p \<mapsto> s)) \<union> RouteTable ` set ps \<subseteq> dom ts'"
    show "Q ans w'"
    proof (rule Cons.prems(5) [OF told subset_trans [OF that(2) more]])
      fix ts'
      assume "ans = Inr ts'"
      from known [OF this] show "tables_known routes (since w0 w') ts' \<and>
          dom ts \<union> RouteTable ` set (p # ps) \<subseteq> dom ts'"
        by (simp only: dom_fun_upd option.simps if_False list.simps image_insert) blast
    qed
  qed
  show ?case
    unfolding inspect_tables.simps wp_bind
    by (rule inspect_table_wp [OF Cons.prems(1,2)])
      (use Cons.prems(3) in \<open>auto simp: wp_return split: sum.split
        intro!: Cons.prems(5) next_step\<close>)
qed

subsection \<open>Reconciliation\<close>

lemma flush_wp:
  assumes "told P w0 w" and "P (since w0 w) (flush_command t)"
    and "\<And>e a w'. told P w0 w' \<Longrightarrow> since w0 w' = since w0 w @ [(flush_command t, a)] \<Longrightarrow> Q e w'"
  shows "wp (flush_table run t) Q w"
  unfolding flush_table_def wp_bind
  by (rule run_wp [OF assms(1,2)]) (auto simp: wp_return intro: assms(3))

text \<open>What has been established when the preflight has passed at \<open>w1\<close>.\<close>

definition passed ::
  "policy_route list \<Rightarrow> observed_rule list \<Rightarrow> table_states \<Rightarrow> 'w \<Rightarrow> 'w \<Rightarrow> bool" where
  "passed routes rules ts w0 w \<longleftrightarrow> told (reconcile_may routes) w0 w \<and>
     listed_rules (since w0 w) rules \<and> tables_known routes (since w0 w) ts \<and>
     RouteTable ` set routes \<subseteq> dom ts \<and> preflight rules routes ts = None"

lemma passed_shown:
  "passed routes rules ts w0 w \<Longrightarrow> p \<in> set routes \<Longrightarrow>
   table_shown routes (since w0 w) (RouteTable p) (state_of ts (RouteTable p))"
  unfolding passed_def tables_known_def state_of_def by (auto split: option.split)

lemma passed_unoccupied: "passed routes rules ts w0 w \<Longrightarrow> unoccupied routes (since w0 w)"
  unfolding unoccupied_def using passed_shown [of routes rules ts w0 w] by (auto simp: passed_def)

lemma passed_step:
  assumes "passed routes rules ts w0 w" and "told (reconcile_may routes) w0 w'"
    and "since w0 w' = since w0 w @ [(c, a)]"
  shows "passed routes rules ts w0 w'"
proof -
  have "set (since w0 w) \<subseteq> set (since w0 w')"
    using assms(3) by auto
  then show ?thesis
    using assms(1,2) shown_mono(1) [of "since w0 w" "since w0 w'" rules]
      tables_known_mono [of routes "since w0 w" ts "since w0 w'"] by (simp add: passed_def)
qed

lemma ready_step:
  "since w0 w' = since w0 w @ [(c, a)] \<Longrightarrow> route_ready routes (since w0 w) p \<Longrightarrow>
   route_ready routes (since w0 w') p"
  by (rule shown_mono(4)) auto

text \<open>Every wanted route of the table is in place, and what was in place stays so.\<close>

definition route_kept :: "policy_route list \<Rightarrow> 'w \<Rightarrow> policy_route \<Rightarrow> 'w \<Rightarrow> bool" where
  "route_kept routes w0 p w \<longleftrightarrow> (Desired p \<longrightarrow> route_ready routes (since w0 w) p)"

lemma kept_step:
  "since w0 w' = since w0 w @ [(c, a)] \<Longrightarrow> route_kept routes w0 p w \<Longrightarrow> route_kept routes w0 p w'"
  unfolding route_kept_def using ready_step by blast

lemma add_route_wp:
  assumes "passed routes rules ts w0 w" and "p \<in> set routes" and "Desired p"
    and "\<And>e w'. passed routes rules ts w0 w' \<Longrightarrow> (e = None \<Longrightarrow> route_kept routes w0 p w') \<Longrightarrow>
      (\<And>y. route_kept routes w0 y w \<Longrightarrow> route_kept routes w0 y w') \<Longrightarrow> Q e w'"
  shows "wp (run_unit run (add_route_command p)) Q w"
proof (rule run_unit_wp [of "reconcile_may routes" w0])
  show "told (reconcile_may routes) w0 w"
    using assms(1) by (simp add: passed_def)
  show "reconcile_may routes (since w0 w) (add_route_command p)"
    using passed_unoccupied [OF assms(1)] assms(2,3) by (auto simp: reconcile_may_def)
next
  fix e :: "gerror option" and a w'
  assume told: "told (reconcile_may routes) w0 w'"
    and step: "since w0 w' = since w0 w @ [(add_route_command p, a)]"
    and ok: "e = None \<Longrightarrow> \<exists>r. a = Inr r \<and> ExitCode r = 0"
  show "Q e w'"
  proof (rule assms(4) [OF passed_step [OF assms(1) told step]])
    show "route_kept routes w0 p w'" if "e = None"
      using ok [OF that] by (auto simp: route_kept_def route_ready_def step)
  qed (rule kept_step [OF step])
qed

lemma flush_allowed:
  assumes "passed routes rules ts w0 w" and "table_shown routes (since w0 w) t s"
    and "\<not> UnknownProtocol s"
  shows "reconcile_may routes (since w0 w) (flush_command t)"
proof -
  have "owned_flush routes (since w0 w) (flush_command t)"
    using assms(2,3) unfolding owned_flush_def by blast
  then show ?thesis
    using passed_unoccupied [OF assms(1)] by (simp add: reconcile_may_def)
qed

lemma install_route_wp:
  assumes "passed routes rules ts w0 w" and "p \<in> set routes"
    and "\<And>e w'. passed routes rules ts w0 w' \<Longrightarrow> (e = None \<Longrightarrow> route_kept routes w0 p w') \<Longrightarrow>
      (\<And>y. route_kept routes w0 y w \<Longrightarrow> route_kept routes w0 y w') \<Longrightarrow> Q e w'"
  shows "wp (install_route run ts p) Q w"
proof (cases "Desired p \<and> \<not> healthy_table (state_of ts (RouteTable p))")
  case False
  have "route_kept routes w0 p w"
    using False passed_shown [OF assms(1,2)] by (auto simp: route_kept_def route_ready_def)
  then show ?thesis
    using False assms(3) [OF assms(1)] by (auto simp: install_route_def Let_def wp_return)
next
  case True
  have "\<not> UnknownProtocol (state_of ts (RouteTable p))"
    using unknown_is_foreign [OF passed_shown [OF assms(1,2)]] True assms(1,2)
      preflight_clear [of rules routes ts p] by (auto simp: passed_def)
  then have may: "reconcile_may routes (since w0 w) (flush_command (RouteTable p))"
    by (rule flush_allowed [OF assms(1) passed_shown [OF assms(1,2)]])
  have told: "told (reconcile_may routes) w0 w"
    using assms(1) by (simp add: passed_def)
  have flushed: "wp (case e of Some err \<Rightarrow> State_Monad.return (Some err)
      | None \<Rightarrow> run_unit run (add_route_command p)) Q w1"
    if "passed routes rules ts w0 w1"
      and "\<And>y. route_kept routes w0 y w \<Longrightarrow> route_kept routes w0 y w1" for e w1
    using that True
    by (cases e) (auto simp: wp_return intro!: assms(3) add_route_wp [OF that(1) assms(2)])
  show ?thesis
  proof (cases "OwnedCount (state_of ts (RouteTable p)) > 0")
    case owned: True
    show ?thesis
      unfolding install_route_def Let_def wp_bind
      using True owned by (simp add: wp_bind)
        (rule flush_wp [OF told may], rule flushed,
          auto intro: passed_step [OF assms(1)] kept_step)
  next
    case owned: False
    show ?thesis
      unfolding install_route_def Let_def wp_bind
      using True owned flushed [OF assms(1), of None] by (simp add: wp_bind wp_return)
  qed
qed

lemma delete_rule_wp:
  assumes "passed routes rules ts w0 w" and "r \<in> set rules" and "managed_rule r routes"
  shows "wp (run_unit run (delete_rule_command r)) (\<lambda>_. passed routes rules ts w0) w"
proof (rule run_unit_wp [of "reconcile_may routes" w0])
  show "told (reconcile_may routes) w0 w"
    using assms(1) by (simp add: passed_def)
  have "owned_deletion routes (since w0 w) (delete_rule_command r)"
    using assms unfolding owned_deletion_def passed_def by blast
  then show "reconcile_may routes (since w0 w) (delete_rule_command r)"
    using passed_unoccupied [OF assms(1)] by (simp add: reconcile_may_def)
qed (rule passed_step [OF assms(1)])

text \<open>All routes of the plan are in place.\<close>

definition all_kept ::
  "policy_route list \<Rightarrow> observed_rule list \<Rightarrow> table_states \<Rightarrow> 'w \<Rightarrow> 'w \<Rightarrow> bool" where
  "all_kept routes rules ts w0 w \<longleftrightarrow> passed routes rules ts w0 w \<and>
     (\<forall>p \<in> set routes. route_kept routes w0 p w)"

lemma all_kept_step:
  assumes "all_kept routes rules ts w0 w" and "told (reconcile_may routes) w0 w'"
    and "since w0 w' = since w0 w @ [(c, a)]"
  shows "all_kept routes rules ts w0 w'"
  using assms(1) passed_step [OF _ assms(2,3)] kept_step [OF assms(3)]
  unfolding all_kept_def by blast

lemma flush_orphan_wp:
  assumes "all_kept routes rules ts w0 w" and "p \<in> set routes"
  shows "wp (flush_orphan run routes ts (RouteTable p)) (\<lambda>_. all_kept routes rules ts w0) w"
proof -
  have "passed routes rules ts w0 w"
    using assms(1) by (simp add: all_kept_def)
  note shown = passed_shown [OF this assms(2)] and may = flush_allowed [OF this]
    and told = this [unfolded passed_def, THEN conjunct1]
  show ?thesis
    unfolding flush_orphan_def
    by (auto simp: wp_return assms(1) intro!: flush_wp [OF told may [OF shown]]
        all_kept_step [OF assms(1)])
qed

definition rule_kept :: "policy_route list \<Rightarrow> 'w \<Rightarrow> policy_route \<Rightarrow> 'w \<Rightarrow> bool" where
  "rule_kept routes w0 p w \<longleftrightarrow> (Desired p \<longrightarrow> rule_ready routes (since w0 w) p)"

lemma rule_kept_step:
  "since w0 w' = since w0 w @ [(c, a)] \<Longrightarrow> rule_kept routes w0 p w \<Longrightarrow> rule_kept routes w0 p w'"
  unfolding rule_kept_def using shown_mono(5) [of "since w0 w" "since w0 w'" routes p] by auto

lemma install_rule_wp:
  assumes "all_kept routes rules ts w0 w" and "p \<in> set routes"
    and "\<forall>q \<in> set retained. \<exists>r \<in> set rules. managed_rule r routes \<and> RulePriority r = q"
    and "\<And>e w'. all_kept routes rules ts w0 w' \<Longrightarrow> (e = None \<Longrightarrow> rule_kept routes w0 p w') \<Longrightarrow>
      (\<And>y. rule_kept routes w0 y w \<Longrightarrow> rule_kept routes w0 y w') \<Longrightarrow> Q e w'"
  shows "wp (install_rule run retained p) Q w"
proof (cases "Desired p \<and> RoutePriority p \<notin> set retained")
  case True
  have p: "passed routes rules ts w0 w" "route_ready routes (since w0 w) p"
    using assms True by (auto simp: all_kept_def route_kept_def)
  have "wp (run_unit run (add_rule_command p)) Q w"
  proof (rule run_unit_wp [of "reconcile_may routes" w0])
    show "told (reconcile_may routes) w0 w"
      using p(1) by (simp add: passed_def)
    show "reconcile_may routes (since w0 w) (add_rule_command p)"
      using passed_unoccupied [OF p(1)] p(2) True assms(2) unfolding reconcile_may_def by blast
  next
    fix e :: "gerror option" and a w'
    assume told: "told (reconcile_may routes) w0 w'"
      and step: "since w0 w' = since w0 w @ [(add_rule_command p, a)]"
      and ok: "e = None \<Longrightarrow> \<exists>r. a = Inr r \<and> ExitCode r = 0"
    show "Q e w'"
    proof (rule assms(4) [OF all_kept_step [OF assms(1) told step]])
      show "rule_kept routes w0 p w'" if "e = None"
        using ok [OF that] by (auto simp: rule_kept_def rule_ready_def step)
    qed (rule rule_kept_step [OF step])
  qed
  then show ?thesis
    using True by (simp add: install_rule_def)
next
  case False
  have "listed_rules (since w0 w) rules"
    using assms(1) by (simp add: all_kept_def passed_def)
  then have "rule_kept routes w0 p w"
    using False assms(3) unfolding rule_kept_def rule_ready_def by blast
  then show ?thesis
    using False assms(4) [OF assms(1)] by (auto simp: install_rule_def wp_return)
qed

lemma apply_policy_wp:
  assumes "passed routes rules ts w0 w"
    and "\<forall>t \<in> set orphans. \<exists>p \<in> set routes. RouteTable p = t"
  shows "wp (apply_policy run routes rules ts orphans) (\<lambda>e w'.
    told (reconcile_may routes) w0 w' \<and> (e = None \<longrightarrow> installed routes (since w0 w'))) w"
proof -
  let ?done = "\<lambda>e w'. told (reconcile_may routes) w0 w' \<and>
    (e = None \<longrightarrow> installed routes (since w0 w'))"
  have rules: "wp (each_until (install_rule run retained) routes) ?done w1"
    if kept: "all_kept routes rules ts w0 w1"
      and retained: "\<forall>q \<in> set retained. \<exists>r \<in> set rules. managed_rule r routes \<and> RulePriority r = q"
    for retained w1
  proof (rule each_until_wp [of _ "all_kept routes rules ts w0" _ "rule_kept routes w0"])
    show "wp (install_rule run retained x) (\<lambda>e w'. all_kept routes rules ts w0 w' \<and>
        (e = None \<longrightarrow> rule_kept routes w0 x w') \<and>
        (\<forall>y. rule_kept routes w0 y w2 \<longrightarrow> rule_kept routes w0 y w')) w2"
      if "x \<in> set routes" "all_kept routes rules ts w0 w2" for x w2
      by (rule install_rule_wp [OF that(2,1) retained]) blast
    show "?done e w2" if "all_kept routes rules ts w0 w2"
        "e = None \<Longrightarrow> \<forall>x \<in> set routes. rule_kept routes w0 x w2" for e w2
      using that
      by (auto simp: all_kept_def passed_def installed_def rule_kept_def route_kept_def)
  qed (rule kept)
  have orphan: "wp (flush_orphan run routes ts t) (\<lambda>_. all_kept routes rules ts w0) w1"
    if "t \<in> set orphans" "all_kept routes rules ts w0 w1" for t w1
  proof -
    from assms(2) that(1) obtain p where "p \<in> set routes" "t = RouteTable p"
      by auto
    then show ?thesis
      using flush_orphan_wp [OF that(2)] by simp
  qed
  have flushed: "wp (each_until (flush_orphan run routes ts) orphans) Q w1"
    if "all_kept routes rules ts w0 w1"
      and "\<And>e w2. all_kept routes rules ts w0 w2 \<Longrightarrow> Q e w2" for Q w1
    by (rule each_until_inv_wp [of _ "all_kept routes rules ts w0", OF orphan that])
  have routed: "wp (each_until (install_route run ts) routes) Q w1"
    if "passed routes rules ts w0 w1"
      and "\<And>e w2. passed routes rules ts w0 w2 \<Longrightarrow> (e = None \<Longrightarrow> all_kept routes rules ts w0 w2) \<Longrightarrow>
        Q e w2" for Q w1
  proof (rule each_until_wp [of _ "passed routes rules ts w0" _ "route_kept routes w0"])
    show "Q e w2" if "passed routes rules ts w0 w2"
        "e = None \<Longrightarrow> \<forall>x \<in> set routes. route_kept routes w0 x w2" for e w2
      by (rule \<open>\<And>e w2. _ \<Longrightarrow> (_ \<Longrightarrow> _) \<Longrightarrow> Q e w2\<close> [OF that(1)]) (simp add: all_kept_def that)
  next
    show "wp (install_route run ts x) (\<lambda>e w'. passed routes rules ts w0 w' \<and>
        (e = None \<longrightarrow> route_kept routes w0 x w') \<and>
        (\<forall>y. route_kept routes w0 y w2 \<longrightarrow> route_kept routes w0 y w')) w2"
      if "x \<in> set routes" "passed routes rules ts w0 w2" for x w2
      by (rule install_route_wp [OF that(2,1)]) blast
  qed (rule that(1))
  have deleted: "wp (each_joined (\<lambda>r. run_unit run (delete_rule_command r))
      (concat (filter (\<lambda>g. \<not> keep_group routes ts g) (group_owned_rules rules routes))) None) Q w"
    if "\<And>e w2. passed routes rules ts w0 w2 \<Longrightarrow> Q e w2" for Q
  proof (rule each_joined_wp [of _ "passed routes rules ts w0"])
    show "wp (run_unit run (delete_rule_command r)) (\<lambda>_. passed routes rules ts w0) w2"
      if "r \<in> set (concat (filter (\<lambda>g. \<not> keep_group routes ts g) (group_owned_rules rules routes)))"
        "passed routes rules ts w0 w2" for r w2
      using stale_rules_managed [OF that(1)] delete_rule_wp [OF that(2)] by blast
  qed (use assms(1) that in blast)+
  have retained: "\<forall>q \<in> set (map (\<lambda>g. RulePriority (hd g))
      (filter (keep_group routes ts) (group_owned_rules rules routes))).
      \<exists>r \<in> set rules. managed_rule r routes \<and> RulePriority r = q"
    using kept_group_managed by blast
  show ?thesis
    unfolding apply_policy_def Let_def wp_bind
    by (rule deleted)
      (auto simp: wp_return wp_bind passed_def all_kept_def split: option.split
        intro!: routed flushed rules [OF _ retained])
qed

lemma is_query_may: "is_query routes c \<Longrightarrow> reconcile_may routes tr c"
    "is_query routes c \<Longrightarrow> cleanup_may routes tr c"
  by (simp_all add: reconcile_may_def cleanup_may_def)

text \<open>The commands of a reconciliation, on every path.\<close>

lemma reconcile_wp:
  "wp (reconcile_policy_routes run plan) (\<lambda>e w'. told (reconcile_may (policy_routes plan)) w w' \<and>
     (e = None \<longrightarrow> installed (policy_routes plan) (since w w'))) w"
proof -
  let ?routes = "policy_routes plan"
  let ?Q = "\<lambda>(e :: gerror option) w'. told (reconcile_may ?routes) w w' \<and>
    (e = None \<longrightarrow> installed ?routes (since w w'))"
  have decided: "wp (case preflight rules ?routes ts of
        Some e \<Rightarrow> State_Monad.return (Some e)
      | None \<Rightarrow> apply_policy run ?routes rules ts orphans) ?Q w1"
    if "told (reconcile_may ?routes) w w1" "listed_rules (since w w1) rules"
      "tables_known ?routes (since w w1) ts" "RouteTable ` set ?routes \<subseteq> dom ts"
      "\<forall>t \<in> set orphans. \<exists>p \<in> set ?routes. RouteTable p = t" for rules ts orphans w1
    using that by (auto simp: wp_return passed_def split: option.split intro!: apply_policy_wp)
  have owned: "wp (inspect_owned_tables run ?routes) (\<lambda>owned. wp (case owned of
        Inl e \<Rightarrow> State_Monad.return (Some e)
      | Inr orphans \<Rightarrow> (case preflight rules ?routes ts of
          Some e \<Rightarrow> State_Monad.return (Some e)
        | None \<Rightarrow> apply_policy run ?routes rules ts orphans)) ?Q) w1"
    if told: "told (reconcile_may ?routes) w w1" and listed: "listed_rules (since w w1) rules"
      and known: "tables_known ?routes (since w w1) ts" "RouteTable ` set ?routes \<subseteq> dom ts"
    for rules ts w1
  proof (rule inspect_owned_wp [OF told is_query_may(1)])
    fix ans :: "int list fallible" and w2
    assume *: "told (reconcile_may ?routes) w w2" "set (since w w1) \<subseteq> set (since w w2)"
      "\<And>ts. ans = Inr ts \<Longrightarrow> \<forall>t \<in> set ts. \<exists>p \<in> set ?routes. RouteTable p = t"
    then show "wp (case ans of
        Inl e \<Rightarrow> State_Monad.return (Some e)
      | Inr orphans \<Rightarrow> (case preflight rules ?routes ts of
          Some e \<Rightarrow> State_Monad.return (Some e)
        | None \<Rightarrow> apply_policy run ?routes rules ts orphans)) ?Q w2"
      using decided [OF *(1) shown_mono(1) [OF *(2) listed] tables_known_mono [OF known(1) *(2)]
          known(2)] by (cases ans) (simp_all add: wp_return)
  qed
  show ?thesis
    unfolding reconcile_policy_routes_def wp_bind Let_def
  proof (rule inspect_rules_wp [OF told_start is_query_may(1)])
    fix ans :: "observed_rule list fallible" and w1
    assume one: "told (reconcile_may ?routes) w w1"
      "\<And>rules. ans = Inr rules \<Longrightarrow> listed_rules (since w w1) rules"
    show "wp (case ans of Inl e \<Rightarrow> State_Monad.return (Some e) | Inr rules \<Rightarrow>
        inspect_tables run ?routes Map.empty \<bind> (\<lambda>inspected. case inspected of
          Inl e \<Rightarrow> State_Monad.return (Some e)
        | Inr ts \<Rightarrow> inspect_owned_tables run ?routes \<bind> (\<lambda>owned. case owned of
            Inl e \<Rightarrow> State_Monad.return (Some e)
          | Inr orphans \<Rightarrow> (case preflight rules ?routes ts of
              Some e \<Rightarrow> State_Monad.return (Some e)
            | None \<Rightarrow> apply_policy run ?routes rules ts orphans)))) ?Q w1"
    proof (cases ans)
      case (Inr rules)
      show ?thesis
        unfolding Inr sum.case wp_bind
        by (rule inspect_tables_wp [OF one(1) is_query_may(1) subset_refl])
          (auto simp: tables_known_def [of _ _ Map.empty] wp_return wp_bind split: sum.split
            intro!: owned shown_mono(1) [OF _ one(2) [OF Inr]], blast)
    qed (simp add: wp_return one(1))
  qed
qed

subsection \<open>Cleanup and check\<close>

lemma inspect_all_wp:
  assumes "told P w0 w" and "\<And>tr c. is_query routes c \<Longrightarrow> P tr c" and "set ps \<subseteq> set routes"
    and "tables_known routes (since w0 w) ts"
    and "\<And>ts' errs' w'. told P w0 w' \<Longrightarrow> set (since w0 w) \<subseteq> set (since w0 w') \<Longrightarrow>
      tables_known routes (since w0 w') ts' \<Longrightarrow> Q (ts', errs') w'"
  shows "wp (inspect_all_tables run ps ts errs) Q w"
  using assms
proof (induction ps arbitrary: ts errs w)
  case (Cons p ps)
  show ?case
    unfolding inspect_all_tables.simps wp_bind
  proof (rule inspect_table_wp [OF Cons.prems(1,2)])
    fix ans :: "table_state fallible" and w1
    assume *: "told P w0 w1" "set (since w0 w) \<subseteq> set (since w0 w1)"
      "\<And>s. ans = Inr s \<Longrightarrow> table_shown routes (since w0 w1) (RouteTable p) s"
    have later: "wp (inspect_all_tables run ps ts' errs') Q w1"
      if "tables_known routes (since w0 w1) ts'" for ts' errs'
      by (rule Cons.IH [OF *(1) Cons.prems(2) _ that])
        (use Cons.prems(3) *(2) in \<open>auto intro!: Cons.prems(5)\<close>)
    note known = tables_known_mono [OF Cons.prems(4) *(2)]
    show "wp (case ans of
        Inl e \<Rightarrow> inspect_all_tables run ps ts (errors_join [errs, Some e])
      | Inr s \<Rightarrow> inspect_all_tables run ps (ts(RouteTable p \<mapsto> s)) errs) Q w1"
      using *(3) known by (cases ans) (auto intro!: later simp: tables_known_def)
  qed (use Cons.prems in auto)
qed (simp add: wp_return)

text \<open>What the cleanup knows when it starts to remove.\<close>

definition surveyed ::
  "policy_route list \<Rightarrow> observed_rule list \<Rightarrow> table_states \<Rightarrow> 'w \<Rightarrow> 'w \<Rightarrow> bool" where
  "surveyed routes rules ts w0 w \<longleftrightarrow> told (cleanup_may routes) w0 w \<and>
     (rules = [] \<or> listed_rules (since w0 w) rules) \<and> tables_known routes (since w0 w) ts"

lemma surveyed_step:
  assumes "surveyed routes rules ts w0 w" and "told (cleanup_may routes) w0 w'"
    and "since w0 w' = since w0 w @ [(c, a)]"
  shows "surveyed routes rules ts w0 w'"
proof -
  have "set (since w0 w) \<subseteq> set (since w0 w')"
    using assms(3) by auto
  then show ?thesis
    using assms(1,2) shown_mono(1) [of "since w0 w" "since w0 w'" rules]
      tables_known_mono [of routes "since w0 w" ts "since w0 w'"] by (auto simp: surveyed_def)
qed

lemma cleanup_rule_wp:
  assumes "surveyed routes rules ts w0 w" and "r \<in> set rules" and "managed_rule r routes"
  shows "wp (run_unit run (delete_rule_command r)) (\<lambda>_. surveyed routes rules ts w0) w"
proof (rule run_unit_wp [of "cleanup_may routes" w0])
  show "told (cleanup_may routes) w0 w"
    using assms(1) by (simp add: surveyed_def)
  have "owned_deletion routes (since w0 w) (delete_rule_command r)"
    using assms unfolding owned_deletion_def surveyed_def by auto
  then show "cleanup_may routes (since w0 w) (delete_rule_command r)"
    by (simp add: cleanup_may_def)
qed (rule surveyed_step [OF assms(1)])

lemma cleanup_table_wp:
  assumes "surveyed routes rules ts w0 w"
  shows "wp (cleanup_table run ts p) (\<lambda>_. surveyed routes rules ts w0) w"
proof (cases "ts (RouteTable p)")
  case (Some s)
  show ?thesis
  proof (cases "OwnedCount s = 0 \<or> UnknownProtocol s")
    case False
    have "owned_flush routes (since w0 w) (flush_command (RouteTable p))"
      using assms Some False unfolding owned_flush_def surveyed_def tables_known_def by auto
    then have may: "cleanup_may routes (since w0 w) (flush_command (RouteTable p))"
      by (simp add: cleanup_may_def)
    have "told (cleanup_may routes) w0 w"
      using assms by (simp add: surveyed_def)
    then have "wp (flush_table run (RouteTable p)) (\<lambda>_. surveyed routes rules ts w0) w"
      using may by - (erule (1) flush_wp, rule surveyed_step [OF assms])
    then show ?thesis
      using False Some by (simp add: cleanup_table_def)
  qed (use Some assms in \<open>auto simp: cleanup_table_def wp_return\<close>)
qed (simp add: cleanup_table_def wp_return assms)

lemma cleanup_wp:
  "wp (cleanup_policy_routes run plan) (\<lambda>_. told (cleanup_may (policy_routes plan)) w) w"
proof -
  let ?routes = "policy_routes plan"
  let ?Q = "\<lambda>_ :: gerror option. told (cleanup_may ?routes) w"
  have removed: "wp (each_joined (\<lambda>r. run_unit run (delete_rule_command r))
      (filter (\<lambda>r. managed_rule r ?routes) rules) errs \<bind>
      (\<lambda>joined. each_joined (cleanup_table run ts) ?routes joined)) ?Q w1"
    if "surveyed ?routes rules ts w w1" for rules ts errs w1
    unfolding wp_bind
  proof (rule each_joined_wp [of _ "surveyed ?routes rules ts w", OF _ that])
    show "wp (run_unit run (delete_rule_command r)) (\<lambda>_. surveyed ?routes rules ts w) w2"
      if "r \<in> set (filter (\<lambda>r. managed_rule r ?routes) rules)" "surveyed ?routes rules ts w w2" for r w2
      using that cleanup_rule_wp by auto
    show "wp (each_joined (cleanup_table run ts) ?routes joined) ?Q w2"
      if "surveyed ?routes rules ts w w2" for joined w2
      using that
      by - (rule each_joined_wp [of _ "surveyed ?routes rules ts w", OF cleanup_table_wp],
          auto simp: surveyed_def)
  qed
  show ?thesis
    unfolding cleanup_policy_routes_def wp_bind Let_def case_prod_beta
  proof (rule inspect_rules_wp [OF told_start is_query_may(2)])
    fix ans :: "observed_rule list fallible" and w1
    assume one: "told (cleanup_may ?routes) w w1"
      "\<And>rules. ans = Inr rules \<Longrightarrow> listed_rules (since w w1) rules"
    show "wp (inspect_all_tables run ?routes Map.empty None) (\<lambda>x. wp
        (each_joined (\<lambda>r. run_unit run (delete_rule_command r))
          (filter (\<lambda>r. managed_rule r ?routes) (case ans of Inl _ \<Rightarrow> [] | Inr rs \<Rightarrow> rs))
          (errors_join [case ans of Inl e \<Rightarrow> Some e | Inr _ \<Rightarrow> None, snd x]))
        (\<lambda>joined. wp (each_joined (cleanup_table run (fst x)) ?routes joined) ?Q)) w1"
    proof (rule inspect_all_wp [OF one(1) is_query_may(2) subset_refl], goal_cases)
      case (3 ts errs w2)
      have "surveyed ?routes (case ans of Inl _ \<Rightarrow> [] | Inr rs \<Rightarrow> rs) ts w w2"
        using 3 shown_mono(1) [OF 3(2) one(2)] by (auto simp: surveyed_def split: sum.split)
      from removed [OF this] show ?case
        by (simp add: wp_bind)
    qed (auto simp: tables_known_def)
  qed
qed

lemma check_wp:
  "wp (check_policy_routes run plan) (\<lambda>_. told (\<lambda>_. is_query (policy_routes plan)) w) w"
proof -
  let ?P = "\<lambda>_ :: transcript. is_query (policy_routes plan)"
  have query: "\<And>tr c. is_query (policy_routes plan) c \<Longrightarrow> ?P tr c"
    by simp
  have wanted: "set (filter Desired (policy_routes plan)) \<subseteq> set (policy_routes plan)"
    by auto
  show ?thesis
    unfolding check_policy_routes_def wp_bind Let_def
    by (rule inspect_rules_wp [OF told_start query])
      (auto simp: wp_return wp_bind tables_known_def [of _ _ Map.empty] split: sum.split
        intro!: inspect_tables_wp [OF _ query wanted] inspect_owned_wp [OF _ query])
qed

end

section \<open>Every environment\<close>

text \<open>A runner over an arbitrary environment: the world is the transcript.\<close>

interpretation traced: command_runner "traced env" "\<lambda>tr. tr" for env
  by unfold_locales

definition issued ::
  "(transcript runner \<Rightarrow> gateway_plan \<Rightarrow> (transcript, 'a) state) \<Rightarrow>
   (transcript \<Rightarrow> command \<Rightarrow> cmd_result fallible) \<Rightarrow> gateway_plan \<Rightarrow> transcript" where
  "issued program env plan = snd (run_state (program (traced env) plan) [])"

definition outcome ::
  "(transcript runner \<Rightarrow> gateway_plan \<Rightarrow> (transcript, 'a) state) \<Rightarrow>
   (transcript \<Rightarrow> command \<Rightarrow> cmd_result fallible) \<Rightarrow> gateway_plan \<Rightarrow> 'a" where
  "outcome program env plan = fst (run_state (program (traced env) plan) [])"

lemma issued_wp:
  assumes "wp (program (traced env) plan) Q []"
  shows "Q (outcome program env plan) (issued program env plan)"
  using assms by (simp add: wp_def issued_def outcome_def case_prod_beta)

lemma told_issued: "traced.told P [] tr \<Longrightarrow> disciplined P tr"
  by (simp add: traced.told_def traced.since_def)

text \<open>
  C15. Ownership in a reconciliation, whatever the ip tool answers and wherever it fails. Every
  command is one of the three listings, or follows listings of the same run in which no
  foreign route or rule occupies a wanted table, priority or mark, and is: the deletion of a
  listed rule that matches a route of the plan exactly, the flush of the policy protocol from a
  table in which no route of that protocol has an unknown shape, the addition of a wanted
  route, or the addition of a wanted rule whose table was seen healthy or has received its
  route.
\<close>

theorem reconcile_respects_ownership:
  "disciplined (reconcile_may (policy_routes plan)) (issued reconcile_policy_routes env plan)"
  by (rule told_issued, rule conjunct1, rule issued_wp, rule wp_mono [OF traced.reconcile_wp])
    (simp add: traced.since_def)


text \<open>
  C17. Ownership in a cleanup, whatever the ip tool answers and wherever it fails: every command is a
  listing, the deletion of a listed rule that matches a route of the plan exactly, or the flush
  of the policy protocol from a listed table without a route of that protocol in an unknown
  shape. A check issues listings only.
\<close>

theorem cleanup_respects_ownership:
  "disciplined (cleanup_may (policy_routes plan)) (issued cleanup_policy_routes env plan) \<and>
   disciplined (\<lambda>_. is_query (policy_routes plan)) (issued check_policy_routes env plan)"
proof
  show "disciplined (cleanup_may (policy_routes plan)) (issued cleanup_policy_routes env plan)"
    by (rule told_issued, rule issued_wp, rule traced.cleanup_wp)
  show "disciplined (\<lambda>_. is_query (policy_routes plan)) (issued check_policy_routes env plan)"
    by (rule told_issued, rule issued_wp, rule traced.check_wp)
qed

text \<open>A router without rules and routes on which every command succeeds.\<close>

definition bare_router :: "transcript \<Rightarrow> command \<Rightarrow> cmd_result fallible" where
  "bare_router tr c = Inr \<lparr>Stdout = [], Stderr = [], ExitCode = 0\<rparr>"

lemma bare_router_reconciles:
  "outcome reconcile_policy_routes bare_router (default_gateway_plan ''mixed'') = None"
  by (simp add: outcome_def reconcile_policy_routes_def inspect_rules_def run_ok_def traced_def
      bare_router_def exit_error_def State_Monad.bind_def State_Monad.return_def policy_routes_def
      inspect_table_def inspect_owned_tables_def table_state_of_def listing_lines_def rules_of_def
      owned_tables_of_def preflight_def state_of_def no_state_def apply_policy_def Let_def
      group_owned_rules_def install_route_def healthy_table_def run_unit_def install_rule_def
      List.map_filter_def default_gateway_plan_def uses_tproxy_tcp_def uses_tproxy_udp_def uses_tun_def
      trim_space_def)


end
