(* ===== verification/Policy_Roundtrip.thy ===== *)
theory Policy_Roundtrip
  imports Policy_Routes
begin

text \<open>
  What policy routing adds it recognises: the line with which the ip tool lists a rule that
  \<open>add_rule_command\<close> installed is read back as an owned and exact rule of its route.
\<close>

section \<open>Words and searches\<close>

lemma plain_no_space [simp]: "plain c \<Longrightarrow> \<not> re_space c"
  by (auto simp: plain_def re_space_def)

lemma words_from_plain: "list_all plain w \<Longrightarrow> words_from acc (w @ s) = words_from (acc @ w) s"
proof (induction w arbitrary: acc)
  case (Cons c w)
  then show ?case by (subst words_from.simps) simp
qed simp

lemma words_from_end [simp]: "words_from acc [] = (if acc = [] then [] else [acc])"
  by (subst words_from.simps) simp

lemma first_runes: "space_runes = '' '' # [CHR 0x09] # drop 2 space_runes"
  by (simp add: space_runes_def bytes_def) code_simp

lemma space_at_blank [simp]:
  "space_at (CHR '' '' # s) = Some '' ''" "space_at (CHR 0x09 # s) = Some [CHR 0x09]"
  unfolding space_at_def by (subst first_runes; simp)+

lemma words_from_blank:
  "c = CHR '' '' \<or> c = CHR 0x09 \<Longrightarrow>
   words_from acc (c # s) = (if acc = [] then [] else [acc]) @ words_from [] s"
  by (subst words_from.simps) auto

lemma space_words_step:
  assumes "w \<noteq> []" and "list_all plain w" and "c = CHR '' '' \<or> c = CHR 0x09"
  shows "space_words (w @ c # s) = w # space_words s"
  using assms words_from_plain [of w "[]"] words_from_blank [of c w s]
  by (simp add: space_words_def)

lemma space_words_last: "w \<noteq> [] \<Longrightarrow> list_all plain w \<Longrightarrow> space_words w = [w]"
  using words_from_plain [of w "[]" "[]"] by (simp add: space_words_def)

lemma search_later_skip:
  "list_all plain w \<Longrightarrow> search_later body (w @ s) = search_later body s"
  by (induction w) auto

lemma search_later_blank:
  "c = CHR '' '' \<or> c = CHR 0x09 \<Longrightarrow> search_later body (c # s) = search body s"
  by (auto simp: re_space_def search_def split: option.split)

lemma search_step:
  assumes "body (w @ c # s) = None" and "list_all plain w" and "c = CHR '' '' \<or> c = CHR 0x09"
  shows "search body (w @ c # s) = search body s"
  using assms(1) search_later_skip [OF assms(2), of body "c # s"]
    search_later_blank [OF assms(3), of body s] by (simp only: search_def option.case)

lemma takeWhile_dec [simp]:
  "s = [] \<or> \<not> is_digit (hd s) \<Longrightarrow> takeWhile is_digit (dec n @ s) = dec n"
  "s = [] \<or> \<not> is_digit (hd s) \<Longrightarrow> dropWhile is_digit (dec n @ s) = s"
proof -
  assume "s = [] \<or> \<not> is_digit (hd s)"
  then have "takeWhile is_digit s = []" "dropWhile is_digit s = s"
    by (cases s; simp)+
  then show "takeWhile is_digit (dec n @ s) = dec n" "dropWhile is_digit (dec n @ s) = s"
    using dec_digits by (simp_all add: takeWhile_append2 dropWhile_append2)
qed

lemma leading_number_dec:
  "at_boundary s \<Longrightarrow> leading_number (dec n @ s) = Some (dec n)"
proof -
  assume *: "at_boundary s"
  then have "s = [] \<or> \<not> is_digit (hd s)"
    by (auto simp: at_boundary_def re_space_def is_digit_def)
  then show ?thesis
    using * by (simp add: leading_number_def)
qed

section \<open>Hexadecimal numbers\<close>

lemma hex_value_char: "d < 16 \<Longrightarrow> hex_value (hex_char d) = Some d"
  by (simp add: hex_value_def hex_char_def)

lemma hex_chars: "c \<in> set (hex n) \<Longrightarrow> \<exists>d < 16. c = hex_char d"
proof (induction n rule: hex.induct)
  case (1 n)
  then show ?case
    by (subst (asm) (2) hex.simps) (auto split: if_splits intro: exI [of _ "n mod 16"])
qed

lemma hex_not_Nil [simp]: "hex n \<noteq> []"
  by (subst hex.simps) simp

lemma plain_hex [simp]: "list_all plain (hex n)"
proof -
  have "plain (hex_char d)" if "d < 16" for d
    using that by (simp add: plain_def hex_char_def)
  then show ?thesis
    using hex_chars by (auto simp: list_all_iff)
qed

lemma is_hex_hex: "c \<in> set (hex n) \<Longrightarrow> is_hex c"
  using hex_chars hex_value_char by (fastforce simp: is_hex_def)

lemma digits_value_hex: "digits_value 16 (hex n) = Some n"
proof -
  have all: "foldl (\<lambda>n c. 16 * n + the (hex_value c)) 0 (hex n) = n"
  proof (induction n rule: hex.induct)
    case (1 n)
    show ?case
      by (cases "n < 16"; subst hex.simps) (use 1 in \<open>auto simp: hex_value_char\<close>)
  qed
  have "case hex_value c of None \<Rightarrow> False | Some v \<Rightarrow> v < 16" if "c \<in> set (hex n)" for c
    using hex_chars [OF that] hex_value_char by auto
  then show ?thesis
    by (simp add: digits_value_def list_all_iff all)
qed

lemma parse_hex_mark:
  assumes "n < 2 ^ 32"
  shows "parse_uint32 (''0x'' @ hex n) = Some n"
proof -
  have "length (hex n) \<ge> 1"
    by (simp add: Suc_le_eq)
  then show ?thesis
    using assms by (simp add: parse_uint32_def digits_value_hex)
qed

section \<open>Lines of words\<close>

definition spaced :: "string list \<Rightarrow> string" where
  "spaced ws = join '' '' ws"

abbreviation plain_words :: "string list \<Rightarrow> bool" where
  "plain_words ws \<equiv> list_all (\<lambda>w. w \<noteq> [] \<and> list_all plain w) ws"

lemma spaced_Cons: "ws \<noteq> [] \<Longrightarrow> spaced (w # ws) = w @ CHR '' '' # spaced ws"
  by (cases ws) (simp_all add: spaced_def)

lemma spaced_single [simp]: "spaced [w] = w"
  by (simp add: spaced_def)

lemma space_words_spaced: "plain_words ws \<Longrightarrow> space_words (spaced ws) = ws"
proof (induction ws)
  case (Cons w ws)
  then show ?case
    by (cases "ws = []") (simp_all add: space_words_last spaced_Cons space_words_step)
qed (simp add: spaced_def space_words_def)

lemma search_spaced:
  assumes "list_all plain w"
  shows "search body (spaced (w # v # vs)) =
    (case body (spaced (w # v # vs)) of Some r \<Rightarrow> Some r | None \<Rightarrow> search body (spaced (v # vs)))"
  using search_step [of body w "CHR '' ''" "spaced (v # vs)"] assms
  by (auto simp: spaced_Cons search_def split: option.split)

lemma after_keyword_word:
  assumes "list_all plain k" and "list_all plain w" and "c = CHR '' '' \<or> c = CHR 0x09"
    and "s \<noteq> []" and "plain (hd s)"
  shows "after_keyword k (w @ c # s) = (if w = k then Some s else None)"
proof (cases "prefix k (w @ c # s)")
  case True
  then consider "w = k" | r where "w = k @ r" "r \<noteq> []" | r where "k = w @ c # r"
    by (auto simp: prefix_append prefix_Cons prefix_def append_eq_append_conv2 Cons_eq_append_conv)
  then show ?thesis
  proof cases
    case 1
    have "dropWhile re_space s = s"
      using assms(4,5) by (cases s) auto
    then show ?thesis
      using 1 assms(3) by (auto simp: after_keyword_def re_space_def)
  next
    case 2
    then have "plain (hd r)"
      using assms(2) by (cases r) auto
    then show ?thesis
      using 2 by (simp add: after_keyword_def)
  next
    case 3
    then have "plain c"
      using assms(1) by simp
    then show ?thesis
      using assms(3) by (auto simp: plain_def)
  qed
qed (auto simp: after_keyword_def)

lemma spaced_hd: "plain_words (v # vs) \<Longrightarrow> spaced (v # vs) \<noteq> [] \<and> plain (hd (spaced (v # vs)))"
  by (cases "vs = []"; cases v) (auto simp: spaced_Cons)

lemma number_after_spaced:
  assumes "list_all (list_all plain) keys" and "plain_words (w # v # vs)"
  shows "number_after keys (spaced (w # v # vs)) =
    (if w \<in> set keys then leading_number (spaced (v # vs)) else None)"
proof -
  have "after_any keys (w @ CHR '' '' # spaced (v # vs)) =
      (if w \<in> set keys then Some (spaced (v # vs)) else None)"
    using assms spaced_hd [of v vs]
    by (induction keys) (auto simp: after_keyword_word)
  then show ?thesis
    by (simp add: number_after_def spaced_Cons)
qed

lemma number_after_last: "plain_words [w] \<Longrightarrow> list_all (list_all plain) keys \<Longrightarrow> number_after keys w = None"
proof -
  assume w: "plain_words [w]" and keys: "list_all (list_all plain) keys"
  have "after_keyword k w = None" for k
  proof (cases "prefix k w \<and> drop (length k) w \<noteq> []")
    case True
    then have "hd (drop (length k) w) \<in> set w"
      by (meson hd_in_set in_set_dropD)
    then show ?thesis
      using w by (auto simp: after_keyword_def list_all_iff)
  qed (auto simp: after_keyword_def)
  then have "after_any keys w = None"
    by (induction keys) auto
  then show ?thesis
    by (simp add: number_after_def)
qed

lemma leading_number_spaced [simp]:
  "leading_number (dec n) = Some (dec n)"
  "leading_number (spaced (dec n # v # vs)) = Some (dec n)"
  using leading_number_dec [of "[]" n] leading_number_dec [of "CHR '' '' # spaced (v # vs)" n]
  by (simp_all add: spaced_Cons at_boundary_def re_space_def)

lemma mark_body_other:
  assumes "plain_words (w # v # vs)" and "w \<noteq> ''fwmark''"
  shows "mark_body (spaced (w # v # vs)) = None"
  using assms after_keyword_word [of "''fwmark''" w "CHR '' ''" "spaced (v # vs)"] spaced_hd [of v vs]
  by (simp add: mark_body_def spaced_Cons plain_def)

lemma mark_body_mark:
  assumes "plain_words (v # vs)"
  shows "mark_body (spaced (''fwmark'' # (''0x'' @ hex n) # v # vs)) = Some (''0x'' @ hex n, [])"
proof -
  let ?s = "spaced (v # vs)"
  have "after_keyword ''fwmark'' (spaced (''fwmark'' # (''0x'' @ hex n) # v # vs)) =
      Some (''0x'' @ hex n @ CHR '' '' # ?s)"
    using after_keyword_word [of "''fwmark''" "''fwmark''" "CHR '' ''" "''0x'' @ hex n @ CHR '' '' # ?s"]
    by (simp add: spaced_Cons plain_def)
  moreover have "takeWhile is_hex (hex n @ CHR '' '' # ?s) = hex n"
    using is_hex_hex by (simp add: takeWhile_append2 is_hex_def hex_value_def)
  ultimately show ?thesis
    by (simp add: mark_body_def Let_def at_boundary_def re_space_def)
qed

lemma dec_not_word: "\<not> is_digit c \<Longrightarrow> dec n \<noteq> c # s"
  by (metis dec_digits list.set_intros(1))

section \<open>A listed rule\<close>

text \<open>
  The line \<^verbatim>\<open>ip -N -4 rule show\<close> prints for a rule with a priority, a full mark and a table that
  carries the protocol number of the policy.
\<close>

definition rule_words :: "nat \<Rightarrow> nat \<Rightarrow> string list" where
  "rule_words n t = [''from'', ''all'', ''fwmark'', ''0x'' @ hex n, ''lookup'', dec t, ''proto'',
     dec policy_protocol]"

definition rule_line :: "nat \<Rightarrow> nat \<Rightarrow> nat \<Rightarrow> string" where
  "rule_line q n t = (dec q @ '':'') @ CHR 0x09 # spaced (rule_words n t)"

lemma plain_rule_words: "plain_words (rule_words n t)"
  by (simp add: rule_words_def plain_def)

lemma rule_line_words: "space_words (rule_line q n t) = (dec q @ '':'') # rule_words n t"
  unfolding rule_line_def
  by (subst space_words_step) (simp_all add: plain_def space_words_spaced plain_rule_words)

lemma trim_rule_line: "trim_space (rule_line q n t) = rule_line q n t"
proof (rule trim_plain)
  show "plain (hd (rule_line q n t))"
    using dec_digits [of "hd (dec q)" q] by (simp add: rule_line_def)
  show "plain (last (rule_line q n t))"
    using dec_digits [of "last (dec policy_protocol)" policy_protocol]
    by (simp add: rule_line_def rule_words_def spaced_Cons)
qed (simp add: rule_line_def)

lemma search_rule_line:
  assumes "body (rule_line q n t) = None"
  shows "search body (rule_line q n t) = search body (spaced (rule_words n t))"
  using search_step [of body "dec q @ '':''" "CHR 0x09" "spaced (rule_words n t)"] assms
  by (simp add: rule_line_def plain_def)

lemma line_keyword:
  assumes "list_all plain k" and "CHR '':'' \<notin> set k"
  shows "after_keyword k (rule_line q n t) = None"
proof -
  have "dec q @ '':'' \<noteq> k"
    using assms(2) by auto
  moreover have "spaced (rule_words n t) \<noteq> [] \<and> plain (hd (spaced (rule_words n t)))"
    unfolding rule_words_def
    by (rule spaced_hd) (use plain_rule_words [of n t] in \<open>simp add: rule_words_def\<close>)
  ultimately show ?thesis
    using after_keyword_word [OF assms(1), of "dec q @ '':''" "CHR 0x09" "spaced (rule_words n t)"]
    by (simp add: rule_line_def plain_def)
qed

lemma rule_line_priority: "rule_priority (rule_line q n t) = Some (dec q)"
  by (simp add: rule_priority_def rule_line_def Let_def is_digit_def at_boundary_def re_space_def)

lemma number_after_line:
  assumes "\<forall>k \<in> set keys. list_all plain k \<and> CHR '':'' \<notin> set k"
  shows "number_after keys (rule_line q n t) = None"
proof -
  have "after_any keys (rule_line q n t) = None"
    using assms by (induction keys) (auto simp: line_keyword)
  then show ?thesis
    by (simp add: number_after_def)
qed

lemma rule_line_table: "rule_table (rule_line q n t) = Some (dec t)"
  unfolding rule_table_def
  by (subst search_rule_line)
    (simp_all add: number_after_line rule_words_def search_spaced number_after_spaced plain_def
      dec_not_word is_digit_def)

lemma rule_line_protocol: "has_protocol (rule_line q n t)"
  unfolding has_protocol_def
  by (subst search_rule_line)
    (simp_all add: number_after_line rule_words_def search_spaced number_after_spaced plain_def
      dec_not_word is_digit_def)

lemma rule_line_mark: "rule_mark (rule_line q n t) = Some (''0x'' @ hex n, [])"
proof -
  have "mark_body (rule_line q n t) = None"
    by (simp add: mark_body_def line_keyword plain_def)
  then show ?thesis
    unfolding rule_mark_def
    by (subst search_rule_line) (simp_all add: rule_words_def search_spaced mark_body_other
        mark_body_mark [simplified] plain_def)
qed

lemma rule_line_shape: "shape_is_exact (rule_line q n t)"
  unfolding shape_is_exact_def trim_rule_line rule_line_words
  by (simp add: rule_words_def)

lemma parse_rule_line:
  assumes "int q \<le> max_int" and "n < 2 ^ 32" and "int t \<le> max_int"
  shows "parse_policy_rule (rule_line q n t) =
    Some \<lparr>RulePriority = int q, RuleMark = of_nat n, MarkSpec = ''0x'' @ hex n,
      RuleTable = int t, Owned = True, Exact = True\<rparr>"
  using assms parse_hex_mark [OF assms(2)]
  by (simp add: parse_policy_rule_def trim_rule_line rule_line_priority rule_line_table
      rule_line_protocol rule_line_mark rule_line_shape atoi_def mark_mask_is_exact_def Let_def)

text \<open>
  C19. Policy routing recognises what it installs. The line with which \<^verbatim>\<open>ip -N -4 rule show\<close> lists a
  rule added by \<open>add_rule_command\<close> is read back as an owned and exact rule that matches its route,
  so the next reconciliation keeps it, and the command that removes it names the priority,
  mark and table it was added with.
\<close>

theorem added_rule_is_recognised:
  assumes "0 \<le> RoutePriority p" and "RoutePriority p \<le> max_int"
    and "0 < RouteTable p" and "RouteTable p \<le> max_int"
  shows "\<exists>r. parse_policy_rule (rule_line (nat (RoutePriority p)) (unat (RouteMark p))
      (nat (RouteTable p))) = Some r \<and> rule_matches_route r p \<and>
    tl (tl (tl (CmdArgs (delete_rule_command r)))) = tl (tl (tl (CmdArgs (add_rule_command p))))"
proof -
  have "unat (RouteMark p) < 2 ^ 32"
    using unsigned_less [of "RouteMark p"] by simp
  then show ?thesis
    using assms parse_rule_line [of "nat (RoutePriority p)" "unat (RouteMark p)" "nat (RouteTable p)"]
    by (simp add: rule_matches_route_def delete_rule_command_def add_rule_command_def ip_command_def)
qed

definition sample_route :: policy_route where
  "sample_route = \<lparr>RouteMark = 0x162, RouteTable = 354, RoutePriority = 10000,
     Route = [''local'', ''default'', ''dev'', ''lo''], Desired = True\<rparr>"

lemma added_rule_is_recognised_witness:
  "\<exists>r. parse_policy_rule (rule_line 10000 0x162 354) = Some r \<and> rule_matches_route r sample_route"
  using added_rule_is_recognised [of sample_route] by (auto simp: sample_route_def max_int_def)

end
