(* ===== verification/Gateway_Ruleset.thy ===== *)
theory Gateway_Ruleset
  imports Gateway_Plan
begin

text \<open>
  The nftables ruleset of a gateway plan: \<open>Render\<close> of \<^verbatim>\<open>internal/platform/openwrt/gateway.go\<close>. Each
  statement the renderer writes is a constructor with its text, so that a chain is a list of
  statements, the transaction is their text, and the effect of a chain on a packet can be stated.
  The digest of the plan in the table comment is a parameter.
\<close>

section \<open>Statements and their text\<close>

datatype l4 = TCP | UDP

datatype port_end = Sport | Dport

datatype nft_rule =
    LoopReturn "32 word"
  | ClassReturn
  | LocalReturn
  | DhcpReturn nat nat
  | PortReturn l4 port_end bool "16 word list"
  | UidReturn
  | IfaceReturn string bool "string list"
  | SourceReturn
  | QuicReject
  | ProxyReturn
  | ReservedReturn
  | SetMark bool l4 "32 word"
  | RedirectTCP bool "16 word"
  | DnatReturn
  | JumpMark
  | TproxyTo "32 word" l4 "16 word"
  | DotDrop l4
  | DnsRedirect l4 "16 word" "16 word"
  | AcceptIface string string

fun l4_text :: "l4 \<Rightarrow> string" where
  "l4_text TCP = ''tcp''"
| "l4_text UDP = ''udp''"

fun port_end_text :: "port_end \<Rightarrow> string" where
  "port_end_text Sport = ''sport''"
| "port_end_text Dport = ''dport''"

definition num :: "'a::len word \<Rightarrow> string" where
  "num w = dec (unat w)"

definition quote_strings :: "string list \<Rightarrow> string" where
  "quote_strings vs = join '', '' (map quote vs)"

definition allowlist_prefix :: "bool \<Rightarrow> string" where
  "allowlist_prefix selective = (if selective then ''ip daddr @capture4 '' else [])"

fun rule_body :: "nft_rule \<Rightarrow> string" where
  "rule_body (LoopReturn m) = ''meta mark '' @ hex8 (unat m) @ '' return''"
| "rule_body ClassReturn = ''meta mark & 0x0000ff00 != 0x00000000 return''"
| "rule_body LocalReturn = ''fib daddr type local return''"
| "rule_body (DhcpReturn s d) = ''udp sport '' @ dec s @ '' udp dport '' @ dec d @ '' return''"
| "rule_body (PortReturn p e neg ports) = l4_text p @ '' '' @ port_end_text e @
     (if neg then '' !='' else []) @ '' { '' @ join '', '' (map num ports) @ '' } return''"
| "rule_body UidReturn = ''meta skuid @bypass_uids return''"
| "rule_body (IfaceReturn expr neg names) =
     expr @ (if neg then '' !='' else []) @ '' { '' @ quote_strings names @ '' } return''"
| "rule_body SourceReturn = ''ip saddr @source_bypass4 return''"
| "rule_body QuicReject = ''udp dport 443 reject''"
| "rule_body ProxyReturn = ''ip daddr @proxy_servers4 return''"
| "rule_body ReservedReturn = ''ip daddr @bypass4 return''"
| "rule_body (SetMark selective p m) =
     allowlist_prefix selective @ ''meta l4proto '' @ l4_text p @ '' meta mark set '' @ hex8 (unat m)"
| "rule_body (RedirectTCP selective port) =
     allowlist_prefix selective @ ''meta l4proto tcp redirect to :'' @ num port"
| "rule_body DnatReturn = ''ct status dnat return''"
| "rule_body JumpMark = ''jump mark_traffic''"
| "rule_body (TproxyTo m p port) = ''meta mark '' @ hex8 (unat m) @ '' meta l4proto '' @ l4_text p @
     '' tproxy ip to 127.0.0.1:'' @ num port"
| "rule_body (DotDrop p) = ''meta nfproto ipv4 '' @ l4_text p @ '' dport 853 drop''"
| "rule_body (DnsRedirect p from to) =
     l4_text p @ '' dport '' @ num from @ '' redirect to :'' @ num to"
| "rule_body (AcceptIface expr dev) = expr @ '' '' @ quote dev @ '' accept''"

definition indented :: "nat \<Rightarrow> string \<Rightarrow> string" where
  "indented n s = replicate n (CHR 0x09) @ s @ [CHR 0x0A]"

record chain =
  ChainName :: string
  ChainHook :: "string option"
  ChainRules :: "nft_rule list"

definition chain_text :: "chain \<Rightarrow> string" where
  "chain_text c = indented 1 (''chain '' @ ChainName c @ '' {'') @
     (case ChainHook c of None \<Rightarrow> [] | Some h \<Rightarrow> indented 2 (''type '' @ h @ ''; policy accept;'')) @
     concat (map (indented 2 \<circ> rule_body) (ChainRules c)) @ indented 1 ''}'' @ [CHR 0x0A]"

section \<open>Sets\<close>

definition address_set :: "string \<Rightarrow> string list \<Rightarrow> string" where
  "address_set name elements = (if elements = [] then [] else
     indented 1 (''set '' @ name @ '' {'') @ indented 2 ''type ipv4_addr'' @
     indented 2 ''flags interval'' @ indented 2 ''auto-merge'' @
     indented 2 (''elements = { '' @ join '', '' elements @ '' }'') @ indented 1 ''}'' @ [CHR 0x0A])"

definition uid_set :: "32 word list \<Rightarrow> string" where
  "uid_set values = (if values = [] then [] else
     indented 1 ''set bypass_uids {'' @ indented 2 ''type uid'' @
     indented 2 (''elements = { '' @ join '', '' (map num values) @ '' }'') @
     indented 1 ''}'' @ [CHR 0x0A])"

section \<open>Chains\<close>

definition protocol_ports :: "l4 \<Rightarrow> port_end \<Rightarrow> 16 word list \<Rightarrow> bool \<Rightarrow> nft_rule list" where
  "protocol_ports p e ports neg = (if ports = [] then [] else [PortReturn p e neg ports])"

definition interface_bypass :: "gateway_plan \<Rightarrow> string \<Rightarrow> nft_rule list" where
  "interface_bypass plan expr =
     (if IncludeInterfaces plan = [] then [] else [IfaceReturn expr True (IncludeInterfaces plan)]) @
     (if ExcludeInterfaces plan = [] then [] else [IfaceReturn expr False (ExcludeInterfaces plan)])"

definition common_bypass ::
  "gateway_plan \<Rightarrow> string \<Rightarrow> bool \<Rightarrow> bool \<Rightarrow> bool \<Rightarrow> nft_rule list" where
  "common_bypass plan expr output reject_quic capture_chain =
     (let tcp = ports_of (BypassTCPPorts plan); udp = ports_of (BypassUDPPorts plan) in
      [LoopReturn (PlanLoopMark plan), ClassReturn] @
      (if output then [] else [LocalReturn]) @
      [DhcpReturn 67 68, DhcpReturn 68 67] @
      (if output then protocol_ports TCP Sport tcp False @ protocol_ports UDP Sport udp False
       else protocol_ports TCP Dport tcp False @ protocol_ports UDP Dport udp False) @
      (if output \<and> BypassUIDs plan \<noteq> [] then [UidReturn] else []) @
      (if output then [] else interface_bypass plan expr) @
      (if \<not> output \<and> SourceBypassCIDRs plan \<noteq> [] then [SourceReturn] else []) @
      (if reject_quic then [QuicReject] else []) @
      (if ProxyServerCIDRs plan \<noteq> [] then [ProxyReturn] else []) @
      (if (\<not> capture_chain \<or> \<not> CaptureCIDRsConfigured plan) \<and> BypassCIDRs plan \<noteq> []
       then [ReservedReturn] else []) @
      protocol_ports TCP Dport (ProxyOnlyTCPPorts plan) True @
      protocol_ports UDP Dport (ProxyOnlyUDPPorts plan) True)"

definition mark_rules :: "gateway_plan \<Rightarrow> nft_rule list" where
  "mark_rules plan = (let selective = CaptureCIDRsConfigured plan; m = Mode plan in
     (if uses_tproxy_tcp m then [SetMark selective TCP (TProxyMark plan)] else []) @
     (if uses_tproxy_udp m then [SetMark selective UDP (TProxyMark plan)] else []) @
     (if uses_tun_tcp m then [SetMark selective TCP (TUNMark plan)] else []) @
     (if uses_tun_udp m then [SetMark selective UDP (TUNMark plan)] else []))"

definition redirect_chain :: "gateway_plan \<Rightarrow> string \<Rightarrow> string \<Rightarrow> string \<Rightarrow> chain" where
  "redirect_chain plan name hook expr =
     \<lparr>ChainName = name, ChainHook = Some (''nat hook '' @ hook @ '' priority dstnat''),
      ChainRules = [DnatReturn] @ common_bypass plan expr (hook = ''output'') False True @
        [RedirectTCP (CaptureCIDRsConfigured plan) (RedirectPort plan)]\<rparr>"

definition dot_chain :: "gateway_plan \<Rightarrow> chain" where
  "dot_chain plan = \<lparr>ChainName = ''dot_block'',
     ChainHook = Some ''filter hook prerouting priority -160'',
     ChainRules = [LoopReturn (PlanLoopMark plan), ClassReturn, LocalReturn] @
       interface_bypass plan ''iifname'' @
       (if SourceBypassCIDRs plan \<noteq> [] then [SourceReturn] else []) @ [DotDrop TCP, DotDrop UDP]\<rparr>"

definition mark_chain :: "gateway_plan \<Rightarrow> chain" where
  "mark_chain plan = \<lparr>ChainName = ''mark_traffic'', ChainHook = None,
     ChainRules = common_bypass plan ''iifname'' False (RejectQUIC plan) True @ mark_rules plan\<rparr>"

definition mangle_chain :: chain where
  "mangle_chain = \<lparr>ChainName = ''prerouting_mangle'',
     ChainHook = Some ''filter hook prerouting priority mangle'', ChainRules = [DnatReturn, JumpMark]\<rparr>"

definition tproxy_chain :: "gateway_plan \<Rightarrow> chain" where
  "tproxy_chain plan = \<lparr>ChainName = ''prerouting_tproxy'',
     ChainHook = Some ''filter hook prerouting priority dstnat'',
     ChainRules =
       (if uses_tproxy_tcp (Mode plan) then [TproxyTo (TProxyMark plan) TCP (TProxyPort plan)] else []) @
       (if uses_tproxy_udp (Mode plan) then [TproxyTo (TProxyMark plan) UDP (TProxyPort plan)] else [])\<rparr>"

definition output_chain :: "gateway_plan \<Rightarrow> chain" where
  "output_chain plan = \<lparr>ChainName = ''output_mark'',
     ChainHook = Some ''route hook output priority mangle'',
     ChainRules = [DnatReturn] @ common_bypass plan ''oifname'' True False True @ mark_rules plan\<rparr>"

definition tun_chains :: "gateway_plan \<Rightarrow> chain list" where
  "tun_chains plan = (let dev = PlanTUNDevice plan in
     [\<lparr>ChainName = ''tun_input'', ChainHook = Some ''filter hook input priority -10'',
       ChainRules = [AcceptIface ''iifname'' dev]\<rparr>,
      \<lparr>ChainName = ''tun_forward'', ChainHook = Some ''filter hook forward priority -10'',
       ChainRules = [AcceptIface ''iifname'' dev, AcceptIface ''oifname'' dev]\<rparr>])"

definition dns_chain :: "gateway_plan \<Rightarrow> chain" where
  "dns_chain plan = \<lparr>ChainName = ''dns_redirect'',
     ChainHook = Some ''nat hook prerouting priority -155'',
     ChainRules = common_bypass plan ''iifname'' False False False @
       [DnsRedirect TCP (RouterDNSPort plan) (PlanDNSPort plan),
        DnsRedirect UDP (RouterDNSPort plan) (PlanDNSPort plan)]\<rparr>"

text \<open>The chains of a normalized plan, in the order of the source.\<close>

definition plan_chains :: "gateway_plan \<Rightarrow> chain list" where
  "plan_chains plan =
     (if BlockDoT plan then [dot_chain plan] else []) @
     [mark_chain plan, mangle_chain] @
     (if uses_tproxy_tcp (Mode plan) \<or> uses_tproxy_udp (Mode plan) then [tproxy_chain plan] else []) @
     (if uses_redirect_tcp (Mode plan)
      then [redirect_chain plan ''prerouting_redirect'' ''prerouting'' ''iifname''] else []) @
     (if InterceptOutput plan
      then output_chain plan # (if uses_redirect_tcp (Mode plan)
        then [redirect_chain plan ''output_redirect'' ''output'' ''oifname''] else []) else []) @
     (if uses_tun (Mode plan) then tun_chains plan else []) @
     (if DNSMode plan = ''redirect'' then [dns_chain plan] else [])"

section \<open>Ownership marks and the transaction\<close>

type_synonym plan_digest = "gateway_plan \<Rightarrow> string"

definition owner_prefix :: "gateway_plan \<Rightarrow> string" where
  "owner_prefix plan = ''managed-by='' @ Owner plan @ '' ''"

definition ownership_comment :: "plan_digest \<Rightarrow> gateway_plan \<Rightarrow> string" where
  "ownership_comment digest plan = ''managed-by='' @ Owner plan @ '' plan-sha256='' @ digest plan"

definition has_owner_prefix :: "string \<Rightarrow> gateway_plan \<Rightarrow> bool" where
  "has_owner_prefix comment plan \<longleftrightarrow> prefix (owner_prefix plan) comment"

definition ruleset_text :: "plan_digest \<Rightarrow> gateway_plan \<Rightarrow> string" where
  "ruleset_text digest plan =
     indented 0 (''table inet '' @ Table plan @ '' {'') @
     indented 1 (''comment '' @ quote (ownership_comment digest plan)) @
     address_set ''capture4'' (CaptureCIDRs plan) @ address_set ''bypass4'' (BypassCIDRs plan) @
     address_set ''source_bypass4'' (SourceBypassCIDRs plan) @
     address_set ''proxy_servers4'' (ProxyServerCIDRs plan) @ uid_set (BypassUIDs plan) @
     concat (map chain_text (plan_chains plan)) @ indented 0 ''}''"

definition render :: "plan_digest \<Rightarrow> gateway_plan \<Rightarrow> string fallible" where
  "render digest plan0 = (let plan = normalized_plan plan0 in
     case gateway_validate plan of
       Some e \<Rightarrow> Inl e
     | None \<Rightarrow> Inr (ruleset_text digest plan))"

end
