(* ===== verification/Gateway_Ruleset_Proofs.thy ===== *)
theory Gateway_Ruleset_Proofs
  imports Gateway_Ruleset Gateway_Plan_Proofs
begin

text \<open>
  What the rendered chains do to an IPv4 packet. \<open>run_rules\<close> gives the documented meaning of the
  nftables statements the renderer uses; the capture chains are shown to decide exactly as the plan
  says, and traffic of the core itself is shown to pass every chain unchanged.
\<close>

section \<open>Packets and the meaning of statements\<close>

record packet =
  pk_mark :: "32 word"
  pk_l4 :: "l4 option"
  pk_sport :: "16 word"
  pk_dport :: "16 word"
  pk_saddr :: "32 word"
  pk_daddr :: "32 word"
  pk_iif :: string
  pk_oif :: string
  pk_local :: bool
  pk_uid :: "32 word"
  pk_dnat :: bool

datatype effect =
    Goes_on | Returns | Rejects | Drops | Accepts
  | Redirects "16 word" | Tproxies "16 word" | Marks "32 word" | Jumps

definition in_cidrs :: "32 word \<Rightarrow> string list \<Rightarrow> bool" where
  "in_cidrs a vs \<longleftrightarrow> (\<exists>v \<in> set vs. case parse_ipv4_cidr v of
       Inr (Prefix (Addr4 w) (Some n)) \<Rightarrow> mask_word n a = mask_word n w
     | _ \<Rightarrow> False)"

definition selected :: "gateway_plan \<Rightarrow> bool \<Rightarrow> packet \<Rightarrow> bool" where
  "selected plan selective pk \<longleftrightarrow> selective \<longrightarrow> in_cidrs (pk_daddr pk) (CaptureCIDRs plan)"

definition iface :: "string \<Rightarrow> packet \<Rightarrow> string" where
  "iface expr pk = (if expr = ''iifname'' then pk_iif pk else pk_oif pk)"

definition port_at :: "port_end \<Rightarrow> packet \<Rightarrow> 16 word" where
  "port_at e pk = (case e of Sport \<Rightarrow> pk_sport pk | Dport \<Rightarrow> pk_dport pk)"

fun act :: "gateway_plan \<Rightarrow> packet \<Rightarrow> nft_rule \<Rightarrow> effect" where
  "act plan pk (LoopReturn m) = (if pk_mark pk = m then Returns else Goes_on)"
| "act plan pk ClassReturn = (if and (pk_mark pk) 0xFF00 \<noteq> 0 then Returns else Goes_on)"
| "act plan pk LocalReturn = (if pk_local pk then Returns else Goes_on)"
| "act plan pk (DhcpReturn s d) = (if pk_l4 pk = Some UDP \<and> pk_sport pk = of_nat s \<and>
     pk_dport pk = of_nat d then Returns else Goes_on)"
| "act plan pk (PortReturn p e neg ports) = (if pk_l4 pk = Some p \<and>
     (port_at e pk \<in> set ports) \<noteq> neg then Returns else Goes_on)"
| "act plan pk UidReturn = (if pk_uid pk \<in> set (BypassUIDs plan) then Returns else Goes_on)"
| "act plan pk (IfaceReturn expr neg names) =
     (if (iface expr pk \<in> set names) \<noteq> neg then Returns else Goes_on)"
| "act plan pk SourceReturn =
     (if in_cidrs (pk_saddr pk) (SourceBypassCIDRs plan) then Returns else Goes_on)"
| "act plan pk QuicReject =
     (if pk_l4 pk = Some UDP \<and> pk_dport pk = 443 then Rejects else Goes_on)"
| "act plan pk ProxyReturn =
     (if in_cidrs (pk_daddr pk) (ProxyServerCIDRs plan) then Returns else Goes_on)"
| "act plan pk ReservedReturn =
     (if in_cidrs (pk_daddr pk) (BypassCIDRs plan) then Returns else Goes_on)"
| "act plan pk (SetMark selective p m) =
     (if selected plan selective pk \<and> pk_l4 pk = Some p then Marks m else Goes_on)"
| "act plan pk (RedirectTCP selective port) =
     (if selected plan selective pk \<and> pk_l4 pk = Some TCP then Redirects port else Goes_on)"
| "act plan pk DnatReturn = (if pk_dnat pk then Returns else Goes_on)"
| "act plan pk JumpMark = Jumps"
| "act plan pk (TproxyTo m p port) =
     (if pk_mark pk = m \<and> pk_l4 pk = Some p then Tproxies port else Goes_on)"
| "act plan pk (DotDrop p) =
     (if pk_l4 pk = Some p \<and> pk_dport pk = 853 then Drops else Goes_on)"
| "act plan pk (DnsRedirect p from to) =
     (if pk_l4 pk = Some p \<and> pk_dport pk = from then Redirects to else Goes_on)"
| "act plan pk (AcceptIface expr dev) = (if iface expr pk = dev then Accepts else Goes_on)"

text \<open>
  A chain: a mark is set and the chain goes on, a jump goes on after the target returned, and
  every other effect ends it. \<open>jump\<close> is the chain a jump runs.
\<close>

fun run_rules :: "(packet \<Rightarrow> packet \<times> effect) \<Rightarrow> gateway_plan \<Rightarrow> packet \<Rightarrow> nft_rule list \<Rightarrow>
    packet \<times> effect" where
  "run_rules jump plan pk [] = (pk, Goes_on)"
| "run_rules jump plan pk (r # rs) = (case act plan pk r of
       Goes_on \<Rightarrow> run_rules jump plan pk rs
     | Marks m \<Rightarrow> run_rules jump plan (pk\<lparr>pk_mark := m\<rparr>) rs
     | Jumps \<Rightarrow> (case jump pk of (pk', e) \<Rightarrow>
         if e = Goes_on \<or> e = Returns then run_rules jump plan pk' rs else (pk', e))
     | e \<Rightarrow> (pk, e))"

definition run_mark :: "gateway_plan \<Rightarrow> packet \<Rightarrow> packet \<times> effect" where
  "run_mark plan pk = run_rules (\<lambda>p. (p, Goes_on)) plan pk (ChainRules (mark_chain plan))"

definition run_chain :: "gateway_plan \<Rightarrow> packet \<Rightarrow> chain \<Rightarrow> packet \<times> effect" where
  "run_chain plan pk c = run_rules (run_mark plan) plan pk (ChainRules c)"

section \<open>What the plan promises\<close>

definition dhcp :: "packet \<Rightarrow> bool" where
  "dhcp pk \<longleftrightarrow> pk_l4 pk = Some UDP \<and>
     (pk_sport pk = 67 \<and> pk_dport pk = 68 \<or> pk_sport pk = 68 \<and> pk_dport pk = 67)"

definition foreign_interface :: "gateway_plan \<Rightarrow> string \<Rightarrow> bool" where
  "foreign_interface plan i \<longleftrightarrow>
     (IncludeInterfaces plan \<noteq> [] \<and> i \<notin> set (IncludeInterfaces plan)) \<or> i \<in> set (ExcludeInterfaces plan)"

definition bypass_ports :: "gateway_plan \<Rightarrow> packet \<Rightarrow> 16 word \<Rightarrow> bool" where
  "bypass_ports plan pk port \<longleftrightarrow>
     (pk_l4 pk = Some TCP \<and> port \<in> set (ports_of (BypassTCPPorts plan))) \<or>
     (pk_l4 pk = Some UDP \<and> port \<in> set (ports_of (BypassUDPPorts plan)))"

text \<open>Traffic that is never considered: of forwarded packets and of the router's own.\<close>

definition spared :: "gateway_plan \<Rightarrow> string \<Rightarrow> bool \<Rightarrow> packet \<Rightarrow> bool" where
  "spared plan expr output pk \<longleftrightarrow>
     pk_mark pk = PlanLoopMark plan \<or> and (pk_mark pk) 0xFF00 \<noteq> 0 \<or> dhcp pk \<or>
     (if output then bypass_ports plan pk (pk_sport pk) \<or> pk_uid pk \<in> set (BypassUIDs plan)
      else pk_local pk \<or> bypass_ports plan pk (pk_dport pk) \<or>
        foreign_interface plan (iface expr pk) \<or> in_cidrs (pk_saddr pk) (SourceBypassCIDRs plan))"

text \<open>Traffic whose destination is not to be captured.\<close>

definition out_of_scope :: "gateway_plan \<Rightarrow> bool \<Rightarrow> packet \<Rightarrow> bool" where
  "out_of_scope plan capture_chain pk \<longleftrightarrow>
     in_cidrs (pk_daddr pk) (ProxyServerCIDRs plan) \<or>
     ((\<not> capture_chain \<or> \<not> CaptureCIDRsConfigured plan) \<and> in_cidrs (pk_daddr pk) (BypassCIDRs plan)) \<or>
     (ProxyOnlyTCPPorts plan \<noteq> [] \<and> pk_l4 pk = Some TCP \<and> pk_dport pk \<notin> set (ProxyOnlyTCPPorts plan)) \<or>
     (ProxyOnlyUDPPorts plan \<noteq> [] \<and> pk_l4 pk = Some UDP \<and> pk_dport pk \<notin> set (ProxyOnlyUDPPorts plan))"

definition blocked_quic :: "bool \<Rightarrow> packet \<Rightarrow> bool" where
  "blocked_quic reject pk \<longleftrightarrow> reject \<and> pk_l4 pk = Some UDP \<and> pk_dport pk = 443"

definition capture_mark :: "gateway_plan \<Rightarrow> l4 \<Rightarrow> 32 word option" where
  "capture_mark plan p = (case p of
       TCP \<Rightarrow> if uses_tproxy_tcp (Mode plan) then Some (TProxyMark plan)
         else if uses_tun_tcp (Mode plan) then Some (TUNMark plan) else None
     | UDP \<Rightarrow> if uses_tproxy_udp (Mode plan) then Some (TProxyMark plan)
         else if uses_tun_udp (Mode plan) then Some (TUNMark plan) else None)"

section \<open>Guards\<close>

text \<open>A list of statements that ends a chain with an effect exactly under a condition.\<close>

definition settles ::
  "gateway_plan \<Rightarrow> packet \<Rightarrow> nft_rule list \<Rightarrow> bool \<Rightarrow> effect \<Rightarrow> bool" where
  "settles plan pk rs b e \<longleftrightarrow> (\<forall>jump rest. run_rules jump plan pk (rs @ rest) =
     (if b then (pk, e) else run_rules jump plan pk rest))"

lemma settles_run: "settles plan pk rs b e \<Longrightarrow>
    run_rules jump plan pk (rs @ rest) = (if b then (pk, e) else run_rules jump plan pk rest)"
  by (simp add: settles_def)

lemma settles_append [intro]:
  "settles plan pk xs b e \<Longrightarrow> settles plan pk ys c e \<Longrightarrow> settles plan pk (xs @ ys) (b \<or> c) e"
  by (simp add: settles_def)

lemma settles_Nil [simp]: "settles plan pk [] b e \<longleftrightarrow> \<not> b \<or> (\<forall>jump rest. run_rules jump plan pk rest = (pk, e))"
  by (auto simp: settles_def)

lemma settles_single:
  assumes "act plan pk r = (if b then e else Goes_on)"
    and "e = Returns \<or> e = Rejects \<or> e = Drops"
  shows "settles plan pk [r] b e"
  using assms by (auto simp: settles_def)

lemma settles_if: "(c \<Longrightarrow> settles plan pk [r] b e) \<Longrightarrow> settles plan pk (if c then [r] else []) (c \<and> b) e"
  by (cases c) auto

lemma settles_ports: "settles plan pk (protocol_ports p e ports neg)
    (ports \<noteq> [] \<and> pk_l4 pk = Some p \<and> (port_at e pk \<in> set ports) \<noteq> neg) Returns"
  by (auto simp: protocol_ports_def intro!: settles_single)

lemma settles_interfaces:
  "settles plan pk (interface_bypass plan expr) (foreign_interface plan (iface expr pk)) Returns"
proof -
  let ?i = "iface expr pk"
  have "settles plan pk (interface_bypass plan expr)
      (IncludeInterfaces plan \<noteq> [] \<and> ?i \<notin> set (IncludeInterfaces plan) \<or>
       ExcludeInterfaces plan \<noteq> [] \<and> ?i \<in> set (ExcludeInterfaces plan)) Returns"
    unfolding interface_bypass_def
    by (intro settles_append) (auto intro!: settles_single)
  moreover have "(ExcludeInterfaces plan \<noteq> [] \<and> ?i \<in> set (ExcludeInterfaces plan)) =
      (?i \<in> set (ExcludeInterfaces plan))"
    by auto
  ultimately show ?thesis
    by (simp add: foreign_interface_def)
qed

text \<open>The three parts of the common prefix of a capture chain.\<close>

definition early :: "gateway_plan \<Rightarrow> string \<Rightarrow> bool \<Rightarrow> nft_rule list" where
  "early plan expr output =
     (let tcp = ports_of (BypassTCPPorts plan); udp = ports_of (BypassUDPPorts plan) in
      [LoopReturn (PlanLoopMark plan)] @ [ClassReturn] @
      (if output then [] else [LocalReturn]) @ [DhcpReturn 67 68] @ [DhcpReturn 68 67] @
      (if output then protocol_ports TCP Sport tcp False @ protocol_ports UDP Sport udp False
       else protocol_ports TCP Dport tcp False @ protocol_ports UDP Dport udp False) @
      (if output \<and> BypassUIDs plan \<noteq> [] then [UidReturn] else []) @
      (if output then [] else interface_bypass plan expr) @
      (if \<not> output \<and> SourceBypassCIDRs plan \<noteq> [] then [SourceReturn] else []))"

definition late :: "gateway_plan \<Rightarrow> bool \<Rightarrow> nft_rule list" where
  "late plan capture_chain =
     (if ProxyServerCIDRs plan \<noteq> [] then [ProxyReturn] else []) @
     (if (\<not> capture_chain \<or> \<not> CaptureCIDRsConfigured plan) \<and> BypassCIDRs plan \<noteq> []
      then [ReservedReturn] else []) @
     protocol_ports TCP Dport (ProxyOnlyTCPPorts plan) True @
     protocol_ports UDP Dport (ProxyOnlyUDPPorts plan) True"

lemma common_bypass_parts:
  "common_bypass plan expr output q cc =
   early plan expr output @ (if q then [QuicReject] else []) @ late plan cc"
  by (simp add: common_bypass_def early_def late_def Let_def)

lemma settles_marks:
  "settles plan pk [LoopReturn (PlanLoopMark plan)] (pk_mark pk = PlanLoopMark plan) Returns"
  "settles plan pk [ClassReturn] (and (pk_mark pk) 0xFF00 \<noteq> 0) Returns"
  "settles plan pk [LocalReturn] (pk_local pk) Returns"
  "settles plan pk [DhcpReturn 67 68]
    (pk_l4 pk = Some UDP \<and> pk_sport pk = 67 \<and> pk_dport pk = 68) Returns"
  "settles plan pk [DhcpReturn 68 67]
    (pk_l4 pk = Some UDP \<and> pk_sport pk = 68 \<and> pk_dport pk = 67) Returns"
  "settles plan pk (if c then [UidReturn] else []) (c \<and> pk_uid pk \<in> set (BypassUIDs plan)) Returns"
  "settles plan pk (if c then [SourceReturn] else [])
    (c \<and> in_cidrs (pk_saddr pk) (SourceBypassCIDRs plan)) Returns"
  "settles plan pk (if c then [ProxyReturn] else [])
    (c \<and> in_cidrs (pk_daddr pk) (ProxyServerCIDRs plan)) Returns"
  "settles plan pk (if c then [ReservedReturn] else [])
    (c \<and> in_cidrs (pk_daddr pk) (BypassCIDRs plan)) Returns"
  by (auto intro!: settles_if settles_single)

lemma settles_cong: "settles plan pk xs b e \<Longrightarrow> b = c \<Longrightarrow> settles plan pk xs c e"
  by simp

lemma settles_False: "settles plan pk [] False e"
  by simp

lemma in_cidrs_Nil [simp]: "\<not> in_cidrs a []"
  by (simp add: in_cidrs_def)

lemma in_cidrs_not_Nil: "(vs \<noteq> [] \<and> in_cidrs a vs) = in_cidrs a vs"
  by auto

lemmas guard_rules = settles_append settles_marks settles_ports settles_interfaces settles_False

lemma settles_early: "settles plan pk (early plan expr output) (spared plan expr output pk) Returns"
proof -
  have "settles plan pk (early plan expr True) (spared plan expr True pk) Returns"
    unfolding early_def Let_def simp_thms if_True if_False append_Nil append_Nil2
    by (rule settles_cong, (rule guard_rules)+)
      (auto simp: spared_def bypass_ports_def port_at_def dhcp_def)
  moreover have "settles plan pk (early plan expr False) (spared plan expr False pk) Returns"
    unfolding early_def Let_def simp_thms if_True if_False append_Nil append_Nil2
    by (rule settles_cong, (rule guard_rules)+)
      (auto simp: spared_def bypass_ports_def port_at_def dhcp_def)
  ultimately show ?thesis
    by (cases "output") simp_all
qed

lemma settles_late: "settles plan pk (late plan cc) (out_of_scope plan cc pk) Returns"
  unfolding late_def
  by (rule settles_cong, (rule guard_rules)+) (auto simp: out_of_scope_def port_at_def)

lemma settles_quic:
  "settles plan pk (if q then [QuicReject] else []) (blocked_quic q pk) Rejects"
  by (auto simp: blocked_quic_def intro!: settles_single)

text \<open>A chain that starts with the common prefix.\<close>

lemma run_common_bypass:
  "run_rules jump plan pk (common_bypass plan expr output q cc @ rest) =
    (if spared plan expr output pk then (pk, Returns)
     else if blocked_quic q pk then (pk, Rejects)
     else if out_of_scope plan cc pk then (pk, Returns)
     else run_rules jump plan pk rest)"
  unfolding common_bypass_parts append_assoc
  by (simp add: settles_run [OF settles_early] settles_run [OF settles_quic]
      settles_run [OF settles_late])

lemma run_mark_rules:
  "run_rules jump plan pk (mark_rules plan) =
    ((case Option.bind (pk_l4 pk) (capture_mark plan) of
        Some m \<Rightarrow> if selected plan (CaptureCIDRsConfigured plan) pk then pk\<lparr>pk_mark := m\<rparr> else pk
      | None \<Rightarrow> pk), Goes_on)"
proof (cases "pk_l4 pk")
  case (Some p)
  then show ?thesis
    by (cases p; cases "selected plan (CaptureCIDRsConfigured plan) pk")
      (auto simp: mark_rules_def Let_def capture_mark_def uses_tproxy_tcp_def uses_tproxy_udp_def
        uses_tun_tcp_def uses_tun_udp_def)
qed (simp add: mark_rules_def Let_def)

section \<open>The decision of the capture chains\<close>

definition marked :: "gateway_plan \<Rightarrow> packet \<Rightarrow> packet" where
  "marked plan pk = (case Option.bind (pk_l4 pk) (capture_mark plan) of
       Some m \<Rightarrow> if selected plan (CaptureCIDRsConfigured plan) pk then pk\<lparr>pk_mark := m\<rparr> else pk
     | None \<Rightarrow> pk)"

text \<open>
  C21. The capture chains decide as the plan says. The prerouting mark chain leaves exempt packets
  alone (marked by the core or by another subsystem, local, DHCP, a bypassed port, a foreign
  interface, a bypassed source), rejects QUIC when asked to, leaves destinations out of scope
  alone (proxy servers, reserved networks unless a capture list is configured, ports outside an
  exclusive list), and marks the rest for the listener the mode assigns to its protocol,
  only inside the capture list if there is one. The output chain decides the same with the rules
  of the router's own traffic, and a redirect chain sends the TCP part to the redirect port.
\<close>

theorem capture_decision:
  "run_mark plan pk =
     (if spared plan ''iifname'' False pk then (pk, Returns)
      else if blocked_quic (RejectQUIC plan) pk then (pk, Rejects)
      else if out_of_scope plan True pk then (pk, Returns) else (marked plan pk, Goes_on)) \<and>
   run_chain plan pk (output_chain plan) =
     (if pk_dnat pk \<or> spared plan ''oifname'' True pk \<or> out_of_scope plan True pk
      then (pk, Returns) else (marked plan pk, Goes_on)) \<and>
   run_chain plan pk (redirect_chain plan name hook expr) =
     (if pk_dnat pk \<or> spared plan expr (hook = ''output'') pk \<or> out_of_scope plan True pk
      then (pk, Returns)
      else (pk, if selected plan (CaptureCIDRsConfigured plan) pk \<and> pk_l4 pk = Some TCP
          then Redirects (RedirectPort plan) else Goes_on))"
  by (auto simp: run_mark_def mark_chain_def run_chain_def output_chain_def redirect_chain_def
      run_common_bypass run_mark_rules marked_def blocked_quic_def)

text \<open>A packet that passes a chain: nothing about it is changed and it is not taken.\<close>

definition passes :: "gateway_plan \<Rightarrow> packet \<Rightarrow> chain \<Rightarrow> bool" where
  "passes plan pk c \<longleftrightarrow> fst (run_chain plan pk c) = pk \<and>
     snd (run_chain plan pk c) \<in> {Goes_on, Returns, Accepts}"

lemma passes_common_prefix:
  assumes "pk_mark pk = PlanLoopMark plan" and "ChainRules c = xs @ common_bypass plan expr out q cc @ ys"
    and "xs = [] \<or> xs = [DnatReturn]"
  shows "passes plan pk c"
proof -
  have "spared plan expr out pk"
    using assms(1) by (simp add: spared_def)
  then show ?thesis
    using assms(2,3) by (auto simp: passes_def run_chain_def run_common_bypass)
qed

lemma validated_marks:
  "gateway_validate p = None \<Longrightarrow> PlanLoopMark (normalized_plan p) \<noteq> TProxyMark (normalized_plan p)"
proof -
  assume "gateway_validate p = None"
  then have "\<forall>c \<in> set (plan_checks (normalized_plan p)). c = None"
    by (simp add: gateway_validate_def first_error_None)
  then show ?thesis
    by (auto simp: plan_checks_def)
qed

text \<open>
  C20. The core's own connections are never captured. In every chain rendered for a valid plan a
  packet that carries the loop mark keeps its mark and its destination: it is not
  marked, redirected, handed to a transparent listener, rejected or dropped.
\<close>

theorem core_traffic_passes:
  assumes "gateway_validate p = None" and "plan = normalized_plan p" and "c \<in> set (plan_chains plan)"
    and "pk_mark pk = PlanLoopMark plan"
  shows "fst (run_chain plan pk c) = pk \<and> snd (run_chain plan pk c) \<in> {Goes_on, Returns, Accepts}"
proof -
  note loop = assms(4)
  have "TProxyMark plan \<noteq> PlanLoopMark plan"
    using validated_marks [OF assms(1)] assms(2) by simp
  then have "passes plan pk (tproxy_chain plan)"
    using loop by (simp add: passes_def run_chain_def tproxy_chain_def)
  moreover have "passes plan pk (mark_chain plan)"
    by (rule passes_common_prefix [OF loop, of _ "[]"]) (simp_all add: mark_chain_def)
  moreover from this have "passes plan pk mangle_chain"
    by (auto simp: passes_def run_chain_def mangle_chain_def run_mark_def mark_chain_def
        common_bypass_def Let_def loop)
  moreover have "passes plan pk (dot_chain plan)"
    using loop by (simp add: passes_def run_chain_def dot_chain_def)
  moreover have "passes plan pk (output_chain plan)"
    by (rule passes_common_prefix [OF loop, of _ "[DnatReturn]"]) (simp_all add: output_chain_def)
  moreover have "passes plan pk (redirect_chain plan name hook expr)" for name hook expr
    by (rule passes_common_prefix [OF loop, of _ "[DnatReturn]"]) (simp_all add: redirect_chain_def)
  moreover have "passes plan pk (dns_chain plan)"
    by (rule passes_common_prefix [OF loop, of _ "[]"]) (simp_all add: dns_chain_def)
  moreover have "passes plan pk d" if "d \<in> set (tun_chains plan)" for d
    using that by (auto simp: Let_def tun_chains_def passes_def run_chain_def split: if_splits)
  ultimately have "passes plan pk c"
    using assms(3) by (auto simp: plan_chains_def split: if_splits)
  then show ?thesis
    by (simp add: passes_def)
qed

definition core_packet :: packet where
  "core_packet = \<lparr>pk_mark = 2, pk_l4 = Some TCP, pk_sport = 40000, pk_dport = 443, pk_saddr = 0,
     pk_daddr = 0xC6120001, pk_iif = ''lo'', pk_oif = ''wan'', pk_local = False, pk_uid = 0,
     pk_dnat = False\<rparr>"

lemma core_traffic_passes_witness:
  "fst (run_chain (normalized_plan fake_ip_plan) core_packet (mark_chain (normalized_plan fake_ip_plan)))
    = core_packet"
proof -
  have "mark_chain (normalized_plan fake_ip_plan) \<in> set (plan_chains (normalized_plan fake_ip_plan))"
    by (simp add: plan_chains_def)
  moreover have "pk_mark core_packet = PlanLoopMark (normalized_plan fake_ip_plan)"
    by (simp add: core_packet_def plan_eval)
  ultimately show ?thesis
    using core_traffic_passes [OF fake_ip_plan_validates refl] by blast
qed

end
