(* ===== verification/Gateway_Apply.thy ===== *)
theory Gateway_Apply
  imports Gateway_Ruleset Policy_Routes
begin

text \<open>
  Applying a gateway plan: the inspection of the owned table and of the fw4 rules
  (\<^verbatim>\<open>internal/platform/openwrt/firewall.go\<close>), and \<open>Check\<close>, \<open>Apply\<close> and \<open>Cleanup\<close> of
  \<^verbatim>\<open>gateway.go\<close>. The digest of a plan and the decoding of a JSON listing are parameters.
\<close>

section \<open>Listings\<close>

record nft_table =
  TableFamily :: string
  TableName :: string
  TableComment :: string

record fw_rule =
  FwFamily :: string
  FwTable :: string
  FwChain :: string
  FwHandle :: "64 word"
  FwComment :: string

text \<open>
  The parameters: the SHA-256 digest of the encoded plan, and the decoders of the two listings,
  which give for each object of the listing its table or rule, if it is one.
\<close>

record gateway_env =
  Digest :: plan_digest
  DecodeTables :: "string \<Rightarrow> nft_table option list fallible"
  DecodeRules :: "string \<Rightarrow> fw_rule option list fallible"

record check_result =
  Exists :: bool
  TableOwned :: bool
  PlanMatches :: bool
  PolicyMatches :: bool
  FirewallMatches :: bool
  Comment :: string

definition no_table :: check_result where
  "no_table = \<lparr>Exists = False, TableOwned = False, PlanMatches = False, PolicyMatches = False,
     FirewallMatches = False, Comment = []\<rparr>"

record firewall_state =
  FwExists :: bool
  OwnedRules :: "fw_rule list"
  FwPlanMatches :: bool

definition no_firewall :: firewall_state where
  "no_firewall = \<lparr>FwExists = False, OwnedRules = [], FwPlanMatches = False\<rparr>"

definition nft_command :: "string list \<Rightarrow> string \<Rightarrow> command" where
  "nft_command args input = \<lparr>CmdName = ''nft'', CmdArgs = args, CmdStdin = input\<rparr>"

definition list_table_command :: "gateway_plan \<Rightarrow> command" where
  "list_table_command plan = nft_command [''-j'', ''list'', ''table'', ''inet'', Table plan] []"

definition list_fw4_command :: command where
  "list_fw4_command = nft_command [''-j'', ''-a'', ''list'', ''table'', ''inet'', ''fw4''] []"

definition dry_run_command :: "string \<Rightarrow> command" where
  "dry_run_command text = nft_command [''-c'', ''-f'', ''-''] text"

definition commit_command :: "string \<Rightarrow> command" where
  "commit_command text = nft_command [''-f'', ''-''] text"

definition nft_object_missing :: "string \<Rightarrow> bool" where
  "nft_object_missing stderr \<longleftrightarrow> (let message = lower_ascii stderr in
     contains message ''no such file'' \<or> contains message ''does not exist'' \<or>
     contains message ''not found'')"

definition table_result :: "gateway_env \<Rightarrow> gateway_plan \<Rightarrow> nft_table \<Rightarrow> check_result" where
  "table_result env plan t = no_table\<lparr>Exists := True,
     TableOwned := has_owner_prefix (TableComment t) plan,
     PlanMatches := (TableComment t = ownership_comment (Digest env) plan),
     Comment := TableComment t\<rparr>"

definition read_table :: "gateway_env \<Rightarrow> gateway_plan \<Rightarrow> cmd_result \<Rightarrow> check_result fallible" where
  "read_table env plan r =
     (if ExitCode r \<noteq> 0 then
        if nft_object_missing (Stderr r) then Inr no_table
        else Inl (Err (''openwrt: inspect nft table: exit '' @ int_text (ExitCode r) @ '': '' @
          trim_space (Stderr r)))
      else case DecodeTables env (Stdout r) of
        Inl e \<Rightarrow> Inl (Wrap ''openwrt: parse nft table JSON'' e)
      | Inr objects \<Rightarrow>
          (case find (\<lambda>t. TableFamily t = ''inet'' \<and> TableName t = Table plan)
              (List.map_filter id objects) of
             Some t \<Rightarrow> Inr (table_result env plan t)
           | None \<Rightarrow> Inl (Err ''openwrt: nft returned no matching table object'')))"

definition inspect_gateway_table ::
  "'w runner \<Rightarrow> gateway_env \<Rightarrow> gateway_plan \<Rightarrow> ('w, check_result fallible) state" where
  "inspect_gateway_table run env plan = do {
     answer \<leftarrow> run (list_table_command plan);
     State_Monad.return (case answer of Inl e \<Rightarrow> Inl e | Inr r \<Rightarrow> read_table env plan r) }"

section \<open>The fw4 rules\<close>

definition expected_firewall_comments :: "gateway_env \<Rightarrow> gateway_plan \<Rightarrow> string list" where
  "expected_firewall_comments env plan = (if \<not> uses_tun (Mode plan) then [] else
     (let base = ownership_comment (Digest env) plan in
      [base @ '' role=tun-input'', base @ '' role=tun-forward-input'',
       base @ '' role=tun-forward-output'']))"

text \<open>The owned rules of a listing; the first one in a wrong place is an error.\<close>

fun owned_fw_rules :: "gateway_plan \<Rightarrow> fw_rule option list \<Rightarrow> fw_rule list \<Rightarrow> fw_rule list fallible" where
  "owned_fw_rules plan [] acc = Inr acc"
| "owned_fw_rules plan (None # objects) acc = owned_fw_rules plan objects acc"
| "owned_fw_rules plan (Some r # objects) acc =
     (if FwFamily r \<noteq> ''inet'' \<or> FwTable r \<noteq> ''fw4'' \<or> \<not> has_owner_prefix (FwComment r) plan
      then owned_fw_rules plan objects acc
      else if FwChain r \<noteq> ''input'' \<and> FwChain r \<noteq> ''forward''
      then Inl (Err (''openwrt: owned fw4 rule is in unexpected chain '' @ quote (FwChain r)))
      else if FwHandle r = 0 then Inl (Err ''openwrt: owned fw4 rule lacks a handle'')
      else owned_fw_rules plan objects (acc @ [r]))"

definition read_firewall :: "gateway_env \<Rightarrow> gateway_plan \<Rightarrow> cmd_result \<Rightarrow> firewall_state fallible" where
  "read_firewall env plan r =
     (if ExitCode r \<noteq> 0 then
        if nft_object_missing (Stderr r)
        then Inr (no_firewall\<lparr>FwPlanMatches := (expected_firewall_comments env plan = [])\<rparr>)
        else Inl (Err (''openwrt: inspect fw4 rules: exit '' @ int_text (ExitCode r) @ '': '' @
          trim_space (Stderr r)))
      else case DecodeRules env (Stdout r) of
        Inl e \<Rightarrow> Inl (Wrap ''openwrt: parse fw4 JSON'' e)
      | Inr objects \<Rightarrow> (case owned_fw_rules plan objects [] of
            Inl e \<Rightarrow> Inl e
          | Inr rules \<Rightarrow> Inr \<lparr>FwExists = True, OwnedRules = rules, FwPlanMatches =
              (sort (map FwComment rules) = sort (expected_firewall_comments env plan))\<rparr>))"

definition inspect_firewall_rules ::
  "'w runner \<Rightarrow> gateway_env \<Rightarrow> gateway_plan \<Rightarrow> ('w, firewall_state fallible) state" where
  "inspect_firewall_rules run env plan = do {
     answer \<leftarrow> run list_fw4_command;
     State_Monad.return (case answer of Inl e \<Rightarrow> Inl e | Inr r \<Rightarrow> read_firewall env plan r) }"

definition delete_rule_text :: "fw_rule \<Rightarrow> string" where
  "delete_rule_text r = indented 0
     (''delete rule inet fw4 '' @ FwChain r @ '' handle '' @ dec (unat (FwHandle r)))"

definition insert_rule_text :: "string \<Rightarrow> string \<Rightarrow> string \<Rightarrow> string \<Rightarrow> string" where
  "insert_rule_text chn expr dev comment = indented 0
     (''insert rule inet fw4 '' @ chn @ '' '' @ expr @ '' '' @ quote dev @ '' counter accept comment '' @
      quote comment)"

definition firewall_reconcile ::
  "gateway_env \<Rightarrow> gateway_plan \<Rightarrow> firewall_state \<Rightarrow> string fallible" where
  "firewall_reconcile env plan current =
     (let deletions = concat (map delete_rule_text (OwnedRules current));
          base = ownership_comment (Digest env) plan; dev = PlanTUNDevice plan in
      if \<not> uses_tun (Mode plan) then Inr deletions
      else if \<not> FwExists current then Inl (Err ''openwrt: inet fw4 is required for TUN forwarding'')
      else Inr (deletions @
        insert_rule_text ''input'' ''iifname'' dev (base @ '' role=tun-input'') @
        insert_rule_text ''forward'' ''iifname'' dev (base @ '' role=tun-forward-input'') @
        insert_rule_text ''forward'' ''oifname'' dev (base @ '' role=tun-forward-output'')))"

section \<open>Check\<close>

definition check_gateway ::
  "'w runner \<Rightarrow> gateway_env \<Rightarrow> gateway_plan \<Rightarrow> ('w, check_result \<times> gerror option) state" where
  "check_gateway run env plan0 = (let plan = normalized_plan plan0 in
     case gateway_validate plan of
       Some e \<Rightarrow> State_Monad.return (no_table, Some e)
     | None \<Rightarrow> do {
         inspected \<leftarrow> inspect_gateway_table run env plan;
         case inspected of
           Inl e \<Rightarrow> State_Monad.return (no_table, Some e)
         | Inr result \<Rightarrow>
             if \<not> Exists result \<or> \<not> TableOwned result \<or> \<not> PlanMatches result
             then State_Monad.return (result, None)
             else do {
               policy \<leftarrow> check_policy_routes run plan;
               case policy of
                 Inl e \<Rightarrow> State_Monad.return (result, Some e)
               | Inr matches \<Rightarrow> do {
                   firewall \<leftarrow> inspect_firewall_rules run env plan;
                   State_Monad.return (case firewall of
                       Inl e \<Rightarrow> (result\<lparr>PolicyMatches := matches, FirewallMatches := False\<rparr>, Some e)
                     | Inr fw \<Rightarrow> (result\<lparr>PolicyMatches := matches,
                         FirewallMatches := FwPlanMatches fw\<rparr>, None)) } } })"

section \<open>Apply\<close>

definition delete_table_text :: "gateway_plan \<Rightarrow> string" where
  "delete_table_text plan = indented 0 (''delete table inet '' @ Table plan)"

text \<open>The transaction: the table is replaced unless it matches, and so are the fw4 rules.\<close>

definition transaction_text ::
  "gateway_env \<Rightarrow> gateway_plan \<Rightarrow> string \<Rightarrow> check_result \<Rightarrow> firewall_state \<Rightarrow> string fallible" where
  "transaction_text env plan rendered current firewall =
     (let replaced = (if PlanMatches current then []
        else (if Exists current then delete_table_text plan else []) @ rendered) in
      if FwPlanMatches firewall then Inr replaced
      else map_sum id (\<lambda>rules. replaced @ rules) (firewall_reconcile env plan firewall))"

text \<open>After a failure, the policy is removed only if there was no table before.\<close>

definition undo_policy ::
  "'w runner \<Rightarrow> gateway_plan \<Rightarrow> check_result \<Rightarrow> gerror \<Rightarrow> ('w, gerror option) state" where
  "undo_policy run plan current e =
     (if Exists current then State_Monad.return (Some e)
      else do {
        cleaned \<leftarrow> cleanup_policy_routes run plan;
        State_Monad.return (errors_join [Some e, cleaned]) })"

definition commit_transaction ::
  "'w runner \<Rightarrow> gateway_plan \<Rightarrow> check_result \<Rightarrow> string \<Rightarrow> ('w, gerror option) state" where
  "commit_transaction run plan current text = do {
     checked \<leftarrow> run_unit run (dry_run_command text);
     case checked of
       Some e \<Rightarrow> State_Monad.return (Some (Wrap ''openwrt: nft preflight'' e))
     | None \<Rightarrow> do {
         reconciled \<leftarrow> reconcile_policy_routes run plan;
         case reconciled of
           Some e \<Rightarrow> undo_policy run plan current e
         | None \<Rightarrow> do {
             committed \<leftarrow> run_unit run (commit_command text);
             case committed of
               Some e \<Rightarrow> undo_policy run plan current (Wrap ''openwrt: apply nft gateway'' e)
             | None \<Rightarrow> State_Monad.return None } } }"

text \<open>The part of \<open>Apply\<close> that has seen the table and the fw4 rules.\<close>

definition apply_observed ::
  "'w runner \<Rightarrow> gateway_env \<Rightarrow> gateway_plan \<Rightarrow> string \<Rightarrow> check_result \<Rightarrow> firewall_state \<Rightarrow>
   ('w, gerror option) state" where
  "apply_observed run env plan rendered current firewall =
     (if PlanMatches current \<and> FwPlanMatches firewall then reconcile_policy_routes run plan
      else case transaction_text env plan rendered current firewall of
        Inl e \<Rightarrow> State_Monad.return (Some e)
      | Inr text \<Rightarrow> commit_transaction run plan current text)"

definition foreign_table_error :: "string \<Rightarrow> gateway_plan \<Rightarrow> gerror" where
  "foreign_table_error verb plan =
     Err (''openwrt: refusing to '' @ verb @ '' foreign nft table inet '' @ Table plan)"

definition apply_gateway ::
  "'w runner \<Rightarrow> gateway_env \<Rightarrow> gateway_plan \<Rightarrow> ('w, gerror option) state" where
  "apply_gateway run env plan0 = (let plan = normalized_plan plan0 in
     case gateway_validate plan of
       Some e \<Rightarrow> State_Monad.return (Some e)
     | None \<Rightarrow>
         (case render (Digest env) plan of
            Inl e \<Rightarrow> State_Monad.return (Some e)
          | Inr rendered \<Rightarrow> do {
              inspected \<leftarrow> inspect_gateway_table run env plan;
              case inspected of
                Inl e \<Rightarrow> State_Monad.return (Some e)
              | Inr current \<Rightarrow>
                  if Exists current \<and> \<not> TableOwned current
                  then State_Monad.return (Some (foreign_table_error ''replace'' plan))
                  else do {
                    listed \<leftarrow> inspect_firewall_rules run env plan;
                    case listed of
                      Inl e \<Rightarrow> State_Monad.return (Some e)
                    | Inr firewall \<Rightarrow> apply_observed run env plan rendered current firewall } }))"

section \<open>Cleanup\<close>

definition cleanup_text :: "gateway_plan \<Rightarrow> firewall_state \<Rightarrow> bool \<Rightarrow> string" where
  "cleanup_text plan firewall delete_table = concat (map delete_rule_text (OwnedRules firewall)) @
     (if delete_table then delete_table_text plan else [])"

definition cleanup_nft ::
  "'w runner \<Rightarrow> gateway_plan \<Rightarrow> firewall_state \<Rightarrow> bool \<Rightarrow> ('w, gerror option) state" where
  "cleanup_nft run plan firewall delete_table =
     (if \<not> delete_table \<and> OwnedRules firewall = [] then State_Monad.return None
      else do {
        let text = cleanup_text plan firewall delete_table;
        checked \<leftarrow> run_unit run (dry_run_command text);
        (case checked of
           Some e \<Rightarrow> State_Monad.return (Some (Wrap ''openwrt: cleanup nft preflight'' e))
         | None \<Rightarrow> run_unit run (commit_command text)) })"

definition cleanup_gateway ::
  "'w runner \<Rightarrow> gateway_env \<Rightarrow> gateway_plan \<Rightarrow> ('w, gerror option) state" where
  "cleanup_gateway run env plan0 = (let plan = normalized_plan plan0 in
     case gateway_validate plan of
       Some e \<Rightarrow> State_Monad.return (Some e)
     | None \<Rightarrow> do {
         inspected \<leftarrow> inspect_gateway_table run env plan;
         let current = (case inspected of Inl _ \<Rightarrow> no_table | Inr c \<Rightarrow> c);
         let table_err = (case inspected of Inl e \<Rightarrow> Some e | Inr _ \<Rightarrow> None);
         let ownership_err = (if Exists current \<and> \<not> TableOwned current
           then Some (foreign_table_error ''delete'' plan) else None);
         listed \<leftarrow> inspect_firewall_rules run env plan;
         let firewall = (case listed of Inl _ \<Rightarrow> no_firewall | Inr fw \<Rightarrow> fw);
         let firewall_err = (case listed of Inl e \<Rightarrow> Some e | Inr _ \<Rightarrow> None);
         nft_err \<leftarrow> cleanup_nft run plan firewall
           (table_err = None \<and> ownership_err = None \<and> Exists current);
         policy_err \<leftarrow> cleanup_policy_routes run plan;
         State_Monad.return
           (errors_join [table_err, ownership_err, firewall_err, nft_err, policy_err]) })"

end
