(* ===== verification/Gateway_Apply_Proofs.thy ===== *)
theory Gateway_Apply_Proofs
  imports Gateway_Apply Policy_Safety
begin

text \<open>
  Ownership when a gateway plan is applied or removed: under the runner contract every nftables
  transaction is a function of what the same run has observed, has passed a dry run, and
  touches the table only if it is absent or carries the owner's mark.
\<close>

section \<open>What a transcript shows of nftables\<close>

definition saw_table :: "gateway_env \<Rightarrow> gateway_plan \<Rightarrow> transcript \<Rightarrow> check_result \<Rightarrow> bool" where
  "saw_table env plan tr current \<longleftrightarrow>
     (\<exists>r. (list_table_command plan, Inr r) \<in> set tr \<and> read_table env plan r = Inr current)"

definition saw_firewall :: "gateway_env \<Rightarrow> gateway_plan \<Rightarrow> transcript \<Rightarrow> firewall_state \<Rightarrow> bool" where
  "saw_firewall env plan tr firewall \<longleftrightarrow>
     (\<exists>r. (list_fw4_command, Inr r) \<in> set tr \<and> read_firewall env plan r = Inr firewall)"

definition dry_run :: "transcript \<Rightarrow> string \<Rightarrow> bool" where
  "dry_run tr text \<longleftrightarrow> (\<exists>r. (dry_run_command text, Inr r) \<in> set tr \<and> ExitCode r = 0)"

definition nft_query :: "gateway_plan \<Rightarrow> command \<Rightarrow> bool" where
  "nft_query plan c \<longleftrightarrow> c = list_table_command plan \<or> c = list_fw4_command \<or>
     (\<exists>text. c = dry_run_command text)"

text \<open>A commit of \<open>Apply\<close>: the transaction of the observed state, tried and after the policy.\<close>

definition apply_commit :: "gateway_env \<Rightarrow> gateway_plan \<Rightarrow> transcript \<Rightarrow> command \<Rightarrow> bool" where
  "apply_commit env plan tr c \<longleftrightarrow> (\<exists>text current firewall. c = commit_command text \<and>
     saw_table env plan tr current \<and> (Exists current \<longrightarrow> TableOwned current) \<and>
     saw_firewall env plan tr firewall \<and>
     (\<exists>rendered. render (Digest env) plan = Inr rendered \<and>
       transaction_text env plan rendered current firewall = Inr text) \<and>
     dry_run tr text \<and> installed (policy_routes plan) tr)"

definition apply_may :: "gateway_env \<Rightarrow> gateway_plan \<Rightarrow> transcript \<Rightarrow> command \<Rightarrow> bool" where
  "apply_may env plan tr c \<longleftrightarrow> nft_query plan c \<or> apply_commit env plan tr c \<or>
     ((\<exists>current. saw_table env plan tr current \<and> (Exists current \<longrightarrow> TableOwned current)) \<and>
      (\<exists>firewall. saw_firewall env plan tr firewall) \<and>
      reconcile_may (policy_routes plan) tr c) \<or>
     ((\<exists>current. saw_table env plan tr current \<and> \<not> Exists current) \<and>
      cleanup_may (policy_routes plan) tr c)"

text \<open>A commit of \<open>Cleanup\<close>: deletions of owned things only.\<close>

definition cleanup_commit :: "gateway_env \<Rightarrow> gateway_plan \<Rightarrow> transcript \<Rightarrow> command \<Rightarrow> bool" where
  "cleanup_commit env plan tr c \<longleftrightarrow> (\<exists>firewall delete_table.
     c = commit_command (cleanup_text plan firewall delete_table) \<and>
     (firewall = no_firewall \<or> saw_firewall env plan tr firewall) \<and>
     (\<forall>r \<in> set (OwnedRules firewall). has_owner_prefix (FwComment r) plan \<and>
       FwChain r \<in> {''input'', ''forward''}) \<and>
     (delete_table \<longrightarrow> (\<exists>current. saw_table env plan tr current \<and> Exists current \<and> TableOwned current)) \<and>
     dry_run tr (cleanup_text plan firewall delete_table))"

definition remove_may :: "gateway_env \<Rightarrow> gateway_plan \<Rightarrow> transcript \<Rightarrow> command \<Rightarrow> bool" where
  "remove_may env plan tr c \<longleftrightarrow> nft_query plan c \<or> cleanup_commit env plan tr c \<or>
     cleanup_may (policy_routes plan) tr c"

text \<open>What an inspection reads as owned is owned.\<close>

lemma owned_fw_rules_owned:
  "owned_fw_rules plan objects acc = Inr rules \<Longrightarrow> r \<in> set rules \<Longrightarrow>
   r \<in> set acc \<or> Some r \<in> set objects \<and> has_owner_prefix (FwComment r) plan \<and>
     FwChain r \<in> {''input'', ''forward''}"
  by (induction plan objects acc rule: owned_fw_rules.induct) (auto split: if_splits)

lemma read_firewall_owned: "read_firewall env plan r = Inr firewall \<Longrightarrow>
    OwnedRules firewall = [] \<or> (\<exists>objects. owned_fw_rules plan objects [] = Inr (OwnedRules firewall))"
  by (auto simp: read_firewall_def no_firewall_def split: if_splits sum.splits)

lemma saw_firewall_owned:
  assumes "saw_firewall env plan tr firewall" and "r \<in> set (OwnedRules firewall)"
  shows "has_owner_prefix (FwComment r) plan \<and> FwChain r \<in> {''input'', ''forward''}"
proof -
  obtain r' where "read_firewall env plan r' = Inr firewall"
    using assms(1) by (auto simp: saw_firewall_def)
  then obtain objects where "owned_fw_rules plan objects [] = Inr (OwnedRules firewall)"
    using assms(2) read_firewall_owned by fastforce
  from owned_fw_rules_owned [OF this assms(2)] show ?thesis
    by simp
qed

lemma saw_mono:
  assumes "set tr \<subseteq> set tr'"
  shows "saw_table env plan tr current \<Longrightarrow> saw_table env plan tr' current"
    and "saw_firewall env plan tr firewall \<Longrightarrow> saw_firewall env plan tr' firewall"
    and "dry_run tr text \<Longrightarrow> dry_run tr' text"
    and "installed (policy_routes plan) tr \<Longrightarrow> installed (policy_routes plan) tr'"
  unfolding saw_table_def saw_firewall_def dry_run_def installed_def
  using assms shown_mono(4,5) [OF assms] by blast+

section \<open>Runs inside a run\<close>

lemma disciplined_append:
  assumes "disciplined P xs" and may: "\<And>zs c. Q zs c \<Longrightarrow> P (xs @ zs) c"
  shows "disciplined Q ys \<Longrightarrow> disciplined P (xs @ ys)"
proof (induction ys rule: rev_induct)
  case (snoc y ys)
  obtain c r where y: "y = (c, r)"
    by (cases y)
  have "disciplined Q ys" "Q ys c"
    using snoc.prems by (simp_all add: y)
  then have "disciplined P (xs @ ys)" "P (xs @ ys) c"
    using snoc.IH may by simp_all
  then have "disciplined P ((xs @ ys) @ [(c, r)])"
    by (simp only: disciplined_snoc)
  then show ?case
    by (simp add: y)
qed (use assms(1) in simp)

lemma owned_mono:
  assumes "set tr \<subseteq> set tr'"
  shows "owned_deletion routes tr c \<Longrightarrow> owned_deletion routes tr' c"
    and "owned_flush routes tr c \<Longrightarrow> owned_flush routes tr' c"
  unfolding owned_deletion_def owned_flush_def using shown_mono(1,2) [OF assms] by blast+

lemma reconcile_may_mono:
  assumes "set tr \<subseteq> set tr'"
  shows "reconcile_may routes tr c \<Longrightarrow> reconcile_may routes tr' c"
  unfolding reconcile_may_def
  using shown_mono(3,4) [OF assms] owned_mono [OF assms] by blast

lemma cleanup_may_mono:
  assumes "set tr \<subseteq> set tr'"
  shows "cleanup_may routes tr c \<Longrightarrow> cleanup_may routes tr' c"
  unfolding cleanup_may_def using owned_mono [OF assms] by blast

context command_runner
begin

lemma since_trans:
  "asked w1 = asked w0 @ since w0 w1 \<Longrightarrow> asked w2 = asked w1 @ since w1 w2 \<Longrightarrow>
   since w0 w2 = since w0 w1 @ since w1 w2"
  unfolding since_def [of w0 w2] by simp

text \<open>A program known from its own start, run inside a longer run.\<close>

lemma told_inside:
  assumes outer: "told P w0 w1" and inner: "told Q w1 w2"
    and may: "\<And>zs c. Q zs c \<Longrightarrow> P (since w0 w1 @ zs) c"
  shows "told P w0 w2 \<and> since w0 w2 = since w0 w1 @ since w1 w2"
proof -
  have parts: "since w0 w2 = since w0 w1 @ since w1 w2"
    using outer inner by (intro since_trans) (simp_all add: told_def)
  moreover have "disciplined P (since w0 w1 @ since w1 w2)"
    using outer inner by (intro disciplined_append [of P _ Q] may) (simp_all add: told_def)
  moreover have "asked w2 = asked w0 @ since w0 w1 @ since w1 w2"
    using outer inner by (simp add: told_def)
  ultimately show ?thesis
    by (simp add: told_def)
qed

subsection \<open>Apply\<close>

lemma inspect_gateway_wp:
  assumes "told P w0 w" and "P (since w0 w) (list_table_command plan)"
    and "\<And>ans w'. told P w0 w' \<Longrightarrow> set (since w0 w) \<subseteq> set (since w0 w') \<Longrightarrow>
      (\<And>current. ans = Inr current \<Longrightarrow> saw_table env plan (since w0 w') current) \<Longrightarrow> Q ans w'"
  shows "wp (inspect_gateway_table run env plan) Q w"
  unfolding inspect_gateway_table_def wp_bind
  by (rule run_wp [OF assms(1,2)])
    (auto simp: wp_return saw_table_def split: sum.split intro!: assms(3))

lemma inspect_firewall_wp:
  assumes "told P w0 w" and "P (since w0 w) list_fw4_command"
    and "\<And>ans w'. told P w0 w' \<Longrightarrow> set (since w0 w) \<subseteq> set (since w0 w') \<Longrightarrow>
      (\<And>firewall. ans = Inr firewall \<Longrightarrow> saw_firewall env plan (since w0 w') firewall) \<Longrightarrow> Q ans w'"
  shows "wp (inspect_firewall_rules run env plan) Q w"
  unfolding inspect_firewall_rules_def wp_bind
  by (rule run_wp [OF assms(1,2)])
    (auto simp: wp_return saw_firewall_def split: sum.split intro!: assms(3))

definition observed ::
  "gateway_env \<Rightarrow> gateway_plan \<Rightarrow> check_result \<Rightarrow> firewall_state \<Rightarrow> 'w \<Rightarrow> 'w \<Rightarrow> bool" where
  "observed env plan current firewall w0 w \<longleftrightarrow> told (apply_may env plan) w0 w \<and>
     saw_table env plan (since w0 w) current \<and> (Exists current \<longrightarrow> TableOwned current) \<and>
     saw_firewall env plan (since w0 w) firewall"

lemma observed_later:
  assumes "observed env plan current firewall w0 w" and "told (apply_may env plan) w0 w'"
    and "set (since w0 w) \<subseteq> set (since w0 w')"
  shows "observed env plan current firewall w0 w'"
  using assms(1,2) saw_mono(1,2) [OF assms(3)] unfolding observed_def by blast

lemma inside_wp:
  assumes "told P w0 w" and "wp m (\<lambda>e w'. told Q w w' \<and> R e (since w w')) w"
    and "\<And>zs c. Q zs c \<Longrightarrow> P (since w0 w @ zs) c"
    and "\<And>e w'. told P w0 w' \<Longrightarrow> since w0 w' = since w0 w @ since w w' \<Longrightarrow> R e (since w w') \<Longrightarrow> S e w'"
  shows "wp m S w"
  using assms(2)
proof (rule wp_mono)
  fix e w'
  assume *: "told Q w w' \<and> R e (since w w')"
  then have "told Q w w'" by simp
  from told_inside [OF assms(1) this assms(3)] * show "S e w'"
    by (intro assms(4)) simp_all
qed

lemma reconcile_inside_wp:
  assumes o: "observed env plan current firewall w0 w"
    and next_step: "\<And>e w'. observed env plan current firewall w0 w' \<Longrightarrow>
      set (since w0 w) \<subseteq> set (since w0 w') \<Longrightarrow>
      (e = None \<Longrightarrow> installed (policy_routes plan) (since w0 w')) \<Longrightarrow> Q e w'"
  shows "wp (reconcile_policy_routes run plan) Q w"
proof (rule inside_wp [OF _ reconcile_wp])
  show "told (apply_may env plan) w0 w"
    using o by (simp add: observed_def)
  show "apply_may env plan (since w0 w @ zs) c" if "reconcile_may (policy_routes plan) zs c" for zs c
  proof -
    have sub: "set (since w0 w) \<subseteq> set (since w0 w @ zs)" "set zs \<subseteq> set (since w0 w @ zs)"
      by auto
    show ?thesis
      using o saw_mono(1,2) [OF sub(1)] reconcile_may_mono [OF sub(2) that]
      unfolding apply_may_def observed_def by blast
  qed
  fix e :: "gerror option" and w'
  assume *: "told (apply_may env plan) w0 w'" "since w0 w' = since w0 w @ since w w'"
    "e = None \<longrightarrow> installed (policy_routes plan) (since w w')"
  then have sub: "set (since w0 w) \<subseteq> set (since w0 w')" "set (since w w') \<subseteq> set (since w0 w')"
    by auto
  show "Q e w'"
    by (rule next_step [OF observed_later [OF o *(1) sub(1)] sub(1)])
      (use * saw_mono(4) [OF sub(2)] in blast)
qed

lemma undo_wp:
  assumes o: "observed env plan current firewall w0 w"
  shows "wp (undo_policy run plan current e) (\<lambda>_. told (apply_may env plan) w0) w"
proof (cases "Exists current")
  case False
  have "wp (cleanup_policy_routes run plan) (\<lambda>_. told (apply_may env plan) w0) w"
  proof (rule inside_wp [of _ w0, where R = "\<lambda>_ _. True"])
    show "wp (cleanup_policy_routes run plan)
        (\<lambda>_ w'. told (cleanup_may (policy_routes plan)) w w' \<and> True) w"
      using cleanup_wp [of plan w] by simp
    show "told (apply_may env plan) w0 w"
      using o by (simp add: observed_def)
    show "apply_may env plan (since w0 w @ zs) c" if "cleanup_may (policy_routes plan) zs c" for zs c
    proof -
      have sub: "set (since w0 w) \<subseteq> set (since w0 w @ zs)" "set zs \<subseteq> set (since w0 w @ zs)"
        by auto
      show ?thesis
        using o False saw_mono(1) [OF sub(1)] cleanup_may_mono [OF sub(2) that]
        unfolding apply_may_def observed_def by blast
    qed
  qed
  then show ?thesis
    using False by (simp add: undo_policy_def wp_bind wp_return)
qed (use o in \<open>simp add: undo_policy_def wp_return observed_def\<close>)

lemma commit_wp:
  assumes o: "observed env plan current firewall w0 w"
    and rendered: "render (Digest env) plan = Inr rendered"
      "transaction_text env plan rendered current firewall = Inr text"
  shows "wp (commit_transaction run plan current text) (\<lambda>_. told (apply_may env plan) w0) w"
proof -
  let ?done = "\<lambda>_ :: gerror option. told (apply_may env plan) w0"
  have told: "told (apply_may env plan) w0 w'" if "observed env plan current firewall w0 w'" for w'
    using that by (simp add: observed_def)
  have commit: "wp (run_unit run (commit_command text)) (\<lambda>e. wp (case e of
        Some e \<Rightarrow> undo_policy run plan current (Wrap ''openwrt: apply nft gateway'' e)
      | None \<Rightarrow> State_Monad.return None) ?done) w1"
    if o1: "observed env plan current firewall w0 w1" and tried: "dry_run (since w0 w1) text"
      and ready: "installed (policy_routes plan) (since w0 w1)" for w1
  proof (rule run_unit_wp [OF told [OF o1]])
    have "apply_commit env plan (since w0 w1) (commit_command text)"
      using o1 tried ready rendered unfolding apply_commit_def observed_def by blast
    then show "apply_may env plan (since w0 w1) (commit_command text)"
      by (simp add: apply_may_def)
  next
    fix e :: "gerror option" and a w2
    assume *: "told (apply_may env plan) w0 w2" "since w0 w2 = since w0 w1 @ [(commit_command text, a)]"
    have "observed env plan current firewall w0 w2"
      by (rule observed_later [OF o1 *(1)]) (use *(2) in auto)
    then show "wp (case e of
        Some e \<Rightarrow> undo_policy run plan current (Wrap ''openwrt: apply nft gateway'' e)
      | None \<Rightarrow> State_Monad.return None) ?done w2"
      using *(1) by (cases e) (auto simp: wp_return intro: undo_wp)
  qed
  have dry: "apply_may env plan (since w0 w) (dry_run_command text)"
    by (auto simp: apply_may_def nft_query_def)
  show ?thesis
    unfolding commit_transaction_def wp_bind
  proof (rule run_unit_wp [OF told [OF o] dry])
    fix e :: "gerror option" and a w1
    assume *: "told (apply_may env plan) w0 w1"
      "since w0 w1 = since w0 w @ [(dry_run_command text, a)]"
      "e = None \<Longrightarrow> \<exists>r. a = Inr r \<and> ExitCode r = 0"
    have o1: "observed env plan current firewall w0 w1"
      by (rule observed_later [OF o *(1)]) (use *(2) in auto)
    have tried: "dry_run (since w0 w1) text" if "e = None"
      using *(2) *(3) [OF that] by (auto simp: dry_run_def)
    show "wp (case e of
          Some e \<Rightarrow> State_Monad.return (Some (Wrap ''openwrt: nft preflight'' e))
        | None \<Rightarrow> reconcile_policy_routes run plan \<bind> (\<lambda>reconciled. case reconciled of
            Some e \<Rightarrow> undo_policy run plan current e
          | None \<Rightarrow> run_unit run (commit_command text) \<bind> (\<lambda>committed. case committed of
              Some e \<Rightarrow> undo_policy run plan current (Wrap ''openwrt: apply nft gateway'' e)
            | None \<Rightarrow> State_Monad.return None))) ?done w1"
    proof (cases e)
      case None
      show ?thesis
        unfolding None option.case wp_bind
      proof (rule reconcile_inside_wp [OF o1])
        fix e2 :: "gerror option" and w2
        assume two: "observed env plan current firewall w0 w2" "set (since w0 w1) \<subseteq> set (since w0 w2)"
          "e2 = None \<Longrightarrow> installed (policy_routes plan) (since w0 w2)"
        show "wp (case e2 of
              Some e \<Rightarrow> undo_policy run plan current e
            | None \<Rightarrow> run_unit run (commit_command text) \<bind> (\<lambda>committed. case committed of
                Some e \<Rightarrow> undo_policy run plan current (Wrap ''openwrt: apply nft gateway'' e)
              | None \<Rightarrow> State_Monad.return None)) ?done w2"
          using two saw_mono(3) [OF two(2) tried [OF None]]
          by (cases e2) (auto simp: wp_bind intro: undo_wp commit)
      qed
    qed (simp add: wp_return *(1))
  qed
qed

lemma apply_observed_wp:
  assumes "observed env plan current firewall w0 w" and "render (Digest env) plan = Inr rendered"
  shows "wp (apply_observed run env plan rendered current firewall)
    (\<lambda>_. told (apply_may env plan) w0) w"
  unfolding apply_observed_def
  using assms by (auto simp: wp_return observed_def [of _ _ _ _ w0 w] split: sum.split
      intro!: reconcile_inside_wp [OF assms(1)] commit_wp) (simp_all add: observed_def)

lemma apply_wp:
  "wp (apply_gateway run env plan0) (\<lambda>_. told (apply_may env (normalized_plan plan0)) w) w"
proof -
  let ?plan = "normalized_plan plan0"
  let ?done = "\<lambda>_ :: gerror option. told (apply_may env ?plan) w"
  have query: "apply_may env ?plan tr (list_table_command ?plan)"
    "apply_may env ?plan tr list_fw4_command" for tr
    by (simp_all add: apply_may_def nft_query_def)
  have listed: "wp (inspect_firewall_rules run env ?plan) (\<lambda>listed. wp (case listed of
        Inl e \<Rightarrow> State_Monad.return (Some e)
      | Inr firewall \<Rightarrow> apply_observed run env ?plan rendered current firewall) ?done) w1"
    if "told (apply_may env ?plan) w w1" "saw_table env ?plan (since w w1) current"
      "Exists current \<longrightarrow> TableOwned current" "render (Digest env) ?plan = Inr rendered"
    for rendered current w1
  proof (rule inspect_firewall_wp [OF that(1) query(2)])
    fix ans :: "firewall_state fallible" and w2
    assume *: "told (apply_may env ?plan) w w2" "set (since w w1) \<subseteq> set (since w w2)"
      "\<And>firewall. ans = Inr firewall \<Longrightarrow> saw_firewall env ?plan (since w w2) firewall"
    have "observed env ?plan current firewall w w2" if "ans = Inr firewall" for firewall
      using * that \<open>Exists current \<longrightarrow> TableOwned current\<close> saw_mono(1) [OF *(2) \<open>saw_table _ _ _ _\<close>]
      by (simp add: observed_def)
    then show "wp (case ans of Inl e \<Rightarrow> State_Monad.return (Some e)
      | Inr firewall \<Rightarrow> apply_observed run env ?plan rendered current firewall) ?done w2"
      using *(1) that(4) by (cases ans) (auto simp: wp_return intro: apply_observed_wp)
  qed
  show ?thesis
    unfolding apply_gateway_def Let_def
    by (auto simp: wp_return wp_bind split: option.split sum.split
        intro!: inspect_gateway_wp [of "apply_may env ?plan" w w, OF told_start query(1)] listed)
qed

subsection \<open>Cleanup and check\<close>

definition surveyed_nft ::
  "gateway_env \<Rightarrow> gateway_plan \<Rightarrow> firewall_state \<Rightarrow> bool \<Rightarrow> 'w \<Rightarrow> 'w \<Rightarrow> bool" where
  "surveyed_nft env plan firewall delete_table w0 w \<longleftrightarrow> told (remove_may env plan) w0 w \<and>
     (firewall = no_firewall \<or> saw_firewall env plan (since w0 w) firewall) \<and>
     (delete_table \<longrightarrow> (\<exists>current. saw_table env plan (since w0 w) current \<and> Exists current \<and>
       TableOwned current))"

lemma cleanup_nft_wp:
  assumes s: "surveyed_nft env plan firewall delete_table w0 w"
  shows "wp (cleanup_nft run plan firewall delete_table) (\<lambda>_. told (remove_may env plan) w0) w"
proof -
  let ?text = "cleanup_text plan firewall delete_table"
  have told: "told (remove_may env plan) w0 w"
    using s by (simp add: surveyed_nft_def)
  have dry: "remove_may env plan (since w0 w) (dry_run_command ?text)"
    by (auto simp: remove_may_def nft_query_def)
  have "wp (run_unit run (dry_run_command ?text)) (\<lambda>checked. wp (case checked of
        Some e \<Rightarrow> State_Monad.return (Some (Wrap ''openwrt: cleanup nft preflight'' e))
      | None \<Rightarrow> run_unit run (commit_command ?text)) (\<lambda>_. told (remove_may env plan) w0)) w"
  proof (rule run_unit_wp [OF told dry])
    fix e :: "gerror option" and a w1
    assume *: "told (remove_may env plan) w0 w1"
      "since w0 w1 = since w0 w @ [(dry_run_command ?text, a)]"
      "e = None \<Longrightarrow> \<exists>r. a = Inr r \<and> ExitCode r = 0"
    have sub: "set (since w0 w) \<subseteq> set (since w0 w1)"
      using *(2) by auto
    have tried: "dry_run (since w0 w1) ?text" if "e = None"
      using *(2) *(3) [OF that] by (auto simp: dry_run_def)
    have owned: "\<forall>r \<in> set (OwnedRules firewall). has_owner_prefix (FwComment r) plan \<and>
        FwChain r \<in> {''input'', ''forward''}"
      using s saw_firewall_owned [of env plan "since w0 w" firewall]
      by (auto simp: surveyed_nft_def no_firewall_def)
    have "cleanup_commit env plan (since w0 w1) (commit_command ?text)" if "e = None"
      unfolding cleanup_commit_def
      by (rule exI [of _ firewall], rule exI [of _ delete_table])
        (use s saw_mono(1,2) [OF sub] tried [OF that] owned in
          \<open>auto simp: surveyed_nft_def\<close>)
    then have "remove_may env plan (since w0 w1) (commit_command ?text)" if "e = None"
      using that by (simp add: remove_may_def)
    then show "wp (case e of
        Some e \<Rightarrow> State_Monad.return (Some (Wrap ''openwrt: cleanup nft preflight'' e))
      | None \<Rightarrow> run_unit run (commit_command ?text)) (\<lambda>_. told (remove_may env plan) w0) w1"
      using *(1) by (cases e) (auto simp: wp_return intro: run_unit_wp)
  qed
  then show ?thesis
    using told by (simp add: cleanup_nft_def Let_def wp_bind wp_return)
qed

lemma cleanup_inside_wp:
  assumes "told (remove_may env plan) w0 w"
  shows "wp (cleanup_policy_routes run plan) (\<lambda>_. told (remove_may env plan) w0) w"
proof (rule inside_wp [OF assms, where R = "\<lambda>_ _. True"])
  show "wp (cleanup_policy_routes run plan)
      (\<lambda>_ w'. told (cleanup_may (policy_routes plan)) w w' \<and> True) w"
    using cleanup_wp [of plan w] by simp
  show "remove_may env plan (since w0 w @ zs) c" if "cleanup_may (policy_routes plan) zs c" for zs c
    using cleanup_may_mono [OF _ that, of "since w0 w @ zs"] by (simp add: remove_may_def)
qed

lemma cleanup_gateway_wp:
  "wp (cleanup_gateway run env plan0) (\<lambda>_. told (remove_may env (normalized_plan plan0)) w) w"
proof -
  let ?plan = "normalized_plan plan0"
  have query: "remove_may env ?plan tr (list_table_command ?plan)"
    "remove_may env ?plan tr list_fw4_command" for tr
    by (simp_all add: remove_may_def nft_query_def)
  let ?current = "\<lambda>inspected. case inspected of Inl _ \<Rightarrow> no_table | Inr c \<Rightarrow> c"
  have last: "wp (cleanup_policy_routes run ?plan) (\<lambda>policy_err. wp (State_Monad.return
      (errors_join (errs @ [policy_err]))) (\<lambda>_. told (remove_may env ?plan) w)) w3"
    if "told (remove_may env ?plan) w w3" for errs w3
    using cleanup_inside_wp [OF that] by (simp add: wp_return)
  have removed: "wp (cleanup_nft run ?plan firewall delete_table) (\<lambda>nft_err.
      wp (cleanup_policy_routes run ?plan) (\<lambda>policy_err. wp (State_Monad.return
        (errors_join [e1, e2, e3, nft_err, policy_err])) (\<lambda>_. told (remove_may env ?plan) w))) w2"
    if "surveyed_nft env ?plan firewall delete_table w w2" for firewall delete_table e1 e2 e3 w2
    by (rule wp_mono [OF cleanup_nft_wp [OF that]]) (use last [of _ "[e1, e2, e3, _]"] in simp)
  have survey: "surveyed_nft env ?plan (case listed of Inl _ \<Rightarrow> no_firewall | Inr fw \<Rightarrow> fw) d w w2"
    if "told (remove_may env ?plan) w w2"
      "\<And>firewall. listed = Inr firewall \<Longrightarrow> saw_firewall env ?plan (since w w2) firewall"
      "d \<Longrightarrow> \<exists>current. saw_table env ?plan (since w w2) current \<and> Exists current \<and> TableOwned current"
    for listed :: "firewall_state fallible" and d w2
    using that by (auto simp: surveyed_nft_def split: sum.split)
  show ?thesis
  proof (cases "gateway_validate ?plan")
    case None
    show ?thesis
      unfolding cleanup_gateway_def Let_def None option.case wp_bind
    proof (rule inspect_gateway_wp [of "remove_may env ?plan" w w, OF told_start query(1)],
        rule inspect_firewall_wp [of "remove_may env ?plan" w, OF _ query(2)], assumption,
        rule removed, rule survey, assumption, blast)
      fix inspected :: "check_result fallible" and w1 w2 :: 'w
      assume *: "\<And>current. inspected = Inr current \<Longrightarrow> saw_table env ?plan (since w w1) current"
        "set (since w w1) \<subseteq> set (since w w2)"
        "(case inspected of Inl e \<Rightarrow> Some e | Inr _ \<Rightarrow> None) = None \<and>
          (if Exists (?current inspected) \<and> \<not> TableOwned (?current inspected)
           then Some (foreign_table_error ''delete'' ?plan) else None) = None \<and>
          Exists (?current inspected)"
      then obtain current where c: "inspected = Inr current"
        by (cases inspected) auto
      from *(1) [OF c] have "saw_table env ?plan (since w w2) current"
        by (rule saw_mono(1) [OF *(2)])
      then show "\<exists>current. saw_table env ?plan (since w w2) current \<and> Exists current \<and> TableOwned current"
        using *(3) c by (auto split: if_splits)
    qed
  qed (auto simp: cleanup_gateway_def Let_def wp_return)
qed

end

section \<open>Every environment\<close>

text \<open>
  C22. Applying a plan, whatever the tools answer and wherever they fail: a commit happens only after
  the table was seen absent or carrying the owner's mark and the fw4 rules were read, its text
  is the transaction computed from exactly that state, the same text has passed a dry run, and
  every wanted route and rule is in place. Policy routing is touched only under the same
  observations and by its own ownership rules, and it is rolled back only if no table was there.
\<close>

theorem apply_respects_ownership:
  "disciplined (apply_may env (normalized_plan plan))
     (issued (\<lambda>run. apply_gateway run env) answers plan)"
  by (rule told_issued, rule issued_wp [of "\<lambda>run. apply_gateway run env"], rule traced.apply_wp)

text \<open>
  C23. Removing a plan, whatever the tools answer and wherever they fail: a commit deletes the table only
  if it was seen with the owner's mark, deletes only fw4 rules that a listing showed with that
  mark in the input or forward chain, and has passed a dry run; everything else is a listing or
  an owned deletion of policy routing.
\<close>

theorem cleanup_gateway_respects_ownership:
  "disciplined (remove_may env (normalized_plan plan))
     (issued (\<lambda>run. cleanup_gateway run env) answers plan)"
  by (rule told_issued, rule issued_wp [of "\<lambda>run. cleanup_gateway run env"],
      rule traced.cleanup_gateway_wp)

end
