(* ===== verification/Fakeip_Text.thy ===== *)
theory Fakeip_Text
  imports Netip_Text
begin

text \<open>
  The text of the fake-IP whitelist, \<^verbatim>\<open>internal/fakeip/store.go\<close>: the block between the AUTO
  markers, the prefixes of a text, documents, and the documents that saving manual content and
  replacing the generated block produce. The digest and the RFC 3339 time format are parameters.
\<close>

section \<open>Limits, markers and errors\<close>

definition newline :: char where "newline = CHR 0x0A"

definition carriage :: char where "carriage = CHR 0x0D"

definition auto_begin :: string where
  "auto_begin = ''# AUTO-BEGIN: generated from rule-providers '' @ bytes [0xE2, 0x80, 0x94] @
     '' do not edit between markers''"

definition auto_end :: string where "auto_end = ''# AUTO-END''"

definition auto_scope_marker :: string where "auto_scope_marker = ''# Source scope: ''"

definition max_document_bytes :: nat where "max_document_bytes = 4194304"

definition max_entries :: nat where "max_entries = 65536"

definition err_conflict :: gerror where
  "err_conflict = Sentinel ''fake-IP whitelist revision conflict''"

definition err_invalid_manual :: gerror where
  "err_invalid_manual = Sentinel ''invalid fake-IP whitelist manual content''"

definition err_malformed_markers :: gerror where
  "err_malformed_markers = Sentinel ''malformed fake-IP whitelist AUTO markers''"

definition err_too_large :: gerror where
  "err_too_large = Sentinel ''fake-IP whitelist exceeds size limit''"

definition err_too_many_entries :: gerror where
  "err_too_many_entries = Sentinel ''fake-IP whitelist exceeds entry limit''"

definition err_unsafe_path :: gerror where
  "err_unsafe_path = Sentinel ''unsafe fake-IP whitelist path''"

text \<open>The zero time is \<open>None\<close>, another one its seconds since the epoch.\<close>

type_synonym go_time = "int option"

record text_env =
  Sha256Hex :: "string \<Rightarrow> string"
  ParseTime :: "string \<Rightarrow> int option"
  FormatTime :: "int \<Rightarrow> string"

section \<open>UTF-8\<close>

definition cont :: "char \<Rightarrow> bool" where
  "cont c \<longleftrightarrow> (let n = of_char c :: nat in 0x80 \<le> n \<and> n < 0xC0)"

text \<open>\<^verbatim>\<open>utf8.ValidString\<close>: shortest forms, no surrogates, at most \<^verbatim>\<open>U+10FFFF\<close>.\<close>

fun utf8_valid :: "string \<Rightarrow> bool" where
  "utf8_valid [] = True"
| "utf8_valid (a # s) = (let n = of_char a :: nat in
     if n < 0x80 then utf8_valid s
     else if n < 0xC2 then False
     else if n < 0xE0 then (case s of b # s1 \<Rightarrow> cont b \<and> utf8_valid s1 | _ \<Rightarrow> False)
     else if n < 0xF0 then (case s of b # c # s2 \<Rightarrow>
         (let m = of_char b :: nat in cont b \<and> (n = 0xE0 \<longrightarrow> 0xA0 \<le> m) \<and> (n = 0xED \<longrightarrow> m < 0xA0)) \<and>
         cont c \<and> utf8_valid s2 | _ \<Rightarrow> False)
     else if n < 0xF5 then (case s of b # c # d # s3 \<Rightarrow>
         (let m = of_char b :: nat in cont b \<and> (n = 0xF0 \<longrightarrow> 0x90 \<le> m) \<and> (n = 0xF4 \<longrightarrow> m < 0x90)) \<and>
         cont c \<and> cont d \<and> utf8_valid s3 | _ \<Rightarrow> False)
     else False)"

definition valid_text :: "string \<Rightarrow> bool" where
  "valid_text s \<longleftrightarrow> utf8_valid s \<and> CHR 0x00 \<notin> set s"

section \<open>Lines and sections\<close>

record source_line =
  LineStart :: nat
  LineEnd :: nat
  LineText :: string

definition trim_suffix_cr :: "string \<Rightarrow> string" where
  "trim_suffix_cr s = (if s \<noteq> [] \<and> last s = carriage then butlast s else s)"

lemma shorter_after_line:
  "s \<noteq> [] \<Longrightarrow> length (tl (dropWhile P s)) < length s"
  using length_dropWhile_le [of P s] by (cases s) (auto simp: less_Suc_eq_le le_diff_conv)

function source_lines :: "nat \<Rightarrow> string \<Rightarrow> source_line list" where
  "source_lines start s =
     (if s = [] then []
      else let t = takeWhile (\<lambda>c. c \<noteq> newline) s; rest = dropWhile (\<lambda>c. c \<noteq> newline) s;
          stop = start + length t + (if rest = [] then 0 else 1)
        in \<lparr>LineStart = start, LineEnd = stop, LineText = trim_suffix_cr t\<rparr> #
          source_lines stop (tl rest))"
  by pat_completeness auto
termination
  by (relation "measure (length \<circ> snd)") (auto intro: shorter_after_line simp del: length_tl)

declare source_lines.simps [simp del]

record document_sections =
  Before :: string
  GeneratedBody :: string
  GeneratedBlock :: string
  After :: string
  SecHasGenerated :: bool

text \<open>The loop over the lines: the first begin marker and the first end marker.\<close>

fun find_markers ::
  "source_line list \<Rightarrow> source_line option \<Rightarrow> source_line option \<Rightarrow>
   (source_line option \<times> source_line option) fallible" where
  "find_markers [] b e = Inr (b, e)"
| "find_markers (l # ls) b e =
     (if LineText l = auto_begin then
        if b \<noteq> None \<or> e \<noteq> None then Inl err_malformed_markers else find_markers ls (Some l) e
      else if LineText l = auto_end then
        if b = None \<or> e \<noteq> None then Inl err_malformed_markers else find_markers ls b (Some l)
      else find_markers ls b e)"

definition slice :: "string \<Rightarrow> nat \<Rightarrow> nat \<Rightarrow> string" where
  "slice s i j = take (j - i) (drop i s)"

definition split_sections :: "string \<Rightarrow> document_sections fallible" where
  "split_sections content = (case find_markers (source_lines 0 content) None None of
       Inl e \<Rightarrow> Inl e
     | Inr (None, None) \<Rightarrow> Inr \<lparr>Before = content, GeneratedBody = [], GeneratedBlock = [],
         After = [], SecHasGenerated = False\<rparr>
     | Inr (Some b, Some e) \<Rightarrow> Inr \<lparr>Before = take (LineStart b) content,
         GeneratedBody = slice content (LineEnd b) (LineStart e),
         GeneratedBlock = slice content (LineStart b) (LineEnd e),
         After = drop (LineEnd e) content, SecHasGenerated = True\<rparr>
     | Inr _ \<Rightarrow> Inl err_malformed_markers)"

section \<open>Prefixes\<close>

definition parse_whitelist_prefix :: "string \<Rightarrow> netip_prefix option" where
  "parse_whitelist_prefix v =
     (if CHR ''/'' \<in> set v then
        (case parse_prefix v of
           Some p \<Rightarrow> if addr_is4 (prefix_addr p) then Some (prefix_masked p) else None
         | None \<Rightarrow> None)
      else (case parse_addr v of
           Some a \<Rightarrow> if addr_is4 a then Some (prefix_from a 32) else None
         | None \<Rightarrow> None))"

text \<open>The loop over the sorted texts that skips a repetition of the previous one.\<close>

fun parse_distinct :: "string \<Rightarrow> string list \<Rightarrow> netip_prefix list fallible" where
  "parse_distinct previous [] = Inr []"
| "parse_distinct previous (v # vs) =
     (if v = previous then parse_distinct previous vs
      else case parse_prefix v of
        None \<Rightarrow> Inl (Err ''netip.ParsePrefix'')
      | Some p \<Rightarrow> map_sum id (Cons p) (parse_distinct v vs))"

definition canonical_prefixes :: "netip_prefix list \<Rightarrow> netip_prefix list fallible" where
  "canonical_prefixes ps =
     (if length ps > max_entries then Inl err_too_many_entries
      else if \<exists>p \<in> set ps. \<not> (prefix_is_valid p \<and> addr_is4 (prefix_addr p))
      then Inl (Err ''fake-IP whitelist contains a non-IPv4 prefix'')
      else parse_distinct [] (sort (map (prefix_string \<circ> prefix_masked) ps)))"

definition line_error :: "nat \<Rightarrow> string \<Rightarrow> gerror" where
  "line_error n what = Noted err_invalid_manual ('' at line '' @ dec n @ '': '' @ what)"

definition timestamp_prefix :: string where "timestamp_prefix = ''# Generated: ''"

fun parse_lines ::
  "text_env \<Rightarrow> bool \<Rightarrow> nat \<Rightarrow> string list \<Rightarrow> netip_prefix list \<Rightarrow> go_time \<Rightarrow>
   (netip_prefix list \<times> go_time) fallible" where
  "parse_lines env strict n [] ps t = Inr (ps, t)"
| "parse_lines env strict n (raw # raws) ps t =
     (let line = trim_space (trim_suffix_cr raw) in
      if line = [] then parse_lines env strict (n + 1) raws ps t
      else if prefix ''#'' line then
        if strict \<and> (line = auto_begin \<or> line = auto_end)
        then Inl (line_error n ''AUTO markers are reserved'')
        else parse_lines env strict (n + 1) raws ps
          (if prefix timestamp_prefix line
           then (case ParseTime env (trim_space (drop (length timestamp_prefix) line)) of
               Some u \<Rightarrow> Some u | None \<Rightarrow> t)
           else t)
      else case parse_whitelist_prefix line of
        None \<Rightarrow> if strict then Inl (line_error n (quote line))
          else parse_lines env strict (n + 1) raws ps t
      | Some p \<Rightarrow> if length ps + 1 > max_entries then Inl err_too_many_entries
          else parse_lines env strict (n + 1) raws (ps @ [p]) t)"

definition parse_prefix_text ::
  "text_env \<Rightarrow> string \<Rightarrow> bool \<Rightarrow> (netip_prefix list \<times> go_time) fallible" where
  "parse_prefix_text env content strict =
     (case parse_lines env strict 1 (split_on newline content) [] None of
        Inl e \<Rightarrow> Inl e
      | Inr (ps, t) \<Rightarrow> map_sum id (\<lambda>qs. (qs, t)) (canonical_prefixes ps))"

section \<open>The generated block\<close>

definition valid_auto_scope :: "string \<Rightarrow> bool" where
  "valid_auto_scope scope \<longleftrightarrow> scope = [] \<or> scope = ''local-only'' \<or> scope = ''all-providers''"

fun scope_of_lines :: "bool \<Rightarrow> string \<Rightarrow> string list \<Rightarrow> string" where
  "scope_of_lines seen scope [] = scope"
| "scope_of_lines seen scope (raw # raws) =
     (let line = trim_space (trim_suffix_cr raw) in
      if \<not> prefix auto_scope_marker line then scope_of_lines seen scope raws
      else if seen then []
      else let candidate = trim_space (drop (length auto_scope_marker) line) in
        if \<not> valid_auto_scope candidate \<or> candidate = [] then []
        else scope_of_lines True candidate raws)"

definition parse_auto_scope :: "string \<Rightarrow> string" where
  "parse_auto_scope content = scope_of_lines False [] (split_on newline content)"

definition text_line :: "string \<Rightarrow> string" where
  "text_line s = s @ [newline]"

definition render_generated_block ::
  "text_env \<Rightarrow> netip_prefix list \<Rightarrow> int \<Rightarrow> string \<Rightarrow> string" where
  "render_generated_block env ps t scope = text_line auto_begin @
     text_line (''# Generated: '' @ FormatTime env t) @
     (if scope = [] then [] else text_line (auto_scope_marker @ scope)) @
     concat (map (text_line \<circ> prefix_string) ps) @ text_line auto_end"

section \<open>Documents\<close>

record document =
  Content :: string
  ManualContent :: string
  Manual :: "netip_prefix list"
  Generated :: "netip_prefix list"
  Effective :: "netip_prefix list"
  Count :: nat
  ManualCount :: nat
  GeneratedCount :: nat
  EffectiveCount :: nat
  Revision :: string
  GeneratedAt :: go_time
  GeneratedScope :: string
  HasGenerated :: bool

text \<open>The document of its three prefix lists, once they are known.\<close>

definition assemble_document ::
  "text_env \<Rightarrow> string \<Rightarrow> document_sections \<Rightarrow> netip_prefix list \<Rightarrow> netip_prefix list \<Rightarrow>
   netip_prefix list \<Rightarrow> go_time \<Rightarrow> document fallible" where
  "assemble_document env content sections manual generated effective t =
     (if length manual > max_entries \<or> length generated > max_entries \<or> length effective > max_entries
      then Inl err_too_many_entries
      else Inr \<lparr>Content = content, ManualContent = Before sections @ After sections,
        Manual = manual, Generated = generated, Effective = effective, Count = length effective,
        ManualCount = length manual, GeneratedCount = length generated,
        EffectiveCount = length effective, Revision = Sha256Hex env content, GeneratedAt = t,
        GeneratedScope = parse_auto_scope (GeneratedBody sections),
        HasGenerated = SecHasGenerated sections\<rparr>)"

definition parse_document :: "text_env \<Rightarrow> string \<Rightarrow> document fallible" where
  "parse_document env content =
     (if length content > max_document_bytes then Inl err_too_large
      else if \<not> valid_text content then Inl (Err ''fake-IP whitelist is not valid UTF-8 text'')
      else case split_sections content of
        Inl e \<Rightarrow> Inl e
      | Inr sections \<Rightarrow> (case parse_prefix_text env (Before sections @ After sections) False of
          Inl e \<Rightarrow> Inl e
        | Inr (manual, _) \<Rightarrow> (case parse_prefix_text env (GeneratedBody sections) False of
            Inl e \<Rightarrow> Inl e
          | Inr (generated, t) \<Rightarrow> (case canonical_prefixes (manual @ generated) of
              Inl e \<Rightarrow> Inl e
            | Inr effective \<Rightarrow>
                assemble_document env content sections manual generated effective t))))"

fun replace_crlf :: "string \<Rightarrow> string" where
  "replace_crlf (a # b # s) =
     (if a = carriage \<and> b = newline then newline # replace_crlf s else a # replace_crlf (b # s))"
| "replace_crlf s = s"

definition normalize_line_endings :: "string \<Rightarrow> string" where
  "normalize_line_endings s = map (\<lambda>c. if c = carriage then newline else c) (replace_crlf s)"

definition ends_in_line_break :: "string \<Rightarrow> bool" where
  "ends_in_line_break s \<longleftrightarrow> s \<noteq> [] \<and> (last s = newline \<or> last s = carriage)"

definition end_with_newline :: "string \<Rightarrow> string" where
  "end_with_newline s = (if s \<noteq> [] \<and> last s \<noteq> newline then s @ [newline] else s)"

definition validate_manual ::
  "text_env \<Rightarrow> string \<Rightarrow> (string \<times> netip_prefix list) fallible" where
  "validate_manual env content0 =
     (if length content0 > max_document_bytes then Inl err_too_large
      else if \<not> valid_text content0
      then Inl (Noted err_invalid_manual '': content is not valid UTF-8 text'')
      else let content = normalize_line_endings content0 in
        case parse_prefix_text env content True of
          Inl e \<Rightarrow> Inl e
        | Inr (ps, _) \<Rightarrow> (let content' = end_with_newline content in
            if length content' > max_document_bytes then Inl err_too_large
            else Inr (content', ps)))"

text \<open>The content \<open>SaveManual\<close> publishes: the generated block first, then the manual text.\<close>

definition manual_content :: "document_sections \<Rightarrow> string \<Rightarrow> string" where
  "manual_content sections manual =
     (if \<not> SecHasGenerated sections then manual
      else let block = GeneratedBlock sections in
        if manual = [] then block
        else (if ends_in_line_break block then block else block @ [newline]) @ manual)"

definition replaced_generated_document ::
  "text_env \<Rightarrow> int \<Rightarrow> document \<Rightarrow> netip_prefix list \<Rightarrow> go_time \<Rightarrow> string \<Rightarrow> document fallible" where
  "replaced_generated_document env now current ps t scope =
     (if length ps > max_entries then Inl err_too_many_entries
      else if \<not> valid_auto_scope scope
      then Inl (Err (''invalid fake-IP whitelist AUTO source scope '' @ quote scope))
      else case canonical_prefixes ps of
        Inl e \<Rightarrow> Inl e
      | Inr generated \<Rightarrow>
          let block = render_generated_block env generated (case t of None \<Rightarrow> now | Some u \<Rightarrow> u) scope
          in case split_sections (Content current) of
            Inl e \<Rightarrow> Inl e
          | Inr sections \<Rightarrow> parse_document env
              (if SecHasGenerated sections then Before sections @ block @ After sections
               else block @ Content current))"

end
