(* ===== verification/Fakeip_Sections.thy ===== *)
theory Fakeip_Sections
  imports Fakeip_Text
begin

text \<open>
  The sections of a whitelist: a content has a generated block exactly if it is a text without
  marker lines, a begin line, a body without marker lines, an end line, and a rest without
  marker lines; saving and replacing keep the parts they do not own.
\<close>

section \<open>Lines\<close>

definition is_marker :: "string \<Rightarrow> bool" where
  "is_marker t \<longleftrightarrow> t = auto_begin \<or> t = auto_end"

definition unmarked :: "source_line list \<Rightarrow> bool" where
  "unmarked ls \<longleftrightarrow> (\<forall>l \<in> set ls. \<not> is_marker (LineText l))"

definition closed :: "string \<Rightarrow> bool" where
  "closed s \<longleftrightarrow> s = [] \<or> last s = newline"

lemma markers_differ [simp]: "auto_begin \<noteq> auto_end" "auto_end \<noteq> auto_begin"
  by (simp_all add: auto_begin_def auto_end_def)

lemma unmarked_simps [simp]:
  "unmarked []" "unmarked (l # ls) \<longleftrightarrow> \<not> is_marker (LineText l) \<and> unmarked ls"
  "unmarked (xs @ ys) \<longleftrightarrow> unmarked xs \<and> unmarked ys"
  by (auto simp: unmarked_def)

lemma source_lines_Nil [simp]: "source_lines k [] = []"
  by (subst source_lines.simps) simp

lemma first_line:
  "newline \<notin> set t \<Longrightarrow> takeWhile (\<lambda>c. c \<noteq> newline) (t @ newline # s) = t"
  "newline \<notin> set t \<Longrightarrow> dropWhile (\<lambda>c. c \<noteq> newline) (t @ newline # s) = newline # s"
  by (induction t) auto

lemma source_lines_line [simp]:
  "newline \<notin> set t \<Longrightarrow> source_lines k (t @ newline # s) =
   \<lparr>LineStart = k, LineEnd = k + length t + 1, LineText = trim_suffix_cr t\<rparr> #
     source_lines (k + length t + 1) s"
  by (subst source_lines.simps) (simp add: Let_def first_line)

lemma source_lines_last [simp]:
  "newline \<notin> set t \<Longrightarrow> t \<noteq> [] \<Longrightarrow> source_lines k t =
   [\<lparr>LineStart = k, LineEnd = k + length t, LineText = trim_suffix_cr t\<rparr>]"
  by (subst source_lines.simps)
    (simp add: Let_def takeWhile_eq_all_conv [THEN iffD2] dropWhile_eq_Nil_conv [THEN iffD2])

text \<open>A text is empty, one line without its end, or a line and a text.\<close>

lemma text_cases [case_names empty last line]:
  obtains "s = []" | "s \<noteq> []" "newline \<notin> set s" |
    t r where "s = t @ newline # r" "newline \<notin> set t"
  by (metis split_list_first)

lemma text_induct [case_names empty last line]:
  assumes "P []" and "\<And>t. t \<noteq> [] \<Longrightarrow> newline \<notin> set t \<Longrightarrow> P t"
    and "\<And>t r. newline \<notin> set t \<Longrightarrow> P r \<Longrightarrow> P (t @ newline # r)"
  shows "P s"
proof (induction "length s" arbitrary: s rule: less_induct)
  case less
  show ?case
  proof (cases s rule: text_cases)
    case (line t r)
    then show ?thesis
      using less [of r] assms(3) by simp
  qed (use assms in auto)
qed

lemma closed_line [simp]: "closed (t @ newline # s) \<longleftrightarrow> closed s"
  by (auto simp: closed_def)

lemma source_lines_append:
  "closed u \<Longrightarrow> source_lines k (u @ v) = source_lines k u @ source_lines (k + length u) v"
proof (induction u arbitrary: k rule: text_induct)
  case (last t)
  then show ?case
    using last_in_set by (force simp: closed_def)
next
  case (line t r)
  then show ?case
    using line.IH [of "k + length t + 1"] by (simp add: ac_simps)
qed simp

lemma unmarked_shift: "unmarked (source_lines k s) \<longleftrightarrow> unmarked (source_lines j s)"
  by (induction s arbitrary: k j rule: text_induct) auto

lemma marker_lines:
  "newline \<notin> set auto_begin" "newline \<notin> set auto_end"
  "trim_suffix_cr auto_begin = auto_begin" "trim_suffix_cr auto_end = auto_end"
  "trim_suffix_cr (auto_end @ [carriage]) = auto_end"
proof -
  have "newline \<notin> set (bytes [0xE2, 0x80, 0x94])"
    by (auto simp: bytes_def newline_def dest!: arg_cong [where f = "of_char :: char \<Rightarrow> nat"])
  then show "newline \<notin> set auto_begin" "newline \<notin> set auto_end"
    by (simp_all add: auto_begin_def auto_end_def newline_def)
qed (simp_all add: auto_begin_def auto_end_def trim_suffix_cr_def carriage_def)

section \<open>Markers\<close>

lemma find_markers_skip: "unmarked xs \<Longrightarrow> find_markers (xs @ ys) b e = find_markers ys b e"
  by (induction xs) (auto simp: is_marker_def)

lemma find_markers_unmarked: "unmarked ls \<Longrightarrow> find_markers ls b e = Inr (b, e)"
  using find_markers_skip [of ls "[]"] by simp

lemma find_markers_after_both:
  "find_markers ls (Some b) (Some e) = Inr r \<Longrightarrow> r = (Some b, Some e) \<and> unmarked ls"
  by (induction ls) (auto simp: is_marker_def split: if_splits)

lemma find_markers_after_begin:
  "find_markers ls (Some b) None = Inr (b', Some e) \<Longrightarrow> b' = Some b \<and>
   (\<exists>ys zs. ls = ys @ e # zs \<and> LineText e = auto_end \<and> unmarked ys \<and> unmarked zs)"
proof (induction ls)
  case (Cons l ls)
  show ?case
  proof (cases "is_marker (LineText l)")
    case True
    then have "LineText l = auto_end" "find_markers ls (Some b) (Some l) = Inr (b', Some e)"
      using Cons.prems by (auto simp: is_marker_def split: if_splits)
    with find_markers_after_both [OF this(2)] show ?thesis
      by (intro conjI exI [of _ "[]"] exI [of _ ls]) auto
  next
    case False
    then have "find_markers ls (Some b) None = Inr (b', Some e)"
      using Cons.prems by (auto simp: is_marker_def split: if_splits)
    from Cons.IH [OF this] obtain ys zs where
      "b' = Some b" "ls = ys @ e # zs" "LineText e = auto_end" "unmarked ys" "unmarked zs"
      by auto
    then show ?thesis
      using False by (intro conjI exI [of _ "l # ys"] exI [of _ zs]) auto
  qed
qed simp

lemma find_markers_both:
  "find_markers ls None None = Inr (Some b, Some e) \<Longrightarrow>
   \<exists>xs ys zs. ls = xs @ b # ys @ e # zs \<and> LineText b = auto_begin \<and> LineText e = auto_end \<and>
     unmarked xs \<and> unmarked ys \<and> unmarked zs"
proof (induction ls)
  case (Cons l ls)
  show ?case
  proof (cases "is_marker (LineText l)")
    case True
    then have "LineText l = auto_begin" "find_markers ls (Some l) None = Inr (Some b, Some e)"
      using Cons.prems by (auto simp: is_marker_def split: if_splits)
    with find_markers_after_begin [OF this(2)] obtain ys zs where
      "b = l" "ls = ys @ e # zs" "LineText e = auto_end" "unmarked ys" "unmarked zs"
      by auto
    then show ?thesis
      using \<open>LineText l = auto_begin\<close> by (intro exI [of _ "[]"] exI [of _ ys] exI [of _ zs]) auto
  next
    case False
    then have "find_markers ls None None = Inr (Some b, Some e)"
      using Cons.prems by (auto simp: is_marker_def split: if_splits)
    from Cons.IH [OF this] obtain xs ys zs where "ls = xs @ b # ys @ e # zs"
      "LineText b = auto_begin" "LineText e = auto_end" "unmarked xs" "unmarked ys" "unmarked zs"
      by auto
    then show ?thesis
      using False by (intro exI [of _ "l # xs"] exI [of _ ys] exI [of _ zs]) auto
  qed
qed simp

lemma find_markers_none:
  "find_markers ls None None = Inr (None, None) \<Longrightarrow> unmarked ls"
proof (induction ls)
  case (Cons l ls)
  have "find_markers ls (Some l) None \<noteq> Inr (None, None)" for l
  proof (induction ls arbitrary: l)
    case (Cons m ms)
    then show ?case
      using find_markers_after_both [of ms l m] by (auto split: if_splits)
  qed simp
  then show ?case
    using Cons by (auto simp: is_marker_def split: if_splits)
qed simp

section \<open>Texts of lines\<close>

lemma source_lines_at:
  assumes "source_lines k s = xs @ l # ys"
  shows "\<exists>u t nl v. s = u @ t @ nl @ v \<and> closed u \<and> source_lines k u = xs \<and> newline \<notin> set t \<and>
    l = \<lparr>LineStart = k + length u, LineEnd = k + length u + length t + length nl,
      LineText = trim_suffix_cr t\<rparr> \<and> (nl = [newline] \<or> nl = [] \<and> v = []) \<and>
    ys = source_lines (LineEnd l) v"
  using assms
proof (induction s arbitrary: k xs rule: text_induct)
  case (last t)
  then have "xs = []" "ys = []"
    "l = \<lparr>LineStart = k, LineEnd = k + length t, LineText = trim_suffix_cr t\<rparr>"
    by (cases xs; simp)+
  then show ?case
    using last by (intro exI [of _ "[]"] exI [of _ t]) (simp add: closed_def)
next
  case (line t r)
  show ?case
  proof (cases xs)
    case Nil
    then show ?thesis
      using line by (intro exI [of _ "[]"] exI [of _ t] exI [of _ "[newline]"] exI [of _ r])
        (auto simp: closed_def)
  next
    case (Cons x xs')
    then have x: "x = \<lparr>LineStart = k, LineEnd = k + length t + 1, LineText = trim_suffix_cr t\<rparr>"
      and rest: "source_lines (k + length t + 1) r = xs' @ l # ys"
      using line by simp_all
    from line.IH [OF rest] obtain u t' nl v where ih: "r = u @ t' @ nl @ v \<and> closed u \<and>
        source_lines (k + length t + 1) u = xs' \<and> newline \<notin> set t' \<and>
        l = \<lparr>LineStart = k + length t + 1 + length u,
          LineEnd = k + length t + 1 + length u + length t' + length nl,
          LineText = trim_suffix_cr t'\<rparr> \<and>
        (nl = [newline] \<or> nl = [] \<and> v = []) \<and> ys = source_lines (LineEnd l) v"
      by blast
    then show ?thesis
      using Cons x line(1)
      by (intro exI [of _ "t @ newline # u"] exI [of _ t'] exI [of _ nl] exI [of _ v]) auto
  qed
qed simp

section \<open>The shape of a content with a block\<close>

text \<open>
  \<open>sectioned c pre tb body te nl rest\<close>: the text before, the begin line, the body, the end line with
  its line end (absent only at the end of the content), the rest.
\<close>

definition sectioned ::
  "string \<Rightarrow> string \<Rightarrow> string \<Rightarrow> string \<Rightarrow> string \<Rightarrow> string \<Rightarrow> string \<Rightarrow> bool" where
  "sectioned c pre tb body te nl rest \<longleftrightarrow> c = pre @ tb @ newline # body @ te @ nl @ rest \<and>
     closed pre \<and> closed body \<and> newline \<notin> set tb \<and> newline \<notin> set te \<and>
     trim_suffix_cr tb = auto_begin \<and> trim_suffix_cr te = auto_end \<and>
     (nl = [newline] \<or> nl = [] \<and> rest = []) \<and>
     unmarked (source_lines 0 pre) \<and> unmarked (source_lines 0 body) \<and> unmarked (source_lines 0 rest)"

definition sections_of :: "string \<Rightarrow> string \<Rightarrow> string \<Rightarrow> string \<Rightarrow> string \<Rightarrow> string \<Rightarrow> document_sections" where
  "sections_of pre tb body te nl rest = \<lparr>Before = pre, GeneratedBody = body,
     GeneratedBlock = tb @ newline # body @ te @ nl, After = rest, SecHasGenerated = True\<rparr>"

lemma end_not_Nil: "trim_suffix_cr te = auto_end \<Longrightarrow> te \<noteq> []"
  by (auto simp: trim_suffix_cr_def auto_end_def)

lemma end_line:
  assumes "newline \<notin> set te" and "te \<noteq> []" and "nl = [newline] \<or> nl = [] \<and> rest = []"
  shows "source_lines k (te @ nl @ rest) =
    \<lparr>LineStart = k, LineEnd = k + length te + length nl, LineText = trim_suffix_cr te\<rparr> #
      source_lines (k + length te + length nl) rest"
  using assms by auto

lemma split_sectioned:
  assumes "sectioned c pre tb body te nl rest"
  shows "split_sections c = Inr (sections_of pre tb body te nl rest)"
proof -
  let ?b = "\<lparr>LineStart = length pre, LineEnd = length pre + length tb + 1,
    LineText = trim_suffix_cr tb\<rparr>"
  let ?k = "length pre + length tb + 1 + length body"
  let ?e = "\<lparr>LineStart = ?k, LineEnd = ?k + length te + length nl, LineText = trim_suffix_cr te\<rparr>"
  note s = assms [unfolded sectioned_def]
  have "source_lines 0 c = source_lines 0 pre @ ?b # source_lines (length pre + length tb + 1) body @
      ?e # source_lines (?k + length te + length nl) rest"
    using s end_line [of te nl rest ?k] end_not_Nil [of te]
    by (simp add: source_lines_append [of pre] source_lines_append [of body])
  moreover have "unmarked (source_lines (length pre + length tb + 1) body)"
    "unmarked (source_lines (?k + length te + length nl) rest)"
    using s unmarked_shift by blast+
  ultimately have "find_markers (source_lines 0 c) None None = Inr (Some ?b, Some ?e)"
    using s by (simp add: find_markers_skip find_markers_unmarked)
  then show ?thesis
    using s by (simp add: split_sections_def sections_of_def slice_def)
qed

lemma split_sections_shape:
  assumes "split_sections c = Inr sec" and "SecHasGenerated sec"
  shows "\<exists>pre tb body te nl rest. sectioned c pre tb body te nl rest \<and>
    sec = sections_of pre tb body te nl rest"
proof -
  obtain b e where m: "find_markers (source_lines 0 c) None None = Inr (Some b, Some e)"
    using assms by (auto simp: split_sections_def split: sum.splits option.splits prod.splits)
  from find_markers_both [OF m] obtain xs ys zs where
    ls: "source_lines 0 c = xs @ b # ys @ e # zs" and b: "LineText b = auto_begin"
    and e: "LineText e = auto_end" and free: "unmarked xs" "unmarked ys" "unmarked zs"
    by blast
  from source_lines_at [OF ls] obtain pre tb nlb v where c1: "c = pre @ tb @ nlb @ v \<and> closed pre \<and>
      source_lines 0 pre = xs \<and> newline \<notin> set tb \<and>
      b = \<lparr>LineStart = 0 + length pre, LineEnd = 0 + length pre + length tb + length nlb,
        LineText = trim_suffix_cr tb\<rparr> \<and> (nlb = [newline] \<or> nlb = [] \<and> v = []) \<and>
      ys @ e # zs = source_lines (LineEnd b) v"
    by blast
  then have "v \<noteq> []"
    by auto
  from source_lines_at [of "LineEnd b" v ys e zs] c1 obtain body te nl rest where
    c2: "v = body @ te @ nl @ rest \<and> closed body \<and> source_lines (LineEnd b) body = ys \<and>
      newline \<notin> set te \<and>
      e = \<lparr>LineStart = LineEnd b + length body, LineEnd = LineEnd b + length body + length te + length nl,
        LineText = trim_suffix_cr te\<rparr> \<and> (nl = [newline] \<or> nl = [] \<and> rest = []) \<and>
      zs = source_lines (LineEnd e) rest"
    by metis
  have "sectioned c pre tb body te nl rest"
    using c1 c2 b e free \<open>v \<noteq> []\<close> unmarked_shift by (auto simp: sectioned_def)
  with split_sectioned [OF this] assms(1) show ?thesis
    by (intro exI) auto
qed

lemma split_sections_plain:
  assumes "split_sections c = Inr sec" and "\<not> SecHasGenerated sec"
  shows "unmarked (source_lines 0 c) \<and> Before sec = c \<and> After sec = [] \<and> GeneratedBody sec = []"
  using assms find_markers_none [of "source_lines 0 c"]
  by (auto simp: split_sections_def split: sum.splits option.splits prod.splits)

end
