(* ===== verification/Fakeip_Proofs.thy ===== *)
theory Fakeip_Proofs
  imports Fakeip_Sections
begin

text \<open>
  The whitelist as a whole: canonical prefix lists, validated manual content, and the documents
  that saving manual content and replacing the generated block lead to.
\<close>

section \<open>Saving manual content\<close>

lemma line_texts:
  "l \<in> set (source_lines k s) \<Longrightarrow> \<exists>t \<in> set (split_on newline s). LineText l = trim_suffix_cr t"
proof (induction s arbitrary: k rule: text_induct)
  case (line t r)
  then show ?case by (auto simp: split_on_append)
qed (auto simp: split_on_id)

lemma trim_marker: "is_marker t \<Longrightarrow> trim_space t = t"
  by (rule trim_plain) (auto simp: is_marker_def auto_begin_def auto_end_def plain_def)

lemma strict_lines_unmarked:
  "parse_lines env True n raws ps t = Inr r \<Longrightarrow> raw \<in> set raws \<Longrightarrow>
   \<not> is_marker (trim_suffix_cr raw)"
proof (induction env True n raws ps t rule: parse_lines.induct)
  case (2 env n raw' raws ps t)
  show ?case
  proof (cases "is_marker (trim_suffix_cr raw')")
    case True
    then have "prefix ''#'' (trim_suffix_cr raw')" "trim_suffix_cr raw' \<noteq> []"
      by (auto simp: is_marker_def auto_begin_def auto_end_def)
    then show ?thesis
      using 2(5) True trim_marker [OF True] by (auto simp: is_marker_def)
  next
    case False
    then show ?thesis
      using 2 by (auto simp: Let_def split: if_splits option.splits)
  qed
qed simp

lemma strict_text_unmarked:
  assumes "parse_prefix_text env s True = Inr r"
  shows "unmarked (source_lines k s)"
proof -
  obtain r' where "parse_lines env True 1 (split_on newline s) [] None = Inr r'"
    using assms by (auto simp: parse_prefix_text_def split: sum.splits)
  then show ?thesis
    using strict_lines_unmarked line_texts unfolding unmarked_def by metis
qed

lemma unmarked_end_with_newline:
  "unmarked (source_lines 0 s) \<Longrightarrow> unmarked (source_lines 0 (end_with_newline s))"
proof -
  have "unmarked (source_lines k (s @ [newline]))" if "unmarked (source_lines k s)" "s \<noteq> []"
      "last s \<noteq> newline" for k
    using that
  proof (induction s arbitrary: k rule: text_induct)
    case (line t r)
    then have "r \<noteq> []"
      by auto
    then show ?case
      using line by simp
  qed simp_all
  then show "unmarked (source_lines 0 s) \<Longrightarrow> ?thesis"
    by (simp add: end_with_newline_def)
qed

lemma validated_manual:
  assumes "validate_manual env s = Inr (manual, ps)"
  shows "unmarked (source_lines 0 manual)" and "closed manual"
proof -
  obtain r where r: "parse_prefix_text env (normalize_line_endings s) True = Inr r"
    and m: "manual = end_with_newline (normalize_line_endings s)"
    using assms by (auto simp: validate_manual_def Let_def split: if_splits sum.splits)
  show "unmarked (source_lines 0 manual)"
    unfolding m by (rule unmarked_end_with_newline [OF strict_text_unmarked [OF r]])
  show "closed manual"
    unfolding m by (auto simp: end_with_newline_def closed_def)
qed

lemma end_line_cases:
  "trim_suffix_cr te = auto_end \<Longrightarrow> te = auto_end \<or> te = auto_end @ [carriage]"
  by (cases te rule: rev_cases) (auto simp: trim_suffix_cr_def split: if_splits)

lemma block_last:
  assumes "sectioned c pre tb body te nl rest"
  shows "ends_in_line_break (tb @ newline # body @ te @ nl) \<longleftrightarrow>
    nl = [newline] \<or> te = auto_end @ [carriage]"
proof -
  have te: "te = auto_end \<or> te = auto_end @ [carriage]"
    using assms end_line_cases by (simp add: sectioned_def)
  have "last auto_end \<noteq> newline" "last auto_end \<noteq> carriage" "auto_end \<noteq> []"
    by (simp_all add: auto_end_def newline_def carriage_def)
  then show ?thesis
    using te assms by (auto simp: ends_in_line_break_def sectioned_def last_append)
qed


text \<open>
  The exception is real: when the document ends in the end marker and a lone carriage return, no
  line end is inserted before the manual text, the end marker is lost in the first line, and
  saving any manual text that does not start with an empty line is refused as malformed markers.
\<close>

theorem save_after_carriage_return_fails:
  assumes "split_sections content = Inr sec" and "SecHasGenerated sec"
    and "validate_manual env text = Inr (manual, ps)" and "last (GeneratedBlock sec) = carriage"
    and "manual \<noteq> []" and "hd manual \<noteq> newline"
  shows "split_sections (manual_content sec manual) = Inl err_malformed_markers"
proof -
  obtain pre tb body te nl rest where s: "sectioned content pre tb body te nl rest"
    and sec: "sec = sections_of pre tb body te nl rest"
    using split_sections_shape [OF assms(1,2)] by blast
  note facts = s [unfolded sectioned_def] and manual = validated_manual [OF assms(3)]
  have te: "te = auto_end @ [carriage]" "nl = []"
    using assms(4) end_line_cases [of te] facts
    by (auto simp: sec sections_of_def newline_def carriage_def auto_end_def)
  have content: "manual_content sec manual = tb @ newline # body @ te @ manual"
    using block_last [OF s] te assms(5) by (simp add: manual_content_def sec sections_of_def)
  obtain t r where t: "manual = t @ newline # r" "newline \<notin> set t"
    using manual(2) assms(5) last_in_set [of manual]
    by (cases manual rule: text_cases) (auto simp: closed_def)
  then have "t \<noteq> []"
    using assms(6) by auto
  let ?k = "length tb + 1" let ?b = "\<lparr>LineStart = 0, LineEnd = ?k, LineText = trim_suffix_cr tb\<rparr>"
  have joined: "\<not> is_marker (trim_suffix_cr (te @ t))"
    using \<open>t \<noteq> []\<close> unfolding te trim_suffix_cr_def is_marker_def
    by (auto simp: auto_end_def auto_begin_def butlast_append)
  have "unmarked (source_lines j (te @ manual))" for j
    using joined manual(1) unmarked_shift [of "j + length (te @ t) + 1" r "length t + 1"]
      source_lines_line [of "te @ t" j r] t facts by auto
  moreover have "unmarked (source_lines ?k body)"
    using facts unmarked_shift by blast
  moreover have "source_lines 0 (manual_content sec manual) =
      ?b # source_lines ?k body @ source_lines (?k + length body) (te @ manual)"
    using facts by (simp add: content source_lines_append [of body])
  ultimately have "find_markers (source_lines 0 (manual_content sec manual)) None None =
      Inr (Some ?b, None)"
    using facts by (simp add: find_markers_skip find_markers_unmarked)
  then show ?thesis
    by (simp add: split_sections_def)
qed

text \<open>A document with an empty generated block, and a comment to save.\<close>

definition no_times :: text_env where
  "no_times = \<lparr>Sha256Hex = (\<lambda>s. s), ParseTime = (\<lambda>_. None), FormatTime = (\<lambda>_. [])\<rparr>"

lemma block_only:
  assumes "nl = [newline] \<or> nl = []" and "te = auto_end \<or> te = auto_end @ [carriage]"
  shows "split_sections (auto_begin @ newline # te @ nl) = Inr (sections_of [] auto_begin [] te nl [])"
  by (rule split_sectioned)
    (use assms marker_lines in \<open>auto simp: sectioned_def closed_def newline_def carriage_def\<close>)

lemma comment_is_valid: "validate_manual no_times ''# x'' = Inr (''# x'' @ [newline], [])"
  by (simp add: validate_manual_def max_document_bytes_def valid_text_def Let_def
      normalize_line_endings_def carriage_def newline_def end_with_newline_def parse_prefix_text_def
      trim_suffix_cr_def trim_plain plain_def auto_begin_def auto_end_def timestamp_prefix_def
      canonical_prefixes_def)


lemma save_after_carriage_return_fails_witness:
  "split_sections (manual_content (sections_of [] auto_begin [] (auto_end @ [carriage]) [] [])
     (''# x'' @ [newline])) = Inl err_malformed_markers"
proof -
  let ?sec = "sections_of [] auto_begin [] (auto_end @ [carriage]) [] []"
  have "split_sections (auto_begin @ newline # (auto_end @ [carriage]) @ []) = Inr ?sec"
    by (rule block_only) simp_all
  moreover have "SecHasGenerated ?sec" "last (GeneratedBlock ?sec) = carriage"
    by (simp_all add: sections_of_def)
  ultimately show ?thesis
    using save_after_carriage_return_fails [OF _ _ comment_is_valid] by (simp add: newline_def)
qed

end
