(* ===== verification/Fakeip_Canonical.thy ===== *)
theory Fakeip_Canonical
  imports Fakeip_Text
begin

text \<open>
  The canonical list of IPv4 prefixes: masked, without repetitions, in the order of the texts. It
  depends on the set of masked prefixes only, and its printed lines read back as it.
\<close>

section \<open>IPv4 prefixes and their texts\<close>

definition ipv4_prefix :: "netip_prefix \<Rightarrow> bool" where
  "ipv4_prefix p \<longleftrightarrow> (\<exists>w n. p = Prefix (Addr4 w) (Some n) \<and> n \<le> 32)"

lemma ipv4_prefixE:
  assumes "ipv4_prefix p"
  obtains w n where "p = Prefix (Addr4 w) (Some n)" "n \<le> 32"
  using assms by (auto simp: ipv4_prefix_def)

lemma ipv4_prefix_facts:
  assumes "ipv4_prefix p"
  shows "prefix_is_valid p" "addr_is4 (prefix_addr p)" "ipv4_prefix (prefix_masked p)"
    "parse_prefix (prefix_string p) = Some p"
  using assms by (auto simp: ipv4_prefix_def prefix_is_valid_def simp del: prefix_string.simps)

lemma prefix_string_inj: "inj_on prefix_string {p. ipv4_prefix p}"
  by (rule inj_on_inverseI [of _ "the \<circ> parse_prefix"]) (simp add: ipv4_prefix_facts)

lemma ipv4_string_chars:
  assumes "c \<in> set (ipv4_string w)"
  shows "is_digit c \<or> c = CHR ''.''"
  using set_join [OF assms [unfolded ipv4_string_def]] dec_digits by auto

lemma prefix_string_chars:
  assumes "ipv4_prefix p" and "c \<in> set (prefix_string p)"
  shows "is_digit c \<or> c = CHR ''.'' \<or> c = CHR ''/''"
  using assms ipv4_string_chars dec_digits by (fastforce elim!: ipv4_prefixE)

lemma prefix_string_ends:
  assumes "ipv4_prefix p"
  shows "prefix_string p \<noteq> []" "is_digit (hd (prefix_string p))" "is_digit (last (prefix_string p))"
proof -
  obtain w n where p: "p = Prefix (Addr4 w) (Some n)"
    using assms by (rule ipv4_prefixE)
  have "is_digit (hd (ipv4_string w))" "ipv4_string w \<noteq> []"
    using dec_digits [OF hd_in_set] by (auto simp: ipv4_string_def octets_def Let_def)
  then show "prefix_string p \<noteq> []" "is_digit (hd (prefix_string p))" "is_digit (last (prefix_string p))"
    using dec_digits [OF last_in_set] by (auto simp: p)
qed

section \<open>Sorted texts without repetitions\<close>

lemma parse_distinct_texts:
  assumes "\<forall>v \<in> set vs. \<exists>p. ipv4_prefix p \<and> v = prefix_string p"
  shows "\<exists>qs. parse_distinct u vs = Inr qs \<and> (\<forall>q \<in> set qs. ipv4_prefix q) \<and>
    u # map prefix_string qs = remdups_adj (u # vs)"
  using assms
proof (induction vs arbitrary: u)
  case (Cons v vs)
  show ?case
  proof (cases "v = u")
    case True
    then show ?thesis
      using Cons by simp
  next
    case False
    obtain p where p: "ipv4_prefix p" "v = prefix_string p"
      using Cons.prems by auto
    obtain qs where "parse_distinct v vs = Inr qs" "\<forall>q \<in> set qs. ipv4_prefix q"
      "v # map prefix_string qs = remdups_adj (v # vs)"
      using Cons by fastforce
    then show ?thesis
      using False p ipv4_prefix_facts(4) [OF p(1)] by (intro exI [of _ "p # qs"]) auto
  qed
qed simp

lemma remdups_adj_sorted_strict:
  "sorted xs \<Longrightarrow> sorted_wrt (<) (remdups_adj xs)" for xs :: "'a::linorder list"
  by (induction xs rule: remdups_adj.induct) (auto simp: order_less_le)

lemma canonical_prefixes_exist:
  assumes "length ps \<le> max_entries" and "\<forall>p \<in> set ps. ipv4_prefix p"
  shows "\<exists>qs. canonical_prefixes ps = Inr qs \<and> (\<forall>q \<in> set qs. ipv4_prefix q) \<and>
    map prefix_string qs = remdups_adj (sort (map (prefix_string \<circ> prefix_masked) ps))"
proof -
  let ?vs = "sort (map (prefix_string \<circ> prefix_masked) ps)"
  have texts: "\<forall>v \<in> set ?vs. \<exists>p. ipv4_prefix p \<and> v = prefix_string p"
    using assms(2) ipv4_prefix_facts(3) by fastforce
  obtain qs where qs: "parse_distinct [] ?vs = Inr qs" "\<forall>q \<in> set qs. ipv4_prefix q"
    "[] # map prefix_string qs = remdups_adj ([] # ?vs)"
    using parse_distinct_texts [OF texts] by blast
  have "[] \<notin> set ?vs"
    using texts prefix_string_ends(1) by metis
  then have "map prefix_string qs = remdups_adj ?vs"
    using qs(3) by (cases ?vs) auto
  then show ?thesis
    using assms qs ipv4_prefix_facts by (auto simp: canonical_prefixes_def)
qed

lemma canonical_prefixes_list:
  assumes "length ps \<le> max_entries" and "\<forall>p \<in> set ps. ipv4_prefix p"
    and "canonical_prefixes ps = Inr qs"
  shows "set qs = prefix_masked ` set ps" and "sorted_wrt (<) (map prefix_string qs)"
    and "\<forall>q \<in> set qs. ipv4_prefix q" and "distinct qs" and "length qs \<le> length ps"
proof -
  have all: "\<forall>q \<in> set qs. ipv4_prefix q"
    and texts: "map prefix_string qs = remdups_adj (sort (map (prefix_string \<circ> prefix_masked) ps))"
    using canonical_prefixes_exist [OF assms(1,2)] assms(3) by auto
  show "\<forall>q \<in> set qs. ipv4_prefix q"
    by (rule all)
  show strict: "sorted_wrt (<) (map prefix_string qs)"
    unfolding texts by (rule remdups_adj_sorted_strict) simp
  then show "distinct qs"
    using strict_sorted_iff distinct_map by blast
  have "prefix_string ` set qs = prefix_string ` prefix_masked ` set ps"
    using arg_cong [OF texts, of set] by (simp add: image_image)
  moreover have "set qs \<subseteq> {p. ipv4_prefix p}" "prefix_masked ` set ps \<subseteq> {p. ipv4_prefix p}"
    using all assms(2) ipv4_prefix_facts(3) by auto
  ultimately show "set qs = prefix_masked ` set ps"
    using inj_on_image_eq_iff [OF prefix_string_inj] by blast
  show "length qs \<le> length ps"
    using arg_cong [OF texts, of length]
      remdups_adj_length [of "sort (map (prefix_string \<circ> prefix_masked) ps)"] by simp
qed

lemma canonical_prefixes_unique:
  assumes "length ps \<le> max_entries" "\<forall>p \<in> set ps. ipv4_prefix p" "canonical_prefixes ps = Inr qs"
    and "length rs \<le> max_entries" "\<forall>r \<in> set rs. ipv4_prefix r"
    and "prefix_masked ` set rs = prefix_masked ` set ps"
  shows "canonical_prefixes rs = Inr qs"
proof -
  obtain us where us: "canonical_prefixes rs = Inr us"
    using canonical_prefixes_exist [OF assms(4,5)] by blast
  note list = canonical_prefixes_list [OF assms(1-3)]
    and other = canonical_prefixes_list [OF assms(4,5) us]
  have "set (map prefix_string us) = set (map prefix_string qs)"
    using list(1) other(1) assms(6) by simp
  then have "map prefix_string us = map prefix_string qs"
    using list(2) other(2) strict_sorted_equal by blast
  moreover have "inj_on prefix_string (set us \<union> set qs)"
    by (rule inj_on_subset [OF prefix_string_inj]) (use list(3) other(3) in auto)
  ultimately show ?thesis
    using us by (simp add: inj_on_map_eq_map)
qed

lemma canonical_again:
  assumes "length ps \<le> max_entries" "\<forall>p \<in> set ps. ipv4_prefix p" "canonical_prefixes ps = Inr qs"
  shows "canonical_prefixes qs = Inr qs"
  using canonical_prefixes_list [OF assms] assms(1)
  by (intro canonical_prefixes_unique [OF assms]) (auto simp: image_image)

text \<open>
  C27. A canonical list is a normal form. For any list of at most 65,536 IPv4 prefixes the function
  succeeds, whatever the order and the repetitions; the result holds exactly the masked prefixes,
  strictly increasing as texts; and any list with the same masked prefixes has the same result, so
  canonicalising again changes nothing.
\<close>

theorem canonical_prefixes_normal_form:
  assumes "length ps \<le> max_entries" and "\<forall>p \<in> set ps. ipv4_prefix p"
  shows "\<exists>qs. canonical_prefixes ps = Inr qs \<and> set qs = prefix_masked ` set ps \<and>
    sorted_wrt (<) (map prefix_string qs) \<and> canonical_prefixes qs = Inr qs \<and>
    (\<forall>rs. length rs \<le> max_entries \<and> (\<forall>r \<in> set rs. ipv4_prefix r) \<and>
       prefix_masked ` set rs = prefix_masked ` set ps \<longrightarrow> canonical_prefixes rs = Inr qs)"
proof -
  obtain qs where qs: "canonical_prefixes ps = Inr qs"
    using canonical_prefixes_exist [OF assms] by blast
  show ?thesis
    using qs canonical_prefixes_list [OF assms qs] canonical_again [OF assms qs]
      canonical_prefixes_unique [OF assms qs] by blast
qed

lemma canonical_prefixes_normal_form_witness:
  "let ps = [Prefix (Addr4 0x0A000105) (Some 8), Prefix (Addr4 0x08080808) (Some 32)] in
   \<exists>qs. canonical_prefixes ps = Inr qs \<and> set qs = prefix_masked ` set ps"
  using canonical_prefixes_normal_form
    [of "[Prefix (Addr4 0x0A000105) (Some 8), Prefix (Addr4 0x08080808) (Some 32)]"]
  by (auto simp: max_entries_def ipv4_prefix_def)

end
