(* ===== verification/Fakeip_Generated.thy ===== *)
theory Fakeip_Generated
  imports Fakeip_Sections Fakeip_Canonical
begin

text \<open>
  Replacing the generated block: the rendered block reads back as the list, the time and the scope
  it was rendered from, and the user's text and prefixes stay as they were.
\<close>

section \<open>The lines of a block\<close>

definition block_lines :: "text_env \<Rightarrow> netip_prefix list \<Rightarrow> int \<Rightarrow> string \<Rightarrow> string list" where
  "block_lines env qs t scope = (timestamp_prefix @ FormatTime env t) #
     (if scope = [] then [] else [auto_scope_marker @ scope]) @ map prefix_string qs"

definition block_body :: "text_env \<Rightarrow> netip_prefix list \<Rightarrow> int \<Rightarrow> string \<Rightarrow> string" where
  "block_body env qs t scope = concat (map text_line (block_lines env qs t scope))"

lemma render_block: "render_generated_block env qs t scope =
    auto_begin @ newline # block_body env qs t scope @ auto_end @ [newline]"
  by (simp add: render_generated_block_def block_body_def block_lines_def text_line_def
      timestamp_prefix_def map_map [symmetric] del: map_map)

text \<open>A line that starts and ends with visible ASCII characters is read as it is.\<close>

definition solid :: "string \<Rightarrow> bool" where
  "solid l \<longleftrightarrow> l \<noteq> [] \<and> plain (hd l) \<and> plain (last l) \<and> newline \<notin> set l"

lemma solid_free: "solid l \<Longrightarrow> newline \<notin> set l" "solid l \<Longrightarrow> l \<noteq> []"
  by (simp_all add: solid_def)

lemma solid_line [simp]:
  assumes "solid l"
  shows "trim_suffix_cr l = l" and "trim_space l = l"
  using assms trim_plain [of l]
  by (auto simp: solid_def trim_suffix_cr_def carriage_def plain_def)

lemma trim_empty [simp]: "trim_space [] = []" "trim_suffix_cr [] = []"
  by (simp_all add: trim_space_def trim_suffix_cr_def)

lemma split_lines:
  "\<forall>l \<in> set ls. newline \<notin> set l \<Longrightarrow> split_on newline (concat (map text_line ls)) = ls @ [[]]"
  by (induction ls) (auto simp: text_line_def split_on_append)

lemma unmarked_lines:
  "\<forall>l \<in> set ls. solid l \<and> \<not> is_marker l \<Longrightarrow> unmarked (source_lines k (concat (map text_line ls)))"
  by (induction ls arbitrary: k) (auto simp: text_line_def solid_free)

lemma closed_lines: "closed (concat (map text_line ls))"
  by (induction ls) (auto simp: closed_def text_line_def)

text \<open>The contract of the time format: visible ASCII text that reads back.\<close>

definition time_format_ok :: "text_env \<Rightarrow> int \<Rightarrow> bool" where
  "time_format_ok env t \<longleftrightarrow> FormatTime env t \<noteq> [] \<and> list_all plain (FormatTime env t) \<and>
     ParseTime env (FormatTime env t) = Some t"

lemma special_chars: "\<not> plain newline" "\<not> is_digit CHR ''#''" "\<not> is_digit newline"
  by (simp_all add: plain_def is_digit_def newline_def)

lemma digit_facts: "is_digit c \<Longrightarrow> c \<noteq> CHR ''#'' \<and> c \<noteq> newline \<and> plain c"
  using special_chars plain_digit by blast

lemma prefix_line_solid:
  assumes "ipv4_prefix p"
  shows "solid (prefix_string p)" and "\<not> is_marker (prefix_string p)"
    and "\<not> prefix ''#'' (prefix_string p)"
proof -
  note ends = prefix_string_ends [OF assms]
  have "newline \<notin> set (prefix_string p)"
    using prefix_string_chars [OF assms, of newline] by (auto simp: newline_def is_digit_def)
  then show "solid (prefix_string p)"
    using ends digit_facts by (auto simp: solid_def)
  show hash: "\<not> prefix ''#'' (prefix_string p)"
    using ends digit_facts by (cases "prefix_string p") auto
  then show "\<not> is_marker (prefix_string p)"
    by (auto simp: is_marker_def auto_begin_def auto_end_def)
qed

lemma plain_not_newline: "plain c \<Longrightarrow> c \<noteq> newline"
  using special_chars(1) by blast

lemma block_lines_solid:
  assumes "\<forall>q \<in> set qs. ipv4_prefix q" and "time_format_ok env t" and "valid_auto_scope scope"
  shows "\<forall>l \<in> set (block_lines env qs t scope). solid l \<and> \<not> is_marker l"
proof -
  have time: "FormatTime env t \<noteq> []" "\<forall>c \<in> set (FormatTime env t). plain c"
    using assms(2) by (simp_all add: time_format_ok_def list_all_iff)
  then have "newline \<notin> set (FormatTime env t)" "plain (last (FormatTime env t))"
    using plain_not_newline by auto
  moreover have "newline \<notin> set timestamp_prefix" "timestamp_prefix \<noteq> []" "plain (hd timestamp_prefix)"
    by (simp_all add: timestamp_prefix_def newline_def plain_def)
  ultimately have "solid (timestamp_prefix @ FormatTime env t)"
    using time by (simp add: solid_def)
  moreover have "\<not> is_marker (timestamp_prefix @ FormatTime env t)"
    by (simp add: is_marker_def auto_begin_def auto_end_def timestamp_prefix_def)
  moreover have "solid (auto_scope_marker @ scope) \<and> \<not> is_marker (auto_scope_marker @ scope)"
    if "scope \<noteq> []"
    using that assms(3) by (auto simp: valid_auto_scope_def auto_scope_marker_def is_marker_def
        auto_begin_def auto_end_def solid_def newline_def plain_def)
  ultimately show ?thesis
    using assms(1) prefix_line_solid by (auto simp: block_lines_def)
qed

section \<open>Reading the block\<close>

lemma read_prefix_line:
  assumes "ipv4_prefix q" and "prefix_masked q = q"
  shows "parse_whitelist_prefix (prefix_string q) = Some q"
proof -
  have "CHR ''/'' \<in> set (prefix_string q)"
    using assms(1) by (auto elim!: ipv4_prefixE)
  then show ?thesis
    using assms ipv4_prefix_facts [OF assms(1)] by (simp add: parse_whitelist_prefix_def)
qed

lemma read_prefix_lines:
  assumes "\<forall>q \<in> set qs. ipv4_prefix q \<and> prefix_masked q = q"
    and "length acc + length qs \<le> max_entries"
  shows "parse_lines env False n (map prefix_string qs @ [[]]) acc t = Inr (acc @ qs, t)"
  using assms
proof (induction qs arbitrary: n acc)
  case Nil
  then show ?case
    by simp
next
  case (Cons q qs)
  then show ?case
    using prefix_line_solid [of q] read_prefix_line [of q] prefix_string_ends(1) [of q]
    by (simp add: Let_def)
qed

lemma read_comment:
  assumes "solid l" and "prefix ''#'' l"
  shows "parse_lines env False n (l # ls) ps t = parse_lines env False (n + 1) ls ps
    (if prefix timestamp_prefix l
     then (case ParseTime env (trim_space (drop (length timestamp_prefix) l)) of
         Some u \<Rightarrow> Some u | None \<Rightarrow> t)
     else t)"
  using assms solid_free(2) [of l] by (simp add: Let_def)

lemma read_block_body:
  assumes qs: "\<forall>q \<in> set qs. ipv4_prefix q \<and> prefix_masked q = q" "length qs \<le> max_entries"
    "canonical_prefixes qs = Inr qs"
    and t: "time_format_ok env t" and scope: "valid_auto_scope scope"
  shows "parse_prefix_text env (block_body env qs t scope) False = Inr (qs, Some t)"
proof -
  have solid: "\<forall>l \<in> set (block_lines env qs t scope). solid l"
    using block_lines_solid [OF _ t scope] qs(1) by blast
  then have lines: "split_on newline (block_body env qs t scope) = block_lines env qs t scope @ [[]]"
    unfolding block_body_def by (intro split_lines) (use solid_free in blast)
  let ?T = "timestamp_prefix @ FormatTime env t"
  have time: "parse_lines env False n (?T # ls) [] None = parse_lines env False (n + 1) ls [] (Some t)" for n ls
  proof -
    have "trim_space (FormatTime env t) = FormatTime env t"
      using t by (intro trim_plain) (auto simp: time_format_ok_def list_all_iff)
    moreover have "solid ?T"
      using solid by (simp add: block_lines_def)
    moreover have "prefix ''#'' ?T"
      by (simp add: timestamp_prefix_def)
    ultimately show ?thesis
      using read_comment [of ?T env n ls "[]" None] t by (simp add: time_format_ok_def del: parse_lines.simps)
  qed
  have scope_line: "parse_lines env False n ((auto_scope_marker @ scope) # ls) [] (Some t) =
      parse_lines env False (n + 1) ls [] (Some t)" if "scope \<noteq> []" for n ls
  proof -
    have "solid (auto_scope_marker @ scope)"
      using solid that by (simp add: block_lines_def)
    moreover have "prefix ''#'' (auto_scope_marker @ scope)"
      "\<not> prefix timestamp_prefix (auto_scope_marker @ scope)"
      by (simp_all add: auto_scope_marker_def timestamp_prefix_def)
    ultimately show ?thesis
      using read_comment [of "auto_scope_marker @ scope" env n ls "[]" "Some t"]
      by (simp del: parse_lines.simps)
  qed
  have "parse_lines env False 1 (block_lines env qs t scope @ [[]]) [] None = Inr (qs, Some t)"
    using qs read_prefix_lines [of qs "[]" env _ "Some t"]
    by (simp add: block_lines_def time scope_line del: parse_lines.simps)
  then show ?thesis
    using qs(3) by (simp add: parse_prefix_text_def lines)
qed

lemma scope_skips:
  assumes "\<forall>l \<in> set ls. \<not> prefix auto_scope_marker (trim_space (trim_suffix_cr l))"
  shows "scope_of_lines seen scope (ls @ rest) = scope_of_lines seen scope rest"
  using assms by (induction ls) auto

lemma prefix_line_no_scope:
  "ipv4_prefix p \<Longrightarrow> \<not> prefix auto_scope_marker (trim_space (trim_suffix_cr (prefix_string p)))"
  using prefix_line_solid [of p] prefix_order.trans [of "''#''" auto_scope_marker "prefix_string p"]
  by (auto simp: auto_scope_marker_def)

lemma read_block_scope:
  assumes "\<forall>q \<in> set qs. ipv4_prefix q" and "time_format_ok env t" and "valid_auto_scope scope"
  shows "parse_auto_scope (block_body env qs t scope) = scope"
proof -
  have solid: "\<forall>l \<in> set (block_lines env qs t scope). solid l"
    using block_lines_solid [OF assms] by blast
  then have lines: "split_on newline (block_body env qs t scope) = block_lines env qs t scope @ [[]]"
    unfolding block_body_def by (intro split_lines) (use solid_free in blast)
  have prefixes: "scope_of_lines seen s (map prefix_string qs @ [[]]) = s" for seen s
    using assms(1) prefix_line_no_scope
    by (subst scope_skips) (auto simp: auto_scope_marker_def)
  have time: "\<not> prefix auto_scope_marker
      (trim_space (trim_suffix_cr (timestamp_prefix @ FormatTime env t)))"
    using solid by (simp add: block_lines_def auto_scope_marker_def timestamp_prefix_def)
  show ?thesis
  proof (cases "scope = []")
    case True
    then show ?thesis
      unfolding parse_auto_scope_def lines by (simp add: block_lines_def time prefixes)
  next
    case False
    have "solid scope"
      using False assms(3) by (auto simp: valid_auto_scope_def solid_def plain_def newline_def)
    moreover have "solid (auto_scope_marker @ scope)"
      using solid False by (simp add: block_lines_def)
    ultimately have "scope_of_lines False [] ((auto_scope_marker @ scope) # ls) =
        scope_of_lines True scope ls" for ls
      using False assms(3) by simp
    then show ?thesis
      unfolding parse_auto_scope_def lines
      using False by (simp add: block_lines_def time prefixes del: scope_of_lines.simps(2))
        (simp add: time prefixes)
  qed
qed

section \<open>The replaced document\<close>

definition with_block :: "document_sections \<Rightarrow> string \<Rightarrow> string" where
  "with_block sec block =
     (if SecHasGenerated sec then Before sec @ block @ After sec else block @ Before sec)"

lemma sectioned_block:
  assumes "closed pre" and "unmarked (source_lines 0 pre)" and "unmarked (source_lines 0 rest)"
    and "\<forall>l \<in> set (block_lines env qs t scope). solid l \<and> \<not> is_marker l"
  shows "sectioned (pre @ render_generated_block env qs t scope @ rest) pre auto_begin
    (block_body env qs t scope) auto_end [newline] rest"
  using assms unmarked_lines [OF assms(4)] closed_lines marker_lines
  by (simp add: sectioned_def render_block block_body_def)

lemma with_block_sections:
  assumes "split_sections content = Inr sec"
    and "\<forall>l \<in> set (block_lines env qs t scope). solid l \<and> \<not> is_marker l"
  shows "\<exists>sec'. split_sections (with_block sec (render_generated_block env qs t scope)) = Inr sec' \<and>
    Before sec' @ After sec' = Before sec @ After sec \<and> SecHasGenerated sec' \<and>
    GeneratedBody sec' = block_body env qs t scope"
proof (cases "SecHasGenerated sec")
  case True
  obtain pre tb body te nl rest where "sectioned content pre tb body te nl rest"
    and sec: "sec = sections_of pre tb body te nl rest"
    using split_sections_shape [OF assms(1) True] by blast
  then have "closed pre" "unmarked (source_lines 0 pre)" "unmarked (source_lines 0 rest)"
    by (simp_all add: sectioned_def)
  from split_sectioned [OF sectioned_block [OF this assms(2)]] show ?thesis
    by (simp add: sec with_block_def sections_of_def)
next
  case False
  note plain = split_sections_plain [OF assms(1) False]
  have "closed []" "unmarked (source_lines 0 [])"
    by (simp_all add: closed_def)
  from split_sectioned [OF sectioned_block [OF this _ assms(2), of content]] plain show ?thesis
    using False by (simp add: with_block_def sections_of_def)
qed

lemma parsed_parts:
  assumes "parse_document env c = Inr doc"
  obtains sec u where "split_sections c = Inr sec" "ManualContent doc = Before sec @ After sec"
    "parse_prefix_text env (Before sec @ After sec) False = Inr (Manual doc, u)"
    "length (Manual doc) \<le> max_entries"
  using assms
  by (auto simp: parse_document_def assemble_document_def split: if_splits sum.splits prod.splits)

text \<open>The document with the user's part of \<open>current\<close> and another generated block.\<close>

definition regenerated ::
  "text_env \<Rightarrow> document \<Rightarrow> string \<Rightarrow> netip_prefix list \<Rightarrow> netip_prefix list \<Rightarrow> int \<Rightarrow> string \<Rightarrow> document"
  where
  "regenerated env current content generated effective t scope =
     \<lparr>Content = content, ManualContent = ManualContent current, Manual = Manual current,
      Generated = generated, Effective = effective, Count = length effective,
      ManualCount = length (Manual current), GeneratedCount = length generated,
      EffectiveCount = length effective, Revision = Sha256Hex env content, GeneratedAt = Some t,
      GeneratedScope = scope, HasGenerated = True\<rparr>"

text \<open>
  C25. Replacing the generated block, exactly. For IPv4 prefixes and a valid scope the new content is
  the old one with the rendered block in the place of the old block, or in front when there was
  none. Unless it is too large, not text, or its effective list is too long, it parses to the
  document whose manual text and prefixes are those of the old document, whose generated list is
  the canonical list of the given prefixes, and whose time and scope are the given ones.
\<close>

theorem replace_generated_exact:
  assumes "parse_document env (Content current) = Inr current"
    and "length ps \<le> max_entries" and "\<forall>p \<in> set ps. ipv4_prefix p" and "valid_auto_scope scope"
    and "u = (case t of None \<Rightarrow> now | Some v \<Rightarrow> v)" and "time_format_ok env u"
  shows "\<exists>sec generated content. split_sections (Content current) = Inr sec \<and>
    canonical_prefixes ps = Inr generated \<and>
    content = with_block sec (render_generated_block env generated u scope) \<and>
    replaced_generated_document env now current ps t scope =
      (if length content > max_document_bytes then Inl err_too_large
       else if \<not> valid_text content then Inl (Err ''fake-IP whitelist is not valid UTF-8 text'')
       else case canonical_prefixes (Manual current @ generated) of
         Inl e \<Rightarrow> Inl e
       | Inr effective \<Rightarrow>
           if length effective > max_entries then Inl err_too_many_entries
           else Inr (regenerated env current content generated effective u scope))"
proof -
  obtain sec v where sec: "split_sections (Content current) = Inr sec"
    and manual: "ManualContent current = Before sec @ After sec"
      "parse_prefix_text env (Before sec @ After sec) False = Inr (Manual current, v)"
      "length (Manual current) \<le> max_entries"
    using parsed_parts [OF assms(1)] by blast
  obtain qs where qs: "canonical_prefixes ps = Inr qs" "set qs = prefix_masked ` set ps"
    "canonical_prefixes qs = Inr qs"
    using canonical_prefixes_exist [OF assms(2,3)] canonical_again [OF assms(2,3)]
      canonical_prefixes_list(1) [OF assms(2,3)] by blast
  have list: "\<forall>q \<in> set qs. ipv4_prefix q \<and> prefix_masked q = q" "length qs \<le> max_entries"
    using canonical_prefixes_list [OF assms(2,3) qs(1)] assms(2) by auto
  have lines: "\<forall>l \<in> set (block_lines env qs u scope). solid l \<and> \<not> is_marker l"
    by (rule block_lines_solid [OF _ assms(6,4)]) (use list in blast)
  let ?content = "with_block sec (render_generated_block env qs u scope)"
  obtain sec' where sec': "split_sections ?content = Inr sec'"
    "Before sec' @ After sec' = Before sec @ After sec" "SecHasGenerated sec'"
    "GeneratedBody sec' = block_body env qs u scope"
    using with_block_sections [OF sec lines] by blast
  have body: "parse_prefix_text env (block_body env qs u scope) False = Inr (qs, Some u)"
    "parse_auto_scope (block_body env qs u scope) = scope"
    using read_block_body [OF list qs(3) assms(6,4)] read_block_scope [OF _ assms(6,4)] list by auto
  have "replaced_generated_document env now current ps t scope = parse_document env ?content"
    using assms(2,4,5) sec qs(1) split_sections_plain [OF sec]
    by (auto simp: replaced_generated_document_def with_block_def Let_def)
  also have "\<dots> = (if length ?content > max_document_bytes then Inl err_too_large
       else if \<not> valid_text ?content then Inl (Err ''fake-IP whitelist is not valid UTF-8 text'')
       else case canonical_prefixes (Manual current @ qs) of
         Inl e \<Rightarrow> Inl e
       | Inr effective \<Rightarrow>
           if length effective > max_entries then Inl err_too_many_entries
           else Inr (regenerated env current ?content qs effective u scope))"
    using manual sec' body list(2)
    by (simp add: parse_document_def assemble_document_def regenerated_def split: sum.split)
  finally show ?thesis
    using sec qs(1) by blast
qed

text \<open>A time format with one text, and the empty document with one prefix to generate.\<close>

definition one_time :: text_env where
  "one_time = \<lparr>Sha256Hex = (\<lambda>s. s), ParseTime = (\<lambda>s. if s = ''T'' then Some 7 else None),
     FormatTime = (\<lambda>_. ''T'')\<rparr>"

definition empty_document :: document where
  "empty_document = \<lparr>Content = [], ManualContent = [], Manual = [], Generated = [], Effective = [],
     Count = 0, ManualCount = 0, GeneratedCount = 0, EffectiveCount = 0, Revision = [],
     GeneratedAt = None, GeneratedScope = [], HasGenerated = False\<rparr>"

lemma one_time_simps: "FormatTime one_time t = ''T''" "ParseTime one_time ''T'' = Some 7"
  by (simp_all add: one_time_def)

lemma empty_text:
  "parse_prefix_text env [] False = Inr ([], None)" "split_sections [] = Inr \<lparr>Before = [],
     GeneratedBody = [], GeneratedBlock = [], After = [], SecHasGenerated = False\<rparr>"
  "parse_auto_scope [] = []"
  by (simp_all add: parse_prefix_text_def Let_def canonical_prefixes_def split_sections_def
      parse_auto_scope_def auto_scope_marker_def)

lemma parse_empty: "parse_document one_time [] = Inr empty_document"
  by (simp add: parse_document_def valid_text_def empty_text canonical_prefixes_def
      assemble_document_def empty_document_def one_time_def)

lemma one_canonical:
  "canonical_prefixes [Prefix (Addr4 0x08080808) (Some 32)] = Inr [Prefix (Addr4 0x08080808) (Some 32)]"
  using prefix_string_ends(1) [of "Prefix (Addr4 0x08080808) (Some 32)"]
    parse_prefix_string [of 32 "0x08080808"]
  by (simp add: canonical_prefixes_def max_entries_def prefix_is_valid_def mask_word_def
      ipv4_prefix_def del: prefix_string.simps)

lemma replace_generated_exact_witness:
  "\<exists>doc. replaced_generated_document one_time 0 empty_document
      [Prefix (Addr4 0x08080808) (Some 32)] (Some 7) ''local-only'' = Inr doc \<and>
    Generated doc = [Prefix (Addr4 0x08080808) (Some 32)] \<and> GeneratedAt doc = Some 7 \<and>
    GeneratedScope doc = ''local-only''"
proof -
  let ?ps = "[Prefix (Addr4 0x08080808) (Some 32)]"
  let ?block = "render_generated_block one_time ?ps 7 ''local-only''"
  have small: "length ?block \<le> max_document_bytes" "valid_text ?block"
    by (simp_all add: render_generated_block_def text_line_def auto_begin_def auto_end_def bytes_def
        auto_scope_marker_def one_time_def ipv4_string_def octets_def dec.simps newline_def
        max_document_bytes_def valid_text_def Let_def cont_def char_constant)
  show ?thesis
    using replace_generated_exact [where env = one_time and current = empty_document and ps = ?ps
        and scope = "''local-only''" and u = 7 and t = "Some 7" and now = 0]
      parse_empty one_canonical small
    by (simp add: empty_document_def empty_text max_entries_def ipv4_prefix_def valid_auto_scope_def
        time_format_ok_def one_time_simps plain_def with_block_def regenerated_def)
qed

end
