(* ===== verification/Go_Path.thy ===== *)
theory Go_Path
  imports Go_Strings
begin

text \<open>
  The part of \<^verbatim>\<open>path/filepath\<close> the program uses, for slash-separated paths: \<^verbatim>\<open>IsAbs\<close>, \<^verbatim>\<open>Clean\<close>, \<^verbatim>\<open>Join\<close>,
  \<^verbatim>\<open>Rel\<close> and \<^verbatim>\<open>Dir\<close>, and what they do on clean paths.
\<close>

abbreviation slash :: char where "slash \<equiv> CHR 0x2F"

definition dot :: string where "dot = ''.''"

definition dotdot :: string where "dotdot = ''..''"

definition is_abs :: "string \<Rightarrow> bool" where
  "is_abs p \<longleftrightarrow> p \<noteq> [] \<and> hd p = slash"

section \<open>Cleaning\<close>

text \<open>
  The elements so far, last first. A \<^verbatim>\<open>..\<close> takes back an element; at the root it is dropped, and at
  the start of a relative path it is kept.
\<close>

fun clean_elements :: "bool \<Rightarrow> string list \<Rightarrow> string list \<Rightarrow> string list" where
  "clean_elements rooted out [] = rev out"
| "clean_elements rooted out (e # es) =
     (if e = [] \<or> e = dot then clean_elements rooted out es
      else if e = dotdot then
        (if out \<noteq> [] \<and> hd out \<noteq> dotdot then clean_elements rooted (tl out) es
         else if rooted then clean_elements rooted out es
         else clean_elements rooted (dotdot # out) es)
      else clean_elements rooted (e # out) es)"

definition elements :: "string \<Rightarrow> string list" where
  "elements p = clean_elements (is_abs p) [] (split_on slash p)"

definition clean :: "string \<Rightarrow> string" where
  "clean p = (if is_abs p then slash # join [slash] (elements p)
     else if elements p = [] then dot else join [slash] (elements p))"

definition join_paths :: "string list \<Rightarrow> string" where
  "join_paths ps = (let es = filter (\<lambda>p. p \<noteq> []) ps in if es = [] then [] else clean (join [slash] es))"

definition dir :: "string \<Rightarrow> string" where
  "dir p = clean (rev (dropWhile (\<lambda>c. c \<noteq> slash) (rev p)))"

text \<open>\<^verbatim>\<open>filepath.Rel\<close>: \<open>None\<close> is its error.\<close>

fun drop_common :: "string list \<Rightarrow> string list \<Rightarrow> string list \<times> string list" where
  "drop_common (a # as) (b # bs) = (if a = b then drop_common as bs else (a # as, b # bs))"
| "drop_common as bs = (as, bs)"

definition rel :: "string \<Rightarrow> string \<Rightarrow> string option" where
  "rel base target =
     (if is_abs base \<noteq> is_abs target then None
      else case drop_common (elements base) (elements target) of (up, down) \<Rightarrow>
        if dotdot \<in> set up then None
        else let es = replicate (length up) dotdot @ down in
          Some (if es = [] then dot else join [slash] es))"

text \<open>Leaving the directory a relative path starts in.\<close>

definition escapes :: "string \<Rightarrow> bool" where
  "escapes p \<longleftrightarrow> p = dotdot \<or> prefix (dotdot @ [slash]) p"

section \<open>Clean absolute paths\<close>

definition proper :: "string \<Rightarrow> bool" where
  "proper e \<longleftrightarrow> e \<noteq> [] \<and> e \<noteq> dot \<and> e \<noteq> dotdot \<and> slash \<notin> set e"

definition abs_path :: "string list \<Rightarrow> string" where
  "abs_path es = slash # join [slash] es"

lemma clean_elements_append:
  "list_all proper es \<Longrightarrow> clean_elements rooted out (es @ fs) = clean_elements rooted (rev es @ out) fs"
  by (induction es arbitrary: out) (auto simp: proper_def)

lemma clean_elements_proper: "list_all proper es \<Longrightarrow> clean_elements rooted out es = rev out @ es"
  using clean_elements_append [of es rooted out "[]"] by simp

lemma split_join_proper: "list_all proper es \<Longrightarrow> es \<noteq> [] \<Longrightarrow> split_on slash (join [slash] es) = es"
  by (rule split_join) (auto simp: list_all_iff proper_def)

lemma split_join_rest:
  "list_all proper es \<Longrightarrow> es \<noteq> [] \<Longrightarrow>
   split_on slash (join [slash] es @ slash # s) = es @ split_on slash s"
  by (induction "[slash]" es rule: join.induct) (auto simp: proper_def split_on_append)

lemma is_abs_abs_path [simp]: "is_abs (abs_path es)"
  by (simp add: is_abs_def abs_path_def)

lemma elements_abs_path [simp]: "list_all proper es \<Longrightarrow> elements (abs_path es) = es"
  by (cases "es = []") (auto simp: elements_def abs_path_def is_abs_def split_join_proper clean_elements_proper)

lemma clean_abs_path [simp]: "list_all proper es \<Longrightarrow> clean (abs_path es) = abs_path es"
  by (simp add: clean_def) (simp add: abs_path_def)

lemma join_not_abs: "list_all proper es \<Longrightarrow> \<not> is_abs (join [slash] es)"
  by (cases es; cases "tl es") (auto simp: is_abs_def proper_def dest: hd_in_set)

lemma elements_join: "list_all proper es \<Longrightarrow> elements (join [slash] es) = es"
  by (cases "es = []") (auto simp: elements_def join_not_abs split_join_proper clean_elements_proper is_abs_def)

lemma clean_join: "list_all proper es \<Longrightarrow> es \<noteq> [] \<Longrightarrow> clean (join [slash] es) = join [slash] es"
  by (simp add: clean_def join_not_abs elements_join)

lemma join_append: "xs \<noteq> [] \<Longrightarrow> ys \<noteq> [] \<Longrightarrow> join [slash] (xs @ ys) = join [slash] xs @ slash # join [slash] ys"
  by (induction "[slash]" xs rule: join.induct) (auto simp: neq_Nil_conv)

lemma join_Nil_iff: "list_all proper es \<Longrightarrow> join [slash] es = [] \<longleftrightarrow> es = []"
  by (cases es; cases "tl es") (auto simp: proper_def)

lemma join_paths_below [simp]:
  assumes "list_all proper es" and "list_all proper fs" and "fs \<noteq> []"
  shows "join_paths [abs_path es, join [slash] fs] = abs_path (es @ fs)"
proof -
  have "clean (slash # join [slash] es @ slash # join [slash] fs) = abs_path (es @ fs)"
    using assms split_join_proper [of fs] split_join_rest [of es]
    by (cases "es = []")
      (auto simp: clean_def elements_def is_abs_def abs_path_def clean_elements_append clean_elements_proper)
  then show ?thesis
    using assms by (simp add: join_paths_def abs_path_def join_Nil_iff)
qed

lemma drop_common_append: "drop_common es (es @ fs) = ([], fs)"
proof (induction es)
  case Nil
  show ?case
    by (cases fs) simp_all
qed simp

lemma rel_below [simp]:
  "list_all proper es \<Longrightarrow> list_all proper fs \<Longrightarrow> fs \<noteq> [] \<Longrightarrow>
   rel (abs_path es) (abs_path (es @ fs)) = Some (join [slash] fs)"
  by (simp add: rel_def drop_common_append)

lemma rel_same [simp]: "list_all proper es \<Longrightarrow> rel (abs_path es) (abs_path es) = Some dot"
  using drop_common_append [of es "[]"] by (simp add: rel_def)

lemma dir_abs_path [simp]:
  assumes "list_all proper es" and "proper f"
  shows "dir (abs_path (es @ [f])) = abs_path es"
proof -
  have "abs_path (es @ [f]) = (if es = [] then [slash] else abs_path es @ [slash]) @ f"
    by (simp add: abs_path_def join_append)
  moreover have "dropWhile (\<lambda>c. c \<noteq> slash) (rev f @ slash # q) = slash # q" for q
    using assms(2) dropWhile_append2 [of "rev f" "\<lambda>c. c \<noteq> slash" "slash # q"]
    by (auto simp: proper_def)
  ultimately have "dir (abs_path (es @ [f])) = clean (if es = [] then [slash] else abs_path es @ [slash])"
    by (auto simp: dir_def)
  moreover have "clean (if es = [] then [slash] else abs_path es @ [slash]) = abs_path es"
    using assms(1) split_join_rest [of es "[]"]
    by (auto simp: clean_def elements_def is_abs_def abs_path_def clean_elements_append clean_elements_proper)
  ultimately show ?thesis
    by simp
qed

end
