(* ===== verification/File_System.thy ===== *)
theory File_System
  imports Go_Path
begin

text \<open>
  What the program asks of the file system, and a machine that answers. A request is one system
  call, or a library function that is atomic for our purpose; the programs of the stores work for
  any environment that answers requests. The machine keeps a map from paths to nodes and has a plan
  of faults: a faulty request reports an error and changes nothing, except that a faulty write may
  leave a part of its data. A process that dies after some requests is the plan in which all later
  requests are faulty. Links inside the directory part of a path are not followed, and a removal
  never removes a directory.
\<close>

section \<open>Requests\<close>

datatype file_kind = Regular | Directory | Symlink | Special

text \<open>
  \<open>OpenRead\<close> and \<open>ReadLimited\<close> are \<^verbatim>\<open>os.Open\<close> and \<^verbatim>\<open>io.ReadAll\<close> of the opened file below a limit,
  \<open>ReadFile\<close> is \<^verbatim>\<open>os.ReadFile\<close>, \<open>SyncDirectory\<close> opens a directory, syncs and closes it, and
  \<open>OpenDirectory\<close> and \<open>SyncOpened\<close> are the first two of these steps. \<open>OpenLock\<close> opens or creates a file
  for writing, \<open>Flock\<close> tries to lock it without waiting, \<open>AwaitRetry\<close> is the select between the end of the
  context and a pause, and \<open>Unflock\<close> releases the lock; closing a file that was read is left out.
\<close>

datatype fs_request =
    Lstat string
  | OpenRead string
  | ReadLimited string nat
  | ReadFile string
  | MkdirAll string
  | CreateTemp string string
  | ChmodTemp string
  | Chmod string nat
  | WriteTemp string string
  | SyncTemp string
  | CloseTemp string
  | RemoveFile string
  | RenameFile string string
  | SyncDirectory string
  | OpenDirectory string
  | SyncOpened string
  | OpenLock string
  | Flock string
  | AwaitRetry
  | Unflock string

text \<open>\<open>Info\<close> is the kind, the size and the permissions of a file.\<close>

datatype fs_answer = Done | Info file_kind nat nat | Data string | Named string

type_synonym 'w fs = "fs_request \<Rightarrow> ('w, fs_answer fallible) state"

definition err_not_exist :: gerror where "err_not_exist = Sentinel ''file does not exist''"

definition err_answer :: gerror where "err_answer = Err ''answer of another request''"

definition fs_unit :: "'w fs \<Rightarrow> fs_request \<Rightarrow> ('w, gerror option) state" where
  "fs_unit fs r = do {
     answer \<leftarrow> fs r;
     State_Monad.return (case answer of Inl e \<Rightarrow> Some e | Inr _ \<Rightarrow> None) }"

definition fs_info :: "'w fs \<Rightarrow> string \<Rightarrow> ('w, (file_kind \<times> nat) fallible) state" where
  "fs_info fs p = attempt (fs (Lstat p)) (\<lambda>answer. State_Monad.return (case answer of
     Info k n mode \<Rightarrow> Inr (k, n) | _ \<Rightarrow> Inl err_answer))"

definition fs_mode :: "'w fs \<Rightarrow> string \<Rightarrow> ('w, (file_kind \<times> nat) fallible) state" where
  "fs_mode fs p = attempt (fs (Lstat p)) (\<lambda>answer. State_Monad.return (case answer of
     Info k n mode \<Rightarrow> Inr (k, mode) | _ \<Rightarrow> Inl err_answer))"

definition answered_data :: "fs_answer \<Rightarrow> string fallible" where
  "answered_data answer = (case answer of Data s \<Rightarrow> Inr s | _ \<Rightarrow> Inl err_answer)"

definition fs_data :: "'w fs \<Rightarrow> string \<Rightarrow> nat \<Rightarrow> ('w, string fallible) state" where
  "fs_data fs p n = attempt (fs (ReadLimited p n)) (\<lambda>answer. State_Monad.return (answered_data answer))"

definition fs_read :: "'w fs \<Rightarrow> string \<Rightarrow> ('w, string fallible) state" where
  "fs_read fs p = attempt (fs (ReadFile p)) (\<lambda>answer. State_Monad.return (answered_data answer))"

definition fs_named :: "'w fs \<Rightarrow> string \<Rightarrow> string \<Rightarrow> ('w, string fallible) state" where
  "fs_named fs d pattern = attempt (fs (CreateTemp d pattern)) (\<lambda>answer. State_Monad.return
     (case answer of Named t \<Rightarrow> Inr t | _ \<Rightarrow> Inl err_answer))"

text \<open>Requests in turn, each with the message that wraps its error.\<close>

fun in_turn :: "'w fs \<Rightarrow> (string \<times> fs_request) list \<Rightarrow> ('w, gerror option) state" where
  "in_turn fs [] = State_Monad.return None"
| "in_turn fs ((msg, r) # rs) = check (wrapped msg (fs_unit fs r)) (in_turn fs rs)"

section \<open>A machine\<close>

text \<open>A regular file has a content and permissions.\<close>

datatype node = File string nat | Folder | Other file_kind

type_synonym nodes = "string \<rightharpoonup> node"

text \<open>\<open>Fault written message\<close> writes so many bytes before it fails.\<close>

datatype fault = Invalid | Unsupported | WouldBlock | Fault nat string

definition err_invalid :: gerror where "err_invalid = Sentinel ''invalid argument''"

definition err_unsupported :: gerror where "err_unsupported = Sentinel ''operation not supported''"

definition err_would_block :: gerror where "err_would_block = Sentinel ''resource temporarily unavailable''"

fun fault_error :: "fault \<Rightarrow> gerror" where
  "fault_error Invalid = err_invalid"
| "fault_error Unsupported = err_unsupported"
| "fault_error WouldBlock = err_would_block"
| "fault_error (Fault n s) = Err s"

fun written :: "fault \<Rightarrow> nat" where
  "written (Fault n s) = n"
| "written _ = 0"

record 'r machine =
  Nodes :: nodes
  Plan :: "nat \<Rightarrow> fault option"
  Asked :: nat
  Suffix :: "nat \<Rightarrow> nat"
  Runtime :: 'r

definition node_info :: "node \<Rightarrow> fs_answer" where
  "node_info n = (case n of
     File s mode \<Rightarrow> Info Regular (length s) mode | Folder \<Rightarrow> Info Directory 0 448 | Other k \<Rightarrow> Info k 0 511)"

text \<open>The directory and all above it.\<close>

definition ancestors :: "string \<Rightarrow> string list" where
  "ancestors d = map (\<lambda>n. abs_path (take n (elements d))) [0..<Suc (length (elements d))]"

definition refuse :: "string \<Rightarrow> nodes \<Rightarrow> fs_answer fallible \<times> nodes" where
  "refuse msg ns = (Inl (Err msg), ns)"

definition with_file ::
  "nodes \<Rightarrow> string \<Rightarrow> (string \<Rightarrow> nat \<Rightarrow> fs_answer fallible \<times> nodes) \<Rightarrow> fs_answer fallible \<times> nodes" where
  "with_file ns p f = (case ns p of
     None \<Rightarrow> (Inl err_not_exist, ns) | Some (File s mode) \<Rightarrow> f s mode | Some _ \<Rightarrow> refuse ''not a regular file'' ns)"

definition with_folder :: "nodes \<Rightarrow> string \<Rightarrow> fs_answer fallible \<times> nodes" where
  "with_folder ns p = (case ns p of
     None \<Rightarrow> (Inl err_not_exist, ns) | Some Folder \<Rightarrow> (Inr Done, ns) | Some _ \<Rightarrow> refuse ''not a directory'' ns)"

definition make_folders :: "nodes \<Rightarrow> string list \<Rightarrow> fs_answer fallible \<times> nodes" where
  "make_folders ns ps =
     (if list_all (\<lambda>p. ns p = None \<or> ns p = Some Folder) ps
      then (Inr Done, \<lambda>p. if p \<in> set ps then Some Folder else ns p)
      else refuse ''not a directory'' ns)"

text \<open>The pattern of a temporary name ends in \<open>*\<close>, which the decimal digits of a random number replace.\<close>

definition temp_name :: "string \<Rightarrow> string \<Rightarrow> string \<Rightarrow> string" where
  "temp_name d pattern random = join_paths [d, butlast pattern @ random]"

definition make_temp :: "nodes \<Rightarrow> string \<Rightarrow> string \<Rightarrow> fs_answer fallible \<times> nodes" where
  "make_temp ns d t = (case ns d of
     Some Folder \<Rightarrow> if ns t = None then (Inr (Named t), ns(t \<mapsto> File [] 384)) else refuse ''file exists'' ns
   | _ \<Rightarrow> (Inl err_not_exist, ns))"

definition change_mode :: "nodes \<Rightarrow> string \<Rightarrow> nat \<Rightarrow> fs_answer fallible \<times> nodes" where
  "change_mode ns t mode = with_file ns t (\<lambda>s _. (Inr Done, ns(t \<mapsto> File s mode)))"

fun perform :: "string \<Rightarrow> nodes \<Rightarrow> fs_request \<Rightarrow> fs_answer fallible \<times> nodes" where
  "perform random ns (Lstat p) = (case ns p of None \<Rightarrow> (Inl err_not_exist, ns) | Some n \<Rightarrow> (Inr (node_info n), ns))"
| "perform random ns (OpenRead p) = (case ns p of None \<Rightarrow> (Inl err_not_exist, ns) | Some n \<Rightarrow> (Inr Done, ns))"
| "perform random ns (ReadLimited p n) = with_file ns p (\<lambda>s _. (Inr (Data (take n s)), ns))"
| "perform random ns (ReadFile p) = with_file ns p (\<lambda>s _. (Inr (Data s), ns))"
| "perform random ns (MkdirAll d) = make_folders ns (ancestors d)"
| "perform random ns (CreateTemp d pattern) = make_temp ns d (temp_name d pattern random)"
| "perform random ns (ChmodTemp t) = change_mode ns t 384"
| "perform random ns (Chmod t mode) = change_mode ns t mode"
| "perform random ns (WriteTemp t data) = with_file ns t (\<lambda>s mode. (Inr Done, ns(t \<mapsto> File (s @ data) mode)))"
| "perform random ns (RemoveFile p) = (case ns p of
     None \<Rightarrow> (Inl err_not_exist, ns)
   | Some Folder \<Rightarrow> refuse ''is a directory'' ns
   | Some _ \<Rightarrow> (Inr Done, ns(p := None)))"
| "perform random ns (RenameFile t p) = with_file ns t (\<lambda>s mode.
     if ns p = Some Folder then refuse ''is a directory'' ns
     else (Inr Done, (ns(t := None))(p \<mapsto> File s mode)))"
| "perform random ns (SyncDirectory d) = with_folder ns d"
| "perform random ns (OpenDirectory d) = with_folder ns d"
| "perform random ns (OpenLock p) = (case ns p of
     None \<Rightarrow> (Inr Done, ns(p \<mapsto> File [] 384))
   | Some Folder \<Rightarrow> refuse ''is a directory'' ns
   | Some _ \<Rightarrow> (Inr Done, ns))"
| "perform random ns _ = (Inr Done, ns)"

text \<open>What a faulty request leaves.\<close>

fun broken :: "fault \<Rightarrow> nodes \<Rightarrow> fs_request \<Rightarrow> nodes" where
  "broken f ns (WriteTemp t data) =
     snd (with_file ns t (\<lambda>s mode. (Inr Done, ns(t \<mapsto> File (s @ take (written f) data) mode))))"
| "broken f ns _ = ns"

definition disk :: "'r machine fs" where
  "disk r = State (\<lambda>m. let m' = m\<lparr>Asked := Asked m + 1\<rparr> in
     case Plan m (Asked m) of
       Some f \<Rightarrow> (Inl (fault_error f), m'\<lparr>Nodes := broken f (Nodes m) r\<rparr>)
     | None \<Rightarrow> (case perform (dec (Suffix m (Asked m))) (Nodes m) r of (a, ns) \<Rightarrow> (a, m'\<lparr>Nodes := ns\<rparr>)))"

end
