(* ===== verification/Fakeip_Store.thy ===== *)
theory Fakeip_Store
  imports Fakeip_Text Transcript File_System
begin

text \<open>
  The store of the fake-IP whitelist, \<^verbatim>\<open>internal/fakeip/store.go\<close>: reading, saving, replacing and
  previewing as programs over the requests they make to the file system. The answers come from an
  arbitrary environment, so other processes may change the files between any two requests. The
  mutex of a store makes one operation at a time of the same process, which is what a program is.
\<close>

section \<open>Paths\<close>

definition file_name :: string where "file_name = ''fakeip-whitelist-ipcidr.txt''"

record store =
  StoreDirectory :: string

text \<open>The environment of a store: the texts' one, \<^verbatim>\<open>filepath.Abs\<close> and the clock.\<close>

record store_env = text_env +
  AbsPath :: "string \<Rightarrow> string option"
  Now :: int

definition unsafe_path :: "string \<Rightarrow> gerror" where
  "unsafe_path what = Noted err_unsafe_path ('': '' @ what)"

definition inspect_directory_msg :: string where
  "inspect_directory_msg = ''inspect fake-IP whitelist directory''"

definition real_directory :: "file_kind \<times> nat \<Rightarrow> gerror option" where
  "real_directory info = (if fst info \<noteq> Directory
     then Some (unsafe_path ''directory must be a real directory'') else None)"

definition inspect_directory_if_present :: "'w fs \<Rightarrow> string \<Rightarrow> ('w, gerror option) state" where
  "inspect_directory_if_present fs d = do {
     answer \<leftarrow> fs_info fs d;
     State_Monad.return (case answer of
         Inl e \<Rightarrow> if error_is e err_not_exist then None else Some (Wrap inspect_directory_msg e)
       | Inr info \<Rightarrow> real_directory info) }"

definition inspect_directory :: "'w fs \<Rightarrow> string \<Rightarrow> ('w, gerror option) state" where
  "inspect_directory fs d = do {
     answer \<leftarrow> fs_info fs d;
     State_Monad.return (case answer of
         Inl e \<Rightarrow> Some (Wrap inspect_directory_msg e)
       | Inr info \<Rightarrow> real_directory info) }"

definition join_path :: "string \<Rightarrow> string \<Rightarrow> string" where
  "join_path d f = d @ ''/'' @ f"

text \<open>\<^verbatim>\<open>filepath.Dir\<close> of a joined path.\<close>

definition parent_directory :: "string \<Rightarrow> string" where
  "parent_directory p = (case cut_last CHR ''/'' p of Some (d, _) \<Rightarrow> d | None \<Rightarrow> ''.'')"

definition store_path :: "'w fs \<Rightarrow> 'e store_env_scheme \<Rightarrow> store \<Rightarrow> ('w, string fallible) state" where
  "store_path fs env st =
     (if trim_space (StoreDirectory st) = []
      then State_Monad.return (Inl (unsafe_path ''directory is empty''))
      else case AbsPath env (StoreDirectory st) of
        None \<Rightarrow> State_Monad.return (Inl (unsafe_path ''invalid directory''))
      | Some d \<Rightarrow>
          if d = ''/'' \<or> d = ''.''
          then State_Monad.return (Inl (unsafe_path ''invalid directory''))
          else do {
            failed \<leftarrow> inspect_directory_if_present fs d;
            State_Monad.return (case failed of
                Some e \<Rightarrow> Inl e | None \<Rightarrow> Inr (join_path d file_name)) })"

section \<open>Reading\<close>

definition checked_data :: "string \<Rightarrow> string fallible" where
  "checked_data s =
     (if length s > max_document_bytes then Inl err_too_large
      else if \<not> valid_text s then Inl (Err ''fake-IP whitelist is not valid UTF-8 text'')
      else Inr s)"

definition read_opened :: "'w fs \<Rightarrow> string \<Rightarrow> ('w, string fallible) state" where
  "read_opened fs p = do {
     answer \<leftarrow> fs_data fs p (max_document_bytes + 1);
     State_Monad.return (case answer of
         Inl e \<Rightarrow> Inl (Wrap ''read fake-IP whitelist'' e)
       | Inr s \<Rightarrow> checked_data s) }"

definition open_and_read :: "'w fs \<Rightarrow> string \<Rightarrow> ('w, string fallible) state" where
  "open_and_read fs p = do {
     opened \<leftarrow> fs_unit fs (OpenRead p);
     case opened of
       Some e \<Rightarrow> State_Monad.return (Inl (Wrap ''open fake-IP whitelist'' e))
     | None \<Rightarrow> read_opened fs p }"

definition read_file :: "'w fs \<Rightarrow> string \<Rightarrow> ('w, string fallible) state" where
  "read_file fs p = attempt (fs_info fs p) (\<lambda>(kind, n).
     if kind \<noteq> Regular
     then State_Monad.return (Inl (unsafe_path ''whitelist is not a regular file''))
     else if n > max_document_bytes then State_Monad.return (Inl err_too_large)
     else open_and_read fs p)"

text \<open>A file that does not exist reads as the empty content.\<close>

definition absent_is_empty :: "string fallible \<Rightarrow> string fallible" where
  "absent_is_empty r = (case r of
       Inl e \<Rightarrow> if error_is e err_not_exist then Inr [] else Inl e
     | Inr s \<Rightarrow> Inr s)"

definition check_revision ::
  "'w fs \<Rightarrow> 'e store_env_scheme \<Rightarrow> string \<Rightarrow> string \<Rightarrow> ('w, gerror option) state" where
  "check_revision fs env p expected = do {
     answer \<leftarrow> read_file fs p;
     State_Monad.return (case absent_is_empty answer of
         Inl e \<Rightarrow> Some e
       | Inr s \<Rightarrow> if Sha256Hex env s \<noteq> expected then Some err_conflict else None) }"

definition read_unlocked ::
  "'w fs \<Rightarrow> 'e store_env_scheme \<Rightarrow> store \<Rightarrow> ('w, document fallible) state" where
  "read_unlocked fs env st = attempt (store_path fs env st) (\<lambda>p. do {
     answer \<leftarrow> read_file fs p;
     State_Monad.return (case absent_is_empty answer of
         Inl e \<Rightarrow> Inl e
       | Inr s \<Rightarrow> parse_document (text_env.truncate env) s) })"

section \<open>Publishing\<close>

text \<open>The temporary file is written, synced and closed, then renamed over the document.\<close>

definition staging :: "string \<Rightarrow> string \<Rightarrow> (string \<times> fs_request) list" where
  "staging t content =
     [(''protect fake-IP whitelist temporary file'', ChmodTemp t),
      (''write fake-IP whitelist temporary file'', WriteTemp t content),
      (''sync fake-IP whitelist temporary file'', SyncTemp t),
      (''close fake-IP whitelist temporary file'', CloseTemp t)]"

definition stage ::
  "'w fs \<Rightarrow> 'e store_env_scheme \<Rightarrow> string \<Rightarrow> string \<Rightarrow> string \<Rightarrow> string \<Rightarrow> ('w, gerror option) state" where
  "stage fs env p content expected t = check (in_turn fs (staging t content))
    (check (check_revision fs env p expected)
       (wrapped ''publish fake-IP whitelist'' (fs_unit fs (RenameFile t p))))"

text \<open>The deferred closing, and the removal unless the file was renamed.\<close>

definition deferred :: "'w fs \<Rightarrow> string \<Rightarrow> bool \<Rightarrow> ('w, unit) state" where
  "deferred fs t committed = do {
     fs_unit fs (CloseTemp t);
     (if committed then State_Monad.return ()
      else do { fs_unit fs (RemoveFile t); State_Monad.return () }) }"

definition finish_commit ::
  "'w fs \<Rightarrow> string \<Rightarrow> document \<Rightarrow> string \<Rightarrow> gerror option \<Rightarrow> ('w, document fallible) state" where
  "finish_commit fs d doc t staged = do {
     failed \<leftarrow> (case staged of
         Some e \<Rightarrow> State_Monad.return (Some e)
       | None \<Rightarrow> wrapped ''sync fake-IP whitelist directory'' (fs_unit fs (SyncDirectory d)));
     deferred fs t (staged = None);
     State_Monad.return (case failed of Some e \<Rightarrow> Inl e | None \<Rightarrow> Inr doc) }"

definition replace_file ::
  "'w fs \<Rightarrow> 'e store_env_scheme \<Rightarrow> string \<Rightarrow> string \<Rightarrow> string \<Rightarrow> string \<Rightarrow> document \<Rightarrow>
   ('w, document fallible) state" where
  "replace_file fs env d p content expected doc = do {
     created \<leftarrow> fs_named fs d ''.fakeip-whitelist-*'';
     case created of
       Inl e \<Rightarrow> State_Monad.return (Inl (Wrap ''create fake-IP whitelist temporary file'' e))
     | Inr t \<Rightarrow> do {
         staged \<leftarrow> stage fs env p content expected t;
         finish_commit fs d doc t staged } }"

definition prepare_directory ::
  "'w fs \<Rightarrow> 'e store_env_scheme \<Rightarrow> string \<Rightarrow> string \<Rightarrow> string \<Rightarrow> ('w, gerror option) state" where
  "prepare_directory fs env d p expected =
     check (wrapped ''create fake-IP whitelist directory'' (fs_unit fs (MkdirAll d)))
    (check (inspect_directory fs d)
           (check_revision fs env p expected))"

definition commit_in ::
  "'w fs \<Rightarrow> 'e store_env_scheme \<Rightarrow> string \<Rightarrow> string \<Rightarrow> string \<Rightarrow> document \<Rightarrow>
   ('w, document fallible) state" where
  "commit_in fs env p content expected doc = (let d = parent_directory p in do {
     failed \<leftarrow> prepare_directory fs env d p expected;
     case failed of
       Some e \<Rightarrow> State_Monad.return (Inl e)
     | None \<Rightarrow> replace_file fs env d p content expected doc })"

definition commit_unlocked ::
  "'w fs \<Rightarrow> 'e store_env_scheme \<Rightarrow> store \<Rightarrow> string \<Rightarrow> string \<Rightarrow> ('w, document fallible) state" where
  "commit_unlocked fs env st content expected =
     (if length content > max_document_bytes then State_Monad.return (Inl err_too_large)
      else if \<not> valid_text content
      then State_Monad.return (Inl (Noted err_invalid_manual '': content is not valid UTF-8 text''))
      else case parse_document (text_env.truncate env) content of
        Inl e \<Rightarrow> State_Monad.return (Inl e)
      | Inr doc \<Rightarrow> attempt (store_path fs env st) (\<lambda>p. commit_in fs env p content expected doc))"

section \<open>Operations\<close>

definition read_document ::
  "'w fs \<Rightarrow> 'e store_env_scheme \<Rightarrow> store \<Rightarrow> ('w, document fallible) state" where
  "read_document fs env st = read_unlocked fs env st"

text \<open>Reading the document the caller has seen: a conflict unless its revision is the caller's.\<close>

definition read_revision ::
  "'w fs \<Rightarrow> 'e store_env_scheme \<Rightarrow> store \<Rightarrow> string \<Rightarrow> ('w, document fallible) state" where
  "read_revision fs env st revision = attempt (read_unlocked fs env st) (\<lambda>current.
     State_Monad.return (if revision = [] \<or> revision \<noteq> Revision current then Inl err_conflict
       else Inr current))"

definition saved_content :: "text_env \<Rightarrow> string \<Rightarrow> document \<Rightarrow> string fallible" where
  "saved_content env content current = (case validate_manual env content of
       Inl e \<Rightarrow> Inl e
     | Inr (manual, _) \<Rightarrow> map_sum id (\<lambda>sections. manual_content sections manual)
         (split_sections (Content current)))"

definition save_manual ::
  "'w fs \<Rightarrow> 'e store_env_scheme \<Rightarrow> store \<Rightarrow> string \<Rightarrow> string \<Rightarrow> ('w, document fallible) state" where
  "save_manual fs env st content revision = attempt (read_revision fs env st revision) (\<lambda>current.
     case saved_content (text_env.truncate env) content current of
       Inl e \<Rightarrow> State_Monad.return (Inl e)
     | Inr new_content \<Rightarrow> commit_unlocked fs env st new_content (Revision current))"

definition replaced_document ::
  "'e store_env_scheme \<Rightarrow> netip_prefix list \<Rightarrow> go_time \<Rightarrow> string \<Rightarrow> document \<Rightarrow> document fallible" where
  "replaced_document env ps t scope current =
     replaced_generated_document (text_env.truncate env) (Now env) current ps t scope"

definition replace_generated_with_scope ::
  "'w fs \<Rightarrow> 'e store_env_scheme \<Rightarrow> store \<Rightarrow> netip_prefix list \<Rightarrow> string \<Rightarrow> go_time \<Rightarrow> string \<Rightarrow>
   ('w, document fallible) state" where
  "replace_generated_with_scope fs env st ps revision t scope =
     attempt (read_revision fs env st revision) (\<lambda>current.
       case replaced_document env ps t scope current of
         Inl e \<Rightarrow> State_Monad.return (Inl e)
       | Inr doc \<Rightarrow> commit_unlocked fs env st (Content doc) (Revision current))"

definition replace_generated ::
  "'w fs \<Rightarrow> 'e store_env_scheme \<Rightarrow> store \<Rightarrow> netip_prefix list \<Rightarrow> string \<Rightarrow> go_time \<Rightarrow>
   ('w, document fallible) state" where
  "replace_generated fs env st ps revision t =
     replace_generated_with_scope fs env st ps revision t []"

definition preview_replace_generated ::
  "'w fs \<Rightarrow> 'e store_env_scheme \<Rightarrow> store \<Rightarrow> netip_prefix list \<Rightarrow> string \<Rightarrow> go_time \<Rightarrow> string \<Rightarrow>
   ('w, document fallible) state" where
  "preview_replace_generated fs env st ps revision t scope =
     attempt (read_revision fs env st revision) (\<lambda>current.
       State_Monad.return (replaced_document env ps t scope current))"

end
