(* ===== verification/Fakeip_Store_Proofs.thy ===== *)
theory Fakeip_Store_Proofs
  imports Fakeip_Store "HOL-Library.Sublist"
begin

text \<open>
  What the store may ask of the file system: nothing is changed unless the caller has seen the
  current revision, only temporary files of its own are written, and the document is replaced by
  renaming a complete temporary file right after its revision was checked again.
\<close>

section \<open>What the answers show\<close>

type_synonym fs_history = "(fs_request, fs_answer fallible) exchanges"

text \<open>One exchange shows the content of the document: its text, or nothing if it is absent.\<close>

definition shown :: "string \<Rightarrow> fs_request \<times> fs_answer fallible \<Rightarrow> string \<Rightarrow> bool" where
  "shown p x s \<longleftrightarrow> x = (ReadLimited p (max_document_bytes + 1), Inr (Data s)) \<or>
     (\<exists>e. error_is e err_not_exist \<and> s = [] \<and> snd x = Inl e \<and>
       fst x \<in> {Lstat p, OpenRead p, ReadLimited p (max_document_bytes + 1)})"

fun is_look :: "fs_request \<Rightarrow> bool" where
  "is_look (Lstat _) = True"
| "is_look (OpenRead _) = True"
| "is_look (ReadLimited _ _) = True"
| "is_look _ = False"

definition created :: "string \<Rightarrow> fs_history \<Rightarrow> string \<Rightarrow> bool" where
  "created d h t \<longleftrightarrow> (CreateTemp d ''.fakeip-whitelist-*'', Inr (Named t)) \<in> set h"

text \<open>The temporary file was created, protected, written, synced and closed, in this order.\<close>

definition complete :: "string \<Rightarrow> fs_history \<Rightarrow> string \<Rightarrow> string \<Rightarrow> bool" where
  "complete d h t s \<longleftrightarrow> (\<exists>a b x y. subseq
     [(CreateTemp d ''.fakeip-whitelist-*'', Inr (Named t)), (ChmodTemp t, Inr a),
      (WriteTemp t s, Inr b), (SyncTemp t, Inr x), (CloseTemp t, Inr y)] h)"

text \<open>
  The caller's revision is that of a content that was shown, from which \<open>plan\<close> makes \<open>s\<close>.
\<close>

definition planned ::
  "(string \<Rightarrow> string) \<Rightarrow> (string \<Rightarrow> string fallible) \<Rightarrow> string \<Rightarrow> string \<Rightarrow> fs_history \<Rightarrow> string \<Rightarrow> bool"
  where
  "planned sha plan p revision h s \<longleftrightarrow>
     (\<exists>x \<in> set h. \<exists>seen. shown p x seen \<and> sha seen = revision \<and> revision \<noteq> [] \<and> plan seen = Inr s)"

definition unchanged_since :: "(string \<Rightarrow> string) \<Rightarrow> string \<Rightarrow> string \<Rightarrow> fs_history \<Rightarrow> bool" where
  "unchanged_since sha p revision h \<longleftrightarrow> h \<noteq> [] \<and> (\<exists>s. shown p (last h) s \<and> sha s = revision)"

fun store_may ::
  "(string \<Rightarrow> string) \<Rightarrow> (string \<Rightarrow> string fallible) \<Rightarrow> string \<Rightarrow> string \<Rightarrow>
   fs_history \<Rightarrow> fs_request \<Rightarrow> bool" where
  "store_may sha plan d revision h (MkdirAll d') \<longleftrightarrow>
     d' = d \<and> (\<exists>s. planned sha plan (join_path d file_name) revision h s)"
| "store_may sha plan d revision h (CreateTemp d' pattern) \<longleftrightarrow>
     d' = d \<and> (\<exists>s. planned sha plan (join_path d file_name) revision h s)"
| "store_may sha plan d revision h (ChmodTemp t) \<longleftrightarrow> created d h t"
| "store_may sha plan d revision h (WriteTemp t s) \<longleftrightarrow>
     created d h t \<and> planned sha plan (join_path d file_name) revision h s"
| "store_may sha plan d revision h (SyncTemp t) \<longleftrightarrow> created d h t"
| "store_may sha plan d revision h (CloseTemp t) \<longleftrightarrow> created d h t"
| "store_may sha plan d revision h (RemoveFile t) \<longleftrightarrow> created d h t"
| "store_may sha plan d revision h (RenameFile t p) \<longleftrightarrow>
     p = join_path d file_name \<and> unchanged_since sha p revision h \<and>
     (\<exists>s. planned sha plan p revision h s \<and> complete d h t s)"
| "store_may sha plan d revision h (SyncDirectory d') \<longleftrightarrow> d' = d"
| "store_may sha plan d revision h r \<longleftrightarrow> is_look r"

lemma looks_allowed: "is_look r \<Longrightarrow> store_may sha plan d revision h r"
  by (cases r) auto

definition renamed :: "fs_history \<Rightarrow> bool" where
  "renamed h \<longleftrightarrow> (\<exists>t p a. (RenameFile t p, Inr a) \<in> set h)"

definition looks :: "fs_history \<Rightarrow> bool" where
  "looks h \<longleftrightarrow> (\<forall>x \<in> set h. is_look (fst x))"

lemma looks_simps [simp]:
  "looks []" "looks (x # h) \<longleftrightarrow> is_look (fst x) \<and> looks h" "looks (g @ h) \<longleftrightarrow> looks g \<and> looks h"
  by (auto simp: looks_def)

lemma renamed_simps [simp]:
  "\<not> renamed []" "renamed (g @ h) \<longleftrightarrow> renamed g \<or> renamed h"
  "renamed ((r, x) # h) \<longleftrightarrow> (\<exists>t p a. r = RenameFile t p \<and> x = Inr a) \<or> renamed h"
  by (auto simp: renamed_def)

lemma looks_not_renamed: "looks h \<Longrightarrow> \<not> renamed h"
  by (force simp: looks_def renamed_def)

lemma created_append [simp]: "created d h t \<Longrightarrow> created d (h @ g) t"
  by (simp add: created_def)

lemma planned_append [simp]:
  "planned sha plan p revision h s \<Longrightarrow> planned sha plan p revision (h @ g) s"
  by (auto simp: planned_def)

lemma complete_append: "complete d h t s \<Longrightarrow> complete d (h @ g) t s"
  unfolding complete_def by (meson list_emb_append2 subseq_order.order_trans subseq_rev_drop_many)

text \<open>The exchanges in which every request of a list succeeded.\<close>

definition succeeded :: "fs_request list \<Rightarrow> fs_history \<Rightarrow> bool" where
  "succeeded rs g \<longleftrightarrow> map fst g = rs \<and> (\<forall>x \<in> set g. \<exists>a. snd x = Inr a)"

lemma succeeded_simps [simp]:
  "succeeded [] g \<longleftrightarrow> g = []"
  "succeeded (r # rs) g \<longleftrightarrow> (\<exists>a g'. g = (r, Inr a) # g' \<and> succeeded rs g')"
  by (cases g; force simp: succeeded_def)+

lemma complete_intro:
  assumes "created d h t" and "succeeded [ChmodTemp t, WriteTemp t s, SyncTemp t, CloseTemp t] g"
  shows "complete d (h @ g @ g') t s"
proof -
  have "subseq [(CreateTemp d ''.fakeip-whitelist-*'', Inr (Named t))] h"
    using assms(1) by (simp add: created_def subseq_singleton_left)
  moreover obtain a b x y where "g = [(ChmodTemp t, Inr a), (WriteTemp t s, Inr b),
     (SyncTemp t, Inr x), (CloseTemp t, Inr y)]"
    using assms(2) by auto
  ultimately have "complete d (h @ g) t s"
    unfolding complete_def using list_emb_append_mono by fastforce
  from complete_append [OF this, of g'] show ?thesis
    by simp
qed

text \<open>What a commit leaves behind: the whole document, or none of it unless only the last sync failed.\<close>

definition settled :: "text_env \<Rightarrow> string \<Rightarrow> fs_history \<Rightarrow> document fallible \<Rightarrow> bool" where
  "settled texts d h r \<longleftrightarrow> (case r of
       Inl e \<Rightarrow> renamed h \<longrightarrow> (\<exists>e'. e = Wrap ''sync fake-IP whitelist directory'' e')
     | Inr doc \<Rightarrow> parse_document texts (Content doc) = Inr doc \<and> (\<exists>t a b. complete d h t (Content doc) \<and>
         (RenameFile t (join_path d file_name), Inr a) \<in> set h \<and> (SyncDirectory d, Inr b) \<in> set h))"

lemma settled_quiet: "settled texts d h r \<Longrightarrow> \<not> renamed g \<Longrightarrow> settled texts d (h @ g) r"
  using complete_append by (fastforce simp: settled_def split: sum.splits)

section \<open>Programs that look\<close>

lemma absent_simps [simp]:
  "absent_is_empty (Inr t) = Inr s \<longleftrightarrow> s = t"
  "absent_is_empty (Inl e) = Inr s \<longleftrightarrow> error_is e err_not_exist \<and> s = []"
  by (auto simp: absent_is_empty_def)

lemma other_errors [simp]:
  "Err m \<noteq> err_not_exist" "Wrap m e \<noteq> err_not_exist"
  "\<not> error_is (unsafe_path m) err_not_exist" "\<not> error_is err_too_large err_not_exist"
  "\<not> error_is err_answer err_not_exist" "\<not> error_is (Err m) err_not_exist"
  "error_is (Wrap m e) err_not_exist \<longleftrightarrow> error_is e err_not_exist"
  by (auto simp: unsafe_path_def err_unsafe_path_def err_not_exist_def err_too_large_def
      err_answer_def)

lemma absent_checked_data [simp]:
  "absent_is_empty (checked_data t) = Inr s \<Longrightarrow> s = t"
  by (auto simp: checked_data_def split: if_splits)

locale file_system =
  recorder fs asked for fs :: "'w fs" and asked :: "'w \<Rightarrow> fs_history"
begin

lemma fs_unit_wp:
  assumes "reached P w0 h w" and "P h r"
    and "\<And>e a w'. reached P w0 (h @ [(r, a)]) w' \<Longrightarrow>
      (case e of None \<Rightarrow> \<exists>b. a = Inr b | Some e' \<Rightarrow> a = Inl e') \<Longrightarrow> Q e w'"
  shows "wp (fs_unit fs r) Q w"
  unfolding fs_unit_def wp_bind
  by (rule reached_wp [OF assms(1,2)]) (auto simp: wp_return intro!: assms(3) split: sum.split)

lemma fs_info_wp:
  assumes "reached P w0 h w" and "P h (Lstat p)"
    and "\<And>r a w'. reached P w0 (h @ [(Lstat p, a)]) w' \<Longrightarrow>
      (\<And>e. r = Inl e \<Longrightarrow> error_is e err_not_exist \<Longrightarrow> a = Inl e) \<Longrightarrow> Q r w'"
  shows "wp (fs_info fs p) Q w"
  unfolding fs_info_def wp_attempt
  by (rule reached_wp [OF assms(1,2)])
    (auto simp: wp_return split: sum.split fs_answer.split intro!: assms(3))

text \<open>\<open>Q\<close> holds after any looks whose last one shows the content that was read.\<close>

definition after_looking ::
  "(fs_history \<Rightarrow> fs_request \<Rightarrow> bool) \<Rightarrow> 'w \<Rightarrow> fs_history \<Rightarrow> string \<Rightarrow>
   (string fallible \<Rightarrow> 'w \<Rightarrow> bool) \<Rightarrow> bool" where
  "after_looking P w0 h p Q \<longleftrightarrow> (\<forall>r g w. reached P w0 (h @ g) w \<and> looks g \<and>
     (\<forall>s. absent_is_empty r = Inr s \<longrightarrow> g \<noteq> [] \<and> shown p (last g) s) \<longrightarrow> Q r w)"

lemma after_lookingI:
  assumes "\<And>r g w. reached P w0 (h @ g) w \<Longrightarrow> looks g \<Longrightarrow>
    (\<And>s. absent_is_empty r = Inr s \<Longrightarrow> g \<noteq> [] \<and> shown p (last g) s) \<Longrightarrow> Q r w"
  shows "after_looking P w0 h p Q"
  unfolding after_looking_def by (intro allI impI, elim conjE, rule assms) blast+

lemma after_lookingD:
  assumes "after_looking P w0 h p Q" and "reached P w0 (h @ g @ [x]) w" and "looks (g @ [x])"
    and "\<And>s. absent_is_empty r = Inr s \<Longrightarrow> shown p x s"
  shows "Q r w"
  using assms unfolding after_looking_def by (metis append_is_Nil_conv last_snoc list.distinct(1))

lemma read_opened_wp:
  assumes start: "reached P w0 (h @ g) w" and "looks g" and looks: "\<And>h r. is_look r \<Longrightarrow> P h r"
    and post: "after_looking P w0 h p Q"
  shows "wp (read_opened fs p) Q w"
  unfolding read_opened_def fs_data_def answered_data_def wp_bind wp_attempt
proof (rule reached_wp [OF start looks])
  fix a w1
  assume w1: "reached P w0 ((h @ g) @ [(ReadLimited p (max_document_bytes + 1), a)]) w1"
  have stop: "Q r w1" if "\<And>s. absent_is_empty r = Inr s \<Longrightarrow>
      shown p (ReadLimited p (max_document_bytes + 1), a) s" for r
    by (rule after_lookingD [OF post _ _ that]) (use w1 assms(2) in simp_all)
  show "case a of Inl e \<Rightarrow> wp (State_Monad.return (case Inl e of
        Inl e \<Rightarrow> Inl (Wrap ''read fake-IP whitelist'' e) | Inr s \<Rightarrow> checked_data s)) Q w1
    | Inr a \<Rightarrow> wp (State_Monad.return (case a of Data s \<Rightarrow> Inr s | _ \<Rightarrow> Inl err_answer))
        (\<lambda>a. wp (State_Monad.return (case a of
          Inl e \<Rightarrow> Inl (Wrap ''read fake-IP whitelist'' e) | Inr s \<Rightarrow> checked_data s)) Q) w1"
    by (auto simp: wp_return shown_def split: sum.split fs_answer.split dest: absent_checked_data
        intro!: stop)
qed simp

lemma open_and_read_wp:
  assumes start: "reached P w0 (h @ g) w" and "looks g" and looks: "\<And>h r. is_look r \<Longrightarrow> P h r"
    and post: "after_looking P w0 h p Q"
  shows "wp (open_and_read fs p) Q w"
  unfolding open_and_read_def wp_bind
proof (rule fs_unit_wp [OF start looks])
  fix e a w1
  assume w1: "reached P w0 ((h @ g) @ [(OpenRead p, a)]) w1"
    and a: "case e of None \<Rightarrow> \<exists>b. a = Inr b | Some e' \<Rightarrow> a = Inl e'"
  show "wp (case e of Some e \<Rightarrow> State_Monad.return (Inl (Wrap ''open fake-IP whitelist'' e))
    | None \<Rightarrow> read_opened fs p) Q w1"
  proof (cases e)
    case None
    show ?thesis
      using read_opened_wp [of P w0 h "g @ [(OpenRead p, a)]" w1 p Q] w1 assms(2) looks post None
      by simp
  next
    case (Some e')
    then have "Q (Inl (Wrap ''open fake-IP whitelist'' e')) w1"
      using w1 a assms(2)
      by (intro after_lookingD [OF post, of g "(OpenRead p, a)"]) (auto simp: shown_def)
    then show ?thesis
      using Some by (simp add: wp_return)
  qed
qed simp

lemma read_file_wp:
  assumes start: "reached P w0 h w" and looks: "\<And>h r. is_look r \<Longrightarrow> P h r"
    and post: "after_looking P w0 h p Q"
  shows "wp (read_file fs p) Q w"
  unfolding read_file_def wp_attempt
proof (rule fs_info_wp [OF start looks])
  fix r :: "(file_kind \<times> nat) fallible" and a w1
  assume w1: "reached P w0 (h @ [(Lstat p, a)]) w1"
    and absent: "\<And>e. r = Inl e \<Longrightarrow> error_is e err_not_exist \<Longrightarrow> a = Inl e"
  have stop: "Q (Inl e) w1" if "error_is e err_not_exist \<Longrightarrow> a = Inl e" for e
    by (rule after_lookingD [OF post, of "[]" "(Lstat p, a)"])
      (use w1 that in \<open>auto simp: shown_def\<close>)
  show "case r of Inl e \<Rightarrow> Q (Inl e) w1 | Inr a \<Rightarrow> wp (case a of (kind, n) \<Rightarrow>
     if kind \<noteq> Regular
     then State_Monad.return (Inl (unsafe_path ''whitelist is not a regular file''))
     else if n > max_document_bytes then State_Monad.return (Inl err_too_large)
     else open_and_read fs p) Q w1"
    using absent open_and_read_wp [OF w1 _ looks post]
    by (auto simp: wp_return split: sum.split intro!: stop)
qed simp

lemma check_revision_wp:
  assumes start: "reached P w0 h w" and looks: "\<And>h r. is_look r \<Longrightarrow> P h r"
    and post: "\<And>e g w'. reached P w0 (h @ g) w' \<Longrightarrow> looks g \<Longrightarrow>
      (e = None \<Longrightarrow> unchanged_since (Sha256Hex env) p expected (h @ g)) \<Longrightarrow> Q e w'"
  shows "wp (check_revision fs env p expected) Q w"
  unfolding check_revision_def wp_bind wp_return
proof (rule read_file_wp [OF start looks after_lookingI], assumption)
  fix r g w'
  assume "reached P w0 (h @ g) w'" "looks g"
    "\<And>s. absent_is_empty r = Inr s \<Longrightarrow> g \<noteq> [] \<and> shown p (last g) s"
  then show "Q (case absent_is_empty r of Inl e \<Rightarrow> Some e
     | Inr s \<Rightarrow> if Sha256Hex env s \<noteq> expected then Some err_conflict else None) w'"
    by (intro post) (auto simp: unchanged_since_def split: sum.splits if_splits)
qed

section \<open>Publishing\<close>

lemma in_turn_wp:
  assumes "reached P w0 h w" and "\<And>g r. r \<in> set (map snd rs) \<Longrightarrow> P (h @ g) r"
    and "\<And>e g w'. reached P w0 (h @ g) w' \<Longrightarrow> fst ` set g \<subseteq> snd ` set rs \<Longrightarrow>
      (e = None \<Longrightarrow> succeeded (map snd rs) g) \<Longrightarrow> Q e w'"
  shows "wp (in_turn fs rs) Q w"
  using assms
proof (induction rs arbitrary: h w)
  case Nil
  show ?case
    using Nil(3) [of "[]"] Nil(1) by (simp add: wp_return)
next
  case (Cons x rs)
  obtain msg r where x: "x = (msg, r)"
    by fastforce
  show ?case
    unfolding x in_turn.simps wp_check wp_wrapped
  proof (rule fs_unit_wp [OF Cons.prems(1)])
    show "P h r"
      using Cons.prems(2) [of r "[]"] x by simp
    fix e a w1
    assume w1: "reached P w0 (h @ [(r, a)]) w1"
      and a: "case e of None \<Rightarrow> \<exists>b. a = Inr b | Some e' \<Rightarrow> a = Inl e'"
    have "wp (in_turn fs rs) Q w1" if "e = None"
    proof (rule Cons.IH [OF w1])
      show "P ((h @ [(r, a)]) @ g) r'" if "r' \<in> set (map snd rs)" for g r'
        using Cons.prems(2) [of r' "(r, a) # g"] that by simp
      fix f :: "gerror option" and g w2
      assume "reached P w0 ((h @ [(r, a)]) @ g) w2" "fst ` set g \<subseteq> snd ` set rs"
        "f = None \<Longrightarrow> succeeded (map snd rs) g"
      then show "Q f w2"
        using a that x by (intro Cons.prems(3) [of "(r, a) # g"]) auto
    qed
    then show "case map_option (Wrap msg) e of Some e \<Rightarrow> Q (Some e) w1 | None \<Rightarrow> wp (in_turn fs rs) Q w1"
      using Cons.prems(3) [OF w1] x by (cases e) auto
  qed
qed

lemma checked_rename_wp:
  assumes start: "reached P w0 h w" and looks: "\<And>h r. is_look r \<Longrightarrow> P h r"
    and may: "\<And>g. unchanged_since (Sha256Hex env) p expected (h @ g) \<Longrightarrow> P (h @ g) (RenameFile t p)"
    and post: "\<And>e g w'. reached P w0 (h @ g) w' \<Longrightarrow>
      (case e of None \<Rightarrow> \<exists>a. (RenameFile t p, Inr a) \<in> set g | Some _ \<Rightarrow> \<not> renamed g) \<Longrightarrow> Q e w'"
  shows "wp (check (check_revision fs env p expected)
    (wrapped msg (fs_unit fs (RenameFile t p)))) Q w"
  unfolding wp_check
proof (rule check_revision_wp [OF start looks])
  fix e :: "gerror option" and g w1
  assume w1: "reached P w0 (h @ g) w1" and g: "looks g"
    and same: "e = None \<Longrightarrow> unchanged_since (Sha256Hex env) p expected (h @ g)"
  show "case e of None \<Rightarrow> wp (wrapped msg (fs_unit fs (RenameFile t p))) Q w1 | Some e \<Rightarrow> Q (Some e) w1"
  proof (cases e)
    case None
    show ?thesis
      unfolding None option.case wp_wrapped
    proof (rule fs_unit_wp [OF w1 may [OF same [OF None]]])
      fix f a w2
      assume "reached P w0 ((h @ g) @ [(RenameFile t p, a)]) w2"
        and "case f of None \<Rightarrow> \<exists>b. a = Inr b | Some e' \<Rightarrow> a = Inl e'"
      then show "Q (map_option (Wrap msg) f) w2"
        using looks_not_renamed [OF g]
        by (intro post [of "g @ [(RenameFile t p, a)]"]) (auto split: option.splits)
    qed
  next
    case (Some e')
    then show ?thesis
      using w1 looks_not_renamed [OF g] by (auto intro: post)
  qed
qed

lemma stage_wp:
  fixes plan d revision and env :: "'e store_env_scheme"
  defines "P \<equiv> store_may (Sha256Hex env) plan d revision" and "p \<equiv> join_path d file_name"
  assumes start: "reached P w0 h w" and t: "created d h t"
    and content: "planned (Sha256Hex env) plan p revision h content"
    and post: "\<And>e g w'. reached P w0 (h @ g) w' \<Longrightarrow>
      (case e of None \<Rightarrow> complete d (h @ g) t content \<and> (\<exists>a. (RenameFile t p, Inr a) \<in> set g)
       | Some _ \<Rightarrow> \<not> renamed g) \<Longrightarrow> Q e w'"
  shows "wp (stage fs env p content revision t) Q w"
  unfolding stage_def wp_check [of "in_turn _ _"]
proof (rule in_turn_wp [OF start])
  note may = P_def p_def t content
  fix e :: "gerror option" and g w1
  assume w1: "reached P w0 (h @ g) w1" and g: "fst ` set g \<subseteq> snd ` set (staging t content)"
    and all: "e = None \<Longrightarrow> succeeded (map snd (staging t content)) g"
  have quiet: "\<not> renamed g"
    using g by (force simp: renamed_def staging_def)
  have "wp (check (check_revision fs env p revision)
       (wrapped ''publish fake-IP whitelist'' (fs_unit fs (RenameFile t p)))) Q w1" if "e = None"
  proof (rule checked_rename_wp [OF w1])
    have whole: "complete d (h @ g @ g') t content" for g'
      using complete_intro [OF t] all that by (simp add: staging_def)
    have "planned (Sha256Hex env) plan p revision (h @ g @ g') content" for g'
      using content by simp
    then show "P ((h @ g) @ g') (RenameFile t p)"
      if "unchanged_since (Sha256Hex env) p revision ((h @ g) @ g')" for g'
      using that whole unfolding P_def p_def by auto
    show "Q f w'" if "reached P w0 ((h @ g) @ g') w'" and
      "case f of None \<Rightarrow> \<exists>a. (RenameFile t p, Inr a) \<in> set g' | Some _ \<Rightarrow> \<not> renamed g'" for f :: "gerror option" and g' w'
      using that whole quiet by (intro post [of "g @ g'"]) (auto split: option.splits)
  qed (simp add: P_def looks_allowed)
  then show "case e of Some e \<Rightarrow> Q (Some e) w1 | None \<Rightarrow> wp (check (check_revision fs env p revision)
       (wrapped ''publish fake-IP whitelist'' (fs_unit fs (RenameFile t p)))) Q w1"
    using post [OF w1, of "Some _"] quiet by (auto split: option.split)
qed (use t content in \<open>auto simp: P_def p_def staging_def\<close>)

lemma deferred_wp:
  assumes start: "reached P w0 h w" and may: "\<And>g. P (h @ g) (CloseTemp t)"
      "\<And>g. P (h @ g) (RemoveFile t)"
    and post: "\<And>g w'. reached P w0 (h @ g) w' \<Longrightarrow> \<not> renamed g \<Longrightarrow> Q () w'"
  shows "wp (deferred fs t committed) Q w"
  unfolding deferred_def wp_bind
proof (rule fs_unit_wp [OF start may(1) [of "[]", simplified]])
  fix a w1 assume w1: "reached P w0 (h @ [(CloseTemp t, a)]) w1"
  have "wp (fs_unit fs (RemoveFile t)) (\<lambda>_. Q ()) w1"
    by (rule fs_unit_wp [OF w1 may(2)]) (auto intro: post)
  then show "wp (if committed then State_Monad.return ()
      else do { fs_unit fs (RemoveFile t); State_Monad.return () }) Q w1"
    using post [OF w1] by (simp add: wp_simps)
qed

lemma finish_commit_wp:
  fixes plan d revision and env :: "'e store_env_scheme"
  defines "P \<equiv> store_may (Sha256Hex env) plan d revision"
  assumes start: "reached P w0 h w" and t: "created d h t"
    and doc: "parse_document texts (Content doc) = Inr doc"
    and staged: "case staged of
      None \<Rightarrow> complete d h t (Content doc) \<and> (\<exists>a. (RenameFile t (join_path d file_name), Inr a) \<in> set h)
    | Some _ \<Rightarrow> \<not> renamed h"
    and post: "\<And>r g w'. reached P w0 (h @ g) w' \<Longrightarrow> settled texts d (h @ g) r \<Longrightarrow> Q r w'"
  shows "wp (finish_commit fs d doc t staged) Q w"
proof -
  have last: "wp (deferred fs t c) (\<lambda>_. wp (State_Monad.return r) Q) w'"
    if "reached P w0 (h @ g) w'" and "settled texts d (h @ g) r" for c r g w'
    by (rule deferred_wp [OF that(1)])
      (use t settled_quiet [OF that(2)] in \<open>auto simp: P_def wp_return intro!: post\<close>)
  show ?thesis
  proof (cases staged)
    case None
    show ?thesis
      unfolding finish_commit_def wp_bind None option.case wp_wrapped
    proof (rule fs_unit_wp [OF start])
      fix e a w1
      assume w1: "reached P w0 (h @ [(SyncDirectory d, a)]) w1"
        and a: "case e of None \<Rightarrow> \<exists>b. a = Inr b | Some e' \<Rightarrow> a = Inl e'"
      have "settled texts d (h @ [(SyncDirectory d, a)])
        (case map_option (Wrap ''sync fake-IP whitelist directory'') e of Some e \<Rightarrow> Inl e | None \<Rightarrow> Inr doc)"
        using doc staged a None complete_append by (cases e) (fastforce simp: settled_def)+
      from last [OF w1 this] show "wp (deferred fs t (None = None)) (\<lambda>_. wp (State_Monad.return
         (case map_option (Wrap ''sync fake-IP whitelist directory'') e of
           Some e \<Rightarrow> Inl e | None \<Rightarrow> Inr doc)) Q) w1" .
    qed (simp add: P_def)
  next
    case (Some e)
    then have "settled texts d h (Inl e)"
      using staged by (simp add: settled_def)
    with last [of "[]" w "Inl e"] start show ?thesis
      using Some by (simp add: finish_commit_def wp_bind wp_return)
  qed
qed

lemma parent_join [simp]: "parent_directory (join_path d file_name) = d"
proof -
  have "CHR ''/'' \<notin> set file_name"
    by (simp add: file_name_def)
  then show ?thesis
    using cut_last_append [of "CHR ''/''" file_name d]
    by (simp add: parent_directory_def join_path_def del: cut_last_append)
qed

lemma parsed_document:
  assumes "parse_document texts s = Inr doc"
  shows "Content doc = s" and "Revision doc = Sha256Hex texts s"
  using assms
  by (auto simp: parse_document_def assemble_document_def split: if_splits sum.splits prod.splits)

lemma inspect_directory_wp:
  assumes "reached P w0 h w" and "\<And>h r. is_look r \<Longrightarrow> P h r"
    and "\<And>e g w'. reached P w0 (h @ g) w' \<Longrightarrow> looks g \<Longrightarrow> Q e w'"
  shows "wp (inspect_directory fs d) Q w" and "wp (inspect_directory_if_present fs d) Q w"
  unfolding inspect_directory_def inspect_directory_if_present_def wp_bind wp_return
  by (rule fs_info_wp [OF assms(1,2)]; auto intro: assms(3))+

lemma store_path_wp:
  assumes "reached P w0 h w" and "\<And>h r. is_look r \<Longrightarrow> P h r"
    and "\<And>r g w'. reached P w0 (h @ g) w' \<Longrightarrow> looks g \<Longrightarrow> (\<And>p. r = Inr p \<Longrightarrow>
      (\<exists>d. AbsPath env (StoreDirectory st) = Some d \<and> p = join_path d file_name)) \<Longrightarrow> Q r w'"
  shows "wp (store_path fs env st) Q w"
proof -
  have "Q (Inl e) w" for e
    using assms(3) [of "[]" w "Inl e"] assms(1) by simp
  moreover have "wp (do { failed \<leftarrow> inspect_directory_if_present fs d; State_Monad.return
      (case failed of Some e \<Rightarrow> Inl e | None \<Rightarrow> Inr (join_path d file_name)) }) Q w"
    if "AbsPath env (StoreDirectory st) = Some d" for d
    unfolding wp_bind wp_return
    by (rule inspect_directory_wp(2) [OF assms(1,2)])
      (use that in \<open>auto intro!: assms(3) split: option.splits\<close>)
  ultimately show ?thesis
    by (auto simp: store_path_def wp_simps split: option.split)
qed

lemma prepare_directory_wp:
  assumes start: "reached P w0 h w" and "P h (MkdirAll d)" and looks: "\<And>h r. is_look r \<Longrightarrow> P h r"
    and post: "\<And>e g w'. reached P w0 (h @ g) w' \<Longrightarrow> \<not> renamed g \<Longrightarrow> Q e w'"
  shows "wp (prepare_directory fs env d p expected) Q w"
  unfolding prepare_directory_def wp_check wp_wrapped
proof (rule fs_unit_wp [OF start assms(2)])
  fix e a w1 assume w1: "reached P w0 (h @ [(MkdirAll d, a)]) w1"
  have inspected: "wp (inspect_directory fs d) (\<lambda>failed w. case failed of
      Some e \<Rightarrow> Q (Some e) w | None \<Rightarrow> wp (check_revision fs env p expected) Q w) w1"
  proof (rule inspect_directory_wp(1) [OF w1 looks])
    fix f :: "gerror option" and g w2
    assume w2: "reached P w0 ((h @ [(MkdirAll d, a)]) @ g) w2" and g: "looks g"
    have "wp (check_revision fs env p expected) Q w2"
    proof (rule check_revision_wp [OF w2 looks])
      fix f' g' w3 assume "reached P w0 (((h @ [(MkdirAll d, a)]) @ g) @ g') w3" "looks g'"
      then show "Q f' w3"
        using looks_not_renamed g by (intro post [of "(MkdirAll d, a) # g @ g'"]) auto
    qed
    then show "case f of Some e \<Rightarrow> Q (Some e) w2 | None \<Rightarrow> wp (check_revision fs env p expected) Q w2"
      using w2 looks_not_renamed [OF g] by (auto split: option.split intro: post)
  qed
  then show "case map_option (Wrap ''create fake-IP whitelist directory'') e of
      Some e \<Rightarrow> Q (Some e) w1
    | None \<Rightarrow> wp (inspect_directory fs d) (\<lambda>failed w. case failed of
        Some e \<Rightarrow> Q (Some e) w | None \<Rightarrow> wp (check_revision fs env p expected) Q w) w1"
    using w1 by (auto split: option.split intro: post)
qed

lemma staged_wp:
  fixes plan d revision and env :: "'e store_env_scheme"
  defines "P \<equiv> store_may (Sha256Hex env) plan d revision"
  assumes start: "reached P w0 h w" and quiet: "\<not> renamed h" and t: "created d h t"
    and content: "planned (Sha256Hex env) plan (join_path d file_name) revision h (Content doc)"
    and doc: "parse_document texts (Content doc) = Inr doc"
    and post: "\<And>r g w'. reached P w0 (h @ g) w' \<Longrightarrow> settled texts d (h @ g) r \<Longrightarrow> Q r w'"
  shows "wp (stage fs env (join_path d file_name) (Content doc) revision t \<bind>
    finish_commit fs d doc t) Q w"
  unfolding wp_bind
proof (rule stage_wp [OF start [unfolded P_def] t content])
  fix e :: "gerror option" and g w1
  assume w1: "reached (store_may (Sha256Hex env) plan d revision) w0 (h @ g) w1"
    and e: "case e of
      None \<Rightarrow> complete d (h @ g) t (Content doc) \<and>
        (\<exists>a. (RenameFile t (join_path d file_name), Inr a) \<in> set g)
    | Some _ \<Rightarrow> \<not> renamed g"
  show "wp (finish_commit fs d doc t e) Q w1"
  proof (rule finish_commit_wp [OF w1 _ doc])
    show "created d (h @ g) t"
      using t by (rule created_append)
    show "case e of
      None \<Rightarrow> complete d (h @ g) t (Content doc) \<and>
        (\<exists>a. (RenameFile t (join_path d file_name), Inr a) \<in> set (h @ g))
    | Some _ \<Rightarrow> \<not> renamed (h @ g)"
      using e quiet by (auto split: option.splits)
  qed (simp add: post P_def)
qed

lemma replace_file_wp:
  fixes plan d revision and env :: "'e store_env_scheme"
  defines "P \<equiv> store_may (Sha256Hex env) plan d revision" and "p \<equiv> join_path d file_name"
  assumes start: "reached P w0 h w" and quiet: "\<not> renamed h"
    and content: "planned (Sha256Hex env) plan p revision h (Content doc)"
    and doc: "parse_document texts (Content doc) = Inr doc"
    and post: "\<And>r g w'. reached P w0 (h @ g) w' \<Longrightarrow> settled texts d (h @ g) r \<Longrightarrow> Q r w'"
  shows "wp (replace_file fs env d p (Content doc) revision doc) Q w"
  unfolding replace_file_def fs_named_def wp_bind [of "attempt _ _"] wp_attempt
proof (rule reached_wp [OF start])
  show "P h (CreateTemp d ''.fakeip-whitelist-*'')"
    using content by (auto simp: P_def p_def)
  fix a :: "fs_answer fallible" and w1
  let ?x = "(CreateTemp d ''.fakeip-whitelist-*'', a)"
  assume w1: "reached P w0 (h @ [?x]) w1"
  have "wp (stage fs env p (Content doc) revision t \<bind> finish_commit fs d doc t) Q w1"
    if a: "a = Inr (Named t)" for t
    unfolding p_def
  proof (rule staged_wp [OF w1 [unfolded P_def] _ _ _ doc])
    fix r g w' assume "reached (store_may (Sha256Hex env) plan d revision) w0 ((h @ [?x]) @ g) w'"
      "settled texts d ((h @ [?x]) @ g) r"
    then show "Q r w'"
      by (intro post [of "?x # g"]) (simp_all add: P_def)
  qed (use quiet content in \<open>auto simp: a created_def p_def\<close>)
  moreover have "Q (Inl e) w1" for e
    using w1 quiet by (intro post [of "[?x]"]) (auto simp: settled_def)
  ultimately show "case a of Inl e \<Rightarrow> wp (case Inl e of
        Inl e \<Rightarrow> State_Monad.return (Inl (Wrap ''create fake-IP whitelist temporary file'' e))
      | Inr t \<Rightarrow> stage fs env p (Content doc) revision t \<bind> finish_commit fs d doc t) Q w1
    | Inr a \<Rightarrow> wp (State_Monad.return (case a of Named t \<Rightarrow> Inr t | _ \<Rightarrow> Inl err_answer)) (\<lambda>a. wp (case a of
        Inl e \<Rightarrow> State_Monad.return (Inl (Wrap ''create fake-IP whitelist temporary file'' e))
      | Inr t \<Rightarrow> stage fs env p (Content doc) revision t \<bind> finish_commit fs d doc t) Q) w1"
    by (auto simp: wp_return split: sum.split fs_answer.split)
qed

lemma commit_in_wp:
  fixes plan d revision and env :: "'e store_env_scheme"
  defines "P \<equiv> store_may (Sha256Hex env) plan d revision" and "p \<equiv> join_path d file_name"
  assumes start: "reached P w0 h w" and quiet: "\<not> renamed h"
    and content: "planned (Sha256Hex env) plan p revision h (Content doc)"
    and doc: "parse_document texts (Content doc) = Inr doc"
    and post: "\<And>r g w'. reached P w0 (h @ g) w' \<Longrightarrow> settled texts d (h @ g) r \<Longrightarrow> Q r w'"
  shows "wp (commit_in fs env p (Content doc) revision doc) Q w"
  unfolding commit_in_def Let_def wp_bind p_def parent_join
proof (rule prepare_directory_wp [OF start])
  show "P h (MkdirAll d)"
    using content by (auto simp: P_def p_def)
  fix e :: "gerror option" and g w1
  assume w1: "reached P w0 (h @ g) w1" and g: "\<not> renamed g"
  have "wp (replace_file fs env d (join_path d file_name) (Content doc) revision doc) Q w1"
  proof (rule replace_file_wp [OF w1 [unfolded P_def] _ _ doc])
    fix r g' w' assume "reached (store_may (Sha256Hex env) plan d revision) w0 ((h @ g) @ g') w'"
      "settled texts d ((h @ g) @ g') r"
    then show "Q r w'"
      by (intro post [of "g @ g'"]) (simp_all add: P_def)
  qed (use quiet g content in \<open>auto simp: p_def\<close>)
  then show "wp (case e of Some e \<Rightarrow> State_Monad.return (Inl e)
      | None \<Rightarrow> replace_file fs env d (join_path d file_name) (Content doc) revision doc) Q w1"
    using w1 g quiet by (auto simp: wp_return settled_def split: option.split intro!: post)
qed (simp add: P_def looks_allowed)

section \<open>Operations\<close>

lemma commit_unlocked_wp:
  fixes plan d revision and env :: "'e store_env_scheme"
  defines "P \<equiv> store_may (Sha256Hex env) plan d revision" and "texts \<equiv> text_env.truncate env"
  assumes start: "reached P w0 h w" and quiet: "\<not> renamed h"
    and d: "AbsPath env (StoreDirectory st) = Some d"
    and content: "planned (Sha256Hex env) plan (join_path d file_name) revision h content"
    and post: "\<And>r g w'. reached P w0 (h @ g) w' \<Longrightarrow> settled texts d (h @ g) r \<Longrightarrow> Q r w'"
  shows "wp (commit_unlocked fs env st content revision) Q w"
proof -
  have stop: "Q (Inl e) w" for e
    using post [of "[]" w "Inl e"] start quiet by (simp add: settled_def)
  have "wp (attempt (store_path fs env st) (\<lambda>p. commit_in fs env p content revision doc)) Q w"
    if "parse_document texts content = Inr doc" for doc
    unfolding wp_attempt
  proof (rule store_path_wp [OF start])
    note doc = parsed_document(1) [OF that]
    fix r :: "string fallible" and g w1
    assume w1: "reached P w0 (h @ g) w1" and g: "looks g" and r: "\<And>p. r = Inr p \<Longrightarrow>
      (\<exists>d. AbsPath env (StoreDirectory st) = Some d \<and> p = join_path d file_name)"
    have "wp (commit_in fs env (join_path d file_name) content revision doc) Q w1"
      unfolding doc [symmetric]
    proof (rule commit_in_wp [OF w1 [unfolded P_def]])
      show "parse_document texts (Content doc) = Inr doc"
        using that doc by simp
      fix r g' w' assume "reached (store_may (Sha256Hex env) plan d revision) w0 ((h @ g) @ g') w'"
        "settled texts d ((h @ g) @ g') r"
      then show "Q r w'"
        by (intro post [of "g @ g'"]) (simp_all add: P_def)
    qed (use quiet looks_not_renamed [OF g] content doc in auto)
    moreover have "Q (Inl e) w1" for e
      using w1 looks_not_renamed [OF g] quiet by (intro post) (auto simp: settled_def)
    ultimately show "case r of Inl e \<Rightarrow> Q (Inl e) w1
      | Inr p \<Rightarrow> wp (commit_in fs env p content revision doc) Q w1"
      using r d by (auto split: sum.split)
  qed (simp add: P_def looks_allowed)
  then show ?thesis
    using stop by (auto simp: commit_unlocked_def texts_def wp_simps split: sum.split)
qed

text \<open>The document that was read, shown by one of the exchanges.\<close>

lemma read_unlocked_wp:
  assumes start: "reached P w0 [] w" and looks: "\<And>h r. is_look r \<Longrightarrow> P h r"
    and post: "\<And>r g w'. reached P w0 g w' \<Longrightarrow> looks g \<Longrightarrow> (\<And>doc. r = Inr doc \<Longrightarrow>
      \<exists>d. AbsPath env (StoreDirectory st) = Some d \<and>
        (\<exists>x \<in> set g. shown (join_path d file_name) x (Content doc)) \<and>
        parse_document (text_env.truncate env) (Content doc) = Inr doc) \<Longrightarrow> Q r w'"
  shows "wp (read_unlocked fs env st) Q w"
  unfolding read_unlocked_def wp_attempt
proof (rule store_path_wp [OF start looks])
  fix r :: "string fallible" and g w1
  assume w1: "reached P w0 ([] @ g) w1" and g: "looks g" and r: "\<And>p. r = Inr p \<Longrightarrow>
      (\<exists>d. AbsPath env (StoreDirectory st) = Some d \<and> p = join_path d file_name)"
  have "wp (read_file fs p \<bind> (\<lambda>answer. State_Monad.return (case absent_is_empty answer of
      Inl e \<Rightarrow> Inl e | Inr s \<Rightarrow> parse_document (text_env.truncate env) s))) Q w1" if p: "r = Inr p" for p
    unfolding wp_bind wp_return
  proof (rule read_file_wp [OF w1 looks after_lookingI], assumption)
    fix a g' w2
    assume w2: "reached P w0 (([] @ g) @ g') w2" and g': "looks g'"
      and seen: "\<And>s. absent_is_empty a = Inr s \<Longrightarrow> g' \<noteq> [] \<and> shown p (last g') s"
    show "Q (case absent_is_empty a of Inl e \<Rightarrow> Inl e
      | Inr s \<Rightarrow> parse_document (text_env.truncate env) s) w2"
    proof (rule post)
      show "reached P w0 (g @ g') w2" "looks (g @ g')"
        using w2 g g' by simp_all
      fix doc assume "(case absent_is_empty a of Inl e \<Rightarrow> Inl e
        | Inr s \<Rightarrow> parse_document (text_env.truncate env) s) = Inr doc"
      then obtain s where s: "absent_is_empty a = Inr s"
        "parse_document (text_env.truncate env) s = Inr doc"
        by (cases "absent_is_empty a") auto
      moreover have "Content doc = s"
        using s(2) by (rule parsed_document)
      moreover have "last g' \<in> set (g @ g')" "shown p (last g') s"
        using seen s by auto
      ultimately show "\<exists>d. AbsPath env (StoreDirectory st) = Some d \<and>
        (\<exists>x \<in> set (g @ g'). shown (join_path d file_name) x (Content doc)) \<and>
        parse_document (text_env.truncate env) (Content doc) = Inr doc"
        using r [OF p] by blast
    qed
  qed
  then show "case r of Inl e \<Rightarrow> Q (Inl e) w1
    | Inr p \<Rightarrow> wp (read_file fs p \<bind> (\<lambda>answer. State_Monad.return (case absent_is_empty answer of
      Inl e \<Rightarrow> Inl e | Inr s \<Rightarrow> parse_document (text_env.truncate env) s))) Q w1"
    using w1 g by (auto split: sum.split intro: post)
qed

text \<open>The operation both writers are instances of: read, plan the new content, commit it.\<close>

lemma update_wp:
  fixes d revision change and env :: "'e store_env_scheme"
  defines "texts \<equiv> text_env.truncate env"
  defines "plan \<equiv> \<lambda>s. case parse_document texts s of Inl e \<Rightarrow> Inl e | Inr current \<Rightarrow> change current"
  assumes start: "reached (store_may (Sha256Hex env) plan d revision) w0 [] w"
    and d: "\<And>d'. AbsPath env (StoreDirectory st) = Some d' \<Longrightarrow> d' = d"
    and post: "\<And>r h w'. reached (store_may (Sha256Hex env) plan d revision) w0 h w' \<Longrightarrow>
      settled texts d h r \<Longrightarrow> Q r w'"
  shows "wp (attempt (read_revision fs env st revision) (\<lambda>current. case change current of
      Inl e \<Rightarrow> State_Monad.return (Inl e)
    | Inr s \<Rightarrow> commit_unlocked fs env st s (Revision current))) Q w"
  unfolding read_revision_def wp_attempt wp_return
proof (rule read_unlocked_wp [OF start looks_allowed], assumption)
  let ?P = "store_may (Sha256Hex env) plan d revision"
  fix r :: "document fallible" and h w1
  assume w1: "reached ?P w0 h w1" and h: "looks h" and r: "\<And>doc. r = Inr doc \<Longrightarrow>
      \<exists>d. AbsPath env (StoreDirectory st) = Some d \<and>
        (\<exists>x \<in> set h. shown (join_path d file_name) x (Content doc)) \<and>
        parse_document (text_env.truncate env) (Content doc) = Inr doc"
  have stop: "Q (Inl e) w1" for e
    using w1 looks_not_renamed [OF h] by (intro post) (auto simp: settled_def)
  have "wp (commit_unlocked fs env st s revision) Q w1"
    if doc: "r = Inr doc" "revision \<noteq> []" "revision = Revision doc" and s: "change doc = Inr s" for doc s
  proof (rule commit_unlocked_wp [OF w1 looks_not_renamed [OF h]])
    have seen: "AbsPath env (StoreDirectory st) = Some d"
      "\<exists>x \<in> set h. shown (join_path d file_name) x (Content doc)"
      "parse_document texts (Content doc) = Inr doc"
      using r [OF doc(1)] d by (auto simp: texts_def)
    then show "AbsPath env (StoreDirectory st) = Some d"
      by simp
    have "plan (Content doc) = Inr s" "Sha256Hex env (Content doc) = revision"
      using seen(3) s parsed_document(2) [OF seen(3)] doc(3)
      by (simp_all add: plan_def texts_def text_env.defs)
    then show "planned (Sha256Hex env) plan (join_path d file_name) revision h s"
      using seen(2) doc(2) by (auto simp: planned_def)
  qed (simp add: post texts_def)
  then show "case r of Inl e \<Rightarrow> (case Inl e of Inl e \<Rightarrow> Q (Inl e) w1 | Inr a \<Rightarrow> wp (case change a of
      Inl e \<Rightarrow> State_Monad.return (Inl e)
    | Inr s \<Rightarrow> commit_unlocked fs env st s (Revision a)) Q w1)
    | Inr a \<Rightarrow> (case if revision = [] \<or> revision \<noteq> Revision a then Inl err_conflict else Inr a of
      Inl e \<Rightarrow> Q (Inl e) w1 | Inr a \<Rightarrow> wp (case change a of
      Inl e \<Rightarrow> State_Monad.return (Inl e)
    | Inr s \<Rightarrow> commit_unlocked fs env st s (Revision a)) Q w1)"
    using stop by (auto simp: wp_simps split: sum.split)
qed

end

section \<open>Every environment\<close>

interpretation store: file_system "traced answers" "\<lambda>h. h" for answers
  by unfold_locales

definition store_directory :: "'e store_env_scheme \<Rightarrow> store \<Rightarrow> string" where
  "store_directory env st = (case AbsPath env (StoreDirectory st) of Some d \<Rightarrow> d | None \<Rightarrow> [])"

text \<open>The content that saving or replacing makes of a content of the document.\<close>

definition saved_text :: "text_env \<Rightarrow> string \<Rightarrow> string \<Rightarrow> string fallible" where
  "saved_text texts content s = (case parse_document texts s of
     Inl e \<Rightarrow> Inl e | Inr current \<Rightarrow> saved_content texts content current)"

definition replaced_text ::
  "'e store_env_scheme \<Rightarrow> netip_prefix list \<Rightarrow> go_time \<Rightarrow> string \<Rightarrow> string \<Rightarrow> string fallible" where
  "replaced_text env ps t scope s = (case parse_document (text_env.truncate env) s of
     Inl e \<Rightarrow> Inl e
   | Inr current \<Rightarrow> map_sum id Content (replaced_document env ps t scope current))"

text \<open>
  \<open>orderly plan\<close>: every request of the run is allowed by the answers before it, and the outcome says
  what was published.
\<close>

definition orderly ::
  "'e store_env_scheme \<Rightarrow> store \<Rightarrow> string \<Rightarrow> (string \<Rightarrow> string fallible) \<Rightarrow>
   document fallible \<times> fs_history \<Rightarrow> bool" where
  "orderly env st revision plan run \<longleftrightarrow>
     disciplined (store_may (Sha256Hex env) plan (store_directory env st) revision) (snd run) \<and>
     settled (text_env.truncate env) (store_directory env st) (snd run) (fst run)"

lemma since_nothing [simp]: "traced.since [] h = h"
  by (simp add: traced.since_def)

lemma update_orderly:
  fixes env :: "'e store_env_scheme"
  defines "texts \<equiv> text_env.truncate env"
  shows "orderly env st revision
    (\<lambda>s. case parse_document texts s of Inl e \<Rightarrow> Inl e | Inr current \<Rightarrow> change current)
    (run_state (attempt (read_revision (traced answers) env st revision) (\<lambda>current.
      case change current of
        Inl e \<Rightarrow> State_Monad.return (Inl e)
      | Inr s \<Rightarrow> commit_unlocked (traced answers) env st s (Revision current))) [])"
  (is "orderly _ _ _ ?plan (run_state ?m [])")
proof -
  let ?d = "store_directory env st"
  have "wp ?m (\<lambda>r h. orderly env st revision ?plan (r, h)) []"
    unfolding texts_def
  proof (rule store.update_wp)
    show "traced.reached (store_may (Sha256Hex env) (\<lambda>s. case parse_document (text_env.truncate env) s of
        Inl e \<Rightarrow> Inl e | Inr current \<Rightarrow> change current) ?d revision) [] [] []"
      by (rule traced.reached_start)
  qed (auto simp: store_directory_def orderly_def traced.reached_def traced.told_def)
  then show ?thesis
    by (auto simp: wp_def split: prod.splits)
qed

text \<open>
  C24. The store never loses or mixes up the whitelist. In any environment, whatever other processes
  do, \<open>SaveManual\<close> and \<open>ReplaceGeneratedWithScope\<close> change nothing unless the caller's revision is that
  of a content they were shown; they write only the planned content, and only to a temporary file
  of their own; they rename it over the document only when it was completely written, synced and
  closed and the very exchange before the rename showed a content with that revision; and they
  report a document only if it was published, an error only if it was not or the last directory
  sync failed.
\<close>

theorem store_publishes_atomically:
  shows "orderly env st revision (saved_text (text_env.truncate env) content)
      (run_state (save_manual (traced answers) env st content revision) []) \<and>
    orderly env st revision (replaced_text env ps t scope)
      (run_state (replace_generated_with_scope (traced answers) env st ps revision t scope) [])"
proof
  show "orderly env st revision (saved_text (text_env.truncate env) content)
      (run_state (save_manual (traced answers) env st content revision) [])"
    using update_orderly [of env st revision "saved_content (text_env.truncate env) content" answers]
    by (simp add: save_manual_def saved_text_def [abs_def])
  have split: "(case map_sum id Content r of Inl e \<Rightarrow> State_Monad.return (Inl e) | Inr s \<Rightarrow> f s) =
      (case r of Inl e \<Rightarrow> State_Monad.return (Inl e) | Inr doc \<Rightarrow> f (Content doc))"
    for r :: "document fallible" and f :: "string \<Rightarrow> (fs_history, document fallible) state"
    by (cases r) auto
  show "orderly env st revision (replaced_text env ps t scope)
      (run_state (replace_generated_with_scope (traced answers) env st ps revision t scope) [])"
    using update_orderly [of env st revision
        "\<lambda>current. map_sum id Content (replaced_document env ps t scope current)" answers]
    by (simp add: replace_generated_with_scope_def replaced_text_def [abs_def] split)
qed

end
