(* ===== verification/Go_Encoding.thy ===== *)
theory Go_Encoding
  imports Go_Strings
begin

text \<open>
  The byte encodings of the standard library the program relies on: unpadded Base64URL
  (\<^verbatim>\<open>base64.RawURLEncoding\<close>) and hexadecimal (\<^verbatim>\<open>hex.DecodeString\<close>). A byte string is a \<open>string\<close>.
\<close>

section \<open>Bytes as numbers\<close>

definition byte :: "char \<Rightarrow> nat" where
  "byte c = of_char c"

lemma byte_less [simp]: "byte c < 256"
  by (simp add: byte_def)

lemma byte_parts [simp]: "byte c div 4 < 64" "byte c div 16 < 16" "byte c div 64 < 4"
  using byte_less [of c] by (simp_all add: less_mult_imp_div_less)

lemma char_of_byte [simp]: "char_of (byte c) = c"
  by (simp add: byte_def)

lemma byte_char_of [simp]: "n < 256 \<Longrightarrow> byte (char_of n) = n"
  by (simp add: byte_def)

section \<open>Base64URL without padding\<close>

definition base64_alphabet :: string where
  "base64_alphabet = ''ABCDEFGHIJKLMNOPQRSTUVWXYZabcdefghijklmnopqrstuvwxyz0123456789-_''"

definition b64_char :: "nat \<Rightarrow> char" where
  "b64_char n = base64_alphabet ! (n mod 64)"

fun position :: "'a list \<Rightarrow> 'a \<Rightarrow> nat option" where
  "position [] x = None"
| "position (y # ys) x = (if x = y then Some 0 else map_option Suc (position ys x))"

definition b64_value :: "char \<Rightarrow> nat option" where
  "b64_value c = position base64_alphabet c"

text \<open>Three bytes are four digits of six bits; a rest of one or two bytes has two or three.\<close>

fun base64_encode :: "string \<Rightarrow> string" where
  "base64_encode [] = []"
| "base64_encode [a] = [b64_char (byte a div 4), b64_char (byte a mod 4 * 16)]"
| "base64_encode [a, b] = [b64_char (byte a div 4), b64_char (byte a mod 4 * 16 + byte b div 16),
     b64_char (byte b mod 16 * 4)]"
| "base64_encode (a # b # c # s) = [b64_char (byte a div 4),
     b64_char (byte a mod 4 * 16 + byte b div 16), b64_char (byte b mod 16 * 4 + byte c div 64),
     b64_char (byte c mod 64)] @ base64_encode s"

text \<open>The bytes of the digits; the low bits of an incomplete group are dropped.\<close>

fun base64_bytes :: "nat list \<Rightarrow> string option" where
  "base64_bytes [] = Some []"
| "base64_bytes [x] = None"
| "base64_bytes [x, y] = Some [char_of (x * 4 + y div 16)]"
| "base64_bytes [x, y, z] = Some [char_of (x * 4 + y div 16), char_of (y mod 16 * 16 + z div 4)]"
| "base64_bytes (x # y # z # w # ds) = map_option (\<lambda>s.
     char_of (x * 4 + y div 16) # char_of (y mod 16 * 16 + z div 4) # char_of (z mod 4 * 64 + w) # s)
     (base64_bytes ds)"

fun all_some :: "'a option list \<Rightarrow> 'a list option" where
  "all_some [] = Some []"
| "all_some (None # xs) = None"
| "all_some (Some x # xs) = map_option (Cons x) (all_some xs)"

text \<open>The decoder skips line ends anywhere.\<close>

definition base64_decode :: "string \<Rightarrow> string option" where
  "base64_decode s = Option.bind
     (all_some (map b64_value (filter (\<lambda>c. c \<noteq> CHR 0x0A \<and> c \<noteq> CHR 0x0D) s))) base64_bytes"

lemma alphabet_length [simp]: "length base64_alphabet = 64"
  by (simp add: base64_alphabet_def)

lemma alphabet_distinct: "distinct base64_alphabet"
  by (simp add: base64_alphabet_def)

lemma position_nth: "distinct xs \<Longrightarrow> i < length xs \<Longrightarrow> position xs (xs ! i) = Some i"
proof (induction xs arbitrary: i)
  case (Cons x xs)
  then show ?case by (cases i) auto
qed simp

lemma b64_value_char [simp]: "n < 64 \<Longrightarrow> b64_value (b64_char n) = Some n"
  by (simp add: b64_value_def b64_char_def position_nth alphabet_distinct)

lemma b64_char_in: "b64_char n \<in> set base64_alphabet"
  by (simp add: b64_char_def)

lemma all_some_Some [simp]: "all_some (map Some xs) = Some xs"
  by (induction xs) auto

text \<open>The digits of an encoded text.\<close>

fun base64_digits :: "string \<Rightarrow> nat list" where
  "base64_digits [] = []"
| "base64_digits [a] = [byte a div 4, byte a mod 4 * 16]"
| "base64_digits [a, b] = [byte a div 4, byte a mod 4 * 16 + byte b div 16, byte b mod 16 * 4]"
| "base64_digits (a # b # c # s) = [byte a div 4, byte a mod 4 * 16 + byte b div 16,
     byte b mod 16 * 4 + byte c div 64, byte c mod 64] @ base64_digits s"

lemma base64_encode_digits: "base64_encode s = map b64_char (base64_digits s)"
  by (induction s rule: base64_encode.induct) auto

lemma base64_digits_less: "d \<in> set (base64_digits s) \<Longrightarrow> d < 64"
proof (induction s rule: base64_digits.induct)
  case (3 a b)
  have "byte a mod 4 * 16 + byte b div 16 < 64"
    using byte_parts(2) [of b] mod_less_divisor [of 4 "byte a"] by linarith
  then show ?case using 3 by auto
next
  case (4 a b c s)
  have "byte a mod 4 * 16 + byte b div 16 < 64" "byte b mod 16 * 4 + byte c div 64 < 64"
    using byte_parts(2) [of b] mod_less_divisor [of 4 "byte a"] byte_parts(3) [of c]
      mod_less_divisor [of 16 "byte b"] by linarith+
  then show ?case using 4 by auto
qed auto

lemma digit_parts: "q < k \<Longrightarrow> (a * k + q) div k = a \<and> (a * k + q) mod k = q" for a k q :: nat
  by simp

lemma split_byte:
  fixes n r :: nat
  assumes "n < 256"
  shows "(r * 16 + n div 16) div 16 = r \<and> (r * 16 + n div 16) mod 16 * 16 + n mod 16 = n"
proof -
  have "n div 16 < 16"
    using assms by (simp add: less_mult_imp_div_less)
  from digit_parts [OF this, of r] show ?thesis
    by (metis div_mult_mod_eq)
qed

lemma split_low:
  fixes n m :: nat
  assumes "n < 256"
  shows "(m mod 16 * 4 + n div 64) div 4 = m mod 16 \<and>
    (m mod 16 * 4 + n div 64) mod 4 * 64 + n mod 64 = n"
proof -
  have "n div 64 < 4"
    using assms by (simp add: less_mult_imp_div_less)
  from digit_parts [OF this, of "m mod 16"] show ?thesis
    by (metis div_mult_mod_eq)
qed

lemma base64_bytes_digits: "base64_bytes (base64_digits s) = Some s"
proof (induction s rule: base64_digits.induct)
  case (3 a b)
  then show ?case
    using split_byte [of "byte b" "byte a mod 4"] by simp
next
  case (4 a b c s)
  have "byte a div 4 * 4 + byte a mod 4 = byte a"
    by simp
  then show ?case
    using 4 split_byte [of "byte b" "byte a mod 4"] split_low [of "byte c" "byte b"]
    by (simp del: mod_mult_self1 mod_mult_self2 mod_mult_self3 mod_mult_self4)
qed simp_all

lemma base64_chars: "c \<in> set (base64_encode s) \<Longrightarrow> c \<in> set base64_alphabet"
  by (auto simp: base64_encode_digits b64_char_in)

lemma alphabet_clean: "CHR 0x0A \<notin> set base64_alphabet" "CHR 0x0D \<notin> set base64_alphabet"
  "CHR ''.'' \<notin> set base64_alphabet" "CHR 0x24 \<notin> set base64_alphabet"
  by (simp_all add: base64_alphabet_def)

lemma base64_roundtrip [simp]: "base64_decode (base64_encode s) = Some s"
proof -
  have "filter (\<lambda>c. c \<noteq> CHR 0x0A \<and> c \<noteq> CHR 0x0D) (base64_encode s) = base64_encode s"
    using base64_chars alphabet_clean by (intro filter_True) metis
  moreover have "map b64_value (base64_encode s) = map Some (base64_digits s)"
    using base64_digits_less by (simp add: base64_encode_digits)
  ultimately show ?thesis
    by (simp add: base64_decode_def base64_bytes_digits del: map_map)
qed

lemma base64_encode_inject [simp]: "base64_encode s = base64_encode t \<longleftrightarrow> s = t"
  by (metis base64_roundtrip option.inject)

lemma base64_no_dot [simp]: "CHR ''.'' \<notin> set (base64_encode s)"
  using base64_chars alphabet_clean by blast

section \<open>Hexadecimal\<close>

definition hex_value :: "char \<Rightarrow> nat option" where
  "hex_value c = (let n = byte c in
     if 48 \<le> n \<and> n \<le> 57 then Some (n - 48)
     else if 97 \<le> n \<and> n \<le> 102 then Some (n - 87)
     else if 65 \<le> n \<and> n \<le> 70 then Some (n - 55)
     else None)"

fun hex_decode :: "string \<Rightarrow> string option" where
  "hex_decode [] = Some []"
| "hex_decode [a] = None"
| "hex_decode (a # b # s) = (case (hex_value a, hex_value b, hex_decode s) of
     (Some x, Some y, Some t) \<Rightarrow> Some (char_of (x * 16 + y) # t)
   | _ \<Rightarrow> None)"

fun hex_encode :: "string \<Rightarrow> string" where
  "hex_encode [] = []"
| "hex_encode (c # s) = hex_char (byte c div 16) # hex_char (byte c mod 16) # hex_encode s"

lemma hex_value_hex_char [simp]: "n < 16 \<Longrightarrow> hex_value (hex_char n) = Some n"
  by (auto simp: hex_value_def hex_char_def Let_def)

lemma hex_roundtrip [simp]: "hex_decode (hex_encode s) = Some s"
  by (induction s) auto

section \<open>Decimal numbers with a sign\<close>

text \<open>\<^verbatim>\<open>strconv.Atoi\<close>, for a 64-bit \<^verbatim>\<open>int\<close>.\<close>

definition atoi_signed :: "string \<Rightarrow> int option" where
  "atoi_signed s =
     (let negative = prefix ''-'' s; digits = (if prefix ''-'' s \<or> prefix ''+'' s then tl s else s);
          value = (if negative then - int (undec digits) else int (undec digits)) in
      if digits = [] \<or> \<not> list_all is_digit digits \<or> value < - (2 ^ 63) \<or> value \<ge> 2 ^ 63
      then None else Some value)"

end
