(* ===== verification/Web_Password.thy ===== *)
theory Web_Password
  imports Go_Encoding
begin

text \<open>
  Administrator passwords: PBKDF2 and the verification of a record (\<^verbatim>\<open>internal/web/auth.go\<close>), the
  parser of the persisted record (\<^verbatim>\<open>internal/state/password.go\<close>) and the creation of a record
  (\<^verbatim>\<open>internal/app/credentials.go\<close>). The keyed hash \<open>mac key message\<close> is HMAC-SHA256, a parameter.
\<close>

section \<open>PBKDF2\<close>

type_synonym keyed_hash = "string \<Rightarrow> string \<Rightarrow> string"

definition xor_bytes :: "string \<Rightarrow> string \<Rightarrow> string" where
  "xor_bytes = map2 (\<lambda>a b. char_of (Bit_Operations.xor (byte a) (byte b)))"

text \<open>\<^verbatim>\<open>binary.BigEndian.PutUint32\<close>.\<close>

definition be32 :: "nat \<Rightarrow> string" where
  "be32 n = map (\<lambda>i. char_of (n div 256 ^ i mod 256)) [3, 2, 1, 0]"

text \<open>The inner loop: \<open>n\<close> more rounds from the last block \<open>u\<close> into the sum \<open>t\<close>.\<close>

fun mix_rounds :: "(string \<Rightarrow> string) \<Rightarrow> nat \<Rightarrow> string \<Rightarrow> string \<Rightarrow> string" where
  "mix_rounds f 0 u t = t"
| "mix_rounds f (Suc n) u t = (let u' = f u in mix_rounds f n u' (xor_bytes t u'))"

definition pbkdf2_key :: "keyed_hash \<Rightarrow> nat \<Rightarrow> string \<Rightarrow> string \<Rightarrow> nat \<Rightarrow> nat \<Rightarrow> string" where
  "pbkdf2_key mac size_of password salt iterations key_len =
     (let blocks = (key_len + size_of - 1) div size_of in
      take key_len (concat (map (\<lambda>block.
        let u = mac password (salt @ be32 block) in mix_rounds (mac password) (iterations - 1) u u)
        [1..<blocks + 1])))"

definition sha256_size :: nat where "sha256_size = 32"

definition pbkdf2_sha256 :: "keyed_hash \<Rightarrow> string \<Rightarrow> string \<Rightarrow> nat \<Rightarrow> nat \<Rightarrow> string" where
  "pbkdf2_sha256 mac password salt iterations key_len =
     pbkdf2_key mac sha256_size password salt iterations key_len"

section \<open>Verification\<close>

definition dollar :: char where "dollar = CHR 0x24"

definition err_password_record :: gerror where
  "err_password_record = Sentinel ''invalid PBKDF2 password record''"

definition max_iterations :: int where "max_iterations = 10000000"

definition max_output_bytes :: nat where "max_output_bytes = 128"

text \<open>Salt and hash of the two formats.\<close>

definition decode_pair :: "(string \<Rightarrow> string option) \<Rightarrow> string \<Rightarrow> string \<Rightarrow> (string \<times> string) option" where
  "decode_pair decode a b = (case decode a of
       None \<Rightarrow> None
     | Some salt \<Rightarrow> map_option (\<lambda>hash. (salt, hash)) (decode b))"

definition verify_decoded :: "keyed_hash \<Rightarrow> nat \<Rightarrow> string \<Rightarrow> (string \<times> string) option \<Rightarrow> bool fallible" where
  "verify_decoded mac iterations password decoded = (case decoded of
       None \<Rightarrow> Inl err_password_record
     | Some (salt, want) \<Rightarrow>
         if salt = [] \<or> length salt > 128 then Inl err_password_record
         else if want = [] \<or> length want > max_output_bytes then Inl err_password_record
         else Inr (pbkdf2_sha256 mac password salt iterations (length want) = want))"

definition verify_pbkdf2_record :: "keyed_hash \<Rightarrow> string \<Rightarrow> string \<Rightarrow> bool fallible" where
  "verify_pbkdf2_record mac entry password = (case split_on dollar entry of
       [kind, rounds, salt, hash] \<Rightarrow> (case atoi_signed rounds of
           None \<Rightarrow> Inl err_password_record
         | Some n \<Rightarrow>
             if n < 1 \<or> n > max_iterations then Inl err_password_record
             else if kind = ''pbkdf2''
             then verify_decoded mac (nat n) password (decode_pair hex_decode salt hash)
             else if kind = ''pbkdf2-sha256''
             then verify_decoded mac (nat n) password (decode_pair base64_decode salt hash)
             else Inl err_password_record)
     | _ \<Rightarrow> Inl err_password_record)"

section \<open>The persisted record\<close>

datatype password_format = PasswordHex | PasswordBase64URL

record password_record =
  RawRecord :: string
  RecordFormat :: password_format
  Iterations :: int
  Salt :: string
  Hash :: string

definition err_unsupported_record :: gerror where
  "err_unsupported_record = Sentinel ''state: unsupported password record''"

definition err_record_iterations :: gerror where
  "err_record_iterations = Err ''state: invalid PBKDF2 iterations''"

definition err_record_encoding :: gerror where
  "err_record_encoding = Err ''state: invalid PBKDF2 salt or hash encoding''"

definition finish_record ::
  "string \<Rightarrow> password_format \<Rightarrow> int \<Rightarrow> (string \<times> string) option \<Rightarrow> password_record fallible" where
  "finish_record raw format n decoded = (case decoded of
       None \<Rightarrow> Inl err_record_encoding
     | Some (salt, hash) \<Rightarrow>
         if length salt < 16 \<or> length hash \<noteq> 32 then Inl err_record_encoding
         else Inr \<lparr>RawRecord = raw, RecordFormat = format, Iterations = n, Salt = salt, Hash = hash\<rparr>)"

definition parse_password_record :: "string \<Rightarrow> password_record fallible" where
  "parse_password_record data = (case split_on dollar (trim_space data) of
       [kind, rounds, salt, hash] \<Rightarrow> (case atoi_signed rounds of
           None \<Rightarrow> Inl err_record_iterations
         | Some n \<Rightarrow>
             if n < 1 \<or> n > max_iterations then Inl err_record_iterations
             else if kind = ''pbkdf2'' then
               if length rounds \<noteq> 6 \<or> length salt \<noteq> 32 \<or> length hash \<noteq> 64
               then Inl err_unsupported_record
               else finish_record data PasswordHex n (decode_pair hex_decode salt hash)
             else if kind = ''pbkdf2-sha256''
             then finish_record data PasswordBase64URL n (decode_pair base64_decode salt hash)
             else Inl err_unsupported_record)
     | _ \<Rightarrow> Inl err_unsupported_record)"

section \<open>Creating a record\<close>

definition password_rounds :: nat where "password_rounds = 100000"

definition password_salt_size :: nat where "password_salt_size = 16"

text \<open>\<open>salt\<close> is what the random source delivers.\<close>

definition create_password_record :: "keyed_hash \<Rightarrow> string \<Rightarrow> string fallible \<Rightarrow> string fallible" where
  "create_password_record mac password salt =
     (if length password < 8 then Inl (Err ''password must contain at least 8 characters'')
      else if length password > 1024 \<or> CHR 0x00 \<in> set password \<or> CHR 0x0D \<in> set password \<or>
        CHR 0x0A \<in> set password
      then Inl (Err ''password is too long or contains an invalid character'')
      else case salt of
        Inl e \<Rightarrow> Inl (Wrap ''generate password salt'' e)
      | Inr s \<Rightarrow> Inr (''pbkdf2'' @ dollar # dec password_rounds @ dollar # hex_encode s @ dollar #
          hex_encode (pbkdf2_sha256 mac password s password_rounds sha256_size) @ [CHR 0x0A]))"

text \<open>\<^verbatim>\<open>Credential\<close>: the record the login is given, checked and trimmed.\<close>

definition credential_record :: "string \<Rightarrow> string fallible" where
  "credential_record data = (case parse_password_record data of
       Inl e \<Rightarrow> Inl (Wrap ''read administrator credential'' e)
     | Inr _ \<Rightarrow> Inr (trim_space data))"

end
