(* ===== verification/Web_Password_Proofs.thy ===== *)
theory Web_Password_Proofs
  imports Web_Password
begin

text \<open>
  PBKDF2 as the RFC defines it, and the way of an administrator password: what the set-up writes
  is read by the parser of the state and verified by the web server.
\<close>

section \<open>PBKDF2\<close>

text \<open>RFC 8018: the sequence \<open>U\<^sub>1, U\<^sub>2, \<dots>\<close>, the block function and the derived key.\<close>

fun rfc_u :: "keyed_hash \<Rightarrow> string \<Rightarrow> string \<Rightarrow> nat \<Rightarrow> nat \<Rightarrow> string" where
  "rfc_u mac p s i 0 = mac p (s @ be32 i)"
| "rfc_u mac p s i (Suc k) = mac p (rfc_u mac p s i k)"

fun rfc_f :: "keyed_hash \<Rightarrow> string \<Rightarrow> string \<Rightarrow> nat \<Rightarrow> nat \<Rightarrow> string" where
  "rfc_f mac p s i 0 = rfc_u mac p s i 0"
| "rfc_f mac p s i (Suc k) = xor_bytes (rfc_f mac p s i k) (rfc_u mac p s i (Suc k))"

definition rfc_dk :: "keyed_hash \<Rightarrow> nat \<Rightarrow> string \<Rightarrow> string \<Rightarrow> nat \<Rightarrow> nat \<Rightarrow> string" where
  "rfc_dk mac h p s c n = take n (concat (map (\<lambda>i. rfc_f mac p s (Suc i) (c - 1))
     [0..<(n + h - 1) div h]))"

lemma mix_rounds_rfc:
  "mix_rounds (mac p) n (rfc_u mac p s i k) (rfc_f mac p s i k) = rfc_f mac p s i (k + n)"
proof (induction n arbitrary: k)
  case (Suc n)
  then show ?case
    using Suc [of "Suc k"] by (simp add: Let_def)
qed simp

lemma pbkdf2_rfc: "pbkdf2_key mac h p s c n = rfc_dk mac h p s c n"
proof -
  have "[1..<m + 1] = map Suc [0..<m]" for m
    by (simp add: map_Suc_upt)
  moreover have "(let u = mac p (s @ be32 i) in mix_rounds (mac p) (c - 1) u u) = rfc_f mac p s i (c - 1)" for i
    using mix_rounds_rfc [of mac p "c - 1" s i 0] by simp
  ultimately show ?thesis
    by (simp add: pbkdf2_key_def rfc_dk_def comp_def del: upt_Suc)
qed

lemma xor_bytes_length [simp]: "length (xor_bytes a b) = min (length a) (length b)"
  by (simp add: xor_bytes_def)

lemma rfc_f_length:
  "\<forall>m. length (mac p m) = h \<Longrightarrow> length (rfc_f mac p s i k) = h"
proof (induction k)
  case (Suc k)
  then show ?case by (cases k) auto
qed simp

lemma concat_same_length: "\<forall>x \<in> set xs. length (f x) = h \<Longrightarrow> length (concat (map f xs)) = length xs * h"
  by (induction xs) auto

lemma rfc_dk_length:
  assumes "\<forall>m. length (mac p m) = h" and "0 < h"
  shows "length (rfc_dk mac h p s c n) = n"
proof -
  have "n \<le> (n + h - 1) div h * h"
    using assms(2) div_mult_mod_eq [of "n + h - 1" h] mod_less_divisor [of h "n + h - 1"]
    by linarith
  then show ?thesis
    using concat_same_length [of "[0..<(n + h - 1) div h]" "\<lambda>i. rfc_f mac p s (Suc i) (c - 1)" h]
      rfc_f_length [of mac p h] assms(1) by (simp add: rfc_dk_def)
qed

text \<open>
  C37. The loop that derives a key is PBKDF2 of RFC 8018: for every keyed hash with outputs of \<open>h\<close>
  bytes, it yields the first \<open>n\<close> bytes of the blocks \<open>F(P, S, c, 1), F(P, S, c, 2), \<dots>\<close>, each the
  exclusive or of the iterated hashes, and exactly \<open>n\<close> bytes.
\<close>

theorem pbkdf2_is_rfc8018:
  assumes "\<forall>m. length (mac password m) = h" and "0 < h"
  shows "pbkdf2_key mac h password salt c n = rfc_dk mac h password salt c n \<and>
    length (pbkdf2_key mac h password salt c n) = n"
  using rfc_dk_length [of mac password h salt c n] assms by (simp add: pbkdf2_rfc)

lemma pbkdf2_is_rfc8018_witness:
  "let mac = (\<lambda>k m. [CHR ''a'', CHR ''b'']) in
   pbkdf2_key mac 2 ''password'' ''salt'' 3 5 = rfc_dk mac 2 ''password'' ''salt'' 3 5 \<and>
   length (pbkdf2_key mac 2 ''password'' ''salt'' 3 5) = 5"
  unfolding Let_def by (rule pbkdf2_is_rfc8018) simp_all

section \<open>The texts of a record\<close>

lemma newline_rune: "find (\<lambda>r. r \<noteq> [] \<and> prefix r (CHR 0x0A # s)) (map rev space_runes) = Some [CHR 0x0A]"
  by (simp add: space_runes_def bytes_def char_constant)

lemma trim_line:
  assumes "s \<noteq> []" and "plain (hd s)" and "plain (last s)"
  shows "trim_space (s @ [CHR 0x0A]) = s"
proof -
  have "strip_any space_runes (s @ [CHR 0x0A]) = s @ [CHR 0x0A]"
    by (rule strip_any_plain) (use assms space_rune_ends in auto)
  moreover have "strip_any (map rev space_runes) (CHR 0x0A # rev s) =
      strip_any (map rev space_runes) (rev s)"
    by (subst strip_any.simps) (simp add: newline_rune)
  moreover have "strip_any (map rev space_runes) (rev s) = rev s"
    by (rule strip_any_plain) (use assms space_rune_ends in \<open>auto simp: hd_rev\<close>)
  ultimately show ?thesis
    by (simp add: trim_space_def)
qed

lemma digit_not: "\<not> is_digit dollar" "\<not> is_digit CHR ''-''" "\<not> is_digit CHR ''+''"
  by (simp_all add: is_digit_def dollar_def)

lemma dec_no_dollar: "dollar \<notin> set (dec n)"
  using dec_digits digit_not by blast

lemma atoi_dec:
  assumes "n < 2 ^ 63"
  shows "atoi_signed (dec n) = Some (int n)"
proof -
  have "\<not> prefix [c] (dec n)" if "\<not> is_digit c" for c
    using that dec_digits [of "hd (dec n)" n] by (cases "dec n") auto
  then have "\<not> prefix ''-'' (dec n)" "\<not> prefix ''+'' (dec n)"
    using digit_not by simp_all
  moreover have "int n < 2 ^ 63"
    using assms by (metis of_nat_less_iff of_nat_numeral of_nat_power)
  ultimately show ?thesis
    by (simp add: atoi_signed_def list_all_iff dec_digits)
qed

definition hex_digits :: string where "hex_digits = ''0123456789abcdef''"

lemma hex_char_in: assumes "n < 16" shows "hex_char n \<in> set hex_digits"
proof -
  have "list_all (\<lambda>n. hex_char n \<in> set hex_digits) [0..<16]"
    by (simp add: upt_rec [of _ 16] hex_digits_def hex_char_def char_constant)
  with assms show ?thesis
    by (simp add: list_all_iff)
qed

lemma hex_digits_facts: "\<forall>c \<in> set hex_digits. plain c \<and> c \<noteq> dollar"
  by (simp add: hex_digits_def plain_def dollar_def)

lemma hex_encode_chars: "c \<in> set (hex_encode s) \<Longrightarrow> c \<in> set hex_digits"
  by (induction s) (auto simp: hex_char_in)

lemma hex_encode_facts: "length (hex_encode s) = 2 * length s" "s \<noteq> [] \<Longrightarrow> hex_encode s \<noteq> []"
  "dollar \<notin> set (hex_encode s)"
proof -
  show "length (hex_encode s) = 2 * length s"
    by (induction s) auto
  show "hex_encode s \<noteq> []" if "s \<noteq> []"
    using that by (cases s) auto
  show "dollar \<notin> set (hex_encode s)"
    using hex_encode_chars hex_digits_facts by blast
qed

lemma alphabet_facts: "\<forall>c \<in> set base64_alphabet. plain c \<and> c \<noteq> dollar"
  by (simp add: base64_alphabet_def plain_def dollar_def)

lemma base64_facts: "dollar \<notin> set (base64_encode s)" "s \<noteq> [] \<Longrightarrow> base64_encode s \<noteq> []"
  using base64_chars alphabet_facts by (blast, cases s rule: base64_encode.cases) auto

definition record_text :: "string \<Rightarrow> nat \<Rightarrow> string \<Rightarrow> string \<Rightarrow> string" where
  "record_text kind n salt hash = kind @ dollar # dec n @ dollar # salt @ dollar # hash"

lemma split_record:
  assumes "dollar \<notin> set kind" and "dollar \<notin> set salt" and "dollar \<notin> set hash"
  shows "split_on dollar (record_text kind n salt hash) = [kind, dec n, salt, hash]"
  using assms dec_no_dollar by (simp add: record_text_def split_on_append)

lemma record_ends:
  assumes "hash \<noteq> []" and "plain (last hash)"
  shows "plain (hd (record_text (CHR ''p'' # kind) n salt hash))"
    "plain (last (record_text (CHR ''p'' # kind) n salt hash))"
    "record_text (CHR ''p'' # kind) n salt hash \<noteq> []"
  using assms by (simp_all add: record_text_def plain_def)

section \<open>A created record\<close>

lemma created_record:
  assumes "create_password_record mac password (Inr salt) = Inr r"
  shows "r = record_text ''pbkdf2'' password_rounds (hex_encode salt)
    (hex_encode (pbkdf2_sha256 mac password salt password_rounds sha256_size)) @ [CHR 0x0A]"
  using assms by (auto simp: create_password_record_def record_text_def split: if_splits)

lemma rounds_facts: "length (dec password_rounds) = 6" "atoi_signed (dec password_rounds) = Some 100000"
  using atoi_dec [of password_rounds] by (simp_all add: password_rounds_def dec.simps)

text \<open>
  C38. What the set-up writes opens the door, and nothing else does. The record created for a password
  is accepted by the parser of the state, handed to the login without its line end, and verifies a
  password exactly if that password derives the same key from the same salt; in particular it
  verifies the password it was created for.
\<close>

theorem created_record_verifies:
  assumes "create_password_record mac password (Inr salt) = Inr r" and "length salt = password_salt_size"
    and "\<forall>k m. length (mac k m) = sha256_size"
  shows "\<exists>entry. credential_record r = Inr entry \<and>
    verify_pbkdf2_record mac entry password = Inr True \<and>
    (\<forall>other. verify_pbkdf2_record mac entry other =
      Inr (pbkdf2_sha256 mac other salt password_rounds sha256_size =
           pbkdf2_sha256 mac password salt password_rounds sha256_size))"
proof -
  let ?key = "pbkdf2_sha256 mac password salt password_rounds sha256_size"
  let ?entry = "record_text ''pbkdf2'' password_rounds (hex_encode salt) (hex_encode ?key)"
  have key: "length ?key = 32"
    using rfc_dk_length [of mac password 32] assms(3)
    by (simp add: pbkdf2_sha256_def sha256_size_def pbkdf2_rfc)
  then have nonempty: "hex_encode ?key \<noteq> []"
    by (intro hex_encode_facts(2)) auto
  have fields: "split_on dollar ?entry =
      [''pbkdf2'', dec password_rounds, hex_encode salt, hex_encode ?key]"
    using hex_encode_facts(3) by (intro split_record) (simp_all add: dollar_def)
  have "plain (last (hex_encode ?key))"
    using last_in_set [OF nonempty] hex_encode_chars hex_digits_facts by blast
  from record_ends [OF nonempty this] have trim: "trim_space r = ?entry"
    unfolding created_record [OF assms(1)] by (intro trim_line) simp_all
  have "parse_password_record r = Inr \<lparr>RawRecord = r, RecordFormat = PasswordHex,
      Iterations = 100000, Salt = salt, Hash = ?key\<rparr>"
    using key assms(2)
    by (simp add: parse_password_record_def trim fields rounds_facts max_iterations_def
        hex_encode_facts(1) decode_pair_def finish_record_def password_salt_size_def)
  then have "credential_record r = Inr ?entry"
    by (simp add: credential_record_def trim)
  moreover have "verify_pbkdf2_record mac ?entry other = Inr (pbkdf2_sha256 mac other salt
      password_rounds sha256_size = ?key)" for other
  proof -
    have "salt \<noteq> []" "?key \<noteq> []"
      using assms(2) key by (auto simp: password_salt_size_def)
    moreover have "length ?key = sha256_size" "sha256_size \<le> max_output_bytes"
        "nat 100000 = password_rounds" "length salt \<le> 128"
      using key assms(2)
      by (simp_all add: sha256_size_def max_output_bytes_def password_rounds_def password_salt_size_def)
    ultimately show ?thesis
      by (simp add: verify_pbkdf2_record_def fields rounds_facts max_iterations_def decode_pair_def
          verify_decoded_def)
  qed
  ultimately show ?thesis
    by auto
qed

lemma created_record_verifies_witness:
  "let mac = (\<lambda>k m. replicate 32 CHR ''x''); salt = replicate 16 CHR ''s'' in
   \<exists>r entry. create_password_record mac ''password'' (Inr salt) = Inr r \<and>
     credential_record r = Inr entry \<and> verify_pbkdf2_record mac entry ''password'' = Inr True"
proof -
  let ?mac = "\<lambda>k m. replicate 32 CHR ''x''" and ?salt = "replicate 16 CHR ''s''"
  obtain r where r: "create_password_record ?mac ''password'' (Inr ?salt) = Inr r"
    by (simp add: create_password_record_def)
  have "\<exists>entry. credential_record r = Inr entry \<and>
      verify_pbkdf2_record ?mac entry ''password'' = Inr True"
    using created_record_verifies [OF r]
    by (auto simp: password_salt_size_def sha256_size_def)
  then show ?thesis
    unfolding Let_def using r by blast
qed

section \<open>Where the two readers differ\<close>

text \<open>
  The web server does not verify every record the state accepts. A record in the versioned format
  with a salt of more than 128 bytes passes the parser of the state, so the credential is
  reported as present, and every login with it fails as an invalid record.
\<close>

theorem long_salt_locks_out:
  assumes "128 < length salt" and "length hash = 32" and "1 \<le> n" and "int n \<le> max_iterations"
  shows "credential_record (record_text ''pbkdf2-sha256'' n (base64_encode salt) (base64_encode hash)) =
      Inr (record_text ''pbkdf2-sha256'' n (base64_encode salt) (base64_encode hash)) \<and>
    verify_pbkdf2_record mac (record_text ''pbkdf2-sha256'' n (base64_encode salt) (base64_encode hash))
      password = Inl err_password_record"
proof -
  let ?r = "record_text ''pbkdf2-sha256'' n (base64_encode salt) (base64_encode hash)"
  have "hash \<noteq> []"
    using assms(2) by auto
  then have nonempty: "base64_encode hash \<noteq> []"
    by (rule base64_facts(2))
  then have "plain (last (base64_encode hash))"
    using last_in_set base64_chars alphabet_facts by blast
  from record_ends [OF nonempty this] have trim: "trim_space ?r = ?r"
    by (intro trim_plain) simp_all
  have fields: "split_on dollar ?r = [''pbkdf2-sha256'', dec n, base64_encode salt, base64_encode hash]"
    using base64_facts(1) by (intro split_record) (simp_all add: dollar_def)
  have rounds: "atoi_signed (dec n) = Some (int n)" "1 \<le> int n"
    using assms(3,4) by (auto intro!: atoi_dec simp: max_iterations_def)
  show ?thesis
    using assms rounds
    by (simp add: credential_record_def parse_password_record_def verify_pbkdf2_record_def trim fields
        decode_pair_def finish_record_def verify_decoded_def)
qed

lemma long_salt_locks_out_witness:
  "verify_pbkdf2_record (\<lambda>k m. m) (record_text ''pbkdf2-sha256'' 1
     (base64_encode (replicate 129 CHR ''s'')) (base64_encode (replicate 32 CHR ''h''))) ''password'' =
   Inl err_password_record"
  using long_salt_locks_out [of "replicate 129 CHR ''s''" "replicate 32 CHR ''h''" 1 "\<lambda>k m. m"]
  by (simp add: max_iterations_def)

end
