(* ===== verification/Web_Login.thy ===== *)
theory Web_Login
  imports Web_Password "HOL-Library.Word"
begin

text \<open>
  The login limiter of \<^verbatim>\<open>internal/web/auth.go\<close> and the login handler of \<^verbatim>\<open>internal/web/handlers.go\<close>
  that reserves an attempt before any password is hashed. Times are nanoseconds.
\<close>

section \<open>The limiter\<close>

record login_attempt =
  Failures :: int
  ResetAt :: int

record login_limiter =
  Attempts :: "string \<rightharpoonup> login_attempt"
  AttemptLimit :: int
  AttemptWindow :: int
  LimiterChecks :: "64 word"

definition new_login_limiter :: "int \<Rightarrow> int \<Rightarrow> login_limiter" where
  "new_login_limiter limit window = \<lparr>Attempts = Map.empty, AttemptLimit = limit,
     AttemptWindow = window, LimiterChecks = 0\<rparr>"

definition attempt_live :: "int \<Rightarrow> login_attempt \<Rightarrow> bool" where
  "attempt_live now a \<longleftrightarrow> ResetAt a > now"

definition sweep :: "int \<Rightarrow> (string \<rightharpoonup> login_attempt) \<Rightarrow> (string \<rightharpoonup> login_attempt)" where
  "sweep now m = (\<lambda>k. case m k of
     None \<Rightarrow> None | Some a \<Rightarrow> if attempt_live now a then Some a else None)"

text \<open>The attempt an attempt of now counts on.\<close>

definition current_attempt :: "int \<Rightarrow> int \<Rightarrow> login_attempt option \<Rightarrow> login_attempt" where
  "current_attempt now window found =
     (case found of
        Some a \<Rightarrow> if attempt_live now a then a else \<lparr>Failures = 0, ResetAt = now + window\<rparr>
      | None \<Rightarrow> \<lparr>Failures = 0, ResetAt = now + window\<rparr>)"

definition reserve :: "int \<Rightarrow> string \<Rightarrow> login_limiter \<Rightarrow> (bool \<times> int) \<times> login_limiter" where
  "reserve now key l =
     (let checks = LimiterChecks l + 1;
          attempts = (if checks mod 128 = 0 then sweep now (Attempts l) else Attempts l);
          attempt = current_attempt now (AttemptWindow l) (attempts key);
          l' = l\<lparr>LimiterChecks := checks, Attempts := attempts\<rparr> in
      if Failures attempt \<ge> AttemptLimit l then ((False, ResetAt attempt - now), l')
      else ((True, 0), l'\<lparr>Attempts := attempts(key \<mapsto> attempt\<lparr>Failures := Failures attempt + 1\<rparr>)\<rparr>))"

definition cancel :: "string \<Rightarrow> login_limiter \<Rightarrow> login_limiter" where
  "cancel key l = (case Attempts l key of
       None \<Rightarrow> l
     | Some a \<Rightarrow> l\<lparr>Attempts := (if Failures a - 1 \<le> 0 then (Attempts l)(key := None)
         else (Attempts l)(key \<mapsto> a\<lparr>Failures := Failures a - 1\<rparr>))\<rparr>)"

definition success :: "string \<Rightarrow> login_limiter \<Rightarrow> login_limiter" where
  "success key l = l\<lparr>Attempts := (Attempts l)(key := None)\<rparr>"

section \<open>The login handler\<close>

record credential =
  UserID :: string
  DisplayName :: string
  PasswordRecord :: string

text \<open>
  What the handler sees of one request: the checks made on it before the limiter, the address of
  the client, the decoded password (\<open>None\<close> when the body was refused), whether the waits for a
  hashing slot and for the mutation gate end before the request is canceled, the answer of the
  credential store, and what issuing a session returns.
\<close>

record 's login_request =
  PostMethod :: bool
  JsonBody :: bool
  TrustedOrigin :: bool
  LoginKey :: string
  LoginPassword :: "string option"
  CheckSlot :: bool
  MutationGate :: bool
  CredentialAnswer :: "credential fallible"
  IssueAnswer :: "credential \<Rightarrow> 's fallible"

datatype 's login_reply =
    Refused nat string
  | RateLimited int
  | BodyRefused
  | ServiceError gerror
  | LoggedIn 's

definition err_not_found :: gerror where "err_not_found = Sentinel ''not found''"

definition one_second :: int where "one_second = 1000000000"

definition retry_seconds :: "int \<Rightarrow> int" where
  "retry_seconds retry = max 1 ((retry + one_second - 1) div one_second)"

definition default_user :: "credential \<Rightarrow> credential" where
  "default_user c = (if UserID c = [] then c\<lparr>UserID := ''administrator''\<rparr> else c)"

text \<open>The handler once a password is to be checked.\<close>

definition check_login ::
  "keyed_hash \<Rightarrow> 's login_request \<Rightarrow> string \<Rightarrow> login_limiter \<Rightarrow> 's login_reply \<times> login_limiter" where
  "check_login mac r password l = (let key = LoginKey r in
     case CredentialAnswer r of
       Inl e \<Rightarrow>
         if error_is e err_not_found then (Refused 401 ''invalid_credentials'', l)
         else (ServiceError e, cancel key l)
     | Inr c \<Rightarrow> (case verify_pbkdf2_record mac (PasswordRecord c) password of
           Inl e \<Rightarrow> (Refused 500 ''authentication_unavailable'', cancel key l)
         | Inr False \<Rightarrow> (Refused 401 ''invalid_credentials'', l)
         | Inr True \<Rightarrow> (case IssueAnswer r (default_user c) of
               Inl e \<Rightarrow> (Refused 500 ''authentication_unavailable'', cancel key l)
             | Inr session \<Rightarrow> (LoggedIn session, success key l))))"

definition handle_login ::
  "keyed_hash \<Rightarrow> int \<Rightarrow> 's login_request \<Rightarrow> login_limiter \<Rightarrow> 's login_reply \<times> login_limiter" where
  "handle_login mac now r l0 = (let key = LoginKey r in
     if \<not> PostMethod r then (Refused 405 ''method_not_allowed'', l0)
     else if \<not> JsonBody r then (Refused 415 ''unsupported_media_type'', l0)
     else if \<not> TrustedOrigin r then (Refused 403 ''origin_rejected'', l0)
     else case reserve now key l0 of
       ((False, retry), l) \<Rightarrow> (RateLimited (retry_seconds retry), l)
     | ((True, _), l) \<Rightarrow> (case LoginPassword r of
           None \<Rightarrow> (BodyRefused, l)
         | Some password \<Rightarrow>
             if password = [] \<or> length password > 4096 then (Refused 401 ''invalid_credentials'', l)
             else if \<not> CheckSlot r then (Refused 503 ''request_canceled'', cancel key l)
             else if \<not> MutationGate r then (Refused 503 ''request_canceled'', cancel key l)
             else check_login mac r password l))"

end
