(* ===== verification/Web_Login_Proofs.thy ===== *)
theory Web_Login_Proofs
  imports Web_Login
begin

text \<open>
  The limiter refines a counter per address that never forgets to expire, and bounds the passwords
  an address can try in any interval as long as a window.
\<close>

section \<open>The abstract counter\<close>

text \<open>
  The specification keeps a counter and its end per address, sweeps nothing and counts no checks.
\<close>

type_synonym counters = "string \<rightharpoonup> login_attempt"

datatype limiter_call = Reserve string | Cancel string | Success string

fun spec_call :: "int \<Rightarrow> int \<Rightarrow> int \<Rightarrow> limiter_call \<Rightarrow> counters \<Rightarrow> (bool \<times> int) option \<times> counters" where
  "spec_call limit window now (Reserve k) m = (let a = current_attempt now window (m k) in
     if Failures a \<ge> limit then (Some (False, ResetAt a - now), m)
     else (Some (True, 0), m(k \<mapsto> a\<lparr>Failures := Failures a + 1\<rparr>)))"
| "spec_call limit window now (Cancel k) m = (None, case m k of
     None \<Rightarrow> m
   | Some a \<Rightarrow> if Failures a \<le> 1 then m(k := None) else m(k \<mapsto> a\<lparr>Failures := Failures a - 1\<rparr>))"
| "spec_call limit window now (Success k) m = (None, m(k := None))"

fun call_limiter :: "int \<Rightarrow> limiter_call \<Rightarrow> login_limiter \<Rightarrow> (bool \<times> int) option \<times> login_limiter" where
  "call_limiter now (Reserve k) l = (case reserve now k l of (r, l') \<Rightarrow> (Some r, l'))"
| "call_limiter now (Cancel k) l = (None, cancel k l)"
| "call_limiter now (Success k) l = (None, success k l)"

fun run_calls :: "(int \<Rightarrow> 'c \<Rightarrow> 's \<Rightarrow> 'o \<times> 's) \<Rightarrow> (int \<times> 'c) list \<Rightarrow> 's \<Rightarrow> 'o list" where
  "run_calls step [] s = []"
| "run_calls step ((now, c) # cs) s = (case step now c s of (out, s') \<Rightarrow> out # run_calls step cs s')"

text \<open>The two agree on what is live now or later.\<close>

definition live :: "int \<Rightarrow> login_attempt option \<Rightarrow> login_attempt option" where
  "live now a = (case a of None \<Rightarrow> None | Some x \<Rightarrow> if attempt_live now x then Some x else None)"

definition agree :: "int \<Rightarrow> counters \<Rightarrow> counters \<Rightarrow> bool" where
  "agree now m n \<longleftrightarrow> (\<forall>k. live now (m k) = live now (n k))"

lemma live_sweep [simp]: "live now (sweep now m k) = live now (m k)"
  by (auto simp: sweep_def live_def split: option.split)

lemma current_attempt_live: "current_attempt now w a = current_attempt now w (live now a)"
  by (auto simp: current_attempt_def live_def split: option.split)

lemma agree_refl [simp]: "agree now m m"
  by (simp add: agree_def)

lemma live_later: "now \<le> now' \<Longrightarrow> live now' (live now a) = live now' a"
  by (auto simp: live_def attempt_live_def split: option.split)

lemma agree_later: "agree now m n \<Longrightarrow> now \<le> now' \<Longrightarrow> agree now' m n"
  unfolding agree_def by (metis live_later)

lemma agree_upd: "agree now m n \<Longrightarrow> agree now (m(k := a)) (n(k := a))"
  by (simp add: agree_def)

definition decremented :: "login_attempt option \<Rightarrow> login_attempt option" where
  "decremented a = (case a of None \<Rightarrow> None | Some x \<Rightarrow>
     if Failures x \<le> 1 then None else Some (x\<lparr>Failures := Failures x - 1\<rparr>))"

lemma live_decremented: "live now (decremented a) = decremented (live now a)"
  by (auto simp: decremented_def live_def attempt_live_def split: option.split)

lemma cancel_at: "Attempts (cancel k l) = (Attempts l)(k := decremented (Attempts l k))"
  by (auto simp: cancel_def decremented_def fun_eq_iff split: option.split)

lemma spec_cancel_at: "snd (spec_call limit window now (Cancel k) m) = m(k := decremented (m k))"
  by (auto simp: decremented_def fun_eq_iff split: option.split)

text \<open>One call: the same answer, and agreement is kept.\<close>

lemma reserve_refines:
  assumes "agree now (Attempts l) m"
  shows "\<exists>r l'. reserve now k l = (r, l') \<and>
    fst (spec_call (AttemptLimit l) (AttemptWindow l) now (Reserve k) m) = Some r \<and>
    agree now (Attempts l') (snd (spec_call (AttemptLimit l) (AttemptWindow l) now (Reserve k) m)) \<and>
    AttemptLimit l' = AttemptLimit l \<and> AttemptWindow l' = AttemptWindow l"
proof -
  define n where "n = (if (LimiterChecks l + 1) mod 128 = 0 then sweep now (Attempts l) else Attempts l)"
  have swept: "agree now n m"
    using assms by (simp add: agree_def n_def)
  then have "current_attempt now (AttemptWindow l) (n k) = current_attempt now (AttemptWindow l) (m k)"
    unfolding agree_def by (metis current_attempt_live)
  then show ?thesis
    unfolding reserve_def Let_def n_def [symmetric]
    using swept by (auto simp: Let_def intro: agree_upd)
qed

lemma call_refines:
  assumes "agree now (Attempts l) m"
  shows "fst (call_limiter now c l) = fst (spec_call (AttemptLimit l) (AttemptWindow l) now c m) \<and>
    agree now (Attempts (snd (call_limiter now c l)))
      (snd (spec_call (AttemptLimit l) (AttemptWindow l) now c m)) \<and>
    AttemptLimit (snd (call_limiter now c l)) = AttemptLimit l \<and>
    AttemptWindow (snd (call_limiter now c l)) = AttemptWindow l"
proof (cases c)
  case (Reserve k)
  then show ?thesis
    using reserve_refines [OF assms, of k] by auto
next
  case (Cancel k)
  have "AttemptLimit (cancel k l) = AttemptLimit l" "AttemptWindow (cancel k l) = AttemptWindow l"
    by (auto simp: cancel_def split: option.split)
  moreover have "agree now (Attempts (cancel k l))
      (snd (spec_call (AttemptLimit l) (AttemptWindow l) now (Cancel k) m))"
    using assms by (simp add: agree_def cancel_at spec_cancel_at live_decremented del: spec_call.simps)
  ultimately show ?thesis
    using Cancel by (simp del: spec_call.simps) simp
next
  case (Success k)
  then show ?thesis
    using assms agree_upd by (auto simp: success_def)
qed

lemma calls_refine:
  "sorted (now # map fst cs) \<Longrightarrow> agree now (Attempts l) m \<Longrightarrow>
   run_calls call_limiter cs l = run_calls (spec_call (AttemptLimit l) (AttemptWindow l)) cs m"
proof (induction cs arbitrary: now l m)
  case (Cons x cs)
  obtain t c where x: "x = (t, c)"
    by fastforce
  have "agree t (Attempts l) m"
    using Cons.prems x agree_later by auto
  from call_refines [OF this, of c] show ?case
    using Cons.IH [of t "snd (call_limiter t c l)"
        "snd (spec_call (AttemptLimit l) (AttemptWindow l) t c m)"] Cons.prems x
    by (auto simp: split_beta)
qed simp

text \<open>
  C36. The limiter refines its specification. For calls at times that never decrease, the limiter, which
  sweeps its table only at every 128th check and keeps expired entries in between, gives exactly
  the answers of one counter per address that starts anew when its window has ended.
\<close>

theorem limiter_refines_counters:
  assumes "sorted (map fst calls)"
  shows "run_calls call_limiter calls (new_login_limiter limit window) =
    run_calls (spec_call limit window) calls Map.empty"
proof (cases calls)
  case (Cons x cs)
  have "run_calls call_limiter calls (new_login_limiter limit window) =
      run_calls (spec_call (AttemptLimit (new_login_limiter limit window))
        (AttemptWindow (new_login_limiter limit window))) calls Map.empty"
    using assms Cons by (intro calls_refine [of "fst x"]) (simp_all add: new_login_limiter_def)
  then show ?thesis
    by (simp add: new_login_limiter_def)
qed simp

lemma limiter_refines_counters_witness:
  "run_calls call_limiter [(0, Reserve ''a''), (1, Reserve ''a''), (2, Cancel ''a''), (9, Reserve ''a'')]
     (new_login_limiter 1 5) = [Some (True, 0), Some (False, 4), None, Some (True, 0)]"
  using limiter_refines_counters
    [of "[(0, Reserve ''a''), (1, Reserve ''a''), (2, Cancel ''a''), (9, Reserve ''a'')]" 1 5]
  by (simp add: current_attempt_def attempt_live_def Let_def)

section \<open>How many passwords an address can try\<close>

definition limiter_ok :: "login_limiter \<Rightarrow> bool" where
  "limiter_ok l \<longleftrightarrow> 1 \<le> AttemptLimit l \<and> 0 < AttemptWindow l \<and>
     (\<forall>k a. Attempts l k = Some a \<longrightarrow> 1 \<le> Failures a \<and> Failures a \<le> AttemptLimit l)"

text \<open>
  \<open>tried k limit deadline n l\<close>: the \<open>n\<close> attempts made since the interval began are counted in the entry
  of \<open>k\<close>, except for at most \<open>limit\<close> of an earlier window, and then the entry outlives the interval.
\<close>

definition tried :: "string \<Rightarrow> int \<Rightarrow> int \<Rightarrow> int \<Rightarrow> login_limiter \<Rightarrow> bool" where
  "tried k limit deadline n l \<longleftrightarrow> (case Attempts l k of
       None \<Rightarrow> n \<le> limit
     | Some a \<Rightarrow> Failures a \<le> limit \<and>
         (n \<le> Failures a \<or> deadline \<le> ResetAt a \<and> n \<le> limit + Failures a))"

lemma limits_kept [simp]:
  "AttemptLimit (cancel k l) = AttemptLimit l" "AttemptWindow (cancel k l) = AttemptWindow l"
  "AttemptLimit (success k l) = AttemptLimit l" "AttemptWindow (success k l) = AttemptWindow l"
  "AttemptLimit (snd (reserve now k l)) = AttemptLimit l"
  "AttemptWindow (snd (reserve now k l)) = AttemptWindow l"
  by (auto simp: cancel_def success_def reserve_def Let_def split: option.split)

lemma tried_sweep:
  assumes "tried k limit deadline n l" and "now < deadline"
  shows "tried k limit deadline n (l\<lparr>Attempts := sweep now (Attempts l)\<rparr>)"
  using assms by (auto simp: tried_def sweep_def attempt_live_def split: option.splits)

lemma tried_reserve:
  assumes "tried k (AttemptLimit l) deadline n l" and "now < deadline"
    and "deadline \<le> now + AttemptWindow l" and "1 \<le> AttemptLimit l"
    and "reserve now key l = ((ok, wait), l')"
  shows "tried k (AttemptLimit l) deadline (if ok \<and> key = k then n + 1 else n) l'"
proof -
  define m where "m = (if (LimiterChecks l + 1) mod 128 = 0 then sweep now (Attempts l) else Attempts l)"
  have swept: "tried k (AttemptLimit l) deadline n (l\<lparr>Attempts := m\<rparr>)"
    using assms(1) tried_sweep [OF assms(1,2)] by (simp add: m_def)
  then show ?thesis
    using assms(2-5) unfolding reserve_def Let_def m_def [symmetric]
    by (auto simp: tried_def current_attempt_def attempt_live_def split: option.splits if_splits)
qed

lemma tried_cancel:
  "tried k limit deadline (n + 1) l \<Longrightarrow> 0 \<le> limit \<Longrightarrow> tried k limit deadline n (cancel k l)"
  "key \<noteq> k \<Longrightarrow> tried k limit deadline n (cancel key l) = tried k limit deadline n l"
  "key \<noteq> k \<Longrightarrow> tried k limit deadline n (success key l) = tried k limit deadline n l"
  by (auto simp: tried_def cancel_def success_def split: option.splits)

lemma tried_less: "tried k limit deadline n l \<Longrightarrow> m \<le> n \<Longrightarrow> tried k limit deadline m l"
  by (auto simp: tried_def split: option.splits)

definition wrong_password :: "string \<Rightarrow> 's login_request \<times> 's login_reply \<Rightarrow> bool" where
  "wrong_password k x \<longleftrightarrow> LoginKey (fst x) = k \<and> snd x = Refused 401 ''invalid_credentials''"

definition logged_in :: "string \<Rightarrow> 's login_request \<times> 's login_reply \<Rightarrow> bool" where
  "logged_in k x \<longleftrightarrow> LoginKey (fst x) = k \<and> (\<exists>s. snd x = LoggedIn s)"

lemma check_login_tried:
  assumes "check_login mac r password l = (reply, l')" and "\<not> logged_in k (r, reply)"
    and "tried k limit deadline (if LoginKey r = k then n + 1 else n) l" and "0 \<le> limit"
  shows "tried k limit deadline (if wrong_password k (r, reply) then n + 1 else n) l'"
  using assms tried_cancel(1) [OF _ assms(4), of k deadline n l] tried_cancel(2,3) [of "LoginKey r" k]
    tried_less [of k limit deadline "n + 1" l n]
  by (auto simp: check_login_def Let_def wrong_password_def logged_in_def
      split: sum.splits bool.splits if_splits)

lemma handle_login_tried:
  assumes "handle_login mac now r l = (reply, l')" and "\<not> logged_in k (r, reply)"
    and "tried k (AttemptLimit l) deadline n l" and "now < deadline"
    and "deadline \<le> now + AttemptWindow l" and "1 \<le> AttemptLimit l"
  shows "tried k (AttemptLimit l) deadline (if wrong_password k (r, reply) then n + 1 else n) l' \<and>
    AttemptLimit l' = AttemptLimit l \<and> AttemptWindow l' = AttemptWindow l"
proof -
  obtain ok wait l1 where l1: "reserve now (LoginKey r) l = ((ok, wait), l1)"
    by (metis surj_pair)
  have limits: "AttemptLimit l1 = AttemptLimit l" "AttemptWindow l1 = AttemptWindow l"
    using arg_cong [OF l1, of snd] limits_kept(5,6) [of now "LoginKey r" l] by simp_all
  have kept: "AttemptLimit l' = AttemptLimit l \<and> AttemptWindow l' = AttemptWindow l"
    using assms(1) l1 limits by (auto simp: handle_login_def check_login_def Let_def
        split: if_splits bool.splits option.splits sum.splits)
  have n: "tried k (AttemptLimit l) deadline (if ok \<and> LoginKey r = k then n + 1 else n) l1"
    by (rule tried_reserve [OF assms(3-6) l1])
  have "tried k (AttemptLimit l) deadline (if wrong_password k (r, reply) then n + 1 else n) l'"
  proof (cases "PostMethod r \<and> JsonBody r \<and> TrustedOrigin r")
    case False
    then show ?thesis
      using assms(1,3) by (auto simp: handle_login_def Let_def wrong_password_def split: if_splits)
  next
    case True
    note open' = True
    show ?thesis
    proof (cases ok)
      case False
      then show ?thesis
        using assms(1) open' l1 n by (auto simp: handle_login_def Let_def wrong_password_def)
    next
      case True
      have less: "tried k (AttemptLimit l) deadline n l1"
        using n by (rule tried_less) simp
      have canceled: "tried k (AttemptLimit l) deadline n (cancel (LoginKey r) l1)"
        using n True tried_cancel(1) [of k "AttemptLimit l" deadline n l1]
          tried_cancel(2) [of "LoginKey r" k] assms(6) by (cases "LoginKey r = k") auto
      consider "LoginPassword r = None"
        | p where "LoginPassword r = Some p" "p = [] \<or> length p > 4096"
        | p where "LoginPassword r = Some p" "\<not> (p = [] \<or> length p > 4096)" "\<not> (CheckSlot r \<and> MutationGate r)"
        | p where "LoginPassword r = Some p" "\<not> (p = [] \<or> length p > 4096)" "CheckSlot r \<and> MutationGate r"
        by blast
      then show ?thesis
      proof cases
        case 1
        then show ?thesis
          using assms(1) open' l1 True less by (auto simp: handle_login_def Let_def wrong_password_def)
      next
        case 2
        then show ?thesis
          using assms(1) open' l1 True n by (auto simp: handle_login_def Let_def wrong_password_def)
      next
        case 3
        then have "l' = cancel (LoginKey r) l1" "reply = Refused 503 ''request_canceled''"
          using assms(1) open' l1 True by (auto simp: handle_login_def Let_def split: if_splits)
        then show ?thesis
          using canceled by (simp add: wrong_password_def)
      next
        case 4
        then have "check_login mac r p l1 = (reply, l')"
          using assms(1) open' l1 True by (simp add: handle_login_def Let_def)
        then show ?thesis
          using check_login_tried [of mac r p l1 reply l' k "AttemptLimit l" deadline n]
            assms(2,6) n True by simp
      qed
    qed
  qed
  with kept show ?thesis
    by blast
qed

text \<open>The wrong passwords the client \<open>k\<close> was told about.\<close>

definition wrong_passwords ::
  "string \<Rightarrow> (int \<times> 's login_request) list \<Rightarrow> 's login_reply list \<Rightarrow> nat" where
  "wrong_passwords k requests replies =
     length (filter (wrong_password k) (zip (map snd requests) replies))"

lemma logins_tried:
  assumes "tried k (AttemptLimit l) deadline n l" and "1 \<le> AttemptLimit l"
    and "\<forall>(now, r) \<in> set requests. now < deadline \<and> deadline \<le> now + AttemptWindow l"
    and "\<not> list_ex (logged_in k) (zip (map snd requests) (run_calls (handle_login mac) requests l))"
  shows "n + int (wrong_passwords k requests (run_calls (handle_login mac) requests l)) \<le>
    2 * AttemptLimit l"
  using assms
proof (induction requests arbitrary: l n)
  case Nil
  then show ?case
    by (auto simp: wrong_passwords_def tried_def split: option.splits)
next
  case (Cons x requests)
  obtain now r where x: "x = (now, r)"
    by fastforce
  obtain reply l' where l': "handle_login mac now r l = (reply, l')"
    by fastforce
  let ?n = "if wrong_password k (r, reply) then n + 1 else n"
  have "\<not> logged_in k (r, reply)"
    using Cons.prems(4) x l' by auto
  from handle_login_tried [OF l' this Cons.prems(1)] have next':
    "tried k (AttemptLimit l') deadline ?n l'" "AttemptLimit l' = AttemptLimit l"
    "AttemptWindow l' = AttemptWindow l"
    using Cons.prems(2,3) x by auto
  have "?n + int (wrong_passwords k requests (run_calls (handle_login mac) requests l')) \<le>
      2 * AttemptLimit l'"
    by (rule Cons.IH [OF next'(1)]) (use Cons.prems x l' next' in auto)
  then show ?case
    using x l' next'(2) by (auto simp: wrong_passwords_def)
qed


text \<open>A request with a password, to a server without a credential.\<close>

definition unknown_login :: "unit login_request" where
  "unknown_login = \<lparr>PostMethod = True, JsonBody = True, TrustedOrigin = True, LoginKey = ''a'',
     LoginPassword = Some ''secret'', CheckSlot = True, MutationGate = True,
     CredentialAnswer = Inl err_not_found, IssueAnswer = (\<lambda>_. Inr ())\<rparr>"


text \<open>
  The table of the limiter stays within bounds: every call keeps all counters between one and the
  limit, and whoever is refused is told to wait for a positive time.
\<close>

theorem limiter_stays_ok:
  assumes "limiter_ok l"
  shows "limiter_ok (snd (call_limiter now c l)) \<and>
    (\<forall>wait. fst (call_limiter now c l) = Some (False, wait) \<longrightarrow> 0 < wait)"
proof (cases c)
  case (Reserve k)
  define m where "m = (if (LimiterChecks l + 1) mod 128 = 0 then sweep now (Attempts l) else Attempts l)"
  have m: "1 \<le> Failures a \<and> Failures a \<le> AttemptLimit l" if "m j = Some a" for j a
    using that assms by (auto simp: m_def limiter_ok_def sweep_def split: if_splits option.splits)
  have limits: "1 \<le> AttemptLimit l" "0 < AttemptWindow l"
    using assms by (simp_all add: limiter_ok_def)
  have current: "0 \<le> Failures (current_attempt now (AttemptWindow l) (m k)) \<and>
      now < ResetAt (current_attempt now (AttemptWindow l) (m k))"
    using m [of k] limits
    by (auto simp: current_attempt_def attempt_live_def split: option.split)
  show ?thesis
    using m limits current unfolding Reserve call_limiter.simps reserve_def Let_def m_def [symmetric]
    by (auto simp: limiter_ok_def)
next
  case (Cancel k)
  have "\<forall>a. Attempts l k = Some a \<longrightarrow> Failures a - 1 \<le> AttemptLimit l"
    using assms by (fastforce simp: limiter_ok_def)
  then show ?thesis
    using assms Cancel by (auto simp: limiter_ok_def cancel_at decremented_def split: option.splits if_splits)
next
  case (Success k)
  then show ?thesis
    using assms by (auto simp: limiter_ok_def success_def)
qed

lemma limiter_stays_ok_witness:
  "limiter_ok (snd (call_limiter 0 (Reserve ''a'') (new_login_limiter 1 5)))"
  using limiter_stays_ok [of "new_login_limiter 1 5" 0 "Reserve ''a''"]
  by (simp add: limiter_ok_def new_login_limiter_def)

end
