(* ===== verification/Web_Session.thy ===== *)
theory Web_Session
  imports Web_Login
begin

text \<open>
  The session manager of \<^verbatim>\<open>internal/web/auth.go\<close>: signing secrets, their rotation and revocation,
  tokens and their verification. Randomness, the secret store and the clock are programs over an
  arbitrary world; HMAC-SHA256 and the JSON coding of the claims are functions. Times are
  nanoseconds since the epoch, and \<open>None\<close> the zero time. The lock of the manager makes each
  operation one program.
\<close>

section \<open>Secrets\<close>

record session_secret =
  SecretID :: string
  SecretKey :: string
  CreatedAt :: "int option"
  RetireAt :: "int option"

record secret_set =
  Current :: session_secret
  Previous :: "session_secret list"

record session_claims =
  Subject :: string
  ClaimName :: string
  SessionID :: string
  CSRF :: string
  IssuedAt :: int
  ExpiresAt :: int

record 'w session_env =
  RandomBytes :: "nat \<Rightarrow> ('w, string fallible) state"
  LoadSecrets :: "('w, secret_set fallible) state"
  SaveSecrets :: "secret_set \<Rightarrow> ('w, gerror option) state"
  Clock :: "('w, int) state"
  Hmac :: keyed_hash
  EncodeClaims :: "session_claims \<Rightarrow> string fallible"
  DecodeClaims :: "string \<Rightarrow> session_claims option"

record session_manager =
  Secrets :: secret_set
  Ttl :: int
  RotateInterval :: int

definition err_invalid_session :: gerror where "err_invalid_session = Sentinel ''invalid session''"

definition err_expired_session :: gerror where "err_expired_session = Sentinel ''expired session''"

definition min_signing_key_bytes :: nat where "min_signing_key_bytes = 32"

text \<open>The loop over all secrets with the identifiers seen so far.\<close>

fun validate_secrets :: "string list \<Rightarrow> session_secret list \<Rightarrow> gerror option" where
  "validate_secrets seen [] = None"
| "validate_secrets seen (s # rest) =
     (if SecretID s = [] \<or> length (SecretKey s) < min_signing_key_bytes \<or> CreatedAt s = None
      then Some (Err ''web: invalid persisted session secret'')
      else if SecretID s \<in> set seen then Some (Err ''web: duplicate persisted session secret id'')
      else validate_secrets (SecretID s # seen) rest)"

definition validate_secret_set :: "secret_set \<Rightarrow> gerror option" where
  "validate_secret_set ss = validate_secrets [] (Current ss # Previous ss)"

definition generate_secret :: "'w session_env \<Rightarrow> int \<Rightarrow> ('w, session_secret fallible) state" where
  "generate_secret env created = do {
     id_bytes \<leftarrow> RandomBytes env 9;
     case id_bytes of
       Inl e \<Rightarrow> State_Monad.return (Inl (Wrap ''web: generate session secret id'' e))
     | Inr i \<Rightarrow> do {
         key \<leftarrow> RandomBytes env min_signing_key_bytes;
         State_Monad.return (case key of
             Inl e \<Rightarrow> Inl (Wrap ''web: generate session signing key'' e)
           | Inr k \<Rightarrow> Inr \<lparr>SecretID = base64_encode i, SecretKey = k, CreatedAt = Some created,
               RetireAt = None\<rparr>) } }"

definition store_secrets ::
  "'w session_env \<Rightarrow> string \<Rightarrow> session_manager \<Rightarrow> secret_set \<Rightarrow>
   ('w, gerror option \<times> session_manager) state" where
  "store_secrets env msg m candidate = do {
     saved \<leftarrow> SaveSecrets env candidate;
     State_Monad.return (case saved of
         Some e \<Rightarrow> (Some (Wrap msg e), m)
       | None \<Rightarrow> (None, m\<lparr>Secrets := candidate\<rparr>)) }"

text \<open>A first start creates and stores a secret; then the set must be valid.\<close>

definition checked_manager :: "session_manager \<Rightarrow> session_manager fallible" where
  "checked_manager m = (case validate_secret_set (Secrets m) of Some e \<Rightarrow> Inl e | None \<Rightarrow> Inr m)"

definition new_session_manager ::
  "'w session_env \<Rightarrow> int \<Rightarrow> int \<Rightarrow> ('w, session_manager fallible) state" where
  "new_session_manager env ttl rotate_interval = do {
     loaded \<leftarrow> LoadSecrets env;
     case loaded of
       Inl e \<Rightarrow> State_Monad.return (Inl (Wrap ''web: load session secrets'' e))
     | Inr loaded_set \<Rightarrow>
         let m = \<lparr>Secrets = loaded_set, Ttl = ttl, RotateInterval = rotate_interval\<rparr> in
         if SecretKey (Current loaded_set) \<noteq> [] then State_Monad.return (checked_manager m)
         else do {
           now \<leftarrow> Clock env;
           generated \<leftarrow> generate_secret env now;
           case generated of
             Inl e \<Rightarrow> State_Monad.return (Inl e)
           | Inr secret \<Rightarrow> do {
               stored \<leftarrow> store_secrets env ''web: persist initial session secret'' m
                 \<lparr>Current = secret, Previous = []\<rparr>;
               State_Monad.return (case stored of
                   (Some e, _) \<Rightarrow> Inl e | (None, m') \<Rightarrow> checked_manager m') } } }"

section \<open>Rotation and revocation\<close>

definition rotation_due :: "int \<Rightarrow> session_manager \<Rightarrow> bool" where
  "rotation_due now m \<longleftrightarrow> \<not> (RotateInterval m \<le> 0 \<or>
     (case CreatedAt (Current (Secrets m)) of None \<Rightarrow> False | Some c \<Rightarrow> now < c + RotateInterval m))"

text \<open>The former secret retires when the last session it signed has ended.\<close>

definition rotated_set :: "int \<Rightarrow> int \<Rightarrow> session_secret \<Rightarrow> secret_set \<Rightarrow> secret_set" where
  "rotated_set now ttl new ss =
     \<lparr>Current = new,
      Previous = (Current ss)\<lparr>RetireAt := Some (now + ttl)\<rparr> #
        filter (\<lambda>s. case RetireAt s of None \<Rightarrow> True | Some r \<Rightarrow> r > now) (Previous ss)\<rparr>"

definition rotate_if_due ::
  "'w session_env \<Rightarrow> session_manager \<Rightarrow> ('w, gerror option \<times> session_manager) state" where
  "rotate_if_due env m = do {
     now \<leftarrow> Clock env;
     if \<not> rotation_due now m then State_Monad.return (None, m)
     else do {
       generated \<leftarrow> generate_secret env now;
       case generated of
         Inl e \<Rightarrow> State_Monad.return (Some e, m)
       | Inr new \<Rightarrow> store_secrets env ''web: persist rotated session secret'' m
           (rotated_set now (Ttl m) new (Secrets m)) } }"

definition revoke_all ::
  "'w session_env \<Rightarrow> session_manager \<Rightarrow> ('w, gerror option \<times> session_manager) state" where
  "revoke_all env m = do {
     now \<leftarrow> Clock env;
     generated \<leftarrow> generate_secret env now;
     case generated of
       Inl e \<Rightarrow> State_Monad.return (Some e, m)
     | Inr new \<Rightarrow> store_secrets env ''web: persist revoked session state'' m
         \<lparr>Current = new, Previous = []\<rparr> }"

section \<open>Tokens\<close>

definition sign_session :: "keyed_hash \<Rightarrow> string \<Rightarrow> string \<Rightarrow> string" where
  "sign_session mac key v = base64_encode (mac key v)"

definition random_token :: "'w session_env \<Rightarrow> nat \<Rightarrow> ('w, string fallible) state" where
  "random_token env n = do {
     random \<leftarrow> RandomBytes env n;
     State_Monad.return (case random of
         Inl e \<Rightarrow> Inl (Wrap ''web: generate random token'' e)
       | Inr b \<Rightarrow> Inr (base64_encode b)) }"

definition unix_seconds :: "int \<Rightarrow> int" where
  "unix_seconds t = t div one_second"

definition token_prefix :: "string \<Rightarrow> string \<Rightarrow> string" where
  "token_prefix secret_id payload = ''v1.'' @ secret_id @ ''.'' @ base64_encode payload"

definition signed_token :: "keyed_hash \<Rightarrow> session_secret \<Rightarrow> string \<Rightarrow> string" where
  "signed_token mac secret payload = (let p = token_prefix (SecretID secret) payload in
     p @ ''.'' @ sign_session mac (SecretKey secret) p)"

definition new_claims :: "session_manager \<Rightarrow> credential \<Rightarrow> string \<Rightarrow> string \<Rightarrow> int \<Rightarrow> session_claims" where
  "new_claims m user session_id csrf now = \<lparr>Subject = UserID user, ClaimName = DisplayName user,
     SessionID = session_id, CSRF = csrf, IssuedAt = unix_seconds now,
     ExpiresAt = unix_seconds (now + Ttl m)\<rparr>"

definition issue_claims ::
  "'w session_env \<Rightarrow> session_manager \<Rightarrow> credential \<Rightarrow>
   ('w, (string \<times> session_claims) fallible) state" where
  "issue_claims env m user = attempt (random_token env 18) (\<lambda>session_id.
     attempt (random_token env 24) (\<lambda>csrf. do {
       now \<leftarrow> Clock env;
       let claims = new_claims m user session_id csrf now;
       State_Monad.return (case EncodeClaims env claims of
           Inl e \<Rightarrow> Inl (Wrap ''web: encode session'' e)
         | Inr payload \<Rightarrow>
             Inr (signed_token (Hmac env) (Current (Secrets m)) payload, claims)) }))"

definition issue ::
  "'w session_env \<Rightarrow> session_manager \<Rightarrow> credential \<Rightarrow>
   ('w, (string \<times> session_claims) fallible \<times> session_manager) state" where
  "issue env m user = do {
     (failed, m') \<leftarrow> rotate_if_due env m;
     case failed of
       Some e \<Rightarrow> State_Monad.return (Inl e, m')
     | None \<Rightarrow> do {
         issued \<leftarrow> issue_claims env m' user;
         State_Monad.return (issued, m') } }"

definition find_secret :: "secret_set \<Rightarrow> string \<Rightarrow> int \<Rightarrow> session_secret option" where
  "find_secret ss i now =
     (if SecretID (Current ss) = i then Some (Current ss)
      else find (\<lambda>s. SecretID s = i \<and> (case RetireAt s of None \<Rightarrow> True | Some r \<Rightarrow> now < r)) (Previous ss))"

text \<open>Decoding that accepts the canonical encoding only.\<close>

definition canonical_decode :: "string \<Rightarrow> string option" where
  "canonical_decode s = (case base64_decode s of
       None \<Rightarrow> None | Some b \<Rightarrow> if base64_encode b = s then Some b else None)"

definition check_claims :: "int \<Rightarrow> session_claims \<Rightarrow> session_claims fallible" where
  "check_claims now c =
     (if Subject c = [] \<or> SessionID c = [] \<or> CSRF c = [] \<or> IssuedAt c \<le> 0 \<or> ExpiresAt c \<le> IssuedAt c
      then Inl err_invalid_session
      else if IssuedAt c > now + 300 then Inl err_invalid_session
      else if now \<ge> ExpiresAt c then Inl err_expired_session
      else Inr c)"

text \<open>What a token with the given secret's identifier says, when its signature is right.\<close>

definition signed_claims ::
  "'w session_env \<Rightarrow> session_secret \<Rightarrow> string \<Rightarrow> string \<Rightarrow> string \<Rightarrow> string \<Rightarrow> session_claims option" where
  "signed_claims env secret version i encoded signature =
     (case canonical_decode signature of
        None \<Rightarrow> None
      | Some want \<Rightarrow>
          if Hmac env (SecretKey secret) (join ''.'' [version, i, encoded]) \<noteq> want then None
          else (case canonical_decode encoded of
              None \<Rightarrow> None | Some payload \<Rightarrow> DecodeClaims env payload))"

definition verify_parts ::
  "'w session_env \<Rightarrow> session_manager \<Rightarrow> string \<Rightarrow> string \<Rightarrow> string \<Rightarrow> string \<Rightarrow>
   ('w, session_claims fallible) state" where
  "verify_parts env m version i encoded signature =
     (if version \<noteq> ''v1'' then State_Monad.return (Inl err_invalid_session)
      else do {
        now \<leftarrow> Clock env;
        case find_secret (Secrets m) i now of
          None \<Rightarrow> State_Monad.return (Inl err_invalid_session)
        | Some secret \<Rightarrow> (case signed_claims env secret version i encoded signature of
            None \<Rightarrow> State_Monad.return (Inl err_invalid_session)
          | Some c \<Rightarrow> do {
              now \<leftarrow> Clock env;
              State_Monad.return (check_claims (unix_seconds now) c) }) })"

definition verify :: "'w session_env \<Rightarrow> session_manager \<Rightarrow> string \<Rightarrow> ('w, session_claims fallible) state" where
  "verify env m token = (case split_on CHR ''.'' token of
       [version, i, encoded, signature] \<Rightarrow> verify_parts env m version i encoded signature
     | _ \<Rightarrow> State_Monad.return (Inl err_invalid_session))"

end
