(* ===== verification/Web_Session_Proofs.thy ===== *)
theory Web_Session_Proofs
  imports Web_Session
begin

text \<open>
  Sessions: which tokens are accepted, that a rotation of the signing secrets ends no session early,
  that a revocation ends every session, and that the secrets in memory are the stored ones.
\<close>

section \<open>Accepted tokens\<close>

lemma canonical_decode_Some: "canonical_decode s = Some b \<longleftrightarrow> s = base64_encode b"
  by (auto simp: canonical_decode_def split: option.splits if_splits)

lemma canonical_decode_encode [simp]: "canonical_decode (base64_encode b) = Some b"
  by (simp add: canonical_decode_Some)

lemma signed_claims_Some: "signed_claims env secret version i encoded signature = Some c \<longleftrightarrow>
    (\<exists>payload. encoded = base64_encode payload \<and> DecodeClaims env payload = Some c \<and>
       signature = sign_session (Hmac env) (SecretKey secret) (join ''.'' [version, i, encoded]))"
  by (auto simp: signed_claims_def canonical_decode_Some sign_session_def
      simp del: join.simps split: option.splits if_splits)

definition token_parts :: "keyed_hash \<Rightarrow> session_secret \<Rightarrow> string \<Rightarrow> string list" where
  "token_parts mac secret payload = [''v1'', SecretID secret, base64_encode payload,
     sign_session mac (SecretKey secret) (token_prefix (SecretID secret) payload)]"

lemma join_parts: "join ''.'' [''v1'', i, base64_encode payload] = token_prefix i payload"
  by (simp add: token_prefix_def)

lemma signed_token_join: "signed_token mac secret payload = join ''.'' (token_parts mac secret payload)"
  by (simp add: signed_token_def token_parts_def token_prefix_def Let_def)

lemma split_signed_token: "CHR ''.'' \<notin> set (SecretID secret) \<Longrightarrow>
    split_on CHR ''.'' (signed_token mac secret payload) = token_parts mac secret payload"
  unfolding signed_token_join
  by (rule split_join) (auto simp: token_parts_def sign_session_def)

lemma wp_verify_signed [wp_simps]: "CHR ''.'' \<notin> set (SecretID secret) \<Longrightarrow>
    wp (verify env m (signed_token mac secret payload)) Q w =
    wp (verify_parts env m ''v1'' (SecretID secret) (base64_encode payload)
      (sign_session mac (SecretKey secret) (token_prefix (SecretID secret) payload))) Q w"
  by (simp add: verify_def split_signed_token token_parts_def)

lemma signed_parts:
  assumes "split_on CHR ''.'' token = [''v1'', SecretID secret, encoded, signature]"
  shows "signed_claims env secret ''v1'' (SecretID secret) encoded signature = Some c \<longleftrightarrow>
    (\<exists>payload. token = signed_token (Hmac env) secret payload \<and> DecodeClaims env payload = Some c)"
proof -
  have "CHR ''.'' \<notin> set (SecretID secret)"
    using split_on_free [of "SecretID secret" "CHR ''.''" token] assms by simp
  then have "token = signed_token (Hmac env) secret payload \<longleftrightarrow>
      [''v1'', SecretID secret, encoded, signature] = token_parts (Hmac env) secret payload" for payload
    using assms split_signed_token [of secret "Hmac env" payload] join_split [of "CHR ''.''" token]
    by (metis signed_token_join)
  then show ?thesis
    by (auto simp: signed_claims_Some token_parts_def join_parts simp del: join.simps)
qed

lemma find_secret_id: "find_secret ss i now = Some secret \<Longrightarrow> SecretID secret = i"
  by (auto simp: find_secret_def find_Some_iff split: if_splits)

text \<open>What holds of an answer, whatever the clock does.\<close>

lemma verify_wp:
  assumes "\<And>e w'. e = err_invalid_session \<or> e = err_expired_session \<Longrightarrow> Q (Inl e) w'"
    and "\<And>i encoded signature. split_on CHR ''.'' token = [''v1'', i, encoded, signature] \<Longrightarrow>
      wp (verify_parts env m ''v1'' i encoded signature) Q w"
  shows "wp (verify env m token) Q w"
proof (cases "\<exists>v i e s. split_on CHR ''.'' token = [v, i, e, s]")
  case True
  then obtain v i e s where "split_on CHR ''.'' token = [v, i, e, s]"
    by blast
  with assms show ?thesis
    by (cases "v = ''v1''") (auto simp: verify_def verify_parts_def wp_simps)
next
  case False
  then have "verify env m token = State_Monad.return (Inl err_invalid_session)"
    by (auto simp: verify_def split: list.split)
  then show ?thesis
    by (simp add: wp_simps assms(1))
qed

lemma verify_parts_wp:
  "wp (verify_parts env m ''v1'' i encoded signature) Q w =
   wp (Clock env) (\<lambda>now. case find_secret (Secrets m) i now of
       None \<Rightarrow> Q (Inl err_invalid_session)
     | Some secret \<Rightarrow> (case signed_claims env secret ''v1'' i encoded signature of
         None \<Rightarrow> Q (Inl err_invalid_session)
       | Some c \<Rightarrow> wp (Clock env) (\<lambda>now. Q (check_claims (unix_seconds now) c)))) w"
  unfolding verify_parts_def
  by (simp add: wp_bind, rule arg_cong [where f = "\<lambda>P. wp (Clock env) P w"], intro ext)
     (simp add: wp_simps split: option.split)

lemma check_claims_same: "check_claims now c = Inr d \<Longrightarrow> d = c"
  by (auto simp: check_claims_def split: if_splits)


section \<open>The life of the secrets\<close>

text \<open>
  What is assumed of the surroundings: time does not run backwards and the clock shows a time passed,
  the random source returns as many bytes as asked for and never the same ones again, and the store
  holds what it was given when it reports success.
\<close>

definition later :: "('w \<Rightarrow> int) \<Rightarrow> ('w \<Rightarrow> string list) \<Rightarrow> 'w \<Rightarrow> 'w \<Rightarrow> bool" where
  "later time used w w' \<longleftrightarrow> time w \<le> time w' \<and> set (used w) \<subseteq> set (used w')"

definition sane_env ::
  "'w session_env \<Rightarrow> ('w \<Rightarrow> int) \<Rightarrow> ('w \<Rightarrow> string list) \<Rightarrow> ('w \<Rightarrow> secret_set) \<Rightarrow> bool" where
  "sane_env env time used disk \<longleftrightarrow>
     (\<forall>w n. n > 0 \<longrightarrow> wp (RandomBytes env n) (\<lambda>r w'. later time used w w' \<and> disk w' = disk w \<and>
        (\<forall>b. r = Inr b \<longrightarrow> length b = n \<and> b \<notin> set (used w) \<and> b \<in> set (used w'))) w) \<and>
     (\<forall>w. wp (Clock env) (\<lambda>t w'. later time used w w' \<and> disk w' = disk w \<and>
        time w \<le> t \<and> t \<le> time w') w) \<and>
     (\<forall>w ss. wp (SaveSecrets env ss) (\<lambda>r w'. later time used w w' \<and> (r = None \<longrightarrow> disk w' = ss)) w) \<and>
     (\<forall>w. wp (LoadSecrets env) (\<lambda>r w'. later time used w w' \<and> disk w' = disk w \<and>
        (\<forall>ss. r = Inr ss \<longrightarrow> ss = disk w)) w)"

definition all_secrets :: "secret_set \<Rightarrow> session_secret list" where
  "all_secrets ss = Current ss # Previous ss"

definition ids_used :: "string list \<Rightarrow> secret_set \<Rightarrow> bool" where
  "ids_used used ss \<longleftrightarrow> list_all (\<lambda>s. SecretID s \<in> base64_encode ` set used) (all_secrets ss)"

definition manager_ok :: "string list \<Rightarrow> session_manager \<Rightarrow> bool" where
  "manager_ok used m \<longleftrightarrow> validate_secret_set (Secrets m) = None \<and> ids_used used (Secrets m)"

lemma later_refl [simp]: "later time used w w"
  by (simp add: later_def)

lemma later_trans [trans]: "later time used w w' \<Longrightarrow> later time used w' w'' \<Longrightarrow> later time used w w''"
  by (auto simp: later_def)

lemma ids_used_later: "ids_used (used w) ss \<Longrightarrow> later time used w w' \<Longrightarrow> ids_used (used w') ss"
  by (auto simp: ids_used_def list_all_iff later_def)

lemma manager_ok_later: "manager_ok (used w) m \<Longrightarrow> later time used w w' \<Longrightarrow> manager_ok (used w') m"
  by (auto simp: manager_ok_def intro: ids_used_later)

definition good_secret :: "session_secret \<Rightarrow> bool" where
  "good_secret s \<longleftrightarrow> SecretID s \<noteq> [] \<and> min_signing_key_bytes \<le> length (SecretKey s) \<and> CreatedAt s \<noteq> None"

lemma validate_secrets_None: "validate_secrets seen ss = None \<longleftrightarrow> list_all good_secret ss \<and>
    distinct (map SecretID ss) \<and> set seen \<inter> SecretID ` set ss = {}"
  by (induction ss arbitrary: seen) (auto simp: good_secret_def)

lemma validate_secret_set_None: "validate_secret_set ss = None \<longleftrightarrow>
    list_all good_secret (all_secrets ss) \<and> distinct (map SecretID (all_secrets ss))"
  unfolding validate_secret_set_def validate_secrets_None all_secrets_def by simp

lemma sane_random:
  assumes "sane_env env time used disk" and "n > 0"
    and "\<And>r w'. later time used w w' \<Longrightarrow> disk w' = disk w \<Longrightarrow>
      (\<And>b. r = Inr b \<Longrightarrow> length b = n \<and> b \<notin> set (used w) \<and> b \<in> set (used w')) \<Longrightarrow> Q r w'"
  shows "wp (RandomBytes env n) Q w"
proof -
  have "wp (RandomBytes env n) (\<lambda>r w'. later time used w w' \<and> disk w' = disk w \<and>
      (\<forall>b. r = Inr b \<longrightarrow> length b = n \<and> b \<notin> set (used w) \<and> b \<in> set (used w'))) w"
    using assms(1,2) by (simp add: sane_env_def)
  then show ?thesis
    by (rule wp_mono) (auto intro: assms(3))
qed

lemma sane_clock:
  assumes "sane_env env time used disk"
    and "\<And>t w'. later time used w w' \<Longrightarrow> disk w' = disk w \<Longrightarrow> time w \<le> t \<Longrightarrow> t \<le> time w' \<Longrightarrow> Q t w'"
  shows "wp (Clock env) Q w"
proof -
  have "wp (Clock env) (\<lambda>t w'. later time used w w' \<and> disk w' = disk w \<and> time w \<le> t \<and> t \<le> time w') w"
    using assms(1) by (simp add: sane_env_def)
  then show ?thesis
    by (rule wp_mono) (auto intro: assms(2))
qed

lemma sane_save:
  assumes "sane_env env time used disk"
    and "\<And>r w'. later time used w w' \<Longrightarrow> (r = None \<Longrightarrow> disk w' = ss) \<Longrightarrow> Q r w'"
  shows "wp (SaveSecrets env ss) Q w"
proof -
  have "wp (SaveSecrets env ss) (\<lambda>r w'. later time used w w' \<and> (r = None \<longrightarrow> disk w' = ss)) w"
    using assms(1) by (simp add: sane_env_def)
  then show ?thesis
    by (rule wp_mono) (auto intro: assms(2))
qed

lemma sane_load:
  assumes "sane_env env time used disk"
    and "\<And>r w'. later time used w w' \<Longrightarrow> disk w' = disk w \<Longrightarrow> (\<And>ss. r = Inr ss \<Longrightarrow> ss = disk w) \<Longrightarrow> Q r w'"
  shows "wp (LoadSecrets env) Q w"
proof -
  have "wp (LoadSecrets env) (\<lambda>r w'. later time used w w' \<and> disk w' = disk w \<and>
      (\<forall>ss. r = Inr ss \<longrightarrow> ss = disk w)) w"
    using assms(1) by (simp add: sane_env_def)
  then show ?thesis
    by (rule wp_mono) (auto intro: assms(2))
qed

text \<open>What generating and storing secrets does.\<close>

definition fresh_secret :: "string list \<Rightarrow> string list \<Rightarrow> session_secret \<Rightarrow> bool" where
  "fresh_secret used used' s \<longleftrightarrow> good_secret s \<and> SecretID s \<notin> base64_encode ` set used \<and>
     SecretID s \<in> base64_encode ` set used' \<and> RetireAt s = None"

lemma generate_secret_wp:
  assumes "sane_env env time used disk"
  shows "wp (generate_secret env created) (\<lambda>r w'. later time used w w' \<and> disk w' = disk w \<and>
    (\<forall>s. r = Inr s \<longrightarrow> fresh_secret (used w) (used w') s)) w"
proof -
  note random = sane_random [OF assms]
  have nonempty: "length (base64_encode b) > 0" if "length b = 9" for b
    using that by (cases b rule: base64_encode.cases) auto
  show ?thesis
    unfolding generate_secret_def wp_bind
  proof (rule random, goal_cases)
    case (2 r w1)
    then show ?case
    proof (cases r)
      case (Inr i)
      with 2 have "length (base64_encode i) > 0"
        by (intro nonempty) simp
      with 2 Inr show ?thesis
        by (auto simp: wp_simps fresh_secret_def good_secret_def min_signing_key_bytes_def later_def
            split: sum.splits intro!: random) (blast+)
    qed (simp add: wp_simps)
  qed simp
qed

lemma store_secrets_wp:
  assumes "sane_env env time used disk"
  shows "wp (store_secrets env msg m ss) (\<lambda>(failed, m') w'. later time used w w' \<and>
    (if failed = None then m' = m\<lparr>Secrets := ss\<rparr> \<and> disk w' = ss else m' = m)) w"
  unfolding store_secrets_def wp_bind
  by (rule sane_save [OF assms]) (auto simp: wp_simps split: option.split)

text \<open>
  Rotation either leaves the manager as it is, or installs and has stored the rotated set.
\<close>

definition rotated ::
  "('w \<Rightarrow> int) \<Rightarrow> ('w \<Rightarrow> string list) \<Rightarrow> 'w \<times> session_manager \<Rightarrow> 'w \<times> session_manager \<Rightarrow> bool" where
  "rotated time used s s' \<longleftrightarrow> (\<exists>now new. time (fst s) \<le> now \<and> now \<le> time (fst s') \<and>
     fresh_secret (used (fst s)) (used (fst s')) new \<and>
     snd s' = (snd s)\<lparr>Secrets := rotated_set now (Ttl (snd s)) new (Secrets (snd s))\<rparr>)"

definition revoked ::
  "('w \<Rightarrow> string list) \<Rightarrow> 'w \<times> session_manager \<Rightarrow> 'w \<times> session_manager \<Rightarrow> bool" where
  "revoked used s s' \<longleftrightarrow> (\<exists>new. fresh_secret (used (fst s)) (used (fst s')) new \<and>
     snd s' = (snd s)\<lparr>Secrets := \<lparr>Current = new, Previous = []\<rparr>\<rparr>)"

lemma fresh_secret_later:
  "fresh_secret used0 (used w1) s \<Longrightarrow> later time used w1 w2 \<Longrightarrow> fresh_secret used0 (used w2) s"
  "fresh_secret (used w1) used2 s \<Longrightarrow> later time used w0 w1 \<Longrightarrow> fresh_secret (used w0) used2 s"
  by (auto simp: fresh_secret_def later_def)

lemma rotate_wp:
  assumes "sane_env env time used disk"
  shows "wp (rotate_if_due env m) (\<lambda>(failed, m') w'. later time used w w' \<and>
    (m' = m \<and> (failed = None \<longrightarrow> disk w' = disk w) \<or>
     failed = None \<and> rotated time used (w, m) (w', m') \<and> disk w' = Secrets m')) w"
  unfolding rotate_if_due_def wp_bind
proof (rule sane_clock [OF assms], goal_cases)
  case (1 now w1)
  note w1 = this
  show ?case
    unfolding wp_if wp_return wp_bind
  proof (cases "rotation_due now m", goal_cases)
    case 1
    have "wp (generate_secret env now) (\<lambda>r. wp (case r of
          Inl e \<Rightarrow> State_Monad.return (Some e, m)
        | Inr new \<Rightarrow> store_secrets env ''web: persist rotated session secret'' m
            (rotated_set now (Ttl m) new (Secrets m)))
        (\<lambda>(failed, m') w'. later time used w w' \<and>
          (m' = m \<and> (failed = None \<longrightarrow> disk w' = disk w) \<or>
           failed = None \<and> rotated time used (w, m) (w', m') \<and> disk w' = Secrets m'))) w1"
    proof (rule wp_mono [OF generate_secret_wp [OF assms]], goal_cases)
      case (1 r w2)
      then have w2: "later time used w w2" "now \<le> time w2"
        using w1 by (auto simp: later_def)
      show ?case
      proof (cases r)
        case (Inr new)
        with 1 have new': "fresh_secret (used w1) (used w2) new"
          by blast
        show ?thesis
          unfolding Inr sum.case
        proof (rule wp_mono [OF store_secrets_wp [OF assms]], clarify, goal_cases)
          case (1 failed m' w3)
          have "later time used w w3"
            using w2 1 by (auto simp: later_def)
          moreover have "fresh_secret (used w) (used w3) new"
            using fresh_secret_later(2) [OF fresh_secret_later(1) [OF new' 1(1)] w1(1)] .
          ultimately show ?case
            using w1 w2 1 by (auto simp: rotated_def later_def split: if_splits)
        qed
      qed (auto simp: wp_simps w2)
    qed
    with 1 show ?case
      by simp
  next
    case 2
    then show ?case
      using w1 by simp
  qed
qed

lemma revoke_wp:
  assumes "sane_env env time used disk"
  shows "wp (revoke_all env m) (\<lambda>(failed, m') w'. later time used w w' \<and>
    (if failed = None then revoked used (w, m) (w', m') \<and> disk w' = Secrets m' else m' = m)) w"
  unfolding revoke_all_def wp_bind
proof (rule sane_clock [OF assms], goal_cases)
  case (1 now w1)
  note w1 = this
  show ?case
  proof (rule wp_mono [OF generate_secret_wp [OF assms]], goal_cases)
    case (1 r w2)
    have w2: "later time used w w2"
      using w1 1 by (auto simp: later_def)
    show ?case
    proof (cases r)
      case (Inr new)
      with 1 have new': "fresh_secret (used w1) (used w2) new"
        by blast
      show ?thesis
        unfolding Inr sum.case
      proof (rule wp_mono [OF store_secrets_wp [OF assms]], clarify, goal_cases)
        case (1 failed m' w3)
        have "later time used w w3"
          using w2 1 by (auto simp: later_def)
        moreover have "fresh_secret (used w) (used w3) new"
          using fresh_secret_later(2) [OF fresh_secret_later(1) [OF new' 1(1)] w1(1)] .
        ultimately show ?case
          using 1 by (auto simp: revoked_def split: if_splits)
      qed
    qed (auto simp: wp_simps w2)
  qed
qed

lemma rotated_ok:
  assumes "rotated time used (w, m) (w', m')" and "later time used w w'" and "manager_ok (used w) m"
  shows "manager_ok (used w') m'" and "Ttl m' = Ttl m"
proof -
  obtain now new where r: "fresh_secret (used w) (used w') new"
    "m' = m\<lparr>Secrets := rotated_set now (Ttl m) new (Secrets m)\<rparr>"
    using assms(1) by (auto simp: rotated_def)
  have "SecretID new \<noteq> SecretID s" if "s \<in> set (all_secrets (Secrets m))" for s
    using that r(1) assms(3) by (auto simp: manager_ok_def ids_used_def list_all_iff fresh_secret_def)
  then show "manager_ok (used w') m'"
    using r assms(3) ids_used_later [OF _ assms(2)]
    by (auto simp: manager_ok_def validate_secret_set_None all_secrets_def rotated_set_def ids_used_def
        list_all_iff fresh_secret_def good_secret_def distinct_map inj_on_def)
  show "Ttl m' = Ttl m"
    by (simp add: r)
qed

lemma revoked_ok:
  assumes "revoked used (w, m) (w', m')"
  shows "manager_ok (used w') m'" and "Ttl m' = Ttl m"
  using assms by (auto simp: revoked_def manager_ok_def validate_secret_set_None all_secrets_def
      fresh_secret_def ids_used_def)

text \<open>
  The life of a manager at the grain of its lock: rotations (with every login), revocations, and
  whatever else happens meanwhile.
\<close>

datatype session_event = Rotates | Revokes | Passes

inductive session_step ::
  "'w session_env \<Rightarrow> ('w \<Rightarrow> int) \<Rightarrow> ('w \<Rightarrow> string list) \<Rightarrow> ('w \<Rightarrow> secret_set) \<Rightarrow>
   'w \<times> session_manager \<Rightarrow> session_event \<Rightarrow> 'w \<times> session_manager \<Rightarrow> bool"
  for env time used disk where
  rotates: "run_state (rotate_if_due env m) w = ((failed, m'), w') \<Longrightarrow>
     session_step env time used disk (w, m) Rotates (w', m')"
| revokes: "run_state (revoke_all env m) w = ((failed, m'), w') \<Longrightarrow>
     session_step env time used disk (w, m) Revokes (w', m')"
| passes: "later time used w w' \<Longrightarrow> disk w' = disk w \<Longrightarrow>
     session_step env time used disk (w, m) Passes (w', m)"

inductive session_run ::
  "'w session_env \<Rightarrow> ('w \<Rightarrow> int) \<Rightarrow> ('w \<Rightarrow> string list) \<Rightarrow> ('w \<Rightarrow> secret_set) \<Rightarrow>
   'w \<times> session_manager \<Rightarrow> session_event list \<Rightarrow> 'w \<times> session_manager \<Rightarrow> bool"
  for env time used disk where
  stay: "session_run env time used disk s [] s"
| step: "session_step env time used disk s e t \<Longrightarrow> session_run env time used disk t es u \<Longrightarrow>
     session_run env time used disk s (e # es) u"

inductive_cases session_stepE: "session_step env time used disk s e t"

lemma session_step_effect:
  assumes "sane_env env time used disk" and "session_step env time used disk (w, m) e (w', m')"
  shows "later time used w w' \<and> (m' = m \<or> e = Rotates \<and> rotated time used (w, m) (w', m') \<or>
    e = Revokes \<and> revoked used (w, m) (w', m'))"
  using assms(2)
proof (cases rule: session_step.cases)
  case (rotates failed)
  then show ?thesis
    using wp_run [OF rotate_wp [OF assms(1)], of m w "(failed, m')" w'] by auto
next
  case (revokes failed)
  then show ?thesis
    using wp_run [OF revoke_wp [OF assms(1)], of m w "(failed, m')" w'] by (auto split: if_splits)
qed auto

lemma session_step_ok:
  assumes "sane_env env time used disk" and "session_step env time used disk (w, m) e (w', m')"
    and "manager_ok (used w) m"
  shows "later time used w w' \<and> manager_ok (used w') m' \<and> Ttl m' = Ttl m"
proof -
  note effect = session_step_effect [OF assms(1,2)]
  then have later: "later time used w w'"
    by blast
  show ?thesis
    using effect rotated_ok [OF _ later assms(3)] revoked_ok [of used w m w' m'] manager_ok_later [OF assms(3) later]
    by blast
qed

lemma session_run_invariant:
  assumes "session_run env time used disk s es t" and "I s"
    and "\<And>s e t. session_step env time used disk s e t \<Longrightarrow> e \<in> set es \<Longrightarrow> I s \<Longrightarrow> I t"
  shows "I t"
  using assms by (induction rule: session_run.induct) auto

lemma session_run_ok:
  assumes "sane_env env time used disk" and "session_run env time used disk (w, m) es (w', m')"
    and "manager_ok (used w) m"
  shows "later time used w w' \<and> manager_ok (used w') m' \<and> Ttl m' = Ttl m"
proof -
  let ?I = "\<lambda>(w2, m2). later time used w w2 \<and> manager_ok (used w2) m2 \<and> Ttl m2 = Ttl m"
  have "?I (w', m')"
    using assms(2)
  proof (rule session_run_invariant)
    fix s e t
    assume "session_step env time used disk s e t" and "?I s"
    moreover obtain w2 m2 w3 m3 where "s = (w2, m2)" "t = (w3, m3)"
      by (metis surj_pair)
    ultimately show "?I t"
      using session_step_ok [OF assms(1), of w2 m2 e w3 m3] later_trans [of time used w w2 w3] by simp
  qed (simp add: assms(3))
  then show ?thesis
    by simp
qed

lemma new_manager_wp:
  assumes "sane_env env time used disk"
    and "SecretKey (Current (disk w)) \<noteq> [] \<Longrightarrow> ids_used (used w) (disk w)"
  shows "wp (new_session_manager env ttl rotate_interval) (\<lambda>r w'. \<forall>m. r = Inr m \<longrightarrow>
    later time used w w' \<and> manager_ok (used w') m \<and> Ttl m = ttl \<and> disk w' = Secrets m) w"
  unfolding new_session_manager_def wp_bind
proof (rule sane_load [OF assms(1)], goal_cases)
  case (1 r w1)
  note w1 = this
  have stored: "checked_manager m = Inr m' \<Longrightarrow> m' = m \<and> validate_secret_set (Secrets m) = None" for m m'
    by (auto simp: checked_manager_def split: option.splits)
  show ?case
  proof (cases r)
    case (Inr ss)
    with w1 have ss: "disk w1 = ss" "SecretKey (Current ss) \<noteq> [] \<Longrightarrow> ids_used (used w1) ss"
      using assms(2) ids_used_later by fastforce+
    let ?m = "\<lparr>Secrets = ss, Ttl = ttl, RotateInterval = rotate_interval\<rparr>"
    show ?thesis
    proof (cases "SecretKey (Current ss) = []")
      case False
      then show ?thesis
        using Inr w1 ss by (auto simp: wp_simps manager_ok_def dest!: stored)
    next
      case True
      show ?thesis
        unfolding Inr sum.case Let_def
      proof (simp add: True wp_bind, rule sane_clock [OF assms(1)], goal_cases)
        case (1 now w2)
        note w2 = this
        show ?case
          unfolding wp_bind
        proof (rule wp_mono [OF generate_secret_wp [OF assms(1)]], goal_cases)
          case (1 r w3)
          have w3: "later time used w w3"
            using w1(1) w2(1) 1 by (auto simp: later_def)
          show ?case
          proof (cases r)
            case (Inr new)
            with 1 have new': "fresh_secret (used w2) (used w3) new"
              by blast
            show ?thesis
              unfolding Inr sum.case wp_bind
            proof (rule wp_mono [OF store_secrets_wp [OF assms(1)]], clarify, goal_cases)
              case (1 failed m' w4)
              have "later time used w w4"
                using w3 1 by (auto simp: later_def)
              moreover have "fresh_secret (used w2) (used w4) new"
                using fresh_secret_later(1) [OF new' 1(1)] .
              ultimately show ?case
                using 1(2) by (auto simp: wp_simps manager_ok_def ids_used_def all_secrets_def
                    fresh_secret_def split: option.splits if_splits dest!: stored)
            qed
          qed (simp add: wp_simps)
        qed
      qed
    qed
  qed (simp add: wp_simps)
qed

text \<open>
  C34. The secrets stay well formed and stored. A manager that started is at every moment of its life
  one whose secrets have distinct identifiers, keys of at least 32 bytes and a creation time; a
  rotation or revocation that reports an error has not changed the secrets in memory, and one that
  reports success leaves the very secrets in memory that the store holds.
\<close>

theorem secrets_stay_valid:
  assumes sane: "sane_env env time used disk"
    and "SecretKey (Current (disk w0)) \<noteq> [] \<Longrightarrow> ids_used (used w0) (disk w0)"
    and "run_state (new_session_manager env ttl rotate_interval) w0 = (Inr m0, w1)"
    and "session_run env time used disk (w1, m0) es (w, m)"
  shows "validate_secret_set (Secrets m) = None \<and>
    wp (rotate_if_due env m) (\<lambda>(failed, m') w'. if failed = None
      then disk w = Secrets m \<longrightarrow> disk w' = Secrets m' else m' = m) w \<and>
    wp (revoke_all env m) (\<lambda>(failed, m') w'. if failed = None
      then disk w' = Secrets m' else m' = m) w"
proof (intro conjI)
  have "manager_ok (used w1) m0"
    using wp_run [OF new_manager_wp [OF sane assms(2)] assms(3)] by simp
  then show "validate_secret_set (Secrets m) = None"
    using session_run_ok [OF sane assms(4)] by (simp add: manager_ok_def)
  show "wp (rotate_if_due env m) (\<lambda>(failed, m') w'. if failed = None
      then disk w = Secrets m \<longrightarrow> disk w' = Secrets m' else m' = m) w"
    by (rule wp_mono [OF rotate_wp [OF sane]]) auto
  show "wp (revoke_all env m) (\<lambda>(failed, m') w'. if failed = None
      then disk w' = Secrets m' else m' = m) w"
    by (rule wp_mono [OF revoke_wp [OF sane]]) (auto split: if_splits)
qed

section \<open>Sessions live until they expire\<close>

definition same_signer :: "session_secret \<Rightarrow> session_secret \<Rightarrow> bool" where
  "same_signer s p \<longleftrightarrow> SecretID p = SecretID s \<and> SecretKey p = SecretKey s"

text \<open>Until \<open>deadline\<close> the manager finds the secret \<open>s\<close>.\<close>

definition keeps :: "('w \<Rightarrow> int) \<Rightarrow> ('w \<Rightarrow> string list) \<Rightarrow> session_secret \<Rightarrow> int \<Rightarrow>
    'w \<times> session_manager \<Rightarrow> bool" where
  "keeps time used s deadline = (\<lambda>(w, m). manager_ok (used w) m \<and> deadline \<le> time w + Ttl m \<and>
     (deadline \<le> time w \<or> same_signer s (Current (Secrets m)) \<or>
      (\<exists>p \<in> set (Previous (Secrets m)). same_signer s p \<and>
         (case RetireAt p of None \<Rightarrow> True | Some r \<Rightarrow> deadline \<le> r))))"

lemma rotated_keeps:
  assumes "keeps time used s deadline (w, m)" and "rotated time used (w, m) (w', m')"
    and "later time used w w'"
  shows "keeps time used s deadline (w', m')"
proof -
  obtain now new where r: "time w \<le> now" "now \<le> time w'"
    "m' = m\<lparr>Secrets := rotated_set now (Ttl m) new (Secrets m)\<rparr>"
    using assms(2) by (auto simp: rotated_def)
  have ok: "manager_ok (used w') m'" "Ttl m' = Ttl m"
    using rotated_ok [OF assms(2,3)] assms(1) by (simp_all add: keeps_def)
  have deadline: "deadline \<le> now + Ttl m" "deadline \<le> time w' + Ttl m"
    using assms(1,3) r by (simp_all add: keeps_def later_def)
  consider "deadline \<le> time w'" | "same_signer s (Current (Secrets m))"
    | p where "p \<in> set (Previous (Secrets m))" "same_signer s p" "now < deadline"
      "case RetireAt p of None \<Rightarrow> True | Some r \<Rightarrow> deadline \<le> r"
    using assms(1,3) r by (force simp: keeps_def later_def)
  then show ?thesis
  proof cases
    case 1
    then show ?thesis
      using ok deadline by (simp add: keeps_def)
  next
    case 2
    then show ?thesis
      using ok deadline r(3) by (simp add: keeps_def rotated_set_def same_signer_def)
  next
    case 3
    then have "p \<in> set (Previous (Secrets m'))"
      using r(3) by (auto simp: rotated_set_def split: option.splits)
    with 3 show ?thesis
      using ok deadline by (auto simp: keeps_def)
  qed
qed

lemma later_keeps:
  "keeps time used s deadline (w, m) \<Longrightarrow> later time used w w' \<Longrightarrow> keeps time used s deadline (w', m)"
  using manager_ok_later [of used w m time w'] by (fastforce simp: keeps_def later_def)

lemma run_keeps:
  assumes "sane_env env time used disk" and "session_run env time used disk s es t" and "Revokes \<notin> set es"
    and "keeps time used secret deadline s"
  shows "keeps time used secret deadline t"
  using assms(2,4)
proof (rule session_run_invariant)
  fix s e t
  assume e: "session_step env time used disk s e t" "e \<in> set es" "keeps time used secret deadline s"
  obtain w m w' m' where "s = (w, m)" "t = (w', m')"
    by (metis surj_pair)
  with e assms(3) show "keeps time used secret deadline t"
    using session_step_effect [OF assms(1), of w m e w' m'] later_keeps rotated_keeps by metis
qed

lemma find_secret_unique:
  assumes "validate_secret_set ss = None" and "p \<in> set (Previous ss)" and "SecretID p = i"
    and "case RetireAt p of None \<Rightarrow> True | Some r \<Rightarrow> now < r"
  shows "find_secret ss i now = Some p"
proof -
  let ?P = "\<lambda>s. SecretID s = i \<and> (case RetireAt s of None \<Rightarrow> True | Some r \<Rightarrow> now < r)"
  have distinct: "distinct (map SecretID (Current ss # Previous ss))"
    using assms(1) by (simp add: validate_secret_set_None all_secrets_def)
  have "find ?P (Previous ss) = Some p"
  proof (cases "find ?P (Previous ss)")
    case (Some q)
    then have "q \<in> set (Previous ss)" "SecretID q = i"
      by (auto simp: find_Some_iff)
    then show ?thesis
      using Some assms(2,3) distinct by (auto simp: distinct_map dest: inj_onD)
  qed (use assms in \<open>auto simp: find_None_iff\<close>)
  moreover have "SecretID (Current ss) \<noteq> i"
    using distinct assms(2,3) by auto
  ultimately show ?thesis
    by (simp add: find_secret_def)
qed

lemma keeps_finds:
  assumes "keeps time used s deadline (w, m)" and "time w \<le> now" and "now < deadline"
  obtains p where "find_secret (Secrets m) (SecretID s) now = Some p" and "same_signer s p"
proof -
  from assms consider "same_signer s (Current (Secrets m))"
    | p where "p \<in> set (Previous (Secrets m))" "same_signer s p"
      "case RetireAt p of None \<Rightarrow> True | Some r \<Rightarrow> now < r"
    by (fastforce simp: keeps_def split: option.splits)
  then show thesis
  proof cases
    case 1
    then show thesis
      by (intro that [of "Current (Secrets m)"]) (auto simp: find_secret_def same_signer_def)
  next
    case 2
    then show thesis
      using assms(1) find_secret_unique that
      by (metis (no_types, lifting) keeps_def case_prod_conv manager_ok_def same_signer_def)
  qed
qed

text \<open>What issuing a session yields.\<close>

definition issued_by ::
  "'w session_env \<Rightarrow> credential \<Rightarrow> int \<Rightarrow> int \<Rightarrow> session_manager \<Rightarrow> string \<Rightarrow> session_claims \<Rightarrow> bool" where
  "issued_by env user t0 t1 m token claims \<longleftrightarrow>
     (\<exists>now sid csrf payload. t0 \<le> now \<and> now \<le> t1 \<and> sid \<noteq> [] \<and> csrf \<noteq> [] \<and>
        claims = new_claims m user sid csrf now \<and> EncodeClaims env claims = Inr payload \<and>
        token = signed_token (Hmac env) (Current (Secrets m)) payload)"

lemma issued_by_earlier:
  "issued_by env user t0 t1 m token claims \<Longrightarrow> t \<le> t0 \<Longrightarrow> issued_by env user t t1 m token claims"
proof -
  assume "issued_by env user t0 t1 m token claims" "t \<le> t0"
  then obtain now sid csrf payload where "t0 \<le> now" "now \<le> t1" "sid \<noteq> []" "csrf \<noteq> []"
    "claims = new_claims m user sid csrf now" "EncodeClaims env claims = Inr payload"
    "token = signed_token (Hmac env) (Current (Secrets m)) payload"
    unfolding issued_by_def by blast
  with \<open>t \<le> t0\<close> show "issued_by env user t t1 m token claims"
    unfolding issued_by_def by (intro exI [of _ now] exI [of _ sid] exI [of _ csrf] exI [of _ payload]) simp
qed

lemma random_token_wp:
  assumes "sane_env env time used disk" and "n > 0"
  shows "wp (random_token env n) (\<lambda>r w'. later time used w w' \<and> disk w' = disk w \<and>
    (\<forall>t. r = Inr t \<longrightarrow> t \<noteq> [])) w"
  unfolding random_token_def wp_bind
proof (rule sane_random [OF assms], goal_cases)
  case (1 r w')
  have "base64_encode b \<noteq> []" if "r = Inr b" for b
    using that 1 assms(2) by (cases b rule: base64_encode.cases) auto
  with 1 show ?case
    by (auto simp: wp_simps split: sum.splits)
qed

lemma issue_claims_wp:
  assumes "sane_env env time used disk"
  shows "wp (issue_claims env m user) (\<lambda>r w'. later time used w w' \<and>
    (\<forall>token claims. r = Inr (token, claims) \<longrightarrow>
       issued_by env user (time w) (time w') m token claims)) w"
  unfolding issue_claims_def wp_attempt
proof (rule wp_mono [OF random_token_wp [OF assms]], simp, goal_cases)
  case (1 r w1)
  note w1 = this
  show ?case
  proof (cases r)
    case (Inr sid)
    note sid = Inr
    show ?thesis
      unfolding Inr sum.case wp_attempt
    proof (rule wp_mono [OF random_token_wp [OF assms]], simp, goal_cases)
      case (1 r w2)
      note w2 = this
      show ?case
      proof (cases r)
        case (Inr csrf)
        note csrf = Inr
        show ?thesis
          unfolding Inr sum.case wp_bind
        proof (rule sane_clock [OF assms], goal_cases)
          case (1 now w3)
          have "later time used w w3" "time w \<le> now" "now \<le> time w3"
            using w1 w2 1 by (auto simp: later_def)
          moreover have "sid \<noteq> []" "csrf \<noteq> []"
            using w1 w2 sid csrf by auto
          ultimately show ?case
            by (auto simp: wp_simps Let_def issued_by_def split: sum.splits)
        qed
      qed (use w1 w2 in \<open>auto simp: wp_simps later_def\<close>)
    qed
  qed (use w1 in \<open>auto simp: wp_simps later_def\<close>)
qed

lemma issue_wp:
  assumes "sane_env env time used disk" and "manager_ok (used w) m"
  shows "wp (issue env m user) (\<lambda>(r, m') w'. later time used w w' \<and> manager_ok (used w') m' \<and>
    Ttl m' = Ttl m \<and> (\<forall>token claims. r = Inr (token, claims) \<longrightarrow>
       issued_by env user (time w) (time w') m' token claims)) w"
  unfolding issue_def wp_bind
proof (rule wp_mono [OF rotate_wp [OF assms(1)]], clarify, goal_cases)
  case (1 failed m1 w1)
  have m1: "manager_ok (used w1) m1" "Ttl m1 = Ttl m"
    using 1 rotated_ok [of time used w m w1 m1] assms(2) manager_ok_later [of used w m time w1] by auto
  show ?case
    unfolding wp_case_prod prod.case wp_case_option
  proof (cases failed, goal_cases)
    case 1
    show ?case
      unfolding 1 option.case wp_bind
    proof (rule wp_mono [OF issue_claims_wp [OF assms(1)]], goal_cases)
      case (1 r w2)
      have w2: "later time used w1 w2" "later time used w w2"
        using 1 \<open>later time used w w1\<close> by (auto simp: later_def)
      have "issued_by env user (time w) (time w2) m1 token claims" if "r = Inr (token, claims)" for token claims
        using 1 that \<open>later time used w w1\<close> issued_by_earlier by (auto simp: later_def)
      then show ?case
        using w2 m1 manager_ok_later [of used w1 m1 time w2] by (simp add: wp_simps)
    qed
  qed (use m1 1 in \<open>simp add: wp_simps\<close>)
qed

lemma secret_id_no_dot:
  "manager_ok used m \<Longrightarrow> s \<in> set (all_secrets (Secrets m)) \<Longrightarrow> CHR ''.'' \<notin> set (SecretID s)"
  by (fastforce simp: manager_ok_def ids_used_def list_all_iff)

lemma signed_claims_payload:
  "SecretKey p = SecretKey s \<Longrightarrow> SecretID p = SecretID s \<Longrightarrow>
   signed_claims env p ''v1'' (SecretID s) (base64_encode payload)
     (sign_session (Hmac env) (SecretKey s) (token_prefix (SecretID s) payload)) = DecodeClaims env payload"
  by (cases "DecodeClaims env payload")
    (auto simp: signed_claims_def join_parts sign_session_def simp del: join.simps)

lemma same_signer_signs: "same_signer s p \<Longrightarrow> signed_token mac p payload = signed_token mac s payload"
  by (simp add: same_signer_def signed_token_def)

text \<open>Claims the manager made pass its own checks until they expire.\<close>

lemma new_claims_check:
  assumes "UserID user \<noteq> []" and "sid \<noteq> []" and "csrf \<noteq> []" and "one_second \<le> Ttl m"
    and "one_second \<le> made" and "made \<le> now" and "now < made + Ttl m"
  shows "check_claims (unix_seconds now) (new_claims m user sid csrf made) =
    (if unix_seconds now < ExpiresAt (new_claims m user sid csrf made)
     then Inr (new_claims m user sid csrf made) else Inl err_expired_session)"
proof -
  have "unix_seconds made > 0"
    using assms(5) by (simp add: unix_seconds_def one_second_def)
  moreover have "unix_seconds made < unix_seconds (made + Ttl m)"
    using zdiv_mono1 [of "made + one_second" "made + Ttl m" one_second] assms(4)
    by (simp add: unix_seconds_def one_second_def)
  moreover have "unix_seconds made \<le> unix_seconds now"
    using assms(6) by (simp add: unix_seconds_def one_second_def zdiv_mono1)
  ultimately show ?thesis
    using assms(1-3) by (simp add: check_claims_def new_claims_def)
qed

text \<open>Verification of a token whose secret the manager keeps.\<close>

lemma verify_until:
  assumes sane: "sane_env env time used disk" and s: "CHR ''.'' \<notin> set (SecretID s)"
    and keeps: "keeps time used s deadline (w, m)" and payload: "DecodeClaims env payload = Some claims"
    and passes: "\<And>t. time w \<le> t \<Longrightarrow> unix_seconds t < ExpiresAt claims \<Longrightarrow>
      check_claims (unix_seconds t) claims = Inr claims"
    and expires: "\<And>t. deadline \<le> t \<Longrightarrow> ExpiresAt claims \<le> unix_seconds t"
  shows "wp (verify env m (signed_token (Hmac env) s payload))
    (\<lambda>r w'. r = Inr claims \<or> ExpiresAt claims \<le> unix_seconds (time w')) w"
  unfolding wp_verify_signed [OF s] verify_parts_wp
proof (rule sane_clock [OF sane], goal_cases)
  case (1 now1 w3)
  note w3 = this
  show ?case
  proof (cases "now1 < deadline")
    case True
    obtain p where p: "find_secret (Secrets m) (SecretID s) now1 = Some p" "same_signer s p"
      using keeps_finds [OF keeps w3(3) True] .
    have "signed_claims env p ''v1'' (SecretID s) (base64_encode payload)
        (sign_session (Hmac env) (SecretKey s) (token_prefix (SecretID s) payload)) = Some claims"
      using p(2) payload by (simp add: signed_claims_payload same_signer_def)
    moreover have "wp (Clock env) (\<lambda>now. (\<lambda>r w'. r = Inr claims \<or> ExpiresAt claims \<le> unix_seconds (time w'))
        (check_claims (unix_seconds now) claims)) w3"
    proof (rule sane_clock [OF sane], goal_cases)
      case (1 now2 w4)
      then have "check_claims (unix_seconds now2) claims = Inr claims" if "unix_seconds now2 < ExpiresAt claims"
        using that w3 by (intro passes) (simp_all add: later_def)
      moreover have "unix_seconds now2 \<le> unix_seconds (time w4)"
        using 1(4) by (simp add: unix_seconds_def one_second_def zdiv_mono1)
      ultimately show ?case
        by fastforce
    qed
    ultimately show ?thesis
      by (simp add: p)
  next
    case False
    then have "ExpiresAt claims \<le> unix_seconds (time w4)" if "time w3 \<le> time w4" for w4
      using w3(4) that by (intro expires) simp
    then show ?thesis
      by (auto simp: wp_simps later_def split: option.splits intro!: sane_clock [OF sane])
  qed
qed

text \<open>
  C31. A session lasts. A token that was issued is accepted with the claims it was issued for until
  these expire, however often the signing secret has been rotated in between and whatever failed
  while rotating, as long as no session was revoked. Refusing it is proof that its time had come.
\<close>

theorem issued_session_lives:
  assumes sane: "sane_env env time used disk" and ok: "manager_ok (used w) m"
    and user: "UserID user \<noteq> []" and ttl: "one_second \<le> Ttl m" and epoch: "one_second \<le> time w"
    and issued: "run_state (issue env m user) w = ((Inr (token, claims), m1), w1)"
    and coded: "\<And>payload. EncodeClaims env claims = Inr payload \<Longrightarrow> DecodeClaims env payload = Some claims"
    and run: "session_run env time used disk (w1, m1) es (w2, m2)" and kept: "Revokes \<notin> set es"
  shows "wp (verify env m2 token) (\<lambda>r w3. r = Inr claims \<or> ExpiresAt claims \<le> unix_seconds (time w3)) w2"
proof -
  obtain now sid csrf payload where now: "time w \<le> now" "now \<le> time w1" and random: "sid \<noteq> []" "csrf \<noteq> []"
    and claims: "claims = new_claims m1 user sid csrf now" and payload: "EncodeClaims env claims = Inr payload"
    and token: "token = signed_token (Hmac env) (Current (Secrets m1)) payload"
    and m1: "manager_ok (used w1) m1" "Ttl m1 = Ttl m"
    using wp_run [OF issue_wp [OF sane ok] issued] by (auto simp: issued_by_def)
  let ?s = "Current (Secrets m1)"
  let ?deadline = "now + Ttl m"
  have "keeps time used ?s ?deadline (w1, m1)"
    using m1 now by (simp add: keeps_def same_signer_def)
  from run_keeps [OF sane run kept this] have keeps: "keeps time used ?s ?deadline (w2, m2)" .
  have w2: "time w1 \<le> time w2"
    using session_run_ok [OF sane run m1(1)] by (simp add: later_def)
  have expires: "ExpiresAt claims \<le> unix_seconds t" if "?deadline \<le> t" for t
    using that m1(2) by (simp add: claims new_claims_def unix_seconds_def one_second_def zdiv_mono1)
  have passes: "check_claims (unix_seconds t) claims = Inr claims"
    if "time w2 \<le> t" "unix_seconds t < ExpiresAt claims" for t
    using that new_claims_check [OF user random, of m1 now t] m1(2) ttl epoch now w2 expires [of t]
    unfolding claims by (cases "?deadline \<le> t") auto
  have "CHR ''.'' \<notin> set (SecretID ?s)"
    using secret_id_no_dot [OF m1(1)] by (simp add: all_secrets_def)
  then show ?thesis
    unfolding token by (rule verify_until [OF sane _ keeps coded [OF payload] passes expires])
qed

text \<open>An identifier that was drawn and belongs to no secret never comes back.\<close>

definition id_gone :: "('w \<Rightarrow> string list) \<Rightarrow> string \<Rightarrow> 'w \<times> session_manager \<Rightarrow> bool" where
  "id_gone used i = (\<lambda>(w, m). list_all (\<lambda>s. SecretID s \<noteq> i) (all_secrets (Secrets m)) \<and>
     i \<in> base64_encode ` set (used w))"

lemma id_gone_step:
  assumes "sane_env env time used disk" and "session_step env time used disk s e t" and "id_gone used i s"
  shows "id_gone used i t"
proof -
  obtain w m w' m' where s: "s = (w, m)" "t = (w', m')"
    by (metis surj_pair)
  note effect = session_step_effect [OF assms(1) assms(2) [unfolded s]]
  have gone: "list_all (\<lambda>s. SecretID s \<noteq> i) (all_secrets (Secrets m))" "i \<in> base64_encode ` set (used w)"
    using assms(3) by (simp_all add: s id_gone_def)
  then have "\<forall>new. fresh_secret (used w) (used w') new \<longrightarrow> SecretID new \<noteq> i"
    by (auto simp: fresh_secret_def)
  then have "list_all (\<lambda>s. SecretID s \<noteq> i) (all_secrets (Secrets m'))"
    using effect gone(1) by (auto simp: rotated_def revoked_def all_secrets_def rotated_set_def list_all_iff)
  then show ?thesis
    using effect gone(2) by (auto simp: s id_gone_def later_def)
qed

text \<open>
  C32. A revocation ends every session. Once \<^verbatim>\<open>revokeAll\<close> has reported success, a token issued
  before it is refused as invalid by the manager for the rest of its life, whatever was rotated or
  revoked before and after.
\<close>

theorem revoked_sessions_end:
  assumes sane: "sane_env env time used disk" and ok: "manager_ok (used w) m"
    and issued: "run_state (issue env m user) w = ((Inr (token, claims), m1), w1)"
    and before: "session_run env time used disk (w1, m1) es (w2, m2)"
    and revoke: "run_state (revoke_all env m2) w2 = ((None, m3), w3)"
    and after: "session_run env time used disk (w3, m3) es' (w4, m4)"
  shows "fst (run_state (verify env m4 token) w4) = Inl err_invalid_session"
proof -
  obtain payload where token: "token = signed_token (Hmac env) (Current (Secrets m1)) payload"
    and m1: "manager_ok (used w1) m1"
    using wp_run [OF issue_wp [OF sane ok] issued] by (auto simp: issued_by_def)
  let ?i = "SecretID (Current (Secrets m1))"
  have "?i \<in> base64_encode ` set (used w1)"
    using m1 by (simp add: manager_ok_def ids_used_def all_secrets_def)
  then have i2: "?i \<in> base64_encode ` set (used w2)"
    using session_run_ok [OF sane before m1] by (auto simp: later_def)
  have "revoked used (w2, m2) (w3, m3)" "later time used w2 w3"
    using wp_run [OF revoke_wp [OF sane] revoke] by auto
  with i2 have "id_gone used ?i (w3, m3)"
    by (auto simp: id_gone_def revoked_def all_secrets_def fresh_secret_def later_def)
  with after have "id_gone used ?i (w4, m4)"
    by (rule session_run_invariant) (rule id_gone_step [OF sane])
  then have "find_secret (Secrets m4) ?i now = None" for now
    by (auto simp: id_gone_def find_secret_def all_secrets_def find_None_iff list_all_iff)
  moreover have "CHR ''.'' \<notin> set ?i"
    using secret_id_no_dot [OF m1] by (simp add: all_secrets_def)
  ultimately have "wp (verify env m4 token) (\<lambda>r w. r = Inl err_invalid_session) w4"
    unfolding token by (simp add: wp_simps verify_parts_wp) (simp add: wp_def split: prod.split)
  then show ?thesis
    by (simp add: wp_def split: prod.splits)
qed

section \<open>A concrete environment\<close>

text \<open>The world is the time, the random strings drawn so far and the stored secrets.\<close>

type_synonym demo_world = "int \<times> string list \<times> secret_set"

definition demo_claims :: session_claims where
  "demo_claims = \<lparr>Subject = ''administrator'', ClaimName = [],
     SessionID = base64_encode (replicate 18 (CHR 0x01)), CSRF = base64_encode (replicate 24 (CHR 0x02)),
     IssuedAt = 2, ExpiresAt = 12\<rparr>"

definition demo_env :: "demo_world session_env" where
  "demo_env = \<lparr>
     RandomBytes = (\<lambda>n. State (\<lambda>(t, drawn, d). let b = replicate n (char_of (length drawn)) in
        if b \<in> set drawn then (Inl (Err ''exhausted''), (t, drawn, d)) else (Inr b, (t, b # drawn, d)))),
     LoadSecrets = State (\<lambda>(t, drawn, d). (Inr d, (t, drawn, d))),
     SaveSecrets = (\<lambda>ss. State (\<lambda>(t, drawn, d). (None, (t, drawn, ss)))),
     Clock = State (\<lambda>(t, drawn, d). (t, (t, drawn, d))),
     Hmac = (\<lambda>k m. k),
     EncodeClaims = (\<lambda>c. Inr ''claims''),
     DecodeClaims = (\<lambda>p. Some demo_claims)\<rparr>"

definition demo_time :: "demo_world \<Rightarrow> int" where "demo_time w = fst w"

definition demo_used :: "demo_world \<Rightarrow> string list" where "demo_used w = fst (snd w)"

definition demo_disk :: "demo_world \<Rightarrow> secret_set" where "demo_disk w = snd (snd w)"

lemma demo_sane: "sane_env demo_env demo_time demo_used demo_disk"
  by (auto simp: sane_env_def demo_env_def wp_simps later_def demo_time_def demo_used_def demo_disk_def Let_def)

definition demo_secret :: session_secret where
  "demo_secret = \<lparr>SecretID = base64_encode ''a'', SecretKey = replicate 32 (CHR ''k''), CreatedAt = Some 0,
     RetireAt = None\<rparr>"

definition demo_manager :: session_manager where
  "demo_manager = \<lparr>Secrets = \<lparr>Current = demo_secret, Previous = []\<rparr>, Ttl = 10 * one_second,
     RotateInterval = 0\<rparr>"

definition demo_world :: demo_world where
  "demo_world = (2 * one_second, [''a''], Secrets demo_manager)"

definition demo_user :: credential where
  "demo_user = \<lparr>UserID = ''administrator'', DisplayName = [], PasswordRecord = []\<rparr>"

definition demo_token :: string where
  "demo_token = signed_token (\<lambda>k m. k) demo_secret ''claims''"

definition demo_issued :: demo_world where
  "demo_issued = (2 * one_second, [replicate 24 (CHR 0x02), replicate 18 (CHR 0x01), ''a''],
     Secrets demo_manager)"

lemma demo_ok: "manager_ok (demo_used demo_world) demo_manager"
  by (simp add: manager_ok_def ids_used_def all_secrets_def demo_used_def demo_world_def demo_manager_def
      demo_secret_def validate_secret_set_None good_secret_def min_signing_key_bytes_def)

lemma demo_issue:
  "run_state (issue demo_env demo_manager demo_user) demo_world =
     ((Inr (demo_token, demo_claims), demo_manager), demo_issued)"
  by code_simp


lemma demo_later: "later demo_time demo_used demo_issued (5 * one_second, demo_used demo_issued, demo_disk demo_issued)"
  by (simp add: later_def demo_time_def demo_used_def demo_disk_def demo_issued_def one_second_def)

lemma issued_session_lives_witness:
  "wp (verify demo_env demo_manager demo_token)
     (\<lambda>r w3. r = Inr demo_claims \<or> ExpiresAt demo_claims \<le> unix_seconds (demo_time w3))
     (5 * one_second, demo_used demo_issued, demo_disk demo_issued)"
  by (rule issued_session_lives [OF demo_sane demo_ok _ _ _ demo_issue _
        session_run.step [OF session_step.passes [OF demo_later] session_run.stay]])
    (simp_all add: demo_user_def demo_manager_def demo_world_def demo_time_def one_second_def demo_disk_def
      demo_env_def)

lemma revoked_sessions_end_witness:
  "fst (run_state (verify demo_env (snd (fst (run_state (revoke_all demo_env demo_manager) demo_issued)))
      demo_token) (snd (run_state (revoke_all demo_env demo_manager) demo_issued))) =
    Inl err_invalid_session"
proof -
  have "fst (fst (run_state (revoke_all demo_env demo_manager) demo_issued)) = None"
    by code_simp
  then show ?thesis
    by (intro revoked_sessions_end [OF demo_sane demo_ok demo_issue session_run.stay _ session_run.stay])
      (simp add: prod_eq_iff)
qed

definition demo_fresh :: demo_world where
  "demo_fresh = (2 * one_second, [], \<lparr>Current = \<lparr>SecretID = [], SecretKey = [], CreatedAt = None,
     RetireAt = None\<rparr>, Previous = []\<rparr>)"

lemma secrets_stay_valid_witness:
  "case run_state (new_session_manager demo_env 10 5) demo_fresh of
     (Inl e, w) \<Rightarrow> False
   | (Inr m, w) \<Rightarrow> validate_secret_set (Secrets m) = None"
proof -
  have "\<not> isl (fst (run_state (new_session_manager demo_env 10 5) demo_fresh))"
    by code_simp
  then obtain m w where "run_state (new_session_manager demo_env 10 5) demo_fresh = (Inr m, w)"
    by (metis prod.collapse sum.collapse(2))
  with secrets_stay_valid [OF demo_sane _ this session_run.stay] show ?thesis
    by (simp add: demo_disk_def demo_fresh_def)
qed

end
