(* ===== verification/State_Store.thy ===== *)
theory State_Store
  imports File_System
begin

text \<open>
  The private state directory, \<^verbatim>\<open>internal/state/store.go\<close>: names are confined to the root, files are
  read only when they are regular and below real directories, written through a temporary file that
  is renamed, and guarded by advisory locks. Every operation is a program over the requests it makes
  to the file system. Values that \<^verbatim>\<open>%v\<close> prints in an error are left out.
\<close>

section \<open>Names\<close>

definition new_store :: "(string \<Rightarrow> string fallible) \<Rightarrow> string \<Rightarrow> string fallible" where
  "new_store absolute root =
     (if root = [] then Inl (Err ''state: empty root'')
      else case absolute root of
        Inl e \<Rightarrow> Inl (Wrap ''state: resolve root'' e)
      | Inr p \<Rightarrow> Inr (clean p))"

definition err_escapes :: "string \<Rightarrow> gerror" where
  "err_escapes name = Err (''state: path escapes root: '' @ quote name)"

definition store_path :: "string \<Rightarrow> string \<Rightarrow> string fallible" where
  "store_path root name =
     (if name = [] \<or> is_abs name then Inl (Err (''state: invalid relative name '' @ quote name))
      else let c = clean name in
        if c = dot \<or> escapes c then Inl (err_escapes name)
        else let p = join_paths [root, c] in
          case rel root p of
            None \<Rightarrow> Inl (err_escapes name)
          | Some r \<Rightarrow> if escapes r then Inl (err_escapes name) else Inr p)"

section \<open>Directories\<close>

fun below :: "string \<Rightarrow> string list \<Rightarrow> string list" where
  "below current [] = []"
| "below current (c # cs) = (let p = join_paths [current, c] in p # below p cs)"

definition directory_chain :: "string \<Rightarrow> string \<Rightarrow> string list" where
  "directory_chain root r = root # (if r = dot then [] else below root (split_on slash r))"

text \<open>Once a component is absent, no later one is inspected.\<close>

fun check_components :: "'w fs \<Rightarrow> string list \<Rightarrow> ('w, gerror option) state" where
  "check_components fs [] = State_Monad.return None"
| "check_components fs (p # ps) = do {
     info \<leftarrow> fs_info fs p;
     case info of
       Inl e \<Rightarrow> State_Monad.return (if error_is e err_not_exist then None
         else Some (Wrap (''state: inspect directory '' @ p) e))
     | Inr (kind, _) \<Rightarrow>
         if kind \<noteq> Directory
         then State_Monad.return (Some (Err (''state: refusing non-directory path component '' @ p)))
         else check_components fs ps }"

definition check_directory :: "'w fs \<Rightarrow> string \<Rightarrow> string \<Rightarrow> ('w, gerror option) state" where
  "check_directory fs root directory =
     (let refused = State_Monad.return (Some (Err (''state: directory escapes root: '' @ directory))) in
      case rel root directory of
        None \<Rightarrow> refused
      | Some r \<Rightarrow> if escapes r then refused else check_components fs (directory_chain root r))"

definition check_parents :: "'w fs \<Rightarrow> string \<Rightarrow> string \<Rightarrow> ('w, gerror option) state" where
  "check_parents fs root target = check_directory fs root (dir target)"

section \<open>Reading\<close>

definition read_regular :: "'w fs \<Rightarrow> string \<Rightarrow> ('w, string fallible) state" where
  "read_regular fs p = attempt (fs_info fs p) (\<lambda>(kind, _).
     if kind \<noteq> Regular
     then State_Monad.return (Inl (Err (''state: refusing non-regular file '' @ p)))
     else do {
       data \<leftarrow> fs_read fs p;
       State_Monad.return (map_sum (Wrap (''state: read '' @ p)) id data) })"

definition store_read :: "'w fs \<Rightarrow> string \<Rightarrow> string \<Rightarrow> ('w, string fallible) state" where
  "store_read fs root name = (case store_path root name of
       Inl e \<Rightarrow> State_Monad.return (Inl e)
     | Inr p \<Rightarrow> do {
         failed \<leftarrow> check_parents fs root p;
         case failed of Some e \<Rightarrow> State_Monad.return (Inl e) | None \<Rightarrow> read_regular fs p })"

section \<open>Writing\<close>

definition sync_directory :: "'w fs \<Rightarrow> string \<Rightarrow> ('w, gerror option) state" where
  "sync_directory fs d = check (wrapped ''state: open directory for sync'' (fs_unit fs (OpenDirectory d)))
     (do {
       synced \<leftarrow> fs_unit fs (SyncOpened d);
       State_Monad.return (case synced of
           None \<Rightarrow> None
         | Some e \<Rightarrow> if error_is e err_invalid \<or> error_is e err_unsupported then None
             else Some (Wrap ''state: fsync directory'' e)) })"

definition inspect_target :: "'w fs \<Rightarrow> string \<Rightarrow> ('w, gerror option) state" where
  "inspect_target fs p = do {
     info \<leftarrow> fs_info fs p;
     State_Monad.return (case info of
         Inl e \<Rightarrow> if error_is e err_not_exist then None else Some (Wrap ''state: inspect target'' e)
       | Inr (kind, _) \<Rightarrow> if kind \<noteq> Regular
           then Some (Err (''state: refusing to replace non-regular file '' @ p)) else None) }"

definition filling :: "string \<Rightarrow> string \<Rightarrow> nat \<Rightarrow> (string \<times> fs_request) list" where
  "filling t data mode =
     [(''state: chmod temporary file'', Chmod t mode),
      (''state: write temporary file'', WriteTemp t data),
      (''state: fsync temporary file'', SyncTemp t),
      (''state: close temporary file'', CloseTemp t)]"

text \<open>The deferred function: it closes what is still open and removes the temporary name.\<close>

definition discard_temp :: "'w fs \<Rightarrow> string \<Rightarrow> bool \<Rightarrow> gerror option \<Rightarrow> ('w, gerror option) state" where
  "discard_temp fs t closed result = do {
     close_failed \<leftarrow> (if closed then State_Monad.return None else fs_unit fs (CloseTemp t));
     remove_failed \<leftarrow> fs_unit fs (RemoveFile t);
     State_Monad.return (case result of
         Some e \<Rightarrow> Some e
       | None \<Rightarrow> (case close_failed of
           Some e \<Rightarrow> Some e
         | None \<Rightarrow> (case remove_failed of
             None \<Rightarrow> None | Some e \<Rightarrow> if error_is e err_not_exist then None else Some e))) }"

definition publish_temp ::
  "'w fs \<Rightarrow> string \<Rightarrow> string \<Rightarrow> string \<Rightarrow> string \<Rightarrow> nat \<Rightarrow> ('w, gerror option) state" where
  "publish_temp fs d t p data mode = do {
     filled \<leftarrow> in_turn fs (filling t data mode);
     case filled of
       Some e \<Rightarrow> discard_temp fs t False (Some e)
     | None \<Rightarrow> do {
         published \<leftarrow> check (wrapped ''state: atomic rename'' (fs_unit fs (RenameFile t p))) (sync_directory fs d);
         discard_temp fs t True published } }"

definition write_file_atomic :: "'w fs \<Rightarrow> string \<Rightarrow> string \<Rightarrow> nat \<Rightarrow> ('w, gerror option) state" where
  "write_file_atomic fs p data mode =
     (if mode mod 512 = 0 \<or> mode \<ge> 512 then State_Monad.return (Some (Err ''state: invalid file mode''))
      else let d = dir p in
        check (wrapped ''state: create directory'' (fs_unit fs (MkdirAll d)))
       (check (inspect_target fs p)
         (do {
            created \<leftarrow> fs_named fs d ''.boxctl-state-*'';
            case created of
              Inl e \<Rightarrow> State_Monad.return (Some (Wrap ''state: create temporary file'' e))
            | Inr t \<Rightarrow> publish_temp fs d t p data mode })))"

definition store_write ::
  "'w fs \<Rightarrow> string \<Rightarrow> string \<Rightarrow> string \<Rightarrow> nat \<Rightarrow> ('w, gerror option) state" where
  "store_write fs root name data mode = (case store_path root name of
       Inl e \<Rightarrow> State_Monad.return (Some e)
     | Inr p \<Rightarrow> check (check_parents fs root p) (write_file_atomic fs p data mode))"

text \<open>\<open>encoded\<close> is what \<^verbatim>\<open>json.MarshalIndent\<close> makes of the value.\<close>

definition write_json ::
  "'w fs \<Rightarrow> string \<Rightarrow> string \<Rightarrow> string fallible \<Rightarrow> nat \<Rightarrow> ('w, gerror option) state" where
  "write_json fs root name encoded mode = (case encoded of
       Inl e \<Rightarrow> State_Monad.return (Some (Wrap ''state: encode JSON'' e))
     | Inr data \<Rightarrow> store_write fs root name (data @ [CHR 0x0A]) mode)"

section \<open>Removing\<close>

definition remove_file :: "'w fs \<Rightarrow> string \<Rightarrow> ('w, gerror option) state" where
  "remove_file fs p = do {
     info \<leftarrow> fs_info fs p;
     case info of
       Inl e \<Rightarrow> State_Monad.return (if error_is e err_not_exist then None
         else Some (Wrap ''state: inspect removal target'' e))
     | Inr (kind, _) \<Rightarrow>
         if kind \<noteq> Regular
         then State_Monad.return (Some (Err (''state: refusing to remove non-regular file '' @ p)))
         else check (wrapped (''state: remove '' @ p) (fs_unit fs (RemoveFile p))) (sync_directory fs (dir p)) }"

definition remove_regular :: "'w fs \<Rightarrow> string \<Rightarrow> string \<Rightarrow> ('w, gerror option) state" where
  "remove_regular fs root name = (case store_path root name of
       Inl e \<Rightarrow> State_Monad.return (Some e)
     | Inr p \<Rightarrow> check (check_parents fs root p) (remove_file fs p))"

section \<open>Locks\<close>

text \<open>
  \<open>n\<close> is how many pauses fit before the deadline of the context; the select may also end with the
  context before.
\<close>

fun poll_lock :: "'w fs \<Rightarrow> string \<Rightarrow> nat \<Rightarrow> ('w, gerror option) state" where
  "poll_lock fs p n = do {
     locked \<leftarrow> fs_unit fs (Flock p);
     case locked of
       None \<Rightarrow> State_Monad.return None
     | Some e \<Rightarrow>
         if \<not> error_is e err_would_block then do {
           fs_unit fs (CloseTemp p);
           State_Monad.return (Some (Wrap ''state: acquire lock'' e)) }
         else (case n of
             0 \<Rightarrow> do { fs_unit fs (CloseTemp p); State_Monad.return (Some deadline_exceeded) }
           | Suc k \<Rightarrow> do {
               ended \<leftarrow> fs_unit fs AwaitRetry;
               case ended of
                 Some e \<Rightarrow> do { fs_unit fs (CloseTemp p); State_Monad.return (Some e) }
               | None \<Rightarrow> poll_lock fs p k }) }"

declare poll_lock.simps [simp del]

definition inspect_lock :: "'w fs \<Rightarrow> string \<Rightarrow> ('w, gerror option) state" where
  "inspect_lock fs p = do {
     info \<leftarrow> fs_info fs p;
     State_Monad.return (case info of
         Inl e \<Rightarrow> if error_is e err_not_exist then None else Some (Wrap ''state: inspect lock'' e)
       | Inr (kind, _) \<Rightarrow> if kind \<noteq> Regular
           then Some (Err (''state: refusing non-regular lock file '' @ p)) else None) }"

definition acquire_lock :: "'w fs \<Rightarrow> string \<Rightarrow> string \<Rightarrow> nat \<Rightarrow> ('w, string fallible) state" where
  "acquire_lock fs root name n = (case store_path root (join_paths [''locks'', name @ ''.lock'']) of
       Inl e \<Rightarrow> State_Monad.return (Inl e)
     | Inr p \<Rightarrow> do {
         failed \<leftarrow> check (check_parents fs root p)
           (check (wrapped ''state: create lock directory'' (fs_unit fs (MkdirAll (dir p))))
           (check (inspect_lock fs p)
           (check (wrapped ''state: open lock'' (fs_unit fs (OpenLock p)))
           (poll_lock fs p n))));
         State_Monad.return (case failed of Some e \<Rightarrow> Inl e | None \<Rightarrow> Inr p) })"

definition release_lock :: "'w fs \<Rightarrow> string \<Rightarrow> ('w, gerror option) state" where
  "release_lock fs p = do {
     unlock_failed \<leftarrow> fs_unit fs (Unflock p);
     close_failed \<leftarrow> fs_unit fs (CloseTemp p);
     State_Monad.return (errors_join [unlock_failed, close_failed]) }"

definition with_file_lock ::
  "'w fs \<Rightarrow> string \<Rightarrow> string \<Rightarrow> nat \<Rightarrow> ('w, gerror option) state \<Rightarrow> ('w, gerror option) state" where
  "with_file_lock fs root name n callback = do {
     lock \<leftarrow> acquire_lock fs root name n;
     case lock of
       Inl e \<Rightarrow> State_Monad.return (Some e)
     | Inr p \<Rightarrow> do {
         failed \<leftarrow> callback;
         released \<leftarrow> release_lock fs p;
         State_Monad.return (errors_join [failed, released]) } }"

end
