(* ===== verification/State_Profiles.thy ===== *)
theory State_Profiles
  imports State_Store
begin

text \<open>
  Profiles of the state directory: the layout (\<^verbatim>\<open>internal/state/layout.go\<close>), the selected profile
  (\<^verbatim>\<open>profile.go\<close>) and the profile store with the transactional activation of a profile
  (\<^verbatim>\<open>profiles.go\<close>). The JSON coding of the selection is a parameter.
\<close>

section \<open>The layout\<close>

record layout =
  LayoutRoot :: string
  BinDir :: string
  StateDir :: string
  ProfilesDir :: string
  EnginesDir :: string
  LocalRulesDir :: string
  RuleProvidersDir :: string
  ProxyProvidersDir :: string
  SubscriptionsDir :: string
  DashboardDir :: string
  MihomoConfig :: string
  SingBoxConfig :: string
  ActiveProfilePath :: string
  Settings :: string
  Password :: string
  SessionSecrets :: string
  ProfileSourcesDir :: string
  DNSBackup :: string

definition default_root :: string where "default_root = ''/opt/boxctl''"

definition layout_at :: "string \<Rightarrow> layout" where
  "layout_at root = (let state_dir = join_paths [root, ''.boxctl''] in
     \<lparr>LayoutRoot = root,
      BinDir = join_paths [root, ''bin''],
      StateDir = state_dir,
      ProfilesDir = join_paths [root, ''configs''],
      EnginesDir = join_paths [root, ''engines''],
      LocalRulesDir = join_paths [root, ''local-rules''],
      RuleProvidersDir = join_paths [root, ''rule-providers''],
      ProxyProvidersDir = join_paths [root, ''proxy-providers''],
      SubscriptionsDir = join_paths [root, ''subscriptions''],
      DashboardDir = join_paths [root, ''ui''],
      MihomoConfig = join_paths [root, ''config.yaml''],
      SingBoxConfig = join_paths [root, ''config.json''],
      ActiveProfilePath = join_paths [state_dir, ''active-profile''],
      Settings = join_paths [state_dir, ''settings''],
      Password = join_paths [state_dir, ''password''],
      SessionSecrets = join_paths [state_dir, ''session-secrets.v1.json''],
      ProfileSourcesDir = join_paths [state_dir, ''profile-sources''],
      DNSBackup = join_paths [state_dir, ''dns-backup.json'']\<rparr>)"

definition new_layout :: "string \<Rightarrow> layout fallible" where
  "new_layout root = (let r = (if root = [] then default_root else root) in
     if \<not> is_abs r then Inl (Err (''state: layout root must be absolute: '' @ quote r))
     else Inr (layout_at (clean r)))"

section \<open>The selected profile\<close>

definition engine_mihomo :: string where "engine_mihomo = ''mihomo''"

definition engine_sing_box :: string where "engine_sing_box = ''sing-box''"

record active_profile =
  ProfileName :: string
  ProfileEngine :: string

definition is_letter :: "char \<Rightarrow> bool" where
  "is_letter c \<longleftrightarrow> (CHR ''A'' \<le> c \<and> c \<le> CHR ''Z'') \<or> (CHR ''a'' \<le> c \<and> c \<le> CHR ''z'')"

text \<open>\<^verbatim>\<open>^[A-Za-z][A-Za-z0-9_-]{0,63}$\<close>\<close>

definition valid_profile_name :: "string \<Rightarrow> bool" where
  "valid_profile_name n \<longleftrightarrow> n \<noteq> [] \<and> length n \<le> 64 \<and> is_letter (hd n) \<and>
     list_all (\<lambda>c. is_letter c \<or> is_digit c \<or> c = CHR ''_'' \<or> c = CHR ''-'') (tl n)"

definition validate_active_profile :: "active_profile \<Rightarrow> gerror option" where
  "validate_active_profile p =
     (if \<not> valid_profile_name (ProfileName p)
      then Some (Err (''state: invalid profile name '' @ quote (ProfileName p)))
      else if ProfileEngine p = engine_mihomo \<or> ProfileEngine p = engine_sing_box then None
      else Some (Err (''state: unsupported profile engine '' @ quote (ProfileEngine p))))"

definition with_engine :: "active_profile \<Rightarrow> active_profile" where
  "with_engine p = (if ProfileEngine p = [] then p\<lparr>ProfileEngine := engine_mihomo\<rparr> else p)"

text \<open>
  Decoding yields the profile and whether anything but the end of the input follows.
\<close>

record profile_json =
  DecodeProfile :: "string \<Rightarrow> (active_profile \<times> bool) fallible"
  EncodeProfile :: "active_profile \<Rightarrow> string fallible"

definition checked_profile :: "active_profile \<Rightarrow> active_profile fallible" where
  "checked_profile p = (case validate_active_profile (with_engine p) of
     Some e \<Rightarrow> Inl e | None \<Rightarrow> Inr (with_engine p))"

definition parse_active_profile :: "'j profile_json_scheme \<Rightarrow> string \<Rightarrow> active_profile fallible" where
  "parse_active_profile js data = (let s = trim_space data in
     if s = [] then Inl (Err ''state: empty active profile'')
     else if hd s = CHR ''{'' then (case DecodeProfile js s of
         Inl e \<Rightarrow> Inl (Wrap ''state: parse active profile JSON'' e)
       | Inr (p, trailing) \<Rightarrow>
           if trailing then Inl (Err ''state: trailing active profile JSON'') else checked_profile p)
     else checked_profile \<lparr>ProfileName = s, ProfileEngine = []\<rparr>)"

definition marshal_active_profile :: "'j profile_json_scheme \<Rightarrow> active_profile \<Rightarrow> string fallible" where
  "marshal_active_profile js p = (case checked_profile p of
       Inl e \<Rightarrow> Inl e
     | Inr q \<Rightarrow> map_sum id (\<lambda>data. data @ [CHR 0x0A]) (EncodeProfile js q))"

definition load_active_profile ::
  "'w fs \<Rightarrow> 'j profile_json_scheme \<Rightarrow> string \<Rightarrow> string \<Rightarrow> ('w, active_profile fallible) state" where
  "load_active_profile fs js root name = do {
     data \<leftarrow> store_read fs root name;
     State_Monad.return (case data of Inl e \<Rightarrow> Inl e | Inr d \<Rightarrow> parse_active_profile js d) }"

definition save_active_profile ::
  "'w fs \<Rightarrow> 'j profile_json_scheme \<Rightarrow> string \<Rightarrow> string \<Rightarrow> active_profile \<Rightarrow> ('w, gerror option) state" where
  "save_active_profile fs js root name p = (case marshal_active_profile js p of
       Inl e \<Rightarrow> State_Monad.return (Some e)
     | Inr data \<Rightarrow> store_write fs root name data 384)"

text \<open>Every engine but sing-box has the extension \<^verbatim>\<open>.yaml\<close>; callers have validated the engine.\<close>

definition profile_config_name :: "active_profile \<Rightarrow> string" where
  "profile_config_name p =
     ProfileName p @ (if lower_ascii (ProfileEngine p) = engine_sing_box then ''.json'' else ''.yaml'')"

section \<open>The profile store\<close>

definition max_profile_size :: nat where "max_profile_size = 16777216"

definition cut_suffix :: "string \<Rightarrow> string \<Rightarrow> string option" where
  "cut_suffix ending s = (if length ending \<le> length s \<and> drop (length s - length ending) s = ending
     then Some (take (length s - length ending) s) else None)"

definition profile_from_file_name :: "string \<Rightarrow> active_profile option" where
  "profile_from_file_name f = (case cut_suffix ''.yaml'' f of
       Some n \<Rightarrow> if valid_profile_name n then Some \<lparr>ProfileName = n, ProfileEngine = engine_mihomo\<rparr> else None
     | None \<Rightarrow> (case cut_suffix ''.json'' f of
           Some n \<Rightarrow> if valid_profile_name n then Some \<lparr>ProfileName = n, ProfileEngine = engine_sing_box\<rparr> else None
         | None \<Rightarrow> None))"

definition profile_relative_path :: "active_profile \<Rightarrow> string fallible" where
  "profile_relative_path p = (case checked_profile p of
       Inl e \<Rightarrow> Inl e
     | Inr q \<Rightarrow> Inr (join_paths [''configs'', profile_config_name q]))"

definition get_profile :: "'w fs \<Rightarrow> layout \<Rightarrow> active_profile \<Rightarrow> ('w, string fallible) state" where
  "get_profile fs lay p = (case profile_relative_path p of
       Inl e \<Rightarrow> State_Monad.return (Inl e)
     | Inr name \<Rightarrow> store_read fs (LayoutRoot lay) name)"

definition err_exist :: gerror where "err_exist = Sentinel ''file already exists''"

definition write_profile_locked ::
  "'w fs \<Rightarrow> layout \<Rightarrow> string \<Rightarrow> string \<Rightarrow> bool \<Rightarrow> ('w, gerror option) state" where
  "write_profile_locked fs lay name content overwrite = do {
     info \<leftarrow> fs_info fs (join_paths [LayoutRoot lay, name]);
     case info of
       Inl e \<Rightarrow>
         if \<not> error_is e err_not_exist then State_Monad.return (Some e)
         else if overwrite then State_Monad.return (Some err_not_exist)
         else store_write fs (LayoutRoot lay) name content 384
     | Inr _ \<Rightarrow>
         if \<not> overwrite then State_Monad.return (Some err_exist)
         else store_write fs (LayoutRoot lay) name content 384 }"

definition write_profile ::
  "'w fs \<Rightarrow> layout \<Rightarrow> nat \<Rightarrow> active_profile \<Rightarrow> string \<Rightarrow> bool \<Rightarrow> ('w, gerror option) state" where
  "write_profile fs lay polls p content overwrite = (case profile_relative_path (with_engine p) of
       Inl e \<Rightarrow> State_Monad.return (Some e)
     | Inr name \<Rightarrow>
         if content = [] \<or> length content > max_profile_size
         then State_Monad.return (Some (Err (''state: invalid profile size '' @ dec (length content))))
         else with_file_lock fs (LayoutRoot lay) ''profiles'' polls
           (write_profile_locked fs lay name content overwrite))"

definition create_profile ::
  "'w fs \<Rightarrow> layout \<Rightarrow> nat \<Rightarrow> active_profile \<Rightarrow> string \<Rightarrow> ('w, gerror option) state" where
  "create_profile fs lay polls p content = write_profile fs lay polls p content False"

definition update_profile ::
  "'w fs \<Rightarrow> layout \<Rightarrow> nat \<Rightarrow> active_profile \<Rightarrow> string \<Rightarrow> ('w, gerror option) state" where
  "update_profile fs lay polls p content = write_profile fs lay polls p content True"

definition current_profile ::
  "'w fs \<Rightarrow> 'j profile_json_scheme \<Rightarrow> layout \<Rightarrow> ('w, active_profile fallible) state" where
  "current_profile fs js lay = (case rel (LayoutRoot lay) (ActiveProfilePath lay) of
       None \<Rightarrow> State_Monad.return (Inl (Err ''relative path''))
     | Some name \<Rightarrow> load_active_profile fs js (LayoutRoot lay) name)"

definition delete_file ::
  "'w fs \<Rightarrow> layout \<Rightarrow> string \<Rightarrow> ('w, gerror option) state" where
  "delete_file fs lay p = check (check_parents fs (LayoutRoot lay) p) (do {
     info \<leftarrow> fs_info fs p;
     case info of
       Inl e \<Rightarrow> State_Monad.return (Some e)
     | Inr (kind, _) \<Rightarrow>
         if kind \<noteq> Regular then State_Monad.return (Some (Err ''state: refusing to delete non-regular profile''))
         else fs_unit fs (RemoveFile p) })"

definition delete_profile ::
  "'w fs \<Rightarrow> 'j profile_json_scheme \<Rightarrow> layout \<Rightarrow> nat \<Rightarrow> active_profile \<Rightarrow> ('w, gerror option) state" where
  "delete_profile fs js lay polls p = (case profile_relative_path (with_engine p) of
       Inl e \<Rightarrow> State_Monad.return (Some e)
     | Inr name \<Rightarrow> with_file_lock fs (LayoutRoot lay) ''profiles'' polls (do {
         active \<leftarrow> current_profile fs js lay;
         case active of
           Inl e \<Rightarrow>
             if \<not> error_is e err_not_exist then State_Monad.return (Some e)
             else delete_file fs lay (join_paths [LayoutRoot lay, name])
         | Inr a \<Rightarrow>
             if a = with_engine p then State_Monad.return (Some (Err ''state: cannot delete active profile''))
             else delete_file fs lay (join_paths [LayoutRoot lay, name]) }))"

section \<open>Activation\<close>

text \<open>The content and the permissions of the file, if there is one.\<close>

definition read_regular_optional :: "'w fs \<Rightarrow> string \<Rightarrow> ('w, (string \<times> nat) option fallible) state" where
  "read_regular_optional fs p = do {
     info \<leftarrow> fs_mode fs p;
     case info of
       Inl e \<Rightarrow> State_Monad.return (if error_is e err_not_exist then Inr None else Inl e)
     | Inr (kind, mode) \<Rightarrow>
         if kind \<noteq> Regular
         then State_Monad.return (Inl (Err (''state: active config mirror is not regular: '' @ p)))
         else do {
           data \<leftarrow> fs_read fs p;
           State_Monad.return (map_sum id (\<lambda>d. Some (d, mode)) data) } }"

definition rollback_mirror :: "'w fs \<Rightarrow> string \<Rightarrow> (string \<times> nat) option \<Rightarrow> ('w, gerror option) state" where
  "rollback_mirror fs p old = (case old of
       Some (content, mode) \<Rightarrow> write_file_atomic fs p content mode
     | None \<Rightarrow> do {
         failed \<leftarrow> fs_unit fs (RemoveFile p);
         State_Monad.return (case failed of
             None \<Rightarrow> None | Some e \<Rightarrow> if error_is e err_not_exist then None else Some e) })"

definition mirror_path :: "layout \<Rightarrow> active_profile \<Rightarrow> string" where
  "mirror_path lay p = (if ProfileEngine p = engine_sing_box then SingBoxConfig lay else MihomoConfig lay)"

definition save_selection ::
  "'w fs \<Rightarrow> 'j profile_json_scheme \<Rightarrow> layout \<Rightarrow> active_profile \<Rightarrow> ('w, gerror option) state" where
  "save_selection fs js lay p = (case rel (LayoutRoot lay) (ActiveProfilePath lay) of
       None \<Rightarrow> State_Monad.return (Some (Err ''relative path''))
     | Some name \<Rightarrow> save_active_profile fs js (LayoutRoot lay) name p)"

text \<open>The mirror first, the selection last; a failed selection takes the mirror back.\<close>

definition mirror_and_select ::
  "'w fs \<Rightarrow> 'j profile_json_scheme \<Rightarrow> layout \<Rightarrow> active_profile \<Rightarrow> string \<Rightarrow> (string \<times> nat) option \<Rightarrow>
   ('w, gerror option) state" where
  "mirror_and_select fs js lay p content old =
     check (write_file_atomic fs (mirror_path lay p) content 384) (do {
       failed \<leftarrow> save_selection fs js lay p;
       case failed of
         None \<Rightarrow> State_Monad.return None
       | Some e \<Rightarrow> do {
           rollback_failed \<leftarrow> rollback_mirror fs (mirror_path lay p) old;
           State_Monad.return (errors_join [Some e, rollback_failed]) } })"

definition activate_locked ::
  "'w fs \<Rightarrow> 'j profile_json_scheme \<Rightarrow> layout \<Rightarrow> active_profile \<Rightarrow> ('w, gerror option) state" where
  "activate_locked fs js lay p = do {
     content \<leftarrow> get_profile fs lay p;
     case content of
       Inl e \<Rightarrow> State_Monad.return (Some e)
     | Inr d \<Rightarrow> do {
         old \<leftarrow> read_regular_optional fs (mirror_path lay p);
         case old of
           Inl e \<Rightarrow> State_Monad.return (Some e)
         | Inr o' \<Rightarrow> mirror_and_select fs js lay p d o' } }"

definition activate_profile ::
  "'w fs \<Rightarrow> 'j profile_json_scheme \<Rightarrow> layout \<Rightarrow> nat \<Rightarrow> active_profile \<Rightarrow> ('w, gerror option) state" where
  "activate_profile fs js lay polls p = (case checked_profile p of
       Inl e \<Rightarrow> State_Monad.return (Some e)
     | Inr q \<Rightarrow> with_file_lock fs (LayoutRoot lay) ''profiles'' polls (activate_locked fs js lay q))"

end
