(* ===== verification/State_Durable.thy ===== *)
theory State_Durable
  imports State_Profiles State_Store_Proofs
begin

text \<open>
  The contract of a state directory. \<open>content\<close> is what the named files hold, \<open>ok\<close> that they can be
  worked on, and \<open>smooth\<close> that nothing will fail. The laws say what single requests and atomic writes
  do to the named files; the lemmas extend this to the operations of the store and of the profiles.
\<close>

section \<open>The contract\<close>

locale named_files =
  fixes names :: "string set" and content :: "'w \<Rightarrow> string \<Rightarrow> string option"
    and ok :: "'w \<Rightarrow> bool" and smooth :: "'w \<Rightarrow> bool"
begin

text \<open>Nothing but the file \<open>n\<close> has changed, or nothing at all.\<close>

definition changed :: "string \<Rightarrow> 'w \<Rightarrow> 'w \<Rightarrow> bool" where
  "changed n w w' \<longleftrightarrow> ok w' \<and> (smooth w \<longrightarrow> smooth w') \<and>
     (\<forall>k \<in> names. k \<noteq> n \<longrightarrow> content w' k = content w k)"

definition steady :: "'w \<Rightarrow> 'w \<Rightarrow> bool" where
  "steady w w' \<longleftrightarrow> ok w' \<and> (smooth w \<longrightarrow> smooth w') \<and> (\<forall>k \<in> names. content w' k = content w k)"

lemma steady_refl [simp]: "ok w \<Longrightarrow> steady w w"
  by (simp add: steady_def)

lemma steady_trans [trans]: "steady w w' \<Longrightarrow> steady w' w'' \<Longrightarrow> steady w w''"
  by (auto simp: steady_def)

lemma steady_ok: "steady w w' \<Longrightarrow> ok w'"
  by (simp add: steady_def)

lemma steady_smooth: "steady w w' \<Longrightarrow> smooth w \<Longrightarrow> smooth w'"
  by (simp add: steady_def)

lemma steady_content: "steady w w' \<Longrightarrow> n \<in> names \<Longrightarrow> content w' n = content w n"
  by (simp add: steady_def)

lemma changed_steady: "changed n w w' \<Longrightarrow> content w' n = content w n \<Longrightarrow> steady w w'"
  by (auto simp: steady_def changed_def)

lemma changed_after: "steady w w' \<Longrightarrow> changed n w' w'' \<Longrightarrow> changed n w w''"
  by (auto simp: steady_def changed_def)

lemma changed_before: "changed n w w' \<Longrightarrow> steady w' w'' \<Longrightarrow> changed n w w''"
  by (auto simp: steady_def changed_def)

lemma changed_ok: "changed n w w' \<Longrightarrow> ok w'"
  by (simp add: changed_def)

lemma steady_changed: "steady w w' \<Longrightarrow> changed n w w'"
  by (simp add: steady_def changed_def)

text \<open>The file \<open>n\<close> holds \<open>data\<close>, or an error is reported and it holds what it held.\<close>

definition put :: "string \<Rightarrow> string option \<Rightarrow> gerror option \<Rightarrow> 'w \<Rightarrow> 'w \<Rightarrow> bool" where
  "put n data r w w' \<longleftrightarrow> changed n w w' \<and>
     (content w' n = data \<or> r \<noteq> None \<and> content w' n = content w n)"

lemma put_ok: "put n data r w w' \<Longrightarrow> ok w'"
  by (auto simp: put_def changed_def)

lemma put_other: "put n data r w w' \<Longrightarrow> k \<in> names \<Longrightarrow> k \<noteq> n \<Longrightarrow> content w' k = content w k"
  by (auto simp: put_def changed_def)

lemma put_after: "steady w w' \<Longrightarrow> put n data r w' w'' \<Longrightarrow> n \<in> names \<Longrightarrow> put n data r w w''"
  by (auto simp: put_def steady_content intro: changed_after)

lemma put_before: "put n data r w w' \<Longrightarrow> steady w' w'' \<Longrightarrow> n \<in> names \<Longrightarrow> (r \<noteq> None \<Longrightarrow> r' \<noteq> None) \<Longrightarrow>
    put n data r' w w''"
  by (auto simp: put_def steady_content intro: changed_before)

lemma put_failed: "steady w w' \<Longrightarrow> n \<in> names \<Longrightarrow> put n data (Some e) w w'"
  by (auto simp: put_def steady_content intro: steady_changed)

text \<open>Programs that leave the files alone and fail only when something fails; then \<open>I\<close> holds.\<close>

definition calm :: "('w, gerror option) state \<Rightarrow> ('w \<Rightarrow> bool) \<Rightarrow> 'w \<Rightarrow> bool" where
  "calm p I w \<longleftrightarrow> wp p (\<lambda>r w'. steady w w' \<and> (smooth w \<longrightarrow> r = None) \<and> (r = None \<longrightarrow> I w')) w"

lemma calmI:
  "wp p Q w \<Longrightarrow> (\<And>r w'. Q r w' \<Longrightarrow> steady w w' \<and> (smooth w \<longrightarrow> r = None) \<and> (r = None \<longrightarrow> I w')) \<Longrightarrow> calm p I w"
  unfolding calm_def by (rule wp_mono)

lemma calm_wrapped: "calm p I w \<Longrightarrow> calm (wrapped msg p) I w"
  by (simp add: calm_def wp_wrapped)

lemma calm_check:
  assumes "calm p I w" and "\<And>w'. steady w w' \<Longrightarrow> I w' \<Longrightarrow> calm q J w'"
  shows "calm (check p q) J w"
  unfolding calm_def wp_check
proof (rule wp_mono [OF assms(1) [unfolded calm_def]], elim conjE, goal_cases)
  case (1 r w1)
  show ?case
  proof (cases r)
    case None
    then have "calm q J w1"
      using 1 assms(2) by blast
    then show ?thesis
      unfolding None option.case calm_def
      by (rule wp_mono) (use steady_trans [OF 1(1)] steady_smooth [OF 1(1)] in blast)
  qed (use 1 in auto)
qed

end

text \<open>The error that a file does not exist; no other failure looks like it.\<close>

abbreviation absent :: "gerror \<Rightarrow> bool" where
  "absent e \<equiv> error_is e err_not_exist"

locale durable_store = named_files names content ok smooth
  for names :: "string set" and content :: "'w \<Rightarrow> string \<Rightarrow> string option"
    and ok :: "'w \<Rightarrow> bool" and smooth :: "'w \<Rightarrow> bool" +
  fixes fs :: "'w fs" and rs :: "string list" and locks :: "string set"
  assumes root_proper: "list_all proper rs"
    and names_proper: "n \<in> names \<Longrightarrow> proper_name n"
    and parents_law: "ok w \<Longrightarrow> n \<in> names \<Longrightarrow>
        wp (check_parents fs (abs_path rs) (place rs n)) (\<lambda>r w'. steady w w' \<and>
          (smooth w \<longrightarrow> r = None) \<and> (\<forall>e. r = Some e \<longrightarrow> \<not> absent e)) w"
    and lstat_law: "ok w \<Longrightarrow> n \<in> names \<Longrightarrow>
        wp (fs (Lstat (place rs n))) (\<lambda>r w'. steady w w' \<and> (case r of
             Inl e \<Rightarrow> (absent e \<longrightarrow> content w n = None) \<and> (smooth w \<longrightarrow> absent e)
           | Inr a \<Rightarrow> content w n \<noteq> None \<and> (\<exists>size mode. a = Info Regular size mode))) w"
    and read_law: "ok w \<Longrightarrow> n \<in> names \<Longrightarrow> content w n = Some s \<Longrightarrow>
        wp (fs (ReadFile (place rs n))) (\<lambda>r w'. steady w w' \<and> (case r of
             Inl e \<Rightarrow> \<not> absent e \<and> \<not> smooth w
           | Inr a \<Rightarrow> a = Data s)) w"
    and write_law: "ok w \<Longrightarrow> n \<in> names \<Longrightarrow>
        wp (write_file_atomic fs (place rs n) data mode) (\<lambda>r w'. put n (Some data) r w w' \<and>
          (smooth w \<and> 0 < mode \<and> mode < 512 \<longrightarrow> r = None)) w"
    and remove_law: "ok w \<Longrightarrow> n \<in> names \<Longrightarrow>
        wp (remove_file fs (place rs n)) (\<lambda>r w'. put n None r w w' \<and> (smooth w \<longrightarrow> r = None)) w"
    and unlink_law: "ok w \<Longrightarrow> n \<in> names \<Longrightarrow>
        wp (fs_unit fs (RemoveFile (place rs n))) (\<lambda>r w'. put n None r w w' \<and>
          (smooth w \<and> content w n \<noteq> None \<longrightarrow> r = None)) w"
    and lock_law: "ok w \<Longrightarrow> l \<in> locks \<Longrightarrow>
        wp (acquire_lock fs (abs_path rs) l polls) (\<lambda>r w'. steady w w' \<and> (smooth w \<longrightarrow> \<not> isl r)) w"
    and unlock_law: "ok w \<Longrightarrow>
        wp (release_lock fs p) (\<lambda>r w'. steady w w' \<and> (smooth w \<longrightarrow> r = None)) w"
begin

lemma placed: "n \<in> names \<Longrightarrow> store_path (abs_path rs) n = Inr (place rs n)"
  using store_path_proper [OF root_proper] names_proper by blast

lemma joined: "n \<in> names \<Longrightarrow> join_paths [abs_path rs, n] = place rs n"
  using join_paths_below [OF root_proper, of "split_on slash n"] names_proper [of n]
  by (simp add: place_def proper_name_def)

section \<open>Operations of the store\<close>

text \<open>What reading the file \<open>n\<close> tells.\<close>

definition got :: "'w \<Rightarrow> string \<Rightarrow> string fallible \<Rightarrow> bool" where
  "got w n r \<longleftrightarrow> (case r of
     Inr s \<Rightarrow> content w n = Some s
   | Inl e \<Rightarrow> (absent e \<longrightarrow> content w n = None) \<and> (smooth w \<longrightarrow> absent e))"

lemma got_after: "steady w w1 \<Longrightarrow> n \<in> names \<Longrightarrow> got w1 n r \<Longrightarrow> got w n r"
  by (auto simp: got_def steady_content dest: steady_smooth split: sum.splits)

lemma fs_read_wp:
  assumes "ok w" and "n \<in> names" and "content w n = Some s"
    and "\<And>r w'. steady w w' \<Longrightarrow> got w n r \<Longrightarrow> (\<And>e. r = Inl e \<Longrightarrow> \<not> absent e) \<Longrightarrow> Q r w'"
  shows "wp (fs_read fs (place rs n)) Q w"
  unfolding fs_read_def wp_attempt
proof (rule wp_mono [OF read_law [OF assms(1-3)]], goal_cases)
  case (1 r w')
  then show ?case
    using assms(3) assms(4) [of w' "Inl (projl r)"] assms(4) [of w' "Inr s"]
    by (cases r) (auto simp: got_def answered_data_def wp_return)
qed

text \<open>What an inspection of the file \<open>n\<close> tells; \<open>b\<close> is its size or its permissions.\<close>

definition seen :: "'w \<Rightarrow> string \<Rightarrow> (file_kind \<times> nat) fallible \<Rightarrow> bool" where
  "seen w n r \<longleftrightarrow> (case r of
     Inr (kind, b) \<Rightarrow> kind = Regular \<and> content w n \<noteq> None
   | Inl e \<Rightarrow> (absent e \<longrightarrow> content w n = None) \<and> (smooth w \<longrightarrow> absent e))"

lemma info_wp:
  assumes "ok w" and "n \<in> names" and "\<And>r w'. steady w w' \<Longrightarrow> seen w n r \<Longrightarrow> Q r w'"
  shows "wp (fs_info fs (place rs n)) Q w" and "wp (fs_mode fs (place rs n)) Q w"
  unfolding fs_info_def fs_mode_def wp_attempt
  by (rule wp_mono [OF lstat_law [OF assms(1,2)]], auto simp: seen_def wp_return intro!: assms(3)
      split: sum.splits)+

lemma read_regular_wp:
  assumes "ok w" and "n \<in> names" and "\<And>r w'. steady w w' \<Longrightarrow> got w n r \<Longrightarrow> Q r w'"
  shows "wp (read_regular fs (place rs n)) Q w"
  unfolding read_regular_def wp_attempt
proof (rule info_wp(1) [OF assms(1,2)], goal_cases)
  case (1 r w1)
  show ?case
  proof (cases r)
    case (Inl e)
    then show ?thesis
      using 1 assms(3) [OF 1(1), of "Inl e"] by (simp add: got_def seen_def)
  next
    case (Inr a)
    then obtain size s where a: "a = (Regular, size)" "content w1 n = Some s"
      using 1 steady_content [OF 1(1) assms(2)] by (cases a) (auto simp: seen_def)
    have "wp (fs_read fs (place rs n)) (\<lambda>data. Q (map_sum (Wrap (''state: read '' @ place rs n)) id data)) w1"
    proof (rule fs_read_wp [OF steady_ok [OF 1(1)] assms(2) a(2)], goal_cases)
      case (1 data w2)
      then have "steady w w2"
        using \<open>steady w w1\<close> steady_trans by blast
      moreover have "got w n (map_sum (Wrap (''state: read '' @ place rs n)) id data)"
        using 1 \<open>steady w w1\<close> assms(2) by (cases data) (auto simp: got_def steady_content err_not_exist_def dest: steady_smooth)
      ultimately show ?case
        by (rule assms(3))
    qed
    then show ?thesis
      by (simp add: Inr a wp_return wp_bind)
  qed
qed

lemma store_read_wp:
  assumes "ok w" and "n \<in> names" and "\<And>r w'. steady w w' \<Longrightarrow> got w n r \<Longrightarrow> Q r w'"
  shows "wp (store_read fs (abs_path rs) n) Q w"
  unfolding store_read_def placed [OF assms(2)] sum.case wp_bind
proof (rule wp_mono [OF parents_law [OF assms(1,2)]], goal_cases)
  case (1 failed w1)
  show ?case
  proof (cases failed)
    case (Some e)
    then show ?thesis
      using 1 assms(3) [of w1 "Inl e"] by (simp add: wp_return got_def)
  next
    case None
    have "wp (read_regular fs (place rs n)) Q w1"
    proof (rule read_regular_wp [OF _ assms(2)], goal_cases)
      case (2 r w2)
      then show ?case
        using 1 steady_trans [of w w1 w2] got_after [of w w1 n r] assms(2) by (intro assms(3)) simp_all
    qed (use 1 steady_ok in blast)
    then show ?thesis
      by (simp add: None)
  qed
qed

lemma store_write_wp:
  assumes "ok w" and "n \<in> names"
    and "\<And>r w'. put n (Some data) r w w' \<Longrightarrow> (smooth w \<Longrightarrow> 0 < mode \<Longrightarrow> mode < 512 \<Longrightarrow> r = None) \<Longrightarrow> Q r w'"
  shows "wp (store_write fs (abs_path rs) n data mode) Q w"
  unfolding store_write_def placed [OF assms(2)] sum.case wp_check
proof (rule wp_mono [OF parents_law [OF assms(1,2)]], goal_cases)
  case (1 failed w1)
  show ?case
  proof (cases failed)
    case (Some e)
    then show ?thesis
      using 1 assms(2) by (auto intro!: assms(3) put_failed)
  next
    case None
    have "wp (write_file_atomic fs (place rs n) data mode) Q w1"
    proof (rule wp_mono [OF write_law [OF _ assms(2)]], goal_cases)
      case (2 r w2)
      then show ?case
        using 1 assms(2) put_after by (intro assms(3)) (auto dest: steady_smooth)
    qed (use 1 steady_ok in blast)
    then show ?thesis
      by (simp add: None)
  qed
qed

lemma remove_regular_wp:
  assumes "ok w" and "n \<in> names" and "\<And>r w'. put n None r w w' \<Longrightarrow> (smooth w \<Longrightarrow> r = None) \<Longrightarrow> Q r w'"
  shows "wp (remove_regular fs (abs_path rs) n) Q w"
  unfolding remove_regular_def placed [OF assms(2)] sum.case wp_check
proof (rule wp_mono [OF parents_law [OF assms(1,2)]], goal_cases)
  case (1 failed w1)
  show ?case
  proof (cases failed)
    case (Some e)
    then show ?thesis
      using 1 assms(2) by (auto intro!: assms(3) put_failed)
  next
    case None
    have "wp (remove_file fs (place rs n)) Q w1"
    proof (rule wp_mono [OF remove_law [OF _ assms(2)]], goal_cases)
      case (2 r w2)
      then show ?case
        using 1 assms(2) put_after by (intro assms(3)) (auto dest: steady_smooth)
    qed (use 1 steady_ok in blast)
    then show ?thesis
      by (simp add: None)
  qed
qed

text \<open>A locked section: its own effect, unless the lock could not be taken.\<close>

lemma with_file_lock_wp:
  assumes "ok w" and "l \<in> locks"
    and refused: "\<And>e w'. steady w w' \<Longrightarrow> \<not> smooth w \<Longrightarrow> Q (Some e) w'"
    and callback: "\<And>w1. steady w w1 \<Longrightarrow> wp m (\<lambda>r w2. ok w2 \<and> (\<forall>r' w3. steady w2 w3 \<longrightarrow>
      (r' = None \<longrightarrow> r = None) \<longrightarrow> (r \<noteq> None \<longrightarrow> r' \<noteq> None) \<longrightarrow> (smooth w2 \<longrightarrow> r' \<noteq> None \<longrightarrow> r \<noteq> None) \<longrightarrow> Q r' w3)) w1"
  shows "wp (with_file_lock fs (abs_path rs) l polls m) Q w"
  unfolding with_file_lock_def wp_bind
proof (rule wp_mono [OF lock_law [OF assms(1,2)]], goal_cases)
  case (1 lock w1)
  show ?case
  proof (cases lock)
    case (Inl e)
    then show ?thesis
      using 1 refused by (auto simp: wp_return)
  next
    case (Inr p)
    have "wp m (\<lambda>r. wp (release_lock fs p \<bind> (\<lambda>u. State_Monad.return (errors_join [r, u]))) Q) w1"
    proof (rule wp_mono [OF callback], goal_cases)
      case (2 r w2)
      show ?case
        unfolding wp_bind wp_return
        by (rule wp_mono [OF unlock_law]) (use 2 in \<open>auto simp: errors_join_ex\<close>)
    qed (use 1 in simp)
    then show ?thesis
      by (simp add: Inr wp_bind)
  qed
qed

end

end
