(* ===== verification/Profile_Switch.thy ===== *)
theory Profile_Switch
  imports State_Profiles Lifecycle Go_Encoding
begin

text \<open>
  Switching the selected profile: the revision registry (\<^verbatim>\<open>internal/app/profile_revisions.go\<close>), the
  choice of the engine's preparer (\<^verbatim>\<open>engines.go\<close>) and the journalled switch with its recovery
  (\<^verbatim>\<open>profile_switch.go\<close>). The native preparers are programs of the world; the JSON codings and
  SHA-256 are parameters. A decoder yields the value and whether anything follows it.
\<close>

section \<open>Revisions\<close>

record profile_revision =
  AppliedRevision :: string
  PendingRevision :: string
  PendingAt :: "int option"

definition no_revision :: profile_revision where
  "no_revision = \<lparr>AppliedRevision = [], PendingRevision = [], PendingAt = None\<rparr>"

record registry =
  RegistryVersion :: int
  Items :: "string \<rightharpoonup> profile_revision"

record mirror_snapshot =
  Captured :: bool
  Existed :: bool
  MirrorRevision :: string
  MirrorContent :: string

record transition =
  TransitionVersion :: int
  OldProfile :: "active_profile option"
  NewProfile :: active_profile
  OldRevision :: string
  NewRevision :: string
  PreviousMirror :: mirror_snapshot
  RevisionCaptured :: bool
  RevisionExisted :: bool
  PreviousRevision :: profile_revision
  WasRunning :: bool
  Phase :: string
  UpdatedAt :: int

record app_json = profile_json +
  DecodeRegistry :: "string \<Rightarrow> (registry \<times> bool) fallible"
  EncodeRegistry :: "registry \<Rightarrow> string fallible"
  DecodeTransition :: "string \<Rightarrow> (transition \<times> bool) fallible"
  EncodeTransition :: "transition \<Rightarrow> string fallible"
  ContentDigest :: "string \<Rightarrow> string"

text \<open>What a native preparer offers; publishing companion state is optional.\<close>

record 'w native =
  NativePrepare :: "active_profile \<Rightarrow> ('w, prepared_core fallible) state"
  NativePublish :: "(active_profile \<Rightarrow> string \<Rightarrow> ('w, gerror option) state) option"

text \<open>
  \<open>SwRevisions\<close> says that the revision store is wired. \<open>SwPolls\<close> and \<open>SwRecoveryPolls\<close> are how long the
  caller's context and the recovery context of 15 seconds wait for a lock, in pauses of 25 ms.
\<close>

record 'w switcher =
  SwFs :: "'w fs"
  SwJson :: app_json
  SwLayout :: layout
  SwNatives :: "string \<Rightarrow> 'w native option"
  SwCleanup :: "prepared_core \<Rightarrow> ('w, unit) state"
  SwRevisions :: bool
  SwNow :: "('w, int) state"
  SwPolls :: nat
  SwRecoveryPolls :: nat

definition sw_root :: "'w switcher \<Rightarrow> string" where
  "sw_root sw = LayoutRoot (SwLayout sw)"

definition revisions_path :: string where
  "revisions_path = ''.boxctl/profile-revisions.v1.json''"

definition profile_id :: "active_profile \<Rightarrow> string" where
  "profile_id p = ProfileEngine p @ '':'' @ ProfileName p"

definition decode_registry :: "app_json \<Rightarrow> string \<Rightarrow> registry fallible" where
  "decode_registry js data = (case DecodeRegistry js data of
       Inl e \<Rightarrow> Inl e
     | Inr (r, trailing) \<Rightarrow>
         if trailing then Inl (Err ''profile revision registry contains trailing data'')
         else if RegistryVersion r \<noteq> 1 then Inl (Err ''unsupported profile revision registry version'')
         else Inr r)"

definition load_registry :: "'w switcher \<Rightarrow> ('w, registry fallible) state" where
  "load_registry sw = do {
     data \<leftarrow> store_read (SwFs sw) (sw_root sw) revisions_path;
     State_Monad.return (case data of
         Inl e \<Rightarrow> if error_is e err_not_exist then Inr \<lparr>RegistryVersion = 1, Items = Map.empty\<rparr> else Inl e
       | Inr d \<Rightarrow> decode_registry (SwJson sw) d) }"

definition mutate_registry ::
  "'w switcher \<Rightarrow> (registry \<Rightarrow> ('w, registry) state) \<Rightarrow> ('w, gerror option) state" where
  "mutate_registry sw mutate = do {
     loaded \<leftarrow> load_registry sw;
     case loaded of
       Inl e \<Rightarrow> State_Monad.return (Some e)
     | Inr r \<Rightarrow> do {
         r' \<leftarrow> mutate r;
         write_json (SwFs sw) (sw_root sw) revisions_path (EncodeRegistry (SwJson sw) r') 384 } }"

definition update_registry ::
  "'w switcher \<Rightarrow> nat \<Rightarrow> (registry \<Rightarrow> ('w, registry) state) \<Rightarrow> ('w, gerror option) state" where
  "update_registry sw polls mutate =
     with_file_lock (SwFs sw) (sw_root sw) ''profile-revisions'' polls (mutate_registry sw mutate)"

definition snapshot_revision ::
  "'w switcher \<Rightarrow> active_profile \<Rightarrow> ('w, (profile_revision \<times> bool) fallible) state" where
  "snapshot_revision sw p = do {
     loaded \<leftarrow> load_registry sw;
     State_Monad.return (map_sum id (\<lambda>r. case Items r (profile_id p) of
         None \<Rightarrow> (no_revision, False) | Some v \<Rightarrow> (v, True)) loaded) }"

definition put_item :: "active_profile \<Rightarrow> profile_revision option \<Rightarrow> registry \<Rightarrow> registry" where
  "put_item p v r = r\<lparr>Items := (Items r)(profile_id p := v)\<rparr>"

definition item_of :: "registry \<Rightarrow> active_profile \<Rightarrow> profile_revision" where
  "item_of r p = (case Items r (profile_id p) of None \<Rightarrow> no_revision | Some v \<Rightarrow> v)"

definition restore_revision ::
  "'w switcher \<Rightarrow> nat \<Rightarrow> active_profile \<Rightarrow> profile_revision \<Rightarrow> bool \<Rightarrow> ('w, gerror option) state" where
  "restore_revision sw polls p v existed =
     update_registry sw polls (\<lambda>r. State_Monad.return (put_item p (if existed then Some v else None) r))"

definition remove_revision :: "'w switcher \<Rightarrow> nat \<Rightarrow> active_profile \<Rightarrow> ('w, gerror option) state" where
  "remove_revision sw polls p = update_registry sw polls (\<lambda>r. State_Monad.return (put_item p None r))"

definition applied :: "string \<Rightarrow> profile_revision \<Rightarrow> profile_revision" where
  "applied revision v = (let w = v\<lparr>AppliedRevision := revision\<rparr> in
     if PendingRevision w = revision then w\<lparr>PendingRevision := [], PendingAt := None\<rparr> else w)"

definition mark_applied_revision ::
  "'w switcher \<Rightarrow> nat \<Rightarrow> active_profile \<Rightarrow> string \<Rightarrow> ('w, gerror option) state" where
  "mark_applied_revision sw polls p revision =
     (if revision = [] then State_Monad.return (Some (Err ''applied profile revision is empty''))
      else update_registry sw polls (\<lambda>r.
        State_Monad.return (put_item p (Some (applied revision (item_of r p))) r)))"

definition mark_applied :: "'w switcher \<Rightarrow> nat \<Rightarrow> active_profile \<Rightarrow> ('w, gerror option) state" where
  "mark_applied sw polls p = do {
     content \<leftarrow> get_profile (SwFs sw) (SwLayout sw) p;
     case content of
       Inl e \<Rightarrow> State_Monad.return (Some e)
     | Inr c \<Rightarrow> mark_applied_revision sw polls p (ContentDigest (SwJson sw) c) }"

text \<open>The time is asked for a new pending revision only.\<close>

definition pending ::
  "('w, int) state \<Rightarrow> string \<Rightarrow> string \<Rightarrow> profile_revision \<Rightarrow> ('w, profile_revision) state" where
  "pending clock previous revision v =
     (let w = (if AppliedRevision v = [] then v\<lparr>AppliedRevision := previous\<rparr> else v) in
      if AppliedRevision w = revision
      then State_Monad.return (w\<lparr>PendingRevision := [], PendingAt := None\<rparr>)
      else do {
        now \<leftarrow> clock;
        State_Monad.return (w\<lparr>PendingRevision := revision, PendingAt := Some now\<rparr>) })"

definition mark_pending ::
  "'w switcher \<Rightarrow> nat \<Rightarrow> active_profile \<Rightarrow> string \<Rightarrow> ('w, gerror option) state" where
  "mark_pending sw polls p previous = do {
     content \<leftarrow> get_profile (SwFs sw) (SwLayout sw) p;
     case content of
       Inl e \<Rightarrow> State_Monad.return (Some e)
     | Inr c \<Rightarrow> update_registry sw polls (\<lambda>r. do {
         v \<leftarrow> pending (SwNow sw) previous (ContentDigest (SwJson sw) c) (item_of r p);
         State_Monad.return (put_item p (Some v) r) }) }"

definition pending_revision :: "'w switcher \<Rightarrow> active_profile \<Rightarrow> ('w, (profile_revision \<times> bool) fallible) state" where
  "pending_revision sw p = do {
     loaded \<leftarrow> load_registry sw;
     State_Monad.return (map_sum id (\<lambda>r. let v = item_of r p in
       (v, PendingRevision v \<noteq> [] \<and> PendingRevision v \<noteq> AppliedRevision v)) loaded) }"

section \<open>Preparing and publishing through the engine of a profile\<close>

definition err_not_installed :: "string \<Rightarrow> gerror" where
  "err_not_installed engine = Noted err_unsupported ('': engine '' @ quote engine @ '' is not installed'')"

definition prepare_profile :: "'w switcher \<Rightarrow> active_profile \<Rightarrow> ('w, prepared_core fallible) state" where
  "prepare_profile sw p0 = (let p = with_engine p0 in
     case SwNatives sw (ProfileEngine p) of
       None \<Rightarrow> State_Monad.return (Inl (err_not_installed (ProfileEngine p)))
     | Some native \<Rightarrow> attempt (NativePrepare native p) (\<lambda>core.
         if Engine core \<noteq> ProfileEngine p then do {
           SwCleanup sw core;
           State_Monad.return (Inl (Err (''prepared engine '' @ quote (Engine core) @
             '' does not match profile engine '' @ quote (ProfileEngine p)))) }
         else State_Monad.return (Inr core)))"

definition publish_profile_state ::
  "'w switcher \<Rightarrow> active_profile \<Rightarrow> string \<Rightarrow> ('w, gerror option) state" where
  "publish_profile_state sw p0 revision = (let p = with_engine p0 in
     case SwNatives sw (ProfileEngine p) of
       None \<Rightarrow> State_Monad.return (Some (err_not_installed (ProfileEngine p)))
     | Some native \<Rightarrow> (case NativePublish native of
         None \<Rightarrow> State_Monad.return None
       | Some publish \<Rightarrow> publish p revision))"

definition prepared_matches_profile :: "layout \<Rightarrow> prepared_core \<Rightarrow> active_profile \<Rightarrow> bool" where
  "prepared_matches_profile lay core p \<longleftrightarrow> Engine core = ProfileEngine p \<and>
     (let source = clean (SourceConfigPath core) in
      ProfileEngine p = engine_mihomo \<and> source = clean (MihomoConfig lay) \<or>
      source = join_paths [ProfilesDir lay, profile_config_name p])"

section \<open>The journal\<close>

definition journal_path :: string where
  "journal_path = ''.boxctl/profile-transition.v1.json''"

definition max_mirror_size :: nat where "max_mirror_size = 33554432"

definition valid_revision :: "string \<Rightarrow> bool" where
  "valid_revision v \<longleftrightarrow> length v = 64 \<and> hex_decode v \<noteq> None"

definition mirror_snapshot_ok :: "app_json \<Rightarrow> mirror_snapshot \<Rightarrow> bool" where
  "mirror_snapshot_ok js s \<longleftrightarrow> Captured s \<and>
     (if Existed s
      then length (MirrorContent s) \<le> max_mirror_size \<and> valid_revision (MirrorRevision s) \<and>
        ContentDigest js (MirrorContent s) = MirrorRevision s
      else MirrorRevision s = [] \<and> MirrorContent s = [])"

definition validate_mirror_snapshot :: "app_json \<Rightarrow> mirror_snapshot \<Rightarrow> gerror option" where
  "validate_mirror_snapshot js s =
     (if \<not> Captured s then Some (Err ''profile transition mirror snapshot is missing'')
      else if mirror_snapshot_ok js s then None
      else if Existed s then Some (Err ''profile transition mirror snapshot is invalid'')
      else Some (Err ''absent profile transition mirror contains data''))"

definition empty_revision :: "profile_revision \<Rightarrow> bool" where
  "empty_revision v \<longleftrightarrow> AppliedRevision v = [] \<and> PendingRevision v = [] \<and> PendingAt v = None"

definition validate_revision_snapshot :: "transition \<Rightarrow> gerror option" where
  "validate_revision_snapshot t = (let v = PreviousRevision t in
     if \<not> RevisionCaptured t then
       (if RevisionExisted t \<or> \<not> empty_revision v
        then Some (Err ''uncaptured profile revision snapshot contains data'') else None)
     else if \<not> RevisionExisted t then
       (if \<not> empty_revision v then Some (Err ''absent profile revision snapshot contains data'') else None)
     else if AppliedRevision v \<noteq> [] \<and> \<not> valid_revision (AppliedRevision v)
       then Some (Err ''profile revision snapshot has an invalid applied revision'')
     else if PendingRevision v \<noteq> [] \<and> \<not> valid_revision (PendingRevision v)
       then Some (Err ''profile revision snapshot has an invalid pending revision'')
     else None)"

definition transition_ok :: "app_json \<Rightarrow> transition \<Rightarrow> bool" where
  "transition_ok js t \<longleftrightarrow> TransitionVersion t = 1 \<and> ProfileName (NewProfile t) \<noteq> [] \<and>
     valid_revision (NewRevision t) \<and> (OldRevision t = [] \<or> valid_revision (OldRevision t)) \<and>
     (Phase t = ''prepared'' \<or> Phase t = ''committed'') \<and>
     validate_mirror_snapshot js (PreviousMirror t) = None \<and> validate_revision_snapshot t = None"

definition decode_transition :: "app_json \<Rightarrow> string \<Rightarrow> transition fallible" where
  "decode_transition js data = (case DecodeTransition js data of
       Inl e \<Rightarrow> Inl e
     | Inr (t, trailing) \<Rightarrow>
         if trailing then Inl (Err ''profile transition journal contains trailing data'')
         else if transition_ok js t then Inr t
         else Inl (Err ''profile transition journal is invalid''))"

definition save_transition :: "'w switcher \<Rightarrow> transition \<Rightarrow> ('w, gerror option) state" where
  "save_transition sw t =
     write_json (SwFs sw) (sw_root sw) journal_path (EncodeTransition (SwJson sw) t) 384"

definition load_transition :: "'w switcher \<Rightarrow> ('w, transition fallible) state" where
  "load_transition sw = do {
     data \<leftarrow> store_read (SwFs sw) (sw_root sw) journal_path;
     State_Monad.return (case data of Inl e \<Rightarrow> Inl e | Inr d \<Rightarrow> decode_transition (SwJson sw) d) }"

definition remove_journal :: "'w switcher \<Rightarrow> ('w, gerror option) state" where
  "remove_journal sw = remove_regular (SwFs sw) (sw_root sw) journal_path"

section \<open>The target's configuration mirror\<close>

definition relative_state_path :: "'w switcher \<Rightarrow> string \<Rightarrow> string fallible" where
  "relative_state_path sw p = (case rel (sw_root sw) p of
       None \<Rightarrow> Inl (Err ''profile transition path escapes the state root'')
     | Some r \<Rightarrow> if r = dot \<or> escapes r then Inl (Err ''profile transition path escapes the state root'')
         else Inr r)"

definition mirror_name :: "'w switcher \<Rightarrow> active_profile \<Rightarrow> string fallible" where
  "mirror_name sw p =
     (if ProfileEngine p = engine_sing_box then relative_state_path sw (SingBoxConfig (SwLayout sw))
      else if ProfileEngine p \<noteq> [] \<and> ProfileEngine p \<noteq> engine_mihomo
      then Inl (Err (''unsupported profile engine '' @ quote (ProfileEngine p)))
      else relative_state_path sw (MihomoConfig (SwLayout sw)))"

definition no_mirror :: mirror_snapshot where
  "no_mirror = \<lparr>Captured = True, Existed = False, MirrorRevision = [], MirrorContent = []\<rparr>"

definition capture_target_mirror :: "'w switcher \<Rightarrow> active_profile \<Rightarrow> ('w, mirror_snapshot fallible) state" where
  "capture_target_mirror sw p = (case mirror_name sw p of
       Inl e \<Rightarrow> State_Monad.return (Inl e)
     | Inr name \<Rightarrow> do {
         content \<leftarrow> store_read (SwFs sw) (sw_root sw) name;
         State_Monad.return (case content of
             Inl e \<Rightarrow> if error_is e err_not_exist then Inr no_mirror else Inl e
           | Inr s \<Rightarrow>
               if length s > max_mirror_size
               then Inl (Err ''active config mirror exceeds transition snapshot limit'')
               else Inr \<lparr>Captured = True, Existed = True,
                 MirrorRevision = ContentDigest (SwJson sw) s, MirrorContent = s\<rparr>) })"

definition restore_target_mirror ::
  "'w switcher \<Rightarrow> active_profile \<Rightarrow> mirror_snapshot \<Rightarrow> ('w, gerror option) state" where
  "restore_target_mirror sw p s = (case validate_mirror_snapshot (SwJson sw) s of
       Some e \<Rightarrow> State_Monad.return (Some e)
     | None \<Rightarrow> (case mirror_name sw p of
         Inl e \<Rightarrow> State_Monad.return (Some e)
       | Inr name \<Rightarrow>
           if \<not> Existed s then remove_regular (SwFs sw) (sw_root sw) name
           else store_write (SwFs sw) (sw_root sw) name (MirrorContent s) 384))"

definition restore_target_revision :: "'w switcher \<Rightarrow> transition \<Rightarrow> ('w, gerror option) state" where
  "restore_target_revision sw t =
     (if \<not> RevisionCaptured t then State_Monad.return None
      else if \<not> SwRevisions sw then State_Monad.return (Some
        (Err ''profile revision transaction is unavailable during switch recovery''))
      else restore_revision sw (SwRecoveryPolls sw) (NewProfile t) (PreviousRevision t) (RevisionExisted t))"

definition activate :: "'w switcher \<Rightarrow> nat \<Rightarrow> active_profile \<Rightarrow> ('w, gerror option) state" where
  "activate sw polls p = activate_profile (SwFs sw) (SwJson sw) (SwLayout sw) polls p"

definition remove_selection :: "'w switcher \<Rightarrow> ('w, gerror option) state" where
  "remove_selection sw = (case relative_state_path sw (ActiveProfilePath (SwLayout sw)) of
       Inl e \<Rightarrow> State_Monad.return (Some e)
     | Inr name \<Rightarrow> remove_regular (SwFs sw) (sw_root sw) name)"

text \<open>Without a previous selection the mirror comes before the selection, otherwise after it.\<close>

definition restore_transition :: "'w switcher \<Rightarrow> transition \<Rightarrow> ('w, gerror option) state" where
  "restore_transition sw t = do {
     revision_err \<leftarrow> restore_target_revision sw t;
     case OldProfile t of
       None \<Rightarrow> do {
         mirror_err \<leftarrow> restore_target_mirror sw (NewProfile t) (PreviousMirror t);
         selection_err \<leftarrow> remove_selection sw;
         State_Monad.return (errors_join [mirror_err, selection_err, revision_err]) }
     | Some old \<Rightarrow> do {
         selection_err \<leftarrow> activate sw (SwRecoveryPolls sw) old;
         mirror_err \<leftarrow> restore_target_mirror sw (NewProfile t) (PreviousMirror t);
         State_Monad.return (errors_join [selection_err, mirror_err, revision_err]) } }"

section \<open>Planning a switch\<close>

definition previous_revision ::
  "'w switcher \<Rightarrow> lifecycle_snapshot \<Rightarrow> active_profile option \<Rightarrow> ('w, string fallible) state" where
  "previous_revision sw snap old = (case old of
       None \<Rightarrow> State_Monad.return (Inr [])
     | Some p \<Rightarrow>
         if SnapState snap = LRunning \<and> prepared_matches_profile (SwLayout sw) (Prepared snap) p \<and>
            valid_revision (SourceRevision (Prepared snap))
         then State_Monad.return (Inr (SourceRevision (Prepared snap)))
         else do {
           content \<leftarrow> get_profile (SwFs sw) (SwLayout sw) p;
           State_Monad.return (map_sum (Wrap ''read previous profile revision'')
             (ContentDigest (SwJson sw)) content) })"

definition captured_revision ::
  "'w switcher \<Rightarrow> active_profile \<Rightarrow> ('w, (bool \<times> profile_revision \<times> bool) fallible) state" where
  "captured_revision sw target =
     (if \<not> SwRevisions sw then State_Monad.return (Inr (False, no_revision, False))
      else do {
        answer \<leftarrow> snapshot_revision sw target;
        State_Monad.return (map_sum (Wrap ''capture target revision before profile switch'')
          (Pair True) answer) })"

definition plan_transition ::
  "'w switcher \<Rightarrow> lifecycle_snapshot \<Rightarrow> active_profile option \<Rightarrow> active_profile \<Rightarrow> prepared_core \<Rightarrow>
   ('w, transition fallible) state" where
  "plan_transition sw snap old target core = do {
     mirror \<leftarrow> capture_target_mirror sw target;
     case mirror of
       Inl e \<Rightarrow> State_Monad.return (Inl (Wrap ''capture active config mirror before profile switch'' e))
     | Inr s \<Rightarrow> do {
         now \<leftarrow> SwNow sw;
         attempt (captured_revision sw target) (\<lambda>(captured, v, existed).
         attempt (previous_revision sw snap old) (\<lambda>old_revision.
           State_Monad.return (Inr
             \<lparr>TransitionVersion = 1, OldProfile = old, NewProfile = target,
              OldRevision = old_revision, NewRevision = SourceRevision core, PreviousMirror = s,
              RevisionCaptured = captured, RevisionExisted = existed, PreviousRevision = v,
              WasRunning = (SnapState snap = LRunning), Phase = ''prepared'', UpdatedAt = now\<rparr>))) } }"

section \<open>The commit\<close>

definition err_conflict :: "string \<Rightarrow> gerror" where
  "err_conflict s = Join [Sentinel ''conflict'', Err s]"

definition recheck :: "'w switcher \<Rightarrow> transition \<Rightarrow> ('w, gerror option) state" where
  "recheck sw t = do {
     content \<leftarrow> get_profile (SwFs sw) (SwLayout sw) (NewProfile t);
     State_Monad.return (case content of
         Inl e \<Rightarrow> Some (Wrap ''recheck target profile before activation'' e)
       | Inr c \<Rightarrow> if ContentDigest (SwJson sw) c \<noteq> NewRevision t
           then Some (err_conflict (''profile_changed_during_switch: '' @
             ''The target profile changed after preflight; retry the switch'')) else None) }"

definition or_undo ::
  "'w switcher \<Rightarrow> transition \<Rightarrow> ('w, gerror option) state \<Rightarrow> ('w, gerror option) state \<Rightarrow> ('w, gerror option) state"
where
  "or_undo sw t m k = do {
     failed \<leftarrow> m;
     case failed of
       None \<Rightarrow> k
     | Some e \<Rightarrow> do {
         restored \<leftarrow> restore_transition sw t;
         State_Monad.return (errors_join [Some e, restored]) } }"

definition mark_switched :: "'w switcher \<Rightarrow> transition \<Rightarrow> ('w, gerror option) state" where
  "mark_switched sw t = (if SwRevisions sw
     then mark_applied_revision sw (SwPolls sw) (NewProfile t) (NewRevision t) else State_Monad.return None)"

definition commit_switch :: "'w switcher \<Rightarrow> transition \<Rightarrow> ('w, gerror option) state" where
  "commit_switch sw t = check (recheck sw t)
     (or_undo sw t (activate sw (SwPolls sw) (NewProfile t))
     (or_undo sw t (mark_switched sw t)
     (do {
        now \<leftarrow> SwNow sw;
        or_undo sw t (save_transition sw (t\<lparr>Phase := ''committed'', UpdatedAt := now\<rparr>))
          (State_Monad.return None) })))"

section \<open>The switch\<close>

definition publish_and_finish :: "'w switcher \<Rightarrow> string \<Rightarrow> transition \<Rightarrow> ('w, gerror option) state" where
  "publish_and_finish sw msg t =
     check (wrapped msg (publish_profile_state sw (NewProfile t) (NewRevision t))) (remove_journal sw)"

definition finalize_committed_state :: "'w switcher \<Rightarrow> active_profile \<Rightarrow> ('w, gerror option) state" where
  "finalize_committed_state sw target = do {
     loaded \<leftarrow> load_transition sw;
     case loaded of
       Inl e \<Rightarrow> State_Monad.return (if error_is e err_not_exist then None else Some e)
     | Inr t \<Rightarrow>
         if Phase t \<noteq> ''committed'' \<or> NewProfile t \<noteq> target then State_Monad.return None
         else publish_and_finish sw ''publish committed profile shared state'' t }"

text \<open>Everything up to the journal; a failure deletes the prepared runtime.\<close>

definition prepare_switch ::
  "'w switcher \<Rightarrow> lifecycle_snapshot \<Rightarrow> active_profile option \<Rightarrow> active_profile \<Rightarrow>
   ('w, (prepared_core \<times> transition) fallible) state" where
  "prepare_switch sw snap old target = do {
     prepared \<leftarrow> prepare_profile sw target;
     case prepared of
       Inl e \<Rightarrow> State_Monad.return (Inl (Wrap ''preflight target profile'' e))
     | Inr core \<Rightarrow> do {
         planned \<leftarrow> (if \<not> valid_revision (SourceRevision core)
           then State_Monad.return (Inl (Err ''preflight target profile did not report a valid source revision''))
           else attempt (plan_transition sw snap old target core) (\<lambda>t. do {
             failed \<leftarrow> save_transition sw t;
             State_Monad.return (case failed of Some e \<Rightarrow> Inl e | None \<Rightarrow> Inr (core, t)) }));
         (case planned of Inl e \<Rightarrow> SwCleanup sw core | Inr _ \<Rightarrow> State_Monad.return ());
         State_Monad.return planned } }"

definition switch_to ::
  "'w lifecycle_deps \<Rightarrow> 'w switcher \<Rightarrow> op_ctx \<Rightarrow> active_profile option \<Rightarrow> active_profile \<Rightarrow> bool \<Rightarrow>
   ('w, gerror option) lc" where
  "switch_to d sw ctx old target confirmed = do {
     snap \<leftarrow> snapshot;
     if SnapState snap = LRunning \<and> \<not> confirmed
     then State_Monad.return (Some (err_conflict (''restart_confirmation_required: '' @
       ''Activating another profile will restart the running core; explicit confirmation is required'')))
     else do {
       planned \<leftarrow> in_world (prepare_switch sw snap old target);
       case planned of
         Inl e \<Rightarrow> State_Monad.return (Some e)
       | Inr (core, t) \<Rightarrow> do {
           (_, failed) \<leftarrow> switch_prepared d ctx core (Some (commit_switch sw t));
           case failed of
             Some e \<Rightarrow> State_Monad.return (Some e)
           | None \<Rightarrow> in_world (publish_and_finish sw
               ''profile selection committed but shared state publication failed'' t) } } }"

definition switch ::
  "'w lifecycle_deps \<Rightarrow> 'w switcher \<Rightarrow> op_ctx \<Rightarrow> active_profile \<Rightarrow> bool \<Rightarrow> ('w, gerror option) lc" where
  "switch d sw ctx target confirmed = do {
     current \<leftarrow> in_world (current_profile (SwFs sw) (SwJson sw) (SwLayout sw));
     case current of
       Inl e \<Rightarrow> if error_is e err_not_exist then switch_to d sw ctx None target confirmed
         else State_Monad.return (Some e)
     | Inr p \<Rightarrow> if p = target then in_world (finalize_committed_state sw target)
         else switch_to d sw ctx (Some p) target confirmed }"

section \<open>Recovery at the next start\<close>

definition recover_selection :: "'w switcher \<Rightarrow> ('w, gerror option) state" where
  "recover_selection sw = do {
     loaded \<leftarrow> load_transition sw;
     case loaded of
       Inl e \<Rightarrow> State_Monad.return (if error_is e err_not_exist then None else Some e)
     | Inr t \<Rightarrow> if Phase t = ''committed'' then activate sw (SwRecoveryPolls sw) (NewProfile t)
         else restore_transition sw t }"

definition recovery_profile ::
  "'w switcher \<Rightarrow> ('w, (active_profile option \<times> string \<times> bool) fallible) state" where
  "recovery_profile sw = do {
     loaded \<leftarrow> load_transition sw;
     State_Monad.return (case loaded of
         Inl e \<Rightarrow> if error_is e err_not_exist then Inr (None, [], False) else Inl e
       | Inr t \<Rightarrow> Inr (if Phase t = ''committed'' then (Some (NewProfile t), NewRevision t, True)
           else (OldProfile t, OldRevision t, True))) }"

definition complete_recovery :: "'w switcher \<Rightarrow> ('w, gerror option) state" where
  "complete_recovery sw = do {
     loaded \<leftarrow> load_transition sw;
     case loaded of
       Inl e \<Rightarrow> State_Monad.return (if error_is e err_not_exist then None else Some e)
     | Inr t \<Rightarrow> if Phase t = ''committed''
         then publish_and_finish sw ''publish recovered profile shared state'' t
         else remove_journal sw }"

definition current_phase :: "'w switcher \<Rightarrow> ('w, string) state" where
  "current_phase sw = do {
     loaded \<leftarrow> load_transition sw;
     State_Monad.return (case loaded of Inl _ \<Rightarrow> [] | Inr t \<Rightarrow> Phase t) }"

end
