(* ===== verification/State_Activation.thy ===== *)
theory State_Activation
  imports State_Durable Profile_Switch
begin

text \<open>
  Activation of a profile in a directory that keeps the contract \<open>durable_store\<close>: what it changes,
  what a success means, and that it succeeds when nothing fails.
\<close>

section \<open>The files of the state directory\<close>

definition selection_file :: string where "selection_file = ''.boxctl/active-profile''"

definition mirror_file :: "active_profile \<Rightarrow> string" where
  "mirror_file p = (if ProfileEngine p = engine_sing_box then ''config.json'' else ''config.yaml'')"

definition profile_file :: "active_profile \<Rightarrow> string" where
  "profile_file p = ''configs/'' @ profile_config_name p"

definition state_files :: "string set" where
  "state_files = {selection_file, journal_path, revisions_path, ''config.yaml'', ''config.json''} \<union>
     {profile_file p |p. validate_active_profile p = None}"

definition state_locks :: "string set" where
  "state_locks = {''profiles'', ''profile-revisions''}"

lemma fixed_files [simp]: "selection_file \<in> state_files" "mirror_file p \<in> state_files"
    "journal_path \<in> state_files" "revisions_path \<in> state_files"
  and fixed_locks [simp]: "''profiles'' \<in> state_locks" "''profile-revisions'' \<in> state_locks"
  by (simp_all add: state_files_def state_locks_def mirror_file_def)

lemma profile_files [simp]: "validate_active_profile p = None \<Longrightarrow> profile_file p \<in> state_files"
  by (auto simp: state_files_def)

lemma profile_file_apart [simp]:
  "profile_file p \<noteq> selection_file" "profile_file p \<noteq> mirror_file q" "profile_file p \<noteq> journal_path"
  "profile_file p \<noteq> revisions_path" "mirror_file p \<noteq> selection_file" "mirror_file p \<noteq> journal_path"
  "mirror_file p \<noteq> revisions_path" "selection_file \<noteq> journal_path" "selection_file \<noteq> revisions_path"
  "journal_path \<noteq> revisions_path"
  by (auto simp: profile_file_def selection_file_def mirror_file_def journal_path_def revisions_path_def)

lemmas file_apart_symmetric [simp] = profile_file_apart [symmetric]

lemma checked_profileD:
  assumes "checked_profile p = Inr q"
  shows "validate_active_profile q = None" and "with_engine q = q" and "checked_profile q = Inr q"
    and "q = with_engine p" and "ProfileName q = ProfileName p"
  using assms by (auto simp: checked_profile_def with_engine_def split: option.splits if_splits)

lemma valid_engine: "validate_active_profile p = None \<Longrightarrow> ProfileEngine p = engine_mihomo \<or> ProfileEngine p = engine_sing_box"
  by (simp add: validate_active_profile_def split: if_splits)

lemma valid_checked: "validate_active_profile p = None \<Longrightarrow> checked_profile p = Inr p"
  using valid_engine [of p] by (auto simp: checked_profile_def with_engine_def engine_mihomo_def engine_sing_box_def)

section \<open>The directory\<close>

locale profile_dir = durable_store state_files content ok smooth fs rs state_locks
  for content :: "'w \<Rightarrow> string \<Rightarrow> string option" and ok :: "'w \<Rightarrow> bool" and smooth :: "'w \<Rightarrow> bool"
    and fs :: "'w fs" and rs :: "string list"
begin

definition same_but :: "string set \<Rightarrow> 'w \<Rightarrow> 'w \<Rightarrow> bool" where
  "same_but X w w' \<longleftrightarrow> ok w' \<and> (smooth w \<longrightarrow> smooth w') \<and> (\<forall>k \<in> state_files - X. content w' k = content w k)"

lemma same_but_trans: "same_but X w w' \<Longrightarrow> same_but Y w' w'' \<Longrightarrow> X \<subseteq> Z \<Longrightarrow> Y \<subseteq> Z \<Longrightarrow> same_but Z w w''"
  unfolding same_but_def by (metis Diff_iff subsetD)

lemma same_but_before: "same_but X w w' \<Longrightarrow> steady w' w'' \<Longrightarrow> same_but X w w''"
  by (auto simp: same_but_def steady_def)

lemma same_but_ok: "same_but X w w' \<Longrightarrow> ok w'"
  by (simp add: same_but_def)

lemma same_but_smooth: "same_but X w w' \<Longrightarrow> smooth w \<Longrightarrow> smooth w'"
  by (simp add: same_but_def)

lemma same_but_content: "same_but X w w' \<Longrightarrow> k \<in> state_files \<Longrightarrow> k \<notin> X \<Longrightarrow> content w' k = content w k"
  by (simp add: same_but_def)

lemma steady_same: "steady w w' \<Longrightarrow> same_but X w w'"
  by (simp add: same_but_def steady_def)

lemma put_same: "put n data r w w' \<Longrightarrow> n \<in> X \<Longrightarrow> same_but X w w'"
  by (auto simp: same_but_def put_def changed_def)

lemma same_but_put: "same_but X w w' \<Longrightarrow> put n data r w' w'' \<Longrightarrow> n \<in> X \<Longrightarrow> same_but X w w''"
  by (erule same_but_trans [OF _ put_same, of X w w' n data r w'' X]) auto

abbreviation lay :: layout where "lay \<equiv> layout_at (abs_path rs)"

lemma layout_facts [simp]:
  "LayoutRoot lay = abs_path rs"
  "rel (abs_path rs) (ActiveProfilePath lay) = Some selection_file"
  "mirror_path lay p = place rs (mirror_file p)"
proof -
  have dirs: "join_paths [abs_path rs, ''.boxctl''] = abs_path (rs @ [''.boxctl''])"
    using join_paths_below [OF root_proper, of "[''.boxctl'']"] by (simp add: proper_def dot_def dotdot_def)
  have "join_paths [abs_path (rs @ [''.boxctl'']), ''active-profile''] = abs_path (rs @ [''.boxctl'', ''active-profile''])"
    using join_paths_below [of "rs @ [''.boxctl'']" "[''active-profile'']"] root_proper
    by (simp add: proper_def dot_def dotdot_def)
  then show "rel (abs_path rs) (ActiveProfilePath lay) = Some selection_file"
    using rel_below [OF root_proper, of "[''.boxctl'', ''active-profile'']"] dirs
    by (simp add: layout_at_def Let_def selection_file_def proper_def dot_def dotdot_def)
  show "mirror_path lay p = place rs (mirror_file p)"
    using joined [OF fixed_files(2), of p] by (auto simp: mirror_path_def mirror_file_def layout_at_def Let_def)
qed (simp add: layout_at_def Let_def)

lemma profile_name_joined:
  assumes "validate_active_profile q = None"
  shows "join_paths [''configs'', profile_config_name q] = profile_file q"
proof -
  have "proper_name (profile_file q)"
    using names_proper assms by simp
  then have "clean (profile_file q) = profile_file q"
    by (rule proper_name_elements)
  moreover have "profile_config_name q \<noteq> []"
    by (simp add: profile_config_name_def)
  ultimately show ?thesis
    by (simp add: join_paths_def profile_file_def)
qed

lemma get_profile_wp:
  assumes "ok w" and "checked_profile p = Inr q" and "\<And>r w'. steady w w' \<Longrightarrow> got w (profile_file q) r \<Longrightarrow> Q r w'"
  shows "wp (get_profile fs lay p) Q w"
  using assms checked_profileD [OF assms(2)] profile_name_joined
  by (auto simp: get_profile_def profile_relative_path_def intro: store_read_wp)

text \<open>The mirror as the activation finds it.\<close>

definition found :: "'w \<Rightarrow> string \<Rightarrow> (string \<times> nat) option fallible \<Rightarrow> bool" where
  "found w n r \<longleftrightarrow> (case r of Inl e \<Rightarrow> \<not> smooth w | Inr x \<Rightarrow> map_option fst x = content w n)"

lemma read_regular_optional_wp:
  assumes "ok w" and "n \<in> state_files" and "\<And>r w'. steady w w' \<Longrightarrow> found w n r \<Longrightarrow> Q r w'"
  shows "wp (read_regular_optional fs (place rs n)) Q w"
  unfolding read_regular_optional_def wp_bind
proof (rule info_wp(2) [OF assms(1,2)], goal_cases)
  case (1 r w1)
  show ?case
  proof (cases r)
    case (Inl e)
    then show ?thesis
      using 1 assms(3) [OF 1(1)] by (auto simp: wp_return seen_def found_def)
  next
    case (Inr a)
    then obtain mode s where a: "a = (Regular, mode)" "content w1 n = Some s"
      using 1 steady_content [OF 1(1) assms(2)] by (cases a) (auto simp: seen_def)
    have "wp (fs_read fs (place rs n)) (\<lambda>data. Q (map_sum id (\<lambda>d. Some (d, mode)) data)) w1"
    proof (rule fs_read_wp [OF steady_ok [OF 1(1)] assms(2) a(2)], goal_cases)
      case (1 data w2)
      then have "steady w w2"
        using \<open>steady w w1\<close> steady_trans by blast
      moreover have "found w n (map_sum id (\<lambda>d. Some (d, mode)) data)"
        using 1 \<open>steady w w1\<close> assms(2) steady_content [of w w1 n] steady_smooth [of w w1]
        by (cases data) (auto simp: got_def found_def)
      ultimately show ?case
        by (rule assms(3))
    qed
    then show ?thesis
      by (simp add: Inr a wp_return wp_bind)
  qed
qed

section \<open>Activation\<close>

text \<open>The selection and the mirror are new, or an error is reported and each is old or new.\<close>

definition activated ::
  "'j profile_json_scheme \<Rightarrow> active_profile \<Rightarrow> gerror option \<Rightarrow> 'w \<Rightarrow> 'w \<Rightarrow> bool" where
  "activated js q r w w' \<longleftrightarrow> same_but {selection_file, mirror_file q} w w' \<and>
     (content w' selection_file = content w selection_file \<or>
      (\<exists>data. marshal_active_profile js q = Inr data \<and> content w' selection_file = Some data)) \<and>
     (content w' (mirror_file q) = content w (mirror_file q) \<or>
      content w (profile_file q) \<noteq> None \<and> content w' (mirror_file q) = content w (profile_file q)) \<and>
     (r = None \<longrightarrow> (\<exists>data c. marshal_active_profile js q = Inr data \<and> content w (profile_file q) = Some c \<and>
        content w' selection_file = Some data \<and> content w' (mirror_file q) = Some c)) \<and>
     (smooth w \<and> content w (profile_file q) \<noteq> None \<and> \<not> isl (marshal_active_profile js q) \<longrightarrow> r = None)"

lemma activated_before:
  assumes "activated js q r w w'" and "steady w' w''" and "r' = None \<longrightarrow> r = None" and "smooth w' \<longrightarrow> r' \<noteq> None \<longrightarrow> r \<noteq> None"
  shows "activated js q r' w w''"
proof -
  have "same_but {selection_file, mirror_file q} w w''"
    using assms(1) same_but_before [OF _ assms(2)] by (simp add: activated_def)
  moreover have "smooth w \<longrightarrow> smooth w'"
    using assms(1) same_but_smooth by (auto simp: activated_def)
  ultimately show ?thesis
    using assms by (auto simp: activated_def steady_content [OF assms(2)])
qed

lemma rollback_mirror_wp:
  assumes "ok w" and "n \<in> state_files"
  shows "wp (rollback_mirror fs (place rs n) old) (\<lambda>r w'. put n (map_option fst old) (Some e) w w') w"
proof (cases old)
  case None
  show ?thesis
    unfolding None rollback_mirror_def option.case wp_bind wp_return
    by (rule wp_mono [OF unlink_law [OF assms]]) (auto simp: put_def)
next
  case (Some a)
  show ?thesis
    unfolding Some rollback_mirror_def option.case
    by (cases a) (auto simp: put_def intro!: wp_mono [OF write_law [OF assms]])
qed

lemma save_selection_wp:
  assumes "ok w" and "marshal_active_profile js p = Inr data"
    and "\<And>r w'. put selection_file (Some data) r w w' \<Longrightarrow> (smooth w \<Longrightarrow> r = None) \<Longrightarrow> Q r w'"
  shows "wp (save_selection fs js lay p) Q w"
  using assms by (auto simp: save_selection_def save_active_profile_def intro: store_write_wp)

lemma activated_failed: "steady w w' \<Longrightarrow> (smooth w \<Longrightarrow> content w (profile_file q) = None) \<Longrightarrow> activated js q (Some e) w w'"
  using steady_content [of w w'] by (auto simp: activated_def intro: steady_same)

lemma activated_after:
  assumes "steady w w1" and "activated js q r w1 w'" and "validate_active_profile q = None"
  shows "activated js q r w w'"
proof -
  have "same_but {selection_file, mirror_file q} w w'"
    using assms(2) same_but_trans [OF steady_same [OF assms(1), of "{}"]] by (auto simp: activated_def)
  then show ?thesis
    using assms steady_content [OF assms(1)] steady_smooth [OF assms(1)] by (auto simp: activated_def)
qed

lemma mirror_and_select_wp:
  assumes w: "ok w" and q: "validate_active_profile q = None" "content w (profile_file q) = Some c"
    and old: "map_option fst old = content w (mirror_file q)"
  shows "wp (mirror_and_select fs js lay q c old) (\<lambda>r w'. activated js q r w w') w"
  unfolding mirror_and_select_def layout_facts wp_check
proof (rule wp_mono [OF write_law [OF w fixed_files(2)]], elim conjE, goal_cases)
  case (1 r w1)
  note put1 = 1(1)
  have ok1: "ok w1"
    using put1 by (rule put_ok)
  have same1: "same_but {selection_file, mirror_file q} w w1" "content w1 selection_file = content w selection_file"
    using put_same [OF put1, of "{selection_file, mirror_file q}"] put1 by (auto simp: put_def changed_def)
  show ?case
  proof (cases r)
    case (Some e)
    then show ?thesis
      using 1 same1 q by (auto simp: activated_def put_def)
  next
    case None
    then have mirror1: "content w1 (mirror_file q) = Some c"
      using put1 by (simp add: put_def)
    show ?thesis
    proof (cases "marshal_active_profile js q")
      case (Inl e)
      have "wp (rollback_mirror fs (place rs (mirror_file q)) old) (\<lambda>r w'. \<forall>e'. activated js q (Some e') w w') w1"
      proof (rule wp_mono [OF rollback_mirror_wp [OF ok1 fixed_files(2), of q old e]], goal_cases)
        case (1 r w2)
        then have "same_but {selection_file, mirror_file q} w w2"
          using same_but_put [OF same1(1)] by blast
        moreover have "content w2 selection_file = content w selection_file"
          using 1 same1(2) by (auto simp: put_def changed_def)
        ultimately show ?case
          using 1 mirror1 q old Inl by (auto simp: put_def activated_def)
      qed
      then show ?thesis
        by (auto simp: None Inl save_selection_def save_active_profile_def wp_bind wp_return errors_join_def
            List.map_filter_def elim: wp_mono)
    next
      case (Inr data)
      show ?thesis
        unfolding None option.case wp_bind
      proof (rule save_selection_wp [OF ok1 Inr], goal_cases)
        case (1 r w2)
        then have same2: "same_but {selection_file, mirror_file q} w w2" and mirror2: "content w2 (mirror_file q) = Some c"
          and sel2: "content w2 selection_file = Some data \<or> r \<noteq> None \<and> content w2 selection_file = content w selection_file"
          and ok2: "ok w2"
          using same_but_put [OF same1(1) 1(1)] 1(1) mirror1 same1(2) by (auto simp: put_def changed_def)
        show ?case
        proof (cases r)
          case None
          then show ?thesis
            using same2 mirror2 sel2 q Inr by (auto simp: activated_def wp_return)
        next
          case (Some e)
          show ?thesis
            unfolding Some option.case wp_bind wp_return
          proof (rule wp_mono [OF rollback_mirror_wp [OF ok2 fixed_files(2), of q old e]], goal_cases)
            case (1 r' w3)
            then have "same_but {selection_file, mirror_file q} w w3"
              using same_but_put [OF same2] by blast
            moreover have "content w3 selection_file = content w2 selection_file"
              using 1 by (auto simp: put_def changed_def)
            moreover have "\<not> smooth w"
              using Some \<open>smooth w1 \<Longrightarrow> r = None\<close> same_but_smooth [OF same1(1)] by auto
            ultimately show ?case
              using 1 mirror2 sel2 q old Inr by (auto simp: put_def activated_def errors_join_def List.map_filter_def)
          qed
        qed
      qed
    qed
  qed
qed

lemma activate_locked_wp:
  assumes w: "ok w" and q: "checked_profile q = Inr q"
  shows "wp (activate_locked fs js lay q) (\<lambda>r w'. activated js q r w w') w"
  unfolding activate_locked_def wp_bind
proof (rule get_profile_wp [OF w q], goal_cases)
  case (1 r w1)
  note valid = checked_profileD(1) [OF q]
  show ?case
  proof (cases r)
    case (Inl e)
    then show ?thesis
      using 1 by (auto simp: wp_return got_def intro!: activated_failed)
  next
    case (Inr c)
    then have c: "content w1 (profile_file q) = Some c"
      using 1 valid by (simp add: got_def steady_content)
    have "wp (read_regular_optional fs (mirror_path lay q) \<bind> (\<lambda>old. case old of
         Inl e \<Rightarrow> State_Monad.return (Some e)
       | Inr o' \<Rightarrow> mirror_and_select fs js lay q c o')) (\<lambda>r w'. activated js q r w1 w') w1"
      unfolding wp_bind layout_facts
    proof (rule read_regular_optional_wp [OF steady_ok [OF 1(1)] fixed_files(2)], goal_cases)
      case (1 old w2)
      show ?case
      proof (cases old)
        case (Inl e)
        then show ?thesis
          using 1 by (auto simp: wp_return found_def intro!: activated_failed)
      next
        case (Inr o')
        have "wp (mirror_and_select fs js lay q c o') (\<lambda>r w'. activated js q r w2 w') w2"
          by (rule mirror_and_select_wp)
            (use 1 Inr c valid steady_content [OF 1(1)] in \<open>auto simp: found_def intro: steady_ok\<close>)
        then show ?thesis
          unfolding Inr sum.case by (rule wp_mono) (rule activated_after [OF 1(1) _ valid])
      qed
    qed
    then show ?thesis
      unfolding Inr sum.case by (rule wp_mono) (rule activated_after [OF 1(1) _ valid])
  qed
qed

lemma activated_ok: "activated js q r w w' \<Longrightarrow> ok w'"
  by (auto simp: activated_def same_but_def)

lemma activate_wp:
  assumes w: "ok w" and q: "checked_profile p = Inr q"
  shows "wp (activate_profile fs js lay polls p) (\<lambda>r w'. activated js q r w w') w"
  unfolding activate_profile_def q sum.case layout_facts
proof (rule with_file_lock_wp [OF w fixed_locks(1)], goal_cases)
  case (1 e w')
  then show ?case
    by (auto intro: activated_failed)
next
  case (2 w1)
  show ?case
  proof (rule wp_mono [OF activate_locked_wp [OF steady_ok [OF 2] checked_profileD(3) [OF q]]], goal_cases)
    case (1 r w2)
    then have "activated js q r w w2"
      using activated_after [OF 2 _ checked_profileD(1) [OF q]] by blast
    then show ?case
      using activated_before activated_ok by blast
  qed
qed

end

end
