(* ===== verification/Switch_Recovery.thy ===== *)
theory Switch_Recovery
  imports State_Activation
begin

text \<open>
  The journalled switch in a directory that keeps the contract: what the journal, the registry and
  the mirror hold after each step, whatever fails, and what the recovery of the next start makes of
  them when nothing fails.
\<close>

section \<open>Transitions\<close>

text \<open>The transition of a commit; what is sound about one.\<close>

definition family :: "transition \<Rightarrow> transition \<Rightarrow> bool" where
  "family t t' \<longleftrightarrow> t' = t \<or> (\<exists>now. t' = t\<lparr>Phase := ''committed'', UpdatedAt := now\<rparr>)"

definition sound :: "app_json \<Rightarrow> transition \<Rightarrow> bool" where
  "sound js t \<longleftrightarrow> transition_ok js t \<and> validate_active_profile (NewProfile t) = None \<and>
     (\<forall>old. OldProfile t = Some old \<longrightarrow> validate_active_profile old = None)"

section \<open>The codings\<close>

text \<open>
  What the program relies on of \<^verbatim>\<open>encoding/json\<close> and SHA-256: a value that was encoded is decoded, with
  nothing behind it; an object is written in braces; a decoded map is finite, and every finite map can
  be encoded; the digest is 64 hexadecimal digits.
\<close>

definition braced :: "string \<Rightarrow> bool" where
  "braced s \<longleftrightarrow> s \<noteq> [] \<and> hd s = CHR ''{'' \<and> last s = CHR ''}''"

definition newline :: string where "newline = [CHR 0x0A]"

definition codings :: "app_json \<Rightarrow> bool" where
  "codings js \<longleftrightarrow>
     (\<forall>p. validate_active_profile p = None \<longrightarrow>
        (\<exists>s. EncodeProfile js p = Inr s \<and> braced s \<and> DecodeProfile js s = Inr (p, False))) \<and>
     (\<forall>t. sound js t \<longrightarrow>
        (\<exists>s. EncodeTransition js t = Inr s \<and> DecodeTransition js (s @ newline) = Inr (t, False))) \<and>
     (\<forall>r. finite (dom (Items r)) \<longrightarrow>
        (\<exists>s. EncodeRegistry js r = Inr s \<and> DecodeRegistry js (s @ newline) = Inr (r, False))) \<and>
     (\<forall>s r trailing. DecodeRegistry js s = Inr (r, trailing) \<longrightarrow> finite (dom (Items r))) \<and>
     (\<forall>s. valid_revision (ContentDigest js s))"

lemma newline_is_space: "list_all (\<lambda>r. last r = CHR 0x0A \<longrightarrow> r = newline) space_runes \<and> newline \<in> set space_runes"
  by code_simp

lemma trim_braced:
  assumes "braced s"
  shows "trim_space (s @ newline) = s"
proof -
  have s: "s \<noteq> []" "plain (hd s)" "plain (last s)"
    using assms by (simp_all add: braced_def plain_def)
  have front: "strip_any space_runes (s @ newline) = s @ newline"
    by (rule strip_any_plain) (use s space_rune_ends in auto)
  obtain r where r: "find (\<lambda>r. r \<noteq> [] \<and> prefix r (newline @ rev s)) (map rev space_runes) = Some r"
  proof (cases "find (\<lambda>r. r \<noteq> [] \<and> prefix r (newline @ rev s)) (map rev space_runes)")
    case None
    then show ?thesis
      using newline_is_space by (auto simp: find_None_iff newline_def)
  qed
  then obtain u where u: "u \<in> set space_runes" "r = rev u" "r \<noteq> []" "prefix r (newline @ rev s)"
    by (auto simp: find_Some_iff) (metis nth_mem)
  have "hd r = CHR 0x0A"
    using u(3,4) by (cases r) (simp_all add: newline_def)
  then have "u = newline"
    using u(1,2,3) newline_is_space by (auto simp: list_all_iff hd_rev)
  then have "r = newline"
    by (simp add: u newline_def)
  then have "strip_any (map rev space_runes) (rev (s @ newline)) = strip_any (map rev space_runes) (rev s)"
    using r by (subst strip_any.simps) (simp add: newline_def)
  also have "\<dots> = rev s"
    by (rule strip_any_plain) (use s space_rune_ends in \<open>auto simp: hd_rev\<close>)
  finally show ?thesis
    by (simp add: trim_space_def front)
qed

lemma marshal_parse:
  assumes "codings js" and "checked_profile p = Inr q"
  shows "\<exists>data. marshal_active_profile js p = Inr data \<and> parse_active_profile js data = Inr q"
proof -
  obtain s where s: "EncodeProfile js q = Inr s" "braced s" "DecodeProfile js s = Inr (q, False)"
    using assms(1) checked_profileD(1) [OF assms(2)] unfolding codings_def by blast
  then show ?thesis
    using assms(2) trim_braced [OF s(2)] checked_profileD(3) [OF assms(2)]
    by (auto simp: marshal_active_profile_def parse_active_profile_def braced_def newline_def)
qed

definition journal_text :: "app_json \<Rightarrow> transition \<Rightarrow> string" where
  "journal_text js t = projr (EncodeTransition js t) @ newline"

lemma encode_transition:
  assumes "codings js" and "sound js t"
  shows "EncodeTransition js t = Inr (projr (EncodeTransition js t))"
    and "decode_transition js (journal_text js t) = Inr t"
proof -
  obtain s where s: "EncodeTransition js t = Inr s" "DecodeTransition js (s @ newline) = Inr (t, False)"
    using assms unfolding codings_def by blast
  then show "EncodeTransition js t = Inr (projr (EncodeTransition js t))"
    by simp
  show "decode_transition js (journal_text js t) = Inr t"
    using s assms(2) by (simp add: decode_transition_def journal_text_def sound_def)
qed

lemma decoded_finite: "codings js \<Longrightarrow> DecodeRegistry js s = Inr (r, trailing) \<Longrightarrow> finite (dom (Items r))"
  unfolding codings_def by blast

lemma encode_registry:
  assumes "codings js" and "RegistryVersion r = 1" and "finite (dom (Items r))"
  shows "\<exists>s. EncodeRegistry js r = Inr s \<and> decode_registry js (s @ newline) = Inr r"
proof -
  obtain s where "EncodeRegistry js r = Inr s" "DecodeRegistry js (s @ newline) = Inr (r, False)"
    using assms(1,3) unfolding codings_def by blast
  then show ?thesis
    using assms(2) by (auto simp: decode_registry_def)
qed

lemma validate_snapshot_phase:
  "validate_revision_snapshot (t\<lparr>Phase := x, UpdatedAt := now\<rparr>) = validate_revision_snapshot t"
  "validate_revision_snapshot (t\<lparr>Phase := x\<rparr>) = validate_revision_snapshot t"
  by (simp_all add: validate_revision_snapshot_def cong: if_cong)

lemma committed_ok:
  "transition_ok js (t\<lparr>Phase := ''committed'', UpdatedAt := now\<rparr>) \<longleftrightarrow> transition_ok js (t\<lparr>Phase := ''prepared''\<rparr>)"
  by (simp add: transition_ok_def validate_snapshot_phase)

lemma prepared_ok: "transition_ok js t \<Longrightarrow> transition_ok js (t\<lparr>Phase := ''prepared''\<rparr>)"
  by (simp add: transition_ok_def validate_snapshot_phase)

lemma family_sound: "sound js t \<Longrightarrow> family t t' \<Longrightarrow> sound js t'"
  using prepared_ok [of js t] by (auto simp: sound_def family_def committed_ok)

lemma family_facts:
  assumes "family t t'"
  shows "NewProfile t' = NewProfile t" and "OldProfile t' = OldProfile t" and "PreviousMirror t' = PreviousMirror t"
    and "RevisionCaptured t' = RevisionCaptured t" and "RevisionExisted t' = RevisionExisted t"
    and "PreviousRevision t' = PreviousRevision t"
  using assms by (auto simp: family_def)

definition mirrored :: "mirror_snapshot \<Rightarrow> string option" where
  "mirrored s = (if Existed s then Some (MirrorContent s) else None)"

section \<open>Steps\<close>

context profile_dir
begin

definition wired :: "'w switcher \<Rightarrow> bool" where
  "wired sw \<longleftrightarrow> SwFs sw = fs \<and> SwLayout sw = lay \<and> codings (SwJson sw) \<and>
     (\<forall>w. ok w \<longrightarrow> wp (SwNow sw) (\<lambda>_ w'. steady w w') w)"

lemma wired_simps:
  assumes "wired sw"
  shows "SwFs sw = fs" and "SwLayout sw = lay" and "sw_root sw = abs_path rs"
  using assms by (simp_all add: wired_def sw_root_def)

lemma wired_codings: "wired sw \<Longrightarrow> codings (SwJson sw)"
  by (simp add: wired_def)

lemma rel_place:
  assumes "n \<in> state_files"
  shows "rel (abs_path rs) (place rs n) = Some n" and "n \<noteq> dot" and "\<not> escapes n"
proof -
  have n: "proper_name n" "split_on slash n \<noteq> []" "list_all proper (split_on slash n)"
    using names_proper [OF assms] by (simp_all add: proper_name_def)
  show "rel (abs_path rs) (place rs n) = Some n"
    using rel_below [OF root_proper n(3,2)] by (simp add: place_def)
  show "n \<noteq> dot"
    using dot_not_proper [OF n(3,2)] by simp
  show "\<not> escapes n"
    using escapes_join [OF n(3), of 0] n(2) by simp
qed

lemma mirror_name_eq:
  assumes "wired sw" and "validate_active_profile p = None"
  shows "mirror_name sw p = Inr (mirror_file p)"
  using assms valid_engine [OF assms(2)] layout_facts(3) [of p] rel_place [OF fixed_files(2), of p]
  by (auto simp: mirror_name_def relative_state_path_def mirror_path_def mirror_file_def engine_mihomo_def
      engine_sing_box_def wired_simps)

lemma remove_selection_eq:
  assumes "wired sw"
  shows "remove_selection sw = remove_regular fs (abs_path rs) selection_file"
  using assms layout_facts(2) rel_place(2,3) [OF fixed_files(1)]
  by (simp add: remove_selection_def relative_state_path_def wired_simps)

text \<open>The registry as the program reads it.\<close>

definition registered :: "app_json \<Rightarrow> 'w \<Rightarrow> registry fallible" where
  "registered js w = (case content w revisions_path of
       None \<Rightarrow> Inr \<lparr>RegistryVersion = 1, Items = Map.empty\<rparr>
     | Some d \<Rightarrow> decode_registry js d)"

definition readable :: "app_json \<Rightarrow> 'w \<Rightarrow> bool" where
  "readable js w \<longleftrightarrow> (\<exists>r. registered js w = Inr r)"

lemma same_registered: "content w' revisions_path = content w revisions_path \<Longrightarrow> registered js w' = registered js w"
  by (simp add: registered_def)

lemma registered_version: "registered js w = Inr r \<Longrightarrow> RegistryVersion r = 1"
  by (auto simp: registered_def decode_registry_def split: option.splits sum.splits if_splits)

lemma registered_finite: "codings js \<Longrightarrow> registered js w = Inr r \<Longrightarrow> finite (dom (Items r))"
  by (auto simp: registered_def decode_registry_def dest: decoded_finite split: option.splits sum.splits if_splits)

lemma load_registry_wp:
  assumes "wired sw" and "ok w"
    and "\<And>r w'. steady w w' \<Longrightarrow> (\<And>x. r = Inr x \<Longrightarrow> registered (SwJson sw) w = Inr x) \<Longrightarrow>
      (smooth w \<Longrightarrow> r = registered (SwJson sw) w) \<Longrightarrow> Q r w'"
  shows "wp (load_registry sw) Q w"
proof -
  have "wp (store_read fs (abs_path rs) revisions_path) (\<lambda>data. Q (case data of
         Inl e \<Rightarrow> if absent e then Inr \<lparr>RegistryVersion = 1, Items = Map.empty\<rparr> else Inl e
       | Inr d \<Rightarrow> decode_registry (SwJson sw) d)) w"
    by (rule store_read_wp [OF assms(2) fixed_files(4)], rule assms(3))
      (auto simp: got_def registered_def split: sum.splits if_splits)
  then show ?thesis
    using assms(1) by (simp add: load_registry_def wp_bind wp_return wired_simps)
qed

text \<open>An update of the registry by \<open>f\<close>, which keeps the version and stays finite.\<close>

definition tame :: "(registry \<Rightarrow> registry) \<Rightarrow> bool" where
  "tame f \<longleftrightarrow> (\<forall>x. RegistryVersion (f x) = RegistryVersion x \<and> (finite (dom (Items x)) \<longrightarrow> finite (dom (Items (f x)))))"

lemma tame_put [simp]: "tame (\<lambda>r. put_item p (v r) r)" "tame (put_item p u)"
  by (simp_all add: tame_def put_item_def)

definition updated ::
  "app_json \<Rightarrow> (registry \<Rightarrow> registry) \<Rightarrow> gerror option \<Rightarrow> 'w \<Rightarrow> 'w \<Rightarrow> bool" where
  "updated js f r w w' \<longleftrightarrow> same_but {revisions_path} w w' \<and>
     (content w' revisions_path = content w revisions_path \<and> r \<noteq> None \<or>
      (\<exists>x. registered js w = Inr x \<and> registered js w' = Inr (f x))) \<and>
     (smooth w \<and> readable js w \<longrightarrow> r = None)"

lemma updated_readable: "updated js f r w w' \<Longrightarrow> readable js w \<Longrightarrow> readable js w'"
  unfolding updated_def readable_def using same_registered by metis

lemma updated_ok: "updated js f r w w' \<Longrightarrow> ok w'"
  by (auto simp: updated_def same_but_def)

lemma updated_before:
  assumes "updated js f r w w'" and "steady w' w''" and "r' = None \<longrightarrow> r = None" and "smooth w' \<longrightarrow> r' \<noteq> None \<longrightarrow> r \<noteq> None"
  shows "updated js f r' w w''"
proof -
  have "content w'' revisions_path = content w' revisions_path"
    using steady_content [OF assms(2)] by simp
  then show ?thesis
    using assms same_registered [of w'' w' js] same_but_before [OF _ assms(2)] same_but_smooth [of _ w w']
    by (auto simp: updated_def)
qed

lemma updated_after:
  assumes "steady w w1" and "updated js f r w1 w'"
  shows "updated js f r w w'"
proof -
  have "content w1 revisions_path = content w revisions_path"
    using steady_content [OF assms(1)] by simp
  then show ?thesis
    using assms same_registered [of w1 w js] same_but_trans [OF steady_same [OF assms(1), of "{}"], of "{revisions_path}" w' "{revisions_path}"]
      steady_smooth [OF assms(1)]
    by (auto simp: updated_def readable_def)
qed

lemma mutate_registry_wp:
  assumes "wired sw" and "ok w" and f: "tame f"
  shows "wp (mutate_registry sw (\<lambda>r. State_Monad.return (f r))) (\<lambda>r w'. updated (SwJson sw) f r w w') w"
  unfolding mutate_registry_def wp_bind wp_return
proof (rule load_registry_wp [OF assms(1,2)], goal_cases)
  case (1 loaded w1)
  show ?case
  proof (cases loaded)
    case (Inl e)
    then show ?thesis
      using 1 steady_content [OF 1(1)] by (auto simp: wp_return updated_def readable_def intro: steady_same)
  next
    case (Inr x)
    then have x: "registered (SwJson sw) w = Inr x"
      using 1 by blast
    then obtain s where s: "EncodeRegistry (SwJson sw) (f x) = Inr s" "decode_registry (SwJson sw) (s @ newline) = Inr (f x)"
      using encode_registry [OF wired_codings [OF assms(1)], of "f x"] registered_version [OF x] f
        registered_finite [OF wired_codings [OF assms(1)] x]
      by (auto simp: tame_def)
    have "wp (store_write fs (abs_path rs) revisions_path (s @ newline) 384) (\<lambda>r w'. updated (SwJson sw) f r w1 w') w1"
    proof (rule store_write_wp [OF steady_ok [OF 1(1)] fixed_files(4)], goal_cases)
      case (1 r w2)
      moreover have "registered (SwJson sw) w1 = Inr x"
        using x same_registered [of w1 w] steady_content [OF \<open>steady w w1\<close>] by simp
      ultimately show ?case
        using s(2) put_same [OF 1(1), of "{revisions_path}"] 
        by (auto simp: updated_def put_def registered_def)
    qed
    then show ?thesis
      using assms(1) unfolding Inr sum.case wp_bind wp_return
      by (auto simp: wired_simps write_json_def s(1) newline_def elim!: wp_mono intro: updated_after [OF 1(1)])
  qed
qed

lemma update_registry_wp:
  assumes "wired sw" and w: "ok w" and f: "tame f"
  shows "wp (update_registry sw polls (\<lambda>r. State_Monad.return (f r))) (\<lambda>r w'. updated (SwJson sw) f r w w') w"
  unfolding update_registry_def wired_simps [OF assms(1)]
proof (rule with_file_lock_wp [OF w fixed_locks(2)], goal_cases)
  case (1 e w')
  then show ?case
    using steady_content [OF 1(1)] by (auto simp: updated_def intro: steady_same)
next
  case (2 w1)
  show ?case
  proof (rule wp_mono [OF mutate_registry_wp [OF assms(1) steady_ok [OF 2] f]], goal_cases)
    case (1 r w2)
    then have "updated (SwJson sw) f r w w2"
      using updated_after [OF 2] by blast
    then show ?case
      using updated_before updated_ok by blast
  qed
qed

lemma restore_mirror_wp:
  assumes "wired sw" and "ok w" and "validate_active_profile p = None" and s: "validate_mirror_snapshot (SwJson sw) s = None"
  shows "wp (restore_target_mirror sw p s) (\<lambda>r w'. put (mirror_file p) (mirrored s) r w w' \<and> (smooth w \<longrightarrow> r = None)) w"
  unfolding restore_target_mirror_def s option.case mirror_name_eq [OF assms(1,3)] sum.case wired_simps [OF assms(1)]
  by (auto simp: mirrored_def intro!: store_write_wp [OF assms(2) fixed_files(2)] remove_regular_wp [OF assms(2) fixed_files(2)])

section \<open>Outcomes\<close>

definition selected :: "app_json \<Rightarrow> 'w \<Rightarrow> active_profile option" where
  "selected js w = (case content w selection_file of
       None \<Rightarrow> None
     | Some d \<Rightarrow> (case parse_active_profile js d of Inr p \<Rightarrow> Some p | Inl _ \<Rightarrow> None))"

text \<open>The target is selected and its mirror is its profile.\<close>

definition stands_new :: "app_json \<Rightarrow> active_profile \<Rightarrow> 'w \<Rightarrow> bool" where
  "stands_new js p w \<longleftrightarrow> selected js w = Some p \<and> content w (profile_file p) \<noteq> None \<and>
     content w (mirror_file p) = content w (profile_file p)"

text \<open>The old selection stands, with the target's mirror and revision as they were captured.\<close>

definition revision_restored :: "app_json \<Rightarrow> transition \<Rightarrow> 'w \<Rightarrow> bool" where
  "revision_restored js t w \<longleftrightarrow> (RevisionCaptured t \<longrightarrow> (\<exists>x. registered js w = Inr x \<and>
     Items x (profile_id (NewProfile t)) = (if RevisionExisted t then Some (PreviousRevision t) else None)))"

definition stands_old :: "app_json \<Rightarrow> transition \<Rightarrow> 'w \<Rightarrow> bool" where
  "stands_old js t w \<longleftrightarrow>
     (case OldProfile t of
        None \<Rightarrow> content w selection_file = None
      | Some old \<Rightarrow> selected js w = Some old \<and> (mirror_file old \<noteq> mirror_file (NewProfile t) \<longrightarrow>
          content w (mirror_file old) = content w (profile_file old))) \<and>
     content w (mirror_file (NewProfile t)) = mirrored (PreviousMirror t) \<and> revision_restored js t w"

definition touched :: "string set" where
  "touched = {selection_file, ''config.yaml'', ''config.json'', revisions_path}"

lemma touched_simps [simp]: "selection_file \<in> touched" "mirror_file p \<in> touched" "revisions_path \<in> touched"
    "journal_path \<notin> touched" "profile_file p \<notin> touched"
  using profile_file_apart(1-4) [of p] profile_file_apart(8,10)
    profile_file_apart(2) [of p "\<lparr>ProfileName = [], ProfileEngine = engine_sing_box\<rparr>"]
    profile_file_apart(2) [of p "\<lparr>ProfileName = [], ProfileEngine = engine_mihomo\<rparr>"]
  by (auto simp: touched_def mirror_file_def journal_path_def engine_mihomo_def engine_sing_box_def)

lemma activated_selected:
  assumes "activated js q None w w'" and "codings js" and "checked_profile q = Inr q"
  shows "selected js w' = Some q" and "content w' (mirror_file q) = content w (profile_file q)" and "content w (profile_file q) \<noteq> None"
  using assms marshal_parse [OF assms(2,3)] by (auto simp: activated_def selected_def)

definition restorable :: "app_json \<Rightarrow> transition \<Rightarrow> 'w \<Rightarrow> bool" where
  "restorable js t w \<longleftrightarrow> readable js w \<and> (\<forall>old. OldProfile t = Some old \<longrightarrow> content w (profile_file old) \<noteq> None)"

definition restored :: "app_json \<Rightarrow> transition \<Rightarrow> gerror option \<Rightarrow> 'w \<Rightarrow> 'w \<Rightarrow> bool" where
  "restored js t r w w' \<longleftrightarrow> same_but touched w w' \<and> (readable js w \<longrightarrow> readable js w') \<and>
     (smooth w \<and> restorable js t w \<longrightarrow> r = None) \<and> (r = None \<longrightarrow> stands_old js t w')"

definition reinstate :: "transition \<Rightarrow> registry \<Rightarrow> registry" where
  "reinstate t = put_item (NewProfile t) (if RevisionExisted t then Some (PreviousRevision t) else None)"

lemma reinstated: "updated js (reinstate t) None w w' \<Longrightarrow> revision_restored js t w'"
  by (auto simp: updated_def revision_restored_def reinstate_def put_item_def)

lemma restore_revision_wp:
  assumes "wired sw" and "SwRevisions sw" and "ok w"
  shows "wp (restore_target_revision sw t) (\<lambda>r w'. same_but {revisions_path} w w' \<and>
    (readable (SwJson sw) w \<longrightarrow> readable (SwJson sw) w') \<and> (smooth w \<and> readable (SwJson sw) w \<longrightarrow> r = None) \<and>
    (r = None \<longrightarrow> revision_restored (SwJson sw) t w')) w"
proof (cases "RevisionCaptured t")
  case False
  then show ?thesis
    using assms by (simp add: restore_target_revision_def wp_return revision_restored_def steady_same)
next
  case True
  have f: "tame (reinstate t)"
    by (simp add: reinstate_def)
  show ?thesis
  proof (rule wp_mono [of _ "\<lambda>r w'. updated (SwJson sw) (reinstate t) r w w'"], goal_cases)
    case 1
    show ?case
      using update_registry_wp [OF assms(1,3) f] True assms(2)
      by (simp add: restore_target_revision_def restore_revision_def reinstate_def)
  next
    case (2 r w')
    have "r = None \<Longrightarrow> revision_restored (SwJson sw) t w'"
      using 2 reinstated by simp
    then show ?case
      using 2 updated_readable [OF 2] by (simp add: updated_def)
  qed
qed

lemma restore_transition_wp:
  assumes sw: "wired sw" "SwRevisions sw" and w: "ok w" and t: "sound (SwJson sw) t"
  shows "wp (restore_transition sw t) (\<lambda>r w'. restored (SwJson sw) t r w w') w"
  unfolding restore_transition_def wp_bind
proof (rule wp_mono [OF restore_revision_wp [OF sw w]], elim conjE, goal_cases)
  case (1 r1 w1)
  have new: "validate_active_profile (NewProfile t) = None" "validate_mirror_snapshot (SwJson sw) (PreviousMirror t) = None"
    using t by (simp_all add: sound_def transition_ok_def)
  have same1: "same_but touched w w1"
    using same_but_trans [OF 1(1) steady_same [OF steady_refl [OF same_but_ok [OF 1(1)]], of "{}"], of touched] by simp
  show ?case
  proof (cases "OldProfile t")
    case None
    show ?thesis
      unfolding None option.case wp_bind
    proof (rule wp_mono [OF restore_mirror_wp [OF sw(1) same_but_ok [OF 1(1)] new]], elim conjE, goal_cases)
      case mirror: (1 r2 w2)
      have same2: "same_but touched w w2"
        using same_but_put [OF same1 mirror(1)] by simp
      show ?case
        unfolding remove_selection_eq [OF sw(1)] wp_return
      proof (rule remove_regular_wp [OF put_ok [OF mirror(1)] fixed_files(1)], goal_cases)
        case (1 r3 w3)
        have same3: "same_but touched w w3"
          using same_but_put [OF same2 1(1)] by simp
        have kept: "content w3 revisions_path = content w1 revisions_path" "content w3 (mirror_file (NewProfile t)) = content w2 (mirror_file (NewProfile t))"
          using put_other [OF 1(1)] put_other [OF mirror(1)] by simp_all
        show ?case
          using \<open>readable (SwJson sw) w \<longrightarrow> readable (SwJson sw) w1\<close> \<open>smooth w \<and> readable (SwJson sw) w \<longrightarrow> r1 = None\<close>
            \<open>r1 = None \<longrightarrow> revision_restored (SwJson sw) t w1\<close> 1 mirror same3 None kept same_registered [OF kept(1)]
            same_but_smooth [OF same1] same_but_smooth [OF same2]
          by (auto simp: restored_def stands_old_def restorable_def revision_restored_def readable_def put_def)
      qed
    qed
  next
    case (Some old)
    have old: "checked_profile old = Inr old"
      using t Some by (simp add: sound_def valid_checked)
    show ?thesis
      unfolding Some option.case wp_bind activate_def wired_simps [OF sw(1)]
    proof (rule wp_mono [OF activate_wp [OF same_but_ok [OF 1(1)] old]], goal_cases)
      case activation: (1 r2 w2)
      have same2: "same_but touched w w2"
        using activation same_but_trans [OF same1] by (auto simp: activated_def)
      show ?case
      proof (rule wp_mono [OF restore_mirror_wp [OF sw(1) same_but_ok [OF same2] new]], elim conjE, goal_cases)
        case (1 r3 w3)
        have same3: "same_but touched w w3"
          using same_but_put [OF same2 1(1)] by simp
        have kept: "content w3 revisions_path = content w1 revisions_path" "content w3 selection_file = content w2 selection_file"
          "mirror_file old \<noteq> mirror_file (NewProfile t) \<Longrightarrow> content w3 (mirror_file old) = content w2 (mirror_file old)"
          "content w3 (profile_file old) = content w1 (profile_file old)" "content w1 (profile_file old) = content w (profile_file old)"
          using 1(1) activation same1 checked_profileD(1) [OF old]
          by (auto simp: put_def changed_def activated_def same_but_def)
        have chosen: "selected (SwJson sw) w3 = Some old \<and> content w2 (mirror_file old) = content w1 (profile_file old)" if "r2 = None"
          using activated_selected [OF _ wired_codings [OF sw(1)] old, of w1 w2] activation that kept(2)
          by (simp add: selected_def)
        have smooth2: "smooth w \<Longrightarrow> content w (profile_file old) \<noteq> None \<Longrightarrow> r2 = None"
          using activation kept(5) same_but_smooth [OF same1] marshal_parse [OF wired_codings [OF sw(1)] old]
          by (auto simp: activated_def)
        show ?case
          unfolding wp_return
          using \<open>readable (SwJson sw) w \<longrightarrow> readable (SwJson sw) w1\<close> \<open>smooth w \<and> readable (SwJson sw) w \<longrightarrow> r1 = None\<close>
            \<open>r1 = None \<longrightarrow> revision_restored (SwJson sw) t w1\<close> 1 same3 Some kept same_registered [OF kept(1)]
            same_but_smooth [OF same2] chosen smooth2
          by (auto simp: restored_def stands_old_def restorable_def revision_restored_def readable_def put_def)
      qed
    qed
  qed
qed

section \<open>The commit\<close>

definition logged :: "app_json \<Rightarrow> transition \<Rightarrow> 'w \<Rightarrow> bool" where
  "logged js t w \<longleftrightarrow> content w journal_path = Some (journal_text js t)"

definition ledger :: "string set" where "ledger = insert journal_path touched"

lemma ledger_simps [simp]: "journal_path \<in> ledger" "selection_file \<in> ledger" "mirror_file p \<in> ledger"
    "revisions_path \<in> ledger" "profile_file p \<notin> ledger" "touched \<subseteq> ledger" "{revisions_path} \<subseteq> ledger"
  by (auto simp: ledger_def)

definition commit_outcome :: "app_json \<Rightarrow> transition \<Rightarrow> gerror option \<Rightarrow> 'w \<Rightarrow> 'w \<Rightarrow> bool" where
  "commit_outcome js t r w w' \<longleftrightarrow> same_but ledger w w' \<and> (readable js w \<longrightarrow> readable js w') \<and>
     (\<exists>t'. family t t' \<and> logged js t' w' \<and> (r = None \<longrightarrow> Phase t' = ''committed'' \<and> stands_new js (NewProfile t) w'))"

lemma save_transition_wp:
  assumes "wired sw" and "ok w" and "sound (SwJson sw) t"
    and "\<And>r w'. put journal_path (Some (journal_text (SwJson sw) t)) r w w' \<Longrightarrow> (smooth w \<Longrightarrow> r = None) \<Longrightarrow> Q r w'"
  shows "wp (save_transition sw t) Q w"
proof -
  have encoded: "EncodeTransition (SwJson sw) t = Inr (projr (EncodeTransition (SwJson sw) t))"
    by (rule encode_transition(1) [OF wired_codings [OF assms(1)] assms(3)])
  have line: "projr (EncodeTransition (SwJson sw) t) @ [CHR 0x0A] = journal_text (SwJson sw) t"
    by (simp add: journal_text_def newline_def)
  show ?thesis
    unfolding save_transition_def wired_simps [OF assms(1)] write_json_def
    by (subst encoded) (auto simp: line intro!: store_write_wp [OF assms(2) fixed_files(3)] assms(4))
qed

lemma load_transition_wp:
  assumes "wired sw" and "ok w" and "logged (SwJson sw) t w" and "sound (SwJson sw) t"
    and "\<And>r w'. steady w w' \<Longrightarrow> r = Inr t \<or> (\<exists>e. r = Inl e \<and> \<not> absent e \<and> \<not> smooth w) \<Longrightarrow> Q r w'"
  shows "wp (load_transition sw) Q w"
proof -
  have decoded: "decode_transition (SwJson sw) (journal_text (SwJson sw) t) = Inr t"
    by (rule encode_transition(2) [OF wired_codings [OF assms(1)] assms(4)])
  have "wp (store_read fs (abs_path rs) journal_path) (\<lambda>data. Q (case data of
      Inl e \<Rightarrow> Inl e | Inr d \<Rightarrow> decode_transition (SwJson sw) d)) w"
  proof (rule store_read_wp [OF assms(2) fixed_files(3)], goal_cases)
    case (1 r w')
    then show ?case
      using assms(3) decoded by (intro assms(5)) (auto simp: got_def logged_def split: sum.splits)
  qed
  then show ?thesis
    using assms(1) by (simp add: load_transition_def wp_bind wp_return wired_simps)
qed

lemma or_undo_wp:
  assumes sw: "wired sw" "SwRevisions sw" and t: "sound (SwJson sw) t" and m: "wp m M w"
    and "\<And>r w'. M r w' \<Longrightarrow> ok w'" and "\<And>w'. M None w' \<Longrightarrow> wp k Q w'"
    and "\<And>e e' r w' w''. M (Some e) w' \<Longrightarrow> restored (SwJson sw) t r w' w'' \<Longrightarrow> Q (Some e') w''"
  shows "wp (or_undo sw t m k) Q w"
  unfolding or_undo_def wp_bind
proof (rule wp_mono [OF m], goal_cases)
  case (1 r w')
  show ?case
  proof (cases r)
    case None
    then show ?thesis
      using 1 assms(6) by simp
  next
    case (Some e)
    have "\<exists>e'. errors_join [Some e, r'] = Some e'" for r'
      by (simp add: errors_join_ex)
    then show ?thesis
      unfolding Some option.case wp_bind wp_return
      using 1 Some assms(7) by (intro wp_mono [OF restore_transition_wp [OF sw assms(5) [OF 1] t]]) metis
  qed
qed

lemma restored_outcome:
  assumes "restored js t r w1 w2" and "same_but ledger w w1" and "readable js w \<longrightarrow> readable js w1"
    and "family t t'" and "logged js t' w1"
  shows "commit_outcome js t (Some e) w w2"
proof -
  have "same_but ledger w w2" "content w2 journal_path = content w1 journal_path"
    using assms(1) same_but_trans [OF assms(2), of touched w2 ledger]
    by (auto simp: restored_def intro: same_but_content)
  then show ?thesis
    using assms by (auto simp: commit_outcome_def restored_def logged_def)
qed

lemma mark_switched_wp:
  assumes "wired sw" and "SwRevisions sw" and "ok w" and "NewRevision t \<noteq> []"
  shows "wp (mark_switched sw t) (\<lambda>r w'. same_but {revisions_path} w w' \<and>
    (readable (SwJson sw) w \<longrightarrow> readable (SwJson sw) w')) w"
proof -
  define f where "f = (\<lambda>r. put_item (NewProfile t) (Some (applied (NewRevision t) (item_of r (NewProfile t)))) r)"
  have "tame f"
    by (simp add: f_def)
  then have "wp (mark_switched sw t) (\<lambda>r w'. updated (SwJson sw) f r w w') w"
    using update_registry_wp [OF assms(1,3), of f "SwPolls sw"] assms(2,4)
    by (simp add: mark_switched_def mark_applied_revision_def f_def)
  then show ?thesis
  proof (rule wp_mono)
    fix r w'
    assume u: "updated (SwJson sw) f r w w'"
    show "same_but {revisions_path} w w' \<and> (readable (SwJson sw) w \<longrightarrow> readable (SwJson sw) w')"
      using u updated_readable [OF u] by (simp add: updated_def)
  qed
qed

lemma commit_switch_wp:
  assumes sw: "wired sw" "SwRevisions sw" and w: "ok w" and t: "sound (SwJson sw) t" and j: "logged (SwJson sw) t w"
  shows "wp (commit_switch sw t) (\<lambda>r w'. commit_outcome (SwJson sw) t r w w') w"
proof -
  let ?js = "SwJson sw"
  have new: "checked_profile (NewProfile t) = Inr (NewProfile t)" and revision: "NewRevision t \<noteq> []"
    using t by (auto simp: sound_def transition_ok_def valid_checked valid_revision_def)
  note valid = checked_profileD(1) [OF new]
  have fam: "family t t"
    by (simp add: family_def)
  show ?thesis
    unfolding commit_switch_def wp_check recheck_def wp_bind wp_return wired_simps [OF sw(1)]
  proof (rule get_profile_wp [OF w new], goal_cases)
    case (1 r w1)
    have j1: "logged ?js t w1" and same1: "same_but ledger w w1" and read1: "readable ?js w \<longrightarrow> readable ?js w1"
      using 1 j steady_content [OF 1(1)] same_registered [of w1 w] by (auto simp: logged_def readable_def intro: steady_same)
    have rest: "wp (or_undo sw t (activate sw (SwPolls sw) (NewProfile t))
       (or_undo sw t (mark_switched sw t)
       (do {
          now \<leftarrow> SwNow sw;
          or_undo sw t (save_transition sw (t\<lparr>Phase := ''committed'', UpdatedAt := now\<rparr>))
            (State_Monad.return None) }))) (\<lambda>r w'. commit_outcome ?js t r w w') w1"
      unfolding activate_def wired_simps [OF sw(1)]
    proof (rule or_undo_wp [OF sw t activate_wp [OF steady_ok [OF 1(1)] new]], goal_cases)
      case (1 r w2)
      then show ?case
        by (rule activated_ok)
    next
      case (3 e e' r w2 w3)
      then have "same_but ledger w w2" "content w2 journal_path = content w1 journal_path" "content w2 revisions_path = content w1 revisions_path"
        using same_but_trans [OF same1, of "{selection_file, mirror_file (NewProfile t)}" w2 ledger]
        by (auto simp: activated_def same_but_content)
      then show ?case
        using read1 j1 same_registered [of w2 w1]
        by (intro restored_outcome [OF 3(2) _ _ fam]) (auto simp: logged_def readable_def)
    next
      case (2 w2)
      then have same2: "same_but ledger w w2" and kept2: "content w2 journal_path = content w1 journal_path" "content w2 revisions_path = content w1 revisions_path"
        using same_but_trans [OF same1, of "{selection_file, mirror_file (NewProfile t)}" w2 ledger]
        by (auto simp: activated_def same_but_content)
      have new2: "stands_new ?js (NewProfile t) w2" and j2: "logged ?js t w2" and read2: "readable ?js w \<longrightarrow> readable ?js w2"
        using activated_selected [OF 2 wired_codings [OF sw(1)] new] 2 j1 kept2 read1 same_registered [of w2 w1] valid
        by (auto simp: stands_new_def logged_def readable_def activated_def same_but_content)
      show ?case
      proof (rule or_undo_wp [OF sw t mark_switched_wp [OF sw same_but_ok [OF same2] revision]], goal_cases)
        case (1 r w3)
        then show ?case
          using same_but_ok by blast
      next
        case (3 e e' r w3 w4)
        then have "same_but ledger w w3" "logged ?js t w3"
          using same_but_trans [OF same2, of "{revisions_path}" w3 ledger] j2 by (auto simp: logged_def same_but_content)
        then show ?case
          using 3 read2 by (intro restored_outcome [OF 3(2) _ _ fam]) auto
      next
        case (2 w3)
        then have same3: "same_but ledger w w3" and j3: "logged ?js t w3" and new3: "stands_new ?js (NewProfile t) w3" and read3: "readable ?js w \<longrightarrow> readable ?js w3"
          using same_but_trans [OF same2, of "{revisions_path}" w3 ledger] j2 new2 read2 valid
            same_but_content [OF conjunct1 [OF 2]]
          by (auto simp: logged_def stands_new_def selected_def)
        have "wp (SwNow sw) (\<lambda>_ w'. steady w3 w') w3"
          using sw(1) same_but_ok [OF same3] by (simp add: wired_def)
        then show ?case
          unfolding wp_bind
        proof (rule wp_mono, goal_cases)
          case (1 now w4)
          let ?t = "t\<lparr>Phase := ''committed'', UpdatedAt := now\<rparr>"
          have same4: "same_but ledger w w4" and j4: "logged ?js t w4" and new4: "stands_new ?js (NewProfile t) w4" and read4: "readable ?js w \<longrightarrow> readable ?js w4"
            using same_but_before [OF same3 1] j3 new3 read3 valid steady_content [OF 1] same_registered [of w4 w3]
            by (auto simp: logged_def stands_new_def selected_def readable_def)
          have famc: "family t ?t"
            by (auto simp: family_def)
          have saved: "wp (save_transition sw ?t) (\<lambda>r w'. put journal_path (Some (journal_text ?js ?t)) r w4 w') w4"
            by (rule save_transition_wp [OF sw(1) steady_ok [OF 1] family_sound [OF t famc]])
          show ?case
          proof (rule or_undo_wp [OF sw t saved], goal_cases)
            case (1 r w5)
            then show ?case
              by (rule put_ok)
          next
            case (2 w5)
            then have "same_but ledger w w5" "logged ?js ?t w5" "stands_new ?js (NewProfile t) w5" "readable ?js w \<longrightarrow> readable ?js w5"
              using same_but_put [OF same4 2] new4 read4 valid put_other [OF 2] same_registered [of w5 w4]
              by (auto simp: put_def logged_def stands_new_def selected_def readable_def)
            then show ?case
              using famc by (auto simp: wp_return commit_outcome_def intro!: exI [of _ ?t])
          next
            case (3 e e' r w5 w6)
            then have "same_but ledger w w5" "\<exists>t'. family t t' \<and> logged ?js t' w5" "readable ?js w \<longrightarrow> readable ?js w5"
              using same_but_put [OF same4 3(1)] read4 put_other [OF 3(1)] same_registered [of w5 w4] fam famc j4
              by (auto simp: put_def logged_def readable_def)
            then show ?case
              using restored_outcome [OF 3(2)] by blast
          qed
        qed
      qed
    qed
    show ?case
    proof (cases r)
      case (Inl e)
      then show ?thesis
        using same1 j1 read1 fam by (auto simp: commit_outcome_def)
    next
      case (Inr c)
      show ?thesis
      proof (cases "ContentDigest ?js c = NewRevision t")
        case True
        then show ?thesis
          using rest by (simp add: Inr)
      next
        case False
        then show ?thesis
          using same1 j1 read1 fam by (auto simp: Inr commit_outcome_def)
      qed
    qed
  qed
qed

text \<open>A commit that finds the profile changed since the preflight does nothing.\<close>

lemma refused_commit_wp:
  assumes sw: "wired sw" and w: "ok w" and new: "validate_active_profile (NewProfile t) = None"
    and changed: "content w (profile_file (NewProfile t)) = Some c" "ContentDigest (SwJson sw) c \<noteq> NewRevision t"
  shows "wp (commit_switch sw t) (\<lambda>r w'. r \<noteq> None \<and> steady w w') w"
  unfolding commit_switch_def wp_check recheck_def wp_bind wp_return wired_simps [OF sw]
  by (rule get_profile_wp [OF w valid_checked [OF new]]) (use changed in \<open>auto simp: got_def split: sum.splits\<close>)

section \<open>Recovery\<close>

lemma recover_selection_wp:
  assumes sw: "wired sw" "SwRevisions sw" and w: "ok w" "smooth w" and t: "sound (SwJson sw) t"
    and j: "logged (SwJson sw) t w" and r: "restorable (SwJson sw) t w"
    and target: "Phase t = ''committed'' \<Longrightarrow> content w (profile_file (NewProfile t)) \<noteq> None"
  shows "wp (recover_selection sw) (\<lambda>r w'. r = None \<and> same_but touched w w' \<and>
    (if Phase t = ''committed'' then stands_new (SwJson sw) (NewProfile t) w' else stands_old (SwJson sw) t w')) w"
  unfolding recover_selection_def wp_bind
proof (rule load_transition_wp [OF sw(1) w(1) j t], goal_cases)
  case (1 loaded w1)
  then have loaded: "loaded = Inr t"
    using w(2) by auto
  have same1: "same_but touched w w1" and ok1: "ok w1" and smooth1: "smooth w1"
    using steady_same [OF 1(1)] steady_ok [OF 1(1)] steady_smooth [OF 1(1) w(2)] by auto
  have new: "checked_profile (NewProfile t) = Inr (NewProfile t)"
    using t by (simp add: sound_def valid_checked)
  show ?case
  proof (cases "Phase t = ''committed''")
    case True
    have "wp (activate_profile fs (SwJson sw) lay (SwRecoveryPolls sw) (NewProfile t)) (\<lambda>r w'. activated (SwJson sw) (NewProfile t) r w1 w') w1"
      by (rule activate_wp [OF ok1 new])
    moreover have "r = None \<and> same_but touched w w' \<and> stands_new (SwJson sw) (NewProfile t) w'"
      if a: "activated (SwJson sw) (NewProfile t) r w1 w'" for r w'
    proof -
      have valid: "validate_active_profile (NewProfile t) = None"
        by (rule checked_profileD(1) [OF new])
      have there: "content w1 (profile_file (NewProfile t)) \<noteq> None"
        using target [OF True] steady_content [OF 1(1)] valid by simp
      then have none: "r = None"
        using a smooth1 marshal_parse [OF wired_codings [OF sw(1)] new] by (auto simp: activated_def)
      have inner: "same_but {selection_file, mirror_file (NewProfile t)} w1 w'"
        using a by (simp add: activated_def)
      have "same_but touched w w'"
        by (rule same_but_trans [OF same1 inner]) auto
      moreover have "stands_new (SwJson sw) (NewProfile t) w'"
        using activated_selected [OF a [unfolded none] wired_codings [OF sw(1)] new]
          same_but_content [OF inner, of "profile_file (NewProfile t)"] valid
        by (simp add: stands_new_def)
      ultimately show ?thesis
        using none by blast
    qed
    ultimately show ?thesis
      by (auto simp: loaded True activate_def wired_simps [OF sw(1)] elim: wp_mono)
  next
    case False
    have ready: "restorable (SwJson sw) t w1"
      using r t steady_content [OF 1(1)] same_registered [of w1 w]
      by (auto simp: restorable_def readable_def sound_def)
    have "wp (restore_transition sw t) (\<lambda>r w'. restored (SwJson sw) t r w1 w') w1"
      by (rule restore_transition_wp [OF sw ok1 t])
    moreover have "r = None \<and> same_but touched w w' \<and> stands_old (SwJson sw) t w'"
      if "restored (SwJson sw) t r w1 w'" for r w'
      using that ready smooth1 same_but_trans [OF same1, of touched w' touched] by (auto simp: restored_def)
    ultimately show ?thesis
      by (auto simp: loaded False elim: wp_mono)
  qed
qed

end

end
