(* ===== verification/Lifecycle_Commit.thy ===== *)
theory Lifecycle_Commit
  imports Lifecycle_Trace
begin

text \<open>
  The commit inside of a switch. Whatever else the lifecycle does stays within a relation; the commit
  is run at most once, and a switch that reports no error has run it without an error.
\<close>

definition relates :: "('w \<Rightarrow> 'w \<Rightarrow> bool) \<Rightarrow> ('w, 'a) lc \<Rightarrow> bool" where
  "relates R m \<longleftrightarrow> (\<forall>l. wp m (\<lambda>_ l'. R (lc_world l) (lc_world l')) l)"

lemma relates_wp: "relates R m \<Longrightarrow> (\<And>a l'. R (lc_world l) (lc_world l') \<Longrightarrow> Q a l') \<Longrightarrow> wp m Q l"
  unfolding relates_def by (auto intro: wp_mono)

text \<open>\<open>P\<close> holds until the commit is run and \<open>K\<close> of its result afterwards.\<close>

definition committed ::
  "('w \<Rightarrow> bool) \<Rightarrow> (gerror option \<Rightarrow> 'w \<Rightarrow> bool) \<Rightarrow> gerror option \<Rightarrow> 'w lifecycle \<Rightarrow> bool" where
  "committed P K e l \<longleftrightarrow> P (lc_world l) \<and> e \<noteq> None \<or> (\<exists>r. K r (lc_world l) \<and> (e = None \<longrightarrow> r = None))"

locale commit_relation = call_relation d R for d :: "'w lifecycle_deps" and R +
  fixes P :: "'w \<Rightarrow> bool" and K :: "gerror option \<Rightarrow> 'w \<Rightarrow> bool" and commit :: "('w, gerror option) state"
  assumes R_guard_begin: "ld_guard d = Some g \<Longrightarrow> world_within R (rg_begin g p s)"
    and before: "P w \<Longrightarrow> R w w' \<Longrightarrow> P w'"
    and after: "K r w \<Longrightarrow> R w w' \<Longrightarrow> K r w'"
    and commits: "P w \<Longrightarrow> wp commit K w"
begin

lemma within_relates: "within R m \<Longrightarrow> relates R m"
  unfolding within_def relates_def by (blast intro: wp_mono)

lemma relates_begin: "relates R (begin_restart_guard d ctx p)"
proof -
  have "relates R (do { (active, err) \<leftarrow> in_world (rg_begin g p s);
      if err \<noteq> None \<or> \<not> active then State_Monad.return (False, err)
      else do { State_Monad.update (\<lambda>l. l\<lparr>lc_guard_in_progress := True\<rparr>); State_Monad.return (True, None) } })"
    if "ld_guard d = Some g" for g s
    unfolding relates_def wp_bind
  proof (intro allI relates_wp [OF within_relates [OF within_in_world [OF R_guard_begin [OF that]]]], goal_cases)
    case (1 l a l')
    then show ?case
      by (cases a) (simp add: wp_simps)
  qed
  moreover have "relates R (State_Monad.return x)" for x :: "bool \<times> gerror option"
    by (intro within_relates within_rules)
  ultimately show ?thesis
    unfolding begin_restart_guard_def by (auto split: option.splits list.splits)
qed

lemma relates_finish: "relates R (finish_restart_guard d active)"
proof -
  have "relates R (do { removed \<leftarrow> in_world (rg_remove g);
      State_Monad.update (\<lambda>l. l\<lparr>lc_guard_in_progress := False\<rparr>);
      State_Monad.return (map_option (Wrap ''remove restart guard'') removed) })"
    if "ld_guard d = Some g" for g
    unfolding relates_def wp_bind
  proof (intro allI relates_wp [OF within_relates [OF within_in_world [OF R_guard_remove [OF that]]]], goal_cases)
    case (1 l a l')
    then show ?case
      by (simp add: wp_simps)
  qed
  moreover have "relates R (State_Monad.return x)" for x :: "gerror option"
    by (intro within_relates within_rules)
  ultimately show ?thesis
    unfolding finish_restart_guard_def by (auto split: option.splits bool.splits)
qed

lemma committed_before [intro]: "P (lc_world l) \<Longrightarrow> e \<noteq> None \<Longrightarrow> committed P K e l"
  by (simp add: committed_def)

lemma committed_later: "committed P K e l \<Longrightarrow> R (lc_world l) (lc_world l') \<Longrightarrow> (e' = None \<Longrightarrow> e = None) \<Longrightarrow> committed P K e' l'"
  unfolding committed_def using before after by blast

lemma cleanup_wp:
  assumes "committed P K e l"
  shows "wp (in_world (ld_cleanup_runtime d p)) (\<lambda>_ l'. committed P K e l') l"
  by (rule relates_wp [OF within_relates [OF within_in_world [OF R_cleanup]]]) (use committed_later [OF assms] in blast)

lemma finish_replacement_wp:
  assumes "committed P K e l"
  shows "wp (finish_replacement d active consumed p e) (\<lambda>(_, e') l'. committed P K e' l') l"
  unfolding finish_replacement_def wp_bind
proof (rule relates_wp [OF relates_finish], goal_cases)
  case (1 g l1)
  have "committed P K (errors_join [e, g]) l1"
    by (rule committed_later [OF assms 1]) simp
  then show ?case
    using cleanup_wp [of "errors_join [e, g]" l1 p] by (auto simp: wp_return)
qed

lemma commit_wp: "P (lc_world l) \<Longrightarrow> wp (in_world commit) (\<lambda>r l'. K r (lc_world l')) l"
  using commits [of "lc_world l"] by (simp add: wp_simps)

lemma finish_committed_wp:
  assumes "K r (lc_world l)"
  shows "wp (finish_committed d active msg target p r) (\<lambda>(_, e) l'. committed P K e l') l"
proof (cases r)
  case None
  show ?thesis
    unfolding None finish_committed_def option.case wp_bind
  proof (rule relates_wp [OF within_relates [OF within_started]], goal_cases)
    case (1 u l1)
    then show ?case
      using assms None after by (intro finish_replacement_wp) (auto simp: committed_def)
  qed
next
  case (Some e)
  have failed: "wp (finish_replacement d active consumed p (errors_join [Some (Wrap msg e), a, b])) (\<lambda>(_, e) l'. committed P K e l') l2"
    if "R (lc_world l) (lc_world l2)" for consumed a b l2
    using assms that after by (intro finish_replacement_wp) (auto simp: committed_def)
  show ?thesis
    unfolding Some finish_committed_def option.case wp_bind
  proof (rule relates_wp [OF within_relates [OF within_stop_locked]], goal_cases)
    case (1 stop_err l1)
    show ?case
    proof (cases stop_err)
      case None
      show ?thesis
        unfolding None option.case
        by (rule relates_wp [OF within_relates [OF within_restore]])
          (use failed R_trans [OF 1] in \<open>auto split: prod.split\<close>)
    next
      case (Some e')
      then show ?thesis
        using failed [OF 1] by (simp add: wp_return)
    qed
  qed
qed

lemma replace_guarded_wp:
  assumes "P (lc_world l)"
  shows "wp (replace_guarded d active sm cm p target (Some commit)) (\<lambda>(_, e) l'. committed P K e l') l"
  unfolding replace_guarded_def wp_bind
proof (rule relates_wp [OF within_relates [OF within_stop_locked]], goal_cases)
  case (1 stopped l1)
  then have p1: "P (lc_world l1)"
    using assms before by blast
  show ?case
  proof (cases stopped)
    case (Some e)
    have "committed P K (Some (Wrap ''stop previous generation'' e)) l1"
      using p1 by auto
    then have "wp (in_world (ld_cleanup_runtime d target)) (\<lambda>_ l'. committed P K (Some (Wrap ''stop previous generation'' e)) l') l1"
      by (rule cleanup_wp)
    then show ?thesis
      unfolding Some option.case wp_bind by (rule wp_mono) (rule finish_replacement_wp)
  next
    case None
    show ?thesis
      unfolding None option.case wp_bind
    proof (rule relates_wp [OF within_relates [OF within_start_prepared_locked]], goal_cases)
      case (1 started l2)
      then have p2: "P (lc_world l2)"
        using p1 before by blast
      show ?case
      proof (cases started)
        case (Some e)
        show ?thesis
          unfolding Some option.case wp_bind
        proof (rule relates_wp [OF within_relates [OF within_restore]], goal_cases)
          case (1 a l3)
          then show ?case
            using p2 before by (auto simp: errors_join_ex split: prod.split intro!: finish_replacement_wp committed_before)
        qed
      next
        case None
        show ?thesis
          unfolding None option.case wp_bind
          by (rule wp_mono [OF commit_wp [OF p2]]) (rule finish_committed_wp)
      qed
    qed
  qed
qed

lemma replace_running_wp:
  assumes "P (lc_world l)"
  shows "wp (replace_running d ctx sm cm live target (Some commit)) (\<lambda>(_, e) l'. committed P K e l') l"
  unfolding replace_running_def wp_bind
proof (rule relates_wp [OF within_relates [OF within_in_world [OF R_clone]]], goal_cases)
  case (1 cloned l1)
  then have p1: "P (lc_world l1)"
    using assms before by blast
  show ?case
  proof (cases cloned)
    case (Inl e)
    then show ?thesis
      using cleanup_wp [of "Some (Wrap ''clone live rollback generation'' e)" l1 target] p1
      by (auto simp: wp_return wp_bind elim: wp_mono)
  next
    case (Inr rollback_core)
    show ?thesis
      unfolding Inr sum.case replace_cloned_def wp_bind
    proof (rule relates_wp [OF relates_begin], goal_cases)
      case (1 a l2)
      obtain active guard_err where a: "a = (active, guard_err)"
        by (cases a)
      have p2: "P (lc_world l2)"
        using 1 p1 before by blast
      show ?case
      proof (cases guard_err)
        case None
        then show ?thesis
          using replace_guarded_wp [OF p2] by (simp add: a)
      next
        case (Some e)
        have "wp (in_world (ld_cleanup_runtime d target)) (\<lambda>_ l'. committed P K (Some (Wrap ''install restart guard'' e)) l') l2"
          using p2 by (intro cleanup_wp) auto
        then show ?thesis
          unfolding a Some prod.case option.case wp_bind wp_return by (rule wp_mono) (rule cleanup_wp)
      qed
    qed
  qed
qed

lemma replace_idle_wp:
  assumes "P (lc_world l)"
  shows "wp (replace_idle d msg st target (Some commit)) (\<lambda>(_, e) l'. committed P K e l') l"
proof -
  have "wp (if st = LCleanupFailed \<or> st = LStarting \<or> st = LStopping
        then State_Monad.return (Some (Err msg)) else in_world commit) (\<lambda>r l'. committed P K r l') l"
    using assms commit_wp [OF assms] by (auto simp: wp_return committed_def elim: wp_mono)
  then show ?thesis
    unfolding replace_idle_def option.case wp_bind wp_return prod.case by (rule wp_mono) (rule cleanup_wp)
qed

lemma switch_prepared_commits:
  assumes "P (lc_world l)"
  shows "wp (switch_prepared d ctx target (Some commit)) (\<lambda>(_, e) l'. committed P K e l') l"
proof -
  have refused: "wp (do { in_world (ld_cleanup_runtime d target); State_Monad.return (False, Some e) })
      (\<lambda>(_, e) l'. committed P K e l') l1" if "P (lc_world l1)" for l1 e
    using cleanup_wp [of "Some e" l1 target] that by (auto simp: wp_bind wp_return elim: wp_mono)
  have "wp (with_lock d (\<lambda>e. do { in_world (ld_cleanup_runtime d target); State_Monad.return (False, Some e) })
        (do {
           defaults;
           case validate d of
             Some e \<Rightarrow> do { in_world (ld_cleanup_runtime d target); State_Monad.return (False, Some e) }
           | None \<Rightarrow> do {
               current \<leftarrow> snapshot;
               if SnapState current \<noteq> LRunning then replace_idle d
                 ''cannot change the selected profile during an incomplete lifecycle operation''
                 (SnapState current) target (Some commit)
               else replace_running d ctx ''start target generation'' ''commit active profile''
                 (Prepared current) target (Some commit) } })) (\<lambda>(_, e) l'. committed P K e l') l"
    unfolding with_lock_def wp_bind
  proof (rule relates_wp [OF within_relates [OF within_in_world [OF R_lock]]], goal_cases)
    case (1 locked l1)
    then have p1: "P (lc_world l1)"
      using assms before by blast
    show ?case
    proof (cases locked)
      case (Some e)
      then show ?thesis
        using refused [OF p1] by simp
    next
      case None
      show ?thesis
        unfolding None option.case wp_bind
      proof (rule relates_wp [OF within_relates [OF within_defaults]], goal_cases)
        case (1 u l2)
        then have p2: "P (lc_world l2)"
          using p1 before by blast
        show ?case
        proof (cases "validate d")
          case (Some e)
          then show ?thesis
            using refused [OF p2] by simp
        next
          case None
          show ?thesis
            unfolding None option.case wp_bind
          proof (rule relates_wp [OF within_relates [OF within_snapshot]], goal_cases)
            case (1 current l3)
            then have "P (lc_world l3)"
              using p2 before by blast
            then show ?case
              using replace_idle_wp replace_running_wp by simp
          qed
        qed
      qed
    qed
  qed
  then show ?thesis
    by (simp add: switch_prepared_def)
qed

end

section \<open>Commits in the history\<close>

fun is_commit :: "lc_event \<Rightarrow> bool" where
  "is_commit (Ev_commit r) = True"
| "is_commit _ = False"

definition commits :: "history \<Rightarrow> lc_event list" where
  "commits tr = filter is_commit tr"

lemma commits_append [simp]: "commits (tr @ tr') = commits tr @ commits tr'"
  by (simp add: commits_def)

lemma commits_Cons [simp]: "commits (x # tr) = (if is_commit x then x # commits tr else commits tr)" "commits [] = []"
  by (simp_all add: commits_def)

interpretation switching: commit_relation "traced_deps e" "\<lambda>tr tr'. commits tr' = commits tr"
    "\<lambda>tr. commits tr = past" "\<lambda>r tr. commits tr = past @ [Ev_commit r]" "traced_commit e" for e past
  by unfold_locales
    (auto simp: traced_simps traced_commit_def wp_simps world_within_def split: if_splits)

text \<open>
  C9. A switch runs its commit at most once, and it reports success only if the commit was run and
  reported no error.
\<close>

theorem switch_commits_once:
  assumes "run_state (run_op e (Op_switch ctx p)) l = (r, l')"
  shows "(commits (lc_world l') = commits (lc_world l) \<and> r \<noteq> None) \<or>
    (\<exists>c. commits (lc_world l') = commits (lc_world l) @ [Ev_commit c] \<and> (r = None \<longrightarrow> c = None))"
proof -
  have "wp (run_op e (Op_switch ctx p)) (\<lambda>r l'. committed (\<lambda>tr. commits tr = commits (lc_world l))
      (\<lambda>c tr. commits tr = commits (lc_world l) @ [Ev_commit c]) r l') l"
    using switching.switch_prepared_commits [of l "commits (lc_world l)" e ctx p]
    by (auto simp: wp_bind wp_return elim: wp_mono)
  from wp_run [OF this assms] show ?thesis
    by (simp add: committed_def)
qed

lemma smooth_switch_succeeds:
  "wp (run_op smooth_env (Op_switch None zero_core)) (\<lambda>r _. r = None) (initial zero_config)"
  by (simp add: switch_prepared_def with_lock_def replace_idle_def traced_commit_def validate_def smooth_simps)

lemma switch_commits_once_witness:
  "commits (lc_world (snd (run_state (run_op smooth_env (Op_switch None zero_core)) (initial zero_config)))) = [Ev_commit None]"
proof -
  obtain r l' where run: "run_state (run_op smooth_env (Op_switch None zero_core)) (initial zero_config) = (r, l')"
    by fastforce
  then have "r = None"
    using wp_run [OF smooth_switch_succeeds] by blast
  then show ?thesis
    using switch_commits_once [OF run] run by (simp add: initial_def)
qed

end
