(* ===== verification/State_Machine.thy ===== *)
theory State_Machine
  imports State_Durable
begin

text \<open>
  The machine keeps the contract of a state directory. \<open>state_tree\<close> says which names are used below
  a root: ordinary ones, none of which is a directory of another or looks like a temporary name. For
  every such tree the machine, whatever its faults, is a \<open>durable_store\<close>.
\<close>

section \<open>Requests one by one\<close>

definition clear :: "'r machine \<Rightarrow> bool" where
  "clear m \<longleftrightarrow> (\<forall>k \<ge> Asked m. Plan m k = None)"

definition later_with :: "'r machine \<Rightarrow> nodes \<Rightarrow> 'r machine \<Rightarrow> bool" where
  "later_with m ns m' \<longleftrightarrow> m' = m\<lparr>Nodes := ns, Asked := Asked m'\<rparr> \<and> Asked m \<le> Asked m'"

lemma later_with_trans: "later_with m ns m' \<Longrightarrow> later_with m' ns' m'' \<Longrightarrow> later_with m ns' m''"
  by (cases m; cases m'; cases m'') (auto simp: later_with_def)

lemma later_with_simps:
  assumes "later_with m ns m'"
  shows "Nodes m' = ns" and "Suffix m' = Suffix m" and "Asked m \<le> Asked m'" and "clear m \<Longrightarrow> clear m'"
    and "Plan m' = Plan m"
proof -
  have m': "m' = m\<lparr>Nodes := ns, Asked := Asked m'\<rparr>" "Asked m \<le> Asked m'"
    using assms by (simp_all add: later_with_def)
  show "Asked m \<le> Asked m'"
    by (rule m')
  show plan: "Plan m' = Plan m"
    by (subst m') simp
  show "Nodes m' = ns"
    by (subst m') simp
  show "Suffix m' = Suffix m"
    by (subst m') simp
  show "clear m \<Longrightarrow> clear m'"
    using m'(2) by (simp add: clear_def plan)
qed

lemma later_with_refl [simp]: "later_with m (Nodes m) m"
  by (simp add: later_with_def)

text \<open>One request: a fault, or what the request does.\<close>

lemma disk_wp:
  assumes "\<And>f m'. \<not> clear m \<Longrightarrow> later_with m (broken f (Nodes m) r) m' \<Longrightarrow> Q (Inl (fault_error f)) m'"
    and "\<And>a ns m'. perform (dec (Suffix m (Asked m))) (Nodes m) r = (a, ns) \<Longrightarrow> later_with m ns m' \<Longrightarrow> Q a m'"
  shows "wp (disk r) Q m"
proof (cases "Plan m (Asked m)")
  case None
  then show ?thesis
    using assms(2) by (auto simp: disk_def wp_State Let_def later_with_def split: prod.split)
next
  case (Some f)
  then have "\<not> clear m"
    by (auto simp: clear_def)
  with Some show ?thesis
    using assms(1) by (auto simp: disk_def wp_State Let_def later_with_def)
qed

lemma fault_not_absent [simp]: "\<not> absent (fault_error f)"
  by (cases f) (simp_all add: err_not_exist_def err_invalid_def err_unsupported_def err_would_block_def)

lemma absent_wrap [simp]: "absent (Wrap msg e) \<longleftrightarrow> absent e" "\<not> absent (Err s)" "absent err_not_exist"
  by (simp_all add: err_not_exist_def)

lemma wrap_not_absent [simp]: "Wrap msg e \<noteq> err_not_exist" "Err s \<noteq> err_not_exist"
  by (simp_all add: err_not_exist_def)

lemma unit_wp:
  assumes "\<And>f m'. \<not> clear m \<Longrightarrow> later_with m (broken f (Nodes m) r) m' \<Longrightarrow> Q (Some (fault_error f)) m'"
    and "\<And>e ns m'. perform (dec (Suffix m (Asked m))) (Nodes m) r = (Inl e, ns) \<Longrightarrow> later_with m ns m' \<Longrightarrow> Q (Some e) m'"
    and "\<And>a ns m'. perform (dec (Suffix m (Asked m))) (Nodes m) r = (Inr a, ns) \<Longrightarrow> later_with m ns m' \<Longrightarrow> Q None m'"
  shows "wp (fs_unit disk r) Q m"
  unfolding fs_unit_def wp_bind
proof (rule disk_wp, goal_cases)
  case (1 f m')
  then show ?case
    using assms(1) by (simp add: wp_return)
next
  case (2 a ns m')
  then show ?case
    using assms(2,3) by (cases a) (simp_all add: wp_return)
qed

text \<open>What an inspection finds.\<close>

fun node_kind :: "node \<Rightarrow> file_kind" where
  "node_kind (File s a) = Regular"
| "node_kind Folder = Directory"
| "node_kind (Other k) = k"

lemma info_disk_wp:
  assumes "\<And>f m'. \<not> clear m \<Longrightarrow> later_with m (Nodes m) m' \<Longrightarrow> Q (Inl (fault_error f)) m'"
    and "\<And>m'. Nodes m p = None \<Longrightarrow> later_with m (Nodes m) m' \<Longrightarrow> Q (Inl err_not_exist) m'"
    and "\<And>n k m'. Nodes m p = Some n \<Longrightarrow> later_with m (Nodes m) m' \<Longrightarrow> Q (Inr (node_kind n, k)) m'"
  shows "wp (fs_info disk p) Q m"
  unfolding fs_info_def wp_attempt
proof (rule disk_wp, goal_cases)
  case (1 f m')
  then show ?case
    using assms(1) by simp
next
  case (2 a ns m')
  show ?case
  proof (cases "Nodes m p")
    case None
    then show ?thesis
      using 2 assms(2) by (auto simp: wp_return)
  next
    case (Some n)
    then show ?thesis
      using 2 assms(3) [of n m'] by (cases n) (auto simp: node_info_def wp_return)
  qed
qed

text \<open>
  A request about a temporary file \<open>t\<close> beside the nodes \<open>b\<close>: a fault may leave anything in \<open>t\<close>.
\<close>

lemma temp_wp:
  assumes "later_with m (b(t \<mapsto> File s a)) m1"
    and "\<And>random. perform random (b(t \<mapsto> File s a)) r = (Inr Done, b(t \<mapsto> File s' a'))"
    and "\<And>f. \<exists>x. broken f (b(t \<mapsto> File s a)) r = b(t := x)"
    and "\<And>e x m'. \<not> clear m \<Longrightarrow> later_with m (b(t := x)) m' \<Longrightarrow> Q (Some e) m'"
    and "\<And>m'. later_with m (b(t \<mapsto> File s' a')) m' \<Longrightarrow> Q None m'"
  shows "wp (fs_unit disk r) Q m1"
proof (rule unit_wp, goal_cases)
  case (1 f m')
  then have "\<not> clear m"
    using later_with_simps(4) [OF assms(1)] by blast
  moreover obtain x where "later_with m1 (b(t := x)) m'"
    using 1 assms(3) [of f] later_with_simps(1) [OF assms(1)] by auto
  ultimately show ?case
    using assms(4) later_with_trans [OF assms(1)] by blast
next
  case (2 e ns m')
  then show ?case
    using assms(2) later_with_simps(1) [OF assms(1)] by simp
next
  case (3 x ns m')
  then show ?case
    using assms(2,5) later_with_simps(1) [OF assms(1)] later_with_trans [OF assms(1)] by simp
qed

lemma filling_wp:
  assumes "later_with m (b(t \<mapsto> File [] a)) m1"
    and "\<And>e x m'. \<not> clear m \<Longrightarrow> later_with m (b(t := x)) m' \<Longrightarrow> Q (Some e) m'"
    and "\<And>m'. later_with m (b(t \<mapsto> File data mode)) m' \<Longrightarrow> Q None m'"
  shows "wp (in_turn disk (filling t data mode)) Q m1"
  unfolding filling_def in_turn.simps wp_check wp_wrapped wp_return
proof (rule temp_wp [OF assms(1), of _ "[]" mode], goal_cases)
  case (4 m2)
  show ?case
    unfolding option.map option.case
  proof (rule temp_wp [OF 4, of _ data mode], goal_cases)
    case (4 m3)
    show ?case
      unfolding option.map option.case
    proof (rule temp_wp [OF 4, of _ data mode], goal_cases)
      case (4 m4)
      show ?case
        unfolding option.map option.case
        by (rule temp_wp [OF 4, of _ data mode]) (auto simp: assms(2,3) intro: exI [of _ "Some (File data mode)"])
    qed (auto simp: assms(2) intro: exI [of _ "Some (File data mode)"])
  qed (auto simp: assms(2) with_file_def)
qed (auto simp: assms(2) with_file_def change_mode_def)

text \<open>The deferred removal.\<close>

lemma discard_wp:
  assumes "later_with m (b(t := x)) m1" and "clear m \<Longrightarrow> x \<noteq> Some Folder"
    and "\<And>r' y m'. later_with m (b(t := y)) m' \<Longrightarrow> (r \<noteq> None \<Longrightarrow> r' \<noteq> None) \<Longrightarrow>
      (clear m \<Longrightarrow> r' = r \<and> y = None) \<Longrightarrow> Q r' m'"
  shows "wp (discard_temp disk t closed r) Q m1"
proof -
  let ?remove = "\<lambda>c. fs_unit disk (RemoveFile t) \<bind> (\<lambda>removed. State_Monad.return (case r of
         Some e \<Rightarrow> Some e
       | None \<Rightarrow> (case c of
           Some e \<Rightarrow> Some e
         | None \<Rightarrow> (case removed of
             None \<Rightarrow> None | Some e \<Rightarrow> if error_is e err_not_exist then None else Some e))))"
  have remove: "wp (?remove c) Q m2"
    if m2: "later_with m (b(t := x)) m2" and c: "clear m \<Longrightarrow> c = None" for c m2
    unfolding wp_bind wp_return
  proof (rule unit_wp, goal_cases)
    case (1 f m')
    then have "later_with m (b(t := x)) m'" "\<not> clear m"
      using later_with_simps(1,4) [OF m2] later_with_trans [OF m2] by auto
    then show ?case
      using assms(3) [of x m'] by (auto split: option.splits)
  next
    case (2 e ns m')
    then have "later_with m (b(t := x)) m'" "clear m \<Longrightarrow> x = None \<and> absent e"
      using assms(2) later_with_simps(1) [OF m2] later_with_trans [OF m2] 
      by (auto simp: refuse_def split: option.splits node.splits)
    then show ?case
      using assms(3) [of x m'] c by (auto split: option.splits)
  next
    case (3 a ns m')
    then have "later_with m (b(t := None)) m'"
      using later_with_simps(1) [OF m2] later_with_trans [OF m2] by (auto simp: refuse_def split: option.splits node.splits)
    then show ?case
      using assms(3) [of None m'] c by (auto split: option.splits)
  qed
  show ?thesis
  proof (cases closed)
    case True
    then show ?thesis
      using remove [OF assms(1), of None] by (simp add: discard_temp_def wp_bind wp_return)
  next
    case False
    have "wp (fs_unit disk (CloseTemp t)) (\<lambda>c. wp (?remove c) Q) m1"
      by (rule unit_wp; rule remove)
        (use later_with_simps [OF assms(1)] later_with_trans [OF assms(1)] in auto)
    then show ?thesis
      using False by (simp add: discard_temp_def wp_bind)
  qed
qed

section \<open>The tree of a state directory\<close>

definition lock_name :: "string \<Rightarrow> string" where
  "lock_name l = join_paths [''locks'', l @ ''.lock'']"

definition temp_start :: string where "temp_start = ''.boxctl-state-''"

lemma split_inject: "split_on c s = split_on c t \<Longrightarrow> s = t"
  by (metis join_split)

locale state_tree =
  fixes rs :: "string list" and names :: "string set" and locks :: "string set"
  assumes root: "list_all proper rs"
    and named: "n \<in> names \<union> lock_name ` locks \<Longrightarrow> proper_name n"
    and visible: "n \<in> names \<union> lock_name ` locks \<Longrightarrow> e \<in> set (split_on slash n) \<Longrightarrow> \<not> prefix temp_start e"
    and apart: "n \<in> names \<union> lock_name ` locks \<Longrightarrow> k \<in> names \<union> lock_name ` locks \<Longrightarrow>
      \<not> strict_prefix (split_on slash n) (split_on slash k)"
    and unlocked: "names \<inter> lock_name ` locks = {}"
begin

definition files :: "string set" where "files = names \<union> lock_name ` locks"

lemma names_files [simp]: "n \<in> names \<Longrightarrow> n \<in> files"
  by (simp add: files_def)

definition parts :: "string \<Rightarrow> string list" where "parts n = rs @ butlast (split_on slash n)"

definition folder :: "string \<Rightarrow> bool" where
  "folder p \<longleftrightarrow> (\<exists>n \<in> files. \<exists>xs. prefix xs (parts n) \<and> p = abs_path xs)"

definition spare :: "string \<Rightarrow> nat \<Rightarrow> string" where
  "spare n k = temp_name (dir (place rs n)) ''.boxctl-state-*'' (dec k)"

lemma abs_path_inject: "list_all proper xs \<Longrightarrow> list_all proper ys \<Longrightarrow> abs_path xs = abs_path ys \<longleftrightarrow> xs = ys"
  by (metis elements_abs_path)

lemma proper_split: "n \<in> files \<Longrightarrow> list_all proper (split_on slash n)"
  using named by (auto simp: files_def proper_name_def)

lemma split_parts: "n \<in> files \<Longrightarrow> rs @ split_on slash n = parts n @ [last (split_on slash n)]"
  by (simp add: parts_def)

lemma proper_parts: "n \<in> files \<Longrightarrow> list_all proper (parts n)"
  using proper_split [of n] root by (auto simp: parts_def list_all_iff dest: in_set_butlastD)

lemma dir_place [simp]:
  assumes "n \<in> files"
  shows "dir (place rs n) = abs_path (parts n)"
  unfolding place_def split_parts [OF assms]
  using assms proper_split [OF assms] by (intro dir_abs_path proper_parts) (auto simp: list_all_iff)

lemma proper_prefix: "n \<in> files \<Longrightarrow> prefix xs (parts n) \<Longrightarrow> list_all proper xs"
  using proper_parts [of n] by (auto simp: prefix_def)

lemma folder_dir [simp]: "n \<in> files \<Longrightarrow> folder (abs_path (parts n))"
  by (auto simp: folder_def)

lemma place_not_folder [simp]:
  assumes "n \<in> files"
  shows "\<not> folder (place rs n)"
proof
  assume "folder (place rs n)"
  then obtain k xs where k: "k \<in> files" "prefix xs (parts k)" "place rs n = abs_path xs"
    by (auto simp: folder_def)
  then have "rs @ split_on slash n = xs"
    using assms root proper_split [OF assms] proper_prefix [OF k(1,2)] by (auto simp: place_def abs_path_inject)
  then have "prefix (split_on slash n) (butlast (split_on slash k))"
    using k(2) by (auto simp: parts_def)
  then have "strict_prefix (split_on slash n) (split_on slash k)"
    by (cases "split_on slash k" rule: rev_cases) (auto simp: strict_prefix_def prefix_def)
  then show False
    using apart assms k(1) by (simp add: files_def)
qed

lemma place_inject [simp]: "n \<in> files \<Longrightarrow> k \<in> files \<Longrightarrow> place rs n = place rs k \<longleftrightarrow> n = k"
  using root proper_split [of n] proper_split [of k] split_inject [of slash n k]
  by (auto simp: place_def abs_path_inject)

lemma spare_proper: "proper (temp_start @ dec k)"
  using dec_digits [of slash k] by (auto simp: proper_def temp_start_def dot_def dotdot_def is_digit_def)

lemma spare_path: "n \<in> files \<Longrightarrow> spare n k = abs_path (parts n @ [temp_start @ dec k])"
  using proper_parts join_paths_below [of "parts n" "[temp_start @ dec k]"] spare_proper [of k]
  by (simp add: spare_def temp_name_def temp_start_def)

lemma spare_apart [simp]:
  assumes "n \<in> files"
  shows "\<not> folder (spare n k)" and "l \<in> files \<Longrightarrow> spare n k \<noteq> place rs l" and "l \<in> files \<Longrightarrow> place rs l \<noteq> spare n k"
proof -
  have ys: "list_all proper (parts n @ [temp_start @ dec k])"
    using assms proper_parts spare_proper by simp
  have early: "temp_start @ dec k \<notin> set (split_on slash l)" if "l \<in> files" for l
    using visible [of l] that by (fastforce simp: files_def prefix_def)
  have far: "temp_start @ dec k \<in> set (split_on slash l)"
    if "prefix (parts n @ [temp_start @ dec k]) (rs @ split_on slash l)" for l
    using that by (auto simp: parts_def prefix_def append_eq_append_conv2)
  show "\<not> folder (spare n k)"
  proof
    assume "folder (spare n k)"
    then obtain l xs where l: "l \<in> files" "prefix xs (parts l)" "spare n k = abs_path xs"
      by (auto simp: folder_def)
    then have "prefix (parts n @ [temp_start @ dec k]) (parts l)"
      using assms ys proper_prefix by (auto simp: spare_path abs_path_inject)
    then have "prefix (parts n @ [temp_start @ dec k]) (rs @ split_on slash l)"
      unfolding split_parts [OF l(1)] by simp
    then show False
      using far early [OF l(1)] by blast
  qed
  show "spare n k \<noteq> place rs l" if "l \<in> files"
    using far [of l] early [OF that] ys assms that root proper_split
    by (auto simp: spare_path place_def abs_path_inject)
  then show "place rs l \<noteq> spare n k" if "l \<in> files"
    using that by metis
qed

section \<open>What the tree holds\<close>

definition tree_ok :: "nodes \<Rightarrow> bool" where
  "tree_ok ns \<longleftrightarrow> (\<forall>p. folder p \<longrightarrow> ns p = None \<or> ns p = Some Folder) \<and>
     (\<forall>n \<in> files. ns (place rs n) = None \<or>
       (\<exists>s a. ns (place rs n) = Some (File s a) \<and> ns (dir (place rs n)) = Some Folder))"

definition held :: "nodes \<Rightarrow> string \<Rightarrow> string option" where
  "held ns n = (case ns (place rs n) of Some (File s a) \<Rightarrow> Some s | _ \<Rightarrow> None)"

definition ok :: "'r machine \<Rightarrow> bool" where "ok m \<longleftrightarrow> tree_ok (Nodes m)"

definition content :: "'r machine \<Rightarrow> string \<Rightarrow> string option" where "content m n = held (Nodes m) n"

definition unused :: "'r machine \<Rightarrow> nodes \<Rightarrow> bool" where
  "unused m ns \<longleftrightarrow> (\<forall>n \<in> files. \<forall>k \<ge> Asked m. ns (spare n (Suffix m k)) = None)"

text \<open>No faults to come, and the random parts of temporary names to come are new.\<close>

definition smooth :: "'r machine \<Rightarrow> bool" where "smooth m \<longleftrightarrow> clear m \<and> unused m (Nodes m)"

text \<open>Nodes that agree on the tree, and may lack temporary files.\<close>

definition alike :: "nodes \<Rightarrow> nodes \<Rightarrow> bool" where
  "alike ns ns' \<longleftrightarrow> (\<forall>p. folder p \<longrightarrow> ns' p = ns p) \<and> (\<forall>n \<in> files. ns' (place rs n) = ns (place rs n)) \<and>
     (\<forall>n \<in> files. \<forall>k. ns (spare n k) = None \<longrightarrow> ns' (spare n k) = None)"

lemma alike_refl [simp]: "alike ns ns"
  by (simp add: alike_def)

lemma alike_trans: "alike ns ns' \<Longrightarrow> alike ns' ns'' \<Longrightarrow> alike ns ns''"
  by (auto simp: alike_def)

lemma alike_ok: "alike ns ns' \<Longrightarrow> tree_ok ns \<Longrightarrow> tree_ok ns'"
  by (auto simp: alike_def tree_ok_def)

lemma alike_held: "alike ns ns' \<Longrightarrow> n \<in> files \<Longrightarrow> held ns' n = held ns n"
  by (simp add: alike_def held_def)

lemma alike_unused: "alike ns ns' \<Longrightarrow> unused m ns \<Longrightarrow> unused m ns'"
  by (auto simp: alike_def unused_def)

lemma unused_later: "unused m ns \<Longrightarrow> later_with m ns' m' \<Longrightarrow> unused m' ns"
  using later_with_simps(2,3) by (fastforce simp: unused_def)

lemma later_smooth: "later_with m ns m' \<Longrightarrow> smooth m \<Longrightarrow> unused m ns \<Longrightarrow> smooth m'"
  unfolding smooth_def using later_with_simps(1,4) [of m ns m'] unused_later by metis

sublocale named_files names content ok smooth .

lemma alike_steady: "ok m \<Longrightarrow> later_with m ns m' \<Longrightarrow> alike (Nodes m) ns \<Longrightarrow> steady m m'"
  using later_smooth [of m ns m'] alike_ok [of "Nodes m" ns] alike_unused [of "Nodes m" ns m] alike_held [of "Nodes m" ns]
  by (auto simp: steady_def ok_def content_def smooth_def later_with_simps(1))

lemma quiet_steady: "ok m \<Longrightarrow> later_with m (Nodes m) m' \<Longrightarrow> steady m m'"
  using alike_steady alike_refl by blast

section \<open>Updates of the tree\<close>

lemma folders_apart [simp]:
  "folder p \<Longrightarrow> n \<in> files \<Longrightarrow> p \<noteq> spare n k" "folder p \<Longrightarrow> n \<in> files \<Longrightarrow> p \<noteq> place rs n"
  "l \<in> files \<Longrightarrow> n \<in> files \<Longrightarrow> abs_path (parts l) \<noteq> spare n k"
  "l \<in> files \<Longrightarrow> n \<in> files \<Longrightarrow> abs_path (parts l) \<noteq> place rs n"
  by (auto dest: folder_dir simp del: folder_dir) 

lemma tree_updates [simp]:
  assumes "n \<in> files"
  shows "tree_ok (ns(spare n k := y)) = tree_ok ns"
    and "l \<in> files \<Longrightarrow> held (ns(spare n k := y)) l = held ns l"
    and "l \<in> files \<Longrightarrow> held (ns(place rs n := x)) l = (if l = n then held ((\<lambda>_. x)) n else held ns l)"
    and "unused m (ns(place rs n := x)) = unused m ns"
    and "tree_ok ns \<Longrightarrow> tree_ok (ns(place rs n := None))"
    and "tree_ok ns \<Longrightarrow> ns (abs_path (parts n)) = Some Folder \<Longrightarrow> tree_ok (ns(place rs n \<mapsto> File s a))"
  using assms by (auto simp: tree_ok_def held_def unused_def)

lemma unused_without [simp]: "unused m ns \<Longrightarrow> unused m (ns(spare n k := None))"
  by (simp add: unused_def)

lemma held_constant [simp]: "held (\<lambda>_. Some (File s a)) n = Some s" "held (\<lambda>_. None) n = None"
  by (simp_all add: held_def)

lemma changedI:
  assumes "later_with m ns m'" and "tree_ok ns"
    and "\<And>k. k \<in> names \<Longrightarrow> k \<noteq> n \<Longrightarrow> held ns k = held (Nodes m) k" and "smooth m \<Longrightarrow> unused m ns"
  shows "changed n m m'"
  using assms later_smooth [OF assms(1)]
  by (auto simp: changed_def ok_def content_def later_with_simps(1))

lemma spare_steady:
  assumes "ok m" and "n \<in> files" and "later_with m ((Nodes m)(spare n k := y)) m'" and "smooth m \<Longrightarrow> y = None"
  shows "steady m m'"
proof -
  have "smooth m \<Longrightarrow> unused m ((Nodes m)(spare n k := y))"
    using assms(4) by (auto simp: smooth_def)
  then have "changed n m m'"
    using assms(1,2) by (intro changedI [OF assms(3)]) (simp_all add: ok_def)
  moreover have "content m' n = content m n"
    using assms(2) later_with_simps(1) [OF assms(3)] by (simp add: content_def)
  ultimately show ?thesis
    by (rule changed_steady)
qed

lemma stored:
  assumes "ok m" and "n \<in> files" and "Nodes m (abs_path (parts n)) = Some Folder"
    and "later_with m ((Nodes m)(place rs n \<mapsto> File data a, spare n k := y)) m'" and "smooth m \<Longrightarrow> y = None"
  shows "put n (Some data) r m m'"
proof -
  have "smooth m \<Longrightarrow> unused m ((Nodes m)(place rs n \<mapsto> File data a, spare n k := y))"
    using assms(2,5) by (auto simp: smooth_def)
  then have "changed n m m'"
    using assms(1-3) by (intro changedI [OF assms(4)]) (simp_all add: ok_def)
  moreover have "content m' n = Some data"
    using assms(2) later_with_simps(1) [OF assms(4)] by (simp add: content_def)
  ultimately show ?thesis
    by (simp add: put_def)
qed

lemma tree_folder: "ok m \<Longrightarrow> folder p \<Longrightarrow> Nodes m p = None \<or> Nodes m p = Some Folder"
  by (simp add: ok_def tree_ok_def)

lemma tree_place:
  "ok m \<Longrightarrow> n \<in> files \<Longrightarrow> Nodes m (place rs n) = None \<or>
    (\<exists>s a. Nodes m (place rs n) = Some (File s a) \<and> Nodes m (abs_path (parts n)) = Some Folder)"
  unfolding ok_def tree_ok_def by fastforce

section \<open>Writing\<close>

lemma sync_directory_wp:
  assumes "Nodes m d = Some Folder"
  shows "wp (sync_directory disk d) (\<lambda>r m'. later_with m (Nodes m) m' \<and> (clear m \<longrightarrow> r = None)) m"
  unfolding sync_directory_def wp_check wp_wrapped
proof (rule unit_wp, goal_cases)
  case (3 a ns m1)
  then have m1: "later_with m (Nodes m) m1"
    using assms by (simp add: with_folder_def)
  show ?case
    unfolding option.map option.case wp_bind wp_return
    by (rule unit_wp) (use m1 later_with_simps [OF m1] later_with_trans [OF m1] in auto)
qed (use assms in \<open>auto simp: with_folder_def\<close>)

lemma publish_wp:
  assumes name: "n \<in> names" and b: "ok m" "Nodes m (abs_path (parts n)) = Some Folder" "Nodes m (spare n k) = None"
    and m1: "later_with m ((Nodes m)(spare n k \<mapsto> File [] a)) m1"
  shows "wp (publish_temp disk (abs_path (parts n)) (spare n k) (place rs n) data mode)
    (\<lambda>r m'. put n (Some data) r m m' \<and> (smooth m \<longrightarrow> r = None)) m1"
proof -
  let ?t = "spare n k" and ?p = "place rs n"
  have n: "n \<in> files"
    using name by simp
  have lost: "put n (Some data) r m m'"
    if "\<not> clear m" "r \<noteq> None" "later_with m ((Nodes m)(?t := y)) m'" for r y m'
    using that spare_steady [OF b(1) n that(3)] name
    by (auto simp: smooth_def put_def steady_content intro: steady_changed)
  have kept: "wp (discard_temp disk ?t closed (Some e)) (\<lambda>r m'. put n (Some data) r m m' \<and> (smooth m \<longrightarrow> r = None)) m2"
    if "\<not> clear m" "later_with m ((Nodes m)(?t := x)) m2" for closed e x m2
    by (rule discard_wp [OF that(2)]) (use that(1) lost in \<open>auto simp: smooth_def\<close>)
  show ?thesis
    unfolding publish_temp_def wp_bind
  proof (rule filling_wp [OF m1], goal_cases)
    case (1 e x m2)
    then show ?case
      using kept by simp
  next
    case (2 m2)
    have nodes: "Nodes m2 = (Nodes m)(?t \<mapsto> File data mode)"
      by (rule later_with_simps(1) [OF 2])
    show ?case
      unfolding option.case wp_bind wp_check wp_wrapped
    proof (rule unit_wp, goal_cases)
      case (1 f m3)
      then have "later_with m ((Nodes m)(?t \<mapsto> File data mode)) m3" "\<not> clear m"
        using later_with_trans [OF 2] later_with_simps(4) [OF 2] nodes by auto
      then show ?case
        using kept by simp
    next
      case (2 e ns m3)
      then show ?case
        using nodes n tree_place [OF b(1) n] by (auto simp: with_file_def split: if_splits)
    next
      case (3 u ns m3)
      let ?b = "(Nodes m)(?p \<mapsto> File data mode)"
      have "ns = ?b(?t := None)"
        using 3(1) nodes n tree_place [OF b(1) n] by (auto simp: with_file_def fun_upd_twist split: if_splits)
      then have m3: "later_with m (?b(?t := None)) m3"
        using 3(2) later_with_trans [OF 2] by simp
      have folder: "Nodes m3 (abs_path (parts n)) = Some Folder"
        using b(2) n folder_dir [OF n] spare_apart(1) [OF n, of k] place_not_folder [OF n]
        by (auto simp: later_with_simps(1) [OF m3])
      show ?case
        unfolding option.case option.map
      proof (rule wp_mono [OF sync_directory_wp [OF folder]], elim conjE, goal_cases)
        case (1 r m4)
        then have m4: "later_with m (?b(?t := None)) m4"
          using later_with_trans [OF m3] later_with_simps(1) [OF m3] by simp
        show ?case
          by (rule discard_wp [OF m4])
            (use 1 later_with_simps(4) [OF m3] stored [OF b(1) n b(2)] in \<open>auto simp: smooth_def\<close>)
      qed
    qed
  qed
qed

text \<open>Creating the directory of a file.\<close>

lemma ancestors_folders: "n \<in> files \<Longrightarrow> p \<in> set (ancestors (abs_path (parts n))) \<Longrightarrow> folder p"
  using proper_parts [of n] by (auto simp: ancestors_def folder_def intro: take_is_prefix)

lemma last_ancestor: "n \<in> files \<Longrightarrow> abs_path (parts n) \<in> set (ancestors (abs_path (parts n)))"
  using proper_parts [of n] by (auto simp: ancestors_def image_iff intro!: bexI [of _ "length (parts n)"])

lemma make_folders_ok:
  assumes "ok m" and "n \<in> files"
  shows "make_folders (Nodes m) (ancestors (abs_path (parts n))) =
    (Inr Done, \<lambda>p. if p \<in> set (ancestors (abs_path (parts n))) then Some Folder else Nodes m p)"
  using assms tree_folder ancestors_folders [OF assms(2)] by (fastforce simp: make_folders_def list_all_iff)

lemma made_steady:
  assumes "ok m" and "n \<in> files"
    and "later_with m (\<lambda>p. if p \<in> set (ancestors (abs_path (parts n))) then Some Folder else Nodes m p) m'"
  shows "steady m m'"
proof -
  let ?ns = "\<lambda>p. if p \<in> set (ancestors (abs_path (parts n))) then Some Folder else Nodes m p"
  have apart: "place rs l \<notin> set (ancestors (abs_path (parts n)))" "spare l k \<notin> set (ancestors (abs_path (parts n)))"
    if "l \<in> files" for l k
    using that ancestors_folders [OF assms(2)] place_not_folder spare_apart(1) by blast+
  have "tree_ok ?ns"
    using assms(1) apart by (auto simp: ok_def tree_ok_def)
  moreover have "held ?ns l = held (Nodes m) l" if "l \<in> files" for l
    using apart [OF that] by (simp add: held_def)
  moreover have "unused m (Nodes m) \<Longrightarrow> unused m ?ns"
    using apart by (simp add: unused_def)
  ultimately show ?thesis
    using later_smooth [OF assms(3)] later_with_simps(1) [OF assms(3)]
    by (auto simp: steady_def ok_def content_def smooth_def)
qed

lemma make_wp:
  assumes "ok m" and "n \<in> files"
  shows "wp (fs_unit disk (MkdirAll (dir (place rs n)))) (\<lambda>r m'. steady m m' \<and>
    (clear m \<longrightarrow> r = None) \<and> (r = None \<longrightarrow> Nodes m' (abs_path (parts n)) = Some Folder)) m"
proof (rule unit_wp, goal_cases)
  case (3 a ns m')
  then show ?case
    using make_folders_ok [OF assms] made_steady [OF assms] last_ancestor [OF assms(2)] assms(2)
    by (auto simp: later_with_simps(1))
qed (use assms make_folders_ok [OF assms] in \<open>auto intro: quiet_steady\<close>)

text \<open>Inspecting a file that may exist.\<close>

lemma inspect_target_wp:
  assumes "ok m" and "n \<in> files"
  shows "wp (inspect_target disk (place rs n)) (\<lambda>r m'. later_with m (Nodes m) m' \<and> (clear m \<longrightarrow> r = None)) m"
  unfolding inspect_target_def wp_bind wp_return
  by (rule info_disk_wp) (use tree_place [OF assms] in auto)

lemma write_file_wp:
  assumes "ok m" and "n \<in> names"
  shows "wp (write_file_atomic disk (place rs n) data mode) (\<lambda>r m'. put n (Some data) r m m' \<and>
    (smooth m \<and> 0 < mode \<and> mode < 512 \<longrightarrow> r = None)) m"
proof (cases "mode mod 512 = 0 \<or> mode \<ge> 512")
  case True
  then show ?thesis
    using assms by (auto simp: write_file_atomic_def wp_return put_failed)
next
  case False
  have n: "n \<in> files"
    using assms(2) by simp
  show ?thesis
    unfolding write_file_atomic_def if_not_P [OF False] Let_def wp_check wp_wrapped
  proof (rule wp_mono [OF make_wp [OF assms(1) n]], elim conjE, goal_cases)
    case (1 r m1)
    note steady1 = 1(1)
    show ?case
    proof (cases r)
      case (Some e)
      then show ?thesis
        using 1 assms(2) by (auto simp: smooth_def intro: put_failed)
    next
      case None
      have ok1: "ok m1" and folder: "Nodes m1 (abs_path (parts n)) = Some Folder"
        using 1 None steady_ok by auto
      show ?thesis
        unfolding None option.map option.case
      proof (rule wp_mono [OF inspect_target_wp [OF ok1 n]], elim conjE, goal_cases)
        case (1 r m2)
        then have steady2: "steady m m2"
          using steady_trans [OF steady1 quiet_steady [OF ok1]] by simp
        have nodes2: "Nodes m2 = Nodes m1"
          by (rule later_with_simps(1) [OF 1(1)])
        show ?case
        proof (cases r)
          case (Some e)
          then show ?thesis
            using 1 assms(2) steady2 steady_smooth [OF steady1] by (auto simp: smooth_def intro: put_failed)
        next
          case None
          let ?k = "Suffix m2 (Asked m2)"
          have t: "temp_name (abs_path (parts n)) ''.boxctl-state-*'' (dec ?k) = spare n ?k"
            using n by (simp add: spare_def)
          have "wp (fs_named disk (abs_path (parts n)) ''.boxctl-state-*'' \<bind> (\<lambda>created. case created of
                Inl e \<Rightarrow> State_Monad.return (Some (Wrap ''state: create temporary file'' e))
              | Inr t \<Rightarrow> publish_temp disk (abs_path (parts n)) t (place rs n) data mode))
            (\<lambda>r m'. put n (Some data) r m2 m' \<and> (smooth m2 \<longrightarrow> r = None)) m2"
            unfolding wp_bind fs_named_def wp_attempt
          proof (rule disk_wp, goal_cases)
            case (1 f m3)
            then show ?case
              using assms(2) steady_ok [OF steady2] 
              by (auto simp: wp_return smooth_def intro!: put_failed quiet_steady)
          next
            case (2 a ns m3)
            show ?case
            proof (cases "Nodes m2 (spare n ?k)")
              case None
              then have "a = Inr (Named (spare n ?k))" "ns = (Nodes m2)(spare n ?k \<mapsto> File [] 384)"
                using 2(1) t folder nodes2 by (auto simp: make_temp_def)
              then show ?thesis
                using publish_wp [OF assms(2) steady_ok [OF steady2] _ None, of _ m3] 2(2) folder nodes2
                by (simp add: wp_return)
            next
              case (Some x)
              then have "\<not> smooth m2"
                using n by (auto simp: smooth_def unused_def)
              moreover have "\<exists>e. a = Inl e" "ns = Nodes m2"
                using 2(1) t folder nodes2 Some by (auto simp: make_temp_def refuse_def)
              ultimately show ?thesis
                using 2(2) assms(2) steady_ok [OF steady2]
                by (auto simp: wp_return intro!: put_failed quiet_steady)
            qed
          qed
          then show ?thesis
            unfolding None option.case dir_place [OF n]
            using steady2 assms(2) by (elim wp_mono) (auto dest: put_after steady_smooth)
        qed
      qed
    qed
  qed
qed

section \<open>Reading and removing\<close>

lemma lstat_wp:
  assumes "ok m" and "n \<in> names"
  shows "wp (disk (Lstat (place rs n))) (\<lambda>r m'. steady m m' \<and> (case r of
      Inl e \<Rightarrow> (absent e \<longrightarrow> content m n = None) \<and> (smooth m \<longrightarrow> absent e)
    | Inr a \<Rightarrow> content m n \<noteq> None \<and> (\<exists>size mode. a = Info Regular size mode))) m"
proof (rule disk_wp, goal_cases)
  case (2 a ns m')
  then show ?case
    using assms tree_place [of m n]
    by (auto simp: content_def held_def node_info_def intro: quiet_steady)
qed (use assms in \<open>auto simp: smooth_def intro: quiet_steady\<close>)

lemma read_file_wp:
  assumes "ok m" and "n \<in> names" and "content m n = Some s"
  shows "wp (disk (ReadFile (place rs n))) (\<lambda>r m'. steady m m' \<and> (case r of
      Inl e \<Rightarrow> \<not> absent e \<and> \<not> smooth m | Inr a \<Rightarrow> a = Data s)) m"
proof (rule disk_wp, goal_cases)
  case (2 a ns m')
  then show ?case
    using assms tree_place [of m n]
    by (auto simp: content_def held_def with_file_def intro: quiet_steady)
qed (use assms in \<open>auto simp: smooth_def intro: quiet_steady\<close>)

lemma removed:
  assumes "ok m" and "n \<in> files" and "later_with m ((Nodes m)(place rs n := None)) m'"
  shows "put n None r m m'"
proof -
  have "changed n m m'"
    using assms(1,2) by (intro changedI [OF assms(3)]) (simp_all add: ok_def smooth_def)
  moreover have "content m' n = None"
    using assms(2) later_with_simps(1) [OF assms(3)] by (simp add: content_def)
  ultimately show ?thesis
    by (simp add: put_def)
qed

lemma unlink_wp:
  assumes "ok m" and "n \<in> names"
  shows "wp (fs_unit disk (RemoveFile (place rs n))) (\<lambda>r m'. put n None r m m' \<and>
    (r = None \<longrightarrow> later_with m ((Nodes m)(place rs n := None)) m') \<and>
    (clear m \<and> Nodes m (place rs n) \<noteq> None \<longrightarrow> r = None)) m"
proof (rule unit_wp, goal_cases)
  case (3 a ns m')
  then show ?case
    using assms removed [OF assms(1)] tree_place [of m n] by (auto split: option.splits node.splits)
qed (use assms tree_place [of m n] in \<open>auto intro!: put_failed quiet_steady split: option.splits node.splits\<close>)

lemma remove_file_wp:
  assumes "ok m" and "n \<in> names"
  shows "wp (remove_file disk (place rs n)) (\<lambda>r m'. put n None r m m' \<and> (smooth m \<longrightarrow> r = None)) m"
  unfolding remove_file_def wp_bind
proof (rule info_disk_wp, goal_cases)
  case (1 f m')
  then show ?case
    using assms by (auto simp: wp_return smooth_def intro!: put_failed quiet_steady)
next
  case (2 m')
  then have "content m n = None"
    by (simp add: content_def held_def)
  then show ?case
    using 2 assms quiet_steady [OF assms(1) 2(2)] by (auto simp: wp_return put_def steady_content intro: steady_changed)
next
  case (3 x k m1)
  have n: "n \<in> files" and ok1: "ok m1" and same: "Nodes m1 = Nodes m" "clear m \<Longrightarrow> clear m1" and steady1: "steady m m1"
    using assms quiet_steady [OF assms(1) 3(2)] steady_ok later_with_simps(1,4) [OF 3(2)] by auto
  from 3(1) tree_place [OF assms(1) n] obtain s a where x: "x = File s a" "Nodes m (abs_path (parts n)) = Some Folder"
    by auto
  have "wp (check (wrapped (''state: remove '' @ place rs n) (fs_unit disk (RemoveFile (place rs n)))) (sync_directory disk (dir (place rs n))))
    (\<lambda>r m'. put n None r m1 m' \<and> (smooth m1 \<longrightarrow> r = None)) m1"
    unfolding wp_check wp_wrapped
  proof (rule wp_mono [OF unlink_wp [OF ok1 assms(2)]], elim conjE, goal_cases)
    case (1 r m2)
    show ?case
    proof (cases r)
      case (Some e)
      then show ?thesis
        using 1 3(1) same(1) by (auto simp: smooth_def put_def)
    next
      case None
      then have m2: "later_with m1 ((Nodes m1)(place rs n := None)) m2"
        using 1 by blast
      have folder: "Nodes m2 (dir (place rs n)) = Some Folder"
        using n x(2) same(1) by (simp add: later_with_simps(1) [OF m2])
      show ?thesis
        unfolding None option.map option.case
      proof (rule wp_mono [OF sync_directory_wp [OF folder]], elim conjE, goal_cases)
        case (1 r' m3)
        then have "later_with m1 ((Nodes m1)(place rs n := None)) m3"
          using later_with_trans [OF m2] later_with_simps(1) [OF m2] by simp
        then show ?case
          using 1 removed [OF ok1 n] later_with_simps(4) [OF m2] by (auto simp: smooth_def)
      qed
    qed
  qed
  then show ?case
    using x(1) steady1 assms(2) by (auto elim!: wp_mono dest: put_after steady_smooth)
qed

section \<open>Parents and locks\<close>

lemma check_components_wp:
  assumes "ok m" and "list_all folder ps"
  shows "wp (check_components disk ps) (\<lambda>r m'. later_with m (Nodes m) m' \<and> (clear m \<longrightarrow> r = None) \<and>
    (\<forall>e. r = Some e \<longrightarrow> \<not> absent e)) m"
  using assms
proof (induction ps arbitrary: m)
  case Nil
  then show ?case
    by (simp add: wp_return)
next
  case (Cons p ps)
  show ?case
    unfolding check_components.simps wp_bind
  proof (rule info_disk_wp, goal_cases)
    case (3 x k m1)
    then have "x = Folder" "ok m1" "Nodes m1 = Nodes m" "clear m \<Longrightarrow> clear m1"
      using Cons.prems tree_folder [of m p] later_with_simps(1,4) [OF 3(2)] by (auto simp: ok_def)
    then show ?case
      using Cons.IH [of m1] Cons.prems 3(2) by (auto elim!: wp_mono intro: later_with_trans)
  qed (auto simp: wp_return)
qed

lemma directory_chain_below:
  assumes "list_all proper xs" and "p \<in> set (below (abs_path xs) es)" and "list_all proper es"
  shows "\<exists>ys. prefix ys es \<and> p = abs_path (xs @ ys)"
  using assms
proof (induction es arbitrary: xs)
  case (Cons e es)
  have e: "join_paths [abs_path xs, e] = abs_path (xs @ [e])"
    using Cons.prems join_paths_below [of xs "[e]"] by simp
  from Cons.prems(2) consider "p = abs_path (xs @ [e])" | "p \<in> set (below (abs_path (xs @ [e])) es)"
    by (auto simp: e Let_def)
  then show ?case
  proof cases
    case 1
    then show ?thesis
      by (intro exI [of _ "[e]"]) simp
  next
    case 2
    then obtain ys where "prefix ys es" "p = abs_path ((xs @ [e]) @ ys)"
      using Cons.IH [of "xs @ [e]"] Cons.prems by auto
    then show ?thesis
      by (intro exI [of _ "e # ys"]) simp
  qed
qed simp

lemma check_parents_wp:
  assumes "ok m" and "n \<in> files"
  shows "wp (check_parents disk (abs_path rs) (place rs n)) (\<lambda>r m'. later_with m (Nodes m) m' \<and>
    (clear m \<longrightarrow> r = None) \<and> (\<forall>e. r = Some e \<longrightarrow> \<not> absent e)) m"
proof -
  let ?es = "butlast (split_on slash n)"
  have es: "list_all proper ?es"
    using proper_split [OF assms(2)] by (auto simp: list_all_iff dest: in_set_butlastD)
  have inside: "folder (abs_path (rs @ ys))" if "prefix ys ?es" for ys
    using assms(2) that by (auto simp: folder_def parts_def intro!: bexI [of _ n] exI [of _ "rs @ ys"])
  obtain r where r: "rel (abs_path rs) (abs_path (rs @ ?es)) = Some r" "\<not> escapes r"
    and chain: "list_all folder (directory_chain (abs_path rs) r)"
  proof (cases "?es = []")
    case True
    then show ?thesis
      using that [of dot] root inside [of "[]"] by (simp add: escapes_def directory_chain_def dot_def dotdot_def)
  next
    case False
    have "list_all folder (directory_chain (abs_path rs) (join [slash] ?es))"
      using False es directory_chain_below [OF root _ es] inside inside [of "[]"] dot_not_proper [OF es False]
      by (auto simp: directory_chain_def list_all_iff split_join_proper)
    then show ?thesis
      using that [of "join [slash] ?es"] root es False escapes_join [OF es, of 0] by simp
  qed
  then show ?thesis
    using check_components_wp [OF assms(1) chain] assms(2)
    by (simp add: check_parents_def check_directory_def parts_def)
qed

lemma parents_wp:
  assumes "ok m" and "n \<in> names"
  shows "wp (check_parents disk (abs_path rs) (place rs n)) (\<lambda>r m'. steady m m' \<and>
    (smooth m \<longrightarrow> r = None) \<and> (\<forall>e. r = Some e \<longrightarrow> \<not> absent e)) m"
  by (rule wp_mono [OF check_parents_wp]) (use assms in \<open>auto simp: smooth_def intro: quiet_steady\<close>)

lemma inspect_lock_wp:
  assumes "ok m" and "n \<in> files"
  shows "wp (inspect_lock disk (place rs n)) (\<lambda>r m'. steady m m' \<and> (clear m \<longrightarrow> r = None) \<and> Nodes m' = Nodes m) m"
  unfolding inspect_lock_def wp_bind wp_return
  by (rule info_disk_wp)
    (use tree_place [OF assms] in \<open>auto intro: quiet_steady [OF assms(1)] later_with_simps(1)\<close>)

text \<open>A lock file that is opened may be new; it is not one of the named files.\<close>

lemma open_lock_wp:
  assumes "ok m" and l: "l \<in> locks" and "Nodes m (abs_path (parts (lock_name l))) = Some Folder"
  shows "wp (fs_unit disk (OpenLock (place rs (lock_name l)))) (\<lambda>r m'. steady m m' \<and> (clear m \<longrightarrow> r = None)) m"
proof (rule unit_wp, goal_cases)
  case (3 a ns m')
  have n: "lock_name l \<in> files" "lock_name l \<notin> names"
    using l unlocked by (auto simp: files_def)
  consider "ns = Nodes m" | "ns = (Nodes m)(place rs (lock_name l) \<mapsto> File [] 384)"
    using 3(1) tree_place [OF assms(1) n(1)] by (auto split: option.splits)
  then show ?case
  proof cases
    case 1
    then show ?thesis
      using 3 quiet_steady [OF assms(1)] by simp
  next
    case 2
    have "changed (lock_name l) m m'"
      by (rule changedI [OF 3(2)]) (use 2 assms(1,3) n in \<open>auto simp: ok_def smooth_def\<close>)
    then have "steady m m'"
      using n(2) by (auto simp: changed_def steady_def)
    then show ?thesis
      by simp
  qed
next
  case (2 e ns m')
  then show ?case
    using tree_place [OF assms(1), of "lock_name l"] l by (auto simp: files_def)
qed (use quiet_steady [OF assms(1)] in auto)

lemma poll_lock_wp:
  assumes "ok m"
  shows "wp (poll_lock disk p n) (\<lambda>r m'. steady m m' \<and> (clear m \<longrightarrow> r = None)) m"
  using assms
proof (induction n arbitrary: m)
  have close: "wp (fs_unit disk (CloseTemp p)) (\<lambda>_ m'. steady m m') m" if "ok m" for m
    by (rule unit_wp) (use quiet_steady [OF that] in auto)
  have closed: "wp (fs_unit disk (CloseTemp p)) (\<lambda>_ m'. steady m m') m1" if "steady m m1" for m m1
    by (rule wp_mono [OF close [OF steady_ok [OF that]]]) (rule steady_trans [OF that])
  {
    case 0
    show ?case
      unfolding poll_lock.simps [of _ _ 0] wp_bind
    proof (rule unit_wp, goal_cases)
      case (1 f m')
      then show ?case
        using closed [OF quiet_steady [OF 0]] by (auto simp: wp_bind wp_return elim!: wp_mono)
    qed (use quiet_steady [OF 0] in \<open>auto simp: wp_return\<close>)
  next
    case (Suc n)
    show ?case
      unfolding poll_lock.simps [of _ _ "Suc n"] wp_bind
    proof (rule unit_wp, goal_cases)
      case (1 f m1)
      then have m1: "steady m m1" "\<not> clear m"
        using quiet_steady [OF Suc.prems] by auto
      have "wp (fs_unit disk AwaitRetry) (\<lambda>ended. wp (case ended of
            Some e \<Rightarrow> fs_unit disk (CloseTemp p) \<bind> (\<lambda>_. State_Monad.return (Some e))
          | None \<Rightarrow> poll_lock disk p n) (\<lambda>r m'. steady m m')) m1"
      proof (rule unit_wp, goal_cases)
        case (1 f m2)
        then have "steady m m2"
          using steady_trans [OF m1(1) quiet_steady [OF steady_ok [OF m1(1)]]] by simp
        then show ?case
          by (simp add: wp_bind wp_return closed)
      next
        case (3 a ns m2)
        then have m2: "steady m m2"
          using steady_trans [OF m1(1) quiet_steady [OF steady_ok [OF m1(1)]]] by auto
        show ?case
          unfolding option.case
          by (rule wp_mono [OF Suc.IH [OF steady_ok [OF m2]]]) (use steady_trans [OF m2] in blast)
      qed simp
      then show ?case
        using m1 closed [OF m1(1)] by (auto simp: wp_bind wp_return elim!: wp_mono)
    qed (use quiet_steady [OF Suc.prems] in \<open>auto simp: wp_return\<close>)
  }
qed

lemma acquire_wp:
  assumes "ok m" and l: "l \<in> locks"
  shows "wp (acquire_lock disk (abs_path rs) l polls) (\<lambda>r m'. steady m m' \<and> (smooth m \<longrightarrow> \<not> isl r)) m"
proof -
  have n: "lock_name l \<in> files"
    using l by (simp add: files_def)
  have p: "store_path (abs_path rs) (lock_name l) = Inr (place rs (lock_name l))"
    using store_path_proper [OF root] named n by (simp add: files_def)
  let ?open = "check (check_parents disk (abs_path rs) (place rs (lock_name l)))
      (check (wrapped ''state: create lock directory'' (fs_unit disk (MkdirAll (dir (place rs (lock_name l))))))
      (check (inspect_lock disk (place rs (lock_name l)))
      (check (wrapped ''state: open lock'' (fs_unit disk (OpenLock (place rs (lock_name l)))))
      (poll_lock disk (place rs (lock_name l)) polls))))"
  let ?made = "\<lambda>m. Nodes m (abs_path (parts (lock_name l))) = Some Folder"
  have "calm ?open (\<lambda>_. True) m"
  proof (rule calm_check [OF calmI [OF check_parents_wp [OF assms(1) n], of "\<lambda>_. True"]], goal_cases)
    case 1
    then show ?case
      using quiet_steady [OF assms(1)] by (auto simp: smooth_def)
  next
    case (2 m1)
    show ?case
    proof (rule calm_check [OF calm_wrapped [OF calmI [where I = ?made, OF make_wp [OF steady_ok [OF 2(1)] n]]]], goal_cases)
      case (2 m2)
      show ?case
      proof (rule calm_check [OF calmI [where I = ?made, OF inspect_lock_wp [OF steady_ok [OF 2(1)] n]]], goal_cases)
        case (2 m3)
        show ?case
        proof (rule calm_check [OF calm_wrapped [OF calmI [where I = "\<lambda>_. True", OF open_lock_wp [OF steady_ok [OF 2(1)] l 2(2)]]]], goal_cases)
          case (2 m4)
          show ?case
            by (rule calmI [OF poll_lock_wp [OF steady_ok [OF 2(1)]]]) (auto simp: smooth_def)
        qed (auto simp: smooth_def)
      qed (use 2 in \<open>auto simp: smooth_def\<close>)
    qed (auto simp: smooth_def)
  qed
  then show ?thesis
    unfolding acquire_lock_def lock_name_def [symmetric] p sum.case wp_bind wp_return calm_def
    by (rule wp_mono) (auto split: option.splits)
qed

lemma release_wp:
  assumes "ok m"
  shows "wp (release_lock disk p) (\<lambda>r m'. steady m m' \<and> (smooth m \<longrightarrow> r = None)) m"
  unfolding release_lock_def wp_bind wp_return
proof (rule unit_wp, goal_cases)
  case (1 f m1)
  then have m1: "steady m m1" "\<not> smooth m"
    using quiet_steady [OF assms] by (auto simp: smooth_def)
  show ?case
    by (rule unit_wp) (use m1 steady_trans [OF m1(1) quiet_steady [OF steady_ok [OF m1(1)]]] in auto)
next
  case (3 a ns m1)
  then have m1: "steady m m1" "smooth m \<Longrightarrow> clear m1"
    using quiet_steady [OF assms] later_with_simps(4) by (auto simp: smooth_def)
  show ?case
    by (rule unit_wp) (use m1 steady_trans [OF m1(1) quiet_steady [OF steady_ok [OF m1(1)]]] in auto)
qed simp

section \<open>The contract holds\<close>

sublocale durable_store names content ok smooth disk rs locks
proof (unfold_locales, goal_cases)
  case (6 m n data mode)
  then show ?case
    by (rule write_file_wp)
next
  case (8 m n)
  then show ?case
    by (rule wp_mono [OF unlink_wp]) (auto simp: smooth_def content_def held_def split: option.splits)
qed (use root named in \<open>auto intro: parents_wp lstat_wp read_file_wp remove_file_wp acquire_wp release_wp\<close>)

end

end
