(* ===== verification/Switch_Safety.thy ===== *)
theory Switch_Safety
  imports Switch_Recovery Lifecycle_Commit State_Machine
begin

text \<open>
  A whole switch: what it leaves in the state directory whatever fails, and that the recovery of the
  next start always ends with the old or with the new selection, mirror included.
\<close>

section \<open>Before the journal\<close>

definition recorded_ok :: "profile_revision option \<Rightarrow> bool" where
  "recorded_ok v \<longleftrightarrow> (case v of None \<Rightarrow> True | Some v \<Rightarrow>
     (AppliedRevision v = [] \<or> valid_revision (AppliedRevision v)) \<and>
     (PendingRevision v = [] \<or> valid_revision (PendingRevision v)))"

lemma recorded_snapshot:
  assumes "recorded_ok (if RevisionExisted t then Some (PreviousRevision t) else None)"
    and "\<not> RevisionExisted t \<Longrightarrow> PreviousRevision t = no_revision" and "RevisionCaptured t"
  shows "validate_revision_snapshot t = None"
  using assms by (auto simp: validate_revision_snapshot_def recorded_ok_def empty_revision_def no_revision_def Let_def)

lemma valid_name_given: "validate_active_profile p = None \<Longrightarrow> ProfileName p \<noteq> []"
  by (auto simp: validate_active_profile_def valid_profile_name_def split: if_splits)

context profile_dir
begin

definition undisturbed :: "('w, 'a) state \<Rightarrow> bool" where
  "undisturbed m \<longleftrightarrow> (\<forall>w. ok w \<longrightarrow> wp m (\<lambda>_ w'. steady w w') w)"

definition equipped :: "'w switcher \<Rightarrow> bool" where
  "equipped sw \<longleftrightarrow> wired sw \<and> SwRevisions sw \<and> (\<forall>core. undisturbed (SwCleanup sw core)) \<and>
     (\<forall>e n p. SwNatives sw e = Some n \<longrightarrow> undisturbed (NativePrepare n p) \<and>
       (\<forall>f revision. NativePublish n = Some f \<longrightarrow> undisturbed (f p revision)))"

lemma equipped_wired: "equipped sw \<Longrightarrow> wired sw" and equipped_revisions: "equipped sw \<Longrightarrow> SwRevisions sw"
  by (simp_all add: equipped_def)

lemma undisturbed_wp: "undisturbed m \<Longrightarrow> ok w \<Longrightarrow> (\<And>a w'. steady w w' \<Longrightarrow> Q a w') \<Longrightarrow> wp m Q w"
  unfolding undisturbed_def by (blast intro: wp_mono)

lemma cleanup_undisturbed: "equipped sw \<Longrightarrow> undisturbed (SwCleanup sw core)"
  by (simp add: equipped_def)

lemma clock_undisturbed: "equipped sw \<Longrightarrow> undisturbed (SwNow sw)"
  by (simp add: equipped_def wired_def undisturbed_def)

lemma prepare_undisturbed:
  assumes "equipped sw"
  shows "undisturbed (prepare_profile sw p)"
proof -
  have "wp (prepare_profile sw p) (\<lambda>_ w'. steady w w') w" if w: "ok w" for w
  proof (cases "SwNatives sw (ProfileEngine (with_engine p))")
    case None
    then show ?thesis
      using w by (simp add: prepare_profile_def Let_def wp_return)
  next
    case (Some n)
    have "undisturbed (NativePrepare n (with_engine p))"
      using assms Some by (auto simp: equipped_def)
    then show ?thesis
      unfolding prepare_profile_def Let_def Some option.case wp_attempt
    proof (rule undisturbed_wp [OF _ w], goal_cases)
      case (1 answer w1)
      then show ?case
        using undisturbed_wp [OF cleanup_undisturbed [OF assms] steady_ok [OF 1]] steady_trans [OF 1]
        by (auto simp: wp_return wp_bind split: sum.split)
    qed
  qed
  then show ?thesis
    by (simp add: undisturbed_def)
qed

lemma publish_undisturbed:
  assumes "equipped sw"
  shows "undisturbed (publish_profile_state sw p revision)"
proof -
  have "undisturbed (State_Monad.return x)" for x :: "gerror option"
    by (simp add: undisturbed_def wp_return)
  then show ?thesis
    using assms unfolding publish_profile_state_def Let_def equipped_def by (auto split: option.split)
qed

text \<open>What a transition has captured of the state \<open>w\<close> before the switch.\<close>

definition captures ::
  "app_json \<Rightarrow> 'w \<Rightarrow> active_profile option \<Rightarrow> active_profile \<Rightarrow> transition \<Rightarrow> bool" where
  "captures js w old target t \<longleftrightarrow> sound js t \<and> Phase t = ''prepared'' \<and> NewProfile t = target \<and> OldProfile t = old \<and>
     mirrored (PreviousMirror t) = content w (mirror_file target) \<and> RevisionCaptured t \<and>
     (\<exists>x. registered js w = Inr x \<and>
       Items x (profile_id target) = (if RevisionExisted t then Some (PreviousRevision t) else None))"

lemma capture_mirror_wp:
  assumes sw: "wired sw" and w: "ok w" and p: "validate_active_profile p = None"
    and "\<And>r w'. steady w w' \<Longrightarrow> (\<And>s. r = Inr s \<Longrightarrow> mirrored s = content w (mirror_file p) \<and>
      validate_mirror_snapshot (SwJson sw) s = None) \<Longrightarrow> Q r w'"
  shows "wp (capture_target_mirror sw p) Q w"
  unfolding capture_target_mirror_def mirror_name_eq [OF sw p] sum.case wired_simps [OF sw] wp_bind wp_return
proof (rule store_read_wp [OF w fixed_files(2)], goal_cases)
  case (1 r w')
  have "valid_revision (ContentDigest (SwJson sw) c)" for c
    using wired_codings [OF sw] by (simp add: codings_def)
  then show ?case
    using 1 by (intro assms(4))
      (auto simp: got_def no_mirror_def mirrored_def validate_mirror_snapshot_def mirror_snapshot_ok_def
        split: sum.splits if_splits)
qed

lemma captured_revision_wp:
  assumes sw: "wired sw" "SwRevisions sw" and w: "ok w"
    and "\<And>r w'. steady w w' \<Longrightarrow> (\<And>captured v existed. r = Inr (captured, v, existed) \<Longrightarrow> captured \<and>
      (\<exists>x. registered (SwJson sw) w = Inr x \<and> Items x (profile_id p) = (if existed then Some v else None) \<and>
        (\<not> existed \<longrightarrow> v = no_revision))) \<Longrightarrow> Q r w'"
  shows "wp (captured_revision sw p) Q w"
  unfolding captured_revision_def snapshot_revision_def wp_bind
proof (simp add: sw(2) wp_bind wp_return, rule load_registry_wp [OF sw(1) w], goal_cases)
  case (1 r w')
  then show ?case
    by (intro assms(4)) (cases r; auto split: option.splits)+
qed

lemma previous_revision_wp:
  assumes sw: "wired sw" and w: "ok w" and old: "\<And>p. old = Some p \<Longrightarrow> checked_profile p = Inr p"
    and "\<And>r w'. steady w w' \<Longrightarrow> (\<And>s. r = Inr s \<Longrightarrow> s = [] \<or> valid_revision s) \<Longrightarrow> Q r w'"
  shows "wp (previous_revision sw snap old) Q w"
proof (cases old)
  case None
  then show ?thesis
    using w assms(4) [of w "Inr []"] by (simp add: previous_revision_def wp_return)
next
  case (Some p)
  have "wp (get_profile fs lay p) (\<lambda>content. Q (map_sum (Wrap ''read previous profile revision'') (ContentDigest (SwJson sw)) content)) w"
    by (rule get_profile_wp [OF w old [OF Some]], rule assms(4))
      (use wired_codings [OF sw] in \<open>auto simp: codings_def map_sum_def split: sum.splits\<close>)
  then show ?thesis
    using w assms(4) [of w "Inr (SourceRevision (Prepared snap))"]
    by (auto simp: Some previous_revision_def wp_return wp_bind wired_simps [OF sw])
qed

lemma plan_transition_wp:
  assumes sw: "equipped sw" and w: "ok w" and target: "validate_active_profile target = None"
    and old: "\<And>p. old = Some p \<Longrightarrow> checked_profile p = Inr p" and revision: "valid_revision (SourceRevision core)"
    and recorded: "\<And>x. registered (SwJson sw) w = Inr x \<Longrightarrow> recorded_ok (Items x (profile_id target))"
  shows "wp (plan_transition sw snap old target core) (\<lambda>r w'. steady w w' \<and>
    (\<forall>t. r = Inr t \<longrightarrow> captures (SwJson sw) w old target t)) w"
  unfolding plan_transition_def wp_bind
proof (rule capture_mirror_wp [OF equipped_wired [OF sw] w target], goal_cases)
  case (1 mirror w1)
  note steady1 = 1(1)
  show ?case
  proof (cases mirror)
    case (Inl e)
    then show ?thesis
      using steady1 by (simp add: wp_return)
  next
    case mirror: (Inr s)
    show ?thesis
      unfolding mirror sum.case wp_bind
    proof (rule undisturbed_wp [OF clock_undisturbed [OF sw] steady_ok [OF steady1]], goal_cases)
      case (1 now w2)
      have steady2: "steady w w2"
        by (rule steady_trans [OF steady1 1])
      show ?case
        unfolding wp_attempt
      proof (rule captured_revision_wp [OF equipped_wired [OF sw] equipped_revisions [OF sw] steady_ok [OF steady2]], goal_cases)
        case (1 answer w3)
        note answer = 1(2)
        have steady3: "steady w w3"
          by (rule steady_trans [OF steady2 1(1)])
        have same: "registered (SwJson sw) w2 = registered (SwJson sw) w"
          by (rule same_registered) (simp add: steady_content [OF steady2])
        show ?case
        proof (cases answer)
          case (Inl e)
          then show ?thesis
            using steady3 by simp
        next
          case answer_is: (Inr a)
          obtain captured v existed where a: "a = (captured, v, existed)"
            by (cases a)
          show ?thesis
            unfolding answer_is a sum.case prod.case wp_attempt
          proof (rule previous_revision_wp [OF equipped_wired [OF sw] steady_ok [OF steady3] old], goal_cases)
            case 1
            then show ?case .
          next
            case (2 r w4)
            have steady4: "steady w w4"
              by (rule steady_trans [OF steady3 2(1)])
            obtain x where x: "captured" "registered (SwJson sw) w = Inr x"
              "Items x (profile_id target) = (if existed then Some v else None)" "\<not> existed \<longrightarrow> v = no_revision"
              using answer answer_is a same by auto
            show ?case
            proof (cases r)
              case (Inl e)
              then show ?thesis
                using steady4 by simp
            next
              case (Inr old_revision)
              have snapshot: "mirrored s = content w (mirror_file target)" "validate_mirror_snapshot (SwJson sw) s = None"
                using \<open>\<And>s. mirror = Inr s \<Longrightarrow> _ s\<close> mirror by auto
              have "\<forall>p. old = Some p \<longrightarrow> validate_active_profile p = None"
                using checked_profileD(1) [OF old] by blast
              moreover have "recorded_ok (if existed then Some v else None)"
                using recorded [OF x(2)] x(3) by simp
              ultimately show ?thesis
                using steady4 2(2) [OF Inr] snapshot x target revision valid_name_given [OF target]
                by (cases existed)
                  (auto simp: Inr wp_return captures_def sound_def transition_ok_def intro!: recorded_snapshot)
            qed
          qed
        qed
      qed
    qed
  qed
qed

text \<open>Preparation: nothing but the journal is written, and the journal captures the state.\<close>

definition journalled ::
  "app_json \<Rightarrow> 'w \<Rightarrow> active_profile option \<Rightarrow> active_profile \<Rightarrow> transition \<Rightarrow> 'w \<Rightarrow> bool" where
  "journalled js w old target t w' \<longleftrightarrow> same_but {journal_path} w w' \<and> captures js w old target t \<and> logged js t w'"

lemma prepare_switch_wp:
  assumes sw: "equipped sw" and w: "ok w" and target: "validate_active_profile target = None"
    and old: "\<And>p. old = Some p \<Longrightarrow> checked_profile p = Inr p"
    and recorded: "\<And>x. registered (SwJson sw) w = Inr x \<Longrightarrow> recorded_ok (Items x (profile_id target))"
  shows "wp (prepare_switch sw snap old target) (\<lambda>r w'. case r of
      Inl e \<Rightarrow> steady w w' \<or> (\<exists>t. journalled (SwJson sw) w old target t w')
    | Inr (core, t) \<Rightarrow> journalled (SwJson sw) w old target t w') w"
  unfolding prepare_switch_def wp_bind
proof (rule undisturbed_wp [OF prepare_undisturbed [OF sw] w], goal_cases)
  case (1 prepared w1)
  note steady1 = 1
  show ?case
  proof (cases prepared)
    case (Inl e)
    then show ?thesis
      using steady1 by (simp add: wp_return)
  next
    case (Inr core)
    let ?plan = "if \<not> valid_revision (SourceRevision core)
           then State_Monad.return (Inl (Err ''preflight target profile did not report a valid source revision''))
           else attempt (plan_transition sw snap old target core) (\<lambda>t. do {
             failed \<leftarrow> save_transition sw t;
             State_Monad.return (case failed of Some e \<Rightarrow> Inl e | None \<Rightarrow> Inr (core, t)) })"
    let ?post = "\<lambda>r w'. case r of
        Inl e \<Rightarrow> steady w w' \<or> (\<exists>t. journalled (SwJson sw) w old target t w')
      | Inr (core, t) \<Rightarrow> journalled (SwJson sw) w old target t w'"
    have journalled_later: "journalled (SwJson sw) w old target t w3"
      if "journalled (SwJson sw) w old target t w2" "steady w2 w3" for t w2 w3
      using that same_but_before [OF _ that(2)] steady_content [OF that(2)] by (auto simp: journalled_def logged_def)
    have "wp ?plan ?post w1"
    proof (cases "valid_revision (SourceRevision core)")
      case False
      then show ?thesis
        using steady1 by (simp add: wp_return)
    next
      case revision: True
      have same: "registered (SwJson sw) w1 = registered (SwJson sw) w"
        by (rule same_registered) (simp add: steady_content [OF steady1])
      have early: "captures (SwJson sw) w1 old target t \<Longrightarrow> captures (SwJson sw) w old target t" for t
        by (simp add: captures_def same steady_content [OF steady1])
      have plan: "wp (plan_transition sw snap old target core) (\<lambda>r w2. steady w1 w2 \<and>
          (\<forall>t. r = Inr t \<longrightarrow> captures (SwJson sw) w1 old target t)) w1"
        by (rule plan_transition_wp [OF sw steady_ok [OF steady1] target old revision])
          (use recorded same in simp_all)
      have "wp (attempt (plan_transition sw snap old target core) (\<lambda>t. do {
             failed \<leftarrow> save_transition sw t;
             State_Monad.return (case failed of Some e \<Rightarrow> Inl e | None \<Rightarrow> Inr (core, t)) })) ?post w1"
        unfolding wp_attempt
      proof (rule wp_mono [OF plan], elim conjE, goal_cases)
        case (1 r w2)
        have steady2: "steady w w2"
          by (rule steady_trans [OF steady1 1(1)])
        show ?case
        proof (cases r)
          case (Inl e)
          then show ?thesis
            using steady2 by simp
        next
          case (Inr t)
          then have t: "captures (SwJson sw) w old target t"
            using 1(2) early by blast
          show ?thesis
            unfolding Inr sum.case wp_bind wp_return
          proof (rule save_transition_wp [OF equipped_wired [OF sw] steady_ok [OF steady2]], goal_cases)
            case 1
            show ?case
              using t by (simp add: captures_def)
          next
            case (2 failed w3)
            have "put journal_path (Some (journal_text (SwJson sw) t)) failed w w3"
              by (rule put_after [OF steady2 2(1)]) simp
            then show ?case
              using t put_same [of journal_path _ failed w w3 "{journal_path}"]
              by (cases failed) (auto simp: journalled_def logged_def put_def intro: changed_steady)
          qed
        qed
      qed
      then show ?thesis
        using revision by simp
    qed
    then show ?thesis
      unfolding Inr sum.case wp_bind
    proof (rule wp_mono, goal_cases)
      case (1 planned w2)
      show ?case
      proof (cases planned)
        case (Inl e)
        have "ok w2"
          using 1 Inl by (auto simp: journalled_def dest: steady_ok same_but_ok)
        then show ?thesis
          unfolding Inl sum.case
        proof (rule undisturbed_wp [OF cleanup_undisturbed [OF sw]], goal_cases)
          case (1 u w3)
          have "steady w w3 \<or> (\<exists>t. journalled (SwJson sw) w old target t w3)"
            using \<open>?post planned w2\<close> Inl steady_trans [OF _ 1] journalled_later [OF _ 1] by auto
          then show ?case
            by (simp add: wp_return)
        qed
      next
        case (Inr a)
        then show ?thesis
          using 1 by (simp add: wp_return)
      qed
    qed
  qed
qed

section \<open>The switch\<close>

text \<open>The lifecycle leaves the state directory alone, but for the registry of revisions.\<close>

definition idle :: "app_json \<Rightarrow> 'w \<Rightarrow> 'w \<Rightarrow> bool" where
  "idle js w w' \<longleftrightarrow> (ok w \<longrightarrow> same_but {revisions_path} w w' \<and> (readable js w \<longrightarrow> readable js w'))"

definition quiet :: "app_json \<Rightarrow> 'w lifecycle_deps \<Rightarrow> bool" where
  "quiet js d \<longleftrightarrow> call_relation d (idle js) \<and>
     (\<forall>g p s. ld_guard d = Some g \<longrightarrow> world_within (idle js) (rg_begin g p s))"

definition in_flight ::
  "app_json \<Rightarrow> 'w \<Rightarrow> active_profile option \<Rightarrow> active_profile \<Rightarrow> transition \<Rightarrow> 'w \<Rightarrow> bool" where
  "in_flight js w0 old target t w \<longleftrightarrow> readable js w \<and> same_but {journal_path, revisions_path} w0 w \<and>
     captures js w0 old target t \<and> logged js t w"

definition decided ::
  "app_json \<Rightarrow> 'w \<Rightarrow> active_profile option \<Rightarrow> active_profile \<Rightarrow> transition \<Rightarrow> gerror option \<Rightarrow> 'w \<Rightarrow> bool" where
  "decided js w0 old target t r w \<longleftrightarrow> readable js w \<and> same_but ledger w0 w \<and> captures js w0 old target t \<and>
     (\<exists>t'. family t t' \<and> logged js t' w \<and> (r = None \<longrightarrow> Phase t' = ''committed'' \<and> stands_new js target w))"

definition switched ::
  "app_json \<Rightarrow> 'w \<Rightarrow> active_profile option \<Rightarrow> active_profile \<Rightarrow> gerror option \<Rightarrow> 'w \<Rightarrow> bool" where
  "switched js w0 old target r w \<longleftrightarrow> readable js w \<and> same_but ledger w0 w \<and>
     (steady w0 w \<and> r \<noteq> None \<or>
      (\<exists>t t'. captures js w0 old target t \<and> family t t' \<and> logged js t' w \<and> r \<noteq> None) \<or>
      content w journal_path = None \<and> stands_new js target w)"

lemma new_kept:
  assumes "\<And>k. k \<in> state_files \<Longrightarrow> k \<noteq> journal_path \<Longrightarrow> k \<noteq> revisions_path \<Longrightarrow> content w' k = content w k"
    and "validate_active_profile p = None"
  shows "stands_new js p w' \<longleftrightarrow> stands_new js p w"
  using assms(2) by (simp add: stands_new_def selected_def assms(1))

lemma captures_valid: "captures js w0 old target t \<Longrightarrow> validate_active_profile target = None"
  by (auto simp: captures_def sound_def)

lemma in_flight_idle:
  assumes "in_flight js w0 old target t w" and "idle js w w'"
  shows "in_flight js w0 old target t w'"
proof -
  have same: "same_but {revisions_path} w w'" "readable js w \<longrightarrow> readable js w'"
    using assms same_but_ok by (auto simp: in_flight_def idle_def)
  have "same_but {journal_path, revisions_path} w0 w'"
    by (rule same_but_trans [OF _ same(1)]) (use assms(1) in \<open>auto simp: in_flight_def\<close>)
  then show ?thesis
    using assms(1) same same_but_content [OF same(1)] by (auto simp: in_flight_def logged_def)
qed

lemma decided_idle:
  assumes "decided js w0 old target t r w" and "idle js w w'"
  shows "decided js w0 old target t r w'"
proof -
  have same: "same_but {revisions_path} w w'" "readable js w \<longrightarrow> readable js w'"
    using assms same_but_ok by (auto simp: decided_def idle_def)
  have "same_but ledger w0 w'"
    by (rule same_but_trans [OF _ same(1)]) (use assms(1) in \<open>auto simp: decided_def\<close>)
  moreover have "stands_new js target w' \<longleftrightarrow> stands_new js target w"
    by (rule new_kept) (use same_but_content [OF same(1)] captures_valid assms(1) in \<open>auto simp: decided_def\<close>)
  ultimately show ?thesis
    using assms(1) same same_but_content [OF same(1)] by (auto simp: decided_def logged_def)
qed

lemma commit_decides:
  assumes sw: "equipped sw" and w: "in_flight (SwJson sw) w0 old target t w"
  shows "wp (commit_switch sw t) (\<lambda>r w'. decided (SwJson sw) w0 old target t r w') w"
proof (rule wp_mono [OF commit_switch_wp [OF equipped_wired [OF sw] equipped_revisions [OF sw]]], goal_cases)
  case 1
  then show ?case
    using w same_but_ok by (auto simp: in_flight_def)
next
  case 2
  then show ?case
    using w by (auto simp: in_flight_def captures_def)
next
  case 3
  then show ?case
    using w by (auto simp: in_flight_def)
next
  case (4 r w')
  have "same_but ledger w0 w'"
    by (rule same_but_trans [of "{journal_path, revisions_path}" w0 w ledger])
      (use w 4 in \<open>auto simp: in_flight_def commit_outcome_def\<close>)
  then show ?case
    using 4 w by (auto simp: decided_def commit_outcome_def in_flight_def captures_def)
qed

lemma finish_wp:
  assumes sw: "equipped sw" and w: "decided (SwJson sw) w0 old target t None w"
  shows "wp (publish_and_finish sw msg t) (\<lambda>r w'. switched (SwJson sw) w0 old target r w') w"
proof -
  obtain t' where t': "captures (SwJson sw) w0 old target t" "family t t'" "logged (SwJson sw) t' w"
    "stands_new (SwJson sw) target w" "same_but ledger w0 w" "readable (SwJson sw) w"
    using w by (auto simp: decided_def)
  have ok: "ok w"
    by (rule same_but_ok [OF t'(5)])
  show ?thesis
    unfolding publish_and_finish_def wp_check wp_wrapped
  proof (rule undisturbed_wp [OF publish_undisturbed [OF sw] ok], goal_cases)
    case (1 published w1)
    have same1: "same_but ledger w0 w1" and j1: "logged (SwJson sw) t' w1" and read1: "readable (SwJson sw) w1"
      and new1: "stands_new (SwJson sw) target w1"
      using same_but_before [OF t'(5) 1] t' steady_content [OF 1] same_registered [of w1 w] new_kept [of w1 w target]
        captures_valid
      by (auto simp: logged_def readable_def)
    show ?case
    proof (cases published)
      case (Some e)
      then show ?thesis
        using same1 j1 read1 t'(1,2) by (auto simp: switched_def)
    next
      case None
      show ?thesis
        unfolding None option.map option.case remove_journal_def wired_simps [OF equipped_wired [OF sw]]
      proof (rule remove_regular_wp [OF steady_ok [OF 1] fixed_files(3)], goal_cases)
        case (1 r w2)
        have "same_but ledger w0 w2" "readable (SwJson sw) w2" "stands_new (SwJson sw) target w2"
          using same_but_put [OF same1 1(1)] put_other [OF 1(1)] read1 same_registered [of w2 w1] new1
            new_kept [of w2 w1 target] captures_valid [OF t'(1)]
          by (auto simp: readable_def)
        then show ?case
          using 1 t'(1,2) j1 by (auto simp: switched_def put_def logged_def)
      qed
    qed
  qed
qed

lemma commits_within:
  assumes "equipped sw" and "quiet (SwJson sw) d"
  shows "commit_relation d (idle (SwJson sw)) (in_flight (SwJson sw) w0 old target t)
    (decided (SwJson sw) w0 old target t) (commit_switch sw t)"
  using assms commit_decides in_flight_idle decided_idle
  by (auto simp: commit_relation_def commit_relation_axioms_def quiet_def)

lemma decided_switched: "decided js w0 old target t r w \<Longrightarrow> switched js w0 old target (Some e) w"
  unfolding decided_def switched_def by blast

lemma switch_to_wp:
  assumes sw: "equipped sw" and d: "quiet (SwJson sw) d" and w: "ok (lc_world l)" "readable (SwJson sw) (lc_world l)"
    and target: "validate_active_profile target = None"
    and old: "\<And>p. old = Some p \<Longrightarrow> checked_profile p = Inr p"
    and recorded: "\<And>x. registered (SwJson sw) (lc_world l) = Inr x \<Longrightarrow> recorded_ok (Items x (profile_id target))"
  shows "wp (switch_to d sw ctx old target confirmed) (\<lambda>r l'. switched (SwJson sw) (lc_world l) old target r (lc_world l')) l"
proof -
  let ?js = "SwJson sw" and ?w0 = "lc_world l"
  have unchanged: "switched ?js ?w0 old target (Some e) w'" if "steady ?w0 w'" for e w'
    using that w(2) steady_content [OF that] same_registered [of w' ?w0]
    by (auto simp: switched_def readable_def intro: steady_same)
  have flying: "in_flight ?js ?w0 old target t w'" if "journalled ?js ?w0 old target t w'" for t w'
  proof -
    have "same_but {journal_path, revisions_path} ?w0 w'"
      using that by (auto simp: journalled_def same_but_def)
    moreover have "readable ?js w'"
      using that w(2) same_registered [of w' ?w0] same_but_content [of "{journal_path}" ?w0 w']
      by (auto simp: journalled_def readable_def)
    ultimately show ?thesis
      using that by (simp add: in_flight_def journalled_def)
  qed
  have failed: "switched ?js ?w0 old target (Some e) w'" if "in_flight ?js ?w0 old target t w'" for e t w'
  proof -
    have "same_but ledger ?w0 w'"
      using that by (auto simp: in_flight_def same_but_def ledger_def)
    moreover have "family t t"
      by (simp add: family_def)
    ultimately show ?thesis
      using that unfolding switched_def in_flight_def by blast
  qed
  show ?thesis
  proof (cases "SnapState (lc_snap l) = LRunning \<and> \<not> confirmed")
    case True
    then show ?thesis
      using unchanged [of ?w0] w(1) by (simp add: switch_to_def wp_simps)
  next
    case False
    have "wp (in_world (prepare_switch sw (lc_snap l) old target)) (\<lambda>r l1. case r of
        Inl e \<Rightarrow> steady ?w0 (lc_world l1) \<or> (\<exists>t. journalled ?js ?w0 old target t (lc_world l1))
      | Inr (core, t) \<Rightarrow> journalled ?js ?w0 old target t (lc_world l1)) l"
      unfolding wp_in_world
      by (rule wp_mono [OF prepare_switch_wp [OF sw w(1) target old recorded]]) (auto split: sum.splits)
    then have "wp (do {
       planned \<leftarrow> in_world (prepare_switch sw (lc_snap l) old target);
       case planned of
         Inl e \<Rightarrow> State_Monad.return (Some e)
       | Inr (core, t) \<Rightarrow> do {
           (_, failed) \<leftarrow> switch_prepared d ctx core (Some (commit_switch sw t));
           case failed of
             Some e \<Rightarrow> State_Monad.return (Some e)
           | None \<Rightarrow> in_world (publish_and_finish sw
               ''profile selection committed but shared state publication failed'' t) } })
      (\<lambda>r l'. switched ?js ?w0 old target r (lc_world l')) l"
      unfolding wp_bind
    proof (rule wp_mono, goal_cases)
      case (1 planned l1)
      show ?case
      proof (cases planned)
        case (Inl e)
        then show ?thesis
          using 1 unchanged failed [OF flying] by (auto simp: wp_return)
      next
        case (Inr a)
        obtain core t where a: "a = (core, t)"
          by (cases a)
        have fly: "in_flight ?js ?w0 old target t (lc_world l1)"
          using 1 Inr a flying by simp
        have "wp (switch_prepared d ctx core (Some (commit_switch sw t)))
          (\<lambda>(_, e) l'. committed (in_flight ?js ?w0 old target t) (decided ?js ?w0 old target t) e l') l1"
          by (rule commit_relation.switch_prepared_commits [OF commits_within [OF sw d] fly])
        then show ?thesis
          unfolding Inr a sum.case prod.case wp_bind
        proof (rule wp_mono, clarify, goal_cases)
          case (1 b e l2)
          show ?case
          proof (cases e)
            case (Some err)
            then show ?thesis
              using 1 failed decided_switched by (auto simp: committed_def wp_return)
          next
            case None
            then have "decided ?js ?w0 old target t None (lc_world l2)"
              using 1 by (auto simp: committed_def)
            from finish_wp [OF sw this] None show ?thesis
              by (simp add: wp_in_world)
          qed
        qed
      qed
    qed
    then show ?thesis
      unfolding switch_to_def by (simp only: wp_bind wp_snapshot if_not_P [OF False])
  qed
qed

text \<open>What is selected when nothing is inspected twice.\<close>

lemma current_profile_wp:
  assumes "ok w" and "\<And>r w'. steady w w' \<Longrightarrow> (\<And>p. r = Inr p \<Longrightarrow> selected js w = Some p \<and> checked_profile p = Inr p) \<Longrightarrow>
      (\<And>e. r = Inl e \<Longrightarrow> absent e \<Longrightarrow> selected js w = None) \<Longrightarrow> Q r w'"
  shows "wp (current_profile fs js lay) Q w"
  unfolding current_profile_def layout_facts option.case load_active_profile_def wp_bind wp_return
proof (rule store_read_wp [OF assms(1) fixed_files(1)], goal_cases)
  case (1 r w')
  have "checked_profile p = Inr p" if "parse_active_profile js d = Inr p" for d p
    using that checked_profileD(3)
    by (auto simp: parse_active_profile_def Let_def split: if_splits sum.splits prod.splits)
  then show ?case
    using 1 by (intro assms(2)) (auto simp: got_def selected_def split: sum.splits option.splits)
qed

lemma switched_after:
  assumes steady: "steady w0 w1" and s: "switched js w1 old target r w" and target: "validate_active_profile target = None"
  shows "switched js w0 old target r w"
proof -
  have "captures js w0 old target t" if "captures js w1 old target t" for t
    using that target same_registered [of w1 w0] by (simp add: captures_def steady_content [OF steady])
  moreover have "same_but ledger w0 w"
    by (rule same_but_trans [OF steady_same [OF steady, of "{}"], of ledger]) (use s in \<open>auto simp: switched_def\<close>)
  ultimately show ?thesis
    using s steady_trans [OF steady] unfolding switched_def by blast
qed

lemma switch_wp:
  assumes sw: "equipped sw" and d: "quiet (SwJson sw) d" and w: "ok (lc_world l)" "readable (SwJson sw) (lc_world l)"
    and target: "validate_active_profile target = None" and other: "selected (SwJson sw) (lc_world l) \<noteq> Some target"
    and recorded: "\<And>x. registered (SwJson sw) (lc_world l) = Inr x \<Longrightarrow> recorded_ok (Items x (profile_id target))"
  shows "wp (switch d sw ctx target confirmed) (\<lambda>r l'.
    switched (SwJson sw) (lc_world l) (selected (SwJson sw) (lc_world l)) target r (lc_world l')) l"
  unfolding switch_def wp_bind wp_in_world
proof (simp add: wired_simps [OF equipped_wired [OF sw]], rule current_profile_wp [where js = "SwJson sw", OF w(1)], goal_cases)
  case (1 r w1)
  note steady1 = 1(1)
  let ?l = "l\<lparr>lc_world := w1\<rparr>"
  have same: "registered (SwJson sw) w1 = registered (SwJson sw) (lc_world l)"
    by (rule same_registered) (simp add: steady_content [OF steady1])
  have go: "wp (switch_to d sw ctx old target confirmed) (\<lambda>r l'. switched (SwJson sw) (lc_world l) old target r (lc_world l')) ?l"
    if "\<And>p. old = Some p \<Longrightarrow> checked_profile p = Inr p" for old
  proof (rule wp_mono [OF switch_to_wp [OF sw d _ _ target that]], goal_cases)
    case (5 r l')
    then show ?case
      by (simp add: switched_after [OF steady1 _ target])
  qed (use steady_ok [OF steady1] w(2) recorded same in \<open>auto simp: readable_def\<close>)
  show ?case
  proof (cases r)
    case (Inl e)
    have "switched (SwJson sw) (lc_world l) old target (Some e) w1" for old
      using steady1 w(2) same by (auto simp: switched_def readable_def intro: steady_same)
    then show ?thesis
      using Inl 1(3) go [of None] by (auto simp: wp_return)
  next
    case (Inr p)
    then have "selected (SwJson sw) (lc_world l) = Some p" "checked_profile p = Inr p"
      using 1(2) by auto
    then show ?thesis
      using Inr other go [of "Some p"] by auto
  qed
qed

text \<open>
  The next start. Whatever failed, and whenever, the selection is the target's with its mirror, or
  what it was, with the target's mirror and revision as they were.
\<close>

definition stands_as_before :: "app_json \<Rightarrow> 'w \<Rightarrow> active_profile \<Rightarrow> 'w \<Rightarrow> bool" where
  "stands_as_before js w0 target w \<longleftrightarrow> selected js w = selected js w0 \<and>
     content w (mirror_file target) = content w0 (mirror_file target) \<and>
     (\<exists>x0 x. registered js w0 = Inr x0 \<and> registered js w = Inr x \<and>
        Items x (profile_id target) = Items x0 (profile_id target))"

lemma nothing_to_recover:
  assumes sw: "equipped sw" and w: "ok w" "smooth w" "content w journal_path = None"
  shows "wp (recover_selection sw) (\<lambda>r w'. r = None \<and> steady w w') w"
proof -
  have "wp (load_transition sw) (\<lambda>loaded w'. steady w w' \<and> (\<exists>e. loaded = Inl e \<and> absent e)) w"
    unfolding load_transition_def wired_simps [OF equipped_wired [OF sw]] wp_bind wp_return
    by (rule store_read_wp [OF w(1) fixed_files(3)]) (use w in \<open>auto simp: got_def split: sum.splits\<close>)
  then show ?thesis
    unfolding recover_selection_def wp_bind by (rule wp_mono) (auto simp: wp_return)
qed

lemma recovered:
  assumes sw: "equipped sw" and w0: "content w0 journal_path = None" "readable (SwJson sw) w0"
    and old: "\<And>p. selected (SwJson sw) w0 = Some p \<Longrightarrow> content w0 (profile_file p) \<noteq> None"
    and target: "validate_active_profile target = None" and there: "content w0 (profile_file target) \<noteq> None"
    and switched: "switched (SwJson sw) w0 (selected (SwJson sw) w0) target r w"
    and restart: "ok w2" "smooth w2" "\<And>k. k \<in> state_files \<Longrightarrow> content w2 k = content w k"
  shows "wp (recover_selection sw) (\<lambda>r' w3. r' = None \<and>
    (stands_new (SwJson sw) target w3 \<or> r \<noteq> None \<and> stands_as_before (SwJson sw) w0 target w3)) w2"
proof -
  let ?js = "SwJson sw"
  have same: "same_but ledger w0 w" and readable2: "readable ?js w2"
    using switched restart(3) same_registered [of w2 w] by (auto simp: switched_def readable_def)
  have profile: "content w2 (profile_file p) = content w0 (profile_file p)" if "validate_active_profile p = None" for p
    using restart(3) same_but_content [OF same] that by simp
  consider (before) "steady w0 w" "r \<noteq> None" | (journal) t t' where "captures ?js w0 (selected ?js w0) target t" "family t t'" "logged ?js t' w" "r \<noteq> None"
    | (new) "content w journal_path = None" "stands_new ?js target w"
    using switched unfolding switched_def by metis
  then show ?thesis
  proof cases
    case journal
    have t': "sound ?js t'" "logged ?js t' w2"
      using journal restart(3) family_sound by (auto simp: captures_def logged_def)
    note facts = family_facts [OF journal(2)]
    have "selected ?js w0 = Some p \<Longrightarrow> validate_active_profile p = None" for p
      using journal(1) by (auto simp: captures_def sound_def)
    then have "restorable ?js t' w2"
      using readable2 old profile journal(1) facts by (auto simp: restorable_def captures_def)
    moreover have "content w2 (profile_file (NewProfile t')) \<noteq> None"
      using there profile [OF target] journal(1) facts by (simp add: captures_def)
    ultimately have "wp (recover_selection sw) (\<lambda>r w'. r = None \<and> same_but touched w2 w' \<and>
        (if Phase t' = ''committed'' then stands_new ?js (NewProfile t') w' else stands_old ?js t' w')) w2"
      by (intro recover_selection_wp [OF equipped_wired [OF sw] equipped_revisions [OF sw] restart(1,2) t'])
    moreover have "stands_as_before ?js w0 target w3" if "stands_old ?js t' w3" for w3
      using that journal(1) facts
      by (auto simp: stands_old_def stands_as_before_def captures_def revision_restored_def selected_def split: option.splits)
    ultimately show ?thesis
      using journal(1,4) facts by (auto simp: captures_def elim!: wp_mono split: if_splits)
  next
    case before
    then have "content w2 k = content w0 k" if "k \<in> state_files" for k
      using that restart(3) steady_content by simp
    then have "stands_as_before ?js w0 target w2" and "content w2 journal_path = None"
      using w0 same_registered [of w2 w0] by (auto simp: stands_as_before_def selected_def readable_def)
    then have "wp (recover_selection sw) (\<lambda>r' w3. r' = None \<and> steady w2 w3) w2"
      by (intro nothing_to_recover sw restart)
    moreover have "stands_as_before ?js w0 target w3" if "steady w2 w3" for w3
      using \<open>stands_as_before ?js w0 target w2\<close> steady_content [OF that] same_registered [of w3 w2]
      by (simp add: stands_as_before_def selected_def)
    ultimately show ?thesis
      using before(2) by (auto elim: wp_mono)
  next
    case new
    then have "stands_new ?js target w2" and "content w2 journal_path = None"
      using restart(3) new_kept [of w2 w target] target by auto
    then have "wp (recover_selection sw) (\<lambda>r' w3. r' = None \<and> steady w2 w3) w2"
      by (intro nothing_to_recover sw restart)
    moreover have "stands_new ?js target w3" if "steady w2 w3" for w3
      using \<open>stands_new ?js target w2\<close> steady_content [OF that] new_kept [of w3 w2 target] target by simp
    ultimately show ?thesis
      by (auto elim: wp_mono)
  qed
qed

end

end
