(* ===== verification/State_Directory.thy ===== *)
theory State_Directory
  imports Switch_Safety
begin

text \<open>
  The program's own state directory on the machine: its root is a clean absolute path, its names are
  those of \<open>state_files\<close>. It is a tree the machine keeps the contract for, so the lemmas about
  stores, activations and switches hold there; the properties say so for runs of the machine.
\<close>

section \<open>Roots and names\<close>

text \<open>The root as \<^verbatim>\<open>NewLayout\<close> leaves it: the elements of a clean absolute path.\<close>

typedef state_root = "{rs :: string list. list_all proper rs}"
  morphisms root_elements state_root
  by (rule exI [of _ "[]"]) simp

definition root_path :: "state_root \<Rightarrow> string" where
  "root_path r = abs_path (root_elements r)"

lemma root_elements_proper [simp]: "list_all proper (root_elements r)"
  using root_elements [of r] by simp

lemma lock_names: "lock_name ` state_locks = {''locks/profiles.lock'', ''locks/profile-revisions.lock''}"
proof -
  have "lock_name ''profiles'' = ''locks/profiles.lock''" "lock_name ''profile-revisions'' = ''locks/profile-revisions.lock''"
    by code_simp+
  then show ?thesis
    by (simp add: state_locks_def)
qed

lemma letters: "\<not> is_letter slash \<and> \<not> is_letter (CHR ''.'') \<and> \<not> is_digit slash"
  by code_simp

lemma profile_config_name_facts:
  assumes "validate_active_profile p = None"
  shows "proper (profile_config_name p)" and "\<not> prefix temp_start (profile_config_name p)"
proof -
  have n: "valid_profile_name (ProfileName p)"
    using assms by (simp add: validate_active_profile_def split: if_splits)
  then obtain c cs where cs: "ProfileName p = c # cs" "is_letter c"
    "list_all (\<lambda>c. is_letter c \<or> is_digit c \<or> c = CHR ''_'' \<or> c = CHR ''-'') cs"
    by (cases "ProfileName p") (auto simp: valid_profile_name_def)
  have letter: "c \<noteq> slash \<and> c \<noteq> CHR ''.''" if "is_letter c" for c
    using that letters by auto
  have slash: "slash \<notin> set cs"
    using cs(3) letters by (auto simp: list_all_iff)
  show "proper (profile_config_name p)"
    using cs slash letter [OF cs(2)] by (auto simp: profile_config_name_def proper_def dot_def dotdot_def)
  show "\<not> prefix temp_start (profile_config_name p)"
    using cs letter [OF cs(2)] by (auto simp: profile_config_name_def temp_start_def)
qed

lemma split_names:
  "split_on slash selection_file = [''.boxctl'', ''active-profile'']"
  "split_on slash journal_path = [''.boxctl'', ''profile-transition.v1.json'']"
  "split_on slash revisions_path = [''.boxctl'', ''profile-revisions.v1.json'']"
  "split_on slash ''config.yaml'' = [''config.yaml'']" "split_on slash ''config.json'' = [''config.json'']"
  "split_on slash ''locks/profiles.lock'' = [''locks'', ''profiles.lock'']"
  "split_on slash ''locks/profile-revisions.lock'' = [''locks'', ''profile-revisions.lock'']"
  by (simp_all add: selection_file_def journal_path_def revisions_path_def)

lemma split_profile_file:
  assumes "validate_active_profile p = None"
  shows "split_on slash (profile_file p) = [''configs'', profile_config_name p]"
  using split_join_proper [of "[''configs'', profile_config_name p]"] profile_config_name_facts(1) [OF assms]
  by (simp add: profile_file_def proper_def dot_def dotdot_def)

lemma state_names_cases:
  assumes "n \<in> state_files \<union> lock_name ` state_locks"
  shows "split_on slash n \<in> {[''config.yaml''], [''config.json'']} \<or>
    (\<exists>d e. split_on slash n = [d, e] \<and> d \<in> {''.boxctl'', ''configs'', ''locks''} \<and> proper e \<and> \<not> prefix temp_start e)"
  using assms unfolding lock_names state_files_def
  by (auto simp: split_names split_profile_file profile_config_name_facts) (auto simp: proper_def dot_def dotdot_def temp_start_def)

lemma state_tree_root: "list_all proper rs \<Longrightarrow> state_tree rs state_files state_locks"
proof (unfold_locales, goal_cases)
  case (2 n)
  then show ?case
    using state_names_cases [of n] by (auto simp: proper_name_def) (auto simp: proper_def dot_def dotdot_def)
next
  case (3 n e)
  then show ?case
    using state_names_cases [of n] by (auto simp: temp_start_def)
next
  case (4 n k)
  then show ?case
    using state_names_cases [of n] state_names_cases [of k] by (auto simp: strict_prefix_def)
next
  case 5
  show ?case
    unfolding lock_names state_files_def
    by (auto simp: selection_file_def journal_path_def revisions_path_def profile_file_def)
qed

interpretation state_dir: state_tree "root_elements r" state_files state_locks for r
  by (rule state_tree_root) simp

section \<open>The directory on the machine\<close>

definition all_names :: "string set" where "all_names = state_files \<union> lock_name ` state_locks"

definition file_of :: "state_root \<Rightarrow> 'r machine \<Rightarrow> string \<Rightarrow> string option" where
  "file_of r m n = (case Nodes m (place (root_elements r) n) of Some (File s mode) \<Rightarrow> Some s | _ \<Rightarrow> None)"

text \<open>Directories are directories or absent, files are regular or absent.\<close>

definition sane :: "state_root \<Rightarrow> 'r machine \<Rightarrow> bool" where
  "sane r m \<longleftrightarrow> (\<forall>n \<in> all_names. let p = place (root_elements r) n in
     (\<forall>d \<in> set (ancestors (dir p)). Nodes m d = None \<or> Nodes m d = Some Folder) \<and>
     (Nodes m p = None \<or> (\<exists>s mode. Nodes m p = Some (File s mode) \<and> Nodes m (dir p) = Some Folder)))"

text \<open>Nothing will fail, and the random parts of temporary names are not in use.\<close>

definition faultless :: "state_root \<Rightarrow> 'r machine \<Rightarrow> bool" where
  "faultless r m \<longleftrightarrow> clear m \<and> (\<forall>n \<in> all_names. \<forall>k \<ge> Asked m.
     Nodes m (temp_name (dir (place (root_elements r) n)) ''.boxctl-state-*'' (dec (Suffix m k))) = None)"

lemma directory_content: "state_tree.content (root_elements r) = file_of r"
  by (intro ext) (simp add: state_dir.content_def state_dir.held_def file_of_def)

lemma directory_folders:
  "state_tree.folder (root_elements r) state_files state_locks p \<longleftrightarrow>
    (\<exists>n \<in> all_names. p \<in> set (ancestors (dir (place (root_elements r) n))))"
proof
  assume "state_dir.folder r p"
  then obtain n xs where n: "n \<in> state_dir.files" "prefix xs (state_dir.parts r n)" "p = abs_path xs"
    by (auto simp: state_dir.folder_def)
  then have "xs = take (length xs) (state_dir.parts r n)" "length xs \<in> set [0..<Suc (length (state_dir.parts r n))]"
    by (auto simp: prefix_def)
  then have "p \<in> (\<lambda>k. abs_path (take k (state_dir.parts r n))) ` set [0..<Suc (length (state_dir.parts r n))]"
    using n(3) by (metis image_eqI)
  then have "p \<in> set (ancestors (dir (place (root_elements r) n)))"
    using n(1) state_dir.proper_parts [OF n(1), of r] by (simp add: ancestors_def del: upt_Suc)
  then show "\<exists>n \<in> all_names. p \<in> set (ancestors (dir (place (root_elements r) n)))"
    using n(1) by (auto simp: all_names_def state_dir.files_def)
next
  assume "\<exists>n \<in> all_names. p \<in> set (ancestors (dir (place (root_elements r) n)))"
  then show "state_dir.folder r p"
    using state_dir.ancestors_folders [of _ p r] by (auto simp: all_names_def state_dir.files_def [symmetric])
qed

lemma directory_ok: "state_tree.ok (root_elements r) state_files state_locks = sane r"
proof
  fix m :: "'a machine"
  have files: "state_dir.files = all_names"
    by (simp add: all_names_def state_dir.files_def)
  show "state_tree.ok (root_elements r) state_files state_locks m = sane r m"
    unfolding state_dir.ok_def state_dir.tree_ok_def directory_folders files sane_def Let_def by blast
qed

lemma directory_smooth: "state_tree.smooth (root_elements r) state_files state_locks = faultless r"
proof
  fix m :: "'a machine"
  show "state_tree.smooth (root_elements r) state_files state_locks m = faultless r m"
    by (simp add: state_dir.smooth_def state_dir.unused_def faultless_def state_dir.spare_def all_names_def state_dir.files_def)
qed

interpretation directory: profile_dir "file_of r" "sane r" "faultless r" disk "root_elements r" for r
  unfolding profile_dir_def directory_content [symmetric] directory_ok [symmetric] directory_smooth [symmetric]
  by (rule state_dir.durable_store_axioms)

lemma directory_layout: "layout_at (abs_path (root_elements r)) = layout_at (root_path r)"
  by (simp add: root_path_def)

section \<open>Writing a file\<close>

text \<open>
  C28. Writing a file is all or nothing. Whatever requests fail, and however much of the temporary
  file was written before, the named file ends with the whole new content, or an error is reported
  and it is as it was; every other named file is as it was; and when nothing fails the write succeeds
  and leaves no temporary file in the way.
\<close>

theorem write_all_or_nothing:
  assumes "sane r m" and "n \<in> state_files"
    and "run_state (write_file_atomic disk (place (root_elements r) n) data mode) m = (failed, m')"
  shows "sane r m' \<and> (\<forall>k \<in> state_files - {n}. file_of r m' k = file_of r m k) \<and>
    (file_of r m' n = Some data \<or> failed \<noteq> None \<and> file_of r m' n = file_of r m n) \<and>
    (faultless r m \<and> 0 < mode \<and> mode < 512 \<longrightarrow> failed = None \<and> faultless r m')"
  using wp_run [OF directory.write_law [OF assms(1,2)] assms(3)]
  by (auto simp: directory.put_def directory.changed_def)

section \<open>Activating a profile\<close>

text \<open>
  C29. The outcome of an activation. The selection and the mirror of the profile's engine are the only
  files that may change; each is afterwards as it was or as the activation wants it: the selection
  names the profile and the mirror is the profile's content. An activation that reports no error has
  changed both, and one without faults succeeds if the profile exists.
\<close>

theorem activation_outcome:
  assumes "sane r m" and "checked_profile p = Inr q" and "marshal_active_profile js q = Inr data"
    and "run_state (activate_profile disk js (layout_at (root_path r)) polls p) m = (failed, m')"
  shows "sane r m' \<and> (\<forall>k \<in> state_files - {selection_file, mirror_file q}. file_of r m' k = file_of r m k) \<and>
    (file_of r m' selection_file = file_of r m selection_file \<or> file_of r m' selection_file = Some data) \<and>
    (file_of r m' (mirror_file q) = file_of r m (mirror_file q) \<or>
      file_of r m (profile_file q) \<noteq> None \<and> file_of r m' (mirror_file q) = file_of r m (profile_file q)) \<and>
    (failed = None \<longrightarrow> file_of r m (profile_file q) \<noteq> None \<and> file_of r m' selection_file = Some data \<and>
      file_of r m' (mirror_file q) = file_of r m (profile_file q)) \<and>
    (faultless r m \<and> file_of r m (profile_file q) \<noteq> None \<longrightarrow> failed = None)"
proof -
  have a: "directory.activated r js q failed m m'"
    by (rule wp_run [OF directory.activate_wp [OF assms(1,2)] assms(4) [folded directory_layout]])
  show ?thesis
    using a assms(3) unfolding directory.activated_def directory.same_but_def by auto
qed

section \<open>Switching\<close>

definition registry_in :: "app_json \<Rightarrow> (string \<Rightarrow> string option) \<Rightarrow> registry fallible" where
  "registry_in js files = (case files revisions_path of
       None \<Rightarrow> Inr \<lparr>RegistryVersion = 1, Items = Map.empty\<rparr>
     | Some d \<Rightarrow> decode_registry js d)"

definition selection_in :: "app_json \<Rightarrow> (string \<Rightarrow> string option) \<Rightarrow> active_profile option" where
  "selection_in js files = (case files selection_file of
       None \<Rightarrow> None
     | Some d \<Rightarrow> (case parse_active_profile js d of Inr p \<Rightarrow> Some p | Inl _ \<Rightarrow> None))"

text \<open>The profile is selected and mirrored; or everything is as before the switch to \<open>p\<close>.\<close>

definition stands :: "app_json \<Rightarrow> active_profile \<Rightarrow> (string \<Rightarrow> string option) \<Rightarrow> bool" where
  "stands js p files \<longleftrightarrow> selection_in js files = Some p \<and> files (profile_file p) \<noteq> None \<and>
     files (mirror_file p) = files (profile_file p)"

definition unswitched :: "app_json \<Rightarrow> active_profile \<Rightarrow> (string \<Rightarrow> string option) \<Rightarrow> (string \<Rightarrow> string option) \<Rightarrow> bool" where
  "unswitched js p before files \<longleftrightarrow> selection_in js files = selection_in js before \<and>
     files (mirror_file p) = before (mirror_file p) \<and>
     (\<exists>x y. registry_in js before = Inr x \<and> registry_in js files = Inr y \<and>
        Items y (profile_id p) = Items x (profile_id p))"

text \<open>A program that leaves the named files alone, as the preparers and the clock are expected to.\<close>

definition leaves_files :: "state_root \<Rightarrow> ('r machine, 'a) state \<Rightarrow> bool" where
  "leaves_files r prog \<longleftrightarrow> (\<forall>m. sane r m \<longrightarrow> (let m' = snd (run_state prog m) in
     sane r m' \<and> (faultless r m \<longrightarrow> faultless r m') \<and> (\<forall>k \<in> state_files. file_of r m' k = file_of r m k)))"

definition fitted :: "state_root \<Rightarrow> 'r machine switcher \<Rightarrow> bool" where
  "fitted r sw \<longleftrightarrow> SwFs sw = disk \<and> SwLayout sw = layout_at (root_path r) \<and> codings (SwJson sw) \<and>
     SwRevisions sw \<and> leaves_files r (SwNow sw) \<and> (\<forall>core. leaves_files r (SwCleanup sw core)) \<and>
     (\<forall>e n p. SwNatives sw e = Some n \<longrightarrow> leaves_files r (NativePrepare n p) \<and>
       (\<forall>f revision. NativePublish n = Some f \<longrightarrow> leaves_files r (f p revision)))"

text \<open>The lifecycle's calls may update the registry of revisions, as \<^verbatim>\<open>OnStarted\<close> does.\<close>

definition registers_only :: "state_root \<Rightarrow> app_json \<Rightarrow> 'r machine \<Rightarrow> 'r machine \<Rightarrow> bool" where
  "registers_only r js m m' \<longleftrightarrow> (sane r m \<longrightarrow> sane r m' \<and> (faultless r m \<longrightarrow> faultless r m') \<and>
     (\<forall>k \<in> state_files - {revisions_path}. file_of r m' k = file_of r m k) \<and>
     (\<not> isl (registry_in js (file_of r m)) \<longrightarrow> \<not> isl (registry_in js (file_of r m'))))"

definition lifecycle_registers_only :: "state_root \<Rightarrow> app_json \<Rightarrow> 'r machine lifecycle_deps \<Rightarrow> bool" where
  "lifecycle_registers_only r js d \<longleftrightarrow> call_relation d (registers_only r js) \<and>
     (\<forall>g p s. ld_guard d = Some g \<longrightarrow> world_within (registers_only r js) (rg_begin g p s))"

lemma directory_registered: "directory.registered r js m = registry_in js (file_of r m)"
  by (simp add: directory.registered_def registry_in_def)

lemma directory_selected: "directory.selected r js m = selection_in js (file_of r m)"
  by (simp add: directory.selected_def selection_in_def)

lemma directory_stands: "directory.stands_new r js p m = stands js p (file_of r m)"
  by (simp add: directory.stands_new_def stands_def directory_selected)

lemma directory_before: "directory.stands_as_before r js m0 p m = unswitched js p (file_of r m0) (file_of r m)"
  by (simp add: directory.stands_as_before_def unswitched_def directory_selected directory_registered)

lemma directory_readable: "directory.readable r js m \<longleftrightarrow> \<not> isl (registry_in js (file_of r m))"
  by (cases "registry_in js (file_of r m)") (auto simp: directory.readable_def directory_registered)

lemma directory_undisturbed: "directory.undisturbed r prog = leaves_files r prog"
  by (simp add: directory.undisturbed_def leaves_files_def directory.steady_def wp_def case_prod_beta Let_def)

lemma directory_equipped: "fitted r sw \<Longrightarrow> directory.equipped r sw"
  by (simp add: directory.equipped_def directory_undisturbed fitted_def directory.wired_def
      directory.undisturbed_def [symmetric] directory_layout)

lemma directory_idle: "directory.idle r js = registers_only r js"
  by (intro ext) (auto simp: directory.idle_def registers_only_def directory.same_but_def directory_readable)

lemma directory_quiet: "directory.quiet r js d = lifecycle_registers_only r js d"
  by (simp add: directory.quiet_def lifecycle_registers_only_def directory_idle)

text \<open>
  C2. A switch to another profile survives every failure. Let no switch be under way, the registry be
  readable, and the old and the new profile exist. Whatever requests fail during the switch - at any
  point, in the store, the lifecycle or the publication - and wherever the process ends, the next
  start, if nothing fails there, recovers without an error, and then either the target is selected
  and mirrored, or the switch had reported an error and the selection, the target's mirror and its
  recorded revision are what they were before.
\<close>

theorem switch_survives_failures:
  assumes fitted: "fitted r sw" "lifecycle_registers_only r (SwJson sw) d"
    and start: "sane r (lc_world l)" "file_of r (lc_world l) journal_path = None"
    and registry: "registry_in (SwJson sw) (file_of r (lc_world l)) = Inr x" "recorded_ok (Items x (profile_id target))"
    and target: "validate_active_profile target = None" "file_of r (lc_world l) (profile_file target) \<noteq> None"
    and old: "selection_in (SwJson sw) (file_of r (lc_world l)) = Some p" "p \<noteq> target" "file_of r (lc_world l) (profile_file p) \<noteq> None"
    and switch: "run_state (switch d sw ctx target confirmed) l = (failed, l')"
    and restart: "sane r m" "faultless r m" "\<And>k. k \<in> state_files \<Longrightarrow> file_of r m k = file_of r (lc_world l') k"
    and recovery: "run_state (recover_selection sw) m = (unrecovered, m')"
  shows "unrecovered = None \<and> (stands (SwJson sw) target (file_of r m') \<or>
    failed \<noteq> None \<and> unswitched (SwJson sw) target (file_of r (lc_world l)) (file_of r m'))"
proof -
  note sw = directory_equipped [OF fitted(1)]
  have other: "directory.selected r (SwJson sw) (lc_world l) \<noteq> Some target"
    and readable: "directory.readable r (SwJson sw) (lc_world l)"
    using old(1,2) registry(1) by (simp_all add: directory_selected directory_readable)
  have recorded: "recorded_ok (Items y (profile_id target))" if "directory.registered r (SwJson sw) (lc_world l) = Inr y" for y
    using that registry by (simp add: directory_registered)
  have "directory.switched r (SwJson sw) (lc_world l) (directory.selected r (SwJson sw) (lc_world l)) target failed (lc_world l')"
    by (rule wp_run [OF directory.switch_wp [OF sw _ start(1) readable target(1) other recorded] switch])
      (simp_all add: directory_quiet fitted(2))
  from wp_run [OF directory.recovered [OF sw start(2) readable _ target this restart] recovery]
  show ?thesis
    using old by (simp add: directory_selected directory_stands directory_before)
qed

text \<open>
  C39. A refused switch leaves its journal, and the next start undoes later work. If the target has
  changed since the preflight the commit reports a conflict and changes nothing, so the prepared
  journal stays. Whatever the configuration mirrors hold when the program is started again, the
  recovery then puts the target's mirror back to what the journal captured before the switch.
\<close>

theorem stale_journal_discards_edits:
  assumes fitted: "fitted r sw" and m: "sane r m" and t: "sound (SwJson sw) t" "Phase t = ''prepared''"
    and journal: "file_of r m journal_path = Some (journal_text (SwJson sw) t)"
    and registry: "registry_in (SwJson sw) (file_of r m) = Inr x"
    and old: "OldProfile t = Some p" "file_of r m (profile_file p) \<noteq> None"
    and changed: "file_of r m (profile_file (NewProfile t)) = Some c" "ContentDigest (SwJson sw) c \<noteq> NewRevision t"
    and commit: "run_state (commit_switch sw t) m = (failed, m1)"
    and restart: "sane r m2" "faultless r m2"
      "\<And>k. k \<in> state_files \<Longrightarrow> k \<noteq> ''config.yaml'' \<Longrightarrow> k \<noteq> ''config.json'' \<Longrightarrow> file_of r m2 k = file_of r m1 k"
    and recovery: "run_state (recover_selection sw) m2 = (unrecovered, m3)"
  shows "failed \<noteq> None \<and> (\<forall>k \<in> state_files. file_of r m1 k = file_of r m k) \<and> unrecovered = None \<and>
    file_of r m3 (mirror_file (NewProfile t)) =
      (if Existed (PreviousMirror t) then Some (MirrorContent (PreviousMirror t)) else None)"
proof -
  note sw = directory_equipped [OF fitted]
  have valid: "validate_active_profile (NewProfile t) = None" "validate_active_profile p = None"
    using t(1) old(1) by (simp_all add: sound_def)
  have refused: "failed \<noteq> None \<and> directory.steady r m m1"
    by (rule wp_run [OF directory.refused_commit_wp [OF directory.equipped_wired [OF sw] m valid(1) changed] commit])
  then have same: "file_of r m1 k = file_of r m k" if "k \<in> state_files" for k
    using that by (simp add: directory.steady_content)
  have kept: "file_of r m2 k = file_of r m k" if "k \<in> state_files" "k \<noteq> ''config.yaml''" "k \<noteq> ''config.json''" for k
    using restart(3) [OF that] same [OF that(1)] by simp
  have apart: "profile_file q \<noteq> ''config.yaml''" "profile_file q \<noteq> ''config.json''"
    "journal_path \<noteq> ''config.yaml''" "journal_path \<noteq> ''config.json''"
    "revisions_path \<noteq> ''config.yaml''" "revisions_path \<noteq> ''config.json''" for q
    by (simp_all add: profile_file_def journal_path_def revisions_path_def)
  have "registry_in (SwJson sw) (file_of r m2) = registry_in (SwJson sw) (file_of r m)"
    using kept [of revisions_path] apart by (simp add: registry_in_def)
  then have "directory.logged r (SwJson sw) t m2" "directory.restorable r (SwJson sw) t m2"
    using kept journal registry old valid apart
    by (auto simp: directory.logged_def directory.restorable_def directory_readable)
  from wp_run [OF directory.recover_selection_wp [OF directory.equipped_wired [OF sw] directory.equipped_revisions [OF sw]
      restart(1,2) t(1) this] recovery]
  show ?thesis
    using refused same t(2) by (auto simp: directory.stands_old_def mirrored_def)
qed

end
