(* ===== verification/State_Witness.thy ===== *)
theory State_Witness
  imports State_Directory "HOL-Library.Countable"
begin

text \<open>
  A concrete state directory: an installation below \<^verbatim>\<open>/opt/boxctl\<close> with two profiles, the first of
  which is selected, and a coding of values as numbers in braces. It meets the hypotheses of the
  properties of the state directory.
\<close>

section \<open>A coding\<close>

definition put_number :: "nat \<Rightarrow> string" where
  "put_number k = ''{'' @ dec k @ ''}''"

definition get_number :: "string \<Rightarrow> nat" where
  "get_number s = undec (takeWhile is_digit (tl s))"

lemma take_digits: "takeWhile is_digit (dec k @ CHR ''}'' # s) = dec k"
  using dec_digits by (subst takeWhile_append2) (auto simp: is_digit_def)

lemma put_get [simp]: "get_number (put_number k) = k" "get_number (put_number k @ s) = k"
  using take_digits [of k "[]"] take_digits [of k s] by (simp_all add: put_number_def get_number_def)

lemma put_braced [simp]: "braced (put_number k)"
  by (simp add: braced_def put_number_def)

text \<open>Records as tuples.\<close>

definition of_profile :: "active_profile \<Rightarrow> string \<times> string" where
  "of_profile p = (ProfileName p, ProfileEngine p)"

definition to_profile :: "string \<times> string \<Rightarrow> active_profile" where
  "to_profile = (\<lambda>(n, e). \<lparr>ProfileName = n, ProfileEngine = e\<rparr>)"

definition of_revision :: "profile_revision \<Rightarrow> string \<times> string \<times> int option" where
  "of_revision v = (AppliedRevision v, PendingRevision v, PendingAt v)"

definition to_revision :: "string \<times> string \<times> int option \<Rightarrow> profile_revision" where
  "to_revision = (\<lambda>(a, p, t). \<lparr>AppliedRevision = a, PendingRevision = p, PendingAt = t\<rparr>)"

definition of_mirror :: "mirror_snapshot \<Rightarrow> bool \<times> bool \<times> string \<times> string" where
  "of_mirror s = (Captured s, Existed s, MirrorRevision s, MirrorContent s)"

definition to_mirror :: "bool \<times> bool \<times> string \<times> string \<Rightarrow> mirror_snapshot" where
  "to_mirror = (\<lambda>(c, e, r, s). \<lparr>Captured = c, Existed = e, MirrorRevision = r, MirrorContent = s\<rparr>)"

lemma records_back [simp]: "to_profile (of_profile p) = p" "to_revision (of_revision v) = v" "to_mirror (of_mirror s) = s"
  by (simp_all add: of_profile_def to_profile_def of_revision_def to_revision_def of_mirror_def to_mirror_def)

definition of_transition where
  "of_transition t = ((TransitionVersion t, map_option of_profile (OldProfile t), of_profile (NewProfile t),
     OldRevision t, NewRevision t, of_mirror (PreviousMirror t)), RevisionCaptured t, RevisionExisted t,
     of_revision (PreviousRevision t), WasRunning t, Phase t, UpdatedAt t)"

definition to_transition where
  "to_transition = (\<lambda>((v, old, new, orev, nrev, mirror), captured, existed, rev', running, phase, at).
     \<lparr>TransitionVersion = v, OldProfile = map_option to_profile old, NewProfile = to_profile new,
      OldRevision = orev, NewRevision = nrev, PreviousMirror = to_mirror mirror, RevisionCaptured = captured,
      RevisionExisted = existed, PreviousRevision = to_revision rev', WasRunning = running, Phase = phase,
      UpdatedAt = at\<rparr>)"

lemma transition_back [simp]: "to_transition (of_transition t) = t"
  by (simp add: of_transition_def to_transition_def option.map_comp comp_def option.map_ident)

definition of_registry where
  "of_registry r = (RegistryVersion r,
     map (\<lambda>k. (k, of_revision (the (Items r k)))) (sorted_list_of_set (dom (Items r))))"

definition to_registry where
  "to_registry = (\<lambda>(v, xs). \<lparr>RegistryVersion = v, Items = map_of (map (\<lambda>(k, u). (k, to_revision u)) xs)\<rparr>)"

lemma registry_back:
  assumes "finite (dom (Items r))"
  shows "to_registry (of_registry r) = r"
proof -
  have "map_of (map (\<lambda>k. (k, the (Items r k))) (sorted_list_of_set (dom (Items r)))) = Items r"
    using assms by (intro map_of_map_keys) simp
  then show ?thesis
    by (simp add: of_registry_def to_registry_def comp_def)
qed

definition demo_json :: app_json where
  "demo_json = \<lparr>
     DecodeProfile = (\<lambda>s. Inr (to_profile (from_nat (get_number s)), False)),
     EncodeProfile = (\<lambda>p. Inr (put_number (to_nat (of_profile p)))),
     DecodeRegistry = (\<lambda>s. Inr (to_registry (from_nat (get_number s)), False)),
     EncodeRegistry = (\<lambda>r. Inr (put_number (to_nat (of_registry r)))),
     DecodeTransition = (\<lambda>s. Inr (to_transition (from_nat (get_number s)), False)),
     EncodeTransition = (\<lambda>t. Inr (put_number (to_nat (of_transition t)))),
     ContentDigest = (\<lambda>s. replicate 64 CHR ''a'')\<rparr>"

lemma demo_revision: "valid_revision (replicate 64 CHR ''a'')"
  by code_simp

lemma demo_codings: "codings demo_json"
  unfolding codings_def
proof (intro conjI allI impI, goal_cases)
  case (3 r)
  then show ?case
    by (simp add: demo_json_def registry_back)
next
  case (4 s r trailing)
  then show ?case
    by (auto simp: demo_json_def to_registry_def finite_dom_map_of split: prod.splits)
qed (simp_all add: demo_json_def demo_revision)

section \<open>An installation\<close>

definition demo_root :: state_root where "demo_root = state_root [''opt'', ''boxctl'']"

lemma demo_elements: "root_elements demo_root = [''opt'', ''boxctl'']"
  unfolding demo_root_def by (rule state_root_inverse) (simp add: proper_def dot_def dotdot_def)

definition demo_tree :: "(string list \<times> node) list" where
  "demo_tree =
     [([], Folder), ([''opt''], Folder), ([''opt'', ''boxctl''], Folder),
      ([''opt'', ''boxctl'', ''.boxctl''], Folder), ([''opt'', ''boxctl'', ''configs''], Folder),
      ([''opt'', ''boxctl'', ''config.yaml''], File ''mode: rule'' 384),
      ([''opt'', ''boxctl'', ''.boxctl'', ''active-profile''], File ''alpha'' 384),
      ([''opt'', ''boxctl'', ''configs'', ''alpha.yaml''], File ''mode: rule'' 384),
      ([''opt'', ''boxctl'', ''configs'', ''beta.yaml''], File ''mode: global'' 384)]"

definition demo_machine :: "(nat \<Rightarrow> fault option) \<Rightarrow> unit machine" where
  "demo_machine plan = \<lparr>Nodes = map_of (map (apfst abs_path) demo_tree), Plan = plan, Asked = 0,
     Suffix = (\<lambda>k. k), Runtime = ()\<rparr>"

lemma map_of_abs_path:
  assumes "list_all proper xs" and "list_all (\<lambda>(ys, _). list_all proper ys) tree"
  shows "map_of (map (apfst abs_path) tree) (abs_path xs) = map_of tree xs"
  using assms(2)
proof (induction tree)
  case (Cons a tree)
  then show ?case
    using assms(1) by (cases a) (auto simp: state_dir.abs_path_inject)
qed simp

lemma demo_lookup:
  assumes "list_all proper xs"
  shows "Nodes (demo_machine plan) (abs_path xs) = map_of demo_tree xs"
  unfolding demo_machine_def machine.simps
  by (rule map_of_abs_path [OF assms]) (simp add: demo_tree_def proper_def dot_def dotdot_def)

lemma demo_place: "n \<in> all_names \<Longrightarrow> place (root_elements demo_root) n = abs_path ([''opt'', ''boxctl''] @ split_on slash n)"
  by (simp add: place_def demo_elements)

lemma demo_tree_sane: "sane demo_root (demo_machine plan)"
  unfolding sane_def Let_def
proof
  fix n
  assume n: "n \<in> all_names"
  have base: "list_all proper [''opt'', ''boxctl'']"
    by (simp add: proper_def dot_def dotdot_def)
  from n consider (mirror) f where "split_on slash n = [f]" "f = ''config.yaml'' \<or> f = ''config.json''"
    | (inner) d e where "split_on slash n = [d, e]" "d = ''.boxctl'' \<or> d = ''configs'' \<or> d = ''locks''" "proper e"
    using state_names_cases [of n] by (auto simp: all_names_def)
  then show "(\<forall>d \<in> set (ancestors (dir (place (root_elements demo_root) n))).
        Nodes (demo_machine plan) d = None \<or> Nodes (demo_machine plan) d = Some Folder) \<and>
     (Nodes (demo_machine plan) (place (root_elements demo_root) n) = None \<or>
      (\<exists>s mode. Nodes (demo_machine plan) (place (root_elements demo_root) n) = Some (File s mode) \<and>
        Nodes (demo_machine plan) (dir (place (root_elements demo_root) n)) = Some Folder))"
  proof cases
    case mirror
    then have p: "place (root_elements demo_root) n = abs_path ([''opt'', ''boxctl''] @ [f])" "proper f"
      by (auto simp: place_def demo_elements proper_def dot_def dotdot_def)
    have d: "dir (place (root_elements demo_root) n) = abs_path [''opt'', ''boxctl'']"
      unfolding p(1) by (rule dir_abs_path [OF base p(2)])
    show ?thesis
      unfolding d unfolding p(1) using mirror base p(2)
      by (auto simp: ancestors_def demo_lookup demo_tree_def take_Cons' proper_def dot_def dotdot_def)
  next
    case inner
    then have p: "place (root_elements demo_root) n = abs_path ([''opt'', ''boxctl'', d] @ [e])" "proper d"
      by (auto simp: place_def demo_elements proper_def dot_def dotdot_def)
    have d: "dir (place (root_elements demo_root) n) = abs_path [''opt'', ''boxctl'', d]"
      unfolding p(1) by (rule dir_abs_path) (use base p(2) inner(3) in simp_all)
    show ?thesis
      unfolding d unfolding p(1) using inner base p(2)
      by (auto simp: ancestors_def demo_lookup demo_tree_def take_Cons' proper_def dot_def dotdot_def)
  qed
qed

lemma temp_lookup:
  assumes "n \<in> all_names"
  shows "temp_name (dir (place (root_elements demo_root) n)) ''.boxctl-state-*'' (dec k) =
      abs_path (state_dir.parts demo_root n @ [temp_start @ dec k])"
    and "list_all proper (state_dir.parts demo_root n @ [temp_start @ dec k])"
proof -
  have n: "n \<in> state_dir.files"
    using assms by (simp add: all_names_def state_dir.files_def)
  show "temp_name (dir (place (root_elements demo_root) n)) ''.boxctl-state-*'' (dec k) =
      abs_path (state_dir.parts demo_root n @ [temp_start @ dec k])"
    using state_dir.spare_path [OF n, of demo_root k] by (simp add: state_dir.spare_def)
  show "list_all proper (state_dir.parts demo_root n @ [temp_start @ dec k])"
    using state_dir.proper_parts [OF n, of demo_root] state_dir.spare_proper by simp
qed

lemma demo_plan: "Plan (demo_machine plan) = plan" "Suffix (demo_machine plan) = (\<lambda>k. k)" "Asked (demo_machine plan) = 0"
  by (simp_all add: demo_machine_def)

lemma demo_faultless: "faultless demo_root (demo_machine (\<lambda>_. None))"
proof -
  have "map_of demo_tree (xs @ [temp_start @ dec k]) = None" for xs k
    by (auto simp: demo_tree_def temp_start_def map_of_eq_None_iff append_eq_Cons_conv)
  then show ?thesis
    using temp_lookup(1) demo_lookup [OF temp_lookup(2)]
    by (simp add: faultless_def clear_def demo_plan)
qed

lemma demo_files:
  "file_of demo_root (demo_machine plan) ''config.yaml'' = Some ''mode: rule''"
  "file_of demo_root (demo_machine plan) selection_file = Some ''alpha''"
  "file_of demo_root (demo_machine plan) ''configs/alpha.yaml'' = Some ''mode: rule''"
  "file_of demo_root (demo_machine plan) ''configs/beta.yaml'' = Some ''mode: global''"
  "file_of demo_root (demo_machine plan) journal_path = None"
  "file_of demo_root (demo_machine plan) revisions_path = None"
proof -
  have "list_all proper [''opt'', ''boxctl'', ''config.yaml'']"
    "list_all proper [''opt'', ''boxctl'', ''.boxctl'', f]" "list_all proper [''opt'', ''boxctl'', ''configs'', f]"
    if "f \<in> {''active-profile'', ''alpha.yaml'', ''beta.yaml'', ''profile-transition.v1.json'', ''profile-revisions.v1.json''}" for f
    using that by (auto simp: proper_def dot_def dotdot_def)
  note proper = this [of "''active-profile''"] this [of "''alpha.yaml''"] this [of "''beta.yaml''"]
    this [of "''profile-transition.v1.json''"] this [of "''profile-revisions.v1.json''"]
  show "file_of demo_root (demo_machine plan) ''config.yaml'' = Some ''mode: rule''"
    "file_of demo_root (demo_machine plan) selection_file = Some ''alpha''"
    "file_of demo_root (demo_machine plan) ''configs/alpha.yaml'' = Some ''mode: rule''"
    "file_of demo_root (demo_machine plan) ''configs/beta.yaml'' = Some ''mode: global''"
    "file_of demo_root (demo_machine plan) journal_path = None"
    "file_of demo_root (demo_machine plan) revisions_path = None"
    using proper by (simp_all add: file_of_def place_def demo_elements split_names demo_lookup demo_tree_def)
qed

lemma in_state_files [simp]:
  "''config.yaml'' \<in> state_files" "selection_file \<in> state_files" "revisions_path \<in> state_files" "journal_path \<in> state_files"
  by (simp_all add: state_files_def)

lemma write_all_or_nothing_witness:
  "file_of demo_root (snd (run_state (write_file_atomic disk (place (root_elements demo_root) ''config.yaml'') ''mode: direct'' 384)
     (demo_machine (\<lambda>_. None)))) ''config.yaml'' = Some ''mode: direct''"
proof -
  obtain failed m' where run: "run_state (write_file_atomic disk (place (root_elements demo_root) ''config.yaml'') ''mode: direct'' 384)
     (demo_machine (\<lambda>_. None)) = (failed, m')"
    by fastforce
  show ?thesis
    using write_all_or_nothing [OF demo_tree_sane _ run] demo_faultless by (auto simp: run)
qed

text \<open>The second profile, and its activation.\<close>

definition beta :: active_profile where "beta = \<lparr>ProfileName = ''beta'', ProfileEngine = engine_mihomo\<rparr>"

definition alpha :: active_profile where "alpha = \<lparr>ProfileName = ''alpha'', ProfileEngine = engine_mihomo\<rparr>"

lemma demo_profiles:
  "checked_profile beta = Inr beta" "validate_active_profile beta = None" "validate_active_profile alpha = None"
  "checked_profile \<lparr>ProfileName = ''alpha'', ProfileEngine = []\<rparr> = Inr alpha"
  "profile_file beta = ''configs/beta.yaml''" "profile_file alpha = ''configs/alpha.yaml''"
  "mirror_file beta = ''config.yaml''" "mirror_file alpha = ''config.yaml''"
  by code_simp+

lemma activation_outcome_witness:
  "let m' = snd (run_state (activate_profile disk demo_json (layout_at (root_path demo_root)) 0 beta) (demo_machine (\<lambda>_. None))) in
   file_of demo_root m' ''config.yaml'' = Some ''mode: global'' \<and>
   file_of demo_root m' ''configs/alpha.yaml'' = Some ''mode: rule''"
proof -
  obtain failed m' where run: "run_state (activate_profile disk demo_json (layout_at (root_path demo_root)) 0 beta)
      (demo_machine (\<lambda>_. None)) = (failed, m')"
    by fastforce
  obtain data where data: "marshal_active_profile demo_json beta = Inr data"
    using marshal_parse [OF demo_codings demo_profiles(1)] by blast
  have "profile_file alpha \<in> state_files"
    unfolding state_files_def using demo_profiles(3) by blast
  moreover have "''configs/alpha.yaml'' \<noteq> selection_file"
    by (simp add: selection_file_def)
  ultimately show ?thesis
    using activation_outcome [OF demo_tree_sane demo_profiles(1) data run] demo_faultless
    by (auto simp: run demo_profiles demo_files)
qed

end
