(* ===== verification/Switch_Witness.thy ===== *)
theory Switch_Witness
  imports State_Witness
begin

text \<open>
  Switches of the concrete installation: one during which the power fails, and one that is refused
  because the target has changed since the preflight.
\<close>

section \<open>A start after a crash\<close>

text \<open>Named files are kept, temporary ones are gone, and nothing fails any more.\<close>

definition demo_folders :: "string list list" where
  "demo_folders = [[], [''opt''], [''opt'', ''boxctl''], [''opt'', ''boxctl'', ''.boxctl''],
     [''opt'', ''boxctl'', ''configs''], [''opt'', ''boxctl'', ''locks'']]"

definition reboot :: "unit machine \<Rightarrow> unit machine" where
  "reboot m = \<lparr>Nodes = (\<lambda>p. let xs = elements p in
       if xs \<in> set demo_folders then Some Folder
       else if prefix temp_start (last xs) then None
       else (case Nodes m p of Some (File s mode) \<Rightarrow> Some (File s mode) | _ \<Rightarrow> None)),
     Plan = (\<lambda>_. None), Asked = 0, Suffix = (\<lambda>k. k), Runtime = ()\<rparr>"

lemma reboot_folder:
  "list_all proper xs \<Longrightarrow> xs \<in> set demo_folders \<Longrightarrow> Nodes (reboot m) (abs_path xs) = Some Folder"
  by (simp add: reboot_def)

lemma reboot_file:
  "list_all proper xs \<Longrightarrow> xs \<notin> set demo_folders \<Longrightarrow> Nodes (reboot m) (abs_path xs) =
     (if prefix temp_start (last xs) then None
      else (case Nodes m (abs_path xs) of Some (File s mode) \<Rightarrow> Some (File s mode) | _ \<Rightarrow> None))"
  by (simp add: reboot_def)

lemma reboot_path:
  assumes "n \<in> all_names"
  obtains xs f where "place (root_elements demo_root) n = abs_path (xs @ [f])" "list_all proper (xs @ [f])"
    "\<not> prefix temp_start f" "xs @ [f] \<notin> set demo_folders"
    "dir (place (root_elements demo_root) n) = abs_path xs"
    "\<And>k. take k xs \<in> set demo_folders"
proof -
  have base: "list_all proper [''opt'', ''boxctl'']"
    by (simp add: proper_def dot_def dotdot_def)
  consider (mirror) f where "split_on slash n = [f]" "f = ''config.yaml'' \<or> f = ''config.json''"
    | (inner) d e where "split_on slash n = [d, e]" "d = ''.boxctl'' \<or> d = ''configs'' \<or> d = ''locks''" "proper e"
        "\<not> prefix temp_start e"
    using state_names_cases [of n] assms by (auto simp: all_names_def)
  then show ?thesis
  proof cases
    case mirror
    then have p: "place (root_elements demo_root) n = abs_path ([''opt'', ''boxctl''] @ [f])" "proper f"
      by (auto simp: place_def demo_elements proper_def dot_def dotdot_def)
    show ?thesis
      by (rule that [OF p(1)])
        (use p base mirror dir_abs_path [OF base p(2)] in \<open>auto simp: demo_folders_def temp_start_def take_Cons'\<close>)
  next
    case inner
    then have p: "place (root_elements demo_root) n = abs_path ([''opt'', ''boxctl'', d] @ [e])" "proper d"
      by (auto simp: place_def demo_elements proper_def dot_def dotdot_def)
    have b: "list_all proper [''opt'', ''boxctl'', d]"
      using base p(2) by simp
    show ?thesis
      by (rule that [OF p(1)])
        (use p b inner dir_abs_path [OF b inner(3)] in \<open>auto simp: demo_folders_def take_Cons'\<close>)
  qed
qed

lemma reboot_sane: "sane demo_root (reboot m)"
  unfolding sane_def Let_def
proof
  fix n
  assume "n \<in> all_names"
  then obtain xs f where n: "place (root_elements demo_root) n = abs_path (xs @ [f])" "list_all proper (xs @ [f])"
    "\<not> prefix temp_start f" "xs @ [f] \<notin> set demo_folders" "dir (place (root_elements demo_root) n) = abs_path xs"
    "\<And>k. take k xs \<in> set demo_folders"
    using reboot_path by blast
  have xs: "list_all proper xs" "xs \<in> set demo_folders"
    using n(2) n(6) [of "length xs"] by simp_all
  have "list_all proper (take k xs)" for k
    using xs(1) by (auto simp: list_all_iff dest: in_set_takeD)
  then have "Nodes (reboot m) (abs_path (take k xs)) = Some Folder" for k
    using n(6) by (intro reboot_folder)
  then show "(\<forall>d \<in> set (ancestors (dir (place (root_elements demo_root) n))).
        Nodes (reboot m) d = None \<or> Nodes (reboot m) d = Some Folder) \<and>
     (Nodes (reboot m) (place (root_elements demo_root) n) = None \<or>
      (\<exists>s mode. Nodes (reboot m) (place (root_elements demo_root) n) = Some (File s mode) \<and>
        Nodes (reboot m) (dir (place (root_elements demo_root) n)) = Some Folder))"
    unfolding n(5) unfolding n(1) reboot_file [OF n(2,4)] reboot_folder [OF xs]
    using xs(1) reboot_folder [OF xs, of m] by (auto simp: ancestors_def split: option.split node.split)
qed

lemma reboot_files: "n \<in> all_names \<Longrightarrow> file_of demo_root (reboot m) n = file_of demo_root m n"
  by (erule reboot_path) (simp add: file_of_def reboot_file split: option.split node.split)

lemma reboot_faultless: "faultless demo_root (reboot m)"
proof -
  have "xs @ [temp_start @ dec k] \<notin> set demo_folders" for xs k
    by (auto simp: demo_folders_def temp_start_def append_eq_Cons_conv)
  then show ?thesis
    using temp_lookup(1) reboot_file [OF temp_lookup(2)]
    by (simp add: faultless_def clear_def) (simp add: reboot_def)
qed

section \<open>A switch during which the power fails\<close>

definition demo_revision_text :: string where "demo_revision_text = replicate 64 CHR ''a''"

definition demo_core :: prepared_core where
  "demo_core = zero_core\<lparr>Engine := engine_mihomo, SourceRevision := demo_revision_text\<rparr>"

definition demo_native :: "unit machine native" where
  "demo_native = \<lparr>NativePrepare = (\<lambda>_. State_Monad.return (Inr demo_core)), NativePublish = None\<rparr>"

definition demo_switcher :: "unit machine switcher" where
  "demo_switcher = \<lparr>SwFs = disk, SwJson = demo_json, SwLayout = layout_at (root_path demo_root),
     SwNatives = (\<lambda>e. if e = engine_mihomo then Some demo_native else None),
     SwCleanup = (\<lambda>_. State_Monad.return ()), SwRevisions = True, SwNow = State_Monad.return 7,
     SwPolls = 0, SwRecoveryPolls = 0\<rparr>"

definition demo_deps :: "unit machine lifecycle_deps" where
  "demo_deps = \<lparr>ld_wired = True, ld_prepare_active = State_Monad.return (Inr demo_core),
     ld_core_start = (\<lambda>_. State_Monad.return None), ld_core_stop = State_Monad.return None,
     ld_core_health = State_Monad.return (healthy, None), ld_activate = (\<lambda>_. State_Monad.return None),
     ld_deactivate = (\<lambda>_. State_Monad.return None), ld_clone_runtime = (\<lambda>p. State_Monad.return (Inr p)),
     ld_cleanup_runtime = (\<lambda>_. State_Monad.return ()), ld_on_started = None, ld_guard = None,
     ld_ctx_err = State_Monad.return None, ld_now = State_Monad.return 7, ld_select = State_Monad.return None,
     ld_lock = State_Monad.return None, ld_try_lock = State_Monad.return True\<rparr>"

definition demo_lifecycle :: "(nat \<Rightarrow> fault option) \<Rightarrow> unit machine lifecycle" where
  "demo_lifecycle plan = \<lparr>lc_config = zero_config, lc_snap = zero_snapshot, lc_guard_in_progress = False,
     lc_world = demo_machine plan\<rparr>"

definition power_cut :: "nat \<Rightarrow> fault option" where
  "power_cut k = (if k < 40 then None else Some (Fault 7 ''out of power''))"

lemma leaves_files_return: "leaves_files r (State_Monad.return x)"
  by (simp add: leaves_files_def State_Monad.return_def)

lemma demo_fitted: "fitted demo_root demo_switcher"
  by (simp add: fitted_def demo_switcher_def demo_codings leaves_files_return demo_native_def)

lemma registers_only_trans:
  "registers_only r js u v \<Longrightarrow> registers_only r js v w \<Longrightarrow> registers_only r js u w"
  unfolding registers_only_def by auto

lemma demo_registers: "lifecycle_registers_only demo_root js demo_deps"
proof -
  have "call_relation demo_deps (registers_only demo_root js)"
  proof (unfold_locales, goal_cases)
    case (2 u v w)
    then show ?case
      by (rule registers_only_trans)
  qed (auto simp: registers_only_def world_within_def demo_deps_def wp_return)
  then show ?thesis
    by (simp add: lifecycle_registers_only_def demo_deps_def)
qed

lemma demo_selection: "selection_in demo_json (file_of demo_root (demo_machine plan)) = Some alpha"
proof -
  have "trim_space ''alpha'' = ''alpha''"
    by code_simp
  then show ?thesis
    using demo_profiles(4) by (simp add: selection_in_def demo_files parse_active_profile_def)
qed

lemma switch_survives_failures_witness:
  "case run_state (switch demo_deps demo_switcher None beta True) (demo_lifecycle power_cut) of (failed, l') \<Rightarrow>
   case run_state (recover_selection demo_switcher) (reboot (lc_world l')) of (unrecovered, m') \<Rightarrow>
     unrecovered = None \<and> (stands demo_json beta (file_of demo_root m') \<or>
       failed \<noteq> None \<and> unswitched demo_json beta (file_of demo_root (demo_machine power_cut)) (file_of demo_root m'))"
proof -
  obtain failed l' where switch: "run_state (switch demo_deps demo_switcher None beta True) (demo_lifecycle power_cut) = (failed, l')"
    by fastforce
  obtain unrecovered m' where recovery: "run_state (recover_selection demo_switcher) (reboot (lc_world l')) = (unrecovered, m')"
    by fastforce
  have world: "lc_world (demo_lifecycle power_cut) = demo_machine power_cut" "SwJson demo_switcher = demo_json"
    by (simp_all add: demo_lifecycle_def demo_switcher_def)
  have registry: "registry_in demo_json (file_of demo_root (demo_machine power_cut)) = Inr \<lparr>RegistryVersion = 1, Items = Map.empty\<rparr>"
    by (simp add: registry_in_def demo_files)
  have kept: "file_of demo_root (reboot (lc_world l')) k = file_of demo_root (lc_world l') k" if "k \<in> state_files" for k
    using that by (intro reboot_files) (simp add: all_names_def)
  have "alpha \<noteq> beta"
    by (simp add: alpha_def beta_def)
  then show ?thesis
    using switch_survives_failures [OF demo_fitted demo_registers _ _ _ _ demo_profiles(2) _ _ _ _ switch reboot_sane reboot_faultless kept recovery,
        of "\<lparr>RegistryVersion = 1, Items = Map.empty\<rparr>" alpha]
    by (simp add: world switch recovery demo_tree_sane demo_files registry demo_selection demo_profiles recorded_ok_def)
qed

section \<open>A refused switch\<close>

text \<open>The journal of a switch whose target has changed, and a later edit of the running configuration.\<close>

definition demo_transition :: transition where
  "demo_transition = \<lparr>TransitionVersion = 1, OldProfile = Some alpha, NewProfile = beta, OldRevision = [],
     NewRevision = replicate 64 CHR ''b'', PreviousMirror = \<lparr>Captured = True, Existed = True,
       MirrorRevision = demo_revision_text, MirrorContent = ''mode: rule''\<rparr>,
     RevisionCaptured = False, RevisionExisted = False, PreviousRevision = no_revision, WasRunning = False,
     Phase = ''prepared'', UpdatedAt = 7\<rparr>"

definition demo_write :: "string \<Rightarrow> string \<Rightarrow> unit machine \<Rightarrow> unit machine" where
  "demo_write n s m = snd (run_state (write_file_atomic disk (place (root_elements demo_root) n) s 384) m)"

lemma demo_write_facts:
  assumes "sane demo_root m" and "faultless demo_root m" and "n \<in> state_files"
  shows "sane demo_root (demo_write n s m)" and "faultless demo_root (demo_write n s m)"
    and "file_of demo_root (demo_write n s m) n = Some s"
    and "k \<in> state_files \<Longrightarrow> k \<noteq> n \<Longrightarrow> file_of demo_root (demo_write n s m) k = file_of demo_root m k"
  using directory.write_law [OF assms(1,3), of s 384] assms(2)
  by (auto simp: demo_write_def wp_def directory.put_def directory.changed_def split: prod.splits)

definition demo_refused :: "unit machine" where
  "demo_refused = demo_write journal_path (journal_text demo_json demo_transition) (demo_machine (\<lambda>_. None))"

lemma demo_refused_facts:
  "sane demo_root demo_refused" "file_of demo_root demo_refused journal_path = Some (journal_text demo_json demo_transition)"
  "k \<in> state_files \<Longrightarrow> k \<noteq> journal_path \<Longrightarrow> file_of demo_root demo_refused k = file_of demo_root (demo_machine (\<lambda>_. None)) k"
  unfolding demo_refused_def using demo_write_facts [OF demo_tree_sane demo_faultless] by simp_all

lemma demo_sound: "sound demo_json demo_transition"
proof -
  have "valid_revision demo_revision_text" "valid_revision (replicate 64 CHR ''b'')" "ProfileName beta \<noteq> []"
    by code_simp+
  then show ?thesis
    by (simp add: sound_def transition_ok_def demo_transition_def demo_profiles validate_mirror_snapshot_def
        mirror_snapshot_ok_def validate_revision_snapshot_def empty_revision_def no_revision_def max_mirror_size_def
        demo_json_def demo_revision_text_def)
qed

lemma stale_journal_discards_edits_witness:
  "case run_state (commit_switch demo_switcher demo_transition) demo_refused of (failed, m1) \<Rightarrow>
   (let m2 = demo_write ''config.yaml'' ''mode: direct'' (reboot m1) in
    case run_state (recover_selection demo_switcher) m2 of (unrecovered, m3) \<Rightarrow>
      failed \<noteq> None \<and> unrecovered = None \<and>
      file_of demo_root m2 ''config.yaml'' = Some ''mode: direct'' \<and> file_of demo_root m3 ''config.yaml'' = Some ''mode: rule'')"
proof -
  obtain failed m1 where commit: "run_state (commit_switch demo_switcher demo_transition) demo_refused = (failed, m1)"
    by fastforce
  define m2 where "m2 = demo_write ''config.yaml'' ''mode: direct'' (reboot m1)"
  obtain unrecovered m3 where recovery: "run_state (recover_selection demo_switcher) m2 = (unrecovered, m3)"
    by fastforce
  have files: "profile_file alpha \<in> state_files" "profile_file beta \<in> state_files"
    unfolding state_files_def using demo_profiles(2,3) by blast+
  have held: "file_of demo_root demo_refused (profile_file alpha) = Some ''mode: rule''"
    "file_of demo_root demo_refused (profile_file beta) = Some ''mode: global''"
    using demo_refused_facts(3) [OF files(1)] demo_refused_facts(3) [OF files(2)]
    by (simp_all add: demo_profiles demo_files journal_path_def)
  have apart: "revisions_path \<noteq> journal_path"
    by (simp add: revisions_path_def journal_path_def)
  have registry: "registry_in demo_json (file_of demo_root demo_refused) = Inr \<lparr>RegistryVersion = 1, Items = Map.empty\<rparr>"
    using demo_refused_facts(3) [OF in_state_files(3) apart] by (simp add: registry_in_def demo_files)
  have m2: "sane demo_root m2" "faultless demo_root m2" "file_of demo_root m2 ''config.yaml'' = Some ''mode: direct''"
    unfolding m2_def using demo_write_facts [OF reboot_sane reboot_faultless] by simp_all
  have kept: "file_of demo_root m2 k = file_of demo_root m1 k" if "k \<in> state_files" "k \<noteq> ''config.yaml''" "k \<noteq> ''config.json''" for k
    unfolding m2_def using that demo_write_facts(4) [OF reboot_sane reboot_faultless] reboot_files [of k m1]
    by (simp add: all_names_def)
  have t: "OldProfile demo_transition = Some alpha" "NewProfile demo_transition = beta" "Phase demo_transition = ''prepared''"
    "NewRevision demo_transition \<noteq> ContentDigest demo_json s" "SwJson demo_switcher = demo_json"
    "PreviousMirror demo_transition = \<lparr>Captured = True, Existed = True, MirrorRevision = demo_revision_text, MirrorContent = ''mode: rule''\<rparr>" for s
    by (simp_all add: demo_transition_def demo_switcher_def demo_json_def)
  show ?thesis
    using stale_journal_discards_edits [OF demo_fitted demo_refused_facts(1) _ t(3) _ _ t(1) _ _ _ commit m2(1,2) kept recovery] held
    by (simp add: t commit recovery m2_def [symmetric] m2(3) demo_sound demo_refused_facts(2) registry demo_profiles
        t(4) [THEN not_sym])
qed

end
