(* ===== verification/Go_Runes.thy ===== *)
theory Go_Runes
  imports Go_Strings
begin

text \<open>
  What \<^verbatim>\<open>for _, r := range s\<close> makes of a byte string: its runes, each given by its UTF-8 encoding. A
  byte that starts no encoding becomes the replacement character. A text is valid if its runes
  together are the text itself.
\<close>

section \<open>Runes\<close>

definition byte_in :: "nat \<Rightarrow> nat \<Rightarrow> char \<Rightarrow> bool" where
  "byte_in lo hi c \<longleftrightarrow> lo \<le> of_char c \<and> of_char c \<le> hi"

text \<open>The least and the greatest second byte after a first byte, and how many more bytes follow.\<close>

definition lead_byte :: "char \<Rightarrow> (nat \<times> nat \<times> nat) option" where
  "lead_byte c = (let n = of_char c :: nat in
     if 0xC2 \<le> n \<and> n \<le> 0xDF then Some (0x80, 0xBF, 0)
     else if n = 0xE0 then Some (0xA0, 0xBF, 1)
     else if n = 0xED then Some (0x80, 0x9F, 1)
     else if 0xE1 \<le> n \<and> n \<le> 0xEF then Some (0x80, 0xBF, 1)
     else if n = 0xF0 then Some (0x90, 0xBF, 2)
     else if n = 0xF4 then Some (0x80, 0x8F, 2)
     else if 0xF1 \<le> n \<and> n \<le> 0xF3 then Some (0x80, 0xBF, 2)
     else None)"

text \<open>The length of the encoding a string starts with, 0 if it starts with none.\<close>

definition rune_length :: "string \<Rightarrow> nat" where
  "rune_length s = (case s of
       [] \<Rightarrow> 0
     | c # t \<Rightarrow>
         if byte_in 0 0x7F c then 1
         else (case lead_byte c of
             None \<Rightarrow> 0
           | Some (lo, hi, more) \<Rightarrow>
               if t \<noteq> [] \<and> byte_in lo hi (hd t) \<and> more \<le> length (tl t) \<and>
                 list_all (byte_in 0x80 0xBF) (take more (tl t))
               then more + 2 else 0))"

definition replacement :: string where "replacement = bytes [0xEF, 0xBF, 0xBD]"

lemma rune_length_bounds: "rune_length s \<le> length s"
  by (cases s; cases "tl s") (auto simp: rune_length_def split: option.splits prod.splits if_splits)

function runes :: "string \<Rightarrow> string list" where
  "runes s = (if s = [] then []
     else if rune_length s = 0 then replacement # runes (tl s)
     else take (rune_length s) s # runes (drop (rune_length s) s))"
  by pat_completeness auto
termination
  by (relation "measure length") auto

declare runes.simps [simp del]

lemma runes_Nil [simp]: "runes [] = []"
  by (simp add: runes.simps)

definition utf8_text :: "string \<Rightarrow> bool" where
  "utf8_text s \<longleftrightarrow> concat (runes s) = s"

section \<open>One encoding\<close>

definition is_rune :: "string \<Rightarrow> bool" where
  "is_rune r \<longleftrightarrow> r \<noteq> [] \<and> rune_length r = length r"

lemma rune_length_append:
  assumes "is_rune r"
  shows "rune_length (r @ s) = length r"
proof (cases r)
  case (Cons c t)
  then show ?thesis
    using assms by (cases t) (auto simp: is_rune_def rune_length_def split: option.splits prod.splits if_splits)
qed (use assms in \<open>simp add: is_rune_def\<close>)

lemma take_rune:
  assumes "rune_length s \<noteq> 0"
  shows "is_rune (take (rune_length s) s)"
proof (cases s)
  case (Cons c t)
  then show ?thesis
    using assms by (cases t) (auto simp: is_rune_def rune_length_def min_def split: option.splits prod.splits if_splits)
qed (use assms in \<open>simp add: rune_length_def\<close>)

lemma replacement_rune: "is_rune replacement"
  by code_simp

lemma runes_append: "is_rune r \<Longrightarrow> runes (r @ s) = r # runes s"
  using rune_length_append [of r s] by (subst runes.simps) (simp add: is_rune_def)

lemma runes_are_runes: "r \<in> set (runes s) \<Longrightarrow> is_rune r"
proof (induction s rule: runes.induct)
  case (1 s)
  then show ?case
    using take_rune [of s] replacement_rune by (subst (asm) (2) runes.simps) (auto split: if_splits)
qed

lemma runes_concat [simp]: "list_all is_rune rs \<Longrightarrow> runes (concat rs) = rs"
  by (induction rs) (simp_all add: runes_append)

lemma utf8_text_concat: "list_all is_rune rs \<Longrightarrow> utf8_text (concat rs)"
  by (simp add: utf8_text_def)

lemma valid_runes [simp]: "utf8_text (concat (runes s))"
  using runes_are_runes [of _ s] by (intro utf8_text_concat) (auto simp: list_all_iff)

lemma ascii_rune: "is_rune [c] \<longleftrightarrow> byte_in 0 0x7F c"
  by (auto simp: is_rune_def rune_length_def split: option.splits)

lemma runes_ascii: "list_all (byte_in 0 0x7F) s \<Longrightarrow> runes (s @ t) = map (\<lambda>c. [c]) s @ runes t"
  using runes_append [of "[c]" for c] by (induction s) (auto simp: ascii_rune)

lemma plain_ascii: "plain c \<Longrightarrow> byte_in 0 0x7F c"
  by (simp add: plain_def byte_in_def)

lemma runes_valid_append:
  assumes "utf8_text s"
  shows "runes (s @ t) = runes s @ runes t"
proof -
  have "runes (concat rs @ t) = rs @ runes t" if "list_all is_rune rs" for rs
    using that by (induction rs) (simp_all add: runes_append)
  from this [of "runes s"] show ?thesis
    using assms runes_are_runes [of _ s] by (simp add: utf8_text_def list_all_iff)
qed

lemma utf8_text_plain: "list_all plain s \<Longrightarrow> utf8_text s"
  using runes_ascii [of s "[]"] by (auto simp: utf8_text_def list_all_iff ascii_rune plain_ascii)

text \<open>A rune of several bytes holds no ASCII byte.\<close>

lemma rune_bytes:
  assumes "is_rune r" and "c \<in> set r" and "byte_in 0 0x7F c"
  shows "r = [c]"
proof (cases r)
  case (Cons d t)
  have "\<not> byte_in 0 0x7F c'" if "byte_in lo hi c'" "0x80 \<le> lo" for lo hi c'
    using that by (simp add: byte_in_def)
  moreover have "0x80 \<le> lo" if "lead_byte d = Some (lo, hi, more)" for lo hi more
    using that by (auto simp: lead_byte_def Let_def split: if_splits)
  moreover have "\<not> byte_in 0 0x7F d" if "lead_byte d \<noteq> None"
    using that by (auto simp: lead_byte_def Let_def byte_in_def split: if_splits)
  ultimately show ?thesis
    using assms Cons by (cases t)
      (auto simp: is_rune_def rune_length_def list_all_iff split: option.splits prod.splits if_splits)
qed (use assms in simp)

end
