(* ===== verification/Uci_Text.thy ===== *)
theory Uci_Text
  imports Gateway_Plan Go_Runes
begin

text \<open>
  The text of OpenWrt's configuration: the reader of \<^verbatim>\<open>uci export\<close> of
  \<^verbatim>\<open>internal/platform/openwrt/dns.go\<close> and \<^verbatim>\<open>interfaces.go\<close>, and the quoting of values in a batch.
\<close>

section \<open>Words\<close>

text \<open>
  The variables of the loop over the runes of a line. \<open>ScanQuote\<close> is the open quotation mark,
  \<open>ScanHave\<close> says that a word has begun, which may be empty.
\<close>

record uci_scan =
  ScanWords :: "string list"
  ScanWord :: string
  ScanQuote :: "string option"
  ScanEscaped :: bool
  ScanHave :: bool

definition uci_start :: uci_scan where
  "uci_start = \<lparr>ScanWords = [], ScanWord = [], ScanQuote = None, ScanEscaped = False, ScanHave = False\<rparr>"

definition flush_word :: "uci_scan \<Rightarrow> uci_scan" where
  "flush_word s = (if ScanHave s
     then s\<lparr>ScanWords := ScanWords s @ [ScanWord s], ScanWord := [], ScanHave := False\<rparr> else s)"

definition put_rune :: "string \<Rightarrow> uci_scan \<Rightarrow> uci_scan" where
  "put_rune r s = s\<lparr>ScanWord := ScanWord s @ r, ScanHave := True\<rparr>"

definition single_quote :: string where "single_quote = [CHR 0x27]"
definition double_quote :: string where "double_quote = [CHR 0x22]"
definition backslash :: string where "backslash = [CHR 0x5C]"

definition scan_rune :: "string \<Rightarrow> uci_scan \<Rightarrow> uci_scan" where
  "scan_rune r s =
     (if ScanEscaped s then (put_rune r s)\<lparr>ScanEscaped := False\<rparr>
      else case ScanQuote s of
        Some q \<Rightarrow>
          if r = q then s\<lparr>ScanQuote := None\<rparr>
          else if q = double_quote \<and> r = backslash then s\<lparr>ScanEscaped := True\<rparr>
          else put_rune r s
      | None \<Rightarrow>
          if r = single_quote \<or> r = double_quote then s\<lparr>ScanQuote := Some r, ScanHave := True\<rparr>
          else if r = backslash then s\<lparr>ScanEscaped := True, ScanHave := True\<rparr>
          else if r \<in> set space_runes then flush_word s
          else put_rune r s)"

definition parse_uci_words :: "string \<Rightarrow> string list fallible" where
  "parse_uci_words line = (let s = fold scan_rune (runes line) uci_start in
     if ScanEscaped s \<or> ScanQuote s \<noteq> None then Inl (Err ''unterminated UCI quote or escape'')
     else Inr (ScanWords (flush_word s)))"

definition quote_uci :: "string \<Rightarrow> string" where
  "quote_uci v = single_quote @
     concat (map (\<lambda>c. if [c] = single_quote then single_quote @ backslash @ single_quote @ single_quote else [c]) v) @
     single_quote"

section \<open>Lines\<close>

definition uci_newline :: char where "uci_newline = CHR 0x0A"

definition ignored_line :: "string \<Rightarrow> bool" where
  "ignored_line line \<longleftrightarrow> line = [] \<or> prefix ''#'' line \<or> prefix ''package '' line"

definition uci_line_error :: "string \<Rightarrow> nat \<Rightarrow> gerror \<Rightarrow> gerror" where
  "uci_line_error what n e = Wrap (what @ dec n) e"

section \<open>The options of the first section of a type\<close>

record uci_option =
  Present :: bool
  Kind :: string
  Values :: "string list"

definition no_option :: uci_option where
  "no_option = \<lparr>Present = False, Kind = [], Values = []\<rparr>"

definition uci_single :: string where "uci_single = ''option''"
definition uci_list :: string where "uci_list = ''list''"

type_synonym uci_options = "string \<rightharpoonup> uci_option"

text \<open>\<open>result[name]\<close>: a missing key reads as the zero value.\<close>

definition option_at :: "uci_options \<Rightarrow> string \<Rightarrow> uci_option" where
  "option_at m n = (case m n of None \<Rightarrow> no_option | Some s \<Rightarrow> s)"

definition add_uci_value :: "string \<Rightarrow> string \<Rightarrow> string \<Rightarrow> uci_options \<Rightarrow> uci_options fallible" where
  "add_uci_value kind name value result = (let s = option_at result name in
     if kind = uci_single then
       (if Present s then Inl (Err (''openwrt: duplicate UCI option '' @ name))
        else Inr (result(name \<mapsto> \<lparr>Present = True, Kind = kind, Values = [value]\<rparr>)))
     else if Present s \<and> Kind s \<noteq> uci_list
     then Inl (Err (''openwrt: mixed option/list UCI state for '' @ name))
     else Inr (result(name \<mapsto> \<lparr>Present = True, Kind = uci_list, Values = Values s @ [value]\<rparr>)))"

text \<open>The lines that are left, the number of the next one, and the variables of the loop.\<close>

fun read_uci_lines ::
  "string \<Rightarrow> string list \<Rightarrow> string list \<Rightarrow> nat \<Rightarrow> bool \<Rightarrow> bool \<Rightarrow> uci_options \<Rightarrow> (bool \<times> uci_options) fallible"
where
  "read_uci_lines section wanted [] n inside found result = Inr (found, result)"
| "read_uci_lines section wanted (raw # lines) n inside found result = (let line = trim_space raw in
     if ignored_line line then read_uci_lines section wanted lines (n + 1) inside found result
     else case parse_uci_words line of
       Inl e \<Rightarrow> Inl (uci_line_error ''openwrt: parse UCI export line '' n e)
     | Inr words \<Rightarrow>
         if words = [] then read_uci_lines section wanted lines (n + 1) inside found result
         else if hd words = ''config'' then
           (if inside then Inr (found, result)
            else let here = length words \<ge> 2 \<and> words ! 1 = section in
              read_uci_lines section wanted lines (n + 1) here (found \<or> here) result)
         else if \<not> inside \<or> length words \<noteq> 3 \<or> hd words \<noteq> uci_single \<and> hd words \<noteq> uci_list \<or>
           words ! 1 \<notin> set wanted
         then read_uci_lines section wanted lines (n + 1) inside found result
         else case add_uci_value (hd words) (words ! 1) (words ! 2) result of
           Inl e \<Rightarrow> Inl e
         | Inr result' \<Rightarrow> read_uci_lines section wanted lines (n + 1) inside found result')"

definition parse_first_uci_section :: "string \<Rightarrow> string \<Rightarrow> string list \<Rightarrow> uci_options fallible" where
  "parse_first_uci_section input section wanted =
     (case read_uci_lines section wanted (split_on uci_newline input) 1 False False
         (\<lambda>n. if n \<in> set wanted then Some no_option else None) of
        Inl e \<Rightarrow> Inl e
      | Inr (found, result) \<Rightarrow>
          if found then Inr result
          else Inl (Err (''openwrt: no config '' @ section @ '' section in UCI export'')))"

section \<open>All sections\<close>

record uci_section =
  SectionType :: string
  SectionName :: string
  SectionOptions :: "string \<rightharpoonup> string list"

definition section_values :: "uci_section \<Rightarrow> string \<Rightarrow> string list" where
  "section_values s key = (case SectionOptions s key of None \<Rightarrow> [] | Some vs \<Rightarrow> vs)"

definition new_section :: "string list \<Rightarrow> uci_section" where
  "new_section words = \<lparr>SectionType = words ! 1,
     SectionName = (if length words \<ge> 3 then words ! 2 else []), SectionOptions = Map.empty\<rparr>"

definition add_section_value :: "string \<Rightarrow> string \<Rightarrow> string \<Rightarrow> uci_section \<Rightarrow> uci_section" where
  "add_section_value kind key value s = s\<lparr>SectionOptions := (SectionOptions s)(key \<mapsto>
     if kind = uci_single then space_words value else section_values s key @ [value])\<rparr>"

text \<open>The sections so far are \<open>done\<close> and, after the first \<^verbatim>\<open>config\<close>, the current one.\<close>

fun read_uci_sections ::
  "string list \<Rightarrow> nat \<Rightarrow> uci_section list \<Rightarrow> uci_section option \<Rightarrow> uci_section list fallible" where
  "read_uci_sections [] n before current = Inr (before @ (case current of None \<Rightarrow> [] | Some s \<Rightarrow> [s]))"
| "read_uci_sections (raw # lines) n before current = (let line = trim_space raw in
     if ignored_line line then read_uci_sections lines (n + 1) before current
     else case parse_uci_words line of
       Inl e \<Rightarrow> Inl (uci_line_error ''openwrt: parse UCI topology line '' n e)
     | Inr words \<Rightarrow>
         if length words \<ge> 2 \<and> hd words = ''config'' then
           read_uci_sections lines (n + 1) (before @ (case current of None \<Rightarrow> [] | Some s \<Rightarrow> [s]))
             (Some (new_section words))
         else case current of
           Some s \<Rightarrow>
             if length words = 3 \<and> (hd words = uci_single \<or> hd words = uci_list)
             then read_uci_sections lines (n + 1) before
               (Some (add_section_value (hd words) (words ! 1) (words ! 2) s))
             else read_uci_sections lines (n + 1) before current
         | None \<Rightarrow> read_uci_sections lines (n + 1) before current)"

definition parse_uci_sections :: "string \<Rightarrow> uci_section list fallible" where
  "parse_uci_sections input = read_uci_sections (split_on uci_newline input) 1 [] None"

end
