(* ===== verification/Dns_Manager.thy ===== *)
theory Dns_Manager
  imports Uci_Text Policy_Routes
begin

text \<open>
  The three dnsmasq options the program manages, \<^verbatim>\<open>internal/platform/openwrt/dns.go\<close>: the backup with
  its validation, applying, checking, reconciling and restoring, as programs over a command runner.
  The nil check of the runner is left out. \<open>ManagerPackage\<close> and \<open>ManagerSection\<close> are empty for the default.
\<close>

section \<open>Backups\<close>

record dns_backup =
  BackupVersion :: int
  BackupPackage :: string
  BackupSection :: string
  BackupOptions :: uci_options

record dns_manager =
  ManagerPackage :: string
  ManagerSection :: string

definition new_dns_manager :: dns_manager where
  "new_dns_manager = \<lparr>ManagerPackage = ''dhcp'', ManagerSection = ''@dnsmasq[0]''\<rparr>"

definition managed_dns_options :: "string list" where
  "managed_dns_options = [''cachesize'', ''noresolv'', ''server'']"

definition normalized_manager :: "dns_manager \<Rightarrow> dns_manager" where
  "normalized_manager m = \<lparr>
     ManagerPackage = (if ManagerPackage m = [] then ''dhcp'' else ManagerPackage m),
     ManagerSection = (if ManagerSection m = [] then ''@dnsmasq[0]'' else ManagerSection m)\<rparr>"

definition validate_target :: "dns_manager \<Rightarrow> gerror option" where
  "validate_target m = (if ManagerPackage m \<noteq> ''dhcp'' \<or> ManagerSection m \<noteq> ''@dnsmasq[0]''
     then Some (Err (''openwrt: unsupported DNS UCI target '' @ quote (ManagerPackage m) @ ''.'' @
       quote (ManagerSection m)))
     else None)"

definition option_error :: "string \<Rightarrow> uci_option \<Rightarrow> gerror option" where
  "option_error name s =
     (if \<not> Present s then
        (if Kind s \<noteq> [] \<or> Values s \<noteq> []
         then Some (Err (''openwrt: absent DNS option '' @ name @ '' contains data'')) else None)
      else if Kind s \<noteq> uci_single \<and> Kind s \<noteq> uci_list
        then Some (Err (''openwrt: invalid UCI kind for '' @ name))
      else if Values s = [] \<or> Kind s = uci_single \<and> length (Values s) \<noteq> 1
        then Some (Err (''openwrt: invalid values for '' @ name))
      else None)"

definition validate_dns_backup :: "dns_backup \<Rightarrow> dns_manager \<Rightarrow> gerror option" where
  "validate_dns_backup b m =
     (if BackupVersion b \<noteq> 1
      then Some (Err (''openwrt: unsupported DNS backup version '' @ int_text (BackupVersion b)))
      else if BackupPackage b \<noteq> ManagerPackage m \<or> BackupSection b \<noteq> ManagerSection m
      then Some (Err ''openwrt: DNS backup belongs to another UCI section'')
      else first_error (\<lambda>name. case BackupOptions b name of
             None \<Rightarrow> Some (Err (''openwrt: DNS backup lacks '' @ name @ '' presence metadata''))
           | Some s \<Rightarrow> option_error name s) managed_dns_options)"

section \<open>Reading\<close>

definition uci_command :: "string list \<Rightarrow> string \<Rightarrow> command" where
  "uci_command args input = \<lparr>CmdName = ''uci'', CmdArgs = args, CmdStdin = input\<rparr>"

definition export_command :: "string \<Rightarrow> command" where
  "export_command package = uci_command [''-q'', ''export'', package] []"

definition backup_dns :: "'w runner \<Rightarrow> dns_manager \<Rightarrow> ('w, dns_backup fallible) state" where
  "backup_dns run m0 = (let m = normalized_manager m0 in
     case validate_target m of
       Some e \<Rightarrow> State_Monad.return (Inl e)
     | None \<Rightarrow> attempt (run_ok run (export_command (ManagerPackage m))) (\<lambda>r.
         State_Monad.return (case parse_first_uci_section (Stdout r) ''dnsmasq'' managed_dns_options of
             Inl e \<Rightarrow> Inl e
           | Inr options \<Rightarrow> Inr \<lparr>BackupVersion = 1, BackupPackage = ManagerPackage m,
               BackupSection = ManagerSection m, BackupOptions = options\<rparr>)))"

definition equal_option_states :: "uci_options \<Rightarrow> uci_options \<Rightarrow> bool" where
  "equal_option_states l r \<longleftrightarrow> list_all (\<lambda>name. case (l name, r name) of
       (Some a, Some b) \<Rightarrow> Present a = Present b \<and> Kind a = Kind b \<and> Values a = Values b
     | _ \<Rightarrow> False) managed_dns_options"

section \<open>Writing\<close>

definition option_path :: "dns_manager \<Rightarrow> string \<Rightarrow> string" where
  "option_path m name = ManagerPackage m @ ''.'' @ ManagerSection m @ ''.'' @ name"

definition batch_line :: "string \<Rightarrow> string \<Rightarrow> string \<Rightarrow> string" where
  "batch_line verb path value = verb @ '' '' @ path @ ''='' @ quote_uci value @ [uci_newline]"

definition delete_line :: "string \<Rightarrow> string" where
  "delete_line path = ''delete '' @ path @ [uci_newline]"

text \<open>What one option contributes to the batch.\<close>

definition option_batch :: "dns_manager \<Rightarrow> uci_options \<Rightarrow> string \<Rightarrow> uci_option \<Rightarrow> string list fallible" where
  "option_batch m current name s = (let path = option_path m name;
       deleted = (if Present (option_at current name) then [delete_line path] else []) in
     if \<not> Present s then Inr deleted
     else if Kind s = uci_single then Inr (deleted @ [batch_line ''set'' path (hd (Values s))])
     else if Kind s = uci_list then Inr (deleted @ map (batch_line ''add_list'' path) (Values s))
     else Inl (Err (''openwrt: invalid UCI kind for '' @ name)))"

fun options_batch :: "dns_manager \<Rightarrow> uci_options \<Rightarrow> uci_options \<Rightarrow> string list \<Rightarrow> string list fallible" where
  "options_batch m current wanted [] = Inr []"
| "options_batch m current wanted (name # names) = (case wanted name of
       None \<Rightarrow> Inl (Err (''openwrt: requested DNS state lacks '' @ name))
     | Some s \<Rightarrow> (case option_batch m current name s of
         Inl e \<Rightarrow> Inl e
       | Inr lines \<Rightarrow> (case options_batch m current wanted names of
           Inl e \<Rightarrow> Inl e
         | Inr rest \<Rightarrow> Inr (lines @ rest))))"

definition commit_line :: "dns_manager \<Rightarrow> string" where
  "commit_line m = ''commit '' @ ManagerPackage m @ [uci_newline]"

definition restart_command :: command where
  "restart_command = \<lparr>CmdName = ''/etc/init.d/dnsmasq'', CmdArgs = [''restart''], CmdStdin = []\<rparr>"

definition restart_dnsmasq :: "'w runner \<Rightarrow> ('w, gerror option) state" where
  "restart_dnsmasq run = wrapped ''openwrt: restart dnsmasq'' (run_unit run restart_command)"

definition apply_options ::
  "'w runner \<Rightarrow> dns_manager \<Rightarrow> uci_options \<Rightarrow> bool \<Rightarrow> ('w, gerror option) state" where
  "apply_options run m options restart_if_unchanged = do {
     answer \<leftarrow> backup_dns run m;
     case answer of
       Inl e \<Rightarrow> State_Monad.return (Some e)
     | Inr current \<Rightarrow>
         if equal_option_states (BackupOptions current) options then
           (if restart_if_unchanged then restart_dnsmasq run else State_Monad.return None)
         else (case options_batch m (BackupOptions current) options managed_dns_options of
             Inl e \<Rightarrow> State_Monad.return (Some e)
           | Inr lines \<Rightarrow>
               Prelude.check (wrapped ''openwrt: apply dnsmasq UCI''
                 (run_unit run (uci_command [''-q'', ''batch''] (concat lines @ commit_line m))))
               (restart_dnsmasq run)) }"

section \<open>The operations\<close>

definition desired_upstream_options :: "gateway_plan \<Rightarrow> uci_options" where
  "desired_upstream_options plan = [
     ''server'' \<mapsto> \<lparr>Present = True, Kind = uci_list,
       Values = [''127.0.0.1#'' @ dec (unat (PlanDNSPort plan))]\<rparr>,
     ''noresolv'' \<mapsto> \<lparr>Present = True, Kind = uci_single, Values = [''1'']\<rparr>,
     ''cachesize'' \<mapsto> \<lparr>Present = True, Kind = uci_single, Values = [''0'']\<rparr>]"

text \<open>The checks before anything is read: the target, the plan and the backup.\<close>

definition dns_request_error :: "dns_manager \<Rightarrow> gateway_plan \<Rightarrow> dns_backup \<Rightarrow> gerror option" where
  "dns_request_error m plan b = (case validate_target m of
       Some e \<Rightarrow> Some e
     | None \<Rightarrow> (case gateway_validate plan of
         Some e \<Rightarrow> Some e
       | None \<Rightarrow> validate_dns_backup b m))"

definition apply_dns ::
  "'w runner \<Rightarrow> dns_manager \<Rightarrow> gateway_plan \<Rightarrow> dns_backup \<Rightarrow> ('w, gerror option) state" where
  "apply_dns run m0 plan0 b = (let m = normalized_manager m0; plan = normalized_plan plan0 in
     case dns_request_error m plan b of
       Some e \<Rightarrow> State_Monad.return (Some e)
     | None \<Rightarrow>
         if DNSMode plan = ''upstream'' then apply_options run m (desired_upstream_options plan) False
         else if DNSMode plan = ''redirect'' \<or> DNSMode plan = ''disabled''
         then apply_options run m (BackupOptions b) False
         else State_Monad.return (Some (Err (''openwrt: unsupported DNS mode '' @ quote (DNSMode plan)))))"

definition desired_options :: "gateway_plan \<Rightarrow> dns_backup \<Rightarrow> uci_options" where
  "desired_options plan b =
     (if DNSMode plan = ''upstream'' then desired_upstream_options plan else BackupOptions b)"

definition check_dns ::
  "'w runner \<Rightarrow> dns_manager \<Rightarrow> gateway_plan \<Rightarrow> dns_backup \<Rightarrow> ('w, gerror option) state" where
  "check_dns run m0 plan b = (let m = normalized_manager m0 in
     case validate_dns_backup b m of
       Some e \<Rightarrow> State_Monad.return (Some e)
     | None \<Rightarrow> do {
         answer \<leftarrow> backup_dns run m;
         State_Monad.return (case answer of
             Inl e \<Rightarrow> Some e
           | Inr current \<Rightarrow>
               if equal_option_states (BackupOptions current) (desired_options plan b) then None
               else Some (Err ''openwrt: DNS state does not match the activated generation'')) })"

definition reconcile_dns ::
  "'w runner \<Rightarrow> dns_manager \<Rightarrow> gateway_plan \<Rightarrow> dns_backup \<Rightarrow> ('w, gerror option) state" where
  "reconcile_dns run m0 plan0 b = (let m = normalized_manager m0; plan = normalized_plan plan0 in
     case dns_request_error m plan b of
       Some e \<Rightarrow> State_Monad.return (Some e)
     | None \<Rightarrow> do {
         answer \<leftarrow> backup_dns run m;
         case answer of
           Inl e \<Rightarrow> State_Monad.return (Some e)
         | Inr current \<Rightarrow>
             if equal_option_states (BackupOptions current) (desired_options plan b)
             then State_Monad.return None
             else apply_options run m (desired_options plan b) False })"

definition restore_dns :: "'w runner \<Rightarrow> dns_manager \<Rightarrow> dns_backup \<Rightarrow> ('w, gerror option) state" where
  "restore_dns run m0 b = (let m = normalized_manager m0 in
     case validate_target m of
       Some e \<Rightarrow> State_Monad.return (Some e)
     | None \<Rightarrow> (case validate_dns_backup b m of
         Some e \<Rightarrow> State_Monad.return (Some e)
       | None \<Rightarrow> apply_options run m (BackupOptions b) True))"

end
