(* ===== verification/Uci_Words.thy ===== *)
theory Uci_Words
  imports Uci_Text
begin

text \<open>
  What is written in quotes is read back: the words of a line, and the options of an exported section.
\<close>

section \<open>Safe and quoted text\<close>

text \<open>Characters that stand for themselves outside quotes.\<close>

definition safe :: "char \<Rightarrow> bool" where
  "safe c \<longleftrightarrow> plain c \<and> [c] \<noteq> single_quote \<and> [c] \<noteq> double_quote \<and> [c] \<noteq> backslash"

lemma safe_plain: "safe c \<Longrightarrow> plain c"
  by (simp add: safe_def)

lemma plain_not_space: "plain c \<Longrightarrow> [c] \<notin> set space_runes"
  using space_rune_ends [of "[c]"] by auto

lemma scan_safe: "safe c \<Longrightarrow> ScanQuote s = None \<Longrightarrow> \<not> ScanEscaped s \<Longrightarrow> scan_rune [c] s = put_rune [c] s"
  using plain_not_space by (simp add: scan_rune_def safe_def)

lemma scan_safe_text:
  "list_all safe w \<Longrightarrow> ScanQuote s = None \<Longrightarrow> \<not> ScanEscaped s \<Longrightarrow>
   fold scan_rune (map (\<lambda>c. [c]) w) s = (if w = [] then s else put_rune w s)"
proof (induction w arbitrary: s)
  case (Cons c w)
  then show ?case
    by (auto simp: scan_safe put_rune_def)
qed simp

lemma runes_safe: "list_all safe w \<Longrightarrow> runes (w @ t) = map (\<lambda>c. [c]) w @ runes t"
  by (rule runes_ascii) (auto simp: list_all_iff dest: safe_plain plain_ascii)

lemma marks_ascii [simp]:
  "is_rune single_quote" "is_rune double_quote" "is_rune backslash" "is_rune '' ''"
  "single_quote \<noteq> double_quote" "single_quote \<noteq> backslash" "'' '' \<noteq> single_quote" "'' '' \<noteq> double_quote" "'' '' \<noteq> backslash"
  "double_quote \<noteq> single_quote" "backslash \<noteq> single_quote" "backslash \<noteq> double_quote"
  by (simp_all add: single_quote_def double_quote_def backslash_def ascii_rune byte_in_def)

text \<open>The runes of a quoted text, given by its own runes.\<close>

definition quoted_runes :: "string list \<Rightarrow> string list" where
  "quoted_runes rs = concat (map (\<lambda>r. if r = single_quote
     then [single_quote, backslash, single_quote, single_quote] else [r]) rs)"

lemma quoted_concat:
  assumes "list_all is_rune rs"
  shows "concat (map (\<lambda>c. if [c] = single_quote then single_quote @ backslash @ single_quote @ single_quote else [c])
      (concat rs)) = concat (quoted_runes rs)"
  using assms
proof (induction rs)
  case (Cons r rs)
  have "concat (map (\<lambda>c. if [c] = single_quote then single_quote @ backslash @ single_quote @ single_quote else [c]) r) =
      (if r = single_quote then single_quote @ backslash @ single_quote @ single_quote else r)"
  proof (cases "r = single_quote")
    case True
    then show ?thesis
      by (simp add: single_quote_def)
  next
    case False
    have "[c] \<noteq> single_quote" if "c \<in> set r" for c
      using rune_bytes [of r c] that False Cons.prems by (auto simp: single_quote_def byte_in_def)
    then show ?thesis
      using False by (simp add: map_idI cong: map_cong)
  qed
  then show ?case
    using Cons by (simp add: quoted_runes_def)
qed (simp add: quoted_runes_def)

lemma quoted_runes_runes: "list_all is_rune rs \<Longrightarrow> list_all is_rune (quoted_runes rs)"
  by (auto simp: quoted_runes_def list_all_iff split: if_splits)

lemma runes_all: "list_all is_rune (runes v)"
  using runes_are_runes by (auto simp: list_all_iff)

lemma runes_quote:
  assumes "utf8_text v"
  shows "runes (quote_uci v @ t) = single_quote # quoted_runes (runes v) @ single_quote # runes t"
proof -
  have "quote_uci v = concat (single_quote # quoted_runes (runes v) @ [single_quote])"
    using quoted_concat [OF runes_all, of v] assms by (simp add: quote_uci_def utf8_text_def)
  moreover have "list_all is_rune (single_quote # quoted_runes (runes v) @ [single_quote])"
    using quoted_runes_runes [OF runes_all] by simp
  ultimately show ?thesis
    by (metis append_Cons append_Nil append_assoc runes_concat runes_valid_append utf8_text_concat)
qed

lemma scan_quoted:
  "ScanQuote s = Some single_quote \<Longrightarrow> \<not> ScanEscaped s \<Longrightarrow> ScanHave s \<Longrightarrow>
   fold scan_rune (quoted_runes rs) s = s\<lparr>ScanWord := ScanWord s @ concat rs\<rparr>"
proof (induction rs arbitrary: s)
  case Nil
  then show ?case by (simp add: quoted_runes_def)
next
  case (Cons r rs)
  have "fold scan_rune (if r = single_quote then [single_quote, backslash, single_quote, single_quote] else [r]) s =
      s\<lparr>ScanWord := ScanWord s @ r\<rparr>"
    using Cons.prems by (auto simp: scan_rune_def put_rune_def)
  moreover have "quoted_runes (r # rs) =
      (if r = single_quote then [single_quote, backslash, single_quote, single_quote] else [r]) @ quoted_runes rs"
    by (simp add: quoted_runes_def)
  ultimately show ?case
    using Cons by simp
qed

lemma scan_quote_value:
  assumes "utf8_text v" and "ScanQuote s = None" and "\<not> ScanEscaped s"
  shows "fold scan_rune (runes (quote_uci v @ t)) s =
    fold scan_rune (runes t) (s\<lparr>ScanWord := ScanWord s @ v, ScanHave := True\<rparr>)"
proof -
  have open_quote: "scan_rune single_quote s = s\<lparr>ScanQuote := Some single_quote, ScanHave := True\<rparr>"
    using assms(2,3) by (simp add: scan_rune_def)
  have "fold scan_rune (quoted_runes (runes v)) (s\<lparr>ScanQuote := Some single_quote, ScanHave := True\<rparr>) =
      s\<lparr>ScanQuote := Some single_quote, ScanHave := True, ScanWord := ScanWord s @ v\<rparr>"
    using scan_quoted [of "s\<lparr>ScanQuote := Some single_quote, ScanHave := True\<rparr>" "runes v"] assms
    by (simp add: utf8_text_def)
  then have "fold scan_rune (runes (quote_uci v @ t)) s =
      fold scan_rune (runes t) (s\<lparr>ScanHave := True, ScanWord := ScanWord s @ v, ScanQuote := None\<rparr>)"
    using assms by (simp add: runes_quote open_quote) (simp add: scan_rune_def)
  also have "s\<lparr>ScanHave := True, ScanWord := ScanWord s @ v, ScanQuote := None\<rparr> = s\<lparr>ScanWord := ScanWord s @ v, ScanHave := True\<rparr>"
    using assms(2) by (cases s) simp
  finally show ?thesis .
qed

lemma scan_blank:
  "ScanQuote s = None \<Longrightarrow> \<not> ScanEscaped s \<Longrightarrow> scan_rune '' '' s = flush_word s"
proof -
  have "'' '' \<in> set space_runes"
    by code_simp
  then show "ScanQuote s = None \<Longrightarrow> \<not> ScanEscaped s \<Longrightarrow> scan_rune '' '' s = flush_word s"
    by (simp add: scan_rune_def)
qed

section \<open>Lines of words\<close>

text \<open>A word is a safe text with a quoted one behind it, if any.\<close>

definition word_text :: "string \<times> string option \<Rightarrow> string" where
  "word_text = (\<lambda>(w, v). w @ (case v of None \<Rightarrow> [] | Some x \<Rightarrow> quote_uci x))"

definition word_value :: "string \<times> string option \<Rightarrow> string" where
  "word_value = (\<lambda>(w, v). w @ (case v of None \<Rightarrow> [] | Some x \<Rightarrow> x))"

definition word_ok :: "string \<times> string option \<Rightarrow> bool" where
  "word_ok = (\<lambda>(w, v). list_all safe w \<and> (case v of None \<Rightarrow> w \<noteq> [] | Some x \<Rightarrow> utf8_text x))"

lemma scan_word:
  assumes "word_ok w" and "ScanQuote s = None" and "\<not> ScanEscaped s"
  shows "fold scan_rune (runes (word_text w @ t)) s =
    fold scan_rune (runes t) (s\<lparr>ScanWord := ScanWord s @ word_value w, ScanHave := True\<rparr>)"
proof (cases "snd w")
  case None
  then show ?thesis
    using assms scan_safe_text [of "fst w" s]
    by (auto simp: word_ok_def word_text_def word_value_def put_rune_def runes_safe split: prod.splits)
next
  case (Some x)
  obtain u where w: "w = (u, Some x)"
    using Some by (cases w) simp
  have "fold scan_rune (runes (word_text w @ t)) s =
      fold scan_rune (runes (quote_uci x @ t)) (if u = [] then s else put_rune u s)"
    using assms scan_safe_text [of u s] by (simp add: w word_text_def word_ok_def runes_safe)
  also have "\<dots> = fold scan_rune (runes t) (s\<lparr>ScanWord := ScanWord s @ word_value w, ScanHave := True\<rparr>)"
    using assms by (subst scan_quote_value) (auto simp: w word_ok_def word_value_def put_rune_def)
  finally show ?thesis .
qed

lemma scan_words:
  "ws \<noteq> [] \<Longrightarrow> list_all word_ok ws \<Longrightarrow> ScanQuote s = None \<Longrightarrow> \<not> ScanEscaped s \<Longrightarrow> \<not> ScanHave s \<Longrightarrow> ScanWord s = [] \<Longrightarrow>
   fold scan_rune (runes (join '' '' (map word_text ws))) s =
     s\<lparr>ScanWords := ScanWords s @ map word_value (butlast ws), ScanWord := word_value (last ws), ScanHave := True\<rparr>"
proof (induction ws arbitrary: s)
  case (Cons w ws)
  show ?case
  proof (cases ws)
    case Nil
    then show ?thesis
      using Cons.prems scan_word [of w s "[]"] by simp
  next
    case (Cons w' ws')
    let ?s = "s\<lparr>ScanWord := word_value w, ScanHave := True\<rparr>"
    have "fold scan_rune (runes (join '' '' (map word_text (w # ws)))) s =
        fold scan_rune (runes ('' '' @ join '' '' (map word_text ws))) ?s"
      using Cons.prems scan_word [of w s "'' '' @ join '' '' (map word_text ws)"] Cons by simp
    also have "\<dots> = fold scan_rune (runes (join '' '' (map word_text ws))) (scan_rune '' '' ?s)"
      using runes_append [of "'' ''"] by simp
    also have "scan_rune '' '' ?s = s\<lparr>ScanWords := ScanWords s @ [word_value w], ScanWord := [], ScanHave := False\<rparr>"
      using Cons.prems by (simp add: scan_blank) (simp add: flush_word_def)
    finally show ?thesis
      using Cons.IH [of "s\<lparr>ScanWords := ScanWords s @ [word_value w], ScanWord := [], ScanHave := False\<rparr>"]
        Cons.prems Cons by simp
  qed
qed simp

lemma parse_words:
  assumes "ws \<noteq> []" and "list_all word_ok ws"
  shows "parse_uci_words (join '' '' (map word_text ws)) = Inr (map word_value ws)"
proof -
  have "map word_value (butlast ws) @ [word_value (last ws)] = map word_value ws"
    using assms(1) by (metis append_butlast_last_id list.simps(8,9) map_append)
  then show ?thesis
    using scan_words [OF assms, of uci_start] by (simp add: parse_uci_words_def uci_start_def flush_word_def)
qed

end
