(* ===== verification/Uci_Machine.thy ===== *)
theory Uci_Machine
  imports Dns_Manager Uci_Words "HOL-Library.AList"
begin

text \<open>
  A router as the DNS manager sees it: the options of the first dnsmasq section as \<^verbatim>\<open>uci export\<close> prints
  them, and the options the running dnsmasq was started with. \<^verbatim>\<open>uci batch\<close> executes its lines one
  after the other. A plan of faults makes commands fail: a process that does not start, or a batch that
  stops with an error after some of its lines. Whether a change is staged or committed is not
  distinguished: both are what the export shows.
\<close>

section \<open>The machine\<close>

datatype uci_fault = NotStarted gerror | StopsAfter nat int string

record 'r router =
  Shown :: "(string \<times> uci_option) list"
  Serving :: uci_options
  LaterSections :: "(string \<times> string list) list"
  UciPlan :: "nat \<Rightarrow> uci_fault option"
  UciAsked :: nat
  Beyond :: 'r

definition option_lines :: "string \<times> uci_option \<Rightarrow> string list" where
  "option_lines = (\<lambda>(n, s). map (\<lambda>v. [CHR 0x09] @ Kind s @ '' '' @ n @ '' '' @ quote_uci v) (Values s))"

definition section_lines :: "string \<times> string list \<Rightarrow> string list" where
  "section_lines = (\<lambda>(t, ls). (''config '' @ t) # ls)"

definition export_lines :: "'r router \<Rightarrow> string list" where
  "export_lines r = [''package dhcp'', [], ''config dnsmasq''] @ concat (map option_lines (Shown r)) @
     [[]] @ concat (map section_lines (LaterSections r))"

definition export_text :: "'r router \<Rightarrow> string" where
  "export_text r = join [uci_newline] (export_lines r)"

definition dnsmasq_prefix :: string where "dnsmasq_prefix = ''dhcp.@dnsmasq[0].''"

text \<open>The name and the value of \<open>path=value\<close>.\<close>

definition assignment :: "string \<Rightarrow> (string \<times> string) option" where
  "assignment w = (let p = takeWhile (\<lambda>c. c \<noteq> CHR ''='') w in
     if prefix dnsmasq_prefix p \<and> p \<noteq> w
     then Some (drop (length dnsmasq_prefix) p, drop (length p + 1) w) else None)"

definition appended :: "uci_option option \<Rightarrow> string \<Rightarrow> uci_option" where
  "appended s v = \<lparr>Present = True, Kind = uci_list, Values = (case s of None \<Rightarrow> [] | Some x \<Rightarrow> Values x) @ [v]\<rparr>"

definition exec_words :: "string list \<Rightarrow> (string \<times> uci_option) list \<Rightarrow> (string \<times> uci_option) list option" where
  "exec_words ws opts = (case ws of
       [] \<Rightarrow> Some opts
     | [verb, w] \<Rightarrow>
         if verb = ''delete'' then
           (let n = drop (length dnsmasq_prefix) w in
            if prefix dnsmasq_prefix w \<and> n \<in> fst ` set opts then Some (AList.delete n opts) else None)
         else if verb = ''commit'' then (if w = ''dhcp'' then Some opts else None)
         else (case assignment w of
             None \<Rightarrow> None
           | Some (n, v) \<Rightarrow>
               if verb = ''set'' then Some (AList.update n \<lparr>Present = True, Kind = uci_single, Values = [v]\<rparr> opts)
               else if verb = ''add_list'' then Some (AList.update n (appended (map_of opts n) v) opts)
               else None)
     | _ \<Rightarrow> None)"

definition exec_line :: "string \<Rightarrow> (string \<times> uci_option) list \<Rightarrow> (string \<times> uci_option) list option" where
  "exec_line line opts = (case parse_uci_words line of Inl _ \<Rightarrow> None | Inr ws \<Rightarrow> exec_words ws opts)"

text \<open>The first line that fails ends the batch; the lines before it have taken effect.\<close>

fun exec_lines :: "string list \<Rightarrow> (string \<times> uci_option) list \<Rightarrow> bool \<times> (string \<times> uci_option) list" where
  "exec_lines [] opts = (True, opts)"
| "exec_lines (l # ls) opts = (case exec_line l opts of None \<Rightarrow> (False, opts) | Some opts' \<Rightarrow> exec_lines ls opts')"

definition cmd_succeeded :: "string \<Rightarrow> cmd_result" where
  "cmd_succeeded out = \<lparr>Stdout = out, Stderr = [], ExitCode = 0\<rparr>"

definition cmd_exited :: "int \<Rightarrow> string \<Rightarrow> cmd_result" where
  "cmd_exited code msg = \<lparr>Stdout = [], Stderr = msg, ExitCode = (if code = 0 then 1 else code)\<rparr>"

definition answer_command :: "command \<Rightarrow> 'r router \<Rightarrow> cmd_result \<times> 'r router" where
  "answer_command c r =
     (if c = export_command ''dhcp'' then (cmd_succeeded (export_text r), r)
      else if c = uci_command [''-q'', ''batch''] (CmdStdin c) then
        (case exec_lines (split_on uci_newline (CmdStdin c)) (Shown r) of
           (ok, opts) \<Rightarrow> (if ok then cmd_succeeded [] else cmd_exited 1 [], r\<lparr>Shown := opts\<rparr>))
      else if c = restart_command then (cmd_succeeded [], r\<lparr>Serving := map_of (Shown r)\<rparr>)
      else (cmd_exited 127 ''not found'', r))"

text \<open>A command that stops early has no effect unless it is a batch.\<close>

definition stopped_command :: "nat \<Rightarrow> command \<Rightarrow> 'r router \<Rightarrow> 'r router" where
  "stopped_command n c r = (if c = uci_command [''-q'', ''batch''] (CmdStdin c)
     then r\<lparr>Shown := snd (exec_lines (take n (split_on uci_newline (CmdStdin c))) (Shown r))\<rparr> else r)"

definition router_run :: "'r router runner" where
  "router_run c = State (\<lambda>r. let r' = r\<lparr>UciAsked := UciAsked r + 1\<rparr> in
     case UciPlan r (UciAsked r) of
       Some (NotStarted e) \<Rightarrow> (Inl e, r')
     | Some (StopsAfter n code msg) \<Rightarrow> (Inr (cmd_exited code msg), stopped_command n c r')
     | None \<Rightarrow> (case answer_command c r' of (a, r'') \<Rightarrow> (Inr a, r'')))"

section \<open>Well-kept routers\<close>

definition value_ok :: "string \<Rightarrow> bool" where
  "value_ok v \<longleftrightarrow> utf8_text v \<and> uci_newline \<notin> set v"

definition option_ok :: "uci_option \<Rightarrow> bool" where
  "option_ok s \<longleftrightarrow> Present s \<and> (Kind s = uci_single \<and> length (Values s) = 1 \<or> Kind s = uci_list \<and> Values s \<noteq> []) \<and>
     list_all value_ok (Values s)"

definition name_ok :: "string \<Rightarrow> bool" where
  "name_ok n \<longleftrightarrow> n \<noteq> [] \<and> list_all (\<lambda>c. is_alnum c \<or> c = CHR ''_'') n"

definition kept :: "'r router \<Rightarrow> bool" where
  "kept r \<longleftrightarrow> distinct (map fst (Shown r)) \<and> list_all (\<lambda>(n, s). name_ok n \<and> option_ok s) (Shown r) \<and>
     list_all (\<lambda>(t, ls). name_ok t \<and> list_all (\<lambda>l. uci_newline \<notin> set l) ls) (LaterSections r)"

definition shown_at :: "'r router \<Rightarrow> string \<Rightarrow> uci_option" where
  "shown_at r n = option_at (map_of (Shown r)) n"

section \<open>Reading the export\<close>

lemma name_safe: "name_ok n \<Longrightarrow> list_all safe n \<and> n \<noteq> []"
proof -
  have "safe c" if "is_alnum c \<or> c = CHR ''_''" for c
    using that by (auto simp: safe_def plain_def is_alnum_def single_quote_def double_quote_def backslash_def Let_def)
  then show "name_ok n \<Longrightarrow> list_all safe n \<and> n \<noteq> []"
    by (auto simp: name_ok_def list_all_iff)
qed

lemma safe_words [simp]:
  "list_all safe ''config''" "list_all safe ''dnsmasq''" "list_all safe uci_single" "list_all safe uci_list"
  "list_all safe ''set''" "list_all safe ''delete''" "list_all safe ''add_list''" "list_all safe ''commit''" "list_all safe ''dhcp''"
  "list_all safe dnsmasq_prefix"
  by code_simp+

definition option_line :: "string \<Rightarrow> string \<Rightarrow> string \<Rightarrow> string" where
  "option_line kind n v = kind @ '' '' @ n @ '' '' @ quote_uci v"

lemma option_lines_line: "option_lines (n, s) = map (\<lambda>v. CHR 0x09 # option_line (Kind s) n v) (Values s)"
  by (simp add: option_lines_def option_line_def)

lemma option_line_words:
  assumes "kind = uci_single \<or> kind = uci_list" and "name_ok n" and "utf8_text v"
  shows "parse_uci_words (option_line kind n v) = Inr [kind, n, v]"
proof -
  have "list_all safe kind" "kind \<noteq> []"
    using assms(1) safe_words(3,4) by (auto simp: uci_single_def uci_list_def)
  then show ?thesis
    using parse_words [of "[(kind, None), (n, None), ([], Some v)]"] name_safe [OF assms(2)] assms(3)
    by (simp add: word_ok_def word_text_def word_value_def option_line_def)
qed

lemma option_line_trim:
  assumes "kind = uci_single \<or> kind = uci_list"
  shows "trim_space (CHR 0x09 # option_line kind n v) = option_line kind n v"
proof -
  have start: "option_line kind n v \<noteq> []" "plain (hd (option_line kind n v))" "plain (last (option_line kind n v))"
    using assms by (auto simp: option_line_def quote_uci_def single_quote_def plain_def uci_single_def uci_list_def)
  have "space_at (CHR 0x09 # s) = Some [CHR 0x09]" for s
  proof -
    have "CHR 0x09 # s = [CHR 0x09] @ s"
      by simp
    have runes: "space_runes = map bytes [[0x20], [0x09]] @ drop 2 space_runes" "bytes [0x20] = '' ''" "bytes [0x09] = [CHR 0x09]"
      by code_simp+
    show ?thesis
      unfolding space_at_def by (subst runes(1)) (simp add: runes(2,3))
  qed
  moreover have "find (\<lambda>r. r \<noteq> [] \<and> prefix r s) space_runes = space_at s" for s
    unfolding space_at_def by (rule find_cong) (use space_runes_not_Nil in auto)
  ultimately have "find (\<lambda>r. r \<noteq> [] \<and> prefix r (CHR 0x09 # s)) space_runes = Some [CHR 0x09]" for s
    by simp
  then have "strip_any space_runes (CHR 0x09 # s) = strip_any space_runes s" for s
    by (subst strip_any.simps) simp
  then show ?thesis
    using trim_plain [OF start] by (simp add: trim_space_def)
qed

lemma plain_lines:
  "trim_space ''package dhcp'' = ''package dhcp''" "trim_space ''config dnsmasq'' = ''config dnsmasq''"
  "ignored_line ''package dhcp''" "ignored_line []" "\<not> ignored_line ''config dnsmasq''"
proof -
  show "trim_space ''package dhcp'' = ''package dhcp''" "trim_space ''config dnsmasq'' = ''config dnsmasq''"
    by (rule trim_plain; simp add: plain_def)+
qed (simp_all add: ignored_line_def)

lemma config_words: "name_ok t \<Longrightarrow> parse_uci_words (''config '' @ t) = Inr [''config'', t]"
  using parse_words [of "[(''config'', None), (t, None)]"] name_safe [of t] safe_words(1)
  by (simp add: word_ok_def word_text_def word_value_def del: safe_words)

lemma option_line_read:
  assumes "kind = uci_single \<or> kind = uci_list"
  shows "\<not> ignored_line (option_line kind n v)"
  using assms by (auto simp: option_line_def ignored_line_def uci_single_def uci_list_def)

lemma kinds [simp]: "uci_single \<noteq> uci_list" "uci_list \<noteq> uci_single" "uci_single \<noteq> ''config''" "uci_list \<noteq> ''config''"
  by (simp_all add: uci_single_def uci_list_def)

end
