(* ===== verification/Dns_Batch.thy ===== *)
theory Dns_Batch
  imports Uci_Machine
begin

text \<open>
  What a batch of the DNS manager does to the options of a router: executed to its end it makes the
  managed options the wanted ones, and stopped after any line it has touched nothing else.
\<close>

section \<open>Options in good order\<close>

definition in_order :: "(string \<times> uci_option) list \<Rightarrow> bool" where
  "in_order opts \<longleftrightarrow> distinct (map fst opts) \<and> list_all (\<lambda>(n, s). name_ok n \<and> option_ok s) opts"

definition same_outside :: "string set \<Rightarrow> (string \<times> uci_option) list \<Rightarrow> (string \<times> uci_option) list \<Rightarrow> bool" where
  "same_outside names opts opts' \<longleftrightarrow> in_order opts' \<and> (\<forall>n. n \<notin> names \<longrightarrow> map_of opts' n = map_of opts n)"

lemma kept_in_order: "kept r \<longleftrightarrow> in_order (Shown r) \<and>
    list_all (\<lambda>(t, ls). name_ok t \<and> list_all (\<lambda>l. uci_newline \<notin> set l) ls) (LaterSections r)"
  by (auto simp: kept_def in_order_def)

lemma same_outside_refl [simp]: "same_outside names opts opts \<longleftrightarrow> in_order opts"
  by (simp add: same_outside_def)

lemma same_outside_trans:
  "same_outside names a b \<Longrightarrow> same_outside names b c \<Longrightarrow> same_outside names a c"
  by (simp add: same_outside_def)

lemma in_order_at: "in_order opts \<Longrightarrow> map_of opts n = Some s \<Longrightarrow> option_ok s \<and> name_ok n"
  by (auto simp: in_order_def list_all_iff dest!: map_of_SomeD)

lemma in_order_update:
  assumes "in_order opts" and "name_ok n" and "option_ok s"
  shows "in_order (AList.update n s opts)"
proof -
  have "set (AList.update n s opts) \<subseteq> insert (n, s) (set opts)"
    by (induction opts) auto
  then show ?thesis
    using assms by (auto simp: in_order_def list_all_iff distinct_update)
qed

lemma in_order_delete: "in_order opts \<Longrightarrow> in_order (AList.delete n opts)"
  using distinct_delete [of opts n] filter_is_subset [of _ opts]
  by (auto simp: in_order_def list_all_iff) (auto simp: AList.delete_eq)

section \<open>Lines\<close>

definition option_word :: "string \<Rightarrow> string" where
  "option_word n = dnsmasq_prefix @ n"

definition delete_body :: "string \<Rightarrow> string" where
  "delete_body n = ''delete '' @ option_word n"

definition value_body :: "string \<Rightarrow> string \<Rightarrow> string \<Rightarrow> string" where
  "value_body verb n v = verb @ '' '' @ option_word n @ ''='' @ quote_uci v"

lemma option_word_safe: "name_ok n \<Longrightarrow> list_all safe (option_word n) \<and> option_word n \<noteq> []"
  using name_safe [of n] safe_words(10) by (simp add: option_word_def)

lemma drop_prefix [simp]: "drop (length dnsmasq_prefix) (option_word n) = n" "prefix dnsmasq_prefix (option_word n)"
  by (simp_all add: option_word_def)

lemma equals_safe: "safe (CHR ''='')"
  by code_simp

lemma option_word_no_equals:
  assumes "name_ok n"
  shows "CHR ''='' \<notin> set (option_word n)"
proof -
  have "CHR ''='' \<notin> set dnsmasq_prefix"
    by code_simp
  then show ?thesis
    using assms by (auto simp: option_word_def name_ok_def list_all_iff is_alnum_def)
qed

lemma assignment_word:
  assumes "name_ok n"
  shows "assignment (option_word n @ ''='' @ v) = Some (n, v)"
proof -
  have "takeWhile (\<lambda>c. c \<noteq> CHR ''='') (option_word n @ ''='' @ v) = option_word n"
    using option_word_no_equals [OF assms] by (subst takeWhile_append2) auto
  then show ?thesis
    by (simp add: assignment_def)
qed

lemma exec_delete_body:
  assumes "name_ok n"
  shows "exec_line (delete_body n) opts =
    (if n \<in> fst ` set opts then Some (AList.delete n opts) else None)"
  using parse_words [of "[(''delete'', None), (option_word n, None)]"] option_word_safe [OF assms] safe_words(6)
  by (simp add: word_ok_def word_text_def word_value_def delete_body_def exec_line_def exec_words_def Let_def del: safe_words)

lemma exec_value_body:
  assumes "name_ok n" and "utf8_text v" and "verb = ''set'' \<or> verb = ''add_list''"
  shows "exec_line (value_body verb n v) opts = Some (AList.update n
    (if verb = ''set'' then \<lparr>Present = True, Kind = uci_single, Values = [v]\<rparr> else appended (map_of opts n) v) opts)"
proof -
  have "list_all safe verb" "verb \<noteq> []"
    using assms(3) safe_words(5,7) by auto
  then have "parse_uci_words (value_body verb n v) = Inr [verb, option_word n @ ''='' @ v]"
    using parse_words [of "[(verb, None), (option_word n @ ''='', Some v)]"] option_word_safe [OF assms(1)] assms(2) equals_safe
    by (simp add: word_ok_def word_text_def word_value_def value_body_def)
  moreover have "verb \<noteq> ''delete''" "verb \<noteq> ''commit''"
    using assms(3) by auto
  ultimately show ?thesis
    using assignment_word [OF assms(1), of v] assms(3) by (auto simp: exec_line_def exec_words_def)
qed

lemma exec_commit_body: "exec_line ''commit dhcp'' opts = Some opts"
  using parse_words [of "[(''commit'', None), (''dhcp'', None)]"] safe_words(8,9)
  by (simp add: word_ok_def word_text_def word_value_def exec_line_def exec_words_def del: safe_words)

lemma exec_empty_body: "exec_line [] opts = Some opts"
proof -
  have "parse_uci_words [] = Inr []"
    by code_simp
  then show ?thesis
    by (simp add: exec_line_def exec_words_def)
qed

section \<open>Lines that touch managed options only\<close>

definition tame_line :: "string set \<Rightarrow> string \<Rightarrow> bool" where
  "tame_line names l \<longleftrightarrow> (\<forall>opts opts'. in_order opts \<longrightarrow> exec_line l opts = Some opts' \<longrightarrow> same_outside names opts opts')"

lemma tame_delete: "name_ok n \<Longrightarrow> n \<in> names \<Longrightarrow> tame_line names (delete_body n)"
  by (auto simp: tame_line_def exec_delete_body same_outside_def in_order_delete delete_conv' split: if_splits)

lemma tame_value:
  assumes "name_ok n" and "n \<in> names" and "value_ok v" and "verb = ''set'' \<or> verb = ''add_list''"
  shows "tame_line names (value_body verb n v)"
  unfolding tame_line_def
proof (intro allI impI)
  fix opts opts'
  assume *: "in_order opts" "exec_line (value_body verb n v) opts = Some opts'"
  let ?s = "if verb = ''set'' then \<lparr>Present = True, Kind = uci_single, Values = [v]\<rparr> else appended (map_of opts n) v"
  have "opts' = AList.update n ?s opts"
    using *(2) exec_value_body [OF assms(1) _ assms(4)] assms(3) by (simp add: value_ok_def)
  moreover have "option_ok (appended (map_of opts n) v)"
    using assms(3) in_order_at [OF *(1), of n] by (cases "map_of opts n") (auto simp: appended_def option_ok_def)
  then have "option_ok ?s"
    using assms(3) by (simp add: option_ok_def)
  ultimately show "same_outside names opts opts'"
    using in_order_update [OF *(1) assms(1)] assms(2) by (auto simp: same_outside_def update_conv')
qed

lemma tame_rest: "tame_line names ''commit dhcp''" "tame_line names []"
  by (auto simp: tame_line_def exec_commit_body exec_empty_body)

lemma tame_lines:
  "list_all (tame_line names) ls \<Longrightarrow> in_order opts \<Longrightarrow> same_outside names opts (snd (exec_lines ls opts))"
proof (induction ls arbitrary: opts)
  case (Cons l ls)
  show ?case
  proof (cases "exec_line l opts")
    case None
    then show ?thesis
      using Cons.prems by simp
  next
    case (Some opts')
    then have "same_outside names opts opts'"
      using Cons.prems unfolding tame_line_def by simp
    moreover from this have "same_outside names opts' (snd (exec_lines ls opts'))"
      using Cons by (simp add: same_outside_def)
    ultimately show ?thesis
      using Some same_outside_trans by fastforce
  qed
qed simp

section \<open>The batch to its end\<close>

definition option_of :: "uci_option \<Rightarrow> uci_option option" where
  "option_of s = (if Present s then Some s else None)"

text \<open>A wanted option: absent without data, or one an export can show.\<close>

definition wanted_ok :: "uci_option \<Rightarrow> bool" where
  "wanted_ok s \<longleftrightarrow> s = no_option \<or> option_ok s"

lemma exec_append: "exec_lines (xs @ ys) opts =
    (case exec_lines xs opts of (ok, o') \<Rightarrow> if ok then exec_lines ys o' else (False, o'))"
  by (induction xs arbitrary: opts) (auto split: option.split)

lemma exec_values:
  assumes "name_ok n" and "list_all value_ok vs" and "vs \<noteq> []"
  shows "\<exists>opts'. exec_lines (map (value_body ''add_list'' n) vs) opts = (True, opts') \<and>
    map_of opts' = (map_of opts)(n \<mapsto> \<lparr>Present = True, Kind = uci_list,
      Values = (case map_of opts n of None \<Rightarrow> [] | Some x \<Rightarrow> Values x) @ vs\<rparr>)"
  using assms(2,3)
proof (induction vs arbitrary: opts)
  case (Cons v vs)
  let ?o = "AList.update n (appended (map_of opts n) v) opts"
  have "exec_line (value_body ''add_list'' n v) opts = Some ?o"
    using exec_value_body [OF assms(1), of v "''add_list''"] Cons.prems by (simp add: value_ok_def)
  then show ?case
    using Cons.IH [of ?o] Cons.prems
    by (cases "vs = []") (simp_all add: update_conv' appended_def del: fun_upd_apply, simp_all)
qed simp

definition option_bodies :: "uci_options \<Rightarrow> string \<Rightarrow> uci_option \<Rightarrow> string list" where
  "option_bodies current n s = (if Present (option_at current n) then [delete_body n] else []) @
     (if \<not> Present s then [] else if Kind s = uci_single then [value_body ''set'' n (hd (Values s))]
      else map (value_body ''add_list'' n) (Values s))"

lemma exec_option_bodies:
  assumes "name_ok n" and "wanted_ok s" and "Present (option_at current n) = (n \<in> fst ` set opts)"
  shows "\<exists>opts'. exec_lines (option_bodies current n s) opts = (True, opts') \<and>
    map_of opts' = (map_of opts)(n := option_of s)"
proof -
  define o1 where "o1 = (if Present (option_at current n) then AList.delete n opts else opts)"
  have o1: "exec_lines (if Present (option_at current n) then [delete_body n] else []) opts = (True, o1)"
    using assms(3) exec_delete_body [OF assms(1)] by (simp add: o1_def)
  have at: "map_of o1 = (map_of opts)(n := None)"
    using assms(3) by (auto simp: o1_def delete_conv' fun_eq_iff map_of_eq_None_iff)
  consider (absent) "\<not> Present s" | (single) v where "s = \<lparr>Present = True, Kind = uci_single, Values = [v]\<rparr>" "value_ok v"
    | (list) vs where "s = \<lparr>Present = True, Kind = uci_list, Values = vs\<rparr>" "list_all value_ok vs" "vs \<noteq> []"
    using assms(2) by (cases s) (auto simp: wanted_ok_def option_ok_def no_option_def length_Suc_conv)
  then show ?thesis
  proof cases
    case absent
    then show ?thesis
      using o1 at by (simp add: option_bodies_def exec_append option_of_def)
  next
    case single
    then show ?thesis
      using o1 at exec_value_body [OF assms(1), of v "''set''" o1]
      by (simp add: option_bodies_def exec_append option_of_def update_conv' value_ok_def)
  next
    case list
    then show ?thesis
      using o1 at exec_values [OF assms(1) list(2,3), of o1] by (auto simp: option_bodies_def exec_append option_of_def)
  qed
qed

lemma tame_bodies:
  assumes "name_ok n" and "n \<in> names" and "wanted_ok s"
  shows "list_all (tame_line names) (option_bodies current n s)"
proof -
  have "list_all value_ok (Values s)"
    using assms(3) by (auto simp: wanted_ok_def option_ok_def no_option_def)
  moreover have "Present s \<Longrightarrow> Values s \<noteq> []"
    using assms(3) by (auto simp: wanted_ok_def option_ok_def no_option_def)
  ultimately show ?thesis
    using tame_value [OF assms(1,2)] tame_delete [OF assms(1,2)] by (auto simp: option_bodies_def list_all_iff)
qed

text \<open>The options one after the other.\<close>

definition batch_bodies :: "uci_options \<Rightarrow> (string \<Rightarrow> uci_option) \<Rightarrow> string list \<Rightarrow> string list" where
  "batch_bodies current wanted names = concat (map (\<lambda>n. option_bodies current n (wanted n)) names)"

lemma exec_batch_bodies:
  assumes "distinct names" and "\<forall>n \<in> set names. name_ok n \<and> wanted_ok (wanted n)"
    and "\<forall>n \<in> set names. Present (option_at current n) = (map_of opts n \<noteq> None)"
  shows "\<exists>opts'. exec_lines (batch_bodies current wanted names) opts = (True, opts') \<and>
    map_of opts' = (\<lambda>n. if n \<in> set names then option_of (wanted n) else map_of opts n)"
  using assms
proof (induction names arbitrary: opts)
  case (Cons n names)
  obtain o1 where o1: "exec_lines (option_bodies current n (wanted n)) opts = (True, o1)"
      "map_of o1 = (map_of opts)(n := option_of (wanted n))"
    using exec_option_bodies [of n "wanted n" current opts] Cons.prems by (auto simp: map_of_eq_None_iff)
  obtain o2 where "exec_lines (batch_bodies current wanted names) o1 = (True, o2)"
      "map_of o2 = (\<lambda>k. if k \<in> set names then option_of (wanted k) else map_of o1 k)"
  proof -
    have "\<forall>k \<in> set names. Present (option_at current k) = (map_of o1 k \<noteq> None)"
      using Cons.prems(1,3) by (auto simp: o1(2))
    then show thesis
      using Cons.IH [of o1] Cons.prems(1,2) that by auto
  qed
  then show ?case
    using o1 Cons.prems(1) by (auto simp: batch_bodies_def exec_append fun_eq_iff)
qed (simp add: batch_bodies_def)

lemma tame_batch:
  "\<forall>n \<in> set names. name_ok n \<and> wanted_ok (wanted n) \<Longrightarrow>
   list_all (tame_line (set names)) (batch_bodies current wanted names)"
  using tame_bodies by (fastforce simp: batch_bodies_def list_all_iff)

end
