(* ===== verification/Dns_Manager_Proofs.thy ===== *)
theory Dns_Manager_Proofs
  imports Dns_Batch
begin

text \<open>
  The DNS manager on the router: what the export holds is read exactly, a batch turns the options into
  the wanted ones, and a batch that stops early has touched nothing but managed options. So a restore
  that succeeds undoes everything that happened since the backup.
\<close>

section \<open>The export is read back\<close>

lemma newline_quote: "uci_newline \<notin> set v \<Longrightarrow> uci_newline \<notin> set (quote_uci v)"
  by (auto simp: quote_uci_def uci_newline_def single_quote_def backslash_def split: if_splits)

lemma newline_safe: "list_all safe w \<Longrightarrow> uci_newline \<notin> set w"
  by (auto simp: list_all_iff safe_def plain_def uci_newline_def)

lemma name_no_newline: "name_ok n \<Longrightarrow> uci_newline \<notin> set n"
  using name_safe [of n] newline_safe [of n] by blast

lemma option_kind: "option_ok s \<Longrightarrow> Kind s = uci_single \<or> Kind s = uci_list"
  by (auto simp: option_ok_def)

lemma option_line_no_newline:
  assumes "kind = uci_single \<or> kind = uci_list" and "name_ok n" and "value_ok v"
  shows "uci_newline \<notin> set (option_line kind n v)"
  using assms newline_quote [of v] name_no_newline [of n] newline_safe [OF safe_words(3)] newline_safe [OF safe_words(4)]
  by (auto simp: option_line_def value_ok_def uci_newline_def)

lemma export_lines_split:
  assumes "kept r"
  shows "split_on uci_newline (export_text r) = export_lines r"
  unfolding export_text_def
proof (rule split_join)
  fix p
  assume "p \<in> set (export_lines r)"
  then consider (fixed) "p \<in> {''package dhcp'', [], ''config dnsmasq''}"
    | (opt) n s v where "(n, s) \<in> set (Shown r)" "v \<in> set (Values s)" "p = CHR 0x09 # option_line (Kind s) n v"
    | (sec) t ls where "(t, ls) \<in> set (LaterSections r)" "p = ''config '' @ t \<or> p \<in> set ls"
    by (auto simp: export_lines_def option_lines_line section_lines_def split: prod.splits)
  then show "uci_newline \<notin> set p"
  proof cases
    case fixed
    then show ?thesis by (auto simp: uci_newline_def)
  next
    case opt
    then have "name_ok n" "option_ok s"
      using assms by (auto simp: kept_def list_all_iff)
    then show ?thesis
      using option_line_no_newline [of "Kind s" n v] option_kind [of s] opt
      by (auto simp: option_ok_def list_all_iff) (auto simp: uci_newline_def)
  next
    case sec
    then have "name_ok t" "\<forall>l \<in> set ls. uci_newline \<notin> set l"
      using assms by (auto simp: kept_def list_all_iff)
    then show ?thesis
      using name_no_newline [of t] sec by (auto simp: uci_newline_def)
  qed
qed (simp add: export_lines_def)

text \<open>One line of an option.\<close>

lemma read_value_line:
  assumes "kind = uci_single \<or> kind = uci_list" and "name_ok m" and "utf8_text v"
  shows "read_uci_lines sec wanted ((CHR 0x09 # option_line kind m v) # rest) n True found result =
    (if m \<in> set wanted then (case add_uci_value kind m v result of
         Inl e \<Rightarrow> Inl e | Inr result' \<Rightarrow> read_uci_lines sec wanted rest (n + 1) True found result')
     else read_uci_lines sec wanted rest (n + 1) True found result)"
  using assms option_line_read [OF assms(1)] option_line_trim [OF assms(1)] option_line_words [OF assms]
  by (auto simp: Let_def)

lemma read_list_values:
  assumes "name_ok m" and "m \<in> set wanted" and "list_all utf8_text vs"
    and "result m = Some \<lparr>Present = (us \<noteq> []), Kind = (if us = [] then [] else uci_list), Values = us\<rparr>"
  shows "read_uci_lines sec wanted (map (\<lambda>v. CHR 0x09 # option_line uci_list m v) vs @ rest) n True found result =
    read_uci_lines sec wanted rest (n + length vs) True found
      (if vs = [] then result else result(m \<mapsto> \<lparr>Present = True, Kind = uci_list, Values = us @ vs\<rparr>))"
  using assms(3,4)
proof (induction vs arbitrary: n result us)
  case (Cons v vs)
  let ?r = "result(m \<mapsto> \<lparr>Present = True, Kind = uci_list, Values = us @ [v]\<rparr>)"
  have "add_uci_value uci_list m v result = Inr ?r"
    using Cons.prems(2) by (auto simp: add_uci_value_def option_at_def)
  then have "read_uci_lines sec wanted (map (\<lambda>v. CHR 0x09 # option_line uci_list m v) (v # vs) @ rest) n True found result =
      read_uci_lines sec wanted (map (\<lambda>v. CHR 0x09 # option_line uci_list m v) vs @ rest) (n + 1) True found ?r"
    using Cons.prems assms(1,2) read_value_line [of uci_list m v] by (simp del: read_uci_lines.simps)
  also have "\<dots> = read_uci_lines sec wanted rest (n + 1 + length vs) True found
      (if vs = [] then ?r else ?r(m \<mapsto> \<lparr>Present = True, Kind = uci_list, Values = (us @ [v]) @ vs\<rparr>))"
    by (rule Cons.IH) (use Cons.prems in simp_all)
  also have "(if vs = [] then ?r else ?r(m \<mapsto> \<lparr>Present = True, Kind = uci_list, Values = (us @ [v]) @ vs\<rparr>)) =
      result(m \<mapsto> \<lparr>Present = True, Kind = uci_list, Values = us @ v # vs\<rparr>)"
    by (cases vs) simp_all
  finally show ?case
    by (simp del: read_uci_lines.simps fun_upd_apply)
qed simp

lemma read_unwanted:
  assumes "m \<notin> set wanted" and "name_ok m" and "kind = uci_single \<or> kind = uci_list" and "list_all utf8_text vs"
  shows "read_uci_lines sec wanted (map (\<lambda>v. CHR 0x09 # option_line kind m v) vs @ rest) n True found result =
    read_uci_lines sec wanted rest (n + length vs) True found result"
  using assms(4)
  by (induction vs arbitrary: n) (simp_all add: read_value_line [OF assms(3,2)] assms(1) del: read_uci_lines.simps)

lemma read_option:
  assumes "name_ok m" and "option_ok s" and "m \<in> set wanted \<Longrightarrow> result m = Some no_option"
  shows "read_uci_lines sec wanted (option_lines (m, s) @ rest) n True found result =
    read_uci_lines sec wanted rest (n + length (Values s)) True found
      (if m \<in> set wanted then result(m \<mapsto> s) else result)"
proof (cases "m \<in> set wanted")
  case False
  then show ?thesis
    using read_unwanted [OF False assms(1) option_kind [OF assms(2)], of "Values s"] assms(2)
    by (auto simp: option_lines_line option_ok_def value_ok_def list_all_iff)
next
  case True
  have valid: "list_all utf8_text (Values s)"
    using assms(2) by (auto simp: option_ok_def value_ok_def list_all_iff)
  show ?thesis
  proof (cases "Kind s = uci_list")
    case True
    then have "s = \<lparr>Present = True, Kind = uci_list, Values = Values s\<rparr>" "Values s \<noteq> []"
      using assms(2) by (auto simp: option_ok_def)
    then show ?thesis
      using read_list_values [OF assms(1) \<open>m \<in> set wanted\<close> valid, of result "[]"] assms(3) \<open>m \<in> set wanted\<close> True
      by (simp add: option_lines_line no_option_def)
  next
    case False
    then have k: "Kind s = uci_single" "length (Values s) = 1" "Present s"
      using assms(2) by (auto simp: option_ok_def)
    then obtain v where v: "Values s = [v]"
      by (cases "Values s") auto
    then have s: "\<lparr>Present = True, Kind = uci_single, Values = [v]\<rparr> = s"
      using k by (cases s) simp
    have "add_uci_value uci_single m v result = Inr (result(m \<mapsto> s))"
      using assms(3) \<open>m \<in> set wanted\<close> by (simp add: add_uci_value_def option_at_def no_option_def s)
    then show ?thesis
      using read_value_line [of uci_single m v sec wanted] assms(1) valid v k \<open>m \<in> set wanted\<close>
      by (simp add: option_lines_line del: read_uci_lines.simps)
  qed
qed

lemma read_step:
  assumes "map_of opts m = None"
  shows "(\<lambda>k. if k \<in> W then (case map_of opts k of None \<Rightarrow> (if m \<in> W then result(m \<mapsto> s) else result) k | Some x \<Rightarrow> Some x)
      else (if m \<in> W then result(m \<mapsto> s) else result) k) =
    (\<lambda>k. if k \<in> W then (case map_of ((m, s) # opts) k of None \<Rightarrow> result k | Some x \<Rightarrow> Some x) else result k)"
proof
  fix k
  show "(if k \<in> W then (case map_of opts k of None \<Rightarrow> (if m \<in> W then result(m \<mapsto> s) else result) k | Some x \<Rightarrow> Some x)
      else (if m \<in> W then result(m \<mapsto> s) else result) k) =
    (if k \<in> W then (case map_of ((m, s) # opts) k of None \<Rightarrow> result k | Some x \<Rightarrow> Some x) else result k)"
    using assms by (cases "k = m"; cases "map_of opts k") auto
qed

lemma read_options:
  assumes "distinct (map fst opts)" and "list_all (\<lambda>(n, s). name_ok n \<and> option_ok s) opts"
    and "\<forall>m \<in> fst ` set opts. m \<in> set wanted \<longrightarrow> result m = Some no_option"
  shows "\<exists>k. read_uci_lines sec wanted (concat (map option_lines opts) @ rest) n True found result =
    read_uci_lines sec wanted rest k True found
      (\<lambda>m. if m \<in> set wanted then (case map_of opts m of None \<Rightarrow> result m | Some s \<Rightarrow> Some s) else result m)"
  using assms
proof (induction opts arbitrary: n result)
  case Nil
  have "(\<lambda>m. if m \<in> set wanted then (case map_of [] m of None \<Rightarrow> result m | Some s \<Rightarrow> Some s) else result m) = result"
    by (simp add: fun_eq_iff)
  then show ?case
    by (intro exI [of _ n]) (simp only: list.map concat.simps append_Nil)
next
  case (Cons a opts)
  obtain m s where a: "a = (m, s)"
    by (cases a)
  let ?r = "if m \<in> set wanted then result(m \<mapsto> s) else result"
  have ok: "\<forall>k \<in> fst ` set opts. k \<in> set wanted \<longrightarrow> ?r k = Some no_option"
    using Cons.prems by (auto simp: a)
  have d: "distinct (map fst opts)" "list_all (\<lambda>(n, s). name_ok n \<and> option_ok s) opts"
    using Cons.prems by simp_all
  obtain k where k: "read_uci_lines sec wanted (concat (map option_lines opts) @ rest) (n + length (Values s)) True found ?r =
      read_uci_lines sec wanted rest k True found
        (\<lambda>m. if m \<in> set wanted then (case map_of opts m of None \<Rightarrow> ?r m | Some s \<Rightarrow> Some s) else ?r m)"
    using Cons.IH [OF d ok, of "n + length (Values s)"] by (elim exE) (rule that)
  have "map_of opts m = None"
    using Cons.prems(1) by (auto simp: a map_of_eq_None_iff)
  then have f: "(\<lambda>k. if k \<in> set wanted then (case map_of opts k of None \<Rightarrow> ?r k | Some s \<Rightarrow> Some s) else ?r k) =
      (\<lambda>k. if k \<in> set wanted then (case map_of (a # opts) k of None \<Rightarrow> result k | Some s \<Rightarrow> Some s) else result k)"
    unfolding a by (rule read_step)
  have "read_uci_lines sec wanted (concat (map option_lines (a # opts)) @ rest) n True found result =
      read_uci_lines sec wanted (concat (map option_lines opts) @ rest) (n + length (Values s)) True found ?r"
    using read_option [of m s wanted result sec "concat (map option_lines opts) @ rest"] Cons.prems
    by (simp add: a del: read_uci_lines.simps)
  then show ?case
    unfolding k f by (rule exI)
qed

lemma trim_nothing: "trim_space [] = []"
  by (simp add: trim_space_def)

lemma read_rest:
  assumes "list_all (\<lambda>(t, ls). name_ok t \<and> list_all (\<lambda>l. uci_newline \<notin> set l) ls) secs"
  shows "read_uci_lines sec wanted ([[]] @ concat (map section_lines secs)) n True found result = Inr (found, result)"
proof (cases secs)
  case (Cons a rest)
  obtain t ls where a: "a = (t, ls)"
    by (cases a)
  then have t: "name_ok t"
    using assms Cons by simp
  then have "plain (last t)" "t \<noteq> []"
    using name_safe [OF t] by (auto simp: list_all_iff safe_plain)
  then have "trim_space (''config '' @ t) = ''config '' @ t"
    by (intro trim_plain) (auto simp: plain_def)
  then show ?thesis
    using config_words [OF t] by (simp add: Cons a section_lines_def ignored_line_def trim_nothing Let_def)
qed (simp add: ignored_line_def trim_nothing Let_def)

lemma read_section_head:
  "read_uci_lines ''dnsmasq'' wanted (''package dhcp'' # [] # ''config dnsmasq'' # rest) n False found result =
    read_uci_lines ''dnsmasq'' wanted rest (n + 3) True True result"
proof -
  have "parse_uci_words ''config dnsmasq'' = Inr [''config'', ''dnsmasq'']"
    using config_words [of "''dnsmasq''"] by (simp add: name_ok_def is_alnum_def)
  then show ?thesis
    using plain_lines trim_nothing by (simp add: Let_def numeral_eq_Suc)
qed

lemma export_read:
  assumes "kept r"
  shows "parse_first_uci_section (export_text r) ''dnsmasq'' wanted =
    Inr (\<lambda>n. if n \<in> set wanted then Some (shown_at r n) else None)"
proof -
  let ?start = "\<lambda>n. if n \<in> set wanted then Some no_option else None"
  let ?all = "\<lambda>n. if n \<in> set wanted then Some (shown_at r n) else None"
  let ?rest = "[[]] @ concat (map section_lines (LaterSections r))"
  obtain k where "read_uci_lines ''dnsmasq'' wanted (concat (map option_lines (Shown r)) @ ?rest) 4 True True ?start =
      read_uci_lines ''dnsmasq'' wanted ?rest k True True
        (\<lambda>m. if m \<in> set wanted then (case map_of (Shown r) m of None \<Rightarrow> ?start m | Some s \<Rightarrow> Some s) else ?start m)"
    using read_options [of "Shown r" wanted ?start "''dnsmasq''" ?rest 4 True] assms unfolding kept_def by auto
  also have "(\<lambda>m. if m \<in> set wanted then (case map_of (Shown r) m of None \<Rightarrow> ?start m | Some s \<Rightarrow> Some s) else ?start m) = ?all"
    by (auto simp: shown_at_def option_at_def fun_eq_iff split: option.split)
  also have "read_uci_lines ''dnsmasq'' wanted ?rest k True True ?all = Inr (True, ?all)"
    using assms by (intro read_rest) (simp add: kept_def)
  finally have "read_uci_lines ''dnsmasq'' wanted (export_lines r) 1 False False ?start = Inr (True, ?all)"
    by (simp add: export_lines_def read_section_head del: read_uci_lines.simps)
  then show ?thesis
    by (simp add: parse_first_uci_section_def export_lines_split [OF assms])
qed

end
