(* ===== verification/Dns_Restore.thy ===== *)
theory Dns_Restore
  imports Dns_Manager_Proofs
begin

text \<open>
  The programs of the DNS manager on the router, each with what it promises whatever the plan of
  faults makes its commands do.
\<close>

section \<open>The text of a batch\<close>

definition line_of :: "string \<Rightarrow> string" where
  "line_of l = l @ [uci_newline]"

lemma join_lines: "concat (map line_of ls) @ x = join [uci_newline] (ls @ [x])"
proof (induction ls)
  case (Cons l ls)
  then show ?case
    by (cases ls) (simp_all add: line_of_def)
qed simp

lemma option_path_word: "option_path new_dns_manager n = option_word n"
  by (simp add: option_path_def option_word_def new_dns_manager_def dnsmasq_prefix_def)

lemma option_batch_bodies:
  assumes "wanted_ok s"
  shows "option_batch new_dns_manager current n s = Inr (map line_of (option_bodies current n s))"
proof -
  have "\<not> Present s \<or> Kind s = uci_single \<or> Kind s = uci_list"
    using assms by (auto simp: wanted_ok_def no_option_def option_ok_def)
  then show ?thesis
    by (auto simp: option_batch_def option_bodies_def Let_def option_path_word line_of_def delete_line_def
        delete_body_def batch_line_def value_body_def)
qed

lemma options_batch_bodies:
  assumes "\<forall>n \<in> set names. wanted n = Some (w n) \<and> wanted_ok (w n)"
  shows "options_batch new_dns_manager current wanted names = Inr (map line_of (batch_bodies current w names))"
  using assms by (induction names) (auto simp: batch_bodies_def option_batch_bodies)

lemma body_no_newline:
  assumes "name_ok n" and "wanted_ok s" and "l \<in> set (option_bodies current n s)"
  shows "uci_newline \<notin> set l"
proof -
  have "uci_newline \<notin> set (option_word n)"
    using option_word_safe [OF assms(1)] newline_safe by blast
  moreover have "list_all value_ok (Values s)"
    using assms(2) by (auto simp: wanted_ok_def no_option_def option_ok_def)
  then have "uci_newline \<notin> set (quote_uci v)" if "v \<in> set (Values s)" for v
    using newline_quote [of v] that by (auto simp: list_all_iff value_ok_def)
  moreover have "Present s \<Longrightarrow> Values s \<noteq> []"
    using assms(2) by (auto simp: wanted_ok_def no_option_def option_ok_def)
  ultimately show ?thesis
    using assms(3) by (auto simp: option_bodies_def delete_body_def value_body_def split: if_splits)
      (auto simp: uci_newline_def)
qed

definition managed :: "string set" where
  "managed = set managed_dns_options"

lemma managed_names: "distinct managed_dns_options" "n \<in> managed \<Longrightarrow> name_ok n"
  by (auto simp: managed_def managed_dns_options_def name_ok_def is_alnum_def)

text \<open>Every managed option is wanted, as absent or as something an export can show.\<close>

definition wanted_map :: "uci_options \<Rightarrow> bool" where
  "wanted_map w \<longleftrightarrow> (\<forall>n \<in> managed. \<exists>s. w n = Some s \<and> wanted_ok s)"

definition all_bodies :: "uci_options \<Rightarrow> uci_options \<Rightarrow> string list" where
  "all_bodies current w = batch_bodies current (option_at w) managed_dns_options @ [''commit dhcp'', []]"

lemma wanted_map_at: "wanted_map w \<Longrightarrow> n \<in> managed \<Longrightarrow> w n = Some (option_at w n) \<and> wanted_ok (option_at w n)"
  by (auto simp: wanted_map_def option_at_def)

lemma batch_text:
  assumes "wanted_map w"
  shows "\<exists>ls. options_batch new_dns_manager current w managed_dns_options = Inr ls \<and>
    split_on uci_newline (concat ls @ commit_line new_dns_manager) = all_bodies current w"
proof -
  let ?bs = "batch_bodies current (option_at w) managed_dns_options"
  have "options_batch new_dns_manager current w managed_dns_options = Inr (map line_of ?bs)"
    using wanted_map_at [OF assms] by (intro options_batch_bodies) (auto simp: managed_def)
  moreover have "concat (map line_of ?bs) @ commit_line new_dns_manager = join [uci_newline] (all_bodies current w)"
    using join_lines [of "?bs @ [''commit dhcp'']" "[]"]
    by (simp add: all_bodies_def commit_line_def line_of_def new_dns_manager_def)
  moreover have "split_on uci_newline (join [uci_newline] (all_bodies current w)) = all_bodies current w"
  proof (rule split_join)
    fix l
    assume "l \<in> set (all_bodies current w)"
    then show "uci_newline \<notin> set l"
      using wanted_map_at [OF assms] managed_names(2)
      by (auto simp: all_bodies_def batch_bodies_def managed_def dest: body_no_newline [rotated 2])
        (auto simp: uci_newline_def)
  qed (simp add: all_bodies_def)
  ultimately show ?thesis
    by simp
qed

lemma tame_all:
  assumes "wanted_map w"
  shows "list_all (tame_line managed) (all_bodies current w)"
proof -
  have "list_all (tame_line managed) (batch_bodies current (option_at w) managed_dns_options)"
    unfolding managed_def by (rule tame_batch) (use wanted_map_at [OF assms] managed_names(2) in \<open>auto simp: managed_def\<close>)
  then show ?thesis
    by (simp add: all_bodies_def tame_rest)
qed

lemma exec_all:
  assumes "wanted_map w" and "\<forall>n \<in> managed. Present (option_at current n) = (map_of opts n \<noteq> None)"
  shows "\<exists>opts'. exec_lines (all_bodies current w) opts = (True, opts') \<and>
    (\<forall>n \<in> managed. map_of opts' n = option_of (option_at w n))"
proof -
  obtain opts' where "exec_lines (batch_bodies current (option_at w) managed_dns_options) opts = (True, opts')"
      "map_of opts' = (\<lambda>n. if n \<in> managed then option_of (option_at w n) else map_of opts n)"
    using exec_batch_bodies [OF managed_names(1), of "option_at w" current opts] wanted_map_at [OF assms(1)]
      managed_names(2) assms(2) by (auto simp: managed_def)
  then show ?thesis
    by (simp add: all_bodies_def exec_append exec_commit_body exec_empty_body)
qed

section \<open>Commands\<close>

text \<open>From here on no command fails.\<close>

definition router_calm :: "'r router \<Rightarrow> bool" where
  "router_calm r \<longleftrightarrow> (\<forall>n \<ge> UciAsked r. UciPlan r n = None)"

definition after_asking :: "'r router \<Rightarrow> 'r router" where
  "after_asking r = r\<lparr>UciAsked := UciAsked r + 1\<rparr>"

text \<open>Only managed options differ, and what follows the first section is untouched.\<close>

definition dns_touched :: "'r router \<Rightarrow> 'r router \<Rightarrow> bool" where
  "dns_touched r r' \<longleftrightarrow> same_outside managed (Shown r) (Shown r') \<and> LaterSections r' = LaterSections r \<and>
     Beyond r' = Beyond r \<and> UciPlan r' = UciPlan r \<and> UciAsked r \<le> UciAsked r'"

lemma dns_touched_kept: "kept r \<Longrightarrow> dns_touched r r' \<Longrightarrow> kept r'"
  by (simp add: kept_in_order dns_touched_def same_outside_def)

lemma dns_touched_trans: "dns_touched a b \<Longrightarrow> dns_touched b c \<Longrightarrow> dns_touched a c"
  by (auto simp: dns_touched_def intro: same_outside_trans)

lemma dns_touched_calm: "dns_touched r r' \<Longrightarrow> router_calm r \<Longrightarrow> router_calm r'"
  by (simp add: dns_touched_def router_calm_def)

lemma dns_touched_refl [simp]: "dns_touched r r = in_order (Shown r)"
  by (simp add: dns_touched_def)

lemma dns_touched_after [simp]: "kept r \<Longrightarrow> dns_touched r (after_asking r)" "kept (after_asking r) = kept r"
  "Shown (after_asking r) = Shown r" "Serving (after_asking r) = Serving r" "router_calm r \<Longrightarrow> router_calm (after_asking r)"
  "shown_at (after_asking r) n = shown_at r n" "export_text (after_asking r) = export_text r"
  by (auto simp: dns_touched_def after_asking_def kept_in_order router_calm_def shown_at_def export_text_def export_lines_def)

definition checked :: "command \<Rightarrow> cmd_result \<Rightarrow> cmd_result fallible" where
  "checked c a = (case exit_error c a of Some e \<Rightarrow> Inl e | None \<Rightarrow> Inr a)"

lemma checked_results [simp]: "checked c (cmd_succeeded out) = Inr (cmd_succeeded out)" "\<exists>e. checked c (cmd_exited code msg) = Inl e"
  by (simp_all add: checked_def exit_error_def cmd_succeeded_def cmd_exited_def)

definition troubled :: "'r router \<Rightarrow> bool" where
  "troubled r \<longleftrightarrow> UciPlan r (UciAsked r) \<noteq> None"

lemma troubled_calm: "troubled r \<Longrightarrow> \<not> router_calm r"
  by (auto simp: troubled_def router_calm_def)

lemma run_router_wp:
  assumes fails: "\<And>e. troubled r \<Longrightarrow> Q (Inl e) (after_asking r)"
    and stops: "\<And>e n. troubled r \<Longrightarrow> Q (Inl e) (stopped_command n c (after_asking r))"
    and answered: "case answer_command c (after_asking r) of (a, r') \<Rightarrow> Q (checked c a) r'"
  shows "wp (run_ok router_run c) Q r"
proof (cases "UciPlan r (UciAsked r)")
  case None
  then show ?thesis
    using answered by (auto simp: run_ok_def router_run_def wp_simps Let_def after_asking_def checked_def split: prod.splits)
next
  case (Some f)
  then have "troubled r"
    by (auto simp: troubled_def)
  then show ?thesis
    using Some fails stops by (cases f)
      (auto simp: run_ok_def router_run_def wp_simps Let_def after_asking_def exit_error_def cmd_exited_def)
qed

lemma run_unit_router_wp:
  assumes "\<And>e. troubled r \<Longrightarrow> Q (Some e) (after_asking r)"
    and "\<And>e n. troubled r \<Longrightarrow> Q (Some e) (stopped_command n c (after_asking r))"
    and "case answer_command c (after_asking r) of (a, r') \<Rightarrow> Q (case checked c a of Inl e \<Rightarrow> Some e | Inr _ \<Rightarrow> None) r'"
  shows "wp (run_unit router_run c) Q r"
  unfolding run_unit_def wp_simps by (rule run_router_wp) (use assms in \<open>auto split: prod.splits\<close>)

lemma command_kinds:
  "export_command p \<noteq> uci_command [''-q'', ''batch''] i" "restart_command \<noteq> uci_command a i"
  "uci_command [''-q'', ''batch''] i \<noteq> restart_command" "restart_command \<noteq> export_command p"
  "CmdStdin (uci_command a i) = i"
  by (simp_all add: export_command_def uci_command_def restart_command_def)

lemma router_answers:
  "answer_command (export_command ''dhcp'') r = (cmd_succeeded (export_text r), r)"
  "answer_command restart_command r = (cmd_succeeded [], r\<lparr>Serving := map_of (Shown r)\<rparr>)"
  "stopped_command n (export_command ''dhcp'') r = r" "stopped_command n restart_command r = r"
  by (simp_all add: answer_command_def stopped_command_def command_kinds)

lemma answer_batch:
  "answer_command (uci_command [''-q'', ''batch''] input) r = (case exec_lines (split_on uci_newline input) (Shown r) of
     (ok, opts) \<Rightarrow> (if ok then cmd_succeeded [] else cmd_exited 1 [], r\<lparr>Shown := opts\<rparr>))"
  "stopped_command n (uci_command [''-q'', ''batch''] input) r =
     r\<lparr>Shown := snd (exec_lines (take n (split_on uci_newline input)) (Shown r))\<rparr>"
  by (simp_all add: answer_command_def stopped_command_def command_kinds(5) command_kinds(1) [THEN not_sym])

section \<open>Backups\<close>

definition dns_snapshot :: "'r router \<Rightarrow> dns_backup" where
  "dns_snapshot r = \<lparr>BackupVersion = 1, BackupPackage = ''dhcp'', BackupSection = ''@dnsmasq[0]'',
     BackupOptions = (\<lambda>n. if n \<in> managed then Some (shown_at r n) else None)\<rparr>"

lemma dns_snapshot_after [simp]: "dns_snapshot (after_asking r) = dns_snapshot r"
  by (simp add: dns_snapshot_def cong: if_cong)

lemma target_default: "validate_target (normalized_manager m) = None \<longleftrightarrow> normalized_manager m = new_dns_manager"
  by (auto simp: validate_target_def new_dns_manager_def normalized_manager_def)

lemma default_manager [simp]: "normalized_manager new_dns_manager = new_dns_manager"
  "ManagerPackage new_dns_manager = ''dhcp''" "ManagerSection new_dns_manager = ''@dnsmasq[0]''"
  "validate_target new_dns_manager = None"
  by (simp_all add: normalized_manager_def new_dns_manager_def validate_target_def)

lemma backup_dns_wp:
  assumes "kept r" and "normalized_manager m = new_dns_manager"
    and "\<And>e. troubled r \<Longrightarrow> Q (Inl e) (after_asking r)" and "Q (Inr (dns_snapshot r)) (after_asking r)"
  shows "wp (backup_dns router_run m) Q r"
  unfolding backup_dns_def Let_def assms(2) default_manager option.case wp_simps
proof (rule run_router_wp)
  have "parse_first_uci_section (export_text (after_asking r)) ''dnsmasq'' managed_dns_options =
      Inr (BackupOptions (dns_snapshot r))"
    using export_read [of "after_asking r" managed_dns_options] assms(1) by (simp add: dns_snapshot_def managed_def cong: if_cong)
  then show "case answer_command (export_command ''dhcp'') (after_asking r) of (a, r') \<Rightarrow>
      (case checked (export_command ''dhcp'') a of Inl e \<Rightarrow> Q (Inl e) r'
       | Inr a \<Rightarrow> Q (case parse_first_uci_section (Stdout a) ''dnsmasq'' managed_dns_options of
           Inl e \<Rightarrow> Inl e
         | Inr options \<Rightarrow> Inr \<lparr>BackupVersion = 1, BackupPackage = ''dhcp'', BackupSection = ''@dnsmasq[0]'',
             BackupOptions = options\<rparr>) r')"
    using assms(4) by (simp add: router_answers cmd_succeeded_def) (simp add: checked_def exit_error_def dns_snapshot_def)
qed (use assms(3) in \<open>simp_all add: router_answers\<close>)

lemma shown_wanted_ok: "kept r \<Longrightarrow> wanted_ok (shown_at r n)"
  using in_order_at by (auto simp: kept_in_order shown_at_def option_at_def wanted_ok_def split: option.split)

lemma dns_snapshot_wanted: "kept r \<Longrightarrow> wanted_map (BackupOptions (dns_snapshot r))"
  using shown_wanted_ok by (auto simp: wanted_map_def dns_snapshot_def)

lemma dns_snapshot_valid: 
  assumes "kept r"
  shows "validate_dns_backup (dns_snapshot r) new_dns_manager = None"
proof -
  have "option_error n s = None" if "wanted_ok s" for n s
    using that by (auto simp: wanted_ok_def option_error_def no_option_def option_ok_def)
  then show ?thesis
    using shown_wanted_ok [OF assms]
    by (auto simp: validate_dns_backup_def dns_snapshot_def first_error_None managed_def)
qed

section \<open>Writing options\<close>

definition shows_map :: "'r router \<Rightarrow> uci_options \<Rightarrow> bool" where
  "shows_map r w \<longleftrightarrow> (\<forall>n \<in> managed. w n = Some (shown_at r n))"

lemma option_eq: "(s :: uci_option) = t \<longleftrightarrow> Present s = Present t \<and> Kind s = Kind t \<and> Values s = Values t"
  by auto

lemma equal_snapshot: "equal_option_states (BackupOptions (dns_snapshot r)) w \<longleftrightarrow> shows_map r w"
  unfolding equal_option_states_def list_all_iff shows_map_def managed_def [symmetric]
  by (rule ball_cong) (auto simp: dns_snapshot_def option_eq split: option.split)

lemma shows_after [simp]: "shows_map (after_asking r) w = shows_map r w"
  by (simp add: shows_map_def)

lemma shows_wanted:
  assumes "wanted_map w" and "\<forall>n \<in> managed. map_of (Shown r) n = option_of (option_at w n)"
  shows "shows_map r w"
proof -
  have "w n = Some (shown_at r n)" if "n \<in> managed" for n
    using wanted_map_at [OF assms(1) that] assms(2) that
    by (auto simp: shown_at_def option_of_def option_at_def wanted_ok_def no_option_def option_ok_def split: if_splits)
  then show ?thesis
    by (simp add: shows_map_def)
qed

text \<open>What every operation that writes keeps, whatever fails.\<close>

definition dns_kept :: "'r router \<Rightarrow> 'r router \<Rightarrow> bool" where
  "dns_kept r r' \<longleftrightarrow> dns_touched r r' \<and> (Serving r' = Serving r \<or> Serving r' = map_of (Shown r'))"

lemma restart_dnsmasq_wp:
  assumes "\<And>e. \<not> router_calm r \<Longrightarrow> Q (Some e) (after_asking r)"
    and "Q None ((after_asking r)\<lparr>Serving := map_of (Shown r)\<rparr>)"
  shows "wp (restart_dnsmasq router_run) Q r"
  unfolding restart_dnsmasq_def wp_simps
  by (rule run_unit_router_wp) (use assms troubled_calm [of r] in \<open>simp_all add: router_answers\<close>)

lemma dns_touched_serving [simp]: "dns_touched r (r'\<lparr>Serving := f\<rparr>) = dns_touched r r'"
  by (simp add: dns_touched_def)

lemma run_batch_wp:
  assumes "kept r" and "wanted_map w"
    and "options_batch new_dns_manager (BackupOptions (dns_snapshot r)) w managed_dns_options = Inr ls"
    and "\<And>e r'. \<not> router_calm r \<Longrightarrow> dns_touched r r' \<Longrightarrow> Serving r' = Serving r \<Longrightarrow> Q (Some e) r'"
    and "\<And>r'. dns_touched r r' \<Longrightarrow> Serving r' = Serving r \<Longrightarrow> shows_map r' w \<Longrightarrow> Q None r'"
  shows "wp (run_unit router_run (uci_command [''-q'', ''batch''] (concat ls @ commit_line new_dns_manager))) Q r"
proof -
  let ?bs = "all_bodies (BackupOptions (dns_snapshot r)) w"
  have lines: "split_on uci_newline (concat ls @ commit_line new_dns_manager) = ?bs"
    using batch_text [OF assms(2), of "BackupOptions (dns_snapshot r)"] assms(3) by auto
  have order: "in_order (Shown r)"
    using assms(1) by (simp add: kept_in_order)
  have tame: "same_outside managed (Shown r) (snd (exec_lines ls' (Shown r)))" if "set ls' \<subseteq> set ?bs" for ls'
    by (rule tame_lines [OF _ order]) (use tame_all [OF assms(2)] that in \<open>auto simp: list_all_iff\<close>)
  have "Present (shown_at r n) = (map_of (Shown r) n \<noteq> None)" for n
    using in_order_at [OF order, of n] by (auto simp: shown_at_def option_at_def no_option_def option_ok_def split: option.split)
  then have "\<forall>n \<in> managed. Present (option_at (BackupOptions (dns_snapshot r)) n) = (map_of (Shown r) n \<noteq> None)"
    by (simp add: dns_snapshot_def option_at_def)
  then obtain opts where opts: "exec_lines ?bs (Shown r) = (True, opts)"
      "\<forall>n \<in> managed. map_of opts n = option_of (option_at w n)"
    using exec_all [OF assms(2)] by blast
  let ?r = "(after_asking r)\<lparr>Shown := opts\<rparr>"
  have "dns_touched r ?r"
    using tame [of ?bs] opts(1) by (simp add: dns_touched_def after_asking_def)
  moreover have "shows_map ?r w"
    using opts(2) by (intro shows_wanted [OF assms(2)]) simp
  ultimately have "Q None ?r"
    by (intro assms(5)) simp_all
  moreover have "dns_touched r ((after_asking r)\<lparr>Shown := snd (exec_lines (take n ?bs) (Shown r))\<rparr>)" for n
    using tame [of "take n ?bs"] by (simp add: dns_touched_def after_asking_def set_take_subset)
  ultimately show ?thesis
    using assms(1) troubled_calm [of r] by (intro run_unit_router_wp assms(4)) (simp_all add: answer_batch lines opts(1))
qed

lemma apply_options_wp:
  assumes "kept r" and "wanted_map w"
    and "\<And>e r'. dns_kept r r' \<Longrightarrow> e \<noteq> None \<longrightarrow> \<not> router_calm r \<Longrightarrow>
      e = None \<longrightarrow> shows_map r' w \<and> (always \<or> \<not> shows_map r w \<longrightarrow> Serving r' = map_of (Shown r')) \<Longrightarrow> Q e r'"
  shows "wp (apply_options router_run new_dns_manager w always) Q r"
  unfolding apply_options_def wp_bind
proof (rule backup_dns_wp [OF assms(1) default_manager(1)])
  fix e
  assume "troubled r"
  then have "Q (Some e) (after_asking r)"
    using assms(1) troubled_calm [of r] by (intro assms(3)) (simp_all add: dns_kept_def)
  then show "wp (case Inl e of Inl e \<Rightarrow> State_Monad.return (Some e) | Inr current \<Rightarrow> k current) Q (after_asking r)" for k
    by (simp add: wp_return)
next
  have restart: "wp (restart_dnsmasq router_run) Q r'"
    if "dns_touched r r'" "shows_map r' w" "Serving r' = Serving r" for r'
    using that dns_touched_calm [OF that(1)] by (intro restart_dnsmasq_wp assms(3))
      (auto simp: dns_kept_def shows_map_def shown_at_def after_asking_def dns_touched_def)
  show "wp (case Inr (dns_snapshot r) of Inl e \<Rightarrow> State_Monad.return (Some e)
      | Inr current \<Rightarrow> if equal_option_states (BackupOptions current) w then
            (if always then restart_dnsmasq router_run else State_Monad.return None)
          else (case options_batch new_dns_manager (BackupOptions current) w managed_dns_options of
             Inl e \<Rightarrow> State_Monad.return (Some e)
           | Inr lines \<Rightarrow>
               Prelude.check (wrapped ''openwrt: apply dnsmasq UCI''
                 (run_unit router_run (uci_command [''-q'', ''batch''] (concat lines @ commit_line new_dns_manager))))
               (restart_dnsmasq router_run))) Q (after_asking r)"
  proof (cases "shows_map r w")
    case True
    then show ?thesis
      using restart [of "after_asking r"] assms(1)
      by (auto simp: equal_snapshot wp_return dns_kept_def intro!: assms(3))
  next
    case False
    obtain ls where ls: "options_batch new_dns_manager (BackupOptions (dns_snapshot r)) w managed_dns_options = Inr ls"
      using batch_text [OF assms(2)] by blast
    have "wp (run_unit router_run (uci_command [''-q'', ''batch''] (concat ls @ commit_line new_dns_manager)))
        (\<lambda>e r'. case e of Some e \<Rightarrow> Q (Some (Wrap ''openwrt: apply dnsmasq UCI'' e)) r'
          | None \<Rightarrow> wp (restart_dnsmasq router_run) Q r') (after_asking r)"
    proof (rule run_batch_wp [OF _ assms(2)])
      fix r'
      assume r': "dns_touched (after_asking r) r'" "Serving r' = Serving (after_asking r)"
      have t: "dns_touched r r'"
        by (rule dns_touched_trans [OF dns_touched_after(1) [OF assms(1)] r'(1)])
      show "case None of Some e \<Rightarrow> Q (Some (Wrap ''openwrt: apply dnsmasq UCI'' e)) r'
          | None \<Rightarrow> wp (restart_dnsmasq router_run) Q r'" if "shows_map r' w"
        using restart [OF t that] r'(2) by simp
      show "case Some e of Some e \<Rightarrow> Q (Some (Wrap ''openwrt: apply dnsmasq UCI'' e)) r'
          | None \<Rightarrow> wp (restart_dnsmasq router_run) Q r'" if "\<not> router_calm (after_asking r)" for e
        using t r'(2) that by (auto simp: dns_kept_def intro!: assms(3))
    qed (use assms(1) ls in simp_all)
    then have "wp (run_unit router_run (uci_command [''-q'', ''batch''] (concat ls @ commit_line new_dns_manager)))
        (\<lambda>e r'. case map_option (Wrap ''openwrt: apply dnsmasq UCI'') e of Some e \<Rightarrow> Q (Some e) r'
          | None \<Rightarrow> wp (restart_dnsmasq router_run) Q r') (after_asking r)"
      by (rule wp_mono) (simp split: option.splits)
    then show ?thesis
      using False ls by (simp add: equal_snapshot wp_simps)
  qed
qed

section \<open>The operations\<close>

lemma upstream_wanted: "wanted_map (desired_upstream_options plan)"
proof -
  have "utf8_text (''127.0.0.1#'' @ dec n) \<and> uci_newline \<notin> set (''127.0.0.1#'' @ dec n)" for n
  proof -
    have "list_all plain (''127.0.0.1#'' @ dec n)"
      by (simp add: plain_def)
    then show ?thesis
      using utf8_text_plain by (auto simp: list_all_iff plain_def uci_newline_def)
  qed
  moreover have "utf8_text ''0''" "utf8_text ''1''"
    by code_simp+
  ultimately show ?thesis
    by (auto simp: wanted_map_def managed_def managed_dns_options_def desired_upstream_options_def wanted_ok_def
        option_ok_def value_ok_def uci_newline_def)
qed

lemma desired_wanted: "wanted_map (BackupOptions b) \<Longrightarrow> wanted_map (desired_options plan b)"
  by (simp add: desired_options_def upstream_wanted)

datatype dns_call = CallBackup | CallApply gateway_plan | CallCheck gateway_plan | CallReconcile gateway_plan | CallRestore

definition dns_call :: "'w runner \<Rightarrow> dns_manager \<Rightarrow> dns_backup \<Rightarrow> dns_call \<Rightarrow> ('w, gerror option) state" where
  "dns_call run m b c = (case c of
       CallBackup \<Rightarrow> do {
         answer \<leftarrow> backup_dns run m;
         State_Monad.return (case answer of Inl e \<Rightarrow> Some e | Inr _ \<Rightarrow> None) }
     | CallApply plan \<Rightarrow> apply_dns run m plan b
     | CallCheck plan \<Rightarrow> check_dns run m plan b
     | CallReconcile plan \<Rightarrow> reconcile_dns run m plan b
     | CallRestore \<Rightarrow> restore_dns run m b)"

text \<open>Calls whose results nobody looks at.\<close>

fun dns_calls :: "'w runner \<Rightarrow> dns_manager \<Rightarrow> dns_backup \<Rightarrow> dns_call list \<Rightarrow> ('w, unit) state" where
  "dns_calls run m b [] = State_Monad.return ()"
| "dns_calls run m b (c # cs) = do { _ \<leftarrow> dns_call run m b c; dns_calls run m b cs }"

lemma apply_touched_wp:
  assumes "kept r" and "wanted_map w" and "\<And>e r'. dns_touched r r' \<Longrightarrow> Q e r'"
  shows "wp (apply_options router_run new_dns_manager w always) Q r"
  by (rule apply_options_wp [OF assms(1,2)]) (simp add: assms(3) dns_kept_def)

lemma dns_call_wp:
  assumes "kept r" and "wanted_map (BackupOptions b)" and "normalized_manager m = new_dns_manager"
  shows "wp (dns_call router_run m b c) (\<lambda>_. dns_touched r) r"
proof -
  have asked: "dns_touched r (after_asking r)"
    using assms(1) by simp
  have order: "in_order (Shown r)"
    using assms(1) by (simp add: kept_in_order)
  have apply_wp: "wp (apply_options router_run new_dns_manager w always) (\<lambda>_. dns_touched r) r'"
    if "wanted_map w" "dns_touched r r'" for w always r'
    by (rule apply_touched_wp [OF dns_touched_kept [OF assms(1) that(2)] that(1)]) (rule dns_touched_trans [OF that(2)])
  have backup: "wp (backup_dns router_run m') (\<lambda>_. dns_touched r) r" if "normalized_manager m' = new_dns_manager" for m'
    by (rule backup_dns_wp [OF assms(1) that]) (rule asked)+
  note desired = desired_wanted [OF assms(2)]
  show ?thesis
  proof (cases c)
    case CallBackup
    then show ?thesis
      using backup [OF assms(3)] by (simp add: dns_call_def wp_simps)
  next
    case (CallApply plan)
    then show ?thesis
      using order apply_wp [OF upstream_wanted] apply_wp [OF assms(2)]
      by (simp add: dns_call_def apply_dns_def Let_def assms(3) wp_simps split: option.split)
  next
    case (CallCheck plan)
    then show ?thesis
      using order backup by (simp add: dns_call_def check_dns_def Let_def assms(3) wp_simps split: option.split)
  next
    case (CallReconcile plan)
    then show ?thesis
      using order apply_wp [OF desired] asked
      by (auto simp: dns_call_def reconcile_dns_def Let_def assms(3) wp_simps split: option.split
          intro!: backup_dns_wp [OF assms(1)])
  next
    case CallRestore
    then show ?thesis
      using order apply_wp [OF assms(2)]
      by (simp add: dns_call_def restore_dns_def Let_def assms(3) wp_simps split: option.split)
  qed
qed

lemma dns_calls_wp:
  assumes "kept r" and "wanted_map (BackupOptions b)" and "normalized_manager m = new_dns_manager"
  shows "wp (dns_calls router_run m b cs) (\<lambda>_. dns_touched r) r"
  using assms(1)
proof (induction cs arbitrary: r)
  case Nil
  then show ?case
    by (simp add: wp_simps dns_touched_def kept_in_order)
next
  case (Cons c cs)
  show ?case
    unfolding dns_calls.simps wp_bind
  proof (rule wp_mono [OF dns_call_wp [OF Cons.prems assms(2,3)]])
    fix r'
    assume "dns_touched r r'"
    then show "wp (dns_calls router_run m b cs) (\<lambda>_. dns_touched r) r'"
      using Cons.IH [OF dns_touched_kept [OF Cons.prems]] by (blast intro: wp_mono dns_touched_trans)
  qed
qed

lemma option_of_at: "in_order opts \<Longrightarrow> map_of opts n = option_of (option_at (map_of opts) n)"
  using in_order_at [of opts n] by (cases "map_of opts n") (auto simp: option_of_def option_at_def no_option_def option_ok_def)

text \<open>Restoring what a kept router once showed.\<close>

lemma restore_dns_wp:
  assumes "kept r" and "dns_touched r0 r" and "kept r0" and "normalized_manager m = new_dns_manager"
  shows "wp (restore_dns router_run m (dns_snapshot r0)) (\<lambda>e r'.
    (router_calm r \<longrightarrow> e = None) \<and> dns_touched r r' \<and>
    (e = None \<longrightarrow> map_of (Shown r') = map_of (Shown r0) \<and> Serving r' = map_of (Shown r0))) r"
proof -
  have same: "map_of (Shown r') = map_of (Shown r0)"
    if "dns_touched r r'" "shows_map r' (BackupOptions (dns_snapshot r0))" for r'
  proof
    fix n
    show "map_of (Shown r') n = map_of (Shown r0) n"
    proof (cases "n \<in> managed")
      case True
      then have "shown_at r' n = shown_at r0 n"
        using that(2) by (simp add: shows_map_def dns_snapshot_def)
      moreover have "in_order (Shown r')" "in_order (Shown r0)"
        using dns_touched_kept [OF assms(1) that(1)] assms(3) by (simp_all add: kept_in_order)
      ultimately show ?thesis
        by (simp add: shown_at_def option_of_at)
    next
      case False
      then show ?thesis
        using that(1) assms(2) by (simp add: dns_touched_def same_outside_def)
    qed
  qed
  have "wp (apply_options router_run new_dns_manager (BackupOptions (dns_snapshot r0)) True) (\<lambda>e r'.
    (router_calm r \<longrightarrow> e = None) \<and> dns_touched r r' \<and>
    (e = None \<longrightarrow> map_of (Shown r') = map_of (Shown r0) \<and> Serving r' = map_of (Shown r0))) r"
    by (rule apply_options_wp [OF assms(1) dns_snapshot_wanted [OF assms(3)]]) (auto simp: dns_kept_def same)
  then show ?thesis
    by (simp add: restore_dns_def Let_def assms(4) dns_snapshot_valid [OF assms(3)])
qed

section \<open>Properties\<close>


definition demo_router :: "unit router" where
  "demo_router = \<lparr>
     Shown = [(''domain'', \<lparr>Present = True, Kind = uci_single, Values = [''lan'']\<rparr>),
              (''server'', \<lparr>Present = True, Kind = uci_list, Values = [''192.0.2.1'', ''/lan/192.0.2.2'']\<rparr>)],
     Serving = Map.empty, LaterSections = [(''dhcp'', [])],
     UciPlan = (\<lambda>n. if n = 1 then Some (StopsAfter 1 1 ''killed'') else None), UciAsked = 0, Beyond = ()\<rparr>"

lemma demo_router_kept: "kept demo_router"
proof -
  have "list_all value_ok [''lan'', ''192.0.2.1'', ''/lan/192.0.2.2'']"
    by (simp add: value_ok_def utf8_text_plain plain_def uci_newline_def)
  then show ?thesis
    by (simp add: kept_def demo_router_def option_ok_def name_ok_def is_alnum_def)
qed

lemma backup_stopped:
  assumes "UciPlan r (UciAsked r) = Some (StopsAfter n code msg)"
  shows "\<exists>e. run_state (backup_dns router_run new_dns_manager) r = (Inl e, after_asking r)"
proof -
  have "exit_error (export_command ''dhcp'') (cmd_exited code msg) \<noteq> None"
    by (simp add: exit_error_def cmd_exited_def)
  then show ?thesis
    using assms by (auto simp: backup_dns_def attempt_def run_ok_def router_run_def Let_def State_Monad.bind_def
        State_Monad.return_def router_answers after_asking_def)
qed


end
