(* ===== verification/Settings_Text.thy ===== *)
theory Settings_Text
  imports Netip_Text State_Store
begin

text \<open>
  The settings file, \<^verbatim>\<open>internal/state/settings.go\<close>: reading it, printing it, and the round trip
  between the two. Settings are an association list with distinct keys; the order of a Go map is
  arbitrary, so what is proved for every list holds for every order.
\<close>

section \<open>Reading and printing\<close>

type_synonym settings = "(string \<times> string) list"

definition is_key_char :: "char \<Rightarrow> bool" where
  "is_key_char c = (let n = of_char c :: nat in
     48 \<le> n \<and> n \<le> 57 \<or> 65 \<le> n \<and> n \<le> 90 \<or> 97 \<le> n \<and> n \<le> 122 \<or> c = CHR ''_'')"

text \<open>\<^verbatim>\<open>^[A-Za-z_][A-Za-z0-9_]*$\<close>\<close>

definition setting_key :: "string \<Rightarrow> bool" where
  "setting_key s \<longleftrightarrow> s \<noteq> [] \<and> \<not> is_digit (hd s) \<and> list_all is_key_char s"

definition line_feed :: char where "line_feed = CHR 0x0A"

definition carriage_return :: char where "carriage_return = CHR 0x0D"

definition without_return :: "string \<Rightarrow> string" where
  "without_return line = (if line \<noteq> [] \<and> last line = carriage_return then butlast line else line)"

text \<open>\<^verbatim>\<open>strings.Cut\<close> at the first equals sign.\<close>

definition cut_equals :: "string \<Rightarrow> (string \<times> string) option" where
  "cut_equals s = (if CHR ''='' \<in> set s
     then Some (takeWhile (\<lambda>c. c \<noteq> CHR ''='') s, tl (dropWhile (\<lambda>c. c \<noteq> CHR ''='') s)) else None)"

definition skipped_line :: "string \<Rightarrow> bool" where
  "skipped_line line \<longleftrightarrow> (let t = trim_space line in t = [] \<or> prefix ''#'' t)"

definition setting_error :: "string \<Rightarrow> string \<Rightarrow> gerror" where
  "setting_error msg key = Err (''state: '' @ msg @ key)"

definition parse_setting :: "nat \<Rightarrow> string \<Rightarrow> settings \<Rightarrow> settings fallible" where
  "parse_setting n line result = (if skipped_line line then Inr result
     else let invalid = Inl (Err (''state: invalid settings line '' @ dec n)) in
       case cut_equals line of
         None \<Rightarrow> invalid
       | Some (key, value) \<Rightarrow>
           if \<not> setting_key key then invalid
           else if key \<in> fst ` set result then Inl (setting_error ''duplicate setting '' key)
           else if CHR 0x00 \<in> set value then Inl (setting_error ''NUL in setting '' key)
           else Inr (result @ [(key, value)]))"

fun parse_setting_lines :: "nat \<Rightarrow> string list \<Rightarrow> settings \<Rightarrow> settings fallible" where
  "parse_setting_lines n [] result = Inr result"
| "parse_setting_lines n (line # lines) result = (case parse_setting n (without_return line) result of
       Inl e \<Rightarrow> Inl e
     | Inr result' \<Rightarrow> parse_setting_lines (n + 1) lines result')"

text \<open>The last line ends with the data; after a final line feed it is empty.\<close>

definition parse_settings :: "string \<Rightarrow> settings fallible" where
  "parse_settings data = parse_setting_lines 1 (split_on line_feed data) []"

definition printable_setting :: "string \<times> string \<Rightarrow> gerror option" where
  "printable_setting = (\<lambda>(key, value).
     if \<not> setting_key key then Some (Err (''state: invalid setting key '' @ quote key))
     else if {CHR 0x00, carriage_return, line_feed} \<inter> set value \<noteq> {}
     then Some (setting_error ''invalid newline or NUL in setting '' key) else None)"

definition setting_line :: "string \<times> string \<Rightarrow> string" where
  "setting_line = (\<lambda>(key, value). key @ ''='' @ value @ [line_feed])"

definition sorted_settings :: "settings \<Rightarrow> settings" where
  "sorted_settings s = map (\<lambda>k. (k, the (map_of s k))) (sort (map fst s))"

fun first_unprintable :: "settings \<Rightarrow> gerror option" where
  "first_unprintable [] = None"
| "first_unprintable (kv # s) = (case printable_setting kv of Some e \<Rightarrow> Some e | None \<Rightarrow> first_unprintable s)"

definition marshal_settings :: "settings \<Rightarrow> string fallible" where
  "marshal_settings s = (case first_unprintable s of
       Some e \<Rightarrow> Inl e
     | None \<Rightarrow> Inr (concat (map setting_line (sorted_settings s))))"

definition load_settings :: "'w fs \<Rightarrow> string \<Rightarrow> string \<Rightarrow> ('w, settings fallible) state" where
  "load_settings fs root name = do {
     data \<leftarrow> store_read fs root name;
     State_Monad.return (case data of Inl e \<Rightarrow> Inl e | Inr d \<Rightarrow> parse_settings d) }"

definition save_settings :: "'w fs \<Rightarrow> string \<Rightarrow> string \<Rightarrow> settings \<Rightarrow> ('w, gerror option) state" where
  "save_settings fs root name s = (case marshal_settings s of
       Inl e \<Rightarrow> State_Monad.return (Some e)
     | Inr data \<Rightarrow> store_write fs root name data 384)"

section \<open>The round trip\<close>

lemma first_unprintable_None: "first_unprintable s = None \<longleftrightarrow> (\<forall>kv \<in> set s. printable_setting kv = None)"
  by (induction s) (auto split: option.split)

lemma key_char_plain: "is_key_char c \<Longrightarrow> plain c \<and> c \<noteq> CHR ''='' \<and> c \<noteq> CHR ''#''"
  by (auto simp: is_key_char_def plain_def Let_def)

lemma setting_key_chars: "setting_key k \<Longrightarrow> c \<in> set k \<Longrightarrow> is_key_char c"
  by (auto simp: setting_key_def list_all_iff)

lemma strip_any_last:
  assumes "\<forall>r \<in> set rs. r \<noteq> [] \<longrightarrow> \<not> plain (last r)" and "s \<noteq> []" and "plain (last s)"
  shows "strip_any rs s \<noteq> [] \<and> last (strip_any rs s) = last s"
  using assms
proof (induction rs s rule: strip_any.induct)
  case (1 rs s)
  show ?case
  proof (cases "find (\<lambda>r. r \<noteq> [] \<and> prefix r s) rs")
    case None
    then show ?thesis
      using "1.prems" by (simp add: strip_any_fixed)
  next
    case (Some r)
    then have r: "r \<in> set rs" "r \<noteq> []" "prefix r s"
      by (auto simp: find_Some_iff)
    then have "drop (length r) s \<noteq> []"
      using "1.prems" by (auto simp: prefix_def)
    then show ?thesis
      using "1.IH" [OF Some] "1.prems" Some by (subst (1 2) strip_any.simps) (simp add: last_drop)
  qed
qed

text \<open>What starts with a plain character still does so after trimming.\<close>

lemma trim_space_hd:
  assumes "s \<noteq> []" and "plain (hd s)"
  shows "trim_space s \<noteq> [] \<and> hd (trim_space s) = hd s"
proof -
  have "strip_any space_runes s = s"
    by (rule strip_any_plain) (use assms space_rune_ends in auto)
  moreover have "strip_any (map rev space_runes) (rev s) \<noteq> [] \<and> last (strip_any (map rev space_runes) (rev s)) = last (rev s)"
    by (rule strip_any_last) (use assms space_rune_ends in \<open>auto simp: last_rev\<close>)
  ultimately show ?thesis
    using assms(1) by (simp add: trim_space_def hd_rev last_rev)
qed

lemma parse_setting_line:
  assumes "setting_key k" and "k \<notin> fst ` set result" and "CHR 0x00 \<notin> set v"
  shows "parse_setting n (k @ ''='' @ v) result = Inr (result @ [(k, v)])"
proof -
  have k: "k \<noteq> []" "is_key_char (hd k)" "CHR ''='' \<notin> set k"
    using assms(1) key_char_plain setting_key_chars [OF assms(1)] by (auto simp: setting_key_def list_all_iff)
  then have "trim_space (k @ ''='' @ v) \<noteq> []" "hd (trim_space (k @ ''='' @ v)) = hd k"
    using trim_space_hd [of "k @ ''='' @ v"] key_char_plain [of "hd k"] by auto
  then have "\<not> skipped_line (k @ ''='' @ v)"
    using key_char_plain [OF k(2)] by (cases "trim_space (k @ ''='' @ v)") (auto simp: skipped_line_def)
  moreover have "takeWhile (\<lambda>c. c \<noteq> CHR ''='') (k @ ''='' @ v) = k" "dropWhile (\<lambda>c. c \<noteq> CHR ''='') (k @ ''='' @ v) = ''='' @ v"
    using k(3) by (subst takeWhile_append2 dropWhile_append2; auto)+
  then have "cut_equals (k @ ''='' @ v) = Some (k, v)"
    by (simp add: cut_equals_def)
  ultimately show ?thesis
    using assms by (simp add: parse_setting_def)
qed

lemma parse_printed_lines:
  assumes "list_all (\<lambda>kv. printable_setting kv = None) s" and "distinct (map fst (r @ s))"
  shows "parse_setting_lines n (map (\<lambda>(k, v). k @ ''='' @ v) s @ [[]]) r = Inr (r @ s)"
  using assms
proof (induction s arbitrary: n r)
  case Nil
  have "skipped_line []"
    by (simp add: skipped_line_def trim_space_def)
  then show ?case
    by (simp add: without_return_def parse_setting_def)
next
  case (Cons kv s)
  obtain k v where kv: "kv = (k, v)"
    by (cases kv)
  have p: "setting_key k" "CHR 0x00 \<notin> set v" "carriage_return \<notin> set v"
    using Cons.prems by (auto simp: kv printable_setting_def split: if_splits)
  have "last (k @ ''='' @ v) \<noteq> carriage_return"
    using p(3) by (cases v rule: rev_cases) (auto simp: carriage_return_def)
  then have "without_return (k @ ''='' @ v) = k @ ''='' @ v"
    by (simp add: without_return_def)
  moreover have "k \<notin> fst ` set r"
    using Cons.prems(2) by (auto simp: kv)
  ultimately show ?case
    using Cons.IH [of "r @ [kv]" "n + 1"] Cons.prems parse_setting_line [OF p(1) _ p(2)]
    by (simp add: kv)
qed

lemma join_setting_lines: "concat (map setting_line s) = join [line_feed] (map (\<lambda>(k, v). k @ ''='' @ v) s @ [[]])"
proof (induction s)
  case (Cons kv s)
  then show ?case
    by (cases kv; cases s) (auto simp: setting_line_def)
qed simp

lemma printed_read:
  assumes "list_all (\<lambda>kv. printable_setting kv = None) s" and "distinct (map fst s)"
  shows "parse_settings (concat (map setting_line s)) = Inr s"
proof -
  have "line_feed \<notin> set l" if "l \<in> set (map (\<lambda>(k, v). k @ ''='' @ v) s @ [[]])" for l
  proof (cases "l = []")
    case False
    then obtain k v where l: "l = k @ ''='' @ v" "(k, v) \<in> set s"
      using \<open>l \<in> set (map (\<lambda>(k, v). k @ ''='' @ v) s @ [[]])\<close> by auto
    then have "setting_key k" "line_feed \<notin> set v"
      using assms(1) by (auto simp: list_all_iff printable_setting_def split: if_splits)
    moreover have "\<not> is_key_char line_feed"
      by code_simp
    ultimately show ?thesis
      using setting_key_chars l by (auto simp: line_feed_def)
  qed simp
  then have "split_on line_feed (concat (map setting_line s)) = map (\<lambda>(k, v). k @ ''='' @ v) s @ [[]]"
    unfolding join_setting_lines by (intro split_join) auto
  then show ?thesis
    using parse_printed_lines [OF assms(1), of "[]" 1] assms(2) by (simp add: parse_settings_def)
qed

lemma map_of_the: "map_of (map (\<lambda>k. (k, the (m k))) ks) = (\<lambda>k. if k \<in> set ks then Some (the (m k)) else None)"
  by (induction ks) (auto simp: fun_eq_iff)

lemma map_of_sorted: "map_of (sorted_settings s) = map_of s"
proof
  fix k
  show "map_of (sorted_settings s) k = map_of s k"
    using map_of_eq_None_iff [of s k] by (cases "map_of s k") (simp_all add: sorted_settings_def map_of_the)
qed

lemma sorted_printable:
  assumes "first_unprintable s = None"
  shows "list_all (\<lambda>kv. printable_setting kv = None) (sorted_settings s)"
proof -
  have "(k, the (map_of s k)) \<in> set s" if "k \<in> fst ` set s" for k
    using that by (metis imageE map_of_SomeD map_of_eq_None_iff option.collapse)
  then show ?thesis
    using assms by (auto simp: sorted_settings_def list_all_iff first_unprintable_None)
qed

lemma parsed_lines:
  assumes "parse_setting_lines n lines r = Inr s" and "distinct (map fst r)"
    and "\<forall>l \<in> set lines. line_feed \<notin> set l"
    and "\<forall>(k, v) \<in> set r. setting_key k \<and> CHR 0x00 \<notin> set v \<and> line_feed \<notin> set v"
  shows "distinct (map fst s) \<and> (\<forall>(k, v) \<in> set s. setting_key k \<and> CHR 0x00 \<notin> set v \<and> line_feed \<notin> set v)"
  using assms
proof (induction lines arbitrary: n r)
  case (Cons l lines)
  obtain r' where r': "parse_setting n (without_return l) r = Inr r'" "parse_setting_lines (n + 1) lines r' = Inr s"
    using Cons.prems(1) by (auto split: sum.splits)
  have step: "r' = r \<or> (\<exists>k v. r' = r @ [(k, v)] \<and> setting_key k \<and> k \<notin> fst ` set r \<and> CHR 0x00 \<notin> set v \<and>
      cut_equals (without_return l) = Some (k, v))"
    using r'(1) by (auto simp: parse_setting_def Let_def split: if_splits option.splits prod.splits)
  have "line_feed \<notin> set v" if "cut_equals (without_return l) = Some (k, v)" for k v
  proof -
    have "set v \<subseteq> set (dropWhile (\<lambda>c. c \<noteq> CHR ''='') (without_return l))"
      using that by (cases "dropWhile (\<lambda>c. c \<noteq> CHR ''='') (without_return l)") (auto simp: cut_equals_def split: if_splits)
    moreover have "set (dropWhile (\<lambda>c. c \<noteq> CHR ''='') (without_return l)) \<subseteq> set (without_return l)"
      by (auto dest: set_dropWhileD)
    moreover have "set (without_return l) \<subseteq> set l"
      by (auto simp: without_return_def dest: in_set_butlastD)
    ultimately show ?thesis
      using Cons.prems(3) by auto
  qed
  then have "distinct (map fst r')" "\<forall>(k, v) \<in> set r'. setting_key k \<and> CHR 0x00 \<notin> set v \<and> line_feed \<notin> set v"
    using step Cons.prems(2,4) by (auto simp: image_iff)
  then show ?case
    using Cons.IH [OF r'(2)] Cons.prems(3) by simp
qed simp

text \<open>
  C40. What \<^verbatim>\<open>MarshalSettings\<close> writes, \<^verbatim>\<open>ParseSettings\<close> reads back as the same map, for settings of
  every origin. Settings that \<^verbatim>\<open>ParseSettings\<close> has read can be written again exactly if no value
  holds a carriage return: one inside a line is accepted when it is read and refused when it is saved.
\<close>

theorem settings_round_trip:
  assumes "distinct (map fst s)"
  shows "(\<forall>d. marshal_settings s = Inr d \<longrightarrow> (\<exists>s'. parse_settings d = Inr s' \<and> distinct (map fst s') \<and> map_of s' = map_of s)) \<and>
    (\<forall>d0. parse_settings d0 = Inr s \<longrightarrow>
      (\<exists>d. marshal_settings s = Inr d) = (\<forall>(k, v) \<in> set s. carriage_return \<notin> set v))"
proof (intro conjI allI impI)
  fix d
  assume "marshal_settings s = Inr d"
  then have d: "first_unprintable s = None" "d = concat (map setting_line (sorted_settings s))"
    by (auto simp: marshal_settings_def split: option.splits)
  have "distinct (map fst (sorted_settings s))"
    using assms by (simp add: sorted_settings_def comp_def)
  then show "\<exists>s'. parse_settings d = Inr s' \<and> distinct (map fst s') \<and> map_of s' = map_of s"
    using printed_read [OF sorted_printable [OF d(1)]] map_of_sorted d(2) by blast
next
  fix d0
  assume "parse_settings d0 = Inr s"
  then have "parse_setting_lines 1 (split_on line_feed d0) [] = Inr s"
    by (simp add: parse_settings_def)
  from parsed_lines [OF this] have read: "\<forall>(k, v) \<in> set s. setting_key k \<and> CHR 0x00 \<notin> set v \<and> line_feed \<notin> set v"
    by (simp add: split_on_free)
  have "printable_setting kv = None \<longleftrightarrow> carriage_return \<notin> set (snd kv)" if "kv \<in> set s" for kv
    using bspec [OF read that] by (cases kv) (simp add: printable_setting_def)
  then have "first_unprintable s = None \<longleftrightarrow> (\<forall>kv \<in> set s. carriage_return \<notin> set (snd kv))"
    unfolding first_unprintable_None by (rule ball_cong [OF refl])
  then have "first_unprintable s = None \<longleftrightarrow> (\<forall>(k, v) \<in> set s. carriage_return \<notin> set v)"
    by (simp add: case_prod_beta)
  then show "(\<exists>d. marshal_settings s = Inr d) = (\<forall>(k, v) \<in> set s. carriage_return \<notin> set v)"
    by (auto simp: marshal_settings_def split: option.splits)
qed

theorem settings_round_trip_witness:
  "\<exists>d s'. marshal_settings [(''PROXY_MODE'', ''tun''), (''AUTO_FAKEIP'', '' on=1 '')] = Inr d \<and> parse_settings d = Inr s' \<and>
    map_of s' ''AUTO_FAKEIP'' = Some '' on=1 ''"
proof -
  let ?s = "[(''PROXY_MODE'', ''tun''), (''AUTO_FAKEIP'', '' on=1 '')]"
  have "first_unprintable ?s = None"
    by (simp add: printable_setting_def setting_key_def is_key_char_def is_digit_def carriage_return_def line_feed_def)
  then obtain d where "marshal_settings ?s = Inr d"
    by (simp add: marshal_settings_def)
  then show ?thesis
    using settings_round_trip [of ?s] by auto
qed

end
