(* ===== verification/Interfaces.thy ===== *)
theory Interfaces
  imports Uci_Text Policy_Routes
begin

text \<open>
  Which devices are LAN and which are WAN, \<^verbatim>\<open>internal/platform/openwrt/interfaces.go\<close>: the topology
  of the network and firewall configuration, resolved by ubus or, failing that, by the ip tool. The
  JSON decoding of their output is a parameter. The order of a Go map only decides the order of a
  list that is sorted afterwards.
\<close>

record interface_discovery =
  LANNetworks :: "string list"
  WANNetworks :: "string list"
  LANInterfaces :: "string list"
  WANInterfaces :: "string list"
  AllInterfaces :: "string list"
  DiscoverySource :: string

definition no_discovery :: interface_discovery where
  "no_discovery = \<lparr>LANNetworks = [], WANNetworks = [], LANInterfaces = [], WANInterfaces = [],
     AllInterfaces = [], DiscoverySource = []\<rparr>"

text \<open>The entries of a dump, a route listing and a link listing; a missing field is empty.\<close>

record ubus_interface =
  UbusName :: string
  UbusDevice :: string
  UbusL3Device :: string

record ip_route_entry =
  RouteDestination :: string
  RouteDevice :: string

record network_json =
  DecodeUbus :: "string \<Rightarrow> ubus_interface list fallible"
  DecodeRoutes :: "string \<Rightarrow> ip_route_entry list fallible"
  DecodeLinks :: "string \<Rightarrow> string list fallible"

section \<open>The configured topology\<close>

definition first_device :: "uci_section \<Rightarrow> string option" where
  "first_device s = (let value = (\<lambda>key. case section_values s key of
         [] \<Rightarrow> None | v # _ \<Rightarrow> if v = [] then None else Some v) in
     case value ''device'' of Some v \<Rightarrow> Some v | None \<Rightarrow> value ''ifname'')"

definition without_at :: "string \<Rightarrow> string" where
  "without_at v = (if v \<noteq> [] \<and> hd v = CHR ''@'' then tl v else v)"

type_synonym devices = "(string \<times> string) list"

text \<open>A later section of the same name replaces an earlier one.\<close>

definition add_network :: "uci_section \<Rightarrow> devices \<Rightarrow> devices" where
  "add_network s ds = (if SectionType s \<noteq> ''interface'' \<or> SectionName s = [] then ds
     else case first_device s of
       None \<Rightarrow> ds
     | Some v \<Rightarrow> (SectionName s, without_at v) # filter (\<lambda>(n, _). n \<noteq> SectionName s) ds)"

definition parse_network_devices :: "string \<Rightarrow> devices fallible" where
  "parse_network_devices input = (case parse_uci_sections input of
       Inl e \<Rightarrow> Inl e
     | Inr sections \<Rightarrow> Inr (fold add_network sections []))"

definition normalize_strings :: "string list \<Rightarrow> string list" where
  "normalize_strings vs = sort_compact vs"

definition zone_networks :: "string \<Rightarrow> uci_section \<Rightarrow> string list" where
  "zone_networks zone s = (if SectionType s = ''zone'' \<and> length (section_values s ''name'') = 1 \<and>
       lower_ascii (hd (section_values s ''name'')) = zone
     then section_values s ''network'' else [])"

definition parse_firewall_networks :: "string \<Rightarrow> (string list \<times> string list) fallible" where
  "parse_firewall_networks input = (case parse_uci_sections input of
       Inl e \<Rightarrow> Inl e
     | Inr sections \<Rightarrow>
         let lan = normalize_strings (concat (map (zone_networks ''lan'') sections));
             wan = normalize_strings (concat (map (zone_networks ''wan'') sections)) in
         if lan = [] \<or> wan = []
         then Inl (Err ''openwrt: firewall must identify non-empty lan and wan networks'')
         else case find (\<lambda>n. n \<in> set wan) lan of
           Some n \<Rightarrow> Inl (Err (''openwrt: network '' @ quote n @ '' belongs to both lan and wan zones''))
         | None \<Rightarrow> Inr (lan, wan))"

section \<open>Concrete devices\<close>

definition device_of :: "devices \<Rightarrow> string \<Rightarrow> string list" where
  "device_of ds n = (case map_of ds n of None \<Rightarrow> [] | Some d \<Rightarrow> if d = [] then [] else [d])"

definition build_discovery :: "string list \<Rightarrow> string list \<Rightarrow> devices \<Rightarrow> interface_discovery fallible" where
  "build_discovery lan wan ds =
     (let l = normalize_strings (concat (map (device_of ds) lan));
          w = normalize_strings (concat (map (device_of ds) wan)) in
      if l = [] \<or> w = [] then Inl (Err ''openwrt: unable to resolve concrete lan and wan interfaces'')
      else case find (\<lambda>d. d \<in> set w) l of
        Some d \<Rightarrow> Inl (Err (''openwrt: device '' @ quote d @ '' resolves as both lan and wan''))
      | None \<Rightarrow> Inr \<lparr>LANNetworks = lan, WANNetworks = wan, LANInterfaces = l, WANInterfaces = w,
          AllInterfaces = [], DiscoverySource = []\<rparr>)"

definition normalize_interface_names :: "string list \<Rightarrow> string list" where
  "normalize_interface_names vs = normalize_strings
     (filter (\<lambda>v. v \<noteq> [] \<and> v \<noteq> ''lo'' \<and> \<not> prefix ''@'' v) (map trim_space vs))"

definition ubus_device :: "ubus_interface \<Rightarrow> (string \<times> string) list" where
  "ubus_device c = (let d = (if UbusL3Device c = [] then UbusDevice c else UbusL3Device c) in
     if UbusName c \<noteq> [] \<and> d \<noteq> [] then [(UbusName c, d)] else [])"

text \<open>The discovery is returned with its error, and then only for the list of all interfaces.\<close>

definition resolve_ubus_interfaces ::
  "'j network_json_scheme \<Rightarrow> string \<Rightarrow> string list \<Rightarrow> string list \<Rightarrow> devices \<Rightarrow> interface_discovery fallible" where
  "resolve_ubus_interfaces js data lan wan configured = (case DecodeUbus js data of
       Inl e \<Rightarrow> Inl (Wrap ''openwrt: parse ubus interface dump'' e)
     | Inr dump \<Rightarrow> let found = concat (map ubus_device dump) in
         map_sum id (\<lambda>r. r\<lparr>AllInterfaces := normalize_interface_names (map snd configured @ map snd found)\<rparr>)
           (build_discovery lan wan (rev found @ configured)))"

definition link_command :: command where
  "link_command = ip_command [''-j'', ''link'', ''show'']"

definition routes_command :: command where
  "routes_command = ip_command [''-j'', ''-4'', ''route'', ''show'']"

definition list_ip_links :: "'w runner \<Rightarrow> 'j network_json_scheme \<Rightarrow> ('w, string list fallible) state" where
  "list_ip_links run js = attempt (run_ok run link_command) (\<lambda>r.
     State_Monad.return (case DecodeLinks js (Stdout r) of
         Inl e \<Rightarrow> Inl (Wrap ''openwrt: parse link JSON'' e)
       | Inr names \<Rightarrow> Inr (normalize_interface_names names)))"

definition fallback_devices :: "string list \<Rightarrow> ip_route_entry list \<Rightarrow> string list \<Rightarrow> devices \<Rightarrow> devices" where
  "fallback_devices wan routes links configured =
     (let known = filter (\<lambda>(n, d). d \<in> set links) configured in
      case find (\<lambda>r. RouteDestination r = ''default'' \<and> RouteDevice r \<in> set links) routes of
        None \<Rightarrow> known
      | Some r \<Rightarrow> map (\<lambda>n. (n, RouteDevice r)) wan @ known)"

definition resolve_ip_interfaces ::
  "'w runner \<Rightarrow> 'j network_json_scheme \<Rightarrow> string list \<Rightarrow> string list \<Rightarrow> devices \<Rightarrow> ('w, interface_discovery fallible) state" where
  "resolve_ip_interfaces run js lan wan configured = do {
     routed \<leftarrow> run_ok run routes_command;
     case routed of
       Inl e \<Rightarrow> State_Monad.return (Inl (Wrap ''openwrt: fallback route discovery'' e))
     | Inr routes \<Rightarrow> do {
         linked \<leftarrow> run_ok run link_command;
         State_Monad.return (case linked of
             Inl e \<Rightarrow> Inl (Wrap ''openwrt: fallback link discovery'' e)
           | Inr links \<Rightarrow> (case DecodeRoutes js (Stdout routes) of
               Inl e \<Rightarrow> Inl (Wrap ''openwrt: parse route JSON'' e)
             | Inr rs \<Rightarrow> (case DecodeLinks js (Stdout links) of
                 Inl e \<Rightarrow> Inl (Wrap ''openwrt: parse link JSON'' e)
               | Inr ls \<Rightarrow> map_sum id (\<lambda>d. d\<lparr>AllInterfaces := normalize_interface_names ls\<rparr>)
                   (build_discovery lan wan (fallback_devices wan rs ls configured))))) } }"

section \<open>Detection\<close>

definition ubus_command :: command where
  "ubus_command = \<lparr>CmdName = ''ubus'', CmdArgs = [''call'', ''network.interface'', ''dump''], CmdStdin = []\<rparr>"

definition discover_by_ip ::
  "'w runner \<Rightarrow> 'j network_json_scheme \<Rightarrow> string list \<Rightarrow> string list \<Rightarrow> devices \<Rightarrow> gerror \<Rightarrow>
   ('w, interface_discovery fallible) state" where
  "discover_by_ip run js lan wan configured ubus_error = do {
     resolved \<leftarrow> resolve_ip_interfaces run js lan wan configured;
     State_Monad.return (case resolved of
         Inl e \<Rightarrow> Inl (Join [Wrap ''openwrt: ubus interface discovery'' ubus_error, e])
       | Inr d \<Rightarrow> Inr (d\<lparr>DiscoverySource := ''ip''\<rparr>)) }"

definition discover_devices ::
  "'w runner \<Rightarrow> 'j network_json_scheme \<Rightarrow> string list \<Rightarrow> string list \<Rightarrow> devices \<Rightarrow> ('w, interface_discovery fallible) state" where
  "discover_devices run js lan wan configured = do {
     answer \<leftarrow> run ubus_command;
     case answer of
       Inl e \<Rightarrow> discover_by_ip run js lan wan configured e
     | Inr r \<Rightarrow>
         if ExitCode r \<noteq> 0
         then discover_by_ip run js lan wan configured
           (Err (''ubus exited with '' @ int_text (ExitCode r) @ '': '' @ trim_space (Stderr r)))
         else (case resolve_ubus_interfaces js (Stdout r) lan wan configured of
             Inl e \<Rightarrow> discover_by_ip run js lan wan configured e
           | Inr d \<Rightarrow> do {
               links \<leftarrow> list_ip_links run js;
               State_Monad.return (Inr (d\<lparr>
                 AllInterfaces := (case links of
                     Inl _ \<Rightarrow> AllInterfaces d | Inr ls \<Rightarrow> normalize_strings (AllInterfaces d @ ls)),
                 DiscoverySource := ''ubus''\<rparr>)) }) }"

definition uci_query :: "string \<Rightarrow> command" where
  "uci_query package = \<lparr>CmdName = ''uci'', CmdArgs = [''-q'', ''export'', package], CmdStdin = []\<rparr>"

definition detect_interfaces :: "'w runner \<Rightarrow> 'j network_json_scheme \<Rightarrow> ('w, interface_discovery fallible) state" where
  "detect_interfaces run js = do {
     network \<leftarrow> run_ok run (uci_query ''network'');
     case network of
       Inl e \<Rightarrow> State_Monad.return (Inl (Wrap ''openwrt: read network topology'' e))
     | Inr network_out \<Rightarrow> do {
         firewall \<leftarrow> run_ok run (uci_query ''firewall'');
         case firewall of
           Inl e \<Rightarrow> State_Monad.return (Inl (Wrap ''openwrt: read firewall topology'' e))
         | Inr firewall_out \<Rightarrow>
             (case parse_network_devices (Stdout network_out) of
               Inl e \<Rightarrow> State_Monad.return (Inl e)
             | Inr devices \<Rightarrow> (case parse_firewall_networks (Stdout firewall_out) of
                 Inl e \<Rightarrow> State_Monad.return (Inl e)
               | Inr (lan, wan) \<Rightarrow> discover_devices run js lan wan devices)) } }"

end
