(* ===== verification/Runtime_Settings.thy ===== *)
theory Runtime_Settings
  imports Settings_Text Interfaces Engine_Types
begin

text \<open>
  The settings of the manager, \<^verbatim>\<open>internal/app/settings.go\<close>: decoding the raw settings, and the capture
  plan and the gateway plan made of them. Where the source visits a Go map the first error found
  depends on its order, here it is the order of the source text.
\<close>

section \<open>Settings\<close>

record runtime_settings =
  RsRaw :: settings
  RsExternalDashboard :: bool
  RsCoreRestartGuard :: bool
  RsOperatingMode :: string
  RsCaptureMode :: string
  RsDNSMode :: string
  RsInterfaceMode :: string
  RsIncluded :: "string list"
  RsExcluded :: "string list"
  RsTUNStack :: string
  RsTUNAddress :: netip_prefix
  RsTUNMTU :: "32 word"
  RsReservedNetworks :: "string list"
  RsReservedConfigured :: bool
  RsBypassSources :: "string list"
  RsBypassTCPPorts :: "16 word list"
  RsBypassUDPPorts :: "16 word list"
  RsProxyTCPPorts :: "16 word list"
  RsProxyUDPPorts :: "16 word list"
  RsRejectQUIC :: bool
  RsBlockDoT :: bool
  RsAutoDetectWAN :: bool
  RsAutoDetectLAN :: bool
  RsAutoFakeIP :: bool
  RsAutoFakeIPExternal :: bool
  RsUseTmpfsRules :: bool
  RsEnableHWID :: bool
  RsInterceptOutput :: bool
  RsAutoRefreshProxyIPs :: bool
  RsAutoRefreshFakeIP :: bool
  RsMaintenanceInterval :: int

text \<open>\<^verbatim>\<open>172.19.0.1/30\<close>\<close>

definition default_tun_address :: netip_prefix where
  "default_tun_address = Prefix (Addr4 0xAC130001) (Some 30)"

definition default_settings :: runtime_settings where
  "default_settings = \<lparr>RsRaw = [], RsExternalDashboard = False, RsCoreRestartGuard = False,
     RsOperatingMode = ''gateway'', RsCaptureMode = ''tproxy'', RsDNSMode = ''upstream'',
     RsInterfaceMode = ''exclude'', RsIncluded = [], RsExcluded = [], RsTUNStack = ''system'',
     RsTUNAddress = default_tun_address, RsTUNMTU = 1500, RsReservedNetworks = default_reserved_cidrs,
     RsReservedConfigured = False, RsBypassSources = [], RsBypassTCPPorts = [], RsBypassUDPPorts = [],
     RsProxyTCPPorts = [], RsProxyUDPPorts = [], RsRejectQUIC = True, RsBlockDoT = False,
     RsAutoDetectWAN = True, RsAutoDetectLAN = True, RsAutoFakeIP = True, RsAutoFakeIPExternal = False,
     RsUseTmpfsRules = False, RsEnableHWID = False, RsInterceptOutput = True,
     RsAutoRefreshProxyIPs = True, RsAutoRefreshFakeIP = True, RsMaintenanceInterval = 30\<rparr>"

section \<open>Values\<close>

definition and_then :: "'a fallible \<Rightarrow> ('a \<Rightarrow> 'b fallible) \<Rightarrow> 'b fallible" where
  "and_then x f = (case x of Inl e \<Rightarrow> Inl e | Inr a \<Rightarrow> f a)"

definition raw_value :: "settings \<Rightarrow> string \<Rightarrow> string" where
  "raw_value raw key = (case map_of raw key of None \<Rightarrow> [] | Some v \<Rightarrow> v)"

text \<open>\<^verbatim>\<open>strconv.ParseUint(s, 10, bits)\<close> and \<^verbatim>\<open>strconv.Atoi\<close>.\<close>

definition parse_uint :: "nat \<Rightarrow> string \<Rightarrow> nat option" where
  "parse_uint bits s = (if s \<noteq> [] \<and> list_all is_digit s \<and> undec s < 2 ^ bits then Some (undec s) else None)"

definition atoi_signed :: "string \<Rightarrow> int option" where
  "atoi_signed s = (let negative = prefix ''-'' s; digits = (if negative \<or> prefix ''+'' s then tl s else s);
       n = (if negative then - int (undec digits) else int (undec digits)) in
     if digits \<noteq> [] \<and> list_all is_digit digits \<and> - (2 ^ 63) \<le> n \<and> n \<le> max_int then Some n else None)"

definition parse_bool :: "string \<Rightarrow> bool option" where
  "parse_bool s = (if s \<in> {''1'', ''t'', ''T'', ''TRUE'', ''true'', ''True''} then Some True
     else if s \<in> {''0'', ''f'', ''F'', ''FALSE'', ''false'', ''False''} then Some False else None)"

definition setting_int :: "settings \<Rightarrow> string \<Rightarrow> int \<Rightarrow> int \<Rightarrow> int \<Rightarrow> int fallible" where
  "setting_int raw key fallback least greatest = (let v = trim_space (raw_value raw key) in
     if v = [] then Inr fallback
     else case atoi_signed v of
       Some n \<Rightarrow> if n < least \<or> n > greatest
         then Inl (Err (key @ '' must be between '' @ int_text least @ '' and '' @ int_text greatest)) else Inr n
     | None \<Rightarrow> Inl (Err (key @ '' must be between '' @ int_text least @ '' and '' @ int_text greatest)))"

definition setting_bool :: "settings \<Rightarrow> string \<Rightarrow> bool \<Rightarrow> bool fallible" where
  "setting_bool raw key fallback = (let v = trim_space (raw_value raw key) in
     if v = [] then Inr fallback
     else case parse_bool v of Some b \<Rightarrow> Inr b | None \<Rightarrow> Inl (Err (key @ '' must be true or false'')))"

definition setting_text :: "settings \<Rightarrow> string \<Rightarrow> string \<Rightarrow> string" where
  "setting_text raw key fallback = (let v = lower_ascii (trim_space (raw_value raw key)) in
     if v = [] then fallback else v)"

text \<open>\<^verbatim>\<open>strings.FieldsFunc\<close> at ASCII separators: the maximal runs between them.\<close>

definition list_separator :: "char \<Rightarrow> bool" where
  "list_separator c \<longleftrightarrow> c \<in> {CHR '','', CHR '';'', CHR '' '', CHR 0x09}"

fun list_fields :: "string \<Rightarrow> string \<Rightarrow> string list" where
  "list_fields word [] = (if word = [] then [] else [word])"
| "list_fields word (c # s) = (if list_separator c
     then (if word = [] then [] else [word]) @ list_fields [] s else list_fields (word @ [c]) s)"

definition split_list :: "string \<Rightarrow> string list" where
  "split_list value = sort_compact (map trim_space (list_fields [] value))"

definition parse_ipv4_item :: "string \<Rightarrow> string fallible" where
  "parse_ipv4_item item = (case parse_addr item of
       Some a \<Rightarrow> if \<not> addr_is4 a then Inl (Err (quote item @ '' is not IPv4''))
         else Inr (prefix_string (prefix_from a 32))
     | None \<Rightarrow> (case parse_prefix item of
         Some p \<Rightarrow> if addr_is4 (prefix_addr p) then Inr (prefix_string (prefix_masked p))
           else Inl (Err (''invalid IPv4 prefix '' @ quote item))
       | None \<Rightarrow> Inl (Err (''invalid IPv4 prefix '' @ quote item))))"

fun all_fallible :: "('a \<Rightarrow> 'b fallible) \<Rightarrow> 'a list \<Rightarrow> 'b list fallible" where
  "all_fallible f [] = Inr []"
| "all_fallible f (x # xs) = and_then (f x) (\<lambda>y. and_then (all_fallible f xs) (\<lambda>ys. Inr (y # ys)))"

text \<open>A blank value is the empty list; nil and empty are used alike.\<close>

definition parse_ipv4_prefixes :: "string \<Rightarrow> string list fallible" where
  "parse_ipv4_prefixes value = (if trim_space value = [] then Inr []
     else and_then (all_fallible parse_ipv4_item (split_list value)) (\<lambda>vs. Inr (sort_compact vs)))"

section \<open>Ports\<close>

definition parse_port :: "string \<Rightarrow> (16 word) fallible" where
  "parse_port value = (case parse_uint 16 (trim_space value) of
       None \<Rightarrow> Inl (Err (''invalid port '' @ quote value))
     | Some n \<Rightarrow> if n = 0 then Inl (Err (''invalid port '' @ quote value)) else Inr (of_nat n))"

definition checked_port :: "32 word \<Rightarrow> (16 word) fallible" where
  "checked_port v = (if v = 0 \<or> v > 0xFFFF then Inl (Err (''invalid expanded port '' @ dec (unat v)))
     else Inr (ucast v))"

definition cut_dash :: "string \<Rightarrow> string \<times> string option" where
  "cut_dash s = (takeWhile (\<lambda>c. c \<noteq> CHR ''-'') s,
     case dropWhile (\<lambda>c. c \<noteq> CHR ''-'') s of [] \<Rightarrow> None | _ # t \<Rightarrow> Some t)"

text \<open>Whether the token is about TCP and about UDP, and the rest of it.\<close>

definition port_protocols :: "string \<Rightarrow> bool \<times> bool \<times> string" where
  "port_protocols token = (if prefix ''tcp:'' (lower_ascii token) then (True, False, drop 4 token)
     else if prefix ''udp:'' (lower_ascii token) then (False, True, drop 4 token) else (True, True, token))"

definition port_range :: "string \<Rightarrow> (16 word \<times> 16 word) fallible" where
  "port_range token = (case cut_dash token of (first, second) \<Rightarrow> and_then (parse_port first) (\<lambda>start.
     case second of
       None \<Rightarrow> Inr (start, start)
     | Some t \<Rightarrow> (case parse_port t of
         Inl _ \<Rightarrow> Inl (Err (''invalid port range '' @ quote token))
       | Inr end \<Rightarrow> if end < start then Inl (Err (''invalid port range '' @ quote token)) else Inr (start, end))))"

definition max_expanded_ports :: nat where "max_expanded_ports = 8192"

definition expand_ports :: "16 word \<Rightarrow> 16 word \<Rightarrow> 16 word list fallible" where
  "expand_ports start end = all_fallible (\<lambda>n. checked_port (of_nat n)) [unat start..<unat end + 1]"

definition add_port_token ::
  "string \<Rightarrow> 16 word list \<times> 16 word list \<Rightarrow> (16 word list \<times> 16 word list) fallible" where
  "add_port_token token0 ports = (case ports of (tcp, udp) \<Rightarrow> case port_protocols token0 of (on_tcp, on_udp, token) \<Rightarrow>
     and_then (port_range token) (\<lambda>(start, end).
       if unat (end - start) + 1 + length tcp + length udp > max_expanded_ports
       then Inl (Err ''expanded port list is too large'')
       else and_then (expand_ports start end) (\<lambda>ps.
         Inr (if on_tcp then tcp @ ps else tcp, if on_udp then udp @ ps else udp))))"

fun add_port_tokens ::
  "string list \<Rightarrow> 16 word list \<times> 16 word list \<Rightarrow> (16 word list \<times> 16 word list) fallible" where
  "add_port_tokens [] ports = Inr ports"
| "add_port_tokens (t # ts) ports = and_then (add_port_token t ports) (add_port_tokens ts)"

definition parse_protocol_ports :: "string \<Rightarrow> (16 word list \<times> 16 word list) fallible" where
  "parse_protocol_ports value = and_then (add_port_tokens (split_list value) ([], []))
     (\<lambda>(tcp, udp). Inr (sort_compact tcp, sort_compact udp))"

section \<open>Decoding\<close>

definition gateway_modes :: "string set" where
  "gateway_modes = {''tproxy'', ''hybrid'', ''tun'', ''mixed'', ''mixed2''}"

definition decode_modes :: "settings \<Rightarrow> runtime_settings \<Rightarrow> runtime_settings fallible" where
  "decode_modes raw s = (let operating = setting_text raw ''OPERATING_MODE'' (RsOperatingMode s);
       capture_mode = setting_text raw ''PROXY_MODE'' (RsCaptureMode s) in
     if operating \<noteq> ''gateway'' \<and> operating \<noteq> ''server''
     then Inl (Err (''unsupported OPERATING_MODE '' @ quote operating))
     else if capture_mode \<notin> gateway_modes then Inl (Err (''unsupported PROXY_MODE '' @ quote capture_mode))
     else Inr (s\<lparr>RsOperatingMode := operating, RsCaptureMode := capture_mode\<rparr>))"

definition decode_dns_mode :: "settings \<Rightarrow> runtime_settings \<Rightarrow> runtime_settings fallible" where
  "decode_dns_mode raw s =
     and_then (setting_bool raw ''ENABLE_DNS_UPSTREAM'' (RsDNSMode s = ''upstream'')) (\<lambda>upstream.
     and_then (setting_bool raw ''ENABLE_DNS_REDIRECT'' (RsDNSMode s = ''redirect'')) (\<lambda>redirect.
       if upstream \<and> redirect
       then Inl (Err ''ENABLE_DNS_UPSTREAM and ENABLE_DNS_REDIRECT are mutually exclusive'')
       else Inr (s\<lparr>RsDNSMode := if upstream then ''upstream'' else if redirect then ''redirect'' else ''disabled''\<rparr>)))"

definition decode_interfaces :: "settings \<Rightarrow> runtime_settings \<Rightarrow> runtime_settings fallible" where
  "decode_interfaces raw s = (let mode = setting_text raw ''INTERFACE_MODE'' (RsInterfaceMode s) in
     if mode \<noteq> ''explicit'' \<and> mode \<noteq> ''exclude'' then Inl (Err (''unsupported INTERFACE_MODE '' @ quote mode))
     else Inr (s\<lparr>RsInterfaceMode := mode, RsIncluded := split_list (raw_value raw ''INCLUDED_INTERFACES''),
       RsExcluded := split_list (raw_value raw ''EXCLUDED_INTERFACES'')\<rparr>))"

definition decode_tun_address :: "string \<Rightarrow> netip_prefix \<Rightarrow> netip_prefix fallible" where
  "decode_tun_address v fallback = (if v = [] then Inr fallback
     else case parse_prefix v of
       Some p \<Rightarrow> (case prefix_bits p of
           Some n \<Rightarrow> if addr_is4 (prefix_addr p) \<and> 1 \<le> n \<and> n \<le> 30 then Inr p
             else Inl (Err ''SINGBOX_TUN_ADDRESS must be an IPv4 interface prefix'')
         | None \<Rightarrow> Inl (Err ''SINGBOX_TUN_ADDRESS must be an IPv4 interface prefix''))
     | None \<Rightarrow> Inl (Err ''SINGBOX_TUN_ADDRESS must be an IPv4 interface prefix''))"

definition decode_tun_mtu :: "string \<Rightarrow> 32 word \<Rightarrow> (32 word) fallible" where
  "decode_tun_mtu v fallback = (if v = [] then Inr fallback
     else case parse_uint 32 v of
       Some n \<Rightarrow> if n < 576 \<or> n > 9000 then Inl (Err ''SINGBOX_TUN_MTU must be between 576 and 9000'')
         else Inr (of_nat n)
     | None \<Rightarrow> Inl (Err ''SINGBOX_TUN_MTU must be between 576 and 9000''))"

definition tun_stacks :: "string set" where
  "tun_stacks = {''system'', ''gvisor'', ''mixed'', ''mips''}"

definition decode_tun :: "settings \<Rightarrow> runtime_settings \<Rightarrow> runtime_settings fallible" where
  "decode_tun raw s = (let stack = trim_space (raw_value raw ''TUN_STACK''); kind = (if stack = [] then RsTUNStack s else stack) in
     and_then (decode_tun_address (trim_space (raw_value raw ''SINGBOX_TUN_ADDRESS'')) (RsTUNAddress s)) (\<lambda>address.
     and_then (decode_tun_mtu (trim_space (raw_value raw ''SINGBOX_TUN_MTU'')) (RsTUNMTU s)) (\<lambda>mtu.
       if kind \<notin> tun_stacks then Inl (Err (''unsupported TUN_STACK '' @ quote kind))
       else Inr (s\<lparr>RsTUNStack := kind, RsTUNAddress := address, RsTUNMTU := mtu\<rparr>))))"

definition named :: "string \<Rightarrow> 'a fallible \<Rightarrow> 'a fallible" where
  "named key x = map_sum (Wrap key) id x"

definition decode_networks :: "settings \<Rightarrow> runtime_settings \<Rightarrow> runtime_settings fallible" where
  "decode_networks raw s =
     and_then (case map_of raw ''RESERVED_NETWORKS'' of
         None \<Rightarrow> Inr (False, RsReservedNetworks s)
       | Some v \<Rightarrow> named ''RESERVED_NETWORKS'' (map_sum id (Pair True) (parse_ipv4_prefixes v))) (\<lambda>(configured, reserved).
     and_then (named ''BYPASS_SOURCES'' (parse_ipv4_prefixes (raw_value raw ''BYPASS_SOURCES''))) (\<lambda>sources.
     and_then (named ''BYPASS_DPORTS'' (parse_protocol_ports (raw_value raw ''BYPASS_DPORTS''))) (\<lambda>(bypass_tcp, bypass_udp).
     and_then (named ''PROXY_DPORTS'' (parse_protocol_ports (raw_value raw ''PROXY_DPORTS''))) (\<lambda>(proxy_tcp, proxy_udp).
       Inr (s\<lparr>RsReservedConfigured := configured, RsReservedNetworks := reserved, RsBypassSources := sources,
         RsBypassTCPPorts := bypass_tcp, RsBypassUDPPorts := bypass_udp,
         RsProxyTCPPorts := proxy_tcp, RsProxyUDPPorts := proxy_udp\<rparr>)))))"

text \<open>One switch: its key, its value so far and how to store it.\<close>

definition decode_flag ::
  "settings \<Rightarrow> string \<times> (runtime_settings \<Rightarrow> bool) \<times> (bool \<Rightarrow> runtime_settings \<Rightarrow> runtime_settings) \<Rightarrow>
   runtime_settings \<Rightarrow> runtime_settings fallible" where
  "decode_flag raw = (\<lambda>(key, old, put_flag) s.
     and_then (setting_bool raw key (old s)) (\<lambda>b. Inr (put_flag b s)))"

definition flags :: "(string \<times> (runtime_settings \<Rightarrow> bool) \<times> (bool \<Rightarrow> runtime_settings \<Rightarrow> runtime_settings)) list" where
  "flags = [
     (''EXTERNAL_DASHBOARD_ENABLED'', RsExternalDashboard, \<lambda>b s. s\<lparr>RsExternalDashboard := b\<rparr>),
     (''CORE_RESTART_GUARD'', RsCoreRestartGuard, \<lambda>b s. s\<lparr>RsCoreRestartGuard := b\<rparr>),
     (''BLOCK_QUIC'', RsRejectQUIC, \<lambda>b s. s\<lparr>RsRejectQUIC := b\<rparr>),
     (''BLOCK_DOT'', RsBlockDoT, \<lambda>b s. s\<lparr>RsBlockDoT := b\<rparr>),
     (''AUTO_DETECT_WAN'', RsAutoDetectWAN, \<lambda>b s. s\<lparr>RsAutoDetectWAN := b\<rparr>),
     (''AUTO_DETECT_LAN'', RsAutoDetectLAN, \<lambda>b s. s\<lparr>RsAutoDetectLAN := b\<rparr>),
     (''AUTO_FAKEIP_WHITELIST'', RsAutoFakeIP, \<lambda>b s. s\<lparr>RsAutoFakeIP := b\<rparr>),
     (''AUTO_FAKEIP_INCLUDE_EXTERNAL_IP_PROVIDERS'', RsAutoFakeIPExternal, \<lambda>b s. s\<lparr>RsAutoFakeIPExternal := b\<rparr>),
     (''USE_TMPFS_RULES'', RsUseTmpfsRules, \<lambda>b s. s\<lparr>RsUseTmpfsRules := b\<rparr>),
     (''ENABLE_HWID'', RsEnableHWID, \<lambda>b s. s\<lparr>RsEnableHWID := b\<rparr>),
     (''INTERCEPT_ROUTER_OUTPUT'', RsInterceptOutput, \<lambda>b s. s\<lparr>RsInterceptOutput := b\<rparr>),
     (''AUTO_REFRESH_PROXY_IPS'', RsAutoRefreshProxyIPs, \<lambda>b s. s\<lparr>RsAutoRefreshProxyIPs := b\<rparr>),
     (''AUTO_REFRESH_FAKEIP'', RsAutoRefreshFakeIP, \<lambda>b s. s\<lparr>RsAutoRefreshFakeIP := b\<rparr>)]"

fun in_steps :: "('a \<Rightarrow> 'a fallible) list \<Rightarrow> 'a \<Rightarrow> 'a fallible" where
  "in_steps [] a = Inr a"
| "in_steps (f # fs) a = and_then (f a) (in_steps fs)"

definition decode_rest :: "settings \<Rightarrow> runtime_settings \<Rightarrow> runtime_settings fallible" where
  "decode_rest raw s =
     (if RsBlockDoT s \<and> (RsOperatingMode s \<noteq> ''gateway'' \<or> RsDNSMode s = ''disabled'')
      then Inl (Err ''BLOCK_DOT requires gateway mode and DNS upstream or redirect'')
      else and_then (setting_int raw ''MAINTENANCE_INTERVAL'' (RsMaintenanceInterval s) 5 1440) (\<lambda>n.
        Inr (s\<lparr>RsMaintenanceInterval := n\<rparr>)))"

definition decode_steps :: "settings \<Rightarrow> (runtime_settings \<Rightarrow> runtime_settings fallible) list" where
  "decode_steps raw = [decode_modes raw, decode_dns_mode raw, decode_interfaces raw, decode_tun raw, decode_networks raw] @
     map (decode_flag raw) flags @ [decode_rest raw]"

definition decode_settings :: "settings \<Rightarrow> runtime_settings fallible" where
  "decode_settings raw = in_steps (decode_steps raw) (default_settings\<lparr>RsRaw := raw\<rparr>)"

definition settings_file :: string where "settings_file = ''.boxctl/settings''"

definition load_runtime_settings :: "'w fs \<Rightarrow> string \<Rightarrow> ('w, runtime_settings fallible) state" where
  "load_runtime_settings fs root = do {
     raw \<leftarrow> load_settings fs root settings_file;
     State_Monad.return (case raw of
         Inl e \<Rightarrow> if error_is e err_not_exist then Inr default_settings else Inl e
       | Inr s \<Rightarrow> decode_settings s) }"

section \<open>Plans\<close>

record managed_mihomo =
  MmTProxyPort :: "16 word"
  MmRedirectPort :: "16 word"
  MmDNSPort :: "16 word"
  MmTUNDevice :: string
  MmTUNStack :: string
  MmLoopMark :: "32 word"
  MmDNSFakeIP :: bool
  MmFakeIPFilterMode :: string
  MmFakeIPRanges :: "netip_prefix list"
  MmAdditionalCIDRs :: "netip_prefix list"

text \<open>Valid prefixes only, masked, in the order of their texts.\<close>

definition normalize_net_prefixes :: "netip_prefix list \<Rightarrow> netip_prefix list" where
  "normalize_net_prefixes vs = remdups_adj (sort_key prefix_string (map prefix_masked (filter prefix_is_valid vs)))"

definition captured :: "string \<Rightarrow> 16 word \<Rightarrow> protocol_capture" where
  "captured method port = \<lparr>Method = method, Port = port\<rparr>"

definition protocol_captures :: "string \<Rightarrow> 16 word \<Rightarrow> 16 word \<Rightarrow> protocol_capture \<times> protocol_capture" where
  "protocol_captures mode tproxy redirect =
     (if mode = ''tproxy'' then (captured CaptureTPROXY tproxy, captured CaptureTPROXY tproxy)
      else if mode = ''hybrid'' then (captured CaptureRedirect redirect, captured CaptureTPROXY tproxy)
      else if mode = ''tun'' then (captured CaptureTUN 0, captured CaptureTUN 0)
      else if mode = ''mixed'' then (captured CaptureTPROXY tproxy, captured CaptureTUN 0)
      else (captured CaptureRedirect redirect, captured CaptureTUN 0))"

definition fakeip_destinations :: "managed_mihomo \<Rightarrow> netip_prefix list" where
  "fakeip_destinations m = (let ranges = normalize_net_prefixes (MmFakeIPRanges m);
       mode = lower_ascii (trim_space (MmFakeIPFilterMode m)) in
     normalize_net_prefixes (ranges @ (if mode = ''whitelist'' \<or> mode = ''rule'' then MmAdditionalCIDRs m else [])))"

definition settings_capture :: "runtime_settings \<Rightarrow> managed_mihomo \<Rightarrow> capture_plan" where
  "settings_capture s m =
     (let (tcp, udp) = protocol_captures (RsCaptureMode s) (or_default (MmTProxyPort m) 7894) (or_default (MmRedirectPort m) 7893) in
      zero_capture\<lparr>
        TCP := tcp, UDP := udp,
        DNS := (if RsDNSMode s \<noteq> ''disabled''
          then \<lparr>Enabled = True, Host = ''0.0.0.0'', DNSPort = or_default (MmDNSPort m) 7874\<rparr>
          else \<lparr>Enabled = False, Host = [], DNSPort = 0\<rparr>),
        TUNDevice := or_default_text (MmTUNDevice m) ''clash-tun'',
        TUNStack := (if MmTUNStack m = [] \<or> trim_space (raw_value (RsRaw s) ''TUN_STACK'') \<noteq> []
          then RsTUNStack s else MmTUNStack m),
        LoopMark := or_default (MmLoopMark m) 2,
        FakeIPRanges := (if MmDNSFakeIP m then normalize_net_prefixes (MmFakeIPRanges m) else []),
        Destinations := (if MmDNSFakeIP m
          then \<lparr>DestMode = DestinationCaptureAllowlist, CIDRs = fakeip_destinations m\<rparr>
          else \<lparr>DestMode = DestinationCaptureAll, CIDRs = []\<rparr>)\<rparr>)"

text \<open>The plan is returned with the error of its validation; callers drop it then.\<close>

definition capture_plan_of :: "runtime_settings \<Rightarrow> managed_mihomo \<Rightarrow> capture_plan fallible" where
  "capture_plan_of s m =
     (if RsCaptureMode s \<notin> gateway_modes then Inl (Err (''unsupported capture mode '' @ quote (RsCaptureMode s)))
      else case capture_plan_validate (settings_capture s m) of
        Some e \<Rightarrow> Inl e | None \<Rightarrow> Inr (settings_capture s m))"

definition merge_ports :: "16 word list option \<Rightarrow> 16 word list \<Rightarrow> 16 word list option" where
  "merge_ports l r = (let ps = ports_of l @ r in if ps = [] then None else Some (sort_compact ps))"

definition ipv4_text :: "string \<Rightarrow> bool \<Rightarrow> netip_prefix \<Rightarrow> string fallible" where
  "ipv4_text what strict p = (if strict \<and> \<not> prefix_is_valid p \<or> \<not> addr_is4 (prefix_addr p)
     then Inl (Err (what @ prefix_string p)) else Inr (prefix_string (prefix_masked p)))"

definition endpoint_texts :: "netip_prefix list \<Rightarrow> string list fallible" where
  "endpoint_texts ps = all_fallible (ipv4_text ''OpenWrt endpoint bypass is IPv4-only: '' True) ps"

definition plan_ports :: "capture_plan \<Rightarrow> gateway_plan \<Rightarrow> gateway_plan" where
  "plan_ports c p = p\<lparr>
     TProxyPort := (if Method (TCP c) = CaptureTPROXY then Port (TCP c)
       else if Method (UDP c) = CaptureTPROXY then Port (UDP c) else TProxyPort p),
     RedirectPort := (if Method (TCP c) = CaptureRedirect then Port (TCP c) else RedirectPort p),
     PlanDNSPort := (if Enabled (DNS c) then DNSPort (DNS c) else PlanDNSPort p)\<rparr>"

text \<open>\<open>strict\<close> also refuses an invalid prefix, as the refresh of an active plan does.\<close>

definition plan_destinations :: "bool \<Rightarrow> destination_capture \<Rightarrow> gateway_plan \<Rightarrow> gateway_plan fallible" where
  "plan_destinations strict d p =
     (if DestMode d = DestinationCaptureAll then Inr (p\<lparr>CaptureCIDRs := [], CaptureCIDRsConfigured := False\<rparr>)
      else if DestMode d = DestinationCaptureAllowlist
      then and_then (all_fallible (ipv4_text ''OpenWrt destination capture is IPv4-only: '' strict) (CIDRs d)) (\<lambda>vs.
        Inr (p\<lparr>CaptureCIDRs := vs, CaptureCIDRsConfigured := True\<rparr>))
      else Inl (Err (''unsupported destination capture mode '' @ quote (DestMode d))))"

definition plan_interfaces :: "runtime_settings \<Rightarrow> interface_discovery \<Rightarrow> gateway_plan \<Rightarrow> gateway_plan fallible" where
  "plan_interfaces s d p =
     (if RsInterfaceMode s = ''explicit'' then
        (let included = (if RsIncluded s = [] \<and> RsAutoDetectLAN s then LANInterfaces d else RsIncluded s) in
         if included = [] then Inl (Err ''explicit interface mode has no positively identified LAN interface'')
         else Inr (p\<lparr>IncludeInterfaces := included\<rparr>))
      else if RsInterfaceMode s = ''exclude'' then
        (if RsAutoDetectWAN s \<and> WANInterfaces d = [] then Inl (Err ''exclude interface mode cannot identify WAN'')
         else Inr (p\<lparr>ExcludeInterfaces := RsExcluded s @ (if RsAutoDetectWAN s then WANInterfaces d else [])\<rparr>))
      else Inl (Err (''unsupported interface mode '' @ quote (RsInterfaceMode s))))"

definition settings_plan :: "runtime_settings \<Rightarrow> capture_plan \<Rightarrow> string list \<Rightarrow> gateway_plan" where
  "settings_plan s c endpoints = (let d = default_gateway_plan (RsCaptureMode s) in plan_ports c (d\<lparr>
     DNSMode := RsDNSMode s, PlanTUNDevice := TUNDevice c, TUNMark := 3, PlanLoopMark := LoopMark c,
     InterceptOutput := RsInterceptOutput s, RejectQUIC := RsRejectQUIC s, BlockDoT := RsBlockDoT s,
     BypassCIDRs := RsReservedNetworks s, BypassCIDRsConfigured := RsReservedConfigured s,
     SourceBypassCIDRs := RsBypassSources s, ProxyServerCIDRs := endpoints,
     BypassTCPPorts := merge_ports (BypassTCPPorts d) (RsBypassTCPPorts s),
     BypassUDPPorts := merge_ports (BypassUDPPorts d) (RsBypassUDPPorts s),
     ProxyOnlyTCPPorts := RsProxyTCPPorts s, ProxyOnlyUDPPorts := RsProxyUDPPorts s\<rparr>))"

definition validated :: "gateway_plan \<Rightarrow> gateway_plan fallible" where
  "validated p = (case gateway_validate p of Some e \<Rightarrow> Inl e | None \<Rightarrow> Inr p)"

definition gateway_plan_of ::
  "runtime_settings \<Rightarrow> capture_plan \<Rightarrow> interface_discovery \<Rightarrow> gateway_plan fallible" where
  "gateway_plan_of s c d =
     and_then (endpoint_texts (EndpointBypassCIDRs c)) (\<lambda>endpoints.
     and_then (plan_destinations False (Destinations c) (settings_plan s c endpoints)) (\<lambda>p.
     and_then (plan_interfaces s d p) validated))"

end
