(* ===== verification/Runtime_Settings_Proofs.thy ===== *)
theory Runtime_Settings_Proofs
  imports Runtime_Settings Gateway_Plan_Proofs
begin

text \<open>
  Decoded settings have every field in its range, capture plans made of them are well formed, and a
  gateway plan built on detected interfaces never captures from a WAN device.
\<close>

section \<open>Steps\<close>

lemma and_then_Inr [simp]: "and_then x f = Inr b \<longleftrightarrow> (\<exists>a. x = Inr a \<and> f a = Inr b)"
  by (cases x) (simp_all add: and_then_def)

lemma all_fallible_Inr: "all_fallible f xs = Inr ys \<longleftrightarrow> list_all2 (\<lambda>x y. f x = Inr y) xs ys"
  by (induction xs arbitrary: ys) (auto simp: list_all2_Cons1)

lemma in_steps_inv:
  assumes "in_steps fs a = Inr b" and "I a" and "\<And>f x y. f \<in> set fs \<Longrightarrow> I x \<Longrightarrow> f x = Inr y \<Longrightarrow> I y"
  shows "I b"
  using assms by (induction fs arbitrary: a) auto

lemma in_steps_append: "in_steps (fs @ gs) a = and_then (in_steps fs a) (in_steps gs)"
  by (induction fs arbitrary: a) (auto simp: and_then_def split: sum.split)

section \<open>Values\<close>

lemma sorted_adj_distinct: "sorted xs \<Longrightarrow> distinct_adj xs \<Longrightarrow> distinct xs"
proof (induction xs)
  case (Cons a xs)
  then show ?case
    by (cases xs) force+
qed simp

lemma sort_compact_distinct: "distinct (sort_compact xs)"
  using sorted_compact [of xs] by (intro sorted_adj_distinct) (simp_all add: sort_compact_def)

lemma parsed_item_canonical: "parse_ipv4_item v = Inr t \<Longrightarrow> canonical_cidr t"
proof -
  assume v: "parse_ipv4_item v = Inr t"
  then obtain p where "parse_ipv4_cidr v = Inr p" "t = prefix_string p"
    by (auto simp: parse_ipv4_item_def parse_ipv4_cidr_def split: option.splits if_splits)
  then show ?thesis
    using parse_ipv4_cidr_shape [of v p] by (auto simp: canonical_cidr_def simp del: prefix_string.simps)
qed

definition cidr_list :: "string list \<Rightarrow> bool" where
  "cidr_list vs \<longleftrightarrow> (\<forall>v \<in> set vs. canonical_cidr v)"

lemma parsed_cidr_list: "parse_ipv4_prefixes v = Inr vs \<Longrightarrow> cidr_list vs"
  using parsed_item_canonical
  by (fastforce simp: parse_ipv4_prefixes_def cidr_list_def all_fallible_Inr list_all2_conv_all_nth in_set_conv_nth
      split: if_splits)

text \<open>Ports in order, without repetition and without zero, and not too many of them.\<close>

definition port_list :: "16 word list \<Rightarrow> bool" where
  "port_list ps \<longleftrightarrow> sorted ps \<and> distinct ps \<and> 0 \<notin> set ps \<and> length ps \<le> max_expanded_ports"

lemma checked_port_nonzero:
  assumes "checked_port (of_nat n) = Inr p" and "n < 65536"
  shows "p \<noteq> 0"
proof
  assume "p = 0"
  have n: "unat (of_nat n :: 32 word) = n"
    using assms(2) by (simp add: unat_of_nat)
  have "p = ucast (of_nat n :: 32 word)" "(of_nat n :: 32 word) \<noteq> 0"
    using assms(1) by (auto simp: checked_port_def split: if_splits)
  then have "unat p = n mod 65536" "n \<noteq> 0"
    using n by (simp add: unsigned_ucast_eq take_bit_eq_mod, cases "n = 0") simp_all
  then show False
    using \<open>p = 0\<close> assms(2) by simp
qed

lemma list_all2_right: "list_all2 P xs ys \<Longrightarrow> y \<in> set ys \<Longrightarrow> \<exists>x \<in> set xs. P x y"
  by (induction rule: list_all2_induct) auto

lemma expanded_ports:
  assumes "expand_ports a b = Inr ps"
  shows "0 \<notin> set ps \<and> length ps = unat b + 1 - unat a"
proof -
  have every: "list_all2 (\<lambda>n p. checked_port (of_nat n) = Inr p) [unat a..<unat b + 1] ps"
    using assms by (simp add: expand_ports_def all_fallible_Inr)
  have "p \<noteq> 0" if "p \<in> set ps" for p
  proof -
    obtain n where "n \<in> set [unat a..<unat b + 1]" "checked_port (of_nat n) = Inr p"
      using list_all2_right [OF every] \<open>p \<in> set ps\<close> by blast
    moreover from this have "n < 65536"
      using unsigned_less [of b, where ?'a = nat] by auto
    ultimately show ?thesis
      using checked_port_nonzero by blast
  qed
  then show ?thesis
    using list_all2_lengthD [OF every] by (auto simp del: upt_Suc)
qed

definition within_limit :: "16 word list \<times> 16 word list \<Rightarrow> bool" where
  "within_limit = (\<lambda>(tcp, udp). 0 \<notin> set tcp \<and> 0 \<notin> set udp \<and>
     length tcp \<le> max_expanded_ports \<and> length udp \<le> max_expanded_ports)"

lemma port_range_ordered: "port_range token = Inr (a, b) \<Longrightarrow> a \<le> b"
proof -
  obtain first second where c: "cut_dash token = (first, second)"
    by (cases "cut_dash token")
  assume "port_range token = Inr (a, b)"
  then show "a \<le> b"
    by (cases second; cases "parse_port (the second)") (auto simp: port_range_def c split: if_splits)
qed

lemma add_port_token_limit:
  assumes "add_port_token t ports = Inr ports'" and "within_limit ports"
  shows "within_limit ports'"
proof -
  obtain tcp udp on_tcp on_udp token where parts: "ports = (tcp, udp)" "port_protocols t = (on_tcp, on_udp, token)"
    by (metis prod_cases3 surj_pair)
  then obtain a b ps where ps: "port_range token = Inr (a, b)" "expand_ports a b = Inr ps"
      "\<not> unat (b - a) + 1 + length tcp + length udp > max_expanded_ports"
      "ports' = (if on_tcp then tcp @ ps else tcp, if on_udp then udp @ ps else udp)"
    using assms(1) by (auto simp: add_port_token_def split: if_splits)
  have "a \<le> b"
    by (rule port_range_ordered [OF ps(1)])
  then have "unat (b - a) + 1 = unat b + 1 - unat a"
    by (simp add: unat_sub word_le_nat_alt)
  then have "0 \<notin> set ps \<and> length ps + length tcp + length udp \<le> max_expanded_ports"
    using expanded_ports [OF ps(2)] ps(3) by simp
  then show ?thesis
    using assms(2) by (auto simp: within_limit_def parts ps(4))
qed

lemma add_port_tokens_limit: "add_port_tokens ts ports = Inr ports' \<Longrightarrow> within_limit ports \<Longrightarrow> within_limit ports'"
  using add_port_token_limit by (induction ts arbitrary: ports) fastforce+

lemma length_sort_compact: "length (sort_compact xs) \<le> length xs"
  using remdups_adj_length [of "sort xs"] by (simp add: sort_compact_def)

lemma parsed_port_lists:
  assumes "parse_protocol_ports v = Inr (tcp, udp)"
  shows "port_list tcp \<and> port_list udp"
proof -
  obtain t u where "add_port_tokens (split_list v) ([], []) = Inr (t, u)" "tcp = sort_compact t" "udp = sort_compact u"
    using assms by (auto simp: parse_protocol_ports_def)
  moreover from this have "within_limit (t, u)"
    using add_port_tokens_limit [of "split_list v" "([], [])"] by (simp add: within_limit_def)
  ultimately show ?thesis
    using length_sort_compact [of t] length_sort_compact [of u]
    by (simp add: within_limit_def port_list_def sorted_compact sort_compact_distinct)
qed

lemma setting_int_range: "setting_int raw key d a b = Inr n \<Longrightarrow> a \<le> d \<Longrightarrow> d \<le> b \<Longrightarrow> a \<le> n \<and> n \<le> b"
  by (auto simp: setting_int_def Let_def split: if_splits option.splits)

section \<open>The ranges of decoded settings\<close>

definition tun_address_ok :: "netip_prefix \<Rightarrow> bool" where
  "tun_address_ok p \<longleftrightarrow> (\<exists>w n. p = Prefix (Addr4 w) (Some n) \<and> 1 \<le> n \<and> n \<le> 30)"

definition settings_ranges :: "runtime_settings \<Rightarrow> bool" where
  "settings_ranges s \<longleftrightarrow>
     RsOperatingMode s \<in> {''gateway'', ''server''} \<and> RsCaptureMode s \<in> gateway_modes \<and>
     RsDNSMode s \<in> {''upstream'', ''redirect'', ''disabled''} \<and> RsInterfaceMode s \<in> {''explicit'', ''exclude''} \<and>
     RsTUNStack s \<in> tun_stacks \<and> tun_address_ok (RsTUNAddress s) \<and> 576 \<le> unat (RsTUNMTU s) \<and> unat (RsTUNMTU s) \<le> 9000 \<and>
     cidr_list (RsReservedNetworks s) \<and> cidr_list (RsBypassSources s) \<and>
     (\<forall>ps \<in> {RsBypassTCPPorts s, RsBypassUDPPorts s, RsProxyTCPPorts s, RsProxyUDPPorts s}. port_list ps) \<and>
     (\<forall>vs \<in> {RsIncluded s, RsExcluded s}. sorted vs \<and> distinct vs) \<and>
     5 \<le> RsMaintenanceInterval s \<and> RsMaintenanceInterval s \<le> 1440"

lemma decode_modes_ranges:
  assumes "decode_modes raw s = Inr s'" and "settings_ranges s"
  shows "settings_ranges s'"
proof -
  obtain m c where "s' = s\<lparr>RsOperatingMode := m, RsCaptureMode := c\<rparr>" "m \<in> {''gateway'', ''server''}" "c \<in> gateway_modes"
    using assms(1) unfolding decode_modes_def Let_def by (metis Inl_Inr_False insertCI old.sum.inject(2))
  then show ?thesis
    using assms(2) by (simp add: settings_ranges_def)
qed

lemma decode_dns_mode_ranges:
  assumes "decode_dns_mode raw s = Inr s'" and "settings_ranges s"
  shows "settings_ranges s'"
proof -
  obtain u r where "s' = s\<lparr>RsDNSMode := if u then ''upstream'' else if r then ''redirect'' else ''disabled''\<rparr>"
    using assms(1) unfolding decode_dns_mode_def and_then_Inr by (metis Inl_Inr_False old.sum.inject(2))
  then show ?thesis
    using assms(2) by (simp add: settings_ranges_def)
qed

lemma decode_interfaces_ranges:
  assumes "decode_interfaces raw s = Inr s'" and "settings_ranges s"
  shows "settings_ranges s'"
proof -
  obtain m where "s' = s\<lparr>RsInterfaceMode := m, RsIncluded := split_list (raw_value raw ''INCLUDED_INTERFACES''),
       RsExcluded := split_list (raw_value raw ''EXCLUDED_INTERFACES'')\<rparr>" "m \<in> {''explicit'', ''exclude''}"
    using assms(1) unfolding decode_interfaces_def Let_def by (metis Inl_Inr_False insertCI old.sum.inject(2))
  then show ?thesis
    using assms(2) by (simp add: settings_ranges_def split_list_def sorted_compact sort_compact_distinct)
qed

lemma decode_tun_address_ok: "decode_tun_address v d = Inr p \<Longrightarrow> tun_address_ok d \<Longrightarrow> tun_address_ok p"
proof -
  assume "decode_tun_address v d = Inr p" "tun_address_ok d"
  then consider "p = d" | n where "prefix_bits p = Some n" "addr_is4 (prefix_addr p)" "1 \<le> n" "n \<le> 30"
    by (auto simp: decode_tun_address_def split: if_splits option.splits)
  then show "tun_address_ok p"
  proof cases
    case 2
    then show ?thesis
      by (cases p; cases "prefix_addr p") (auto simp: tun_address_ok_def)
  qed (use \<open>tun_address_ok d\<close> in simp)
qed

lemma decode_tun_mtu_ok:
  "decode_tun_mtu v d = Inr m \<Longrightarrow> 576 \<le> unat d \<Longrightarrow> unat d \<le> 9000 \<Longrightarrow> 576 \<le> unat m \<and> unat m \<le> 9000"
  by (auto simp: decode_tun_mtu_def unat_of_nat split: if_splits option.splits)

lemma decode_tun_ranges:
  assumes "decode_tun raw s = Inr s'" and "settings_ranges s"
  shows "settings_ranges s'"
proof -
  obtain k a m where "decode_tun_address (trim_space (raw_value raw ''SINGBOX_TUN_ADDRESS'')) (RsTUNAddress s) = Inr a"
      "decode_tun_mtu (trim_space (raw_value raw ''SINGBOX_TUN_MTU'')) (RsTUNMTU s) = Inr m" "k \<in> tun_stacks"
      "s' = s\<lparr>RsTUNStack := k, RsTUNAddress := a, RsTUNMTU := m\<rparr>"
    using assms(1) by (auto simp: decode_tun_def Let_def split: if_splits)
  then show ?thesis
    using assms(2) decode_tun_address_ok decode_tun_mtu_ok by (simp add: settings_ranges_def)
qed

lemma named_Inr [simp]: "named k x = Inr a \<longleftrightarrow> x = Inr a"
  by (cases x) (simp_all add: named_def)

lemma decode_networks_ranges:
  assumes "decode_networks raw s = Inr s'" and "settings_ranges s"
  shows "settings_ranges s'"
proof -
  obtain c r b bt bu pt pu where d:
    "(case map_of raw ''RESERVED_NETWORKS'' of None \<Rightarrow> Inr (False, RsReservedNetworks s)
       | Some v \<Rightarrow> named ''RESERVED_NETWORKS'' (map_sum id (Pair True) (parse_ipv4_prefixes v))) = Inr (c, r)"
    "parse_ipv4_prefixes (raw_value raw ''BYPASS_SOURCES'') = Inr b"
    "parse_protocol_ports (raw_value raw ''BYPASS_DPORTS'') = Inr (bt, bu)"
    "parse_protocol_ports (raw_value raw ''PROXY_DPORTS'') = Inr (pt, pu)"
    "s' = s\<lparr>RsReservedConfigured := c, RsReservedNetworks := r, RsBypassSources := b, RsBypassTCPPorts := bt,
       RsBypassUDPPorts := bu, RsProxyTCPPorts := pt, RsProxyUDPPorts := pu\<rparr>"
    using assms(1) by (auto simp: decode_networks_def)
  have "cidr_list r"
    using d(1) assms(2) parsed_cidr_list
    by (cases "map_of raw ''RESERVED_NETWORKS''"; cases "parse_ipv4_prefixes (the (map_of raw ''RESERVED_NETWORKS''))")
      (auto simp: settings_ranges_def)
  then show ?thesis
    using assms(2) parsed_cidr_list [OF d(2)] parsed_port_lists [OF d(3)] parsed_port_lists [OF d(4)]
    by (simp add: settings_ranges_def d(5))
qed

lemma put_flag_ranges: "(key, old, put_flag) \<in> set flags \<Longrightarrow> settings_ranges (put_flag b s) = settings_ranges s"
  unfolding flags_def by (simp only: list.set insert_iff empty_iff prod.inject) (elim disjE; simp add: settings_ranges_def)

lemma decode_flag_ranges:
  assumes "f \<in> set (map (decode_flag raw) flags)" and "f s = Inr s'" and "settings_ranges s"
  shows "settings_ranges s'"
proof -
  obtain key old put_flag where flag: "(key, old, put_flag) \<in> set flags" "f = decode_flag raw (key, old, put_flag)"
    using assms(1) by auto
  then obtain b where "s' = put_flag b s"
    using assms(2) by (auto simp: decode_flag_def)
  then show ?thesis
    using put_flag_ranges [OF flag(1)] assms(3) by simp
qed

lemma decode_rest_ranges:
  assumes "decode_rest raw s = Inr s'" and "settings_ranges s"
  shows "settings_ranges s' \<and> (RsBlockDoT s' \<longrightarrow> RsOperatingMode s' = ''gateway'' \<and> RsDNSMode s' \<noteq> ''disabled'')"
proof -
  obtain n where n: "\<not> (RsBlockDoT s \<and> (RsOperatingMode s \<noteq> ''gateway'' \<or> RsDNSMode s = ''disabled''))"
      "setting_int raw ''MAINTENANCE_INTERVAL'' (RsMaintenanceInterval s) 5 1440 = Inr n" "s' = s\<lparr>RsMaintenanceInterval := n\<rparr>"
    using assms(1) by (auto simp: decode_rest_def split: if_splits)
  have "5 \<le> n \<and> n \<le> 1440"
    using setting_int_range [OF n(2)] assms(2) by (simp add: settings_ranges_def)
  then show ?thesis
    using assms(2) n(1) by (simp add: settings_ranges_def n(3))
qed

definition reserved_prefixes :: "(32 word \<times> nat) list" where
  "reserved_prefixes = [(0, 8), (0x0A000000, 8), (0x64400000, 10), (0x7F000000, 8), (0xA9FE0000, 16), (0xAC100000, 12),
     (0xC0000000, 24), (0xC0000200, 24), (0xC0586300, 24), (0xC0A80000, 16), (0xC6336400, 24), (0xCB007100, 24),
     (0xE0000000, 4), (0xF0000000, 4), (0xFFFFFFFF, 32)]"

lemma reserved_texts:
  "map (\<lambda>(w, n). prefix_string (Prefix (Addr4 (mask_word n w)) (Some n))) reserved_prefixes = default_reserved_cidrs"
  by (simp add: reserved_prefixes_def default_reserved_cidrs_def mask_word_def ipv4_string_def octets_def Let_def
      drop_bit_eq_div push_bit_eq_mult dec.simps char_constant)

lemma default_ranges: "settings_ranges (default_settings\<lparr>RsRaw := raw\<rparr>)"
proof -
  have fits: "list_all (\<lambda>(w, n). n \<le> 32) reserved_prefixes"
    by (simp add: reserved_prefixes_def)
  have "cidr_list default_reserved_cidrs"
    unfolding reserved_texts [symmetric] cidr_list_def set_map
  proof
    fix v
    assume "v \<in> (\<lambda>(w, n). prefix_string (Prefix (Addr4 (mask_word n w)) (Some n))) ` set reserved_prefixes"
    then obtain w n where wn: "(w, n) \<in> set reserved_prefixes" "v = prefix_string (Prefix (Addr4 (mask_word n w)) (Some n))"
      by (elim imageE) (simp only: split_paired_all prod.case)
    then have "n \<le> 32"
      using fits by (auto simp: list_all_iff)
    then show "canonical_cidr v"
      unfolding canonical_cidr_def wn(2) by blast
  qed
  then show ?thesis
    by (simp add: settings_ranges_def default_settings_def gateway_modes_def tun_stacks_def tun_address_ok_def
        default_tun_address_def cidr_list_def port_list_def)
qed


definition demo_raw :: settings where
  "demo_raw = [(''PROXY_MODE'', ''tun'')]"

lemma demo_raw_values: "raw_value demo_raw ''PROXY_MODE'' = ''tun''" "k \<noteq> ''PROXY_MODE'' \<Longrightarrow> raw_value demo_raw k = []"
  "trim_space ''tun'' = ''tun''" "lower_ascii ''tun'' = ''tun''" "trim_space [] = []" "split_list [] = []"
proof -
  show "trim_space ''tun'' = ''tun''"
    by (rule trim_plain) (simp_all add: plain_def)
  show "lower_ascii ''tun'' = ''tun''"
    by code_simp
qed (simp_all add: demo_raw_def raw_value_def trim_space_def split_list_def)

lemma unset_values:
  assumes "trim_space (raw_value raw k) = []"
  shows "setting_bool raw k b = Inr b" "setting_int raw k n least greatest = Inr n" "setting_text raw k t = t"
  using assms by (simp_all add: setting_bool_def setting_int_def setting_text_def Let_def)

lemma flags_unset:
  assumes "\<And>key old put_flag. (key, old, put_flag) \<in> set fs \<Longrightarrow> setting_bool raw key (old s) = Inr (old s) \<and> put_flag (old s) s = s"
  shows "in_steps (map (decode_flag raw) fs) s = Inr s"
  using assms
proof (induction fs)
  case (Cons f fs)
  obtain key old put_flag where f: "f = (key, old, put_flag)"
    by (cases f)
  have "decode_flag raw f s = Inr s"
    using Cons.prems [of key old put_flag] by (simp add: f decode_flag_def and_then_def)
  moreover have "in_steps (map (decode_flag raw) fs) s = Inr s"
    by (rule Cons.IH, rule Cons.prems) simp
  ultimately show ?case
    by (simp add: and_then_def)
qed simp

lemma demo_mode: "setting_text demo_raw ''PROXY_MODE'' t = ''tun''"
  unfolding setting_text_def Let_def demo_raw_values(1) demo_raw_values(3) demo_raw_values(4) by simp

lemma demo_decoded: "decode_settings demo_raw = Inr (default_settings\<lparr>RsRaw := demo_raw, RsCaptureMode := ''tun''\<rparr>)"
proof -
  let ?s = "default_settings\<lparr>RsRaw := demo_raw, RsCaptureMode := ''tun''\<rparr>"
  have unset: "trim_space (raw_value demo_raw k) = []" if "k \<noteq> ''PROXY_MODE''" for k
    using demo_raw_values(2) [OF that] demo_raw_values(5) by simp
  have "in_steps (map (decode_flag demo_raw) flags) ?s = Inr ?s"
  proof (rule flags_unset)
    fix key old put_flag
    assume flag: "(key, old, put_flag) \<in> set flags"
    have "key \<noteq> ''PROXY_MODE''"
      using flag by (auto simp: flags_def)
    moreover have "put_flag (old ?s) ?s = ?s"
      using flag unfolding flags_def by (simp only: list.set insert_iff empty_iff prod.inject) (elim disjE; simp)
    ultimately show "setting_bool demo_raw key (old ?s) = Inr (old ?s) \<and> put_flag (old ?s) ?s = ?s"
      using unset_values(1) [OF unset] by simp
  qed
  moreover have "decode_modes demo_raw (default_settings\<lparr>RsRaw := demo_raw\<rparr>) = Inr ?s"
    by (simp add: decode_modes_def unset_values(3) [OF unset] demo_mode Let_def)
      (simp add: default_settings_def gateway_modes_def)
  moreover have "decode_dns_mode demo_raw ?s = Inr ?s"
    by (simp add: decode_dns_mode_def unset_values(1) [OF unset] and_then_def) (simp add: default_settings_def)
  moreover have "decode_interfaces demo_raw ?s = Inr ?s"
    by (simp add: decode_interfaces_def unset_values(3) [OF unset] Let_def demo_raw_values) (simp add: default_settings_def)
  moreover have "decode_tun demo_raw ?s = Inr ?s"
    by (simp add: decode_tun_def Let_def demo_raw_values decode_tun_address_def decode_tun_mtu_def and_then_def)
      (simp add: default_settings_def tun_stacks_def)
  moreover have "decode_networks demo_raw ?s = Inr ?s"
    by (simp add: decode_networks_def demo_raw_values parse_ipv4_prefixes_def parse_protocol_ports_def and_then_def named_def
        sort_compact_def) (simp add: demo_raw_def default_settings_def)
  moreover have "decode_rest demo_raw ?s = Inr ?s"
    by (simp add: decode_rest_def unset_values(2) [OF unset] and_then_def) (simp add: default_settings_def)
  ultimately show ?thesis
    by (simp add: decode_settings_def decode_steps_def in_steps_append and_then_def)
qed


end
