(* ===== verification/Interfaces_Proofs.thy ===== *)
theory Interfaces_Proofs
  imports Runtime_Settings_Proofs Uci_Machine Policy_Roundtrip
begin

text \<open>
  What a successful detection guarantees whatever the commands answer, and what follows for the
  gateway plan made of it.
\<close>

section \<open>Detected devices\<close>

definition apart :: "interface_discovery \<Rightarrow> bool" where
  "apart d \<longleftrightarrow> LANInterfaces d \<noteq> [] \<and> WANInterfaces d \<noteq> [] \<and> set (LANInterfaces d) \<inter> set (WANInterfaces d) = {} \<and>
     [] \<notin> set (LANInterfaces d) \<union> set (WANInterfaces d)"

text \<open>Programs whose result satisfies \<open>P\<close> in every world.\<close>

definition always :: "('w, 'a fallible) state \<Rightarrow> ('a \<Rightarrow> bool) \<Rightarrow> bool" where
  "always m P \<longleftrightarrow> (\<forall>w. wp m (\<lambda>r _. \<forall>a. r = Inr a \<longrightarrow> P a) w)"

lemma always_return [simp]: "always (State_Monad.return r) P \<longleftrightarrow> (\<forall>a. r = Inr a \<longrightarrow> P a)"
  by (simp add: always_def wp_return)

lemma always_bind: "(\<And>a. always (k a) P) \<Longrightarrow> always (State_Monad.bind m k) P"
  by (simp add: always_def wp_bind) (simp add: wp_def split: prod.split)

lemma build_apart:
  assumes "build_discovery lan wan ds = Inr d"
  shows "apart d"
proof -
  have "[] \<notin> set (concat (map (device_of ds) ns))" for ns
    by (auto simp: device_of_def split: option.splits if_splits)
  then show ?thesis
    using assms by (auto simp: build_discovery_def Let_def apart_def normalize_strings_def find_None_iff
        split: if_splits option.splits) blast
qed

lemma apart_all [simp]: "apart (d\<lparr>AllInterfaces := a\<rparr>) = apart d" "apart (d\<lparr>DiscoverySource := x\<rparr>) = apart d"
  "apart (d\<lparr>AllInterfaces := a, DiscoverySource := x\<rparr>) = apart d"
  by (simp_all add: apart_def)

lemma map_sum_Inr: "map_sum id f x = Inr b \<longleftrightarrow> (\<exists>a. x = Inr a \<and> b = f a)"
  by (cases x) auto

lemma resolve_ip_apart: "always (resolve_ip_interfaces run js lan wan configured) apart"
  unfolding resolve_ip_interfaces_def
proof (rule always_bind)
  fix routed
  show "always (case routed of
       Inl e \<Rightarrow> State_Monad.return (Inl (Wrap ''openwrt: fallback route discovery'' e))
     | Inr routes \<Rightarrow> do {
         linked \<leftarrow> run_ok run link_command;
         State_Monad.return (case linked of
             Inl e \<Rightarrow> Inl (Wrap ''openwrt: fallback link discovery'' e)
           | Inr links \<Rightarrow> (case DecodeRoutes js (Stdout routes) of
               Inl e \<Rightarrow> Inl (Wrap ''openwrt: parse route JSON'' e)
             | Inr rs \<Rightarrow> (case DecodeLinks js (Stdout links) of
                 Inl e \<Rightarrow> Inl (Wrap ''openwrt: parse link JSON'' e)
               | Inr ls \<Rightarrow> map_sum id (\<lambda>d. d\<lparr>AllInterfaces := normalize_interface_names ls\<rparr>)
                   (build_discovery lan wan (fallback_devices wan rs ls configured))))) }) apart"
    by (cases routed) (auto intro!: always_bind simp: map_sum_Inr split: sum.splits elim!: build_apart)
qed

lemma discover_by_ip_apart: "always (discover_by_ip run js lan wan configured e) apart"
  unfolding discover_by_ip_def always_def wp_bind wp_return
proof
  fix w
  show "wp (resolve_ip_interfaces run js lan wan configured) (\<lambda>resolved _. \<forall>a. (case resolved of
         Inl e' \<Rightarrow> Inl (Join [Wrap ''openwrt: ubus interface discovery'' e, e'])
       | Inr d \<Rightarrow> Inr (d\<lparr>DiscoverySource := ''ip''\<rparr>)) = Inr a \<longrightarrow> apart a) w"
    by (rule wp_mono [OF spec [OF resolve_ip_apart [unfolded always_def]]]) (auto split: sum.splits)
qed

lemma discover_devices_apart: "always (discover_devices run js lan wan configured) apart"
  unfolding discover_devices_def
proof (rule always_bind)
  fix answer
  show "always (case answer of
       Inl e \<Rightarrow> discover_by_ip run js lan wan configured e
     | Inr r \<Rightarrow>
         if ExitCode r \<noteq> 0
         then discover_by_ip run js lan wan configured
           (Err (''ubus exited with '' @ int_text (ExitCode r) @ '': '' @ trim_space (Stderr r)))
         else (case resolve_ubus_interfaces js (Stdout r) lan wan configured of
             Inl e \<Rightarrow> discover_by_ip run js lan wan configured e
           | Inr d \<Rightarrow> do {
               links \<leftarrow> list_ip_links run js;
               State_Monad.return (Inr (d\<lparr>
                 AllInterfaces := (case links of
                     Inl _ \<Rightarrow> AllInterfaces d | Inr ls \<Rightarrow> normalize_strings (AllInterfaces d @ ls)),
                 DiscoverySource := ''ubus''\<rparr>)) })) apart"
    using discover_by_ip_apart
    by (auto simp: resolve_ubus_interfaces_def Let_def map_sum_Inr intro!: always_bind intro: build_apart split: sum.splits)
qed

lemma detect_apart: "always (detect_interfaces run js) apart"
  unfolding detect_interfaces_def
  by (intro always_bind) (auto intro!: always_bind discover_devices_apart split: sum.splits)

section \<open>The gateway plan\<close>


section \<open>A router with two zones\<close>

definition zone_text :: "string \<Rightarrow> string list" where
  "zone_text n = [''config zone'', ''option name '' @ n, ''list network '' @ n]"

definition demo_firewall :: string where
  "demo_firewall = join [uci_newline] (zone_text ''lan'' @ zone_text ''wan'')"

definition demo_devices :: "ubus_interface list" where
  "demo_devices = [\<lparr>UbusName = ''lan'', UbusDevice = ''br-lan'', UbusL3Device = []\<rparr>,
     \<lparr>UbusName = ''wan'', UbusDevice = ''eth1'', UbusL3Device = ''pppoe-wan''\<rparr>]"

definition demo_json :: network_json where
  "demo_json = \<lparr>DecodeUbus = (\<lambda>_. Inr demo_devices), DecodeRoutes = (\<lambda>_. Inr []), DecodeLinks = (\<lambda>_. Inr [])\<rparr>"

definition demo_run :: "unit runner" where
  "demo_run c = State_Monad.return (Inr \<lparr>Stdout = (if c = uci_query ''firewall'' then demo_firewall else []),
     Stderr = [], ExitCode = 0\<rparr>)"

lemma demo_line:
  assumes "list_all safe a" and "a \<noteq> []" and "list_all safe b" and "b \<noteq> []"
  shows "trim_space (a @ '' '' @ b) = a @ '' '' @ b" "parse_uci_words (a @ '' '' @ b) = Inr [a, b]"
    "list_all safe c \<Longrightarrow> c \<noteq> [] \<Longrightarrow> trim_space (a @ '' '' @ b @ '' '' @ c) = a @ '' '' @ b @ '' '' @ c"
    "list_all safe c \<Longrightarrow> c \<noteq> [] \<Longrightarrow> parse_uci_words (a @ '' '' @ b @ '' '' @ c) = Inr [a, b, c]"
  using assms parse_words [of "[(a, None), (b, None)]"] parse_words [of "[(a, None), (b, None), (c, None)]"]
  by (auto simp: word_ok_def word_text_def word_value_def list_all_iff safe_plain intro!: trim_plain)

lemma demo_words:
  "parse_uci_words ''config zone'' = Inr [''config'', ''zone'']"
  "parse_uci_words ''option name lan'' = Inr [''option'', ''name'', ''lan'']"
  "parse_uci_words ''list network lan'' = Inr [''list'', ''network'', ''lan'']"
  "parse_uci_words ''option name wan'' = Inr [''option'', ''name'', ''wan'']"
  "parse_uci_words ''list network wan'' = Inr [''list'', ''network'', ''wan'']"
proof -
  have safe: "list_all safe ''config''" "list_all safe ''zone''" "list_all safe ''option''" "list_all safe ''name''"
    "list_all safe ''list''" "list_all safe ''network''" "list_all safe ''lan''" "list_all safe ''wan''"
    by code_simp+
  show "parse_uci_words ''config zone'' = Inr [''config'', ''zone'']"
    using demo_line(2) [OF safe(1) _ safe(2)] by simp
  show "parse_uci_words ''option name lan'' = Inr [''option'', ''name'', ''lan'']"
    using demo_line(4) [OF safe(3) _ safe(4) _ safe(7)] by simp
  show "parse_uci_words ''list network lan'' = Inr [''list'', ''network'', ''lan'']"
    using demo_line(4) [OF safe(5) _ safe(6) _ safe(7)] by simp
  show "parse_uci_words ''option name wan'' = Inr [''option'', ''name'', ''wan'']"
    using demo_line(4) [OF safe(3) _ safe(4) _ safe(8)] by simp
  show "parse_uci_words ''list network wan'' = Inr [''list'', ''network'', ''wan'']"
    using demo_line(4) [OF safe(5) _ safe(6) _ safe(8)] by simp
qed

lemma demo_trim:
  "trim_space ''config zone'' = ''config zone''" "trim_space ''option name lan'' = ''option name lan''"
  "trim_space ''list network lan'' = ''list network lan''" "trim_space ''option name wan'' = ''option name wan''"
  "trim_space ''list network wan'' = ''list network wan''"
  by (rule trim_plain; simp add: plain_def)+

lemma read_config_line:
  assumes "trim_space l = l" and "\<not> ignored_line l" and "parse_uci_words l = Inr [''config'', t]"
  shows "read_uci_sections (l # ls) n before current =
    read_uci_sections ls (n + 1) (before @ (case current of None \<Rightarrow> [] | Some s \<Rightarrow> [s])) (Some (new_section [''config'', t]))"
  using assms by (simp add: Let_def)

lemma read_value_of_section:
  assumes "trim_space l = l" and "\<not> ignored_line l" and "parse_uci_words l = Inr [kind, key, v]"
    and "kind = uci_single \<or> kind = uci_list"
  shows "read_uci_sections (l # ls) n before (Some s) =
    read_uci_sections ls (n + 1) before (Some (add_section_value kind key v s))"
  using assms kinds(3,4) [symmetric] by (auto simp: Let_def)

lemma demo_kept_lines:
  "\<not> ignored_line ''config zone''" "\<not> ignored_line ''option name lan''" "\<not> ignored_line ''list network lan''"
  "\<not> ignored_line ''option name wan''" "\<not> ignored_line ''list network wan''"
  "uci_single = ''option''" "uci_list = ''list''"
  by (simp_all add: ignored_line_def uci_single_def uci_list_def)

lemma demo_sections: "read_uci_sections (zone_text ''lan'' @ zone_text ''wan'') 1 [] None = Inr [
    \<lparr>SectionType = ''zone'', SectionName = [], SectionOptions = [''name'' \<mapsto> space_words ''lan'', ''network'' \<mapsto> [''lan'']]\<rparr>,
    \<lparr>SectionType = ''zone'', SectionName = [], SectionOptions = [''name'' \<mapsto> space_words ''wan'', ''network'' \<mapsto> [''wan'']]\<rparr>]"
  unfolding zone_text_def append.simps
  by (simp only: read_config_line [OF demo_trim(1) demo_kept_lines(1) demo_words(1)]
      read_value_of_section [OF demo_trim(2) demo_kept_lines(2) demo_words(2) disjI1 [OF demo_kept_lines(6) [symmetric]]]
      read_value_of_section [OF demo_trim(3) demo_kept_lines(3) demo_words(3) disjI2 [OF demo_kept_lines(7) [symmetric]]]
      read_value_of_section [OF demo_trim(4) demo_kept_lines(4) demo_words(4) disjI1 [OF demo_kept_lines(6) [symmetric]]]
      read_value_of_section [OF demo_trim(5) demo_kept_lines(5) demo_words(5) disjI2 [OF demo_kept_lines(7) [symmetric]]])
    (simp add: new_section_def add_section_value_def section_values_def uci_single_def)

lemma demo_zones: "parse_firewall_networks demo_firewall = Inr ([''lan''], [''wan''])"
proof -
  have "split_on uci_newline demo_firewall = zone_text ''lan'' @ zone_text ''wan''"
    unfolding demo_firewall_def by (rule split_join) (auto simp: zone_text_def uci_newline_def)
  then have sections: "parse_uci_sections demo_firewall = Inr [
    \<lparr>SectionType = ''zone'', SectionName = [], SectionOptions = [''name'' \<mapsto> space_words ''lan'', ''network'' \<mapsto> [''lan'']]\<rparr>,
    \<lparr>SectionType = ''zone'', SectionName = [], SectionOptions = [''name'' \<mapsto> space_words ''wan'', ''network'' \<mapsto> [''wan'']]\<rparr>]"
    by (simp only: parse_uci_sections_def demo_sections)
  have "space_words ''lan'' = [''lan'']" "space_words ''wan'' = [''wan'']"
    by (simp_all add: space_words_last plain_def)
  moreover have "lower_ascii ''lan'' = ''lan''" "lower_ascii ''wan'' = ''wan''"
    by code_simp+
  ultimately show ?thesis
    unfolding parse_firewall_networks_def sections
    by (simp add: section_values_def zone_networks_def normalize_strings_def sort_compact_def Let_def)
qed

definition demo_settings :: runtime_settings where
  "demo_settings = default_settings\<lparr>RsReservedNetworks := [], RsReservedConfigured := True\<rparr>"

definition demo_managed :: managed_mihomo where
  "demo_managed = \<lparr>MmTProxyPort = 0, MmRedirectPort = 0, MmDNSPort = 0, MmTUNDevice = [], MmTUNStack = [], MmLoopMark = 0,
     MmDNSFakeIP = False, MmFakeIPFilterMode = [], MmFakeIPRanges = [], MmAdditionalCIDRs = []\<rparr>"

definition demo_found :: interface_discovery where
  "demo_found = \<lparr>LANNetworks = [''lan''], WANNetworks = [''wan''], LANInterfaces = [''br-lan''],
     WANInterfaces = [''pppoe-wan''], AllInterfaces = [''br-lan'', ''pppoe-wan''], DiscoverySource = ''ubus''\<rparr>"

lemma demo_names: "normalize_interface_names [''br-lan'', ''pppoe-wan''] = [''br-lan'', ''pppoe-wan'']" "trim_space [] = []"
proof -
  have "trim_space ''br-lan'' = ''br-lan''" "trim_space ''pppoe-wan'' = ''pppoe-wan''"
    by (rule trim_plain; simp add: plain_def)+
  then show "normalize_interface_names [''br-lan'', ''pppoe-wan''] = [''br-lan'', ''pppoe-wan'']"
    by (simp add: normalize_interface_names_def normalize_strings_def sort_compact_def)
qed (simp add: trim_space_def)

lemma demo_resolved:
  "resolve_ubus_interfaces demo_json out [''lan''] [''wan''] [] = Inr (demo_found\<lparr>DiscoverySource := []\<rparr>)"
  using demo_names(1)
  by (simp add: resolve_ubus_interfaces_def demo_json_def demo_devices_def ubus_device_def build_discovery_def
      device_of_def normalize_strings_def sort_compact_def Let_def demo_found_def)

lemma demo_networks: "parse_network_devices [] = Inr []"
  by (simp add: parse_network_devices_def parse_uci_sections_def demo_names(2) ignored_line_def)

lemma demo_detected: "run_state (detect_interfaces demo_run demo_json) () = (Inr demo_found, ())"
proof -
  have "uci_query ''firewall'' \<noteq> ubus_command" "uci_query ''firewall'' \<noteq> link_command" "uci_query ''network'' \<noteq> uci_query ''firewall''"
    by (simp_all add: uci_query_def ubus_command_def link_command_def ip_command_def)
  moreover have "list_ip_links demo_run demo_json = State_Monad.return (Inr [])"
    using calculation
    by (simp add: list_ip_links_def attempt_def run_ok_def demo_run_def exit_error_def demo_json_def
        normalize_interface_names_def normalize_strings_def sort_compact_def)
  ultimately show ?thesis
    by (simp add: detect_interfaces_def run_ok_def demo_run_def [of "uci_query _"] demo_run_def [of ubus_command]
        exit_error_def demo_zones demo_networks discover_devices_def demo_resolved demo_found_def normalize_strings_def
        sort_compact_def State_Monad.return_def)
qed

lemma demo_gateway: "\<exists>p. gateway_plan_of demo_settings (settings_capture demo_settings demo_managed) demo_found = Inr p"
  by (simp add: gateway_plan_of_def and_then_def endpoint_texts_def plan_destinations_def plan_interfaces_def validated_def
      demo_settings_def default_settings_def demo_managed_def demo_found_def settings_plan_def plan_ports_def
      settings_capture_def protocol_captures_def captured_def zero_capture_def merge_ports_def default_ports_def plan_eval)


end
