(* ===== verification/Gateway_Owner.thy ===== *)
theory Gateway_Owner
  imports Gateway_Apply State_Profiles Runtime_Settings Dns_Manager
begin

text \<open>
  Who owns the router, \<^verbatim>\<open>internal/app/openwrt_owner.go\<close>, and the pieces of
  \<^verbatim>\<open>internal/app/openwrt_activation.go\<close> that the activation is built from: the two controllers it drives, the
  generation it keeps on disk, and its fields. JSON codings and the parser of URLs are parameters.
\<close>

section \<open>The controllers\<close>

text \<open>A rollback runs under a fresh context of ten seconds, everything else under the caller's.\<close>

datatype call_context = CallerContext | RollbackContext

record 'w gateway_controller =
  GwDetect :: "call_context \<Rightarrow> ('w, interface_discovery fallible) state"
  GwApply :: "call_context \<Rightarrow> gateway_plan \<Rightarrow> ('w, gerror option) state"
  GwCleanup :: "call_context \<Rightarrow> gateway_plan \<Rightarrow> ('w, gerror option) state"
  GwCheck :: "call_context \<Rightarrow> gateway_plan \<Rightarrow> ('w, check_result \<times> gerror option) state"

record 'w dns_controller =
  DcBackup :: "call_context \<Rightarrow> ('w, dns_backup fallible) state"
  DcApply :: "call_context \<Rightarrow> gateway_plan \<Rightarrow> dns_backup \<Rightarrow> ('w, gerror option) state"
  DcRestore :: "call_context \<Rightarrow> dns_backup \<Rightarrow> ('w, gerror option) state"

text \<open>The runner that is used carries the context.\<close>

definition exec_gateway ::
  "(call_context \<Rightarrow> 'w runner) \<Rightarrow> 'j network_json_scheme \<Rightarrow> gateway_env \<Rightarrow> 'w gateway_controller" where
  "exec_gateway run js env = \<lparr>
     GwDetect = (\<lambda>ctx. detect_interfaces (run ctx) js), GwApply = (\<lambda>ctx. apply_gateway (run ctx) env),
     GwCleanup = (\<lambda>ctx. cleanup_gateway (run ctx) env), GwCheck = (\<lambda>ctx. check_gateway (run ctx) env)\<rparr>"

definition dns_manager_controller :: "(call_context \<Rightarrow> 'w runner) \<Rightarrow> dns_manager \<Rightarrow> 'w dns_controller" where
  "dns_manager_controller run m = \<lparr>
     DcBackup = (\<lambda>ctx. backup_dns (run ctx) m), DcApply = (\<lambda>ctx. apply_dns (run ctx) m),
     DcRestore = (\<lambda>ctx. restore_dns (run ctx) m)\<rparr>"

section \<open>What is kept on disk\<close>

record active_gateway =
  AgVersion :: int
  AgEngine :: string
  AgController :: controller_endpoint
  AgCapture :: capture_plan
  AgPlan :: gateway_plan
  AgAutoLAN :: bool
  AgAutoWAN :: bool
  AgStaticExcluded :: "string list"

record owner_state =
  OwnerVersion :: int
  OwnerRoot :: string

text \<open>
  A decoder answers with the value and whether anything follows it. \<open>ParseUrl\<close> gives the scheme, the
  host, the query and the fragment.
\<close>

record activation_json =
  EncodeActive :: "active_gateway \<Rightarrow> string fallible"
  DecodeActive :: "string \<Rightarrow> (active_gateway \<times> bool) fallible"
  EncodeBackup :: "dns_backup \<Rightarrow> string fallible"
  DecodeBackup :: "string \<Rightarrow> (dns_backup \<times> bool) fallible"
  EncodeOwner :: "owner_state \<Rightarrow> string fallible"
  DecodeOwner :: "string \<Rightarrow> (owner_state \<times> bool) fallible"
  ParseUrl :: "string \<Rightarrow> (string \<times> string \<times> string \<times> string) fallible"

definition decoded_whole :: "string \<Rightarrow> ('a \<times> bool) fallible \<Rightarrow> 'a fallible" where
  "decoded_whole what x = (case x of
       Inl e \<Rightarrow> Inl (Wrap (''decode '' @ what) e)
     | Inr (a, trailing) \<Rightarrow> if trailing then Inl (Err (''decode '' @ what @ '': trailing data'')) else Inr a)"

definition trim_right_slashes :: "string \<Rightarrow> string" where
  "trim_right_slashes s = rev (dropWhile (\<lambda>c. c = slash) (rev s))"

text \<open>\<^verbatim>\<open>strings.ReplaceAll\<close> of a text that is not empty.\<close>

fun replace_all :: "string \<Rightarrow> string \<Rightarrow> string \<Rightarrow> string" where
  "replace_all old new [] = []"
| "replace_all old new (c # cs) =
     (if old \<noteq> [] \<and> prefix old (c # cs) then new @ replace_all old new (drop (length old) (c # cs))
      else c # replace_all old new cs)"

text \<open>The errors of \<^verbatim>\<open>NewMihomoController\<close> and \<^verbatim>\<open>NewSingBoxController\<close>, which words them differently
  and whose cause, which nobody asks for, is left out.\<close>

definition controller_error :: "activation_json \<Rightarrow> controller_endpoint \<Rightarrow> gerror option" where
  "controller_error js endpoint = (let invalid = Some (Err (''invalid Mihomo controller URL '' @ quote (BaseURL endpoint))) in
     case ParseUrl js (trim_right_slashes (BaseURL endpoint)) of
       Inl e \<Rightarrow> invalid
     | Inr (scheme, host, query, fragment) \<Rightarrow>
         if scheme = [] \<or> host = [] then invalid
         else if scheme \<noteq> ''http'' \<and> scheme \<noteq> ''https''
         then Some (Err (''unsupported Mihomo controller scheme '' @ quote scheme))
         else if query \<noteq> [] \<or> fragment \<noteq> []
         then Some (Err ''mihomo controller base URL must not contain query or fragment'')
         else None)"

definition sing_box_words :: "string \<Rightarrow> string" where
  "sing_box_words s = replace_all ''mihomo'' ''sing-box'' (replace_all ''Mihomo'' ''sing-box'' s)"

definition sing_box_controller_error :: "activation_json \<Rightarrow> controller_endpoint \<Rightarrow> gerror option" where
  "sing_box_controller_error js endpoint = map_option (\<lambda>e. Err (sing_box_words (err_text e))) (controller_error js endpoint)"

definition validate_active_gateway :: "activation_json \<Rightarrow> active_gateway \<Rightarrow> gerror option" where
  "validate_active_gateway js a =
     (if AgVersion a \<noteq> 1
      then Some (Err (''unsupported active gateway generation version '' @ int_text (AgVersion a)))
      else case capture_plan_validate (AgCapture a) of
        Some e \<Rightarrow> Some (Wrap ''invalid active capture generation'' e)
      | None \<Rightarrow> (case gateway_validate (AgPlan a) of
          Some e \<Rightarrow> Some (Wrap ''invalid active gateway plan'' e)
        | None \<Rightarrow>
            if PlanTUNDevice (AgPlan a) \<noteq> TUNDevice (AgCapture a) \<or> PlanLoopMark (AgPlan a) \<noteq> LoopMark (AgCapture a)
            then Some (Err ''active gateway plan does not match its capture generation'')
            else if AgEngine a = engine_mihomo
            then map_option (Wrap ''invalid active Mihomo controller generation'') (controller_error js (AgController a))
            else if AgEngine a = engine_sing_box
            then map_option (Wrap ''invalid active sing-box controller generation'') (sing_box_controller_error js (AgController a))
            else Some (Err (''active gateway generation has unsupported engine '' @ quote (AgEngine a)))))"

section \<open>The fields of the activation\<close>

text \<open>
  \<open>AcLast\<close> and \<open>AcPutLast\<close> read and write the field \<^verbatim>\<open>lastPlan\<close>, which is part of the world. \<open>AcPolls\<close> is how long
  the context waits for the lock; the lock root is the host-global \<^verbatim>\<open>/var/run/boxctl\<close>, reached
  through \<open>AcLockFs\<close>.
\<close>

record 'w activation =
  AcLayout :: layout
  AcFs :: "'w fs"
  AcRoot :: string
  AcLockFs :: "'w fs"
  AcLockRoot :: string
  AcPolls :: nat
  AcAbsolute :: "string \<Rightarrow> string fallible"
  AcJson :: activation_json
  AcGateway :: "'w gateway_controller"
  AcDns :: "'w dns_controller"
  AcLast :: "'w \<Rightarrow> gateway_plan option"
  AcPutLast :: "gateway_plan option \<Rightarrow> 'w \<Rightarrow> 'w"

definition default_lock_root :: string where "default_lock_root = ''/var/run/boxctl''"

definition put_last :: "'w activation \<Rightarrow> gateway_plan option \<Rightarrow> ('w, unit) state" where
  "put_last ac p = State_Monad.update (AcPutLast ac p)"

section \<open>The owner of the router\<close>

definition owner_path :: string where "owner_path = ''openwrt-owner.json''"

definition canonical_owner_root :: "'w activation \<Rightarrow> string \<Rightarrow> string fallible" where
  "canonical_owner_root ac root = new_store (AcAbsolute ac) root"

definition foreign_owner_error :: "string \<Rightarrow> gerror" where
  "foreign_owner_error root = Err (''OpenWrt gateway is owned by another boxctl data root '' @ quote root)"

definition checked_owner :: "'w activation \<Rightarrow> owner_state \<Rightarrow> owner_state fallible" where
  "checked_owner ac ow =
     (if OwnerVersion ow \<noteq> 1 then Inl (Err (''unsupported OpenWrt owner state version '' @ int_text (OwnerVersion ow)))
      else if canonical_owner_root ac (OwnerRoot ow) \<noteq> Inr (OwnerRoot ow)
      then Inl (Err ''OpenWrt owner state contains a non-canonical root'')
      else Inr ow)"

definition load_owner_state :: "'w activation \<Rightarrow> ('w, owner_state fallible) state" where
  "load_owner_state ac = attempt (store_read (AcLockFs ac) (AcLockRoot ac) owner_path) (\<lambda>text.
     State_Monad.return (and_then (decoded_whole ''OpenWrt owner state'' (DecodeOwner (AcJson ac) text)) (checked_owner ac)))"

definition authorize_root_locked :: "'w activation \<Rightarrow> bool \<Rightarrow> ('w, gerror option) state" where
  "authorize_root_locked ac claim_missing = (case canonical_owner_root ac (AcRoot ac) of
       Inl e \<Rightarrow> State_Monad.return (Some e)
     | Inr canonical \<Rightarrow> do {
         owner \<leftarrow> load_owner_state ac;
         case owner of
           Inl e \<Rightarrow>
             if error_is e err_not_exist then
               (if \<not> claim_missing then State_Monad.return None
                else write_json (AcLockFs ac) (AcLockRoot ac) owner_path
                  (EncodeOwner (AcJson ac) \<lparr>OwnerVersion = 1, OwnerRoot = canonical\<rparr>) 384)
             else State_Monad.return (Some e)
         | Inr ow \<Rightarrow> State_Monad.return
             (if OwnerRoot ow \<noteq> canonical then Some (foreign_owner_error (OwnerRoot ow)) else None) })"

definition gateway_lock :: string where "gateway_lock = ''gateway-dns''"

definition claim_owner_state :: "'w activation \<Rightarrow> ('w, gerror option) state" where
  "claim_owner_state ac =
     with_file_lock (AcLockFs ac) (AcLockRoot ac) gateway_lock (AcPolls ac) (authorize_root_locked ac True)"

definition clear_owner_state :: "'w activation \<Rightarrow> ('w, gerror option) state" where
  "clear_owner_state ac = with_file_lock (AcLockFs ac) (AcLockRoot ac) gateway_lock (AcPolls ac) (do {
     owner \<leftarrow> load_owner_state ac;
     case owner of
       Inl e \<Rightarrow> State_Monad.return (if error_is e err_not_exist then None else Some e)
     | Inr ow \<Rightarrow> (case canonical_owner_root ac (AcRoot ac) of
         Inl e \<Rightarrow> State_Monad.return (Some e)
       | Inr canonical \<Rightarrow>
           if OwnerRoot ow \<noteq> canonical then State_Monad.return (Some (foreign_owner_error (OwnerRoot ow)))
           else remove_regular (AcLockFs ac) (AcLockRoot ac) owner_path) })"

end
