(* ===== verification/Gateway_Activation.thy ===== *)
theory Gateway_Activation
  imports Gateway_Owner
begin

text \<open>
  The owner of the router's dataplane, \<^verbatim>\<open>internal/app/openwrt_activation.go\<close>: activation, deactivation,
  reconciliation, the refresh of the captured destinations and the diagnosis, each under the lock of
  the host and after a look at who owns the router. \<open>lastPlan\<close> is the field of the world that \<open>AcLast\<close> reads.
\<close>

section \<open>Construction\<close>

definition new_openwrt_activation ::
  "'w fs \<Rightarrow> 'w fs \<Rightarrow> (string \<Rightarrow> string fallible) \<Rightarrow> activation_json \<Rightarrow> 'w gateway_controller \<Rightarrow> 'w dns_controller \<Rightarrow>
   ('w \<Rightarrow> gateway_plan option) \<Rightarrow> (gateway_plan option \<Rightarrow> 'w \<Rightarrow> 'w) \<Rightarrow> nat \<Rightarrow> string \<Rightarrow> string \<Rightarrow> 'w activation fallible" where
  "new_openwrt_activation fs lock_fs absolute js gateway dns get_last put polls root lock_root =
     and_then (new_layout root) (\<lambda>l.
     and_then (new_store absolute (LayoutRoot l)) (\<lambda>store.
     and_then (new_store absolute lock_root) (\<lambda>locks.
       Inr \<lparr>AcLayout = l, AcFs = fs, AcRoot = store, AcLockFs = lock_fs, AcLockRoot = locks, AcPolls = polls,
         AcAbsolute = absolute, AcJson = js, AcGateway = gateway, AcDns = dns, AcLast = get_last, AcPutLast = put\<rparr>)))"

section \<open>The active generation on disk\<close>

definition active_gateway_path :: string where "active_gateway_path = ''.boxctl/active-gateway.json''"

definition save_active_gateway :: "'w activation \<Rightarrow> active_gateway \<Rightarrow> ('w, gerror option) state" where
  "save_active_gateway ac a = (case validate_active_gateway (AcJson ac) a of
       Some e \<Rightarrow> State_Monad.return (Some e)
     | None \<Rightarrow> write_json (AcFs ac) (AcRoot ac) active_gateway_path (EncodeActive (AcJson ac) a) 384)"

definition decode_active_gateway :: "activation_json \<Rightarrow> string \<Rightarrow> active_gateway fallible" where
  "decode_active_gateway js content =
     and_then (decoded_whole ''active gateway generation'' (DecodeActive js content)) (\<lambda>a.
       case validate_active_gateway js a of Some e \<Rightarrow> Inl e | None \<Rightarrow> Inr a)"

definition load_active_gateway :: "'w activation \<Rightarrow> ('w, active_gateway fallible) state" where
  "load_active_gateway ac = attempt (store_read (AcFs ac) (AcRoot ac) active_gateway_path) (\<lambda>content.
     State_Monad.return (decode_active_gateway (AcJson ac) content))"

definition remove_active_gateway :: "'w activation \<Rightarrow> ('w, gerror option) state" where
  "remove_active_gateway ac = remove_regular (AcFs ac) (AcRoot ac) active_gateway_path"

definition active_required :: "'w activation \<Rightarrow> ('w, active_gateway fallible) state" where
  "active_required ac = do {
     loaded \<leftarrow> load_active_gateway ac;
     State_Monad.return (map_sum (Wrap ''load active gateway generation'') id loaded) }"

text \<open>\<open>ctx\<close> is what \<^verbatim>\<open>ctx.Err()\<close> answers.\<close>

definition active_prepared :: "'w activation \<Rightarrow> gerror option \<Rightarrow> ('w, prepared_core fallible) state" where
  "active_prepared ac ctx = (case ctx of
       Some e \<Rightarrow> State_Monad.return (Inl e)
     | None \<Rightarrow> attempt (active_required ac) (\<lambda>a. State_Monad.return (Inr
         (zero_core\<lparr>Engine := AgEngine a, Controller := AgController a, Capture := AgCapture a\<rparr>))))"

section \<open>The backup of the DNS options\<close>

definition backup_name :: "'w activation \<Rightarrow> string fallible" where
  "backup_name ac = (case rel (LayoutRoot (AcLayout ac)) (DNSBackup (AcLayout ac)) of
       None \<Rightarrow> Inl (Err ''Rel: cannot make the backup relative to the root'') | Some n \<Rightarrow> Inr n)"

definition load_dns_backup :: "'w activation \<Rightarrow> ('w, dns_backup fallible) state" where
  "load_dns_backup ac = (case backup_name ac of
       Inl e \<Rightarrow> State_Monad.return (Inl e)
     | Inr n \<Rightarrow> attempt (store_read (AcFs ac) (AcRoot ac) n) (\<lambda>content. State_Monad.return
         (decoded_whole ''DNS backup'' (DecodeBackup (AcJson ac) content))))"

text \<open>The Boolean says that the backup is new; no caller uses it.\<close>

definition ensure_dns_backup :: "'w activation \<Rightarrow> ('w, (dns_backup \<times> bool) fallible) state" where
  "ensure_dns_backup ac = do {
     loaded \<leftarrow> load_dns_backup ac;
     case loaded of
       Inr b \<Rightarrow> State_Monad.return (Inr (b, False))
     | Inl e \<Rightarrow>
         if \<not> error_is e err_not_exist then State_Monad.return (Inl e)
         else attempt (DcBackup (AcDns ac) CallerContext) (\<lambda>b. case backup_name ac of
             Inl e \<Rightarrow> State_Monad.return (Inl e)
           | Inr n \<Rightarrow> do {
               failed \<leftarrow> write_json (AcFs ac) (AcRoot ac) n (EncodeBackup (AcJson ac) b) 384;
               State_Monad.return (case failed of Some e \<Rightarrow> Inl e | None \<Rightarrow> Inr (b, True)) }) }"

definition remove_dns_backup :: "'w activation \<Rightarrow> ('w, gerror option) state" where
  "remove_dns_backup ac = do {
     info \<leftarrow> fs_info (AcFs ac) (DNSBackup (AcLayout ac));
     case info of
       Inl e \<Rightarrow> State_Monad.return (if error_is e err_not_exist then None else Some e)
     | Inr (kind, _) \<Rightarrow>
         if kind \<noteq> Regular then State_Monad.return (Some (Err ''refusing to remove non-regular DNS backup''))
         else fs_unit (AcFs ac) (RemoveFile (DNSBackup (AcLayout ac))) }"

section \<open>Plans\<close>

text \<open>The plan of the settings and the prepared core, and the generation that will be recorded.\<close>

definition build_plan_and_state :: "'w activation \<Rightarrow> prepared_core \<Rightarrow> ('w, (gateway_plan \<times> active_gateway) fallible) state" where
  "build_plan_and_state ac prepared = attempt (load_runtime_settings (AcFs ac) (AcRoot ac)) (\<lambda>s.
     let needs_lan = RsInterfaceMode s = ''explicit'' \<and> RsIncluded s = [] \<and> RsAutoDetectLAN s;
         needs_wan = RsInterfaceMode s = ''exclude'' \<and> RsAutoDetectWAN s in
     attempt (if needs_lan \<or> needs_wan then GwDetect (AcGateway ac) CallerContext
         else State_Monad.return (Inr no_discovery)) (\<lambda>d.
     State_Monad.return (and_then (gateway_plan_of s (Capture prepared) d) (\<lambda>p.
       Inr (p, \<lparr>AgVersion = 1, AgEngine = Engine prepared, AgController = Controller prepared,
         AgCapture = Capture prepared, AgPlan = p, AgAutoLAN = needs_lan, AgAutoWAN = needs_wan,
         AgStaticExcluded = RsExcluded s\<rparr>)))))"

definition build_plan :: "'w activation \<Rightarrow> prepared_core \<Rightarrow> ('w, gateway_plan fallible) state" where
  "build_plan ac prepared = attempt (build_plan_and_state ac prepared) (\<lambda>(p, _). State_Monad.return (Inr p))"

text \<open>The last resort: stable identifiers, with whatever the settings and the core still say.\<close>

definition fallback_plan :: "prepared_core \<Rightarrow> runtime_settings fallible \<Rightarrow> gateway_plan" where
  "fallback_plan prepared settings =
     (let d = default_gateway_plan (case settings of Inl _ \<Rightarrow> ''tproxy'' | Inr s \<Rightarrow> RsCaptureMode s) in d\<lparr>
        DNSMode := (case settings of Inl _ \<Rightarrow> ''disabled'' | Inr s \<Rightarrow> RsDNSMode s),
        PlanTUNDevice := or_default_text (TUNDevice (Capture prepared)) ''clash-tun'',
        PlanLoopMark := or_default (LoopMark (Capture prepared)) (PlanLoopMark d)\<rparr>)"

definition plan_for_cleanup :: "'w activation \<Rightarrow> prepared_core \<Rightarrow> ('w, gateway_plan fallible) state" where
  "plan_for_cleanup ac prepared = do {
     w \<leftarrow> State_Monad.get;
     case AcLast ac w of
       Some p \<Rightarrow> State_Monad.return (Inr p)
     | None \<Rightarrow> do {
         loaded \<leftarrow> load_active_gateway ac;
         case loaded of
           Inr a \<Rightarrow> State_Monad.return (Inr (AgPlan a))
         | Inl _ \<Rightarrow> do {
             built \<leftarrow> build_plan ac prepared;
             case built of
               Inr p \<Rightarrow> State_Monad.return (Inr p)
             | Inl _ \<Rightarrow> do {
                 settings \<leftarrow> load_runtime_settings (AcFs ac) (AcRoot ac);
                 State_Monad.return (validated (fallback_plan prepared settings)) } } } }"

text \<open>The recorded plan with the interfaces that are detected now.\<close>

definition redetected :: "active_gateway \<Rightarrow> interface_discovery \<Rightarrow> gateway_plan fallible" where
  "redetected a d =
     (if AgAutoLAN a \<and> LANInterfaces d = [] then Inl (Err ''active gateway generation cannot identify LAN'')
      else let p = (if AgAutoLAN a then (AgPlan a)\<lparr>IncludeInterfaces := LANInterfaces d\<rparr> else AgPlan a) in
        if AgAutoWAN a \<and> WANInterfaces d = [] then Inl (Err ''active gateway generation cannot identify WAN'')
        else validated (if AgAutoWAN a then p\<lparr>ExcludeInterfaces := AgStaticExcluded a @ WANInterfaces d\<rparr> else p))"

definition refresh_active_plan :: "'w activation \<Rightarrow> active_gateway \<Rightarrow> ('w, gateway_plan fallible) state" where
  "refresh_active_plan ac a =
     (if \<not> AgAutoLAN a \<and> \<not> AgAutoWAN a then State_Monad.return (validated (AgPlan a))
      else attempt (GwDetect (AcGateway ac) CallerContext) (\<lambda>d. State_Monad.return (redetected a d)))"

definition dynamic_gateway_plan :: "gateway_plan \<Rightarrow> capture_plan \<Rightarrow> gateway_plan fallible" where
  "dynamic_gateway_plan p c =
     and_then (plan_destinations True (Destinations c) p) (\<lambda>q.
     and_then (endpoint_texts (EndpointBypassCIDRs c)) (\<lambda>endpoints. validated (q\<lparr>ProxyServerCIDRs := endpoints\<rparr>)))"

section \<open>Transactions\<close>

definition authorized :: "'w activation \<Rightarrow> bool \<Rightarrow> ('w, gerror option) state \<Rightarrow> ('w, gerror option) state" where
  "authorized ac claim_missing callback = Prelude.check (authorize_root_locked ac claim_missing) callback"

definition with_transaction :: "'w activation \<Rightarrow> bool \<Rightarrow> ('w, gerror option) state \<Rightarrow> ('w, gerror option) state" where
  "with_transaction ac claim_missing callback =
     with_file_lock (AcLockFs ac) (AcLockRoot ac) gateway_lock (AcPolls ac) (authorized ac claim_missing callback)"

definition gateway_mode_enabled :: "'w activation \<Rightarrow> ('w, bool fallible) state" where
  "gateway_mode_enabled ac = attempt (load_runtime_settings (AcFs ac) (AcRoot ac)) (\<lambda>s.
     State_Monad.return (Inr (RsOperatingMode s = ''gateway'')))"

definition present_or_unknown :: "'w activation \<Rightarrow> string \<Rightarrow> ('w, bool) state" where
  "present_or_unknown ac p = do {
     info \<leftarrow> fs_info (AcFs ac) p;
     State_Monad.return (case info of Inr _ \<Rightarrow> True | Inl e \<Rightarrow> \<not> error_is e err_not_exist) }"

definition has_gateway_ownership :: "'w activation \<Rightarrow> ('w, bool) state" where
  "has_gateway_ownership ac = do {
     w \<leftarrow> State_Monad.get;
     if AcLast ac w \<noteq> None then State_Monad.return True
     else do {
       active \<leftarrow> present_or_unknown ac (join_paths [LayoutRoot (AcLayout ac), active_gateway_path]);
       if active then State_Monad.return True
       else present_or_unknown ac (DNSBackup (AcLayout ac)) } }"

section \<open>Activation\<close>

definition install_generation ::
  "'w activation \<Rightarrow> gateway_plan \<Rightarrow> active_gateway \<Rightarrow> dns_backup \<Rightarrow> ('w, gerror option) state" where
  "install_generation ac p a b =
     Prelude.check (GwApply (AcGateway ac) CallerContext p)
    (Prelude.check (DcApply (AcDns ac) CallerContext p b)
    (do { put_last ac (Some p); save_active_gateway ac a }))"

definition activate_gateway_locked :: "'w activation \<Rightarrow> prepared_core \<Rightarrow> ('w, gerror option) state" where
  "activate_gateway_locked ac prepared = do {
     built \<leftarrow> build_plan_and_state ac prepared;
     case built of
       Inl e \<Rightarrow> State_Monad.return (Some e)
     | Inr (p, a) \<Rightarrow> do {
         backed_up \<leftarrow> ensure_dns_backup ac;
         case backed_up of
           Inl e \<Rightarrow> State_Monad.return (Some e)
         | Inr (b, _) \<Rightarrow> install_generation ac p a b } }"

definition activate_gateway :: "'w activation \<Rightarrow> prepared_core \<Rightarrow> ('w, gerror option) state" where
  "activate_gateway ac prepared = do {
     enabled \<leftarrow> gateway_mode_enabled ac;
     case enabled of
       Inl e \<Rightarrow> State_Monad.return (Some e)
     | Inr False \<Rightarrow> do { put_last ac None; State_Monad.return None }
     | Inr True \<Rightarrow> with_transaction ac True (activate_gateway_locked ac prepared) }"

section \<open>Deactivation\<close>

definition restore_and_forget :: "'w activation \<Rightarrow> call_context \<Rightarrow> dns_backup \<Rightarrow> ('w, gerror option) state" where
  "restore_and_forget ac ctx b = Prelude.check (DcRestore (AcDns ac) ctx b) (remove_dns_backup ac)"

text \<open>What is forgotten once both owners are clean.\<close>

definition forget_generation :: "'w activation \<Rightarrow> gerror option \<Rightarrow> ('w, gerror option) state" where
  "forget_generation ac joined = do {
     joined \<leftarrow> (case joined of Some e \<Rightarrow> State_Monad.return (Some e) | None \<Rightarrow> remove_active_gateway ac);
     case joined of Some e \<Rightarrow> State_Monad.return (Some e) | None \<Rightarrow> do { put_last ac None; State_Monad.return None } }"

definition restore_dns_options :: "'w activation \<Rightarrow> ('w, gerror option) state" where
  "restore_dns_options ac = do {
     loaded \<leftarrow> load_dns_backup ac;
     case loaded of
       Inr b \<Rightarrow> restore_and_forget ac CallerContext b
     | Inl e \<Rightarrow> State_Monad.return (if error_is e err_not_exist then None else Some e) }"

definition deactivate_gateway_locked :: "'w activation \<Rightarrow> prepared_core \<Rightarrow> ('w, gerror option) state" where
  "deactivate_gateway_locked ac prepared = do {
     plan \<leftarrow> plan_for_cleanup ac prepared;
     restore_err \<leftarrow> restore_dns_options ac;
     gateway_err \<leftarrow> (case plan of Inr p \<Rightarrow> GwCleanup (AcGateway ac) CallerContext p | Inl _ \<Rightarrow> State_Monad.return None);
     forget_generation ac (errors_join
       [case plan of Inl e \<Rightarrow> Some e | Inr _ \<Rightarrow> None, gateway_err, restore_err]) }"

definition deactivate_gateway :: "'w activation \<Rightarrow> prepared_core \<Rightarrow> ('w, gerror option) state" where
  "deactivate_gateway ac prepared = do {
     enabled \<leftarrow> gateway_mode_enabled ac;
     owned \<leftarrow> (if enabled = Inr False then has_gateway_ownership ac else State_Monad.return True);
     if \<not> owned then do { put_last ac None; State_Monad.return None }
     else with_transaction ac False (deactivate_gateway_locked ac prepared) }"

section \<open>Reconciliation\<close>

definition rollback_gateway_locked :: "'w activation \<Rightarrow> gateway_plan \<Rightarrow> dns_backup \<Rightarrow> ('w, gerror option) state" where
  "rollback_gateway_locked ac p b = do {
     restore_err \<leftarrow> restore_and_forget ac RollbackContext b;
     gateway_err \<leftarrow> GwCleanup (AcGateway ac) RollbackContext p;
     forget_generation ac (errors_join [gateway_err, restore_err]) }"

definition or_rollback ::
  "'w activation \<Rightarrow> gateway_plan \<Rightarrow> dns_backup \<Rightarrow> ('w, gerror option) state \<Rightarrow> ('w, gerror option) state \<Rightarrow>
   ('w, gerror option) state" where
  "or_rollback ac p b m k = do {
     failed \<leftarrow> m;
     case failed of
       None \<Rightarrow> k
     | Some e \<Rightarrow> do {
         undone \<leftarrow> rollback_gateway_locked ac p b;
         State_Monad.return (errors_join [Some e, undone]) } }"

definition reconcile_gateway_locked :: "'w activation \<Rightarrow> ('w, gerror option) state" where
  "reconcile_gateway_locked ac = do {
     active \<leftarrow> active_required ac;
     case active of
       Inl e \<Rightarrow> State_Monad.return (Some e)
     | Inr a \<Rightarrow> do {
         refreshed \<leftarrow> refresh_active_plan ac a;
         case refreshed of
           Inl e \<Rightarrow> State_Monad.return (Some e)
         | Inr p \<Rightarrow> do {
             backed_up \<leftarrow> ensure_dns_backup ac;
             case backed_up of
               Inl e \<Rightarrow> State_Monad.return (Some e)
             | Inr (b, _) \<Rightarrow>
                 or_rollback ac p b (GwApply (AcGateway ac) CallerContext p)
                (or_rollback ac p b (DcApply (AcDns ac) CallerContext p b)
                (do { put_last ac (Some p); State_Monad.return None })) } } }"

definition reconcile_gateway :: "'w activation \<Rightarrow> ('w, gerror option) state" where
  "reconcile_gateway ac = with_transaction ac True (reconcile_gateway_locked ac)"

section \<open>The refresh of the captured destinations\<close>

text \<open>The plan and the capture that the refresh wants, before the interfaces are detected again.\<close>

definition refreshed_generation ::
  "active_gateway \<Rightarrow> destination_capture \<Rightarrow> netip_prefix list \<Rightarrow> active_gateway fallible" where
  "refreshed_generation a destinations endpoints =
     (let c = (AgCapture a)\<lparr>Destinations := destinations, EndpointBypassCIDRs := endpoints\<rparr> in
      case capture_plan_validate c of
        Some e \<Rightarrow> Inl (Wrap ''validate refreshed capture'' e)
      | None \<Rightarrow> and_then (dynamic_gateway_plan (AgPlan a) c) (\<lambda>p. Inr (a\<lparr>AgPlan := p, AgCapture := c\<rparr>)))"

text \<open>The pair of the capture plan that is in force and the error.\<close>

definition refresh_capture_locked ::
  "'w activation \<Rightarrow> destination_capture \<Rightarrow> netip_prefix list \<Rightarrow> ('w, capture_plan \<times> gerror option) state" where
  "refresh_capture_locked ac destinations endpoints = do {
     active \<leftarrow> active_required ac;
     case and_then active (\<lambda>a. map_sum id (Pair (AgPlan a)) (refreshed_generation a destinations endpoints)) of
       Inl e \<Rightarrow> State_Monad.return (zero_capture, Some e)
     | Inr (previous, a) \<Rightarrow> do {
         refreshed \<leftarrow> refresh_active_plan ac a;
         case refreshed of
           Inl e \<Rightarrow> State_Monad.return (zero_capture, Some e)
         | Inr p \<Rightarrow> do {
             applied \<leftarrow> GwApply (AcGateway ac) CallerContext p;
             case applied of
               Some e \<Rightarrow> State_Monad.return (zero_capture, Some e)
             | None \<Rightarrow> do {
                 saved \<leftarrow> save_active_gateway ac (a\<lparr>AgPlan := p\<rparr>);
                 case saved of
                   Some e \<Rightarrow> do {
                     undone \<leftarrow> GwApply (AcGateway ac) RollbackContext previous;
                     State_Monad.return (zero_capture, errors_join [Some e, undone]) }
                 | None \<Rightarrow> do {
                     put_last ac (Some p);
                     State_Monad.return (AgCapture a, None) } } } } }"

definition refresh_dynamic_capture ::
  "'w activation \<Rightarrow> destination_capture \<Rightarrow> netip_prefix list \<Rightarrow> ('w, capture_plan \<times> gerror option) state" where
  "refresh_dynamic_capture ac destinations endpoints = do {
     lock \<leftarrow> acquire_lock (AcLockFs ac) (AcLockRoot ac) gateway_lock (AcPolls ac);
     case lock of
       Inl e \<Rightarrow> State_Monad.return (zero_capture, Some e)
     | Inr l \<Rightarrow> do {
         refused \<leftarrow> authorize_root_locked ac True;
         (refreshed, failed) \<leftarrow> (case refused of
             Some e \<Rightarrow> State_Monad.return (zero_capture, Some e)
           | None \<Rightarrow> refresh_capture_locked ac destinations endpoints);
         released \<leftarrow> release_lock (AcLockFs ac) l;
         State_Monad.return (refreshed, errors_join [failed, released]) } }"

section \<open>Diagnosis\<close>

definition diagnose_locked :: "'w activation \<Rightarrow> ('w, check_result \<times> gerror option) state" where
  "diagnose_locked ac = do {
     refused \<leftarrow> authorize_root_locked ac False;
     case refused of
       Some e \<Rightarrow> State_Monad.return (no_table, Some e)
     | None \<Rightarrow> do {
         active \<leftarrow> active_required ac;
         case active of
           Inl e \<Rightarrow> State_Monad.return (no_table, Some e)
         | Inr a \<Rightarrow> do {
             refreshed \<leftarrow> refresh_active_plan ac a;
             case refreshed of
               Inl e \<Rightarrow> State_Monad.return (no_table, Some e)
             | Inr p \<Rightarrow> GwCheck (AcGateway ac) CallerContext p } } }"

definition diagnose_gateway :: "'w activation \<Rightarrow> ('w, check_result \<times> gerror option) state" where
  "diagnose_gateway ac = do {
     lock \<leftarrow> acquire_lock (AcLockFs ac) (AcLockRoot ac) gateway_lock (AcPolls ac);
     case lock of
       Inl e \<Rightarrow> State_Monad.return (no_table, Some e)
     | Inr l \<Rightarrow> do {
         (result, failed) \<leftarrow> diagnose_locked ac;
         released \<leftarrow> release_lock (AcLockFs ac) l;
         State_Monad.return (result, errors_join [failed, released]) } }"

end
