(* ===== verification/Zoom.thy ===== *)
theory Zoom
  imports State_Durable
begin

text \<open>
  A program on a part of the world, run on the whole: the part is read by \<open>get\<close> and written by \<open>put\<close>.
  Running a store on a part is running its requests on the part, so the contract of a state
  directory carries over.
\<close>

definition zoom :: "('w \<Rightarrow> 's) \<Rightarrow> ('s \<Rightarrow> 'w \<Rightarrow> 'w) \<Rightarrow> ('s, 'a) state \<Rightarrow> ('w, 'a) state" where
  "zoom get put m = State (\<lambda>w. case run_state m (get w) of (a, s) \<Rightarrow> (a, put s w))"

lemma wp_zoom [wp_simps]: "wp (zoom get put m) Q w = wp m (\<lambda>a s. Q a (put s w)) (get w)"
  by (simp add: zoom_def wp_def split: prod.split)

locale lens =
  fixes get :: "'w \<Rightarrow> 's" and put :: "'s \<Rightarrow> 'w \<Rightarrow> 'w"
  assumes get_put [simp]: "get (put s w) = s" and put_get [simp]: "put (get w) w = w"
    and put_put [simp]: "put s (put t w) = put s w"
begin

lemma zoom_return [simp]: "zoom get put (State_Monad.return x) = State_Monad.return x"
  by (simp add: zoom_def State_Monad.return_def)

lemma zoom_bind: "zoom get put (State_Monad.bind m k) = State_Monad.bind (zoom get put m) (\<lambda>a. zoom get put (k a))"
  by (simp add: zoom_def State_Monad.bind_def fun_eq_iff split: prod.split)

lemma zoom_option: "zoom get put (case x of None \<Rightarrow> m | Some y \<Rightarrow> f y) =
    (case x of None \<Rightarrow> zoom get put m | Some y \<Rightarrow> zoom get put (f y))"
  by (cases x) simp_all

lemma zoom_sum: "zoom get put (case x of Inl a \<Rightarrow> f a | Inr b \<Rightarrow> g b) =
    (case x of Inl a \<Rightarrow> zoom get put (f a) | Inr b \<Rightarrow> zoom get put (g b))"
  by (cases x) simp_all

lemma zoom_prod: "zoom get put (case x of (a, b) \<Rightarrow> f a b) = (case x of (a, b) \<Rightarrow> zoom get put (f a b))"
  by (cases x) simp

lemma zoom_if: "zoom get put (if b then m else n) = (if b then zoom get put m else zoom get put n)"
  by simp

lemma zoom_attempt: "zoom get put (attempt m k) = attempt (zoom get put m) (\<lambda>a. zoom get put (k a))"
  by (simp add: attempt_def zoom_bind zoom_sum cong: sum.case_cong)

lemma zoom_check: "zoom get put (Prelude.check m k) = Prelude.check (zoom get put m) (zoom get put k)"
  by (simp add: check_def zoom_bind zoom_option cong: option.case_cong)

lemma zoom_wrapped: "zoom get put (wrapped msg m) = wrapped msg (zoom get put m)"
  by (simp add: wrapped_def zoom_bind)

lemmas zoom_simps = zoom_bind zoom_option zoom_sum zoom_prod zoom_if zoom_attempt zoom_check zoom_wrapped

section \<open>Stores\<close>

definition zoom_fs :: "'s fs \<Rightarrow> 'w fs" where "zoom_fs fs r = zoom get put (fs r)"

lemma zoomed_requests:
  "fs_unit (zoom_fs fs) r = zoom get put (fs_unit fs r)" "fs_info (zoom_fs fs) p = zoom get put (fs_info fs p)"
  "fs_read (zoom_fs fs) p = zoom get put (fs_read fs p)" "fs_named (zoom_fs fs) d pattern = zoom get put (fs_named fs d pattern)"
  by (simp_all add: fs_unit_def fs_info_def fs_read_def fs_named_def zoom_fs_def zoom_simps)

lemma zoomed_turns: "in_turn (zoom_fs fs) rs = zoom get put (in_turn fs rs)"
  by (induction fs rs rule: in_turn.induct) (simp_all add: zoom_simps zoomed_requests)

lemma zoomed_components: "check_components (zoom_fs fs) ps = zoom get put (check_components fs ps)"
  by (induction fs ps rule: check_components.induct)
    (simp_all add: zoom_simps zoomed_requests cong: sum.case_cong prod.case_cong if_cong)

lemma zoomed_parents: "check_parents (zoom_fs fs) root p = zoom get put (check_parents fs root p)"
  by (simp add: check_parents_def check_directory_def Let_def zoomed_components zoom_simps split: option.split)

lemma zoomed_write: "write_file_atomic (zoom_fs fs) p data mode = zoom get put (write_file_atomic fs p data mode)"
  by (simp add: write_file_atomic_def inspect_target_def publish_temp_def discard_temp_def sync_directory_def Let_def
      zoom_simps zoomed_requests zoomed_turns cong: sum.case_cong option.case_cong if_cong)

lemma zoomed_remove: "remove_file (zoom_fs fs) p = zoom get put (remove_file fs p)"
  by (simp add: remove_file_def sync_directory_def zoom_simps zoomed_requests cong: sum.case_cong prod.case_cong if_cong)

lemma zoomed_poll: "poll_lock (zoom_fs fs) p n = zoom get put (poll_lock fs p n)"
proof (induction n)
  case 0
  show ?case
    unfolding poll_lock.simps [of _ _ 0] zoomed_requests zoom_bind
    by (auto simp: zoom_simps zoomed_requests intro!: arg_cong2 [where f = State_Monad.bind] ext split: option.split)
next
  case (Suc n)
  then show ?case
    unfolding poll_lock.simps [of _ _ "Suc n"] zoomed_requests zoom_bind
    by (auto simp: zoom_simps zoomed_requests intro!: arg_cong2 [where f = State_Monad.bind] ext split: option.split)
qed

lemma zoomed_acquire: "acquire_lock (zoom_fs fs) root l n = zoom get put (acquire_lock fs root l n)"
  by (simp add: acquire_lock_def inspect_lock_def zoom_simps zoomed_requests zoomed_parents zoomed_poll
      cong: sum.case_cong option.case_cong)

lemma zoomed_release: "release_lock (zoom_fs fs) p = zoom get put (release_lock fs p)"
  by (simp add: release_lock_def zoom_simps zoomed_requests)

text \<open>The contract of a state directory on a part holds on the whole.\<close>

lemma durable_zoom:
  assumes "durable_store names content ok smooth fs rs locks"
  shows "durable_store names (\<lambda>w. content (get w)) (\<lambda>w. ok (get w)) (\<lambda>w. smooth (get w)) (zoom_fs fs) rs locks"
proof -
  note laws [simplified] = durable_store.root_proper [OF assms] durable_store.names_proper [OF assms] durable_store.parents_law [OF assms]
    durable_store.lstat_law [OF assms] durable_store.read_law [OF assms] durable_store.write_law [OF assms]
    durable_store.remove_law [OF assms] durable_store.unlink_law [OF assms] durable_store.lock_law [OF assms]
    durable_store.unlock_law [OF assms]
  have relations: "named_files.steady names (\<lambda>w. content (get w)) (\<lambda>w. ok (get w)) (\<lambda>w. smooth (get w)) w w' =
      named_files.steady names content ok smooth (get w) (get w')"
    "named_files.put names (\<lambda>w. content (get w)) (\<lambda>w. ok (get w)) (\<lambda>w. smooth (get w)) n data r w w' =
      named_files.put names content ok smooth n data r (get w) (get w')" for w w' n data r
    by (simp_all add: named_files.steady_def named_files.put_def named_files.changed_def)
  show ?thesis
    by (unfold_locales) (simp_all add: relations zoomed_requests zoomed_parents zoomed_write zoomed_remove
        zoomed_acquire zoomed_release zoom_fs_def wp_zoom laws)
qed

end

end
