(* ===== verification/Store_Frame.thy ===== *)
theory Store_Frame
  imports State_Store
begin

text \<open>
  What the operations of a store leave alone. If every request relates the worlds before and after
  it by a preorder, so does every operation that consists of requests.
\<close>

named_theorems frame_rules "syntax-directed rules for programs that stay within a preorder"

locale preorder_frame =
  fixes R :: "'w \<Rightarrow> 'w \<Rightarrow> bool"
  assumes R_refl [simp]: "R w w" and R_trans: "R a b \<Longrightarrow> R b c \<Longrightarrow> R a c"
begin

lemma framed_return [frame_rules]: "world_within R (State_Monad.return x)"
  by (simp add: world_within_def wp_return)

lemma framed_get [frame_rules]: "world_within R State_Monad.get"
  by (simp add: world_within_def wp_get)

lemma framed_bind [frame_rules]:
  assumes "world_within R m" and "\<And>a. world_within R (k a)"
  shows "world_within R (State_Monad.bind m k)"
  unfolding world_within_def wp_bind
proof
  fix w
  show "wp m (\<lambda>a. wp (k a) (\<lambda>_. R w)) w"
    by (rule wp_mono [OF assms(1) [unfolded world_within_def, rule_format]])
      (use R_trans in \<open>blast intro: wp_mono [OF assms(2) [unfolded world_within_def, rule_format]]\<close>)
qed

lemma framed_if [frame_rules]:
  "(b \<Longrightarrow> world_within R m) \<Longrightarrow> (\<not> b \<Longrightarrow> world_within R n) \<Longrightarrow> world_within R (if b then m else n)"
  by simp

lemma framed_option [frame_rules]:
  "(x = None \<Longrightarrow> world_within R m) \<Longrightarrow> (\<And>y. x = Some y \<Longrightarrow> world_within R (f y)) \<Longrightarrow>
     world_within R (case x of None \<Rightarrow> m | Some y \<Rightarrow> f y)"
  by (cases x) simp_all

lemma framed_sum [frame_rules]:
  "(\<And>a. x = Inl a \<Longrightarrow> world_within R (f a)) \<Longrightarrow> (\<And>b. x = Inr b \<Longrightarrow> world_within R (g b)) \<Longrightarrow>
     world_within R (case x of Inl a \<Rightarrow> f a | Inr b \<Rightarrow> g b)"
  by (cases x) simp_all

lemma framed_prod [frame_rules]:
  "(\<And>a b. x = (a, b) \<Longrightarrow> world_within R (f a b)) \<Longrightarrow> world_within R (case x of (a, b) \<Rightarrow> f a b)"
  by (cases x) simp

lemma framed_bool [frame_rules]:
  "(b \<Longrightarrow> world_within R m) \<Longrightarrow> (\<not> b \<Longrightarrow> world_within R n) \<Longrightarrow>
     world_within R (case b of True \<Rightarrow> m | False \<Rightarrow> n)"
  by (cases b) simp_all

lemma framed_attempt [frame_rules]:
  "world_within R m \<Longrightarrow> (\<And>a. world_within R (k a)) \<Longrightarrow> world_within R (attempt m k)"
  unfolding attempt_def by (intro frame_rules)

lemma framed_check [frame_rules]: "world_within R m \<Longrightarrow> world_within R k \<Longrightarrow> world_within R (Prelude.check m k)"
  unfolding check_def by (intro frame_rules)

lemma framed_wrapped [frame_rules]: "world_within R m \<Longrightarrow> world_within R (wrapped msg m)"
  unfolding wrapped_def by (intro frame_rules)

end

locale fs_frame = preorder_frame R for R :: "'w \<Rightarrow> 'w \<Rightarrow> bool" +
  fixes fs :: "'w fs"
  assumes request [frame_rules]: "world_within R (fs r)"
begin

lemma framed_requests [frame_rules]:
  "world_within R (fs_unit fs r)" "world_within R (fs_info fs p)" "world_within R (fs_mode fs p)"
  "world_within R (fs_read fs p)" "world_within R (fs_named fs d pattern)" "world_within R (fs_data fs p n)"
  unfolding fs_unit_def fs_info_def fs_mode_def fs_read_def fs_named_def fs_data_def by (intro frame_rules)+

lemma framed_turns [frame_rules]: "world_within R (in_turn fs rs)"
  by (induction rs) (auto intro!: frame_rules)

lemma framed_components [frame_rules]: "world_within R (check_components fs ps)"
  by (induction ps) (auto intro!: frame_rules)

lemma framed_parents [frame_rules]: "world_within R (check_parents fs root target)"
  unfolding check_parents_def check_directory_def Let_def by (intro frame_rules)

lemma framed_store_read [frame_rules]: "world_within R (store_read fs root n)"
  unfolding store_read_def read_regular_def by (intro frame_rules)

lemma framed_sync [frame_rules]: "world_within R (sync_directory fs d)"
  unfolding sync_directory_def by (intro frame_rules)

lemma framed_discard [frame_rules]: "world_within R (discard_temp fs t closed r)"
  unfolding discard_temp_def by (intro frame_rules)

lemma framed_write [frame_rules]: "world_within R (write_file_atomic fs p data mode)"
  unfolding write_file_atomic_def inspect_target_def publish_temp_def Let_def by (intro frame_rules)

lemma framed_store_write [frame_rules]: "world_within R (store_write fs root n data mode)" "world_within R (write_json fs root n x mode)"
  unfolding write_json_def store_write_def by (intro frame_rules)+

lemma framed_remove [frame_rules]: "world_within R (remove_file fs p)" "world_within R (remove_regular fs root n)"
  unfolding remove_regular_def remove_file_def by (intro frame_rules)+

lemma framed_poll [frame_rules]: "world_within R (poll_lock fs p n)"
proof (induction n)
  case 0
  show ?case
    by (subst poll_lock.simps, unfold nat.case) (intro frame_rules)
next
  case (Suc n)
  show ?case
    by (subst poll_lock.simps, unfold nat.case) (intro frame_rules Suc)
qed

lemma framed_acquire [frame_rules]: "world_within R (acquire_lock fs root l n)"
  unfolding acquire_lock_def inspect_lock_def by (intro frame_rules)

lemma framed_release [frame_rules]: "world_within R (release_lock fs p)"
  unfolding release_lock_def by (intro frame_rules)

lemma framed_lock [frame_rules]:
  "world_within R m \<Longrightarrow> world_within R (with_file_lock fs root l n m)"
  unfolding with_file_lock_def by (intro frame_rules)

end

end
