(* ===== verification/Activation_Contract.thy ===== *)
theory Activation_Contract
  imports Gateway_Activation Zoom Store_Frame
begin

text \<open>
  What the activation owes the user of the router, proved once for every environment that keeps a
  contract. \<open>fit\<close> says that the resolver's options can be worked on, \<open>user\<close> that they are the ones
  \<open>saved\<close> records and dnsmasq serves nothing else, \<open>clean\<close> that no capture is left, and \<open>peace\<close> that locks,
  commands and controllers will not fail.
\<close>

definition dns_backup_file :: string where "dns_backup_file = ''.boxctl/dns-backup.json''"

section \<open>Calls\<close>

text \<open>The operations of the activation, in any order; nobody looks at their results.\<close>

datatype gateway_call = CallActivate prepared_core | CallDeactivate prepared_core | CallReconcileGateway
  | CallRefresh destination_capture "netip_prefix list" | CallDiagnose

definition gateway_call :: "'w activation \<Rightarrow> gateway_call \<Rightarrow> ('w, unit) state" where
  "gateway_call ac c = (case c of
       CallActivate prepared \<Rightarrow> do { _ \<leftarrow> activate_gateway ac prepared; State_Monad.return () }
     | CallDeactivate prepared \<Rightarrow> do { _ \<leftarrow> deactivate_gateway ac prepared; State_Monad.return () }
     | CallReconcileGateway \<Rightarrow> do { _ \<leftarrow> reconcile_gateway ac; State_Monad.return () }
     | CallRefresh destinations endpoints \<Rightarrow> do {
         _ \<leftarrow> refresh_dynamic_capture ac destinations endpoints; State_Monad.return () }
     | CallDiagnose \<Rightarrow> do { _ \<leftarrow> diagnose_gateway ac; State_Monad.return () })"

fun gateway_calls :: "'w activation \<Rightarrow> gateway_call list \<Rightarrow> ('w, unit) state" where
  "gateway_calls ac [] = State_Monad.return ()"
| "gateway_calls ac (c # cs) = do { _ \<leftarrow> gateway_call ac c; gateway_calls ac cs }"

section \<open>The contract\<close>

locale gateway_view = named_files names content ok smooth
  for names :: "string set" and content :: "'w \<Rightarrow> string \<Rightarrow> string option"
    and ok :: "'w \<Rightarrow> bool" and smooth :: "'w \<Rightarrow> bool" +
  fixes ac :: "'w activation" and fit :: "'w \<Rightarrow> bool" and user :: "'w \<Rightarrow> bool" and clean :: "'w \<Rightarrow> bool"
    and peace :: "'w \<Rightarrow> bool"
begin

text \<open>Everything but the files is the same.\<close>

definition same_view :: "'w \<Rightarrow> 'w \<Rightarrow> bool" where
  "same_view w w' \<longleftrightarrow> fit w' = fit w \<and> user w' = user w \<and> clean w' = clean w \<and> AcLast ac w' = AcLast ac w \<and> peace w' = peace w"

text \<open>Files and plan are the same; and all but the capture is; or all but the resolver.\<close>

definition aside :: "'w \<Rightarrow> 'w \<Rightarrow> bool" where
  "aside w w' \<longleftrightarrow> (ok w \<longrightarrow> steady w w') \<and> AcLast ac w' = AcLast ac w \<and> (peace w \<longrightarrow> peace w')"

definition off_resolver :: "'w \<Rightarrow> 'w \<Rightarrow> bool" where
  "off_resolver w w' \<longleftrightarrow> aside w w' \<and> fit w' = fit w \<and> user w' = user w"

definition off_capture :: "'w \<Rightarrow> 'w \<Rightarrow> bool" where
  "off_capture w w' \<longleftrightarrow> aside w w' \<and> clean w' = clean w"

definition silent :: "'w \<Rightarrow> 'w \<Rightarrow> bool" where
  "silent w w' \<longleftrightarrow> off_resolver w w' \<and> clean w' = clean w"

lemma view_refl [simp]: "same_view w w" "aside w w" "off_resolver w w" "off_capture w w" "silent w w"
  by (simp_all add: same_view_def aside_def off_resolver_def off_capture_def silent_def)

lemma aside_trans: "aside a b \<Longrightarrow> aside b c \<Longrightarrow> aside a c"
  by (auto simp: aside_def intro: steady_trans dest: steady_ok)

lemma off_resolver_trans: "off_resolver a b \<Longrightarrow> off_resolver b c \<Longrightarrow> off_resolver a c"
  by (auto simp: off_resolver_def intro: aside_trans)

lemma silent_trans: "silent a b \<Longrightarrow> silent b c \<Longrightarrow> silent a c"
  by (auto simp: silent_def intro: off_resolver_trans)

lemma same_view_trans: "same_view a b \<Longrightarrow> same_view b c \<Longrightarrow> same_view a c"
  by (simp add: same_view_def)

end

locale gateway_contract = gateway_view names content ok smooth ac fit user clean peace +
    durable_store names content ok smooth "AcFs ac" rs locks
  for names content ok smooth and ac :: "'w activation" and fit user clean peace rs locks +
  fixes saved :: dns_backup
  assumes rooted: "AcRoot ac = abs_path rs" "AcLayout ac = layout_at (abs_path rs)"
    and named: "settings_file \<in> names" "active_gateway_path \<in> names" "dns_backup_file \<in> names"
    and coded: "fit w \<Longrightarrow> EncodeBackup (AcJson ac) saved = Inr t \<Longrightarrow>
      DecodeBackup (AcJson ac) (t @ [CHR 0x0A]) = Inr (saved, False)"
    and disk_law: "world_within same_view (AcFs ac r)"
    and acquire_law: "wp (acquire_lock (AcLockFs ac) (AcLockRoot ac) gateway_lock (AcPolls ac))
      (\<lambda>r w'. silent w w' \<and> (peace w \<longrightarrow> \<not> isl r)) w"
    and authorize_law: "wp (authorize_root_locked ac claim) (\<lambda>r w'. silent w w' \<and> (peace w \<longrightarrow> r = None)) w"
    and release_law: "wp (release_lock (AcLockFs ac) l) (\<lambda>r w'. silent w w' \<and> (peace w \<longrightarrow> r = None)) w"
    and detect_law: "world_within off_resolver (GwDetect (AcGateway ac) ctx)"
    and apply_law: "world_within off_resolver (GwApply (AcGateway ac) ctx p)"
    and check_law: "world_within off_resolver (GwCheck (AcGateway ac) ctx p)"
    and cleanup_law: "wp (GwCleanup (AcGateway ac) ctx p)
      (\<lambda>e w'. off_resolver w w' \<and> (e = None \<longrightarrow> clean w') \<and> (peace w \<longrightarrow> e = None)) w"
    and put_law: "ok w \<Longrightarrow> steady w (AcPutLast ac q w)" "AcLast ac (AcPutLast ac q w) = q"
      "fit (AcPutLast ac q w) = fit w" "user (AcPutLast ac q w) = user w" "clean (AcPutLast ac q w) = clean w"
      "peace (AcPutLast ac q w) = peace w"
    and dns_backup_law: "fit w \<Longrightarrow> wp (DcBackup (AcDns ac) ctx) (\<lambda>a w'. off_capture w w' \<and> fit w' \<and> user w' = user w \<and>
      (\<forall>b. user w \<and> a = Inr b \<longrightarrow> b = saved)) w"
    and dns_apply_law: "fit w \<Longrightarrow> wp (DcApply (AcDns ac) ctx p saved) (\<lambda>e w'. off_capture w w' \<and> fit w') w"
    and dns_restore_law: "fit w \<Longrightarrow> wp (DcRestore (AcDns ac) ctx saved) (\<lambda>e w'. off_capture w w' \<and> fit w' \<and>
      (e = None \<longrightarrow> user w') \<and> (peace w \<longrightarrow> e = None)) w"
begin

section \<open>Programs that only look\<close>

text \<open>The files and all the rest are the same.\<close>

definition still :: "'w \<Rightarrow> 'w \<Rightarrow> bool" where
  "still w w' \<longleftrightarrow> (ok w \<longrightarrow> steady w w') \<and> same_view w w'"

definition noted :: "'w \<Rightarrow> bool" where
  "noted w \<longleftrightarrow> (\<exists>t. content w dns_backup_file = Some t \<and>
     decoded_whole ''DNS backup'' (DecodeBackup (AcJson ac) t) = Inr saved)"

definition backed :: "'w \<Rightarrow> bool" where "backed w \<longleftrightarrow> ok w \<and> fit w \<and> noted w"

definition recoverable :: "'w \<Rightarrow> bool" where
  "recoverable w \<longleftrightarrow> ok w \<and> fit w \<and> (noted w \<or> content w dns_backup_file = None \<and> user w)"

lemma backed_recoverable: "backed w \<Longrightarrow> recoverable w"
  by (simp add: backed_def recoverable_def)

lemma still_silent: "still w w' \<Longrightarrow> silent w w'"
  by (auto simp: still_def silent_def off_resolver_def aside_def same_view_def)

lemma silent_off: "silent w w' \<Longrightarrow> off_resolver w w'"
  by (simp add: silent_def)

lemma steady_noted: "steady w w' \<Longrightarrow> noted w' = noted w"
  using steady_content [of w w' dns_backup_file] named(3) by (simp add: noted_def)

lemma off_keeps:
  assumes "off_resolver w w'"
  shows "backed w \<Longrightarrow> backed w'" and "recoverable w \<Longrightarrow> recoverable w'"
  using assms steady_noted [of w w'] steady_content [of w w' dns_backup_file] named(3)
  by (auto simp: off_resolver_def aside_def backed_def recoverable_def steady_ok)

lemma still_trans: "still a b \<Longrightarrow> still b c \<Longrightarrow> still a c"
  by (auto simp: still_def intro: steady_trans same_view_trans dest: steady_ok)

sublocale still: preorder_frame still
  by unfold_locales (simp add: still_def, rule still_trans)

sublocale off: preorder_frame off_resolver
  by unfold_locales (simp, rule off_resolver_trans)

sublocale backed: preorder_frame "\<lambda>w w'. backed w \<longrightarrow> backed w'"
  by unfold_locales auto

sublocale recoverable: preorder_frame "\<lambda>w w'. recoverable w \<longrightarrow> recoverable w'"
  by unfold_locales auto

sublocale disk: fs_frame same_view "AcFs ac"
  by unfold_locales (simp, rule same_view_trans, assumption, assumption, rule disk_law)

lemma within_mono: "world_within R m \<Longrightarrow> (\<And>w w'. R w w' \<Longrightarrow> S w w') \<Longrightarrow> world_within S m"
  unfolding world_within_def by (blast intro: wp_mono)

lemma within_wp: "(\<And>w. wp m (\<lambda>_ w'. R w w') w) \<Longrightarrow> world_within R m"
  by (simp add: world_within_def)

lemma within_if: "(\<And>w. I w \<Longrightarrow> wp m (\<lambda>_ w'. I w') w) \<Longrightarrow> world_within (\<lambda>w w'. I w \<longrightarrow> I w') m"
  by (simp add: world_within_def wp_def case_prod_beta)

lemma wp_within: "world_within R m \<Longrightarrow> wp m (\<lambda>_ w'. R w w') w"
  by (simp add: world_within_def)

lemma off_within: 
  assumes "world_within still m"
  shows "world_within off_resolver m"
  by (rule within_mono [OF assms]) (simp add: still_silent silent_off)

lemma kept_within:
  assumes "world_within off_resolver m"
  shows "world_within (\<lambda>w w'. backed w \<longrightarrow> backed w') m" and "world_within (\<lambda>w w'. recoverable w \<longrightarrow> recoverable w') m"
  by (rule within_mono [OF assms], use off_keeps in blast)+

lemma read_wp:
  assumes "ok w" and "n \<in> names"
  shows "wp (store_read (AcFs ac) (AcRoot ac) n) (\<lambda>r w'. still w w' \<and> got w n r) w"
  unfolding rooted(1)
  by (rule wp_mono [OF wp_conj [OF store_read_wp [OF assms, where Q = "\<lambda>r w'. steady w w' \<and> got w n r"]
        wp_within [OF disk.framed_store_read]]]) (auto simp: still_def)

lemma read_still [frame_rules]: "n \<in> names \<Longrightarrow> world_within still (store_read (AcFs ac) (AcRoot ac) n)"
proof (rule within_wp)
  fix w
  assume n: "n \<in> names"
  show "wp (store_read (AcFs ac) (AcRoot ac) n) (\<lambda>_ w'. still w w') w"
  proof (cases "ok w")
    case True
    then show ?thesis
      by (rule wp_mono [OF read_wp [OF _ n]]) simp
  next
    case False
    then show ?thesis
      by (intro wp_mono [OF wp_within [OF disk.framed_store_read]]) (simp add: still_def)
  qed
qed

lemma look_wp:
  assumes "ok w" and "n \<in> names"
  shows "wp (fs_info (AcFs ac) (place rs n)) (\<lambda>r w'. still w w' \<and> seen w n r) w"
  by (rule wp_mono [OF wp_conj [OF info_wp(1) [OF assms, where Q = "\<lambda>r w'. steady w w' \<and> seen w n r"]
        wp_within [OF disk.framed_requests(2)]]]) (auto simp: still_def)

lemma places: "DNSBackup (AcLayout ac) = place rs dns_backup_file" "backup_name ac = Inr dns_backup_file"
  "join_paths [LayoutRoot (AcLayout ac), active_gateway_path] = place rs active_gateway_path"
proof -
  have parts: "split_on slash dns_backup_file = [''.boxctl'', ''dns-backup.json'']" "proper ''.boxctl''" "proper ''dns-backup.json''"
    by (simp_all add: dns_backup_file_def proper_def dot_def dotdot_def)
  have "join_paths [abs_path rs, ''.boxctl''] = abs_path (rs @ [''.boxctl''])"
    using join_paths_below [OF root_proper, of "[''.boxctl'']"] parts by simp
  moreover have "join_paths [abs_path (rs @ [''.boxctl'']), ''dns-backup.json''] = place rs dns_backup_file"
    using join_paths_below [of "rs @ [''.boxctl'']" "[''dns-backup.json'']"] root_proper parts by (simp add: place_def)
  ultimately show located: "DNSBackup (AcLayout ac) = place rs dns_backup_file"
    by (simp add: rooted(2) layout_at_def Let_def)
  have "rel (abs_path rs) (place rs dns_backup_file) = Some dns_backup_file"
    unfolding place_def parts(1) by (subst rel_below [OF root_proper]) (simp_all add: parts dns_backup_file_def)
  then show "backup_name ac = Inr dns_backup_file"
    by (simp add: backup_name_def located) (simp add: rooted(2) layout_at_def Let_def)
  show "join_paths [LayoutRoot (AcLayout ac), active_gateway_path] = place rs active_gateway_path"
    using joined [OF named(2)] by (simp add: rooted(2) layout_at_def Let_def)
qed

lemma loads_still [frame_rules]:
  "world_within still (load_runtime_settings (AcFs ac) (AcRoot ac))" "world_within still (load_active_gateway ac)"
  "world_within still (load_dns_backup ac)"
  unfolding load_runtime_settings_def load_settings_def load_active_gateway_def load_dns_backup_def places
  by (intro frame_rules; (simp add: named)?)+

lemma looks_still [frame_rules]: "n \<in> names \<Longrightarrow> world_within still (fs_info (AcFs ac) (place rs n))"
proof (rule within_wp)
  fix w
  assume n: "n \<in> names"
  show "wp (fs_info (AcFs ac) (place rs n)) (\<lambda>_ w'. still w w') w"
  proof (cases "ok w")
    case True
    then show ?thesis
      by (rule wp_mono [OF look_wp [OF _ n]]) simp
  next
    case False
    then show ?thesis
      by (intro wp_mono [OF wp_within [OF disk.framed_requests(2)]]) (simp add: still_def)
  qed
qed

lemma queries_still [frame_rules]:
  "world_within still (gateway_mode_enabled ac)" "world_within still (has_gateway_ownership ac)"
  "world_within still (active_required ac)"
  unfolding gateway_mode_enabled_def has_gateway_ownership_def present_or_unknown_def places active_required_def
  by (intro frame_rules; (simp add: named)?)+

lemma queries_off [frame_rules]:
  "world_within off_resolver (load_runtime_settings (AcFs ac) (AcRoot ac))" "world_within off_resolver (load_active_gateway ac)"
  "world_within off_resolver (gateway_mode_enabled ac)" "world_within off_resolver (has_gateway_ownership ac)"
  "world_within off_resolver (active_required ac)"
  by (intro off_within frame_rules)+

lemma locks_off [frame_rules]:
  "world_within off_resolver (acquire_lock (AcLockFs ac) (AcLockRoot ac) gateway_lock (AcPolls ac))"
  "world_within off_resolver (authorize_root_locked ac claim)" "world_within off_resolver (release_lock (AcLockFs ac) l)"
  by (rule within_wp, rule wp_mono [OF acquire_law] wp_mono [OF authorize_law] wp_mono [OF release_law], simp add: silent_off)+

lemma controllers_off [frame_rules]:
  "world_within off_resolver (GwDetect (AcGateway ac) ctx)" "world_within off_resolver (GwApply (AcGateway ac) ctx p)"
  "world_within off_resolver (GwCheck (AcGateway ac) ctx p)" "world_within off_resolver (GwCleanup (AcGateway ac) ctx p)"
  by (rule detect_law apply_law check_law, (rule within_wp, rule wp_mono [OF cleanup_law], simp)?)+

lemma plans_off [frame_rules]:
  "world_within off_resolver (build_plan_and_state ac prepared)" "world_within off_resolver (build_plan ac prepared)"
  "world_within off_resolver (refresh_active_plan ac a)" "world_within off_resolver (plan_for_cleanup ac prepared)"
  unfolding build_plan_def build_plan_and_state_def refresh_active_plan_def plan_for_cleanup_def Let_def
  by (intro frame_rules)+

lemma diagnose_off: "world_within off_resolver (diagnose_gateway ac)"
  unfolding diagnose_gateway_def diagnose_locked_def by (intro frame_rules)

section \<open>Files that are written\<close>

text \<open>Neither the locks nor any command will fail.\<close>

definition easy :: "'w \<Rightarrow> bool" where "easy w \<longleftrightarrow> smooth w \<and> peace w"

text \<open>The resolver is the user's and no backup is left.\<close>

definition relieved :: "'w \<Rightarrow> bool" where
  "relieved w \<longleftrightarrow> ok w \<and> fit w \<and> user w \<and> content w dns_backup_file = None"

lemma relieved_recoverable: "relieved w \<Longrightarrow> recoverable w"
  by (simp add: relieved_def recoverable_def)

lemma off_easy: "off_resolver w w' \<Longrightarrow> ok w \<Longrightarrow> easy w \<Longrightarrow> easy w'"
  by (auto simp: off_resolver_def aside_def easy_def dest: steady_smooth)

lemma off_relieved: "off_resolver w w' \<Longrightarrow> relieved w \<Longrightarrow> relieved w'"
  using steady_content [of w w' dns_backup_file] named(3) steady_ok [of w w']
  by (auto simp: off_resolver_def aside_def relieved_def)

lemma steady_keeps:
  assumes "steady w w'" and "fit w' = fit w" and "user w' = user w"
  shows "backed w \<longrightarrow> backed w'" and "recoverable w \<longrightarrow> recoverable w'" and "relieved w \<longrightarrow> relieved w'"
  using steady_noted [OF assms(1)] steady_content [OF assms(1) named(3)] steady_ok [OF assms(1)] assms(2,3)
  by (simp_all add: backed_def recoverable_def relieved_def)

lemma names_apart: "active_gateway_path \<noteq> dns_backup_file"
  by (simp add: active_gateway_path_def dns_backup_file_def)

lemma put_active:
  assumes "put active_gateway_path data r w w'" and "same_view w w'"
  shows "backed w \<Longrightarrow> backed w'" and "recoverable w \<Longrightarrow> recoverable w'" and "relieved w \<Longrightarrow> relieved w'"
proof -
  have "content w' dns_backup_file = content w dns_backup_file" "ok w'"
    using put_other [OF assms(1) named(3)] put_ok [OF assms(1)] names_apart by metis+
  then show "backed w \<Longrightarrow> backed w'" and "recoverable w \<Longrightarrow> recoverable w'" and "relieved w \<Longrightarrow> relieved w'"
    using assms(2) by (auto simp: backed_def recoverable_def relieved_def noted_def same_view_def)
qed

lemma write_wp:
  assumes "ok w" and "n \<in> names"
  shows "wp (write_json (AcFs ac) (AcRoot ac) n x mode) (\<lambda>r w'. same_view w w' \<and>
    (case x of Inl e \<Rightarrow> r \<noteq> None \<and> w' = w | Inr t \<Rightarrow> put n (Some (t @ [CHR 0x0A])) r w w')) w"
proof (cases x)
  case (Inr t)
  have "wp (store_write (AcFs ac) (abs_path rs) n (t @ [CHR 0x0A]) mode) (\<lambda>r w'. put n (Some (t @ [CHR 0x0A])) r w w') w"
    by (rule store_write_wp [OF assms])
  then show ?thesis
    using wp_conj [OF wp_within [OF disk.framed_store_write(1)]] by (fastforce simp: Inr write_json_def rooted(1))
qed (simp add: write_json_def wp_return)

lemma keeps_when_ok:
  assumes "\<And>w. ok w \<Longrightarrow> wp m (\<lambda>_ w'. (backed w \<longrightarrow> backed w') \<and> (recoverable w \<longrightarrow> recoverable w')) w"
  shows "world_within (\<lambda>w w'. backed w \<longrightarrow> backed w') m" and "world_within (\<lambda>w w'. recoverable w \<longrightarrow> recoverable w') m"
proof -
  have "(backed w \<longrightarrow> backed w') \<and> (recoverable w \<longrightarrow> recoverable w')" if "run_state m w = (a, w')" for a w w'
  proof (cases "ok w")
    case True
    then show ?thesis
      using wp_run [OF assms that] by simp
  qed (simp add: backed_def recoverable_def)
  then show "world_within (\<lambda>w w'. backed w \<longrightarrow> backed w') m" and "world_within (\<lambda>w w'. recoverable w \<longrightarrow> recoverable w') m"
    by (auto intro!: within_wp wpI)
qed

lemma save_keeps [frame_rules]:
  "world_within (\<lambda>w w'. backed w \<longrightarrow> backed w') (save_active_gateway ac a)"
  "world_within (\<lambda>w w'. recoverable w \<longrightarrow> recoverable w') (save_active_gateway ac a)"
proof -
  have "wp (save_active_gateway ac a) (\<lambda>_ w'. (backed w \<longrightarrow> backed w') \<and> (recoverable w \<longrightarrow> recoverable w')) w" if "ok w" for w
  proof (cases "validate_active_gateway (AcJson ac) a")
    case None
    show ?thesis
      unfolding save_active_gateway_def None option.case
      by (rule wp_mono [OF write_wp [OF that named(2)]]) (auto dest: put_active split: sum.splits)
  qed (simp add: save_active_gateway_def wp_return)
  note saved = this
  show "world_within (\<lambda>w w'. backed w \<longrightarrow> backed w') (save_active_gateway ac a)"
    "world_within (\<lambda>w w'. recoverable w \<longrightarrow> recoverable w') (save_active_gateway ac a)"
    by (rule keeps_when_ok [OF saved], assumption)+
qed

lemma remove_active_wp:
  assumes "ok w"
  shows "wp (remove_active_gateway ac) (\<lambda>r w'. same_view w w' \<and> put active_gateway_path None r w w' \<and> (smooth w \<longrightarrow> r = None)) w"
  unfolding remove_active_gateway_def rooted(1)
  by (rule wp_conj [OF wp_within [OF disk.framed_remove(2)]])
    (rule remove_regular_wp [OF assms named(2)], simp)

lemma put_last_wp:
  assumes "ok w" and "\<And>w'. steady w w' \<Longrightarrow> fit w' = fit w \<Longrightarrow> user w' = user w \<Longrightarrow> clean w' = clean w \<Longrightarrow>
    AcLast ac w' = q \<Longrightarrow> peace w' = peace w \<Longrightarrow> Q () w'"
  shows "wp (put_last ac q) Q w"
  unfolding put_last_def wp_update by (rule assms(2)) (simp_all add: put_law assms(1))

lemma put_last_keeps [frame_rules]:
  "world_within (\<lambda>w w'. backed w \<longrightarrow> backed w') (put_last ac q)"
  "world_within (\<lambda>w w'. recoverable w \<longrightarrow> recoverable w') (put_last ac q)"
proof -
  have "(backed w \<longrightarrow> backed (AcPutLast ac q w)) \<and> (recoverable w \<longrightarrow> recoverable (AcPutLast ac q w))" for w
  proof (cases "ok w")
    case True
    then show ?thesis
      using steady_keeps [OF put_law(1)] put_law(3,4) by blast
  qed (simp add: backed_def recoverable_def)
  then show "world_within (\<lambda>w w'. backed w \<longrightarrow> backed w') (put_last ac q)"
    "world_within (\<lambda>w w'. recoverable w \<longrightarrow> recoverable w') (put_last ac q)"
    by (simp_all add: world_within_def put_last_def wp_update)
qed

lemmas kept_leaves [frame_rules] = queries_off [THEN kept_within(1)] queries_off [THEN kept_within(2)]
  locks_off [THEN kept_within(1)] locks_off [THEN kept_within(2)]
  controllers_off [THEN kept_within(1)] controllers_off [THEN kept_within(2)]
  plans_off [THEN kept_within(1)] plans_off [THEN kept_within(2)]

section \<open>The backup\<close>

lemma load_backup_wp:
  assumes "recoverable w"
  shows "wp (load_dns_backup ac) (\<lambda>r w'. still w w' \<and> (case r of
      Inr b \<Rightarrow> noted w \<and> b = saved
    | Inl e \<Rightarrow> (absent e \<longrightarrow> content w dns_backup_file = None \<and> user w) \<and> (smooth w \<longrightarrow> absent e))) w"
proof -
  have "ok w"
    using assms by (simp add: recoverable_def)
  then show ?thesis
    unfolding load_dns_backup_def places sum.case wp_attempt
    by (rule wp_mono [OF read_wp [OF _ named(3)]]) 
      (use assms in \<open>auto simp: got_def noted_def recoverable_def wp_return split: sum.splits\<close>)
qed

lemma noted_written:
  "fit w \<Longrightarrow> EncodeBackup (AcJson ac) saved = Inr t \<Longrightarrow> content w dns_backup_file = Some (t @ [CHR 0x0A]) \<Longrightarrow> noted w"
  by (simp add: noted_def coded decoded_whole_def)

text \<open>Having a backup: it records the user's options, whoever took it.\<close>

lemma ensure_backup_wp:
  assumes "recoverable w"
  shows "wp (ensure_dns_backup ac) (\<lambda>r w'. recoverable w' \<and> (\<forall>b new. r = Inr (b, new) \<longrightarrow> b = saved \<and> backed w')) w"
  unfolding ensure_dns_backup_def wp_bind
proof (rule wp_mono [OF load_backup_wp [OF assms]], elim conjE)
  fix loaded w1
  assume w1: "still w w1" and loaded: "case loaded of Inr b \<Rightarrow> noted w \<and> b = saved
    | Inl e \<Rightarrow> (absent e \<longrightarrow> content w dns_backup_file = None \<and> user w) \<and> (smooth w \<longrightarrow> absent e)"
  have off: "off_resolver w w1"
    using still_silent [OF w1] by (rule silent_off)
  have rec1: "recoverable w1"
    using off_keeps(2) [OF off assms] .
  show "wp (case loaded of Inl e \<Rightarrow>
        if \<not> absent e then State_Monad.return (Inl e)
        else attempt (DcBackup (AcDns ac) CallerContext) (\<lambda>b. case backup_name ac of
             Inl e \<Rightarrow> State_Monad.return (Inl e)
           | Inr n \<Rightarrow> write_json (AcFs ac) (AcRoot ac) n (EncodeBackup (AcJson ac) b) 384 \<bind> (\<lambda>failed.
               State_Monad.return (case failed of None \<Rightarrow> Inr (b, True) | Some e \<Rightarrow> Inl e)))
      | Inr b \<Rightarrow> State_Monad.return (Inr (b, False)))
    (\<lambda>r w'. recoverable w' \<and> (\<forall>b new. r = Inr (b, new) \<longrightarrow> b = saved \<and> backed w')) w1"
  proof (cases loaded)
    case (Inr b)
    then have "noted w" "b = saved"
      using loaded by auto
    moreover have "backed w1"
      using off_keeps(1) [OF off] assms \<open>noted w\<close> by (simp add: backed_def recoverable_def)
    ultimately show ?thesis
      using rec1 by (simp add: Inr wp_return)
  next
    case (Inl e)
    show ?thesis
    proof (cases "absent e")
      case False
      then show ?thesis
        using rec1 by (simp add: Inl wp_return)
    next
      case True
      then have none: "content w1 dns_backup_file = None" "user w1" "fit w1"
        using loaded assms off named(3) steady_content [of w w1 dns_backup_file] rec1
        by (auto simp: Inl off_resolver_def aside_def recoverable_def)
      have "wp (DcBackup (AcDns ac) CallerContext) (\<lambda>a w2. case a of
          Inl e \<Rightarrow> recoverable w2 | Inr b \<Rightarrow> wp (write_json (AcFs ac) (AcRoot ac) dns_backup_file (EncodeBackup (AcJson ac) b) 384)
            (\<lambda>failed w3. recoverable w3 \<and> (failed = None \<longrightarrow> b = saved \<and> backed w3)) w2) w1"
      proof (rule wp_mono [OF dns_backup_law [OF none(3)]], elim conjE)
        fix a w2
        assume w2: "off_capture w1 w2" "fit w2" "user w2 = user w1" "\<forall>b. user w1 \<and> a = Inr b \<longrightarrow> b = saved"
        have rel: "relieved w2"
          using w2 none rec1 named(3) steady_content [of w1 w2 dns_backup_file] steady_ok [of w1 w2]
          by (auto simp: off_capture_def aside_def relieved_def recoverable_def)
        show "case a of Inl e \<Rightarrow> recoverable w2
          | Inr b \<Rightarrow> wp (write_json (AcFs ac) (AcRoot ac) dns_backup_file (EncodeBackup (AcJson ac) b) 384)
            (\<lambda>failed w3. recoverable w3 \<and> (failed = None \<longrightarrow> b = saved \<and> backed w3)) w2"
        proof (cases a)
          case (Inr b)
          then have b: "b = saved"
            using w2(4) none(2) by simp
          show ?thesis
            unfolding Inr sum.case b
            by (rule wp_mono [OF write_wp [OF _ named(3)]])
              (use rel in \<open>auto simp: relieved_def recoverable_def backed_def same_view_def put_def changed_def
                noted_written split: sum.splits\<close>)
        qed (simp add: relieved_recoverable [OF rel])
      qed
      then show ?thesis
        unfolding Inl sum.case wp_attempt places wp_bind wp_return using True
        by (auto elim!: wp_mono split: sum.splits option.splits simp: wp_attempt wp_bind wp_return places)
    qed
  qed
qed

section \<open>Activation keeps the user's options recoverable\<close>

lemma dns_apply_keeps [frame_rules]:
  "world_within (\<lambda>w w'. backed w \<longrightarrow> backed w') (DcApply (AcDns ac) ctx p saved)"
proof -
  have "wp (DcApply (AcDns ac) ctx p saved) (\<lambda>_ w'. backed w') w" if "backed w" for w
    using that steady_noted steady_ok
    by (intro wp_mono [OF dns_apply_law]) (auto simp: backed_def off_capture_def aside_def)
  then show ?thesis
    by (rule within_if)
qed

lemma install_keeps: "backed w \<Longrightarrow> wp (install_generation ac p a saved) (\<lambda>_ w'. recoverable w') w"
proof -
  assume w: "backed w"
  have "world_within (\<lambda>w w'. backed w \<longrightarrow> backed w') (install_generation ac p a saved)"
    unfolding install_generation_def by (intro frame_rules)
  from wp_within [OF this, of w] show ?thesis
    by (rule wp_mono) (simp add: w backed_recoverable)
qed

lemma recoverable_wp: "world_within (\<lambda>w w'. recoverable w \<longrightarrow> recoverable w') m \<Longrightarrow> recoverable w \<Longrightarrow> wp m (\<lambda>_ w'. recoverable w') w"
  by (auto simp: world_within_def elim: wp_mono)

lemma activate_locked_keeps [frame_rules]:
  "world_within (\<lambda>w w'. recoverable w \<longrightarrow> recoverable w') (activate_gateway_locked ac prepared)"
proof -
  have "wp (ensure_dns_backup ac \<bind> (\<lambda>backed_up. case backed_up of
         Inl e \<Rightarrow> State_Monad.return (Some e) | Inr (b, _) \<Rightarrow> install_generation ac p a b)) (\<lambda>_ w'. recoverable w') w"
    if "recoverable w" for p a w
    unfolding wp_bind
    by (rule wp_mono [OF ensure_backup_wp [OF that]]) (auto simp: wp_return install_keeps split: sum.split)
  then have "world_within (\<lambda>w w'. recoverable w \<longrightarrow> recoverable w') (ensure_dns_backup ac \<bind> (\<lambda>backed_up. case backed_up of
         Inl e \<Rightarrow> State_Monad.return (Some e) | Inr (b, _) \<Rightarrow> install_generation ac p a b))" for p a
    by (rule within_if)
  note guarded = this
  show ?thesis
    unfolding activate_gateway_locked_def
    by (rule recoverable.framed_bind, rule kept_leaves, rule recoverable.framed_sum, rule recoverable.framed_return,
        rule recoverable.framed_prod, rule guarded)
qed

lemma transaction_keeps [frame_rules]:
  "world_within (\<lambda>w w'. recoverable w \<longrightarrow> recoverable w') m \<Longrightarrow>
   world_within (\<lambda>w w'. recoverable w \<longrightarrow> recoverable w') (with_transaction ac claim m)"
  unfolding with_transaction_def with_file_lock_def authorized_def by (intro frame_rules)

lemma activate_keeps: "world_within (\<lambda>w w'. recoverable w \<longrightarrow> recoverable w') (activate_gateway ac prepared)"
  unfolding activate_gateway_def by (intro frame_rules)

section \<open>Restoring\<close>

lemma remove_backup_wp:
  assumes "ok w"
  shows "wp (remove_dns_backup ac) (\<lambda>e w'. same_view w w' \<and> put dns_backup_file None e w w' \<and> (smooth w \<longrightarrow> e = None)) w"
proof -
  have "world_within same_view (remove_dns_backup ac)"
    unfolding remove_dns_backup_def by (intro frame_rules)
  moreover have "wp (remove_dns_backup ac) (\<lambda>e w'. put dns_backup_file None e w w' \<and> (smooth w \<longrightarrow> e = None)) w"
    unfolding remove_dns_backup_def places wp_bind
  proof (rule info_wp(1) [OF assms named(3)])
    fix info w1
    assume w1: "steady w w1" and info: "seen w dns_backup_file info"
    have same: "content w1 dns_backup_file = content w dns_backup_file"
      using steady_content [OF w1 named(3)] .
    show "wp (case info of
           Inl e \<Rightarrow> State_Monad.return (if absent e then None else Some e)
         | Inr (kind, _) \<Rightarrow> if kind \<noteq> Regular then State_Monad.return (Some (Err ''refusing to remove non-regular DNS backup''))
             else fs_unit (AcFs ac) (RemoveFile (place rs dns_backup_file)))
        (\<lambda>e w'. put dns_backup_file None e w w' \<and> (smooth w \<longrightarrow> e = None)) w1"
    proof (cases info)
      case (Inl e)
      then show ?thesis
        using info w1 same by (auto simp: seen_def wp_return put_def intro: steady_changed)
    next
      case (Inr a)
      then obtain size where a: "a = (Regular, size)" "content w dns_backup_file \<noteq> None"
        using info by (cases a) (auto simp: seen_def)
      have "wp (fs_unit (AcFs ac) (RemoveFile (place rs dns_backup_file)))
          (\<lambda>e w'. put dns_backup_file None e w w' \<and> (smooth w \<longrightarrow> e = None)) w1"
        by (rule wp_mono [OF unlink_law [OF steady_ok [OF w1] named(3)]])
          (use w1 a same put_after [OF w1 _ named(3)] steady_smooth in auto)
      then show ?thesis
        by (simp add: Inr a)
    qed
  qed
  ultimately show ?thesis
    by (rule wp_conj [OF wp_within])
qed

text \<open>The user's options come back, and only then the backup goes.\<close>

definition restored :: "'w \<Rightarrow> gerror option \<Rightarrow> 'w \<Rightarrow> bool" where
  "restored w e w' \<longleftrightarrow> recoverable w' \<and> AcLast ac w' = AcLast ac w \<and> clean w' = clean w \<and> (e = None \<longrightarrow> relieved w') \<and>
     (easy w \<longrightarrow> e = None \<and> easy w')"

lemma restore_and_forget_wp:
  assumes "backed w"
  shows "wp (restore_and_forget ac ctx saved) (restored w) w"
proof -
  have w: "ok w" "fit w" "noted w"
    using assms by (simp_all add: backed_def)
  show ?thesis
    unfolding restore_and_forget_def wp_check
  proof (rule wp_mono [OF dns_restore_law [OF w(2)]], elim conjE)
    fix e :: "gerror option" and w1
    assume w1: "off_capture w w1" "fit w1" "e = None \<longrightarrow> user w1" "peace w \<longrightarrow> e = None"
    then have s: "steady w w1"
      using w(1) by (simp add: off_capture_def aside_def)
    have b: "backed w1"
      using w w1(2) steady_noted [OF s] steady_ok [OF s] by (simp add: backed_def)
    show "case e of None \<Rightarrow> wp (remove_dns_backup ac) (restored w) w1 | Some e \<Rightarrow> restored w (Some e) w1"
    proof (cases e)
      case None
      have "wp (remove_dns_backup ac) (\<lambda>e w'. same_view w1 w' \<and> put dns_backup_file None e w1 w' \<and> (smooth w1 \<longrightarrow> e = None)) w1"
        by (rule remove_backup_wp [OF steady_ok [OF s]])
      then have "wp (remove_dns_backup ac) (restored w) w1"
      proof (rule wp_mono, elim conjE)
        fix e' w2
        assume w2: "same_view w1 w2" "put dns_backup_file None e' w1 w2" "smooth w1 \<longrightarrow> e' = None"
        have "content w2 dns_backup_file = None \<or> e' \<noteq> None \<and> noted w2"
          using w2(2) b by (auto simp: put_def noted_def backed_def)
        then show "restored w e' w2"
          using w1 w2 None s b put_ok [OF w2(2)]
          by (auto simp: restored_def same_view_def off_capture_def aside_def easy_def recoverable_def relieved_def
              backed_def put_def changed_def steady_def)
      qed
      then show ?thesis
        by (simp add: None)
    qed (use w1 b backed_recoverable in \<open>auto simp: restored_def off_capture_def aside_def easy_def\<close>)
  qed
qed

lemma restore_options_wp:
  assumes "recoverable w"
  shows "wp (restore_dns_options ac) (restored w) w"
  unfolding restore_dns_options_def wp_bind
proof (rule wp_mono [OF load_backup_wp [OF assms]], elim conjE)
  fix loaded w1
  assume w1: "still w w1" and loaded: "case loaded of Inr b \<Rightarrow> noted w \<and> b = saved
    | Inl e \<Rightarrow> (absent e \<longrightarrow> content w dns_backup_file = None \<and> user w) \<and> (smooth w \<longrightarrow> absent e)"
  have off: "off_resolver w w1"
    using still_silent [OF w1] by (rule silent_off)
  have rec1: "recoverable w1"
    using off_keeps(2) [OF off assms] .
  have ok: "ok w"
    using assms by (simp add: recoverable_def)
  show "wp (case loaded of Inl e \<Rightarrow> State_Monad.return (if absent e then None else Some e)
      | Inr b \<Rightarrow> restore_and_forget ac CallerContext b) (restored w) w1"
  proof (cases loaded)
    case (Inl e)
    have "relieved w1" if "absent e"
      using that loaded rec1 off_relieved [OF off] assms by (simp add: Inl relieved_def recoverable_def)
    then show ?thesis
      using loaded rec1 w1 off_easy [OF off ok] by (auto simp: Inl wp_return restored_def still_def same_view_def easy_def)
  next
    case (Inr b)
    then have b: "backed w1" "b = saved"
      using loaded off_keeps(1) [OF off] assms by (auto simp: backed_def recoverable_def)
    have "wp (restore_and_forget ac CallerContext saved) (restored w) w1"
      by (rule wp_mono [OF restore_and_forget_wp [OF b(1)]])
        (use w1 off_easy [OF off ok] in \<open>auto simp: restored_def still_def same_view_def\<close>)
    then show ?thesis
      by (simp add: Inr b(2))
  qed
qed

text \<open>What is left once the generation is forgotten.\<close>

definition forgotten :: "'w \<Rightarrow> bool" where
  "forgotten w \<longleftrightarrow> content w active_gateway_path = None \<and> AcLast ac w = None"

lemma forget_wp:
  assumes "recoverable w"
  shows "wp (forget_generation ac joined) (\<lambda>e w'. recoverable w' \<and> (relieved w \<longrightarrow> relieved w') \<and> clean w' = clean w \<and> peace w' = peace w \<and>
    (e = None \<longrightarrow> joined = None \<and> forgotten w') \<and> (joined = None \<and> smooth w \<longrightarrow> e = None)) w"
proof (cases joined)
  case (Some e)
  then show ?thesis
    using assms by (simp add: forget_generation_def wp_simps)
next
  case None
  have ok: "ok w"
    using assms by (simp add: recoverable_def)
  show ?thesis
    unfolding forget_generation_def None option.case wp_bind
  proof (rule wp_mono [OF remove_active_wp [OF ok]], elim conjE)
    fix e w1
    assume w1: "same_view w w1" "put active_gateway_path None e w w1" "smooth w \<longrightarrow> e = None"
    note kept = put_active [OF w1(2,1)]
    show "wp (case e of None \<Rightarrow> put_last ac None \<bind> (\<lambda>_. State_Monad.return None) | Some e \<Rightarrow> State_Monad.return (Some e))
       (\<lambda>e w'. recoverable w' \<and> (relieved w \<longrightarrow> relieved w') \<and> clean w' = clean w \<and> peace w' = peace w \<and>
          (e = None \<longrightarrow> None = None \<and> forgotten w') \<and> (None = None \<and> smooth w \<longrightarrow> e = None)) w1"
    proof (cases e)
      case (Some x)
      then show ?thesis
        using w1 kept assms by (simp add: wp_return same_view_def)
    next
      case None
      have gone: "content w1 active_gateway_path = None"
        using w1(2) None by (simp add: put_def)
      show ?thesis
        unfolding None option.case wp_bind wp_return
      proof (rule put_last_wp [OF put_ok [OF w1(2)]])
        fix w2
        assume w2: "steady w1 w2" "fit w2 = fit w1" "user w2 = user w1" "clean w2 = clean w1" "AcLast ac w2 = None"
          "peace w2 = peace w1"
        have "content w2 active_gateway_path = None"
          using steady_content [OF w2(1) named(2)] gone by simp
        then show "recoverable w2 \<and> (relieved w \<longrightarrow> relieved w2) \<and> clean w2 = clean w \<and> peace w2 = peace w \<and>
            (None = None \<longrightarrow> None = None \<and> forgotten w2) \<and> (None = None \<and> smooth w \<longrightarrow> None = None)"
          using w2 w1(1) kept assms steady_keeps [OF w2(1-3)] by (simp add: forgotten_def same_view_def)
      qed
    qed
  qed
qed

section \<open>Deactivation\<close>

lemma cleanup_plan_wp:
  assumes "ok w"
  shows "wp (plan_for_cleanup ac prepared) (\<lambda>r w'. off_resolver w w' \<and> (AcLast ac w \<noteq> None \<longrightarrow> \<not> isl r)) w"
proof (rule wp_conj [OF wp_within [OF plans_off(4)]])
  show "wp (plan_for_cleanup ac prepared) (\<lambda>r w'. AcLast ac w \<noteq> None \<longrightarrow> \<not> isl r) w"
    by (cases "AcLast ac w") (auto simp: plan_for_cleanup_def wp_simps intro: wpI)
qed

text \<open>
  Both owners are attended to, whatever happens to the other; nil means that the resolver is the
  user's, the capture is gone and nothing is remembered.
\<close>

definition undone :: "'w \<Rightarrow> bool" where
  "undone w \<longleftrightarrow> relieved w \<and> clean w \<and> forgotten w"

lemma deactivate_locked_wp:
  assumes "recoverable w"
  shows "wp (deactivate_gateway_locked ac prepared) (\<lambda>e w'. recoverable w' \<and> (e = None \<longrightarrow> undone w') \<and>
    (easy w \<longrightarrow> peace w') \<and> (easy w \<and> AcLast ac w \<noteq> None \<longrightarrow> e = None)) w"
  unfolding deactivate_gateway_locked_def wp_bind
proof (rule wp_mono [OF cleanup_plan_wp], use assms in \<open>simp add: recoverable_def\<close>, elim conjE)
  fix plan :: "gateway_plan fallible" and w1
  assume w1: "off_resolver w w1" "AcLast ac w \<noteq> None \<longrightarrow> \<not> isl plan"
  have easy1: "easy w \<longrightarrow> easy w1" and rec1: "recoverable w1"
    using off_easy [OF w1(1)] off_keeps(2) [OF w1(1) assms] assms by (auto simp: recoverable_def)
  show "wp (restore_dns_options ac) (\<lambda>restore_err w2.
      wp (case plan of Inl e \<Rightarrow> State_Monad.return None | Inr p \<Rightarrow> GwCleanup (AcGateway ac) CallerContext p)
       (\<lambda>gateway_err. wp (forget_generation ac (errors_join
          [case plan of Inl e \<Rightarrow> Some e | Inr _ \<Rightarrow> None, gateway_err, restore_err]))
         (\<lambda>e w'. recoverable w' \<and> (e = None \<longrightarrow> undone w') \<and> (easy w \<longrightarrow> peace w') \<and> (easy w \<and> AcLast ac w \<noteq> None \<longrightarrow> e = None))) w2) w1"
  proof (rule wp_mono [OF restore_options_wp [OF rec1]])
    fix restore_err :: "gerror option" and w2
    assume w2: "restored w1 restore_err w2"
    have finish: "wp (forget_generation ac (errors_join [plan_err, gateway_err, restore_err]))
         (\<lambda>e w'. recoverable w' \<and> (e = None \<longrightarrow> undone w') \<and> (easy w \<longrightarrow> peace w') \<and> (easy w \<and> AcLast ac w \<noteq> None \<longrightarrow> e = None)) w3"
      if w3: "off_resolver w2 w3" and g: "plan_err = None \<longrightarrow> gateway_err = None \<longrightarrow> clean w3"
        "easy w \<longrightarrow> AcLast ac w \<noteq> None \<longrightarrow> plan_err = None \<and> gateway_err = None" for plan_err gateway_err w3
    proof -
      have rec3: "recoverable w3"
        using off_keeps(2) [OF w3] w2 by (simp add: restored_def)
      have relieved3: "relieved w3" if "restore_err = None"
        using off_relieved [OF w3] w2 that by (simp add: restored_def)
      have easy3: "easy w \<Longrightarrow> smooth w3 \<and> peace w3 \<and> restore_err = None"
        using easy1 w2 off_easy [OF w3] by (simp add: restored_def recoverable_def easy_def)
      have joined: "errors_join [plan_err, gateway_err, restore_err] = None \<longleftrightarrow>
          plan_err = None \<and> gateway_err = None \<and> restore_err = None"
        by simp
      show ?thesis
      proof (rule wp_mono [OF forget_wp [OF rec3]], elim conjE, unfold joined, intro conjI impI, goal_cases)
        case (2 e w4)
        then show ?case
          using g(1) relieved3 by (simp add: undone_def)
      next
        case (3 e w4)
        then show ?case
          using easy3 by blast
      next
        case (4 e w4)
        then show ?case
          using g(2) easy3 by blast
      qed
    qed
    show "wp (case plan of Inl e \<Rightarrow> State_Monad.return None | Inr p \<Rightarrow> GwCleanup (AcGateway ac) CallerContext p)
       (\<lambda>gateway_err. wp (forget_generation ac (errors_join
          [case plan of Inl e \<Rightarrow> Some e | Inr _ \<Rightarrow> None, gateway_err, restore_err]))
         (\<lambda>e w'. recoverable w' \<and> (e = None \<longrightarrow> undone w') \<and> (easy w \<longrightarrow> peace w') \<and> (easy w \<and> AcLast ac w \<noteq> None \<longrightarrow> e = None))) w2"
    proof (cases plan)
      case (Inl e)
      then show ?thesis
        using finish [OF view_refl(3), of "Some e" None] w1(2) by (simp add: wp_return)
    next
      case (Inr p)
      have "peace w2" if "easy w"
        using that easy1 w2 by (simp add: restored_def easy_def)
      then show ?thesis
        unfolding Inr sum.case by (intro wp_mono [OF cleanup_law] finish) auto
    qed
  qed
qed

text \<open>Nothing on disk or in memory says that the router was changed.\<close>

definition unowned :: "'w \<Rightarrow> bool" where
  "unowned w \<longleftrightarrow> forgotten w \<and> content w dns_backup_file = None"

lemma silent_unowned: "silent w w' \<Longrightarrow> ok w \<Longrightarrow> unowned w' = unowned w"
  using steady_content [of w w'] named by (simp add: unowned_def forgotten_def silent_def off_resolver_def aside_def)

lemma present_wp:
  assumes "ok w" and "n \<in> names"
  shows "wp (present_or_unknown ac (place rs n)) (\<lambda>r w'. still w w' \<and> (\<not> r \<longrightarrow> content w n = None)) w"
  unfolding present_or_unknown_def wp_bind wp_return
  by (rule wp_mono [OF look_wp [OF assms]]) (auto simp: seen_def split: sum.splits)

lemma still_same: "still w w' \<Longrightarrow> ok w \<Longrightarrow> n \<in> names \<Longrightarrow> content w' n = content w n"
  by (simp add: still_def steady_content)

lemma ownership_wp:
  assumes "ok w"
  shows "wp (has_gateway_ownership ac) (\<lambda>r w'. still w w' \<and> (\<not> r \<longrightarrow> unowned w)) w"
proof (cases "AcLast ac w")
  case (Some p)
  then show ?thesis
    by (simp add: has_gateway_ownership_def wp_simps still_def assms same_view_def)
next
  case None
  have "wp (present_or_unknown ac (place rs active_gateway_path)) (\<lambda>active. wp (if active then State_Monad.return True
         else present_or_unknown ac (place rs dns_backup_file)) (\<lambda>r w'. still w w' \<and> (\<not> r \<longrightarrow> unowned w))) w"
  proof (rule wp_mono [OF present_wp [OF assms named(2)]], elim conjE)
    fix active w1
    assume w1: "still w w1" "\<not> active \<longrightarrow> content w active_gateway_path = None"
    then have ok: "ok w1"
      using assms steady_ok by (auto simp: still_def)
    show "wp (if active then State_Monad.return True else present_or_unknown ac (place rs dns_backup_file))
        (\<lambda>r w'. still w w' \<and> (\<not> r \<longrightarrow> unowned w)) w1"
    proof (cases active)
      case False
      then show ?thesis
        using w1 None still_trans [OF w1(1)] still_same [OF w1(1) assms named(3)]
        by (auto simp: unowned_def forgotten_def intro!: wp_mono [OF present_wp [OF ok named(3)]])
    qed (use w1 in \<open>simp add: wp_return\<close>)
  qed
  then show ?thesis
    by (simp add: has_gateway_ownership_def wp_bind wp_get None places cong: if_cong)
qed

lemma transaction_wp:
  assumes refused: "\<And>e w1. silent w w1 \<Longrightarrow> \<not> peace w \<Longrightarrow> Q (Some e) w1"
    and callback: "\<And>w1. silent w w1 \<Longrightarrow> wp m (\<lambda>e w2. \<forall>e' w3. silent w2 w3 \<longrightarrow> (e' = None \<longrightarrow> e = None) \<longrightarrow>
      (peace w2 \<longrightarrow> e = None \<longrightarrow> e' = None) \<longrightarrow> Q e' w3) w1"
  shows "wp (with_transaction ac claim m) Q w"
  unfolding with_transaction_def with_file_lock_def authorized_def wp_bind
proof (rule wp_mono [OF acquire_law], elim conjE)
  fix lock :: "string fallible" and w1
  assume w1: "silent w w1" "peace w \<longrightarrow> \<not> isl lock"
  have release: "wp (release_lock (AcLockFs ac) l) (\<lambda>u. wp (State_Monad.return (errors_join [e, u])) Q) w2"
    if "\<forall>e' w3. silent w2 w3 \<longrightarrow> (e' = None \<longrightarrow> e = None) \<longrightarrow> (peace w2 \<longrightarrow> e = None \<longrightarrow> e' = None) \<longrightarrow> Q e' w3" for l e w2
    unfolding wp_return by (rule wp_mono [OF release_law], rule that [rule_format]) auto
  show "wp (case lock of Inl e \<Rightarrow> State_Monad.return (Some e)
      | Inr l \<Rightarrow> Prelude.check (authorize_root_locked ac claim) m \<bind> (\<lambda>e. release_lock (AcLockFs ac) l \<bind>
          (\<lambda>u. State_Monad.return (errors_join [e, u])))) Q w1"
  proof (cases lock)
    case (Inl e)
    then show ?thesis
      using w1 refused by (simp add: wp_return)
  next
    case (Inr l)
    show ?thesis
      unfolding Inr sum.case wp_bind wp_check
    proof (rule wp_mono [OF authorize_law], elim conjE)
      fix unauthorized :: "gerror option" and w2
      assume w2: "silent w1 w2" "peace w1 \<longrightarrow> unauthorized = None"
      have s: "silent w w2"
        using silent_trans [OF w1(1) w2(1)] .
      show "case unauthorized of
          None \<Rightarrow> wp m (\<lambda>e. wp (release_lock (AcLockFs ac) l) (\<lambda>u. wp (State_Monad.return (errors_join [e, u])) Q)) w2
        | Some e \<Rightarrow> wp (release_lock (AcLockFs ac) l) (\<lambda>u. wp (State_Monad.return (errors_join [Some e, u])) Q) w2"
      proof (cases unauthorized)
        case None
        show ?thesis
          unfolding None option.case by (rule wp_mono [OF callback [OF s]]) (rule release)
      next
        case (Some e)
        then have p: "\<not> peace w"
          using w1 w2 by (auto simp: silent_def off_resolver_def aside_def)
        have "\<forall>e' w3. silent w2 w3 \<longrightarrow> (e' = None \<longrightarrow> Some e = None) \<longrightarrow> (peace w2 \<longrightarrow> Some e = None \<longrightarrow> e' = None) \<longrightarrow> Q e' w3"
        proof (intro allI impI)
          fix e' :: "gerror option" and w3
          assume w3: "silent w2 w3" "e' = None \<longrightarrow> Some e = None"
          then obtain x where "e' = Some x"
            by (cases e') auto
          then show "Q e' w3"
            using refused [OF silent_trans [OF s w3(1)] p] by simp
        qed
        then show ?thesis
          unfolding Some option.case by (rule release)
      qed
    qed
  qed
qed

lemma deactivate_wp:
  assumes "recoverable w"
  shows "wp (deactivate_gateway ac prepared) (\<lambda>e w'. recoverable w' \<and>
    (e = None \<longrightarrow> relieved w' \<and> forgotten w' \<and> (clean w' \<or> unowned w)) \<and> (easy w \<and> AcLast ac w \<noteq> None \<longrightarrow> e = None)) w"
    (is "wp _ ?goal w")
proof -
  have ok: "ok w"
    using assms by (simp add: recoverable_def)
  have work: "wp (with_transaction ac False (deactivate_gateway_locked ac prepared)) ?goal w1" if w1: "still w w1" for w1
  proof (rule transaction_wp)
    have off1: "off_resolver w w1"
      using still_silent [OF w1] by (rule silent_off)
    have rec1: "recoverable w1" and easy1: "easy w \<Longrightarrow> easy w1"
      using off_keeps(2) [OF off1 assms] off_easy [OF off1 ok] by simp_all
    show "?goal (Some e) w2" if "silent w1 w2" "\<not> peace w1" for e w2
      using off_keeps(2) [OF silent_off [OF that(1)] rec1] w1 that(2) by (simp add: easy_def still_def same_view_def)
    show "wp (deactivate_gateway_locked ac prepared) (\<lambda>e w3. \<forall>e' w4. silent w3 w4 \<longrightarrow> (e' = None \<longrightarrow> e = None) \<longrightarrow>
        (peace w3 \<longrightarrow> e = None \<longrightarrow> e' = None) \<longrightarrow> ?goal e' w4) w2" if w2: "silent w1 w2" for w2
    proof (rule wp_mono [OF deactivate_locked_wp], rule off_keeps(2) [OF silent_off [OF w2] rec1], elim conjE, intro allI impI)
      fix e e' :: "gerror option" and w3 w4
      assume w3: "recoverable w3" "e = None \<longrightarrow> undone w3" "easy w2 \<longrightarrow> peace w3" "easy w2 \<and> AcLast ac w2 \<noteq> None \<longrightarrow> e = None"
        and w4: "silent w3 w4" "e' = None \<longrightarrow> e = None" "peace w3 \<longrightarrow> e = None \<longrightarrow> e' = None"
      have kept: "easy w \<Longrightarrow> easy w2" "AcLast ac w = AcLast ac w2"
        using easy1 off_easy [OF silent_off [OF w2]] rec1 w1 w2
        by (auto simp: recoverable_def still_def same_view_def silent_def off_resolver_def aside_def)
      have "relieved w4 \<and> forgotten w4 \<and> clean w4" if "e' = None"
        using that w3 w4 off_relieved [OF silent_off [OF w4(1)]] steady_content [of w3 w4] named
        by (auto simp: undone_def forgotten_def silent_def off_resolver_def aside_def recoverable_def)
      then show "?goal e' w4"
        unfolding kept(2) using kept(1) w3 w4 off_keeps(2) [OF silent_off [OF w4(1)]] by blast
    qed
  qed
  have idle: "wp (put_last ac None \<bind> (\<lambda>_. State_Monad.return None)) ?goal w1" if w1: "still w w1" "unowned w" for w1
  proof -
    have off1: "off_resolver w w1"
      using still_silent [OF w1(1)] by (rule silent_off)
    have "relieved w"
      using assms w1(2) by (auto simp: recoverable_def relieved_def unowned_def noted_def)
    then have rel1: "relieved w1"
      by (rule off_relieved [OF off1])
    have gone: "content w1 active_gateway_path = None"
      using still_same [OF w1(1) ok named(2)] w1(2) by (simp add: unowned_def forgotten_def)
    show ?thesis
      unfolding wp_bind wp_return
    proof (rule put_last_wp)
      show "ok w1"
        using rel1 by (simp add: relieved_def)
      fix w2
      assume w2: "steady w1 w2" "fit w2 = fit w1" "user w2 = user w1" "AcLast ac w2 = None"
      then have "relieved w2" "forgotten w2"
        using steady_keeps(3) [OF w2(1-3)] rel1 gone steady_content [OF w2(1) named(2)] by (simp_all add: forgotten_def)
      then show "?goal None w2"
        using relieved_recoverable w1(2) by blast
    qed
  qed
  show ?thesis
    unfolding deactivate_gateway_def wp_bind
  proof (rule wp_mono [OF wp_within [OF queries_still(1)]])
    fix enabled :: "bool fallible" and w1
    assume w1: "still w w1"
    then have ok1: "ok w1"
      using ok steady_ok by (auto simp: still_def)
    have unowned1: "unowned w1 = unowned w"
      by (rule silent_unowned [OF still_silent [OF w1] ok])
    show "wp (if enabled = Inr False then has_gateway_ownership ac else State_Monad.return True) (\<lambda>owned.
        wp (if \<not> owned then put_last ac None \<bind> (\<lambda>_. State_Monad.return None)
          else with_transaction ac False (deactivate_gateway_locked ac prepared)) ?goal) w1"
    proof (cases "enabled = Inr False")
      case True
      have "wp (has_gateway_ownership ac) (\<lambda>owned. wp (if \<not> owned then put_last ac None \<bind> (\<lambda>_. State_Monad.return None)
          else with_transaction ac False (deactivate_gateway_locked ac prepared)) ?goal) w1"
      proof (rule wp_mono [OF ownership_wp [OF ok1]], elim conjE)
        fix owned w2
        assume w2: "still w1 w2" "\<not> owned \<longrightarrow> unowned w1"
        have s: "still w w2"
          using still_trans [OF w1 w2(1)] .
        show "wp (if \<not> owned then put_last ac None \<bind> (\<lambda>_. State_Monad.return None)
          else with_transaction ac False (deactivate_gateway_locked ac prepared)) ?goal w2"
          using work [OF s] idle [OF s] w2(2) unowned1 by (cases owned) auto
      qed
      then show ?thesis
        by (simp add: True)
    qed (use work [OF w1] in \<open>simp add: wp_return\<close>)
  qed
qed

section \<open>The other operations\<close>

lemma rollback_wp:
  assumes "backed w"
  shows "wp (rollback_gateway_locked ac p saved) (\<lambda>_ w'. recoverable w') w"
  unfolding rollback_gateway_locked_def wp_bind
proof (rule wp_mono [OF restore_and_forget_wp [OF assms]])
  fix e w1
  assume "restored w e w1"
  then have "recoverable w1"
    by (simp add: restored_def)
  then show "wp (GwCleanup (AcGateway ac) RollbackContext p) (\<lambda>g. wp (forget_generation ac (errors_join [g, e])) (\<lambda>_ w'. recoverable w')) w1"
    by (intro wp_mono [OF recoverable_wp [OF kept_within(2) [OF controllers_off(4)]]]) (auto intro: wp_mono [OF forget_wp])
qed

lemma or_rollback_wp:
  assumes "backed w" and "world_within (\<lambda>w w'. backed w \<longrightarrow> backed w') m"
    and "\<And>w1. backed w1 \<Longrightarrow> wp k (\<lambda>_ w'. recoverable w') w1"
  shows "wp (or_rollback ac p saved m k) (\<lambda>_ w'. recoverable w') w"
  unfolding or_rollback_def wp_bind
proof (rule wp_mono [OF wp_within [OF assms(2)]])
  fix failed :: "gerror option" and w1
  assume "backed w \<longrightarrow> backed w1"
  then show "wp (case failed of None \<Rightarrow> k | Some e \<Rightarrow> rollback_gateway_locked ac p saved \<bind>
      (\<lambda>undone. State_Monad.return (errors_join [Some e, undone]))) (\<lambda>_ w'. recoverable w') w1"
    using assms(1,3) rollback_wp by (cases failed) (simp_all add: wp_bind wp_return)
qed

lemma reconcile_tail_keeps [frame_rules]:
  "world_within (\<lambda>w w'. recoverable w \<longrightarrow> recoverable w') (ensure_dns_backup ac \<bind> (\<lambda>backed_up. case backed_up of
       Inl e \<Rightarrow> State_Monad.return (Some e)
     | Inr (b, _) \<Rightarrow>
         or_rollback ac p b (GwApply (AcGateway ac) CallerContext p)
        (or_rollback ac p b (DcApply (AcDns ac) CallerContext p b)
        (put_last ac (Some p) \<bind> (\<lambda>_. State_Monad.return None)))))"
proof (rule within_if, unfold wp_bind, rule wp_mono [OF ensure_backup_wp], assumption, elim conjE)
  fix backed_up :: "(dns_backup \<times> bool) fallible" and w
  assume r: "recoverable w" "\<forall>b new. backed_up = Inr (b, new) \<longrightarrow> b = saved \<and> backed w"
  have finish: "wp (put_last ac (Some p) \<bind> (\<lambda>_. State_Monad.return None)) (\<lambda>_ w'. recoverable w') w1" if "backed w1" for w1
    by (rule recoverable_wp [OF _ backed_recoverable [OF that]]) (intro frame_rules)
  show "wp (case backed_up of
       Inl e \<Rightarrow> State_Monad.return (Some e)
     | Inr (b, _) \<Rightarrow>
         or_rollback ac p b (GwApply (AcGateway ac) CallerContext p)
        (or_rollback ac p b (DcApply (AcDns ac) CallerContext p b)
        (put_last ac (Some p) \<bind> (\<lambda>_. State_Monad.return None)))) (\<lambda>_ w'. recoverable w') w"
  proof (cases backed_up)
    case (Inr bn)
    then obtain new where bn: "bn = (saved, new)" "backed w"
      using r(2) by (cases bn) auto
    show ?thesis
      unfolding Inr bn(1) sum.case prod.case
      by (intro or_rollback_wp bn(2) finish frame_rules)
  qed (use r in \<open>simp add: wp_return\<close>)
qed

lemma reconcile_keeps: "world_within (\<lambda>w w'. recoverable w \<longrightarrow> recoverable w') (reconcile_gateway ac)"
  unfolding reconcile_gateway_def reconcile_gateway_locked_def
  by (intro transaction_keeps recoverable.framed_bind [OF kept_leaves(10)] recoverable.framed_bind recoverable.framed_sum
      recoverable.framed_return reconcile_tail_keeps kept_leaves)

lemma refresh_keeps: "world_within (\<lambda>w w'. recoverable w \<longrightarrow> recoverable w') (refresh_dynamic_capture ac destinations endpoints)"
  unfolding refresh_dynamic_capture_def refresh_capture_locked_def by (intro frame_rules)

lemma deactivate_keeps: "world_within (\<lambda>w w'. recoverable w \<longrightarrow> recoverable w') (deactivate_gateway ac prepared)"
  by (rule within_if, rule wp_mono [OF deactivate_wp]) simp_all

lemma calls_keep: "recoverable w \<Longrightarrow> wp (gateway_calls ac cs) (\<lambda>_ w'. recoverable w') w"
proof (rule recoverable_wp)
  have "world_within (\<lambda>w w'. recoverable w \<longrightarrow> recoverable w') (gateway_call ac c)" for c
    unfolding gateway_call_def
    by (cases c) (auto intro!: recoverable.framed_bind activate_keeps deactivate_keeps reconcile_keeps refresh_keeps
        kept_within(2) [OF diagnose_off] recoverable.framed_return)
  then show "world_within (\<lambda>w w'. recoverable w \<longrightarrow> recoverable w') (gateway_calls ac cs)"
    by (induction cs) (auto intro!: frame_rules)
qed

end

end
