(* ===== verification/Activation_Machine.thy ===== *)
theory Activation_Machine
  imports Activation_Contract State_Directory Dns_Restore
begin

text \<open>
  The activation on a whole router: the data root on a disk, the lock root on another one (a router
  keeps \<^verbatim>\<open>/var/run\<close> in memory), the dnsmasq machine with its faults, and the rest of the router, which
  the gateway controller changes. The contract of \<open>Activation_Contract\<close> holds there.
\<close>

section \<open>Trees in the words of the machine\<close>

text \<open>Directories are directories or absent, files are regular or absent; nothing will fail.\<close>

definition tidy :: "string list \<Rightarrow> string set \<Rightarrow> 'r machine \<Rightarrow> bool" where
  "tidy rs ns m \<longleftrightarrow> (\<forall>n \<in> ns. let p = place rs n in
     (\<forall>d \<in> set (ancestors (dir p)). Nodes m d = None \<or> Nodes m d = Some Folder) \<and>
     (Nodes m p = None \<or> (\<exists>s mode. Nodes m p = Some (File s mode) \<and> Nodes m (dir p) = Some Folder)))"

definition reliable :: "string list \<Rightarrow> string set \<Rightarrow> 'r machine \<Rightarrow> bool" where
  "reliable rs ns m \<longleftrightarrow> clear m \<and> (\<forall>n \<in> ns. \<forall>k \<ge> Asked m.
     Nodes m (temp_name (dir (place rs n)) ''.boxctl-state-*'' (dec (Suffix m k))) = None)"

context state_tree
begin

lemma folder_ancestors: "folder p \<longleftrightarrow> (\<exists>n \<in> files. p \<in> set (ancestors (dir (place rs n))))"
proof
  assume "folder p"
  then obtain n xs where n: "n \<in> files" "prefix xs (parts n)" "p = abs_path xs"
    by (auto simp: folder_def)
  then have "xs = take (length xs) (parts n)" "length xs \<in> set [0..<Suc (length (parts n))]"
    by (auto simp: prefix_def)
  then have "p \<in> (\<lambda>k. abs_path (take k (parts n))) ` set [0..<Suc (length (parts n))]"
    using n(3) by (metis image_eqI)
  then have "p \<in> set (ancestors (dir (place rs n)))"
    using n(1) proper_parts [OF n(1)] by (simp add: ancestors_def del: upt_Suc)
  then show "\<exists>n \<in> files. p \<in> set (ancestors (dir (place rs n)))"
    using n(1) by auto
next
  assume "\<exists>n \<in> files. p \<in> set (ancestors (dir (place rs n)))"
  then show "folder p"
    using ancestors_folders [of _ p] by auto
qed

lemma ok_tidy: "ok m = tidy rs files m"
  unfolding ok_def tree_ok_def folder_ancestors tidy_def Let_def by blast

lemma smooth_reliable: "smooth m = reliable rs files m"
  by (simp add: smooth_def unused_def reliable_def spare_def)

end

section \<open>The router as a world\<close>

record 'g dataplane =
  DpRouter :: "'g router"
  DpLocks :: "unit machine"
  DpLast :: "gateway_plan option"

type_synonym 'g world = "'g dataplane machine"

definition router_of :: "'g world \<Rightarrow> 'g router" where "router_of m = DpRouter (Runtime m)"

definition put_router :: "'g router \<Rightarrow> 'g world \<Rightarrow> 'g world" where
  "put_router r m = m\<lparr>Runtime := (Runtime m)\<lparr>DpRouter := r\<rparr>\<rparr>"

definition locks_of :: "'g world \<Rightarrow> unit machine" where "locks_of m = DpLocks (Runtime m)"

definition put_locks :: "unit machine \<Rightarrow> 'g world \<Rightarrow> 'g world" where
  "put_locks l m = m\<lparr>Runtime := (Runtime m)\<lparr>DpLocks := l\<rparr>\<rparr>"

definition lock_disk :: "'g world fs" where "lock_disk r = zoom locks_of put_locks (disk r)"

definition dns_runner :: "'g world runner" where "dns_runner c = zoom router_of put_router (router_run c)"

text \<open>The gateway controller and its commands work on the rest of the router.\<close>

definition beyond_of :: "'g world \<Rightarrow> 'g" where "beyond_of m = Beyond (router_of m)"

definition put_beyond :: "'g \<Rightarrow> 'g world \<Rightarrow> 'g world" where
  "put_beyond g m = put_router ((router_of m)\<lparr>Beyond := g\<rparr>) m"

definition gateway_beyond :: "'g gateway_controller \<Rightarrow> 'g world gateway_controller" where
  "gateway_beyond gw = \<lparr>
     GwDetect = (\<lambda>ctx. zoom beyond_of put_beyond (GwDetect gw ctx)),
     GwApply = (\<lambda>ctx p. zoom beyond_of put_beyond (GwApply gw ctx p)),
     GwCleanup = (\<lambda>ctx p. zoom beyond_of put_beyond (GwCleanup gw ctx p)),
     GwCheck = (\<lambda>ctx p. zoom beyond_of put_beyond (GwCheck gw ctx p))\<rparr>"

text \<open>The activation with its two roots, which are absolute and clean already.\<close>

definition on_router ::
  "state_root \<Rightarrow> state_root \<Rightarrow> nat \<Rightarrow> activation_json \<Rightarrow> 'g gateway_controller \<Rightarrow> 'g world activation" where
  "on_router r l polls js gw = \<lparr>AcLayout = layout_at (root_path r), AcFs = disk, AcRoot = root_path r, AcLockFs = lock_disk,
     AcLockRoot = root_path l, AcPolls = polls, AcAbsolute = Inr, AcJson = js, AcGateway = gateway_beyond gw,
     AcDns = dns_manager_controller (\<lambda>_. dns_runner) new_dns_manager,
     AcLast = (\<lambda>m. DpLast (Runtime m)), AcPutLast = (\<lambda>p m. m\<lparr>Runtime := (Runtime m)\<lparr>DpLast := p\<rparr>\<rparr>)\<rparr>"

lemma root_path_clean [simp]: "root_path r \<noteq> []" "is_abs (root_path r)" "clean (root_path r) = root_path r"
  by (simp_all add: root_path_def) (simp add: abs_path_def)

lemma on_router_constructed:
  "new_openwrt_activation disk lock_disk Inr js (gateway_beyond gw) (dns_manager_controller (\<lambda>_. dns_runner) new_dns_manager)
     (\<lambda>m. DpLast (Runtime m)) (\<lambda>p m. m\<lparr>Runtime := (Runtime m)\<lparr>DpLast := p\<rparr>\<rparr>) polls (root_path r) (root_path l) =
   Inr (on_router r l polls js gw)"
  by (simp add: new_openwrt_activation_def new_layout_def new_store_def on_router_def and_then_def layout_at_def Let_def)

lemma on_router_fields [simp]:
  "AcLayout (on_router r l polls js gw) = layout_at (root_path r)" "AcFs (on_router r l polls js gw) = disk"
  "AcRoot (on_router r l polls js gw) = root_path r" "AcLockFs (on_router r l polls js gw) = lock_disk"
  "AcLockRoot (on_router r l polls js gw) = root_path l" "AcPolls (on_router r l polls js gw) = polls"
  "AcAbsolute (on_router r l polls js gw) = Inr" "AcJson (on_router r l polls js gw) = js"
  "AcGateway (on_router r l polls js gw) = gateway_beyond gw"
  "AcDns (on_router r l polls js gw) = dns_manager_controller (\<lambda>_. dns_runner) new_dns_manager"
  "AcLast (on_router r l polls js gw) m = DpLast (Runtime m)"
  "AcPutLast (on_router r l polls js gw) p m = m\<lparr>Runtime := (Runtime m)\<lparr>DpLast := p\<rparr>\<rparr>"
  by (simp_all add: on_router_def)

interpretation router: lens router_of put_router
  by unfold_locales (simp_all add: router_of_def put_router_def)

interpretation locks: lens locks_of put_locks
  by unfold_locales (simp_all add: locks_of_def put_locks_def)

interpretation beyond: lens beyond_of put_beyond
  by unfold_locales (simp_all add: beyond_of_def put_beyond_def)

lemma lock_disk_zoom: "lock_disk = locks.zoom_fs disk"
  by (simp add: fun_eq_iff lock_disk_def locks.zoom_fs_def)

section \<open>The two trees\<close>

definition activation_files :: "string set" where
  "activation_files = {settings_file, active_gateway_path, dns_backup_file}"

definition lock_files :: "string set" where "lock_files = {owner_path, ''locks/gateway-dns.lock''}"

lemma gateway_lock_name: "lock_name gateway_lock = ''locks/gateway-dns.lock''"
  by code_simp

lemma split_activation_names:
  "split_on slash settings_file = [''.boxctl'', ''settings'']"
  "split_on slash active_gateway_path = [''.boxctl'', ''active-gateway.json'']"
  "split_on slash dns_backup_file = [''.boxctl'', ''dns-backup.json'']"
  "split_on slash owner_path = [''openwrt-owner.json'']"
  "split_on slash ''locks/gateway-dns.lock'' = [''locks'', ''gateway-dns.lock'']"
  by (simp_all add: settings_file_def active_gateway_path_def dns_backup_file_def owner_path_def)

lemma proper_names: "proper ''.boxctl''" "proper ''settings''" "proper ''active-gateway.json''" "proper ''dns-backup.json''"
  "proper ''openwrt-owner.json''" "proper ''locks''" "proper ''gateway-dns.lock''"
  by (simp_all add: proper_def dot_def dotdot_def)

interpretation data_dir: state_tree "root_elements r" activation_files "{}" for r
  by unfold_locales (auto simp: activation_files_def proper_name_def split_activation_names proper_names temp_start_def strict_prefix_def)

interpretation lock_dir: state_tree "root_elements r" "{owner_path}" "{gateway_lock}" for r
  by unfold_locales (auto simp: proper_name_def gateway_lock_name split_activation_names proper_names temp_start_def
      strict_prefix_def owner_path_def)

lemma tree_files: "data_dir.files = activation_files" "lock_dir.files = lock_files"
  by (auto simp: data_dir.files_def lock_dir.files_def lock_files_def gateway_lock_name)

lemma data_content: "data_dir.content r = file_of r" and lock_content: "lock_dir.content r = file_of r"
  by (intro ext, simp add: data_dir.content_def data_dir.held_def lock_dir.content_def lock_dir.held_def file_of_def)+

section \<open>What is looked at\<close>

text \<open>The record of the owner is missing or names this root, and the lock root will not fail.\<close>

definition own_record :: "state_root \<Rightarrow> owner_state" where
  "own_record r = \<lparr>OwnerVersion = 1, OwnerRoot = root_path r\<rparr>"

definition own_locks :: "activation_json \<Rightarrow> state_root \<Rightarrow> state_root \<Rightarrow> unit machine \<Rightarrow> bool" where
  "own_locks js r l x \<longleftrightarrow> tidy (root_elements l) lock_files x \<and> reliable (root_elements l) lock_files x \<and>
     (\<exists>t. EncodeOwner js (own_record r) = Inr t \<and> DecodeOwner js (t @ [CHR 0x0A]) = Inr (own_record r, False)) \<and>
     (case file_of l x owner_path of None \<Rightarrow> True
      | Some t \<Rightarrow> decoded_whole ''OpenWrt owner state'' (DecodeOwner js t) = Inr (own_record r))"

text \<open>What a controller may do to its part of the router, and a controller whose cleanup never fails again.\<close>

inductive gateway_steps :: "'g gateway_controller \<Rightarrow> 'g \<Rightarrow> 'g \<Rightarrow> bool" for gw :: "'g gateway_controller" where
  no_step: "gateway_steps gw g g"
| detect_step: "gateway_steps gw g g' \<Longrightarrow> gateway_steps gw g (snd (run_state (GwDetect gw ctx) g'))"
| apply_step: "gateway_steps gw g g' \<Longrightarrow> gateway_steps gw g (snd (run_state (GwApply gw ctx p) g'))"
| check_step: "gateway_steps gw g g' \<Longrightarrow> gateway_steps gw g (snd (run_state (GwCheck gw ctx p) g'))"
| cleanup_step: "gateway_steps gw g g' \<Longrightarrow> gateway_steps gw g (snd (run_state (GwCleanup gw ctx p) g'))"

definition willing :: "'g gateway_controller \<Rightarrow> 'g \<Rightarrow> bool" where
  "willing gw g \<longleftrightarrow> (\<forall>g' ctx p. gateway_steps gw g g' \<longrightarrow> fst (run_state (GwCleanup gw ctx p) g') = None)"

text \<open>The state in which a cleanup that reported no error has left the rest of the router.\<close>

definition cleaned :: "'g gateway_controller \<Rightarrow> 'g \<Rightarrow> bool" where
  "cleaned gw g \<longleftrightarrow> (\<exists>ctx p g0. run_state (GwCleanup gw ctx p) g0 = (None, g))"

definition peaceful :: "activation_json \<Rightarrow> state_root \<Rightarrow> state_root \<Rightarrow> 'g gateway_controller \<Rightarrow> 'g world \<Rightarrow> bool" where
  "peaceful js r l gw m \<longleftrightarrow> own_locks js r l (locks_of m) \<and> router_calm (router_of m) \<and> willing gw (beyond_of m)"

text \<open>What \<open>json\<close> owes: a backup of the options that could be encoded is decoded with nothing behind it.\<close>

definition backup_coded :: "activation_json \<Rightarrow> 'g router \<Rightarrow> bool" where
  "backup_coded js r0 \<longleftrightarrow> (\<forall>t. EncodeBackup js (dns_snapshot r0) = Inr t \<longrightarrow>
     DecodeBackup js (t @ [CHR 0x0A]) = Inr (dns_snapshot r0, False))"

definition fit_router :: "activation_json \<Rightarrow> 'g router \<Rightarrow> 'g world \<Rightarrow> bool" where
  "fit_router js r0 m \<longleftrightarrow> kept r0 \<and> backup_coded js r0 \<and> dns_touched r0 ((router_of m)\<lparr>Beyond := Beyond r0\<rparr>)"

definition user_router :: "'g router \<Rightarrow> 'g world \<Rightarrow> bool" where
  "user_router r0 m \<longleftrightarrow> map_of (Shown (router_of m)) = map_of (Shown r0) \<and>
     (Serving (router_of m) = Serving r0 \<or> Serving (router_of m) = map_of (Shown r0))"

lemma parts_apart [simp]:
  "router_of (put_locks x m) = router_of m" "beyond_of (put_locks x m) = beyond_of m"
  "locks_of (put_router y m) = locks_of m" "locks_of (put_beyond g m) = locks_of m"
  "router_of (put_beyond g m) = (router_of m)\<lparr>Beyond := g\<rparr>" "beyond_of (put_router y m) = Beyond y"
  "DpLast (Runtime (put_locks x m)) = DpLast (Runtime m)" "DpLast (Runtime (put_router y m)) = DpLast (Runtime m)"
  "DpLast (Runtime (put_beyond g m)) = DpLast (Runtime m)"
  "router_of (m\<lparr>Runtime := (Runtime m)\<lparr>DpLast := q\<rparr>\<rparr>) = router_of m" "locks_of (m\<lparr>Runtime := (Runtime m)\<lparr>DpLast := q\<rparr>\<rparr>) = locks_of m"
  "beyond_of (m\<lparr>Runtime := (Runtime m)\<lparr>DpLast := q\<rparr>\<rparr>) = beyond_of m"
  by (simp_all add: router_of_def put_router_def locks_of_def put_locks_def beyond_of_def put_beyond_def)

lemma runtime_apart [simp]:
  "tidy rs ns (put_locks x m) = tidy rs ns m" "reliable rs ns (put_locks x m) = reliable rs ns m" "file_of r (put_locks x m) = file_of r m"
  "tidy rs ns (put_router y m) = tidy rs ns m" "reliable rs ns (put_router y m) = reliable rs ns m" "file_of r (put_router y m) = file_of r m"
  "tidy rs ns (put_beyond g m) = tidy rs ns m" "reliable rs ns (put_beyond g m) = reliable rs ns m" "file_of r (put_beyond g m) = file_of r m"
  "tidy rs ns (m\<lparr>Runtime := z\<rparr>) = tidy rs ns m" "reliable rs ns (m\<lparr>Runtime := z\<rparr>) = reliable rs ns m"
  "file_of r (m\<lparr>Runtime := z\<rparr>) = file_of r m"
  by (simp_all add: tidy_def reliable_def clear_def file_of_def fun_eq_iff put_locks_def put_router_def put_beyond_def Let_def)

section \<open>The contract of the two roots\<close>

lemma data_view: "data_dir.ok r = tidy (root_elements r) activation_files" "data_dir.smooth r = reliable (root_elements r) activation_files"
  by (simp_all add: fun_eq_iff data_dir.ok_tidy data_dir.smooth_reliable tree_files)

lemma lock_view: "lock_dir.ok l = tidy (root_elements l) lock_files" "lock_dir.smooth l = reliable (root_elements l) lock_files"
  by (simp_all add: fun_eq_iff lock_dir.ok_tidy lock_dir.smooth_reliable tree_files)

interpretation data: durable_store activation_files "file_of r" "tidy (root_elements r) activation_files"
    "reliable (root_elements r) activation_files" disk "root_elements r" "{}" for r
  unfolding data_view [symmetric] data_content [symmetric] by (rule data_dir.durable_store_axioms)

interpretation lock_root: durable_store "{owner_path}" "\<lambda>m. file_of l (locks_of m)" "\<lambda>m. tidy (root_elements l) lock_files (locks_of m)"
    "\<lambda>m. reliable (root_elements l) lock_files (locks_of m)" lock_disk "root_elements l" "{gateway_lock}" for l
  unfolding lock_disk_zoom lock_view [symmetric] lock_content [symmetric]
  by (rule locks.durable_zoom [OF lock_dir.durable_store_axioms])

section \<open>The lock root\<close>

interpretation view: gateway_view activation_files "file_of r" "tidy (root_elements r) activation_files"
    "reliable (root_elements r) activation_files" "on_router r l polls js gw" "fit_router js r0" "user_router r0"
    "\<lambda>m. cleaned gw (beyond_of m)" "peaceful js r l gw" for r l polls js gw r0 .

interpretation lock_frame: fs_frame "\<lambda>m m'. \<exists>x. m' = put_locks x m" lock_disk
proof
  show "\<exists>x. w = put_locks x w" for w
    using locks.put_get [of w, symmetric] by blast
  show "world_within (\<lambda>m m'. \<exists>x. m' = put_locks x m) (lock_disk r)" for r
    unfolding world_within_def lock_disk_def wp_zoom by (auto simp: wp_def split: prod.split)
qed auto

lemma locks_silent:
  assumes "world_within (\<lambda>m m'. \<exists>x. m' = put_locks x m) prog"
    and "own_locks js r l (locks_of m) \<Longrightarrow> wp prog (\<lambda>a m'. own_locks js r l (locks_of m') \<and> good a) m"
  shows "wp prog (\<lambda>a m'. view.silent r l polls js gw r0 m m' \<and> (peaceful js r l gw m \<longrightarrow> good a)) m"
proof (rule wpI)
  fix a m'
  assume run: "run_state prog m = (a, m')"
  obtain x where x: "m' = put_locks x m"
    using wp_run [OF assms(1) [unfolded world_within_def, rule_format] run] by blast
  have "own_locks js r l (locks_of m) \<longrightarrow> own_locks js r l (locks_of m') \<and> good a"
    using wp_run [OF assms(2) run] by blast
  then show "view.silent r l polls js gw r0 m m' \<and> (peaceful js r l gw m \<longrightarrow> good a)"
    by (auto simp: x view.silent_def view.off_resolver_def view.aside_def data.steady_def peaceful_def
        fit_router_def user_router_def)
qed

lemma own_locks_steady: "lock_root.steady l m m' \<Longrightarrow> own_locks js r l (locks_of m) \<Longrightarrow> own_locks js r l (locks_of m')"
  by (simp add: own_locks_def lock_root.steady_def)

lemma acquire_silent:
  "wp (acquire_lock lock_disk (root_path l) gateway_lock polls) (\<lambda>a m'. view.silent r l polls' js gw r0 m m' \<and>
     (peaceful js r l gw m \<longrightarrow> \<not> isl a)) m"
  by (rule locks_silent [OF lock_frame.framed_acquire], rule wp_mono [OF lock_root.lock_law [of l, folded root_path_def]])
    (auto simp: own_locks_def lock_root.steady_def)

lemma release_silent:
  "wp (release_lock lock_disk p) (\<lambda>e m'. view.silent r l polls js gw r0 m m' \<and> (peaceful js r l gw m \<longrightarrow> e = None)) m"
  by (rule locks_silent [OF lock_frame.framed_release], rule wp_mono [OF lock_root.unlock_law [of l]])
    (auto simp: own_locks_def lock_root.steady_def)

lemma own_root: "canonical_owner_root (on_router r l polls js gw) (root_path r) = Inr (root_path r)"
  by (simp add: canonical_owner_root_def new_store_def)

lemma own_record_checked: "checked_owner (on_router r l polls js gw) (own_record r) = Inr (own_record r)"
  by (simp add: checked_owner_def own_record_def own_root)

lemma load_owner_owned:
  assumes "own_locks js r l (locks_of m)"
  shows "wp (load_owner_state (on_router r l polls js gw)) (\<lambda>a m'. lock_root.steady l m m' \<and>
    (a = Inr (own_record r) \<or> (\<exists>e. a = Inl e \<and> absent e))) m"
  unfolding load_owner_state_def on_router_fields wp_attempt wp_return root_path_def
proof (rule lock_root.store_read_wp)
  show "case a of Inl e \<Rightarrow> lock_root.steady l m m1 \<and> ((Inl e :: owner_state fallible) = Inr (own_record r) \<or>
        (\<exists>e'. (Inl e :: owner_state fallible) = Inl e' \<and> absent e'))
    | Inr t \<Rightarrow> lock_root.steady l m m1 \<and> (and_then (decoded_whole ''OpenWrt owner state'' (DecodeOwner js t))
        (checked_owner (on_router r l polls js gw)) = Inr (own_record r) \<or>
        (\<exists>e. and_then (decoded_whole ''OpenWrt owner state'' (DecodeOwner js t)) (checked_owner (on_router r l polls js gw)) = Inl e \<and> absent e))"
    if "lock_root.steady l m m1" "lock_root.got l m owner_path a" for a m1
    using that assms by (auto simp: own_locks_def lock_root.got_def and_then_def own_record_checked split: sum.split)
qed (use assms in \<open>simp_all add: own_locks_def\<close>)

lemma authorize_owned:
  assumes "own_locks js r l (locks_of m)"
  shows "wp (authorize_root_locked (on_router r l polls js gw) claim) (\<lambda>e m'. own_locks js r l (locks_of m') \<and> e = None) m"
proof -
  obtain t where t: "EncodeOwner js (own_record r) = Inr t" "DecodeOwner js (t @ [CHR 0x0A]) = Inr (own_record r, False)"
    using assms by (auto simp: own_locks_def)
  have claim: "wp (write_json lock_disk (root_path l) owner_path (EncodeOwner js (own_record r)) 384)
      (\<lambda>e m'. own_locks js r l (locks_of m') \<and> e = None) m1" if "own_locks js r l (locks_of m1)" for m1
    unfolding write_json_def t(1) sum.case root_path_def
  proof (rule lock_root.store_write_wp)
    fix e :: "gerror option" and m2
    assume m2: "lock_root.put l owner_path (Some (t @ [CHR 0x0A])) e m1 m2"
      and calm: "reliable (root_elements l) lock_files (locks_of m1) \<Longrightarrow> 0 < (384 :: nat) \<Longrightarrow> (384 :: nat) < 512 \<Longrightarrow> e = None"
    have "e = None"
      using that calm by (simp add: own_locks_def)
    then show "own_locks js r l (locks_of m2) \<and> e = None"
      using that m2 t by (auto simp: own_locks_def lock_root.put_def lock_root.changed_def decoded_whole_def)
  qed (use that in \<open>simp_all add: own_locks_def\<close>)
  show ?thesis
    unfolding authorize_root_locked_def on_router_fields own_root sum.case wp_bind
  proof (rule wp_mono [OF load_owner_owned [OF assms]], elim conjE)
    fix a :: "owner_state fallible" and m1
    assume m1: "lock_root.steady l m m1" "a = Inr (own_record r) \<or> (\<exists>e. a = Inl e \<and> absent e)"
    then have own: "own_locks js r l (locks_of m1)"
      using own_locks_steady assms by blast
    then show "wp (case a of
        Inl e \<Rightarrow> if absent e then (if \<not> claim then State_Monad.return None
            else write_json lock_disk (root_path l) owner_path (EncodeOwner js \<lparr>OwnerVersion = 1, OwnerRoot = root_path r\<rparr>) 384)
          else State_Monad.return (Some e)
      | Inr ow \<Rightarrow> State_Monad.return (if OwnerRoot ow \<noteq> root_path r then Some (foreign_owner_error (OwnerRoot ow)) else None))
      (\<lambda>e m'. own_locks js r l (locks_of m') \<and> e = None) m1"
      using m1(2) claim [OF own] by (auto simp: wp_return own_record_def)
  qed
qed

lemma authorize_silent:
  "wp (authorize_root_locked (on_router r l polls js gw) claim) (\<lambda>e m'. view.silent r l polls' js gw r0 m m' \<and>
     (peaceful js r l gw m \<longrightarrow> e = None)) m"
proof (rule locks_silent)
  show "world_within (\<lambda>m m'. \<exists>x. m' = put_locks x m) (authorize_root_locked (on_router r l polls js gw) claim)"
    unfolding authorize_root_locked_def load_owner_state_def on_router_fields by (intro frame_rules)
qed (rule authorize_owned)

section \<open>The resolver\<close>

lemma zoomed_commands:
  "run_ok dns_runner c = zoom router_of put_router (run_ok router_run c)"
  "run_unit dns_runner c = zoom router_of put_router (run_unit router_run c)"
  by (simp_all add: run_ok_def run_unit_def dns_runner_def router.zoom_simps)

lemma zoomed_backup: "backup_dns dns_runner mgr = zoom router_of put_router (backup_dns router_run mgr)"
  by (simp add: backup_dns_def Let_def zoomed_commands router.zoom_simps cong: option.case_cong)

lemma zoomed_restart: "restart_dnsmasq dns_runner = zoom router_of put_router (restart_dnsmasq router_run)"
  by (simp add: restart_dnsmasq_def zoomed_commands router.zoom_simps)

lemma zoomed_apply_options:
  "apply_options dns_runner mgr w b = zoom router_of put_router (apply_options router_run mgr w b)"
  by (simp add: apply_options_def zoomed_commands zoomed_backup zoomed_restart router.zoom_simps
      cong: sum.case_cong if_cong)

lemma zoomed_dns:
  "apply_dns dns_runner mgr p b = zoom router_of put_router (apply_dns router_run mgr p b)"
  "restore_dns dns_runner mgr b = zoom router_of put_router (restore_dns router_run mgr b)"
  by (simp_all add: apply_dns_def restore_dns_def Let_def zoomed_apply_options router.zoom_simps cong: option.case_cong if_cong)

lemma beyond_apart [simp]: "kept (x\<lparr>Beyond := g\<rparr>) = kept x" "dns_snapshot (x\<lparr>Beyond := g\<rparr>) = dns_snapshot x"
  "router_calm (x\<lparr>Beyond := g\<rparr>) = router_calm x"
  by (simp_all add: kept_def dns_snapshot_def shown_at_def router_calm_def cong: if_cong)

lemma fit_kept: "fit_router js r0 m \<Longrightarrow> kept (router_of m)"
  using dns_touched_kept [of r0 "(router_of m)\<lparr>Beyond := Beyond r0\<rparr>"] by (simp add: fit_router_def)

lemma touched_beyond: "dns_touched (router_of m) x \<Longrightarrow> Beyond x = beyond_of m"
  by (simp add: dns_touched_def beyond_of_def)

lemma touched_fit:
  assumes "fit_router js r0 m" and "dns_touched (router_of m) x"
  shows "fit_router js r0 (put_router x m)" and "view.off_capture r l polls js gw m (put_router x m)"
proof -
  have "dns_touched ((router_of m)\<lparr>Beyond := Beyond r0\<rparr>) (x\<lparr>Beyond := Beyond r0\<rparr>)"
    using assms(2) by (simp add: dns_touched_def)
  then show "fit_router js r0 (put_router x m)"
    using assms(1) dns_touched_trans by (auto simp: fit_router_def)
  show "view.off_capture r l polls js gw m (put_router x m)"
    using dns_touched_calm [OF assms(2)] touched_beyond [OF assms(2)]
    by (simp add: view.off_capture_def view.aside_def data.steady_def peaceful_def)
qed

lemma snapshot_of_user: "user_router r0 m \<Longrightarrow> dns_snapshot (router_of m) = dns_snapshot r0"
  by (simp add: dns_snapshot_def shown_at_def user_router_def cong: if_cong)

lemma user_asked: "user_router r0 (put_router (after_asking (router_of m)) m) = user_router r0 m"
  by (simp add: user_router_def after_asking_def)

lemma backup_router:
  assumes "fit_router js r0 m"
  shows "wp (backup_dns dns_runner new_dns_manager) (\<lambda>a m'. view.off_capture r l polls js gw m m' \<and> fit_router js r0 m' \<and>
    user_router r0 m' = user_router r0 m \<and> (\<forall>b. user_router r0 m \<and> a = Inr b \<longrightarrow> b = dns_snapshot r0)) m"
  unfolding zoomed_backup wp_zoom
  by (rule backup_dns_wp [OF fit_kept [OF assms] default_manager(1)])
    (use assms fit_kept [OF assms] in \<open>simp_all add: touched_fit user_asked snapshot_of_user\<close>)

lemma apply_router:
  assumes "fit_router js r0 m"
  shows "wp (apply_dns dns_runner new_dns_manager p (dns_snapshot r0)) (\<lambda>e m'. view.off_capture r l polls js gw m m' \<and>
    fit_router js r0 m') m"
proof -
  have "wanted_map (BackupOptions (dns_snapshot r0))"
    using assms dns_snapshot_wanted by (auto simp: fit_router_def)
  then show ?thesis
    unfolding zoomed_dns wp_zoom
    by (rule wp_mono [OF dns_call_wp [OF fit_kept [OF assms] _ default_manager(1), where c = "CallApply p",
        unfolded dns_call_def dns_call.case]]) (simp add: touched_fit [OF assms])
qed

lemma restore_router:
  assumes "fit_router js r0 m"
  shows "wp (restore_dns dns_runner new_dns_manager (dns_snapshot r0)) (\<lambda>e m'. view.off_capture r l polls js gw m m' \<and>
    fit_router js r0 m' \<and> (e = None \<longrightarrow> user_router r0 m') \<and> (peaceful js r l gw m \<longrightarrow> e = None)) m"
proof -
  let ?r0 = "r0\<lparr>Beyond := Beyond (router_of m)\<rparr>"
  have "dns_touched ?r0 (router_of m)" "kept ?r0"
    using assms by (simp_all add: fit_router_def dns_touched_def)
  from restore_dns_wp [OF fit_kept [OF assms] this default_manager(1), unfolded beyond_apart] show ?thesis
    unfolding zoomed_dns wp_zoom by (rule wp_mono) (auto simp: touched_fit [OF assms] user_router_def peaceful_def)
qed

section \<open>The rest of the router\<close>

lemma gateway_steps_trans: "gateway_steps gw g g' \<Longrightarrow> gateway_steps gw g' g'' \<Longrightarrow> gateway_steps gw g g''"
proof -
  assume "gateway_steps gw g' g''" and "gateway_steps gw g g'"
  then show ?thesis
    by (induction rule: gateway_steps.induct) (auto intro: gateway_steps.intros)
qed

lemma stepped_off:
  assumes "gateway_steps gw (beyond_of m) g"
  shows "view.off_resolver r l polls js gw r0 m (put_beyond g m)"
proof -
  have "willing gw (beyond_of m) \<Longrightarrow> willing gw g"
    using gateway_steps_trans [OF assms] by (auto simp: willing_def)
  then show ?thesis
    by (simp add: view.off_resolver_def view.aside_def data.steady_def peaceful_def fit_router_def user_router_def)
qed

lemma controllers_step:
  "world_within (view.off_resolver r l polls js gw r0) (GwDetect (gateway_beyond gw) ctx)"
  "world_within (view.off_resolver r l polls js gw r0) (GwApply (gateway_beyond gw) ctx p)"
  "world_within (view.off_resolver r l polls js gw r0) (GwCheck (gateway_beyond gw) ctx p)"
  unfolding world_within_def gateway_beyond_def gateway_controller.simps wp_zoom wp_def
  using gateway_steps.intros(2-4) [OF no_step, of gw, THEN stepped_off] by (simp_all add: zoom_def case_prod_beta)

lemma cleanup_step_wp:
  "wp (GwCleanup (gateway_beyond gw) ctx p) (\<lambda>e m'. view.off_resolver r l polls js gw r0 m m' \<and>
     (e = None \<longrightarrow> cleaned gw (beyond_of m')) \<and> (peaceful js r l gw m \<longrightarrow> e = None)) m"
proof -
  obtain e g where run: "run_state (GwCleanup gw ctx p) (beyond_of m) = (e, g)"
    by fastforce
  then have "view.off_resolver r l polls js gw r0 m (put_beyond g m)"
    using stepped_off cleanup_step [OF no_step, of gw "beyond_of m" ctx p] by fastforce
  moreover have "e = None \<Longrightarrow> cleaned gw g" "willing gw (beyond_of m) \<Longrightarrow> e = None"
    using run no_step [of gw "beyond_of m"] unfolding cleaned_def willing_def by (blast, metis fst_conv)
  ultimately show ?thesis
    by (simp add: gateway_beyond_def wp_zoom) (simp add: wp_def run peaceful_def)
qed

section \<open>The contract\<close>

lemma controller_fields:
  "DcBackup (dns_manager_controller run mgr) ctx = backup_dns (run ctx) mgr" "DcApply (dns_manager_controller run mgr) ctx = apply_dns (run ctx) mgr"
  "DcRestore (dns_manager_controller run mgr) ctx = restore_dns (run ctx) mgr"
  by (simp_all add: dns_manager_controller_def)

lemma activation_names: "settings_file \<in> activation_files" "active_gateway_path \<in> activation_files" "dns_backup_file \<in> activation_files"
  by (simp_all add: activation_files_def)

lemma last_plan_apart:
  "DpLast (Runtime (m\<lparr>Runtime := (Runtime m)\<lparr>DpLast := q\<rparr>\<rparr>)) = q"
  "fit_router js r0 (m\<lparr>Runtime := (Runtime m)\<lparr>DpLast := q\<rparr>\<rparr>) = fit_router js r0 m"
  "user_router r0 (m\<lparr>Runtime := (Runtime m)\<lparr>DpLast := q\<rparr>\<rparr>) = user_router r0 m"
  "cleaned gw (beyond_of (m\<lparr>Runtime := (Runtime m)\<lparr>DpLast := q\<rparr>\<rparr>)) = cleaned gw (beyond_of m)"
  "peaceful js r l gw (m\<lparr>Runtime := (Runtime m)\<lparr>DpLast := q\<rparr>\<rparr>) = peaceful js r l gw m"
  by (simp_all add: fit_router_def user_router_def peaceful_def)

lemma disk_same_view: "world_within (view.same_view r l polls js gw r0) (disk q)"
proof -
  have "Runtime m' = Runtime m" if "run_state (disk q) m = (a, m')" for a and m m' :: "'a world"
    using that by (auto simp: disk_def Let_def split: option.splits prod.splits)
  then have "view.same_view r l polls js gw r0 m m'" if run: "run_state (disk q) m = (a, m')" for a m m'
  proof -
    assume same: "\<And>m a m'. run_state (disk q) (m :: 'a world) = (a, m') \<Longrightarrow> Runtime m' = Runtime m"
    have parts: "router_of m' = router_of m" "locks_of m' = locks_of m" "beyond_of m' = beyond_of m" "DpLast (Runtime m') = DpLast (Runtime m)"
      by (simp_all add: router_of_def locks_of_def beyond_of_def same [OF run])
    show ?thesis
      by (simp add: view.same_view_def fit_router_def user_router_def peaceful_def parts)
  qed
  then show ?thesis
    unfolding world_within_def by (blast intro: wpI)
qed

interpretation activation: gateway_contract activation_files "file_of r" "tidy (root_elements r) activation_files"
    "reliable (root_elements r) activation_files" "on_router r l polls js gw" "fit_router js r0" "user_router r0"
    "\<lambda>m. cleaned gw (beyond_of m)" "peaceful js r l gw" "root_elements r" "{}" "dns_snapshot r0" for r l polls js gw r0
proof (rule gateway_contract.intro)
  show "durable_store activation_files (file_of r) (tidy (root_elements r) activation_files)
      (reliable (root_elements r) activation_files) (AcFs (on_router r l polls js gw)) (root_elements r) {}"
    using data.durable_store_axioms [of r] by simp
  show "gateway_contract_axioms activation_files (file_of r) (tidy (root_elements r) activation_files)
      (reliable (root_elements r) activation_files) (on_router r l polls js gw) (fit_router js r0) (user_router r0)
      (\<lambda>m. cleaned gw (beyond_of m)) (peaceful js r l gw) (root_elements r) (dns_snapshot r0)"
  proof (rule gateway_contract_axioms.intro, unfold on_router_fields controller_fields, goal_cases)
    case (6 m t)
    then show ?case
      by (simp add: fit_router_def backup_coded_def)
  next
    case (7 q)
    show ?case
      by (rule disk_same_view)
  next
    case (14 ctx p m)
    show ?case
      by (rule cleanup_step_wp)
  next
    case (15 m q)
    then show ?case
      by (simp add: data.steady_def)
  next
    case 2
    show ?case
      by (simp add: root_path_def)
  qed (rule acquire_silent authorize_silent release_silent controllers_step backup_router apply_router restore_router last_plan_apart
      activation_names refl root_path_def, assumption?)+
qed

end
