(* ===== verification/Activation_Properties.thy ===== *)
theory Activation_Properties
  imports Activation_Machine
begin

text \<open>
  What the activation owes on a whole router, for every sequence of its operations, every fault of the
  disks and of UCI and every controller of the capture; and a concrete router.
\<close>

section \<open>From a router that nobody has touched\<close>

definition untouched :: "state_root \<Rightarrow> activation_json \<Rightarrow> 'g world \<Rightarrow> bool" where
  "untouched r js m \<longleftrightarrow> tidy (root_elements r) activation_files m \<and> kept (router_of m) \<and>
     backup_coded js (router_of m) \<and> file_of r m dns_backup_file = None"

text \<open>The options are the user's, and dnsmasq serves them or what it served before.\<close>

definition user_options :: "'g router \<Rightarrow> 'g router \<Rightarrow> bool" where
  "user_options x y \<longleftrightarrow> map_of (Shown y) = map_of (Shown x) \<and> (Serving y = Serving x \<or> Serving y = map_of (Shown x))"

lemma untouched_recoverable:
  assumes "untouched r js m"
  shows "activation.recoverable r l polls js gw (router_of m) m"
  using assms by (simp add: untouched_def activation.recoverable_def fit_router_def user_router_def kept_in_order)

lemma user_router_options: "user_router x m \<longleftrightarrow> user_options x (router_of m)"
  by (simp add: user_router_def user_options_def)

text \<open>
  C5. The user's resolver can always be recovered. Start from a router without a backup, and let any
  activations, deactivations, reconciliations, refreshes and diagnoses run, in any order, with whatever
  faults. Then the options of dnsmasq are the user's and no backup is left, or the backup file records
  exactly the user's options, which a restore puts back; no other option has changed.
\<close>

theorem resolver_recoverable:
  assumes "untouched r js m" and "run_state (gateway_calls (on_router r l polls js gw) cs) m = ((), m')"
  shows "tidy (root_elements r) activation_files m' \<and>
    (\<forall>n \<in> - set managed_dns_options. map_of (Shown (router_of m')) n = map_of (Shown (router_of m)) n) \<and>
    (file_of r m' dns_backup_file = None \<and> user_options (router_of m) (router_of m') \<or>
     (\<exists>t. file_of r m' dns_backup_file = Some t \<and>
        decoded_whole ''DNS backup'' (DecodeBackup js t) = Inr (dns_snapshot (router_of m))))"
proof -
  have rec: "activation.recoverable r l polls js gw (router_of m) m'"
    using wp_run [OF activation.calls_keep [OF untouched_recoverable [OF assms(1)]] assms(2)] .
  then have "same_outside managed (Shown (router_of m)) (Shown (router_of m'))"
    by (simp add: activation.recoverable_def fit_router_def dns_touched_def)
  then show ?thesis
    using rec by (simp add: activation.recoverable_def activation.noted_def user_router_options same_outside_def managed_def)
      blast
qed

text \<open>
  C6. A deactivation undoes the activation. Whatever operations came before, a deactivation that
  reports no error leaves the user's options in force, no backup, no active generation and no last
  plan, and the rest of the router as a successful cleanup has left it, unless nothing was recorded as
  active before. It reports no error if a plan is in memory and nothing fails.
\<close>

theorem deactivation_undoes:
  assumes "untouched r js m" and "run_state (gateway_calls (on_router r l polls js gw) cs) m = ((), m1)"
    and "run_state (deactivate_gateway (on_router r l polls js gw) prepared) m1 = (e, m2)"
  shows "(e = None \<longrightarrow> user_options (router_of m) (router_of m2) \<and> file_of r m2 dns_backup_file = None \<and>
      file_of r m2 active_gateway_path = None \<and> DpLast (Runtime m2) = None \<and>
      (cleaned gw (beyond_of m2) \<or> DpLast (Runtime m1) = None \<and> file_of r m1 active_gateway_path = None \<and>
         file_of r m1 dns_backup_file = None)) \<and>
    (peaceful js r l gw m1 \<and> reliable (root_elements r) activation_files m1 \<and> DpLast (Runtime m1) \<noteq> None \<longrightarrow> e = None)"
proof -
  have rec: "activation.recoverable r l polls js gw (router_of m) m1"
    using wp_run [OF activation.calls_keep [OF untouched_recoverable [OF assms(1)]] assms(2)] .
  show ?thesis
    using wp_run [OF activation.deactivate_wp [OF rec] assms(3)]
    by (auto simp: activation.relieved_def activation.forgotten_def activation.unowned_def activation.easy_def user_router_options)
qed

end
