(* ===== verification/Activation_Owner.thy ===== *)
theory Activation_Owner
  imports Activation_Properties
begin

text \<open>
  Two data roots on one host: while the record of the owner names another root, no operation of the
  activation touches the router or the files of its own root.
\<close>

definition foreign_owner :: "activation_json \<Rightarrow> state_root \<Rightarrow> state_root \<Rightarrow> unit machine \<Rightarrow> bool" where
  "foreign_owner js r l x \<longleftrightarrow> tidy (root_elements l) lock_files x \<and> (\<exists>t ow. file_of l x owner_path = Some t \<and>
     decoded_whole ''OpenWrt owner state'' (DecodeOwner js t) = Inr ow \<and> OwnerRoot ow \<noteq> root_path r)"

text \<open>What happens meanwhile.\<close>

definition held_back :: "activation_json \<Rightarrow> state_root \<Rightarrow> state_root \<Rightarrow> 'g world \<Rightarrow> 'g world \<Rightarrow> bool" where
  "held_back js r l m m' \<longleftrightarrow> (foreign_owner js r l (locks_of m) \<and> tidy (root_elements r) activation_files m \<longrightarrow>
     foreign_owner js r l (locks_of m') \<and> router_of m' = router_of m \<and> data.steady r m m')"

interpretation held: preorder_frame "held_back js r l" for js r l
  by unfold_locales (auto simp: held_back_def dest: data.steady_trans data.steady_ok)

lemmas held_steps = held.framed_return held.framed_get held.framed_bind held.framed_if held.framed_option held.framed_sum
  held.framed_prod held.framed_bool

lemma heldI:
  assumes "\<And>m. foreign_owner js r l (locks_of m) \<Longrightarrow> tidy (root_elements r) activation_files m \<Longrightarrow>
    wp prog (\<lambda>_ m'. foreign_owner js r l (locks_of m') \<and> router_of m' = router_of m \<and> data.steady r m m') m"
  shows "world_within (held_back js r l) prog"
proof -
  have "held_back js r l m m'" if "run_state prog m = (a, m')" for a m m'
    using wp_run [OF assms that] by (simp add: held_back_def)
  then show ?thesis
    unfolding world_within_def by (blast intro: wpI)
qed

lemma foreign_steady: "lock_root.steady l m m' \<Longrightarrow> foreign_owner js r l (locks_of m) \<Longrightarrow> foreign_owner js r l (locks_of m')"
  by (simp add: foreign_owner_def lock_root.steady_def)

lemma locks_held:
  assumes "world_within (\<lambda>m m'. \<exists>x. m' = put_locks x m) prog"
    and "\<And>m. foreign_owner js r l (locks_of m) \<Longrightarrow> wp prog (\<lambda>_ m'. foreign_owner js r l (locks_of m')) m"
  shows "world_within (held_back js r l) prog"
proof (rule heldI)
  fix m :: "'a world"
  assume m: "foreign_owner js r l (locks_of m)" "tidy (root_elements r) activation_files m"
  show "wp prog (\<lambda>_ m'. foreign_owner js r l (locks_of m') \<and> router_of m' = router_of m \<and> data.steady r m m') m"
    by (rule wp_mono [OF wp_conj [OF assms(1) [unfolded world_within_def, rule_format] assms(2) [OF m(1)]]])
      (use m(2) in \<open>auto simp: data.steady_def\<close>)
qed

lemma foreign_tidy: "foreign_owner js r l x \<Longrightarrow> tidy (root_elements l) lock_files x"
  by (simp add: foreign_owner_def)

lemma lock_held:
  "world_within (held_back js r l) (acquire_lock lock_disk (root_path l) gateway_lock polls)"
  "world_within (held_back js r l) (release_lock lock_disk p)"
proof -
  show "world_within (held_back js r l) (acquire_lock lock_disk (root_path l) gateway_lock polls)"
    by (rule locks_held [OF lock_frame.framed_acquire], rule wp_mono [OF lock_root.lock_law [of l, folded root_path_def, OF foreign_tidy]])
      (auto intro: foreign_steady)
  show "world_within (held_back js r l) (release_lock lock_disk p)"
    by (rule locks_held [OF lock_frame.framed_release], rule wp_mono [OF lock_root.unlock_law [of l, OF foreign_tidy]])
      (auto intro: foreign_steady)
qed

text \<open>The owner is looked up and the root refused.\<close>

lemma load_owner_foreign:
  assumes "foreign_owner js r l (locks_of m)"
  shows "wp (load_owner_state (on_router r l polls js gw)) (\<lambda>a m'. lock_root.steady l m m' \<and>
    (case a of Inl e \<Rightarrow> \<not> absent e | Inr ow \<Rightarrow> OwnerRoot ow \<noteq> root_path r)) m"
  unfolding load_owner_state_def on_router_fields wp_attempt wp_return root_path_def [of l]
proof (rule lock_root.store_read_wp)
  obtain t ow where own: "file_of l (locks_of m) owner_path = Some t"
    "decoded_whole ''OpenWrt owner state'' (DecodeOwner js t) = Inr ow" "OwnerRoot ow \<noteq> root_path r"
    using assms by (auto simp: foreign_owner_def)
  show "case a of Inl e \<Rightarrow> lock_root.steady l m m1 \<and> (case (Inl e :: owner_state fallible) of Inl e \<Rightarrow> \<not> absent e | Inr ow \<Rightarrow> OwnerRoot ow \<noteq> root_path r)
    | Inr t \<Rightarrow> lock_root.steady l m m1 \<and> (case and_then (decoded_whole ''OpenWrt owner state'' (DecodeOwner js t))
        (checked_owner (on_router r l polls js gw)) of Inl e \<Rightarrow> \<not> absent e | Inr ow \<Rightarrow> OwnerRoot ow \<noteq> root_path r)"
    if "lock_root.steady l m m1" "lock_root.got l m owner_path a" for a m1
    using that own by (auto simp: lock_root.got_def and_then_def checked_owner_def err_not_exist_def split: sum.split)
qed (use assms in \<open>simp_all add: foreign_owner_def\<close>)

lemma authorize_refused:
  assumes "foreign_owner js r l (locks_of m)"
  shows "wp (authorize_root_locked (on_router r l polls js gw) claim) (\<lambda>e m'. e \<noteq> None \<and> lock_root.steady l m m') m"
  unfolding authorize_root_locked_def on_router_fields own_root sum.case wp_bind
  by (rule wp_mono [OF load_owner_foreign [OF assms]]) (auto simp: wp_return split: sum.splits)

lemma authorize_frame:
  "world_within (\<lambda>m m'. \<exists>x. m' = put_locks x m) (authorize_root_locked (on_router r l polls js gw) claim)"
  unfolding authorize_root_locked_def load_owner_state_def on_router_fields by (intro frame_rules)

lemma refused_held:
  assumes "\<And>e. world_within (held_back js r l) (k (Some e))"
  shows "world_within (held_back js r l) (State_Monad.bind (authorize_root_locked (on_router r l polls js gw) claim) k)"
proof (rule heldI, unfold wp_bind)
  fix m :: "'a world"
  assume m: "foreign_owner js r l (locks_of m)" "tidy (root_elements r) activation_files m"
  show "wp (authorize_root_locked (on_router r l polls js gw) claim) (\<lambda>e. wp (k e) (\<lambda>_ m'. foreign_owner js r l (locks_of m') \<and>
      router_of m' = router_of m \<and> data.steady r m m')) m"
  proof (rule wp_mono [OF wp_conj [OF authorize_frame [unfolded world_within_def, rule_format] authorize_refused [OF m(1)]]], elim conjE exE)
    fix e :: "gerror option" and m1 x
    assume e: "e \<noteq> None" "lock_root.steady l m m1" "m1 = put_locks x m"
    then obtain y where y: "e = Some y"
      by blast
    have m1: "foreign_owner js r l (locks_of m1)" "tidy (root_elements r) activation_files m1" "router_of m1 = router_of m" "data.steady r m m1"
      using foreign_steady [OF e(2) m(1)] m(2) by (simp_all add: e(3) data.steady_def)
    show "wp (k e) (\<lambda>_ m'. foreign_owner js r l (locks_of m') \<and> router_of m' = router_of m \<and> data.steady r m m') m1"
      unfolding y by (rule wp_mono [OF assms [unfolded world_within_def, rule_format]])
        (use m1 data.steady_trans in \<open>auto simp: held_back_def\<close>)
  qed
qed

section \<open>Looking and forgetting\<close>

definition same_runtime :: "'r machine \<Rightarrow> 'r machine \<Rightarrow> bool" where
  "same_runtime m m' \<longleftrightarrow> Runtime m' = Runtime m"

interpretation disk_frame: fs_frame same_runtime disk
  by unfold_locales (auto simp: same_runtime_def world_within_def disk_def wp_def Let_def split: option.split prod.split)

lemma looked_held:
  assumes "world_within (activation.still r l polls js gw r0) prog" and "world_within same_runtime prog"
  shows "world_within (held_back js r l) prog"
proof (rule heldI)
  fix m :: "'a world"
  assume m: "foreign_owner js r l (locks_of m)" "tidy (root_elements r) activation_files m"
  show "wp prog (\<lambda>_ m'. foreign_owner js r l (locks_of m') \<and> router_of m' = router_of m \<and> data.steady r m m') m"
  proof (rule wp_mono [OF wp_conj [OF assms [unfolded world_within_def, rule_format]]], elim conjE)
    fix m'
    assume same: "same_runtime m m'" and still: "activation.still r l polls js gw r0 m m'"
    have parts: "router_of m' = router_of m" "locks_of m' = locks_of m"
      using same by (simp_all add: same_runtime_def router_of_def locks_of_def)
    have "data.steady r m m'"
      using still m(2) unfolding activation.still_def by blast
    then show "foreign_owner js r l (locks_of m') \<and> router_of m' = router_of m \<and> data.steady r m m'"
      unfolding parts using m(1) by blast
  qed
qed

lemmas disk_steps = disk_frame.framed_return disk_frame.framed_get disk_frame.framed_bind disk_frame.framed_if
  disk_frame.framed_attempt disk_frame.framed_requests disk_frame.framed_store_read

lemma disk_looks:
  "world_within same_runtime (gateway_mode_enabled (on_router r l polls js gw))"
  "world_within same_runtime (has_gateway_ownership (on_router r l polls js gw))"
  unfolding gateway_mode_enabled_def load_runtime_settings_def load_settings_def has_gateway_ownership_def present_or_unknown_def
    on_router_fields by (rule disk_steps)+

lemma queries_held:
  "world_within (held_back js r l) (gateway_mode_enabled (on_router r l polls js gw))"
  "world_within (held_back js r l) (has_gateway_ownership (on_router r l polls js gw))"
  by (rule looked_held [OF activation.queries_still(1) disk_looks(1)] looked_held [OF activation.queries_still(2) disk_looks(2)])+

lemma put_last_held: "world_within (held_back js r l) (put_last (on_router r l polls js gw) q)"
  by (rule heldI) (simp add: put_last_def wp_update data.steady_def)

section \<open>The operations\<close>

lemma transaction_held: "world_within (held_back js r l) (with_transaction (on_router r l polls js gw) claim m)"
  unfolding with_transaction_def with_file_lock_def authorized_def Prelude.check_def on_router_fields
  by (rule lock_held held_steps refused_held | simp)+

lemma call_held: "world_within (held_back js r l) (gateway_call (on_router r l polls js gw) c)"
proof -
  have refresh: "world_within (held_back js r l) (refresh_dynamic_capture (on_router r l polls js gw) d e)" for d e
    unfolding refresh_dynamic_capture_def on_router_fields
    by (rule held.framed_bind, rule lock_held, rule held.framed_sum, rule held.framed_return, rule refused_held)
      (simp add: lock_held held_steps)
  have diagnose: "world_within (held_back js r l) (diagnose_gateway (on_router r l polls js gw))"
  proof -
    have "world_within (held_back js r l) (diagnose_locked (on_router r l polls js gw))"
      unfolding diagnose_locked_def by (rule refused_held) (simp add: held_steps)
    then show ?thesis
      unfolding diagnose_gateway_def on_router_fields by (auto intro!: lock_held held_steps)
  qed
  show ?thesis
    unfolding gateway_call_def activate_gateway_def deactivate_gateway_def reconcile_gateway_def
    by (cases c) (auto intro!: held_steps refresh diagnose queries_held put_last_held transaction_held)
qed

text \<open>
  C7. Two data roots never fight over a router. While the record of the owner under the host's lock root
  names another data root, any sequence of operations, whatever fails, leaves the whole router as it was,
  the resolver and the capture alike, and the files of its own root and the record too.
\<close>

theorem foreign_owner_refused:
  assumes "foreign_owner js r l (locks_of m)" and "tidy (root_elements r) activation_files m"
    and "run_state (gateway_calls (on_router r l polls js gw) cs) m = ((), m')"
  shows "router_of m' = router_of m \<and> foreign_owner js r l (locks_of m') \<and>
    file_of r m' active_gateway_path = file_of r m active_gateway_path \<and>
    file_of r m' dns_backup_file = file_of r m dns_backup_file"
proof -
  have held: "world_within (held_back js r l) (gateway_calls (on_router r l polls js gw) cs)"
    by (induction cs) (simp_all add: held_steps call_held)
  have "held_back js r l m m'"
    using wp_run [OF held [unfolded world_within_def, rule_format] assms(3)] .
  then show ?thesis
    using assms(1,2) activation_names by (simp add: held_back_def data.steady_content)
qed

end
