(* ===== verification/Activation_Witness.thy ===== *)
theory Activation_Witness
  imports Activation_Owner State_Witness
begin

text \<open>
  A concrete router on which the hypotheses of the properties of the activation hold: two empty disks, the
  dnsmasq section of \<open>demo_router\<close>, codings by numbers in braces, and a gateway that captures nothing.
\<close>

section \<open>Codings\<close>

definition of_option :: "uci_option \<Rightarrow> bool \<times> string \<times> string list" where
  "of_option s = (Present s, Kind s, Values s)"

definition to_option :: "bool \<times> string \<times> string list \<Rightarrow> uci_option" where
  "to_option = (\<lambda>(p, k, vs). \<lparr>Present = p, Kind = k, Values = vs\<rparr>)"

definition of_backup :: "dns_backup \<Rightarrow> (int \<times> string \<times> string) \<times> (bool \<times> string \<times> string list) option list" where
  "of_backup b = ((BackupVersion b, BackupPackage b, BackupSection b),
     map (\<lambda>n. map_option of_option (BackupOptions b n)) managed_dns_options)"

definition to_backup :: "(int \<times> string \<times> string) \<times> (bool \<times> string \<times> string list) option list \<Rightarrow> dns_backup" where
  "to_backup = (\<lambda>((v, p, s), os). \<lparr>BackupVersion = v, BackupPackage = p, BackupSection = s,
     BackupOptions = (\<lambda>n. Option.bind (map_of (zip managed_dns_options os) n) (map_option to_option))\<rparr>)"

lemma option_back [simp]: "to_option (of_option s) = s"
  by (simp add: of_option_def to_option_def)

lemma backup_back: "to_backup (of_backup (dns_snapshot x)) = dns_snapshot x"
proof -
  have "Option.bind (map_of (zip managed_dns_options (map (\<lambda>n. map_option of_option (BackupOptions (dns_snapshot x) n))
      managed_dns_options)) n) (map_option to_option) = BackupOptions (dns_snapshot x) n" for n
    by (simp add: managed_dns_options_def dns_snapshot_def managed_def)
  then show ?thesis
    by (simp add: to_backup_def of_backup_def dns_snapshot_def)
qed

definition demo_coding :: activation_json where
  "demo_coding = \<lparr>
     EncodeActive = (\<lambda>_. Inl (Err ''not encoded'')), DecodeActive = (\<lambda>_. Inl (Err ''not decoded'')),
     EncodeBackup = (\<lambda>b. Inr (put_number (to_nat (of_backup b)))),
     DecodeBackup = (\<lambda>s. Inr (to_backup (from_nat (get_number s)), False)),
     EncodeOwner = (\<lambda>ow. Inr (put_number (to_nat (OwnerVersion ow, OwnerRoot ow)))),
     DecodeOwner = (\<lambda>s. case from_nat (get_number s) of (v, root) \<Rightarrow> Inr (\<lparr>OwnerVersion = v, OwnerRoot = root\<rparr>, False)),
     ParseUrl = (\<lambda>s. Inr (''http'', s, [], []))\<rparr>"

lemma demo_backup_coded: "backup_coded demo_coding x"
  by (simp add: backup_coded_def demo_coding_def backup_back)

lemma demo_owner_coded: "EncodeOwner demo_coding ow = Inr t \<Longrightarrow> DecodeOwner demo_coding (t @ s) = Inr (ow, False)"
  by (auto simp: demo_coding_def)

section \<open>A router\<close>

definition idle_gateway :: "unit gateway_controller" where
  "idle_gateway = \<lparr>
     GwDetect = (\<lambda>_. State_Monad.return (Inr no_discovery)), GwApply = (\<lambda>_ _. State_Monad.return None),
     GwCleanup = (\<lambda>_ _. State_Monad.return None), GwCheck = (\<lambda>_ _. State_Monad.return (no_table, None))\<rparr>"

definition empty_disk :: "'r \<Rightarrow> 'r machine" where
  "empty_disk x = \<lparr>Nodes = Map.empty, Plan = (\<lambda>_. None), Asked = 0, Suffix = id, Runtime = x\<rparr>"

definition demo_world :: "gateway_plan option \<Rightarrow> unit machine \<Rightarrow> unit world" where
  "demo_world p x = empty_disk \<lparr>DpRouter = demo_router\<lparr>UciPlan := (\<lambda>_. None)\<rparr>, DpLocks = x, DpLast = p\<rparr>"

lemma empty_disk_sound: "tidy rs ns (empty_disk x)" "reliable rs ns (empty_disk x)" "file_of r (empty_disk x) n = None"
  by (simp_all add: tidy_def reliable_def clear_def file_of_def empty_disk_def)

lemma demo_world_parts: "router_of (demo_world p x) = demo_router\<lparr>UciPlan := (\<lambda>_. None)\<rparr>" "locks_of (demo_world p x) = x"
  "DpLast (Runtime (demo_world p x)) = p" "tidy rs ns (demo_world p x)" "reliable rs ns (demo_world p x)"
  "file_of r (demo_world p x) n = None"
  unfolding demo_world_def by (simp_all add: empty_disk_sound) (simp_all add: router_of_def locks_of_def empty_disk_def)

lemma demo_untouched: "untouched demo_root demo_coding (demo_world p x)"
  using demo_router_kept by (simp add: untouched_def demo_world_parts demo_backup_coded) (simp add: kept_def)

lemma demo_peaceful: "peaceful demo_coding demo_root demo_root idle_gateway (demo_world p (empty_disk ()))"
  by (simp add: peaceful_def demo_world_parts own_locks_def empty_disk_sound router_calm_def willing_def idle_gateway_def
      State_Monad.return_def demo_owner_coded) (simp add: demo_coding_def)

lemma run_somewhere: "\<exists>s'. run_state (m :: ('s, unit) state) s = ((), s')"
  by (cases "run_state m s") simp

lemma demo_snapshot: "dns_snapshot (demo_router\<lparr>UciPlan := (\<lambda>_. None)\<rparr>) = dns_snapshot demo_router"
  by (simp add: dns_snapshot_def shown_at_def cong: if_cong)

definition demo_prepared :: prepared_core where "demo_prepared = zero_core"

lemma resolver_recoverable_witness:
  "\<exists>m'. run_state (gateway_calls (on_router demo_root demo_root 0 demo_coding idle_gateway)
      [CallActivate demo_prepared, CallReconcileGateway, CallDeactivate demo_prepared]) (demo_world None (empty_disk ())) = ((), m') \<and>
    map_of (Shown (router_of m')) ''domain'' = Some \<lparr>Present = True, Kind = uci_single, Values = [''lan'']\<rparr> \<and>
    (map_of (Shown (router_of m')) ''server'' = map_of (Shown demo_router) ''server'' \<or>
     (\<exists>t. file_of demo_root m' dns_backup_file = Some t \<and>
        decoded_whole ''DNS backup'' (DecodeBackup demo_coding t) = Inr (dns_snapshot demo_router)))"
proof -
  obtain m' where run: "run_state (gateway_calls (on_router demo_root demo_root 0 demo_coding idle_gateway)
      [CallActivate demo_prepared, CallReconcileGateway, CallDeactivate demo_prepared]) (demo_world None (empty_disk ())) = ((), m')"
    by (rule exE [OF run_somewhere])
  then show ?thesis
    using resolver_recoverable [OF demo_untouched run] demo_snapshot
    by (auto simp: demo_world_parts user_options_def) (simp_all add: demo_router_def managed_dns_options_def)
qed

lemma deactivation_undoes_witness:
  "\<exists>m2. run_state (deactivate_gateway (on_router demo_root demo_root 0 demo_coding idle_gateway) demo_prepared)
      (demo_world (Some (default_gateway_plan ''mixed'')) (empty_disk ())) = (None, m2) \<and>
    user_options demo_router (router_of m2) \<and> DpLast (Runtime m2) = None \<and> cleaned idle_gateway (beyond_of m2)"
proof -
  let ?m = "demo_world (Some (default_gateway_plan ''mixed'')) (empty_disk ())"
  obtain e m2 where run: "run_state (deactivate_gateway (on_router demo_root demo_root 0 demo_coding idle_gateway) demo_prepared) ?m = (e, m2)"
    by fastforce
  have "run_state (gateway_calls (on_router demo_root demo_root 0 demo_coding idle_gateway) []) ?m = ((), ?m)"
    by (simp add: State_Monad.return_def)
  from deactivation_undoes [OF demo_untouched this run] show ?thesis
    using demo_peaceful run by (simp add: demo_world_parts user_options_def)
qed

section \<open>Another owner\<close>

definition other_record :: owner_state where "other_record = \<lparr>OwnerVersion = 1, OwnerRoot = ''/srv/boxctl''\<rparr>"

definition claimed_disk :: "unit machine" where
  "claimed_disk = (empty_disk ())\<lparr>Nodes := (\<lambda>p. if p = place (root_elements demo_root) owner_path
       then Some (File (put_number (to_nat (OwnerVersion other_record, OwnerRoot other_record)) @ [CHR 0x0A]) 384)
     else if lock_dir.folder demo_root p then Some Folder else None)\<rparr>"

lemma claimed_disk_foreign: "foreign_owner demo_coding demo_root demo_root claimed_disk"
proof -
  have owner: "owner_path \<in> lock_dir.files"
    by (simp add: tree_files lock_files_def)
  have "place (root_elements demo_root) n \<noteq> place (root_elements demo_root) owner_path" if "n \<in> lock_dir.files" "n \<noteq> owner_path" for n
    using that owner lock_dir.place_inject by blast
  then have "lock_dir.ok demo_root claimed_disk"
    using owner by (auto simp: lock_dir.ok_def lock_dir.tree_ok_def claimed_disk_def)
  moreover have "OwnerRoot other_record \<noteq> root_path demo_root"
    by (simp add: other_record_def root_path_def demo_elements) code_simp
  moreover have "file_of demo_root claimed_disk owner_path = Some (put_number (to_nat (OwnerVersion other_record, OwnerRoot other_record)) @ [CHR 0x0A])"
    by (simp add: file_of_def claimed_disk_def)
  ultimately show ?thesis
    using demo_owner_coded [of other_record] by (simp add: foreign_owner_def lock_view) (simp add: decoded_whole_def demo_coding_def)
qed

lemma foreign_owner_refused_witness:
  "\<exists>m'. run_state (gateway_calls (on_router demo_root demo_root 0 demo_coding idle_gateway)
      [CallReconcileGateway, CallDeactivate demo_prepared]) (demo_world None claimed_disk) = ((), m') \<and>
    router_of m' = demo_router\<lparr>UciPlan := (\<lambda>_. None)\<rparr>"
proof -
  obtain m' where run: "run_state (gateway_calls (on_router demo_root demo_root 0 demo_coding idle_gateway)
      [CallReconcileGateway, CallDeactivate demo_prepared]) (demo_world None claimed_disk) = ((), m')"
    by (rule exE [OF run_somewhere])
  then show ?thesis
    using foreign_owner_refused [OF _ _ run] claimed_disk_foreign by (simp add: demo_world_parts)
qed

end
