(* ===== verification/Spec2Isabelle.thy ===== *)
theory Spec2Isabelle
  imports Lifecycle_Trace Dns_Probe_Proofs Gateway_Plan_Proofs Policy_Safety Policy_Roundtrip
    Gateway_Ruleset_Proofs Gateway_Apply_Proofs Fakeip_Proofs Fakeip_Generated Fakeip_Store_Proofs
    Web_Password_Proofs Web_Login_Proofs Web_Session_Proofs State_Store_Proofs Switch_Witness
    Dns_Restore Interfaces_Proofs Activation_Witness
begin

text \<open>
  \<^bold>\<open>boxctl in Isabelle/HOL.\<close> The program manages a transparent proxy on a router: it supervises a proxy
  core (Mihomo or sing-box), captures traffic for it with nftables and policy routing, keeps profiles
  and other state in a private directory, and serves a web interface. This library models the part
  of it that decides: the core lifecycle, what is installed on the router and what is left alone, the
  ownership of the router and of the resolver's options, the state directory with the switch of profiles, the settings,
  the fake-IP whitelist, and the login of the web interface.

  \<^bold>\<open>How the code is modelled.\<close> A Go struct is a record, an enumeration a datatype, a string a list of
  bytes (\<^verbatim>\<open>string\<close>), an error a value of \<^verbatim>\<open>gerror\<close> with its wrapping (\<open>Wrap\<close>, \<open>Noted\<close>), its joins and its
  sentinels, and a pair of a value and an error a sum (\<open>fallible\<close>). Go's \<^verbatim>\<open>int\<close> is \<^typ>\<open>int\<close>, bytes and fixed-width
  counters are words. Stateful code is a program of the library's state monad over a world \<open>'w\<close>; the
  interfaces, commands and system calls it uses are fields of a record or an argument of such
  programs, so that a theorem holds for every environment that meets its hypotheses. A mutex is the
  sequencing of one program. \<open>wp m Q s\<close> (\<open>Prelude\<close>) is the weakest precondition of a program, with one
  rule per construct in \<open>wp_simps\<close>; it is total, since every program of the model terminates.

  \<^bold>\<open>The theories.\<close>

  \<^item> \<open>Prelude\<close> (errors, fallible steps, \<open>wp\<close>), \<open>Go_Strings\<close>, \<open>Go_Encoding\<close>, \<open>Go_Path\<close>, \<open>Netip\<close>, \<open>Netip_Text\<close> (what the program
    uses of Go's standard library), \<open>Transcript\<close> (programs against an arbitrary environment that is
    remembered as the list of its exchanges; the locale \<open>recorder\<close>), \<open>File_System\<close> (the requests the stores
    make, and a machine that answers them with a plan of faults).
  \<^item> \<open>Engine_Types\<close>: capture plans, prepared cores and health (\<^verbatim>\<open>internal/engine/types.go\<close>).
  \<^item> \<open>Lifecycle\<close>: every operation of \<^verbatim>\<open>internal/app/lifecycle.go\<close> with the restart guard of
    \<^verbatim>\<open>restart_guard.go\<close>, over the record \<open>lifecycle_deps\<close> of its collaborators. \<open>Lifecycle_Safety\<close> states what it owes the
    platform as the locale \<open>fail_open_platform\<close>; \<open>Lifecycle_Frame\<close> what it leaves alone as \<open>call_relation\<close>;
    \<open>Lifecycle_Trace\<close> interprets both on an arbitrary environment whose world is the history of its calls;
    \<open>Lifecycle_Commit\<close> follows the commit inside of a switch (\<open>commit_relation\<close>).
  \<^item> \<open>Dns_Probe\<close>, \<open>Dns_Probe_Proofs\<close>: the DNS readiness probe (\<^verbatim>\<open>internal/engine/dns_probe.go\<close>) against the message
    format given as the inductive relations \<open>decodes\<close> and \<open>tiles\<close>.
  \<^item> \<open>Gateway_Plan\<close>, \<open>Gateway_Ruleset\<close>, \<open>Gateway_Apply\<close> (\<^verbatim>\<open>internal/platform/openwrt/gateway.go\<close>, \<^verbatim>\<open>firewall.go\<close>) and
    \<open>Policy_Routes\<close> (\<^verbatim>\<open>policy.go\<close>, \<^verbatim>\<open>runner.go\<close>), each with its proofs: the plan, the rendered chains and what they do to a
    packet (\<open>run_rules\<close>), and their application over a command runner.
  \<^item> \<open>Interfaces\<close>, \<open>Interfaces_Proofs\<close>: the discovery of interfaces and the plan built from them
    (\<^verbatim>\<open>internal/platform/openwrt/interfaces.go\<close>).
  \<^item> \<open>Go_Runes\<close>, \<open>Uci_Text\<close>, \<open>Uci_Words\<close> (runes, quoting and the words of UCI's output) and \<open>Dns_Manager\<close>
    (\<^verbatim>\<open>internal/platform/openwrt/dns.go\<close>): backup, application and restoration of the options of dnsmasq.
    \<open>Uci_Machine\<close> is a router that stages, commits and reverts options and may fail; \<open>Dns_Batch\<close>,
    \<open>Dns_Manager_Proofs\<close> and \<open>Dns_Restore\<close> run the manager on it.
  \<^item> \<open>Gateway_Owner\<close> (\<^verbatim>\<open>internal/app/openwrt_owner.go\<close>) and \<open>Gateway_Activation\<close>
    (\<^verbatim>\<open>internal/app/openwrt_activation.go\<close>): the owner of the dataplane above gateway, resolver and policy routing,
    over the records \<open>gateway_controller\<close> and \<open>dns_controller\<close> of what it drives. \<open>Activation_Contract\<close> proves what it
    owes the user once, in the locale \<open>gateway_contract\<close> (which extends \<open>durable_store\<close>), with the frame rules of
    \<open>Store_Frame\<close>; \<open>Activation_Machine\<close> interprets it on a router with two disks, a dnsmasq whose commands may fail and
    any controller of the capture, each a part of the world reached through a \<open>lens\<close> (\<open>Zoom\<close>);
    \<open>Activation_Properties\<close> and \<open>Activation_Owner\<close> state the properties, \<open>Activation_Witness\<close> holds a concrete router.
  \<^item> \<open>Settings_Text\<close> (\<^verbatim>\<open>internal/state/settings.go\<close>), \<open>Runtime_Settings\<close> and \<open>Runtime_Settings_Proofs\<close>
    (\<^verbatim>\<open>internal/app/settings.go\<close>): the settings document, its decoding, defaults and ranges.
  \<^item> \<open>Fakeip_Text\<close>, \<open>Fakeip_Sections\<close>, \<open>Fakeip_Canonical\<close>, \<open>Fakeip_Generated\<close>, \<open>Fakeip_Proofs\<close>: the text of the whitelist;
    \<open>Fakeip_Store\<close>, \<open>Fakeip_Store_Proofs\<close>: its store (\<^verbatim>\<open>internal/fakeip/store.go\<close>; locale \<open>file_system\<close>).
  \<^item> \<open>Web_Password\<close>, \<open>Web_Login\<close>, \<open>Web_Session\<close> and their proofs: \<^verbatim>\<open>internal/web/auth.go\<close>, the login handler of
    \<^verbatim>\<open>handlers.go\<close>, \<^verbatim>\<open>internal/state/password.go\<close> and \<^verbatim>\<open>internal/app/credentials.go\<close>.
  \<^item> \<open>State_Store\<close> (\<^verbatim>\<open>internal/state/store.go\<close>), \<open>State_Profiles\<close> (\<^verbatim>\<open>layout.go\<close>, \<^verbatim>\<open>profile.go\<close>, \<^verbatim>\<open>profiles.go\<close>) and \<open>Profile_Switch\<close>
    (\<^verbatim>\<open>internal/app/profile_revisions.go\<close>, \<^verbatim>\<open>profile_switch.go\<close>, parts of \<^verbatim>\<open>engines.go\<close> and \<^verbatim>\<open>actions.go\<close>): the state directory,
    its programs over file-system requests. \<open>State_Durable\<close> states the contract of such a directory as the
    locale \<open>durable_store\<close> (over \<open>named_files\<close>): each request answers with what a file holds, and a write or removal takes
    place or reports an error. \<open>State_Activation\<close> and \<open>Switch_Recovery\<close> prove activation, commit and recovery
    once inside of it (\<open>profile_dir\<close>); \<open>State_Machine\<close> shows that the machine of \<open>File_System\<close> keeps the contract for
    every tree of ordinary names (\<open>state_tree\<close>, a sublocale); \<open>Switch_Safety\<close> composes the switch with the
    lifecycle; \<open>State_Directory\<close> interprets everything on the program's own directory and states the
    properties; \<open>State_Witness\<close> and \<open>Switch_Witness\<close> hold a concrete installation.

  \<^bold>\<open>What is shown.\<close>

  \<^item> Lifecycle. For every environment and every sequence of operations: the core is stopped only while
    nothing can be captured, capture is activated only for a core that has just answered ready, every
    restart guard is followed by an attempt to remove it, a nil error means what it says, a commit is run
    at most once. The loops of the code that wait carry the number of their ticks, so they terminate.
  \<^item> Router. Whatever the tools answer, reconciling and cleaning up touch only objects the same run has
    seen to be owned; a successful reconciliation has installed every wanted rule; the rendered chains
    return the core's own traffic before anything is captured, and decide every IPv4 packet as a
    specification over the plan says; what policy routing adds it recognises when listed.
  \<^item> Resolver and settings. Whatever fails on the way, restoring the backup with a nil error has put back
    the options the user had, and nothing else of the configuration has changed. After any sequence of activations,
    deactivations, reconciliations and refreshes with any faults the resolver is the user's or its backup is
    on disk; a deactivation without an error has undone everything; nothing is touched while the router
    belongs to another data root. A plan built from
    detected interfaces never captures an interface that carries the default route. An encoded settings
    document is read back as it was; decoded settings are within the ranges the program relies on.
  \<^item> DNS probe and whitelist. A name is read exactly if the format's relation decodes it within 255
    octets; a response is accepted exactly if it is a well-formed answer to the query. Canonical lists are a
    normal form; replacing the generated block reads back exactly; publication is by renaming a
    complete file whose predecessor has the revision the caller has seen.
  \<^item> State directory. Names stay below the root. A write is all or nothing, whatever requests fail. An
    activation changes at most the selection and one mirror. After a switch that was interrupted at any
    request the next start restores the old selection or completes the new one.
  \<^item> Login. PBKDF2 is the function of RFC 8018; created records verify; guesses are bounded; the limiter
    refines one counter per address; issued sessions live until they expire through every rotation,
    and none survives a revocation.

  \<^bold>\<open>Parameters and hypotheses.\<close> JSON codings, SHA-256, HMAC, the time format, the clock, the random source,
  resolvers, sockets and commands are parameters. The hypotheses name what is used of them: \<open>codings\<close> (what
  was encoded is decoded with nothing behind it, an object is in braces, the digest is 64 hexadecimal
  digits), \<open>leaves_files\<close> and \<open>lifecycle_registers_only\<close> (the preparers and the lifecycle's collaborators leave
  the named files alone, but for the registry of revisions), \<open>sane\<close> (in the state directory directories are
  directories and files regular), \<open>faultless\<close> (no more faults, and fresh temporary names), \<open>tidy\<close> and \<open>reliable\<close> (the same for the trees of the activation),
  \<open>backup_coded\<close> and \<open>peaceful\<close> (a backup decodes to what was encoded; neither locks, commands nor cleanup
  will fail). The decoded
  answers of \<^verbatim>\<open>ubus\<close> and \<^verbatim>\<open>ip\<close> are arguments (\<open>network_json\<close>). Numbers such as the
  polls of a lock or the ticks before a deadline are arguments, and theorems hold for all of them. There is
  no fuel: a chain of compression pointers in the DNS probe is a \<^theory_text>\<open>function\<close> whose termination is proved from
  the code's own limit.

  \<^bold>\<open>Findings.\<close> Explicit empty bypass port lists are lost by a second normalization
  (\<open>explicit_empty_ports_are_lost\<close>); a whitelist that ends in a carriage return cannot be saved
  (\<open>save_after_carriage_return_fails\<close>); a record with a long salt is accepted by the state and refused by the
  login (\<open>long_salt_locks_out\<close>); the journal of a refused switch undoes later edits of the configuration at the next start
  (\<open>stale_journal_discards_edits\<close>). More are recorded without a lemma: an error of the fsync after a
  rename is taken for a failed write by the rollback of an activation and by the commit of a switch, a
  registry record that is not hexadecimal blocks the recovery, settings with a carriage return in a
  value can be loaded and never saved again, the limit on the number of ports counts a range for both
  protocols once, and a capture that an activation and a cleanup left behind is forgotten when the mode
  becomes server (the exception in \<open>deactivation_undoes\<close>).

  \<^bold>\<open>Not modelled.\<close> HTTP handlers but the login, the assembly of the parts and the command line, the
  transformations of YAML and JSON configurations, the engines' HTTP clients, the supervisor of processes,
  updates, backups, subscriptions, the rule converter, the dashboard proxy: glue over libraries, processes
  and the network. To the lifecycle the activation is a parameter, whose contract is the locale
  \<open>fail_open_platform\<close>. The closures the program registers with
  \<^verbatim>\<open>OnStarted\<close> are programs that may update the registry of revisions.
\<close>

end
